(* ===== verification/Prelude.thy ===== *)
theory Prelude
  imports Main "HOL-Library.AList"
begin

text \<open>
  Shared vocabulary of the development: the named fact collections, the error monad used where
  the program raises and catches exceptions, and the association lists that stand for Python
  dictionaries (insertion order kept, an update in place when the key is present).
\<close>

named_theorems guard_simps \<open>definitions of the guards and small checks of the components\<close>
named_theorems dict_simps \<open>lookup and key facts of dictionaries\<close>
named_theorems step_defs \<open>definitions of the operations of a component\<close>

subsection \<open>Results: a raised error or a value\<close>

type_synonym ('e, 'a) result = "'e + 'a"

abbreviation raise :: "'e \<Rightarrow> ('e, 'a) result" where
  "raise \<equiv> Inl"

abbreviation return :: "'a \<Rightarrow> ('e, 'a) result" where
  "return \<equiv> Inr"

definition bindR :: "('e, 'a) result \<Rightarrow> ('a \<Rightarrow> ('e, 'b) result) \<Rightarrow> ('e, 'b) result" where
  "bindR m f = (case m of Inl e \<Rightarrow> Inl e | Inr x \<Rightarrow> f x)"

lemma bindR_simps [simp]:
  "bindR (Inl e) f = Inl e"
  "bindR (Inr x) f = f x"
  by (simp_all add: bindR_def)

lemma bindR_eq_Inr [simp]: "bindR m f = Inr y \<longleftrightarrow> (\<exists>x. m = Inr x \<and> f x = Inr y)"
  by (cases m) auto

lemma bindR_eq_Inl: "bindR m f = Inl e \<longleftrightarrow> m = Inl e \<or> (\<exists>x. m = Inr x \<and> f x = Inl e)"
  by (cases m) auto

lemma bindR_assoc: "bindR (bindR m f) g = bindR m (\<lambda>x. bindR (f x) g)"
  by (cases m) auto

lemma bindR_cong [fundef_cong]:
  "m = m' \<Longrightarrow> (\<And>x. m' = Inr x \<Longrightarrow> f x = g x) \<Longrightarrow> bindR m f = bindR m' g"
  by (cases m') auto

definition mapErr :: "('e \<Rightarrow> 'f) \<Rightarrow> ('e, 'a) result \<Rightarrow> ('f, 'a) result" where
  "mapErr h m = (case m of Inl e \<Rightarrow> Inl (h e) | Inr x \<Rightarrow> Inr x)"

lemma mapErr_simps [simp]:
  "mapErr h (Inl e) = Inl (h e)"
  "mapErr h (Inr x) = Inr x"
  by (simp_all add: mapErr_def)

lemma mapErr_eq_Inr [simp]: "mapErr h m = Inr x \<longleftrightarrow> m = Inr x"
  by (cases m) auto

definition require :: "bool \<Rightarrow> 'e \<Rightarrow> ('e, unit) result" where
  "require b e = (if b then Inr () else Inl e)"

lemma require_eq_Inr [simp]: "require b e = Inr u \<longleftrightarrow> b"
  by (simp add: require_def)

lemma require_True [simp]: "require True e = Inr ()"
  by (simp add: require_def)

lemma require_False [simp]: "require False e = Inl e"
  by (simp add: require_def)

text \<open>The state of a result that also carries a value.\<close>

definition stateR :: "('e, 'a \<times> 's) result \<Rightarrow> ('e, 's) result" where
  "stateR m = bindR m (\<lambda>p. return (snd p))"

lemma stateR_Inr [simp]: "stateR m = return t \<longleftrightarrow> (\<exists>y. m = return (y, t))"
  by (auto simp: stateR_def)

fun mapR :: "('a \<Rightarrow> ('e, 'b) result) \<Rightarrow> 'a list \<Rightarrow> ('e, 'b list) result" where
  "mapR f [] = Inr []"
| "mapR f (x # xs) = bindR (f x) (\<lambda>y. bindR (mapR f xs) (\<lambda>ys. Inr (y # ys)))"

lemma mapR_length: "mapR f xs = Inr ys \<Longrightarrow> length ys = length xs"
  by (induction xs arbitrary: ys) auto

lemma mapR_Inr_iff: "mapR f xs = Inr ys \<longleftrightarrow> list_all2 (\<lambda>x y. f x = Inr y) xs ys"
proof (induction xs arbitrary: ys)
  case Nil
  then show ?case by auto
next
  case (Cons x xs)
  then show ?case by (cases ys) auto
qed

fun allR :: "('a \<Rightarrow> ('e, unit) result) \<Rightarrow> 'a list \<Rightarrow> ('e, unit) result" where
  "allR f [] = Inr ()"
| "allR f (x # xs) = bindR (f x) (\<lambda>_. allR f xs)"

lemma allR_Inr [simp]: "allR f xs = Inr u \<longleftrightarrow> (\<forall>x \<in> set xs. f x = Inr ())"
  by (induction xs) auto

subsection \<open>State and exceptions: effects made before an exception stay\<close>

type_synonym ('s, 'e, 'a) effect = "'s \<Rightarrow> ('e, 'a) result \<times> 's"

definition bindA :: "('s, 'e, 'a) effect \<Rightarrow> ('a \<Rightarrow> ('s, 'e, 'b) effect) \<Rightarrow> ('s, 'e, 'b) effect" where
  "bindA m f s = (case m s of (Inl e, t) \<Rightarrow> (Inl e, t) | (Inr x, t) \<Rightarrow> f x t)"

definition okA :: "'a \<Rightarrow> ('s, 'e, 'a) effect" where
  "okA x s = (Inr x, s)"

definition failA :: "'e \<Rightarrow> ('s, 'e, 'a) effect" where
  "failA e s = (Inl e, s)"

definition liftA :: "('e, 'a) result \<Rightarrow> ('s, 'e, 'a) effect" where
  "liftA r s = (r, s)"

definition checkA :: "bool \<Rightarrow> 'e \<Rightarrow> ('s, 'e, unit) effect" where
  "checkA b e s = (if b then (Inr (), s) else (Inl e, s))"

definition readA :: "('s \<Rightarrow> 'a) \<Rightarrow> ('s, 'e, 'a) effect" where
  "readA f s = (Inr (f s), s)"

definition writeA :: "('s \<Rightarrow> 's) \<Rightarrow> ('s, 'e, unit) effect" where
  "writeA f s = (Inr (), f s)"

lemma okA_simp [simp]: "okA x s = (Inr x, s)"
  by (simp add: okA_def)

lemma failA_simp [simp]: "failA e s = (Inl e, s)"
  by (simp add: failA_def)

lemma liftA_simp [simp]: "liftA r s = (r, s)"
  by (simp add: liftA_def)

lemma readA_simp [simp]: "readA f s = (Inr (f s), s)"
  by (simp add: readA_def)

lemma writeA_simp [simp]: "writeA f s = (Inr (), f s)"
  by (simp add: writeA_def)

lemma bindA_ok [simp]: "m s = (Inr x, t) \<Longrightarrow> bindA m f s = f x t"
  by (simp add: bindA_def)

lemma bindA_fail [simp]: "m s = (Inl e, t) \<Longrightarrow> bindA m f s = (Inl e, t)"
  by (simp add: bindA_def)

lemma bindA_Inr:
  "bindA m f s = (Inr y, u) \<longleftrightarrow> (\<exists>x t. m s = (Inr x, t) \<and> f x t = (Inr y, u))"
  by (auto simp: bindA_def split: prod.splits sum.splits)

lemma checkA_Inr [simp]: "checkA b e s = (Inr u, t) \<longleftrightarrow> b \<and> t = s"
  by (auto simp: checkA_def)

lemma checkA_True [simp]: "checkA True e s = (Inr (), s)"
  by (simp add: checkA_def)

lemma checkA_False [simp]: "checkA False e s = (Inl e, s)"
  by (simp add: checkA_def)

subsection \<open>Dictionaries\<close>

type_synonym ('k, 'v) dict = "('k \<times> 'v) list"

definition wf_dict :: "('k, 'v) dict \<Rightarrow> bool" where
  "wf_dict d \<longleftrightarrow> distinct (map fst d)"

definition dict_get :: "'k \<Rightarrow> ('k, 'v) dict \<Rightarrow> 'v option" where
  "dict_get k d = map_of d k"

definition dict_put :: "'k \<Rightarrow> 'v \<Rightarrow> ('k, 'v) dict \<Rightarrow> ('k, 'v) dict" where
  "dict_put k v d = AList.update k v d"

definition dict_del :: "'k \<Rightarrow> ('k, 'v) dict \<Rightarrow> ('k, 'v) dict" where
  "dict_del k d = AList.delete k d"

lemma dict_get_put [simp, dict_simps]:
  "dict_get k' (dict_put k v d) = (if k' = k then Some v else dict_get k' d)"
  by (simp add: dict_get_def dict_put_def update_conv')

lemma dict_get_del [simp, dict_simps]:
  "dict_get k' (dict_del k d) = (if k' = k then None else dict_get k' d)"
  by (simp add: dict_get_def dict_del_def delete_conv')

lemma dict_get_Nil [simp]: "dict_get k [] = None"
  by (simp add: dict_get_def)

lemma dict_get_Cons [simp]: "dict_get k ((k', v) # d) = (if k' = k then Some v else dict_get k d)"
  by (simp add: dict_get_def)

lemma wf_dict_Nil [simp]: "wf_dict []"
  by (simp add: wf_dict_def)

lemma wf_dict_put [simp, intro]: "wf_dict d \<Longrightarrow> wf_dict (dict_put k v d)"
  by (simp add: wf_dict_def dict_put_def distinct_update)

lemma wf_dict_del [simp, intro]: "wf_dict d \<Longrightarrow> wf_dict (dict_del k d)"
  by (simp add: wf_dict_def dict_del_def distinct_delete)

lemma dict_get_in_set: "dict_get k d = Some v \<Longrightarrow> (k, v) \<in> set d"
  by (simp add: dict_get_def map_of_SomeD)

lemma dict_get_set_iff: "wf_dict d \<Longrightarrow> dict_get k d = Some v \<longleftrightarrow> (k, v) \<in> set d"
  by (simp add: wf_dict_def dict_get_def)

lemma dict_get_None_iff: "dict_get k d = None \<longleftrightarrow> k \<notin> fst ` set d"
  by (simp add: dict_get_def map_of_eq_None_iff)

lemma dict_put_new: "dict_get k d = None \<Longrightarrow> dict_put k v d = d @ [(k, v)]"
  unfolding dict_put_def dict_get_def by (induction d) (auto split: if_splits)

lemma set_dict_put_subset: "set (dict_put k v d) \<subseteq> insert (k, v) (set d)"
  unfolding dict_put_def by (induction d) auto

lemma set_dict_put:
  "wf_dict d \<Longrightarrow> set (dict_put k v d) = insert (k, v) {p \<in> set d. fst p \<noteq> k}"
  unfolding dict_put_def wf_dict_def by (induction d) (force split: if_splits)+

lemma set_dict_del: "set (dict_del k d) = {p \<in> set d. fst p \<noteq> k}"
  unfolding dict_del_def by (induction d) (auto split: if_splits)

lemma dict_del_put_new: "dict_get k d = None \<Longrightarrow> dict_del k (dict_put k v d) = d"
  unfolding dict_put_def dict_get_def dict_del_def
  by (induction d) (auto split: if_splits simp: delete_id map_of_eq_None_iff)

end
