(* ===== verification/PyText.thy ===== *)
theory PyText
  imports Prelude "HOL-Library.List_Lexorder" "HOL-Library.Multiset"
begin

text \<open>
  Python text: a \<open>str\<close> is a list of Unicode code points, so \<open>len\<close>, comparison, slicing and the
  character tests are those of the interpreter. \<open>lit\<close> writes an ASCII literal.
\<close>

type_synonym pystr = "nat list"

definition lit :: "string \<Rightarrow> pystr" where
  "lit s = map of_char s"

lemma inj_of_char_nat: "inj (of_char :: char \<Rightarrow> nat)"
  by (auto simp: inj_on_def)

lemma lit_eq_iff [simp]: "lit s = lit t \<longleftrightarrow> s = t"
  by (simp add: lit_def inj_map_eq_map inj_of_char_nat)

lemma lit_eq_Nil [simp]: "lit s = [] \<longleftrightarrow> s = []" "[] = lit s \<longleftrightarrow> s = []"
  by (auto simp: lit_def)

lemma length_lit [simp]: "length (lit s) = length s"
  by (simp add: lit_def)

lemma lit_append: "lit (s @ t) = lit s @ lit t"
  by (simp add: lit_def)

lemma take_lit: "take n (lit s) = lit (take n s)"
  by (simp add: lit_def take_map)

subsection \<open>The string methods the program uses\<close>

text \<open>\<open>str.isspace\<close> of one code point.\<close>

definition py_isspace :: "nat \<Rightarrow> bool" where
  "py_isspace c \<longleftrightarrow>
     (if c \<le> 160 then c \<in> {9, 10, 11, 12, 13, 28, 29, 30, 31, 32, 133, 160}
      else c \<in> {5760, 8232, 8233, 8239, 8287, 12288} \<or> 8192 \<le> c \<and> c \<le> 8202)"

definition py_lstrip :: "pystr \<Rightarrow> pystr" where
  "py_lstrip s = dropWhile py_isspace s"

definition py_rstrip_of :: "(nat \<Rightarrow> bool) \<Rightarrow> pystr \<Rightarrow> pystr" where
  "py_rstrip_of p s = rev (dropWhile p (rev s))"

definition py_strip :: "pystr \<Rightarrow> pystr" where
  "py_strip s = py_rstrip_of py_isspace (py_lstrip s)"

definition startswith :: "pystr \<Rightarrow> pystr \<Rightarrow> bool" where
  "startswith s p \<longleftrightarrow> take (length p) s = p"

lemma startswith_lit [simp]: "startswith (lit s) (lit p) \<longleftrightarrow> take (length p) s = p"
  by (simp add: startswith_def take_lit)

lemma startswith_append [simp]: "startswith (p @ s) p"
  by (simp add: startswith_def)

lemma startswith_nonempty: "startswith s p \<Longrightarrow> p \<noteq> [] \<Longrightarrow> s \<noteq> []"
  by (auto simp: startswith_def)

lemma dropWhile_last_not:
  "dropWhile p xs \<noteq> [] \<Longrightarrow> \<not> p (hd (dropWhile p xs))"
  by (simp add: hd_dropWhile)

lemma py_strip_eq_Nil: "py_strip s = [] \<longleftrightarrow> (\<forall>c \<in> set s. py_isspace c)"
proof -
  have "py_strip s = [] \<longleftrightarrow> (\<forall>c \<in> set (py_lstrip s). py_isspace c)"
    by (simp add: py_strip_def py_rstrip_of_def dropWhile_eq_Nil_conv)
  also have "\<dots> \<longleftrightarrow> (\<forall>c \<in> set s. py_isspace c)"
  proof
    assume *: "\<forall>c \<in> set (py_lstrip s). py_isspace c"
    have "dropWhile py_isspace s = []"
      using * hd_dropWhile [of py_isspace s] hd_in_set
      by (cases "dropWhile py_isspace s = []") (force simp: py_lstrip_def)+
    then show "\<forall>c \<in> set s. py_isspace c"
      by (simp add: dropWhile_eq_Nil_conv)
  next
    assume "\<forall>c \<in> set s. py_isspace c"
    then show "\<forall>c \<in> set (py_lstrip s). py_isspace c"
      by (auto simp: py_lstrip_def dest: set_dropWhileD)
  qed
  finally show ?thesis .
qed

lemma py_strip_nonempty: "py_strip s \<noteq> [] \<Longrightarrow> s \<noteq> []"
  by (auto simp: py_strip_def py_lstrip_def py_rstrip_of_def)

lemma hd_rev_dropWhile_rev:
  "dropWhile p (rev xs) \<noteq> [] \<Longrightarrow> hd (rev (dropWhile p (rev xs))) = hd xs"
proof -
  assume ne: "dropWhile p (rev xs) \<noteq> []"
  have "rev xs = takeWhile p (rev xs) @ dropWhile p (rev xs)" by simp
  then have "xs = rev (dropWhile p (rev xs)) @ rev (takeWhile p (rev xs))"
    by (metis rev_append rev_rev_ident)
  then have "hd xs = hd (rev (dropWhile p (rev xs)) @ rev (takeWhile p (rev xs)))"
    by simp
  moreover have "rev (dropWhile p (rev xs)) \<noteq> []" using ne by simp
  ultimately show ?thesis by (metis hd_append2)
qed

lemma py_strip_idem [simp]: "py_strip (py_strip s) = py_strip s"
proof (cases "py_strip s = []")
  case True
  then show ?thesis by (simp only: True) (simp add: py_strip_def py_lstrip_def py_rstrip_of_def)
next
  case False
  let ?l = "dropWhile py_isspace s"
  let ?r = "dropWhile py_isspace (rev ?l)"
  have ne: "?r \<noteq> []" using False by (simp add: py_strip_def py_lstrip_def py_rstrip_of_def)
  have lne: "?l \<noteq> []" using ne by (metis dropWhile.simps(1) rev.simps(1))
  have hdl: "\<not> py_isspace (hd ?l)" using lne by (simp add: hd_dropWhile)
  have "hd (rev ?r) = hd ?l" by (rule hd_rev_dropWhile_rev [OF ne])
  with hdl ne have 1: "dropWhile py_isspace (rev ?r) = rev ?r"
    by (cases "rev ?r") auto
  have "\<not> py_isspace (hd ?r)" using ne by (simp add: hd_dropWhile)
  with ne have 2: "dropWhile py_isspace ?r = ?r" by (cases ?r) auto
  from 1 2 show ?thesis by (simp add: py_strip_def py_lstrip_def py_rstrip_of_def)
qed

subsection \<open>Decimal digits\<close>

definition is_digit :: "nat \<Rightarrow> bool" where
  "is_digit c \<longleftrightarrow> 48 \<le> c \<and> c \<le> 57"

fun digits_val :: "pystr \<Rightarrow> nat \<Rightarrow> nat" where
  "digits_val [] acc = acc"
| "digits_val (c # cs) acc = digits_val cs (acc * 10 + (c - 48))"

fun nat_digits :: "nat \<Rightarrow> pystr" where
  "nat_digits n = (if n < 10 then [48 + n] else nat_digits (n div 10) @ [48 + n mod 10])"

declare nat_digits.simps [simp del]

definition int_text :: "int \<Rightarrow> pystr" where
  "int_text i = (if i < 0 then 45 # nat_digits (nat (- i)) else nat_digits (nat i))"

lemma digits_val_append: "digits_val (xs @ ys) acc = digits_val ys (digits_val xs acc)"
  by (induction xs arbitrary: acc) auto

lemma digits_val_snoc [simp]: "digits_val (xs @ [c]) acc = digits_val xs acc * 10 + (c - 48)"
  by (simp add: digits_val_append)

lemma nat_digits_digit: "\<forall>c \<in> set (nat_digits n). is_digit c"
  by (induction n rule: nat_digits.induct)
     (subst nat_digits.simps, auto simp: is_digit_def)

lemma nat_digits_nonempty [simp]: "nat_digits n \<noteq> []"
  by (subst nat_digits.simps) auto

lemma digits_val_nat_digits [simp]: "digits_val (nat_digits n) 0 = n"
proof (induction n rule: nat_digits.induct)
  case (1 n)
  then show ?case by (subst nat_digits.simps) (auto simp: nat_digits.simps [of n])
qed

definition ndigits :: "nat \<Rightarrow> nat" where
  "ndigits n = length (nat_digits n)"

lemma ndigits_rec: "ndigits n = (if n < 10 then 1 else Suc (ndigits (n div 10)))"
  unfolding ndigits_def by (subst nat_digits.simps) auto

lemma ndigits_pos [simp]: "0 < ndigits n"
  by (simp add: ndigits_def)

lemma ndigits_bounds: "0 < n \<Longrightarrow> 10 ^ (ndigits n - 1) \<le> n" "n < 10 ^ ndigits n"
proof (induction n rule: nat_digits.induct)
  case (1 n)
  {
    case 1
    show ?case
    proof (cases "n < 10")
      case True
      then show ?thesis using 1 by (simp add: ndigits_rec [of n])
    next
      case False
      then have IH: "10 ^ (ndigits (n div 10) - 1) \<le> n div 10" using "1.IH"(1) by auto
      have e: "ndigits n - 1 = Suc (ndigits (n div 10) - 1)"
        using False by (simp add: ndigits_rec [of n])
      have "(10::nat) ^ (ndigits n - 1) = 10 * 10 ^ (ndigits (n div 10) - 1)" by (simp only: e power_Suc)
      also have "\<dots> \<le> 10 * (n div 10)" using IH by simp
      also have "\<dots> \<le> n" by simp
      finally show ?thesis .
    qed
  next
    case 2
    show ?case
    proof (cases "n < 10")
      case True
      then show ?thesis by (simp add: ndigits_rec [of n])
    next
      case False
      then have "n div 10 < 10 ^ ndigits (n div 10)" using "1.IH"(2) by auto
      then have "n < 10 * 10 ^ ndigits (n div 10)" by arith
      then show ?thesis using False by (simp add: ndigits_rec [of n])
    qed
  }
qed

lemma ndigits_le_iff: "0 < k \<Longrightarrow> ndigits n \<le> k \<longleftrightarrow> n < 10 ^ k"
proof
  assume k: "0 < k" and "ndigits n \<le> k"
  then show "n < 10 ^ k"
    using ndigits_bounds(2) [of n] power_increasing [of "ndigits n" k "10::nat"]
    by (meson less_le_trans one_le_numeral)
next
  assume k: "0 < k" and lt: "n < 10 ^ k"
  show "ndigits n \<le> k"
  proof (cases "n = 0")
    case True
    then show ?thesis using k ndigits_rec [of 0] by simp
  next
    case False
    then have "10 ^ (ndigits n - 1) < (10::nat) ^ k"
      using ndigits_bounds(1) [of n] lt by (meson le_less_trans neq0_conv)
    then have "ndigits n - 1 < k" by (rule power_less_imp_less_exp [rotated]) simp
    then show ?thesis by simp
  qed
qed

subsection \<open>Stripping and scanning digits\<close>

lemma rstrip_of_snoc:
  "py_rstrip_of p (xs @ [x]) = (if p x then py_rstrip_of p xs else xs @ [x])"
  by (simp add: py_rstrip_of_def)

lemma rstrip_of_append:
  "py_rstrip_of p (xs @ ys) = (if \<forall>y \<in> set ys. p y then py_rstrip_of p xs else xs @ py_rstrip_of p ys)"
  by (induction ys rule: rev_induct) (auto simp: rstrip_of_snoc simp flip: append_assoc)

lemma set_rstrip_of: "c \<in> set (py_rstrip_of p s) \<Longrightarrow> c \<in> set s"
  by (auto simp: py_rstrip_of_def dest: set_dropWhileD)

lemma py_strip_no_space: "\<forall>c \<in> set s. \<not> py_isspace c \<Longrightarrow> py_strip s = s"
proof -
  assume *: "\<forall>c \<in> set s. \<not> py_isspace c"
  have "dropWhile py_isspace s = s" using * by (cases s) auto
  moreover have "dropWhile py_isspace (rev s) = rev s" using * by (cases "rev s") auto
  ultimately show ?thesis by (simp add: py_strip_def py_lstrip_def py_rstrip_of_def)
qed

lemma is_digit_facts:
  "is_digit c \<Longrightarrow> \<not> py_isspace c \<and> c \<noteq> 95 \<and> c \<noteq> 46 \<and> c \<noteq> 45 \<and> c \<noteq> 43"
  by (auto simp: is_digit_def py_isspace_def)

lemma takeWhile_digits:
  "list_all is_digit A \<Longrightarrow> r = [] \<or> \<not> is_digit (hd r) \<Longrightarrow>
   takeWhile is_digit (A @ r) = A \<and> dropWhile is_digit (A @ r) = r"
  by (cases r) (auto simp: list_all_iff takeWhile_tail)

lemma digits_val_zeros [simp]: "digits_val (replicate n 48) a = a * 10 ^ n"
  by (induction n arbitrary: a) auto

subsection \<open>Sorted keys\<close>

text \<open>The key order of a JSON file written with \<open>sort_keys\<close>, by insertion.\<close>

definition sort_keys :: "('k::linorder, 'v) dict \<Rightarrow> ('k, 'v) dict" where
  "sort_keys d = foldr (insort_key fst) d []"

lemma sort_keys_sort: "sort_keys d = sort_key fst d"
  by (simp add: sort_keys_def sort_key_def)

lemma sort_keys_empty [simp]: "sort_keys [] = []"
  by (simp add: sort_keys_def)

lemma set_sort_keys [simp]: "set (sort_keys d) = set d"
  by (simp add: sort_keys_sort)

lemma sort_keys_Nil_iff [simp]: "sort_keys d = [] \<longleftrightarrow> d = []"
  by (metis length_0_conv length_sort sort_keys_sort)

lemma mset_sort_keys [simp]: "mset (sort_keys d) = mset d"
  by (simp add: sort_keys_sort)

lemma wf_dict_sort [simp]: "wf_dict (sort_keys d) = wf_dict d"
  unfolding wf_dict_def by (rule mset_eq_imp_distinct_iff) (simp add: mset_map)

lemma dict_get_sort [simp]: "wf_dict d \<Longrightarrow> dict_get k (sort_keys d) = dict_get k d"
proof -
  assume "wf_dict d"
  then have "dict_get k (sort_keys d) = Some v \<longleftrightarrow> dict_get k d = Some v" for v
    by (simp add: dict_get_set_iff)
  then show ?thesis by (metis not_None_eq)
qed

subsection \<open>SHA-256 identifiers\<close>

text \<open>The \<open>"sha256:" + 64 hex digits\<close> shape that every store checks before it compares a hash.\<close>

definition is_hex_lower :: "nat \<Rightarrow> bool" where
  "is_hex_lower c \<longleftrightarrow> 48 \<le> c \<and> c \<le> 57 \<or> 97 \<le> c \<and> c \<le> 102"

definition is_sha256 :: "pystr \<Rightarrow> bool" where
  "is_sha256 s \<longleftrightarrow>
     startswith s (lit ''sha256:'') \<and> length (drop 7 s) = 64 \<and> list_all is_hex_lower (drop 7 s)"

end
