(* ===== verification/Decimals.thy ===== *)
theory Decimals
  imports PyText Complex_Main
begin

text \<open>
  Exact money (\<open>money.py\<close>): Python's \<open>Decimal\<close> with the default context (28 digits,
  ROUND_HALF_EVEN), the text it is read from and persisted as, and \<open>money\<close>, the only way an
  amount enters the program. A decimal is a sign, a coefficient and an exponent, as
  \<open>Decimal.as_tuple\<close> has it; the context's exponent limits (\<open>Emax\<close> 999999) are not modelled.
\<close>

datatype decimal = Fin bool nat int | Infinite bool | NotANumber

definition zero :: decimal where
  "zero = Fin False 0 0"

definition scoef :: "bool \<Rightarrow> nat \<Rightarrow> int" where
  "scoef s c = (if s then - int c else int c)"

definition is_finite :: "decimal \<Rightarrow> bool" where
  "is_finite d = (case d of Fin _ _ _ \<Rightarrow> True | _ \<Rightarrow> False)"

lemma is_finite_simps [simp]:
  "is_finite (Fin s c e)" "\<not> is_finite (Infinite s)" "\<not> is_finite NotANumber"
  by (simp_all add: is_finite_def)

lemma is_finiteE: "is_finite d \<Longrightarrow> (\<And>s c e. d = Fin s c e \<Longrightarrow> P) \<Longrightarrow> P"
  by (cases d) auto

text \<open>The rational a finite decimal denotes.\<close>

definition dval :: "decimal \<Rightarrow> rat" where
  "dval d = (case d of Fin s c e \<Rightarrow> of_int (scoef s c) * 10 powi e | _ \<Rightarrow> 0)"

lemma dval_Fin: "dval (Fin s c e) = of_int (scoef s c) * 10 powi e"
  by (simp add: dval_def)

lemma dval_zero [simp]: "dval zero = 0"
  by (simp add: dval_def zero_def scoef_def)

lemma finite_zero [simp]: "is_finite zero"
  by (simp add: zero_def)

subsection \<open>Comparison\<close>

text \<open>Both coefficients are brought to the smaller exponent, then compared as integers.\<close>

definition aligned :: "decimal \<Rightarrow> decimal \<Rightarrow> int \<times> int" where
  "aligned x y = (case (x, y) of
     (Fin s c e, Fin t d f) \<Rightarrow>
       (scoef s c * 10 ^ nat (e - min e f), scoef t d * 10 ^ nat (f - min e f))
   | _ \<Rightarrow> (0, 0))"

definition dec_lt :: "decimal \<Rightarrow> decimal \<Rightarrow> bool" where
  "dec_lt x y = (fst (aligned x y) < snd (aligned x y))"

definition dec_eq :: "decimal \<Rightarrow> decimal \<Rightarrow> bool" where
  "dec_eq x y = (fst (aligned x y) = snd (aligned x y))"

definition is_zero :: "decimal \<Rightarrow> bool" where
  "is_zero d = (case d of Fin _ c _ \<Rightarrow> c = 0 | _ \<Rightarrow> False)"

definition dec_pos :: "decimal \<Rightarrow> bool" where
  "dec_pos d = (case d of Fin s c _ \<Rightarrow> \<not> s \<and> c \<noteq> 0 | Infinite s \<Rightarrow> \<not> s | NotANumber \<Rightarrow> False)"

lemma powi_shift: "m \<le> e \<Longrightarrow> (10::rat) powi e = 10 ^ nat (e - m) * 10 powi m"
proof -
  assume "m \<le> e"
  then have "(10::rat) powi e = 10 powi (e - m) * 10 powi m"
    by (simp add: power_int_add [symmetric])
  also have "(10::rat) powi (e - m) = 10 ^ nat (e - m)"
    using \<open>m \<le> e\<close> by (simp add: power_int_def)
  finally show ?thesis .
qed

lemma aligned_dval:
  assumes "is_finite x" "is_finite y"
  obtains m where "dval x = of_int (fst (aligned x y)) * 10 powi m"
    and "dval y = of_int (snd (aligned x y)) * 10 powi m"
proof -
  obtain s c e where x: "x = Fin s c e" using assms(1) by (rule is_finiteE)
  obtain t d f where y: "y = Fin t d f" using assms(2) by (rule is_finiteE)
  let ?m = "min e f"
  have "dval x = of_int (fst (aligned x y)) * 10 powi ?m"
    using powi_shift [of ?m e] by (simp add: x y aligned_def dval_Fin)
  moreover have "dval y = of_int (snd (aligned x y)) * 10 powi ?m"
    using powi_shift [of ?m f] by (simp add: x y aligned_def dval_Fin)
  ultimately show ?thesis by (rule that)
qed

lemma powi10_pos [simp]: "0 < (10::rat) powi m"
  by (simp add: zero_less_power_int)

lemma powi10_not_neg [simp]: "\<not> (10::rat) powi m < 0"
  using powi10_pos [of m] by linarith

lemma powi10_not_le [simp]: "\<not> (10::rat) powi m \<le> 0"
  using powi10_pos [of m] by linarith

lemma dec_lt_dval: "is_finite x \<Longrightarrow> is_finite y \<Longrightarrow> dec_lt x y \<longleftrightarrow> dval x < dval y"
  by (rule aligned_dval [of x y]) (auto simp: dec_lt_def)

lemma dec_eq_dval: "is_finite x \<Longrightarrow> is_finite y \<Longrightarrow> dec_eq x y \<longleftrightarrow> dval x = dval y"
proof -
  assume "is_finite x" "is_finite y"
  then obtain m where "dval x = of_int (fst (aligned x y)) * 10 powi m"
    and "dval y = of_int (snd (aligned x y)) * 10 powi m" by (rule aligned_dval)
  moreover have "(10::rat) powi m \<noteq> 0" by simp
  ultimately show ?thesis by (simp add: dec_eq_def)
qed

lemma is_zero_dval: "is_finite x \<Longrightarrow> is_zero x \<longleftrightarrow> dval x = 0"
  by (cases x) (auto simp: is_zero_def dval_Fin scoef_def)

lemma dec_pos_dval: "is_finite x \<Longrightarrow> dec_pos x \<longleftrightarrow> 0 < dval x"
proof -
  assume "is_finite x"
  then obtain s c e where x: "x = Fin s c e" by (rule is_finiteE)
  have "0 < dval x \<longleftrightarrow> (0::rat) < of_int (scoef s c)"
    by (simp add: x dval_Fin zero_less_mult_iff order.strict_implies_not_eq)
  then show ?thesis by (auto simp: x dec_pos_def scoef_def)
qed

subsection \<open>Context arithmetic: 28 significant digits, half to even\<close>

definition prec :: nat where
  "prec = 28"

definition round_half_even :: "nat \<Rightarrow> nat \<Rightarrow> nat" where
  "round_half_even c p =
     (let q = c div p; r = c mod p
      in if p < 2 * r \<or> (2 * r = p \<and> odd q) then q + 1 else q)"

definition dec_fix :: "bool \<Rightarrow> nat \<Rightarrow> int \<Rightarrow> decimal" where
  "dec_fix s c e =
     (let n = ndigits c in
      if n \<le> prec then Fin s c e
      else let k = n - prec; q = round_half_even c (10 ^ k)
           in if ndigits q \<le> prec then Fin s q (e + int k)
              else Fin s (q div 10) (e + int k + 1))"

fun dec_add :: "decimal \<Rightarrow> decimal \<Rightarrow> decimal" where
  "dec_add (Fin s c e) (Fin t d f) =
     (let r = fst (aligned (Fin s c e) (Fin t d f)) + snd (aligned (Fin s c e) (Fin t d f))
      in dec_fix (r < 0 \<or> (r = 0 \<and> s \<and> t)) (nat \<bar>r\<bar>) (min e f))"
| "dec_add _ _ = NotANumber"

fun dec_neg :: "decimal \<Rightarrow> decimal" where
  "dec_neg (Fin s c e) = Fin (\<not> s) c e"
| "dec_neg (Infinite s) = Infinite (\<not> s)"
| "dec_neg NotANumber = NotANumber"

definition dec_sub :: "decimal \<Rightarrow> decimal \<Rightarrow> decimal" where
  "dec_sub x y = dec_add x (dec_neg y)"

lemma dval_neg [simp]: "dval (dec_neg x) = - dval x"
  by (cases x) (auto simp: dval_def scoef_def)

lemma finite_neg [simp]: "is_finite (dec_neg x) = is_finite x"
  by (cases x) auto

lemma finite_fix [simp]: "is_finite (dec_fix s c e)"
  by (simp add: dec_fix_def Let_def)

lemma finite_add [simp]: "is_finite x \<Longrightarrow> is_finite y \<Longrightarrow> is_finite (dec_add x y)"
  by (cases x; cases y) (simp_all add: Let_def)

lemma finite_sub [simp]: "is_finite x \<Longrightarrow> is_finite y \<Longrightarrow> is_finite (dec_sub x y)"
  by (simp add: dec_sub_def)

text \<open>
  Rounding leaves a value alone when it can be written with at most 28 significant digits,
  however many trailing zeros its coefficient carries.
\<close>

lemma dec_fix_exact:
  assumes "c = a * 10 ^ j" and "a < 10 ^ prec"
  shows "dval (dec_fix s c e) = of_int (scoef s c) * 10 powi e"
proof (cases "ndigits c \<le> prec")
  case True
  then show ?thesis by (simp add: dec_fix_def dval_Fin)
next
  case False
  define k where "k = ndigits c - prec"
  have c: "c < 10 ^ (prec + j)"
    using assms by (simp add: power_add)
  have "ndigits c \<le> prec + j"
    using c by (subst ndigits_le_iff) (auto simp: prec_def)
  then have kj: "k \<le> j" by (simp add: k_def)
  then have "c = (a * 10 ^ (j - k)) * 10 ^ k"
    using assms(1) by (simp add: mult.assoc flip: power_add)
  then obtain q where q: "c = q * 10 ^ k" by blast
  have rq: "round_half_even c (10 ^ k) = q"
    by (simp add: round_half_even_def q)
  have "q * 10 ^ k < 10 ^ prec * 10 ^ k"
    using ndigits_bounds(2) [of c] False unfolding q [symmetric] power_add [symmetric]
    by (simp add: k_def)
  then have nq: "ndigits q \<le> prec"
    by (subst ndigits_le_iff) (auto simp: prec_def)
  have fx: "dec_fix s c e = Fin s q (e + int k)"
    using False nq rq by (simp add: dec_fix_def Let_def k_def)
  have "(10::rat) powi (e + int k) = 10 ^ k * 10 powi e"
    using powi_shift [of e "e + int k"] by simp
  then show ?thesis
    unfolding fx by (simp add: dval_Fin q scoef_def)
qed

lemma dec_add_exact:
  assumes fin: "is_finite x" "is_finite y"
    and val: "dval x + dval y = of_int n * 10 powi k" and n: "\<bar>n\<bar> < 10 ^ prec"
  shows "dval (dec_add x y) = dval x + dval y"
proof -
  obtain s c e where x: "x = Fin s c e" using fin(1) by (rule is_finiteE)
  obtain t d f where y: "y = Fin t d f" using fin(2) by (rule is_finiteE)
  define m where "m = min e f"
  define r where "r = fst (aligned x y) + snd (aligned x y)"
  have dx: "dval x = of_int (fst (aligned x y)) * 10 powi m"
    using powi_shift [of m e] by (simp add: m_def x y aligned_def dval_Fin)
  have dy: "dval y = of_int (snd (aligned x y)) * 10 powi m"
    using powi_shift [of m f] by (simp add: m_def x y aligned_def dval_Fin)
  have sum: "dval x + dval y = of_int r * 10 powi m"
    by (simp add: dx dy r_def algebra_simps)
  have add: "dec_add x y = dec_fix (r < 0 \<or> (r = 0 \<and> s \<and> t)) (nat \<bar>r\<bar>) m"
    by (simp add: x y r_def m_def Let_def)
  have sc: "scoef (r < 0 \<or> (r = 0 \<and> s \<and> t)) (nat \<bar>r\<bar>) = r"
    by (auto simp: scoef_def)
  have "\<exists>a j. nat \<bar>r\<bar> = a * 10 ^ j \<and> a < 10 ^ prec"
  proof (cases "m \<le> k")
    case True
    have "of_int r * (10::rat) powi m = of_int (n * 10 ^ nat (k - m)) * 10 powi m"
      using sum val powi_shift [OF True] by simp
    then have "(of_int r :: rat) = of_int (n * 10 ^ nat (k - m))" by simp
    then have "r = n * 10 ^ nat (k - m)" by (simp only: of_int_eq_iff)
    then have "nat \<bar>r\<bar> = nat \<bar>n\<bar> * 10 ^ nat (k - m)"
      by (simp add: abs_mult nat_mult_distrib nat_power_eq)
    moreover have "nat \<bar>n\<bar> < 10 ^ prec" using n by (simp add: nat_less_iff)
    ultimately show ?thesis by blast
  next
    case False
    then have km: "k \<le> m" by simp
    have "of_int (r * 10 ^ nat (m - k)) * (10::rat) powi k = of_int n * 10 powi k"
      using sum val powi_shift [OF km] by simp
    then have "(of_int (r * 10 ^ nat (m - k)) :: rat) = of_int n" by simp
    then have "r * 10 ^ nat (m - k) = n" by (simp only: of_int_eq_iff)
    then have "\<bar>r\<bar> * 10 ^ nat (m - k) = \<bar>n\<bar>" by (auto simp: abs_mult)
    moreover have "\<bar>r\<bar> * 1 \<le> \<bar>r\<bar> * 10 ^ nat (m - k)" by (intro mult_left_mono) auto
    ultimately have "\<bar>r\<bar> < 10 ^ prec" using n by linarith
    then have "nat \<bar>r\<bar> = nat \<bar>r\<bar> * 10 ^ 0 \<and> nat \<bar>r\<bar> < 10 ^ prec"
      by (simp add: nat_less_iff)
    then show ?thesis by blast
  qed
  then obtain a j where "nat \<bar>r\<bar> = a * 10 ^ j" "a < 10 ^ prec" by blast
  then have "dval (dec_add x y) = of_int r * 10 powi m"
    unfolding add using sc by (metis dec_fix_exact)
  then show ?thesis by (simp add: sum)
qed

end
