(* ===== verification/Money.thy ===== *)
theory Money
  imports Decimals
begin

text \<open>
  \<open>money.py\<close>: the values accepted as money, the plain decimal text persisted for them, and the
  text read back. \<open>canon\<close> is the decimal that reading the persisted text yields; stores keep
  amounts in that form because every amount passes through the text on its way to disk.
\<close>

subsection \<open>Reading: \<open>Decimal(str)\<close>\<close>

text \<open>
  The constructor's grammar: surrounding white space and underscores are dropped; a sign; then
  digits with an optional point and exponent, or \<open>Inf\<close>, \<open>Infinity\<close>, \<open>NaN\<close>, \<open>sNaN\<close> in any case
  (non-ASCII decimal digits, which Python also accepts, are not).
\<close>

definition ascii_lower :: "nat \<Rightarrow> nat" where
  "ascii_lower c = (if 65 \<le> c \<and> c \<le> 90 then c + 32 else c)"

definition split_sign :: "pystr \<Rightarrow> bool \<times> pystr" where
  "split_sign s =
     (if s \<noteq> [] \<and> hd s = 45 then (True, tl s)
      else if s \<noteq> [] \<and> hd s = 43 then (False, tl s) else (False, s))"

definition parse_exponent :: "pystr \<Rightarrow> int option" where
  "parse_exponent s = (case s of
     [] \<Rightarrow> Some 0
   | c # r \<Rightarrow>
       if ascii_lower c \<noteq> 101 then None
       else let (neg, ds) = split_sign r
            in if ds = [] \<or> \<not> list_all is_digit ds then None
               else Some (if neg then - int (digits_val ds 0) else int (digits_val ds 0)))"

definition parse_number :: "bool \<Rightarrow> pystr \<Rightarrow> decimal option" where
  "parse_number neg s =
     (let ip = takeWhile is_digit s; r = dropWhile is_digit s;
          point = (r \<noteq> [] \<and> hd r = 46);
          fp = (if point then takeWhile is_digit (tl r) else []);
          r2 = (if point then dropWhile is_digit (tl r) else r)
      in if ip = [] \<and> fp = [] then None
         else (case parse_exponent r2 of
             None \<Rightarrow> None
           | Some x \<Rightarrow> Some (Fin neg (digits_val (ip @ fp) 0) (x - int (length fp)))))"

definition parse_special :: "bool \<Rightarrow> pystr \<Rightarrow> decimal option" where
  "parse_special neg s =
     (let t = map ascii_lower s in
      if t = lit ''inf'' \<or> t = lit ''infinity'' then Some (Infinite neg)
      else if startswith t (lit ''nan'') \<and> list_all is_digit (drop 3 t) then Some NotANumber
      else if startswith t (lit ''snan'') \<and> list_all is_digit (drop 4 t) then Some NotANumber
      else None)"

definition decimal_of_text :: "pystr \<Rightarrow> decimal option" where
  "decimal_of_text text =
     (let s = filter (\<lambda>c. c \<noteq> 95) (py_strip text);
          (neg, r) = split_sign s
      in (case parse_number neg r of Some d \<Rightarrow> Some d | None \<Rightarrow> parse_special neg r))"

subsection \<open>Validation: \<open>money\<close>\<close>

datatype money_like =
    MBool bool
  | MDecimal decimal
  | MStr pystr
  | MInt int
  | MFloat pystr  \<comment> \<open>the float, by the text \<open>str\<close> gives for it\<close>
  | MOther pystr  \<comment> \<open>any other object, by its \<open>str\<close>\<close>

datatype value_error =
    MoneyIsBoolean
  | MoneyNotANumber
  | MoneyNotFinite
  | MoneyNegative

definition decimal_of_int :: "int \<Rightarrow> decimal" where
  "decimal_of_int i = Fin (i < 0) (nat \<bar>i\<bar>) 0"

definition money :: "money_like \<Rightarrow> (value_error, decimal) result" where
  "money v =
     bindR (case v of
         MBool _ \<Rightarrow> raise MoneyIsBoolean
       | MDecimal d \<Rightarrow> return d
       | MInt i \<Rightarrow> return (decimal_of_int i)
       | MStr t \<Rightarrow> (case decimal_of_text t of Some d \<Rightarrow> return d | None \<Rightarrow> raise MoneyNotANumber)
       | MFloat t \<Rightarrow> (case decimal_of_text t of Some d \<Rightarrow> return d | None \<Rightarrow> raise MoneyNotANumber)
       | MOther t \<Rightarrow> (case decimal_of_text t of Some d \<Rightarrow> return d | None \<Rightarrow> raise MoneyNotANumber))
     (\<lambda>result.
        if \<not> is_finite result then raise MoneyNotFinite
        else if dec_lt result zero then raise MoneyNegative
        else return result)"

definition is_money :: "decimal \<Rightarrow> bool" where
  "is_money d \<longleftrightarrow> is_finite d \<and> 0 \<le> dval d"

lemma money_sound: "money v = return d \<Longrightarrow> is_money d"
  by (auto simp: money_def is_money_def dec_lt_dval split: if_splits)

lemma money_decimal: "is_money d \<Longrightarrow> money (MDecimal d) = return d"
  by (auto simp: money_def is_money_def dec_lt_dval)

lemma money_decimal_iff: "money (MDecimal d) = return x \<longleftrightarrow> is_money d \<and> x = d"
  by (auto simp: money_def is_money_def dec_lt_dval)

lemma money_zero [simp]: "money (MDecimal zero) = return zero"
  by (simp add: money_decimal is_money_def)

lemma is_moneyD: "is_money d \<Longrightarrow> is_finite d" "is_money d \<Longrightarrow> 0 \<le> dval d"
  by (simp_all add: is_money_def)

lemma is_money_pos: "is_money d \<Longrightarrow> \<not> is_zero d \<Longrightarrow> 0 < dval d"
  by (simp add: is_money_def is_zero_dval)

subsection \<open>Writing: \<open>format(d, "f")\<close> without trailing zeros\<close>

definition pad_zeros :: "nat \<Rightarrow> pystr \<Rightarrow> pystr" where
  "pad_zeros n ds = replicate (n - length ds) 48 @ ds"

definition format_f :: "nat \<Rightarrow> int \<Rightarrow> pystr" where
  "format_f c e =
     (if 0 \<le> e then (if c = 0 then [48] else nat_digits c @ replicate (nat e) 48)
      else let k = nat (- e); ds = pad_zeros (k + 1) (nat_digits c)
           in take (length ds - k) ds @ [46] @ drop (length ds - k) ds)"

definition decimal_text :: "decimal \<Rightarrow> pystr" where
  "decimal_text d = (case d of
     Fin s c e \<Rightarrow>
       (let text = (if s then [45] else []) @ format_f c e
        in if 46 \<in> set text
           then py_rstrip_of (\<lambda>x. x = 46) (py_rstrip_of (\<lambda>x. x = 48) text)
           else text)
   | _ \<Rightarrow> [])"

definition money_text :: "money_like \<Rightarrow> (value_error, pystr) result" where
  "money_text v = bindR (money v) (\<lambda>d. return (decimal_text d))"

fun strip_zeros :: "nat \<Rightarrow> nat \<Rightarrow> nat \<times> nat" where
  "strip_zeros c 0 = (c, 0)"
| "strip_zeros c (Suc k) = (if c mod 10 = 0 then strip_zeros (c div 10) k else (c, Suc k))"

definition canon :: "decimal \<Rightarrow> decimal" where
  "canon d = (case d of
     Fin s c e \<Rightarrow>
       (if 0 \<le> e then Fin s (c * 10 ^ nat e) 0
        else let (c', k) = strip_zeros c (nat (- e)) in Fin s c' (- int k))
   | _ \<Rightarrow> d)"

lemma strip_zeros_val:
  "strip_zeros c k = (c', k') \<Longrightarrow> c = c' * 10 ^ (k - k') \<and> k' \<le> k"
proof (induction c k rule: strip_zeros.induct)
  case (1 c)
  then show ?case by simp
next
  case (2 c k)
  show ?case
  proof (cases "c mod 10 = 0")
    case True
    with 2 have "c div 10 = c' * 10 ^ (k - k') \<and> k' \<le> k" by simp
    moreover have "c = (c div 10) * 10" using True by auto
    ultimately show ?thesis by (auto simp: Suc_diff_le)
  next
    case False
    with "2.prems" show ?thesis by auto
  qed
qed

lemma canon_finite [simp]: "is_finite (canon d) = is_finite d"
  by (cases d) (auto simp: canon_def split: prod.splits)

lemma dval_canon [simp]: "dval (canon d) = dval d"
proof (cases d)
  case (Fin s c e)
  show ?thesis
  proof (cases "0 \<le> e")
    case True
    then show ?thesis
      using powi_shift [of 0 e] by (simp add: Fin canon_def dval_Fin scoef_def)
  next
    case False
    obtain c' k' where st: "strip_zeros c (nat (- e)) = (c', k')" by fastforce
    then have "c = c' * 10 ^ (nat (- e) - k')" and le: "k' \<le> nat (- e)"
      using strip_zeros_val by blast+
    moreover have "(10::rat) powi (- int k') = 10 ^ (nat (- e) - k') * 10 powi e"
    proof -
      have "nat (- int k' - e) = nat (- e) - k'" using False by simp
      then show ?thesis using powi_shift [of e "- int k'"] le False by simp
    qed
    ultimately show ?thesis
      using False st by (simp add: Fin canon_def dval_Fin scoef_def)
  qed
qed (simp_all add: canon_def)

lemma is_money_canon [simp]: "is_money (canon d) = is_money d"
  by (simp add: is_money_def)

lemma is_zero_canon [simp]: "is_finite d \<Longrightarrow> is_zero (canon d) = is_zero d"
  by (simp add: is_zero_dval)

lemma canon_zero [simp]: "canon zero = zero"
  by (simp add: canon_def zero_def)

subsection \<open>Reading back what was written\<close>

text \<open>Written text is a sign, integer digits and fraction digits with no trailing zero.\<close>

lemma strip_zeros_digits:
  "list_all is_digit B \<Longrightarrow>
   strip_zeros (digits_val (A @ B) 0) (length B)
     = (digits_val (A @ py_rstrip_of (\<lambda>x. x = 48) B) 0, length (py_rstrip_of (\<lambda>x. x = 48) B))"
proof (induction B rule: rev_induct)
  case Nil
  then show ?case by (simp add: py_rstrip_of_def)
next
  case (snoc x B)
  have x: "48 \<le> x" "x \<le> 57" using snoc.prems by (auto simp: is_digit_def)
  have v: "digits_val (A @ B @ [x]) 0 = digits_val (A @ B) 0 * 10 + (x - 48)"
    by (simp add: digits_val_append)
  show ?case
  proof (cases "x = 48")
    case True
    then show ?thesis using snoc v by (simp add: rstrip_of_snoc)
  next
    case False
    then have "(digits_val (A @ B) 0 * 10 + (x - 48)) mod 10 \<noteq> 0" using x by presburger
    then show ?thesis using False by (simp add: v rstrip_of_snoc del: mod_mult_self3)
  qed
qed

definition plain_text :: "bool \<Rightarrow> pystr \<Rightarrow> pystr \<Rightarrow> pystr" where
  "plain_text s A B = (if s then [45] else []) @ A @ (if B = [] then [] else 46 # B)"

lemma parse_plain_text:
  assumes A: "A \<noteq> []" "list_all is_digit A" and B: "list_all is_digit B"
  shows "decimal_of_text (plain_text s A B) = Some (Fin s (digits_val (A @ B) 0) (- int (length B)))"
proof -
  let ?r = "A @ (if B = [] then [] else 46 # B)"
  have ns: "\<forall>c \<in> set (plain_text s A B). \<not> py_isspace c \<and> c \<noteq> 95"
    using A B by (auto simp: plain_text_def list_all_iff is_digit_facts dest: is_digit_facts)
       (auto simp: py_isspace_def)
  then have 1: "filter (\<lambda>c. c \<noteq> 95) (py_strip (plain_text s A B)) = plain_text s A B"
    by (simp add: py_strip_no_space filter_id_conv)
  obtain a A' where a: "A = a # A'" using A(1) by (cases A) auto
  have "is_digit a" using A(2) by (simp add: a)
  then have 2: "split_sign (plain_text s A B) = (s, ?r)"
    using is_digit_facts [of a] by (auto simp: split_sign_def plain_text_def a)
  have d: "takeWhile is_digit ?r = A \<and> dropWhile is_digit ?r = (if B = [] then [] else 46 # B)"
    by (rule takeWhile_digits) (auto simp: A(2) is_digit_def)
  have tB: "takeWhile is_digit B = B \<and> dropWhile is_digit B = []"
    using takeWhile_digits [OF B, of "[]"] by simp
  have 3: "parse_number s ?r = Some (Fin s (digits_val (A @ B) 0) (- int (length B)))"
    unfolding parse_number_def Let_def d [THEN conjunct1] d [THEN conjunct2]
    using A(1) by (auto simp: tB parse_exponent_def)
  show ?thesis by (simp add: decimal_of_text_def 1 2 3)
qed

lemma digits_val_pad [simp]: "digits_val (pad_zeros n ds) 0 = digits_val ds 0"
  by (simp add: pad_zeros_def digits_val_append)

lemma pad_digits: "list_all is_digit ds \<Longrightarrow> list_all is_digit (pad_zeros n ds)"
  by (auto simp: pad_zeros_def list_all_iff is_digit_def)

lemma length_pad: "length (pad_zeros n ds) = max n (length ds)"
  by (auto simp: pad_zeros_def)

lemma rstrip_other: "list_all is_digit A \<Longrightarrow> py_rstrip_of (\<lambda>x. x = 46) (p @ A) = p @ A \<or> A = []"
  by (cases A rule: rev_cases) (auto simp: rstrip_of_snoc is_digit_facts simp flip: append_assoc)

lemma decimal_text_plain:
  assumes "is_finite d"
  obtains s A B where "A \<noteq> []" "list_all is_digit A" "list_all is_digit B"
    "decimal_text d = plain_text s A B" "canon d = Fin s (digits_val (A @ B) 0) (- int (length B))"
proof -
  obtain s c e where d: "d = Fin s c e" using assms by (rule is_finiteE)
  have nd: "list_all is_digit (nat_digits c)" using nat_digits_digit by (simp add: list_all_iff)
  show ?thesis
  proof (cases "0 \<le> e")
    case True
    let ?A = "if c = 0 then [48] else nat_digits c @ replicate (nat e) 48"
    have dA: "list_all is_digit ?A" using nd by (auto simp: list_all_iff is_digit_def)
    moreover have "\<not> is_digit 46" by (simp add: is_digit_def)
    ultimately have "46 \<notin> set ?A" unfolding list_all_iff by blast
    then have "46 \<notin> set ((if s then [45] else []) @ ?A)" by simp
    then have "decimal_text d = plain_text s ?A []"
      using True by (simp add: d decimal_text_def plain_text_def format_f_def Let_def)
    moreover have "canon d = Fin s (digits_val (?A @ []) 0) (- int (length ([]::pystr)))"
      using True by (simp add: d canon_def digits_val_append)
    moreover have "?A \<noteq> []" "list_all is_digit ([]::pystr)" by auto
    ultimately show ?thesis using that [of ?A "[]" s] dA by blast
  next
    case False
    define k where "k = nat (- e)"
    define ds where "ds = pad_zeros (k + 1) (nat_digits c)"
    define A where "A = take (length ds - k) ds"
    define B where "B = drop (length ds - k) ds"
    define B' where "B' = py_rstrip_of (\<lambda>x. x = 48) B"
    have k: "0 < k" using False by (simp add: k_def)
    have len: "k < length ds" by (simp add: ds_def length_pad)
    have dd: "list_all is_digit ds" by (simp add: ds_def pad_digits nd)
    have AB: "A @ B = ds" by (simp add: A_def B_def)
    have dA: "list_all is_digit A" and dB: "list_all is_digit B"
      using dd unfolding AB [symmetric] by simp_all
    have A: "A \<noteq> []" using len by (auto simp: A_def)
    have lB: "length B = k" using len by (simp add: B_def)
    have dB': "list_all is_digit B'"
      using dB by (auto simp: B'_def list_all_iff dest: set_rstrip_of)
    have fmt: "format_f c e = A @ [46] @ B"
      using False by (simp add: format_f_def Let_def A_def B_def ds_def k_def)
    have B': "B' = [] \<longleftrightarrow> (\<forall>x \<in> set B. x = 48)"
      by (auto simp: B'_def py_rstrip_of_def dropWhile_eq_Nil_conv)
    let ?p = "if s then [45] else [] :: pystr"
    have "py_rstrip_of (\<lambda>x. x = 46) (py_rstrip_of (\<lambda>x. x = 48) (?p @ A @ [46] @ B))
        = plain_text s A B'"
    proof (cases "B' = []")
      case True
      then have "py_rstrip_of (\<lambda>x. x = 48) ((?p @ A @ [46]) @ B) = ?p @ A @ [46]"
        unfolding rstrip_of_append using B' rstrip_of_snoc [of "\<lambda>x. x = 48" "?p @ A" 46]
        by (simp add: py_rstrip_of_def)
      moreover have "py_rstrip_of (\<lambda>x. x = 46) (?p @ A @ [46]) = ?p @ A"
        using rstrip_other [OF dA, of ?p] A rstrip_of_snoc [of "\<lambda>x. x = 46" "?p @ A" 46] by simp
      ultimately show ?thesis using True by (simp add: plain_text_def)
    next
      case False
      then have "py_rstrip_of (\<lambda>x. x = 48) ((?p @ A @ [46]) @ B) = ?p @ A @ [46] @ B'"
        using rstrip_of_append [of "\<lambda>x. x = 48" "?p @ A @ [46]" B] B'
        by (simp only: B'_def append_assoc if_False)
      then show ?thesis
        using False rstrip_other [OF dB', of "?p @ A @ [46]"] by (simp add: plain_text_def)
    qed
    then have "decimal_text d = plain_text s A B'"
      by (simp add: d decimal_text_def fmt Let_def)
    moreover have "canon d = Fin s (digits_val (A @ B') 0) (- int (length B'))"
      using False strip_zeros_digits [OF dB, of A]
      by (simp add: d canon_def k_def [symmetric] B'_def lB AB) (simp add: ds_def)
    ultimately show ?thesis using that A dA dB' by blast
  qed
qed

lemma decimal_text_roundtrip:
  "is_finite d \<Longrightarrow> decimal_of_text (decimal_text d) = Some (canon d)"
  using decimal_text_plain [of d] parse_plain_text by metis

end
