(* ===== verification/PyVal.thy ===== *)
theory PyVal
  imports Money
begin

text \<open>
  The Python values that reach the program's JSON: what \<open>json.loads\<close> builds, together with the
  tuples, enumeration members and decimals that callers may put inside an action. A float is
  kept as its \<open>repr\<close>; the program's enumerations are all \<open>str\<close> subclasses, so a member is its text;
  every object the encoder does not know is \<open>POther\<close>.
\<close>

datatype pyval =
    PNone
  | PBool bool
  | PInt int
  | PFloat pystr
  | PNonFinite
  | PStr pystr
  | PDecimal decimal
  | PEnum pystr
  | PList "pyval list"
  | PTuple "pyval list"
  | PDict "(pyval \<times> pyval) list"
  | POther

text \<open>A JSON object with text keys, and \<open>dict.get\<close> on it.\<close>

type_synonym json_object = "(pystr, pyval) dict"

abbreviation obj_get :: "string \<Rightarrow> json_object \<Rightarrow> pyval option" where
  "obj_get k \<equiv> dict_get (lit k)"

definition json_of :: "json_object \<Rightarrow> pyval" where
  "json_of obj = PDict (map (\<lambda>(k, v). (PStr k, v)) obj)"

definition is_text :: "pyval option \<Rightarrow> bool" where
  "is_text v = (case v of Some (PStr _) \<Rightarrow> True | _ \<Rightarrow> False)"

definition text_of :: "pyval option \<Rightarrow> pystr" where
  "text_of v = (case v of Some (PStr s) \<Rightarrow> s | _ \<Rightarrow> [])"

lemma is_textE: "is_text v \<Longrightarrow> (\<And>s. v = Some (PStr s) \<Longrightarrow> P) \<Longrightarrow> P"
  by (auto simp: is_text_def split: option.splits pyval.splits)

lemma text_simps [simp]:
  "is_text (Some (PStr s))" "text_of (Some (PStr s)) = s" "\<not> is_text None" "text_of None = []"
  by (simp_all add: is_text_def text_of_def)

end
