(* ===== verification/Ledger.thy ===== *)
theory Ledger
  imports PyVal
begin

text \<open>
  The budget ledger (\<open>budgets/ledger.py\<close>): the persisted balance, the reservations bound to one
  action each, the markers of operator reconciliations and the append-only entries. An operation
  reads the state and validates it, checks its arguments, and writes a validated state or raises
  and writes nothing; clock readings are arguments. Amounts are held in the form their text is
  read back as (\<open>canon\<close>), and a write orders the keys of the two dictionaries as the JSON file does.
\<close>

subsection \<open>State\<close>

record reservation =
  rv_request_id :: pystr
  rv_amount_usd :: decimal
  rv_created_at :: pystr

record ledger_entry =
  le_kind :: pystr
  le_amount_usd :: decimal
  le_balance_after_usd :: decimal
  le_request_id :: pystr
  le_action_id :: pystr
  le_note :: pystr
  le_at :: pystr
  le_completion_record_id :: "pystr option"

record sealed_authority =
  sa_authority_type :: pystr
  sa_record_id :: pystr
  sa_record_hash :: pystr
  sa_attestation :: "pyval option"

record reconciliation =
  rc_request_id :: pystr
  rc_outcome :: pystr
  rc_reconciled_by :: pystr
  rc_note :: pystr
  rc_expected_usd :: decimal
  rc_authority :: "sealed_authority option"
  rc_charged_usd :: decimal
  rc_released_usd :: decimal
  rc_disposition :: pystr
  rc_remaining_usd :: decimal
  rc_at :: pystr

record budget_state =
  bs_schema_version :: pystr
  bs_balance_usd :: decimal
  bs_total_spent_usd :: decimal
  bs_total_estimated_usd :: decimal
  bs_legacy_reserved_usd :: decimal
  bs_reservations :: "(pystr, reservation) dict"
  bs_reconciliations :: "(pystr, reconciliation) dict"
  bs_entries :: "ledger_entry list"

datatype budget_error =
    BudgetValue value_error
  | UnsupportedSchema
  | MustBeFinite
  | LegacyReservations
  | InvalidReservationEntry
  | ReservationNotPositive
  | ReservationMissingRequest
  | ReservationMissingCreatedAt
  | InvalidReconciliationEntry
  | InvalidOutcome
  | ReconciliationMissingField
  | InvalidAuthorityType
  | EntryMissingKind
  | EntryMissingTimestamp
  | EntryInvalidCompletion
  | MustBeNonEmpty
  | ZeroReservation
  | AlreadyReserved
  | ExceedsRemaining
  | ReservationConflict
  | NoReservation
  | RequestMismatch
  | PriorDisposition
  | AuthorityMismatch
  | UnexpectedReservation
  | NotEvidenceRecord
  | MissingAuthorityIds
  | DifferentReconciliation

definition ledger_money :: "money_like \<Rightarrow> (budget_error, decimal) result" where
  "ledger_money v = mapErr BudgetValue (money v)"

definition finite_decimal :: "decimal \<Rightarrow> (budget_error, unit) result" where
  "finite_decimal d = require (is_finite d) MustBeFinite"

definition outcomes :: "pystr list" where
  "outcomes = [lit ''succeeded'', lit ''failed'', lit ''not_executed'']"

definition starts_evd :: "pystr \<Rightarrow> bool" where
  "starts_evd s = startswith s (lit ''evd_'')"

lemma ledger_money_Inr [simp]: "ledger_money v = return d \<longleftrightarrow> money v = return d"
  by (simp add: ledger_money_def)

lemma finite_decimal_Inr [simp]: "finite_decimal d = return u \<longleftrightarrow> is_finite d"
  by (simp add: finite_decimal_def)

subsection \<open>Validation\<close>

definition check_reservation :: "pystr \<times> reservation \<Rightarrow> (budget_error, unit) result" where
  "check_reservation p = (case p of (action_id, reservation) \<Rightarrow>
     if action_id = [] then raise InvalidReservationEntry
     else bindR (ledger_money (MDecimal (rv_amount_usd reservation))) (\<lambda>amount.
       if dec_eq amount zero then raise ReservationNotPositive
       else if rv_request_id reservation = [] then raise ReservationMissingRequest
       else if rv_created_at reservation = [] then raise ReservationMissingCreatedAt
       else return ()))"

definition check_authority :: "sealed_authority \<Rightarrow> (budget_error, unit) result" where
  "check_authority a =
     (if sa_authority_type a \<noteq> lit ''authorization'' then raise InvalidAuthorityType
      else if py_strip (sa_record_id a) = [] \<or> py_strip (sa_record_hash a) = []
        then raise ReconciliationMissingField
      else return ())"

definition check_reconciliation :: "pystr \<times> reconciliation \<Rightarrow> (budget_error, unit) result" where
  "check_reconciliation p = (case p of (action_id, r) \<Rightarrow>
     if action_id = [] then raise InvalidReconciliationEntry
     else if rc_outcome r \<notin> set outcomes then raise InvalidOutcome
     else if \<exists>f \<in> set [rc_request_id r, rc_reconciled_by r, rc_note r, rc_disposition r, rc_at r].
               py_strip f = [] then raise ReconciliationMissingField
     else bindR (ledger_money (MDecimal (rc_expected_usd r))) (\<lambda>_.
       bindR (ledger_money (MDecimal (rc_charged_usd r))) (\<lambda>_.
       bindR (ledger_money (MDecimal (rc_released_usd r))) (\<lambda>_.
       bindR (finite_decimal (rc_remaining_usd r)) (\<lambda>_.
         case rc_authority r of None \<Rightarrow> return () | Some a \<Rightarrow> check_authority a)))))"

definition check_entry :: "ledger_entry \<Rightarrow> (budget_error, unit) result" where
  "check_entry e =
     (if le_kind e = [] then raise EntryMissingKind
      else bindR (ledger_money (MDecimal (le_amount_usd e))) (\<lambda>_.
        bindR (finite_decimal (le_balance_after_usd e)) (\<lambda>_.
          if le_at e = [] then raise EntryMissingTimestamp
          else case le_completion_record_id e of
              None \<Rightarrow> return ()
            | Some c \<Rightarrow> if starts_evd c then return () else raise EntryInvalidCompletion)))"

definition validate_budget :: "budget_state \<Rightarrow> (budget_error, unit) result" where
  "validate_budget d =
     (if bs_schema_version d \<notin> {lit ''0.1.0'', lit ''0.2.0''} then raise UnsupportedSchema
      else bindR (allR finite_decimal
            [bs_balance_usd d, bs_total_spent_usd d, bs_total_estimated_usd d]) (\<lambda>_.
        bindR (if bs_reservations d = [] then finite_decimal (bs_legacy_reserved_usd d)
               else return ()) (\<lambda>_.
        if bs_reservations d = [] \<and> \<not> dec_eq (bs_legacy_reserved_usd d) zero
          then raise LegacyReservations
        else bindR (allR check_reservation (bs_reservations d)) (\<lambda>_.
          bindR (allR check_reconciliation (bs_reconciliations d)) (\<lambda>_.
            allR check_entry (bs_entries d))))))"

text \<open>\<open>_write\<close>: validate the document, then store it with sorted keys.\<close>

definition write_budget :: "budget_state \<Rightarrow> (budget_error, budget_state) result" where
  "write_budget d = bindR (validate_budget d) (\<lambda>_. return
     (d\<lparr>bs_reservations := sort_keys (bs_reservations d),
        bs_reconciliations := sort_keys (bs_reconciliations d)\<rparr>))"

definition new_budget :: "money_like \<Rightarrow> (budget_error, budget_state) result" where
  "new_budget starting_balance_usd =
     bindR (ledger_money starting_balance_usd) (\<lambda>starting.
       write_budget
         \<lparr>bs_schema_version = lit ''0.2.0'', bs_balance_usd = canon starting,
          bs_total_spent_usd = zero, bs_total_estimated_usd = zero,
          bs_legacy_reserved_usd = zero,
          bs_reservations = [], bs_reconciliations = [], bs_entries = []\<rparr>)"

subsection \<open>Reading values\<close>

definition reserved_sum :: "budget_state \<Rightarrow> decimal" where
  "reserved_sum d = foldl dec_add zero (map (\<lambda>p. rv_amount_usd (snd p)) (bs_reservations d))"

definition available :: "budget_state \<Rightarrow> decimal" where
  "available d = dec_sub (bs_balance_usd d) (reserved_sum d)"

definition balance_of :: "budget_state \<Rightarrow> (budget_error, decimal) result" where
  "balance_of d = bindR (validate_budget d) (\<lambda>_. return (available d))"

definition needs_text :: "pystr list \<Rightarrow> (budget_error, unit) result" where
  "needs_text ts = require (\<forall>t \<in> set ts. t \<noteq> []) MustBeNonEmpty"

lemma needs_text_Inr [simp]: "needs_text ts = return u \<longleftrightarrow> (\<forall>t \<in> set ts. t \<noteq> [])"
  by (simp add: needs_text_def)

definition reservation_for :: "pystr \<Rightarrow> budget_state \<Rightarrow> (budget_error, decimal) result" where
  "reservation_for action_id d =
     bindR (needs_text [action_id]) (\<lambda>_.
     bindR (validate_budget d) (\<lambda>_.
       return (case dict_get action_id (bs_reservations d) of
           Some reservation \<Rightarrow> rv_amount_usd reservation
         | None \<Rightarrow> zero)))"

definition entry_is :: "string \<Rightarrow> pystr \<Rightarrow> pystr \<Rightarrow> ledger_entry \<Rightarrow> bool" where
  "entry_is kind request_id action_id e \<longleftrightarrow>
     le_kind e = lit kind \<and> le_request_id e = request_id \<and> le_action_id e = action_id"

definition exposure_for ::
  "pystr \<Rightarrow> pystr \<Rightarrow> budget_state \<Rightarrow> (budget_error, decimal) result" where
  "exposure_for request_id action_id d =
     bindR (needs_text [request_id, action_id]) (\<lambda>_.
     bindR (validate_budget d) (\<lambda>_.
       case dict_get action_id (bs_reservations d) of
         Some reservation \<Rightarrow>
           if rv_request_id reservation \<noteq> request_id then raise RequestMismatch
           else return (rv_amount_usd reservation)
       | None \<Rightarrow>
           (case find (entry_is ''reserve'' request_id action_id) (rev (bs_entries d)) of
             Some e \<Rightarrow> return (le_amount_usd e)
           | None \<Rightarrow> return zero)))"

definition prior_debit_for ::
  "pystr \<Rightarrow> pystr \<Rightarrow> budget_state \<Rightarrow> (budget_error, decimal option) result" where
  "prior_debit_for request_id action_id d =
     bindR (needs_text [request_id, action_id]) (\<lambda>_.
     bindR (validate_budget d) (\<lambda>_.
       return (map_option le_amount_usd
         (find (entry_is ''debit'' request_id action_id) (rev (bs_entries d))))))"

subsection \<open>Mutations\<close>

definition new_entry ::
  "string \<Rightarrow> decimal \<Rightarrow> decimal \<Rightarrow> pystr \<Rightarrow> pystr \<Rightarrow> pystr \<Rightarrow> pystr \<Rightarrow> ledger_entry" where
  "new_entry kind amount balance_after request_id action_id note now =
     \<lparr>le_kind = lit kind, le_amount_usd = canon amount, le_balance_after_usd = canon balance_after,
      le_request_id = request_id, le_action_id = action_id, le_note = note, le_at = now,
      le_completion_record_id = None\<rparr>"

definition append_entry :: "ledger_entry \<Rightarrow> budget_state \<Rightarrow> (budget_error, budget_state) result" where
  "append_entry e d = write_budget (d\<lparr>bs_entries := bs_entries d @ [e]\<rparr>)"

definition grant ::
  "money_like \<Rightarrow> pystr \<Rightarrow> pystr \<Rightarrow> budget_state \<Rightarrow> (budget_error, decimal \<times> budget_state) result" where
  "grant amount_usd note now d =
     bindR (ledger_money amount_usd) (\<lambda>amount.
     bindR (validate_budget d) (\<lambda>_.
       let d1 = d\<lparr>bs_balance_usd := canon (dec_add (bs_balance_usd d) amount)\<rparr>
       in bindR (append_entry (new_entry ''grant'' amount (available d1) [] [] note now) d1) (\<lambda>d2.
            return (available d1, d2))))"

datatype refusal = RequestLimit | RemainingBudget

record budget_check =
  ck_ok :: bool
  ck_remaining_usd :: decimal
  ck_estimate_usd :: decimal
  ck_reason :: "refusal option"

definition preflight ::
  "money_like \<Rightarrow> money_like option \<Rightarrow> budget_state \<Rightarrow> (budget_error, budget_check) result" where
  "preflight worst_case_estimate_usd request_limit_usd d =
     bindR (ledger_money worst_case_estimate_usd) (\<lambda>estimate.
     bindR (balance_of d) (\<lambda>remaining.
     bindR (case request_limit_usd of
         None \<Rightarrow> return False
       | Some l \<Rightarrow> bindR (ledger_money l) (\<lambda>request_limit. return (dec_lt request_limit estimate)))
     (\<lambda>over_limit.
       return
         (if over_limit
            then \<lparr>ck_ok = False, ck_remaining_usd = remaining, ck_estimate_usd = estimate,
                  ck_reason = Some RequestLimit\<rparr>
          else if dec_lt remaining estimate
            then \<lparr>ck_ok = False, ck_remaining_usd = remaining, ck_estimate_usd = estimate,
                  ck_reason = Some RemainingBudget\<rparr>
          else \<lparr>ck_ok = True, ck_remaining_usd = remaining, ck_estimate_usd = estimate,
                ck_reason = None\<rparr>))))"

text \<open>
  What \<open>reserve\<close> and \<open>ensure_reservation\<close> both do once the action is known to be unreserved;
  \<open>created_at\<close> and \<open>now\<close> are the two successive clock readings.
\<close>

definition put_reservation ::
  "decimal \<Rightarrow> pystr \<Rightarrow> pystr \<Rightarrow> pystr \<Rightarrow> pystr \<Rightarrow> budget_state \<Rightarrow> (budget_error, budget_state) result" where
  "put_reservation amount request_id action_id created_at now d =
     (if dec_lt (available d) amount then raise ExceedsRemaining
      else
        let d1 = d\<lparr>bs_reservations := dict_put action_id
                     \<lparr>rv_request_id = request_id, rv_amount_usd = canon amount,
                      rv_created_at = created_at\<rparr> (bs_reservations d)\<rparr>;
            d2 = d1\<lparr>bs_total_estimated_usd :=
                     canon (dec_add (bs_total_estimated_usd d) amount)\<rparr>
        in append_entry
             (new_entry ''reserve'' amount (available d2) request_id action_id [] now) d2)"

definition reserve ::
  "money_like \<Rightarrow> pystr \<Rightarrow> pystr \<Rightarrow> pystr \<Rightarrow> pystr \<Rightarrow> budget_state \<Rightarrow> (budget_error, budget_state) result" where
  "reserve amount_usd request_id action_id created_at now d =
     bindR (ledger_money amount_usd) (\<lambda>amount.
     bindR (needs_text [request_id, action_id]) (\<lambda>_.
       if dec_eq amount zero then raise ZeroReservation
       else bindR (validate_budget d) (\<lambda>_.
         if dict_get action_id (bs_reservations d) \<noteq> None then raise AlreadyReserved
         else put_reservation amount request_id action_id created_at now d)))"

definition reservation_matches :: "pystr \<Rightarrow> decimal \<Rightarrow> reservation \<Rightarrow> bool" where
  "reservation_matches request_id amount r \<longleftrightarrow>
     rv_request_id r = request_id \<and> dec_eq (rv_amount_usd r) amount"

definition ensure_reservation ::
  "money_like \<Rightarrow> pystr \<Rightarrow> pystr \<Rightarrow> pystr \<Rightarrow> pystr \<Rightarrow> budget_state \<Rightarrow> (budget_error, budget_state) result" where
  "ensure_reservation amount_usd request_id action_id created_at now d =
     bindR (ledger_money amount_usd) (\<lambda>amount.
     bindR (needs_text [request_id, action_id]) (\<lambda>_.
       if dec_eq amount zero then raise ZeroReservation
       else bindR (validate_budget d) (\<lambda>_.
         case dict_get action_id (bs_reservations d) of
           Some existing \<Rightarrow>
             if reservation_matches request_id amount existing then return d
             else raise ReservationConflict
         | None \<Rightarrow> put_reservation amount request_id action_id created_at now d)))"

definition pop_reservation ::
  "pystr \<Rightarrow> pystr \<Rightarrow> budget_state \<Rightarrow> (budget_error, decimal \<times> budget_state) result" where
  "pop_reservation request_id action_id d =
     (case dict_get action_id (bs_reservations d) of
       None \<Rightarrow> raise NoReservation
     | Some reservation \<Rightarrow>
         if rv_request_id reservation \<noteq> request_id then raise RequestMismatch
         else bindR (ledger_money (MDecimal (rv_amount_usd reservation))) (\<lambda>amount.
           return (amount,
             d\<lparr>bs_reservations := dict_del action_id (bs_reservations d)\<rparr>)))"

text \<open>Taking \<open>amount\<close> from the balance and adding it to the total spent.\<close>

definition charge :: "decimal \<Rightarrow> budget_state \<Rightarrow> budget_state" where
  "charge amount d =
     d\<lparr>bs_balance_usd := canon (dec_sub (bs_balance_usd d) amount),
       bs_total_spent_usd := canon (dec_add (bs_total_spent_usd d) amount)\<rparr>"

definition drop_estimate :: "decimal \<Rightarrow> budget_state \<Rightarrow> budget_state" where
  "drop_estimate amount d =
     d\<lparr>bs_total_estimated_usd := canon (dec_sub (bs_total_estimated_usd d) amount)\<rparr>"

definition reserved_note :: "decimal \<Rightarrow> pystr" where
  "reserved_note amount = lit ''reserved $'' @ decimal_text amount"

definition settle ::
  "money_like \<Rightarrow> pystr \<Rightarrow> pystr \<Rightarrow> pystr \<Rightarrow> budget_state \<Rightarrow> (budget_error, decimal \<times> budget_state) result" where
  "settle actual_usd request_id action_id now d =
     bindR (ledger_money actual_usd) (\<lambda>actual.
     bindR (needs_text [request_id, action_id]) (\<lambda>_.
     bindR (validate_budget d) (\<lambda>_.
     bindR (pop_reservation request_id action_id d) (\<lambda>(reserved, d1).
       let d2 = charge actual d1; remaining = available d2
       in bindR (append_entry
              (new_entry ''debit'' actual remaining request_id action_id
                 (reserved_note reserved) now) d2) (\<lambda>d3. return (remaining, d3))))))"

definition dispositions :: "pystr list" where
  "dispositions = [lit ''debit'', lit ''release'', lit ''reconcile'']"

definition prior_entries :: "pystr \<Rightarrow> pystr \<Rightarrow> budget_state \<Rightarrow> ledger_entry list" where
  "prior_entries request_id action_id d =
     filter (\<lambda>e. le_request_id e = request_id \<and> le_action_id e = action_id
                  \<and> le_kind e \<in> set dispositions) (bs_entries d)"

definition preview_settlement ::
  "money_like \<Rightarrow> money_like \<Rightarrow> pystr \<Rightarrow> pystr \<Rightarrow> budget_state \<Rightarrow> (budget_error, decimal) result" where
  "preview_settlement expected_usd actual_usd request_id action_id d =
     bindR (ledger_money expected_usd) (\<lambda>expected.
     bindR (ledger_money actual_usd) (\<lambda>actual.
     bindR (needs_text [request_id, action_id]) (\<lambda>_.
     bindR (validate_budget d) (\<lambda>_.
       if prior_entries request_id action_id d \<noteq> [] then raise PriorDisposition
       else case dict_get action_id (bs_reservations d) of
           None \<Rightarrow>
             if dec_pos expected then raise NoReservation
             else return (dec_sub (dec_add (available d) expected) actual)
         | Some reservation \<Rightarrow>
             if \<not> dec_pos expected then raise UnexpectedReservation
             else if \<not> reservation_matches request_id expected reservation
               then raise AuthorityMismatch
             else return (dec_sub (dec_add (available d) expected) actual)))))"

definition is_matching_debit :: "decimal \<Rightarrow> decimal \<Rightarrow> pystr \<Rightarrow> ledger_entry \<Rightarrow> bool" where
  "is_matching_debit expected actual completion_record_id e \<longleftrightarrow>
     le_kind e = lit ''debit'' \<and> dec_eq (le_amount_usd e) actual
     \<and> le_note e = reserved_note expected
     \<and> le_completion_record_id e = Some completion_record_id"

text \<open>\<open>ensure_settlement\<close>: \<open>None\<close> when the debit is already there, else the state to debit.\<close>

definition settlement_base ::
  "decimal \<Rightarrow> decimal \<Rightarrow> pystr \<Rightarrow> pystr \<Rightarrow> pystr \<Rightarrow> budget_state
   \<Rightarrow> (budget_error, budget_state option) result" where
  "settlement_base expected actual request_id action_id completion_record_id d =
     (let prior = prior_entries request_id action_id d in
      case dict_get action_id (bs_reservations d) of
        None \<Rightarrow>
          let matching = filter (is_matching_debit expected actual completion_record_id) prior
          in if length prior = 1 \<and> length matching = 1 then return None
             else if prior \<noteq> [] then raise PriorDisposition
             else if dec_pos expected then raise NoReservation
             else return (Some d)
      | Some reservation \<Rightarrow>
          if prior \<noteq> [] then raise PriorDisposition
          else if \<not> reservation_matches request_id expected reservation
            then raise AuthorityMismatch
          else return (Some (d\<lparr>bs_reservations := dict_del action_id (bs_reservations d)\<rparr>)))"

definition debit_entry ::
  "decimal \<Rightarrow> decimal \<Rightarrow> decimal \<Rightarrow> pystr \<Rightarrow> pystr \<Rightarrow> pystr \<Rightarrow> pystr \<Rightarrow> ledger_entry" where
  "debit_entry expected actual remaining request_id action_id completion_record_id now =
     (new_entry ''debit'' actual remaining request_id action_id (reserved_note expected) now)
       \<lparr>le_completion_record_id := Some completion_record_id\<rparr>"

definition ensure_settlement ::
  "money_like \<Rightarrow> money_like \<Rightarrow> pystr \<Rightarrow> pystr \<Rightarrow> pystr \<Rightarrow> pystr \<Rightarrow> budget_state
   \<Rightarrow> (budget_error, decimal \<times> budget_state) result" where
  "ensure_settlement expected_usd actual_usd request_id action_id completion_record_id now d =
     bindR (ledger_money expected_usd) (\<lambda>expected.
     bindR (ledger_money actual_usd) (\<lambda>actual.
     bindR (needs_text [request_id, action_id, completion_record_id]) (\<lambda>_.
       if \<not> starts_evd completion_record_id then raise NotEvidenceRecord
       else bindR (validate_budget d) (\<lambda>_.
         bindR (settlement_base expected actual request_id action_id completion_record_id d)
           (\<lambda>base. case base of
               None \<Rightarrow> return (available d, d)
             | Some d1 \<Rightarrow>
                 let d2 = charge actual d1; remaining = available d2;
                     entry = debit_entry expected actual remaining request_id action_id
                               completion_record_id now
                 in bindR (append_entry entry d2) (\<lambda>d3. return (remaining, d3)))))))"

definition release ::
  "pystr \<Rightarrow> pystr \<Rightarrow> pystr \<Rightarrow> budget_state \<Rightarrow> (budget_error, decimal \<times> budget_state) result" where
  "release request_id action_id now d =
     bindR (needs_text [request_id, action_id]) (\<lambda>_.
     bindR (validate_budget d) (\<lambda>_.
     bindR (pop_reservation request_id action_id d) (\<lambda>(reserved, d1).
       let d2 = drop_estimate reserved d1; remaining = available d2
       in bindR (append_entry
              (new_entry ''release'' reserved remaining request_id action_id
                 (lit ''action did not execute'') now) d2) (\<lambda>d3. return (remaining, d3)))))"

definition is_matching_release :: "pystr \<Rightarrow> pystr \<Rightarrow> decimal \<Rightarrow> ledger_entry \<Rightarrow> bool" where
  "is_matching_release request_id action_id expected e \<longleftrightarrow>
     entry_is ''release'' request_id action_id e \<and> dec_eq (le_amount_usd e) expected"

definition ensure_release ::
  "money_like \<Rightarrow> pystr \<Rightarrow> pystr \<Rightarrow> pystr \<Rightarrow> budget_state
   \<Rightarrow> (budget_error, decimal \<times> budget_state) result" where
  "ensure_release expected_usd request_id action_id now d =
     bindR (ledger_money expected_usd) (\<lambda>expected.
     bindR (needs_text [request_id, action_id]) (\<lambda>_.
       if dec_eq expected zero then bindR (balance_of d) (\<lambda>b. return (b, d))
       else bindR (validate_budget d) (\<lambda>_.
         case dict_get action_id (bs_reservations d) of
           None \<Rightarrow>
             if filter (is_matching_release request_id action_id expected) (bs_entries d) \<noteq> []
               then return (available d, d)
             else raise NoReservation
         | Some reservation \<Rightarrow>
             if \<not> reservation_matches request_id expected reservation
               then raise ReservationConflict
             else bindR (pop_reservation request_id action_id d) (\<lambda>(reserved, d1).
               let d2 = drop_estimate reserved d1; remaining = available d2
               in bindR (append_entry
                    (new_entry ''release'' reserved remaining request_id action_id
                       (lit ''action did not execute'') now) d2) (\<lambda>d3. return (remaining, d3))))))"

subsection \<open>Operator reconciliation\<close>

fun latest_of :: "ledger_entry list \<Rightarrow> pystr \<Rightarrow> pystr \<Rightarrow> pystr" where
  "latest_of [] request_id action_id = []"
| "latest_of (e # es) request_id action_id =
     (if le_request_id e \<noteq> request_id \<or> le_action_id e \<noteq> action_id
        then latest_of es request_id action_id
      else if le_kind e \<in> {lit ''debit'', lit ''reconcile_debit''} then lit ''debit''
      else if le_kind e \<in> {lit ''release'', lit ''reconcile_release''} then lit ''release''
      else latest_of es request_id action_id)"

definition latest_budget_disposition :: "ledger_entry list \<Rightarrow> pystr \<Rightarrow> pystr \<Rightarrow> pystr" where
  "latest_budget_disposition entries = latest_of (rev entries)"

text \<open>The operator's input to one reconciliation, after \<open>_text\<close> has checked and stripped it.\<close>

record reconcile_input =
  ri_request_id :: pystr
  ri_action_id :: pystr
  ri_outcome :: pystr
  ri_reconciled_by :: pystr
  ri_note :: pystr
  ri_authority_record_id :: pystr
  ri_authority_record_hash :: pystr
  ri_attestation :: "pyval option"

definition check_reconcile_input ::
  "reconcile_input \<Rightarrow> (budget_error, reconcile_input) result" where
  "check_reconcile_input i =
     bindR (needs_text [ri_request_id i, ri_action_id i, ri_outcome i]) (\<lambda>_.
       if ri_outcome i \<notin> set outcomes then raise InvalidOutcome
       else
         let operator = py_strip (ri_reconciled_by i); note = py_strip (ri_note i)
         in bindR (needs_text [operator, note]) (\<lambda>_.
              return (i\<lparr>ri_reconciled_by := operator, ri_note := note\<rparr>)))"

definition supplied_authority ::
  "reconcile_input \<Rightarrow> (budget_error, sealed_authority option) result" where
  "supplied_authority i =
     (if ri_authority_record_id i \<noteq> [] \<or> ri_authority_record_hash i \<noteq> []
           \<or> ri_attestation i \<noteq> None
        then if ri_authority_record_id i = [] \<or> ri_authority_record_hash i = []
               then raise MissingAuthorityIds
             else return (Some \<lparr>sa_authority_type = lit ''authorization'',
                    sa_record_id = ri_authority_record_id i,
                    sa_record_hash = ri_authority_record_hash i,
                    sa_attestation = ri_attestation i\<rparr>)
      else return None)"

text \<open>
  Every key the caller supplied is compared with the stored marker: the five plain keys, and the
  four authority keys when they were supplied.
\<close>

definition supplied_differs ::
  "reconcile_input \<Rightarrow> decimal \<Rightarrow> sealed_authority option \<Rightarrow> reconciliation \<Rightarrow> bool" where
  "supplied_differs i expected authority r \<longleftrightarrow>
     rc_request_id r \<noteq> ri_request_id i \<or> rc_outcome r \<noteq> ri_outcome i
     \<or> rc_reconciled_by r \<noteq> ri_reconciled_by i \<or> rc_note r \<noteq> ri_note i
     \<or> rc_expected_usd r \<noteq> canon expected
     \<or> (authority \<noteq> None \<and> rc_authority r \<noteq> authority)"

text \<open>The live reservation, taken out of the state after it was matched with the input.\<close>

definition take_reservation ::
  "pystr \<Rightarrow> pystr \<Rightarrow> decimal \<Rightarrow> budget_state
   \<Rightarrow> (budget_error, decimal option \<times> budget_state) result" where
  "take_reservation request_id action_id expected d =
     (case dict_get action_id (bs_reservations d) of
       None \<Rightarrow> return (None, d)
     | Some reservation \<Rightarrow>
         if rv_request_id reservation \<noteq> request_id then raise RequestMismatch
         else bindR (ledger_money (MDecimal (rv_amount_usd reservation))) (\<lambda>reserved.
           if \<not> dec_eq reserved expected then raise AuthorityMismatch
           else return (Some reserved,
             d\<lparr>bs_reservations := dict_del action_id (bs_reservations d)\<rparr>)))"

record settled_amounts =
  st_charged :: decimal
  st_released :: decimal
  st_disposition :: pystr

definition decide_amounts ::
  "pystr \<Rightarrow> decimal option \<Rightarrow> pystr \<Rightarrow> decimal \<Rightarrow> settled_amounts" where
  "decide_amounts outcome reserved prior expected =
     (if outcome = lit ''not_executed'' then
        (case reserved of
          Some r \<Rightarrow> \<lparr>st_charged = zero, st_released = r,
                     st_disposition = lit ''reservation_released''\<rparr>
        | None \<Rightarrow> \<lparr>st_charged = zero, st_released = zero, st_disposition =
              (if prior = lit ''debit'' then lit ''prior_debit_preserved''
               else lit ''no_live_reservation'')\<rparr>)
      else
        (case reserved of
          Some r \<Rightarrow> \<lparr>st_charged = r, st_released = zero,
                     st_disposition = lit ''reservation_charged''\<rparr>
        | None \<Rightarrow>
            if prior = lit ''debit'' then \<lparr>st_charged = zero, st_released = zero,
              st_disposition = lit ''prior_debit_preserved''\<rparr>
            else if dec_pos expected then \<lparr>st_charged = expected, st_released = zero,
              st_disposition = lit ''missing_reservation_charged''\<rparr>
            else \<lparr>st_charged = zero, st_released = zero,
              st_disposition = lit ''no_budget_exposure''\<rparr>))"

definition apply_amounts :: "pystr \<Rightarrow> decimal option \<Rightarrow> settled_amounts \<Rightarrow> budget_state \<Rightarrow> budget_state" where
  "apply_amounts outcome reserved a d =
     (if outcome = lit ''not_executed'' then
        (case reserved of Some r \<Rightarrow> drop_estimate r d | None \<Rightarrow> d)
      else if dec_pos (st_charged a) then charge (st_charged a) d else d)"

definition reconcile_note :: "reconcile_input \<Rightarrow> pystr \<Rightarrow> pystr" where
  "reconcile_note i disposition =
     ri_outcome i @ lit '' by '' @ ri_reconciled_by i @ lit ''; '' @ disposition
     @ lit ''; operator note: '' @ ri_note i"

definition new_reconciliation ::
  "reconcile_input \<Rightarrow> decimal \<Rightarrow> sealed_authority option \<Rightarrow> settled_amounts \<Rightarrow> decimal \<Rightarrow> pystr
   \<Rightarrow> reconciliation" where
  "new_reconciliation i expected authority a remaining stamp =
     \<lparr>rc_request_id = ri_request_id i, rc_outcome = ri_outcome i,
      rc_reconciled_by = ri_reconciled_by i, rc_note = ri_note i,
      rc_expected_usd = canon expected, rc_authority = authority,
      rc_charged_usd = canon (st_charged a), rc_released_usd = canon (st_released a),
      rc_disposition = st_disposition a, rc_remaining_usd = canon remaining, rc_at = stamp\<rparr>"

definition reconcile_new ::
  "decimal \<Rightarrow> reconcile_input \<Rightarrow> sealed_authority option \<Rightarrow> pystr \<Rightarrow> pystr \<Rightarrow> budget_state
   \<Rightarrow> (budget_error, reconciliation \<times> budget_state) result" where
  "reconcile_new expected i authority stamp now d =
     bindR (take_reservation (ri_request_id i) (ri_action_id i) expected d) (\<lambda>(reserved, d1).
       let prior = latest_budget_disposition (bs_entries d1) (ri_request_id i) (ri_action_id i)
       in if reserved \<noteq> None \<and> prior \<noteq> [] then raise PriorDisposition
          else
            let a = decide_amounts (ri_outcome i) reserved prior expected;
                d2 = apply_amounts (ri_outcome i) reserved a d1;
                remaining = available d2;
                r = new_reconciliation i expected authority a remaining stamp;
                d3 = d2\<lparr>bs_reconciliations :=
                         dict_put (ri_action_id i) r (bs_reconciliations d2)\<rparr>
            in bindR (append_entry
                   (new_entry ''reconcile''
                      (if dec_pos (st_charged a) then st_charged a else st_released a)
                      remaining (ri_request_id i) (ri_action_id i)
                      (reconcile_note i (st_disposition a)) now) d3)
                 (\<lambda>d4. return (r, d4)))"

definition reconcile_reservation ::
  "money_like \<Rightarrow> reconcile_input \<Rightarrow> pystr \<Rightarrow> pystr \<Rightarrow> budget_state
   \<Rightarrow> (budget_error, reconciliation \<times> budget_state) result" where
  "reconcile_reservation expected_usd supplied stamp now d =
     bindR (ledger_money expected_usd) (\<lambda>expected.
     bindR (check_reconcile_input supplied) (\<lambda>i.
     bindR (validate_budget d) (\<lambda>_.
     bindR (supplied_authority i) (\<lambda>authority.
       case dict_get (ri_action_id i) (bs_reconciliations d) of
         Some existing \<Rightarrow>
           if supplied_differs i expected authority existing then raise DifferentReconciliation
           else return (existing, d)
       | None \<Rightarrow> reconcile_new expected i authority stamp now d))))"

subsection \<open>Reporting\<close>

record budget_summary =
  sm_balance_usd :: decimal
  sm_reserved_usd :: decimal
  sm_available_usd :: decimal
  sm_total_spent_usd :: decimal
  sm_entry_count :: nat

definition summary :: "budget_state \<Rightarrow> (budget_error, budget_summary) result" where
  "summary d = bindR (validate_budget d) (\<lambda>_.
     return \<lparr>sm_balance_usd = canon (bs_balance_usd d),
             sm_reserved_usd = canon (dec_sub (bs_balance_usd d) (available d)),
             sm_available_usd = canon (available d),
             sm_total_spent_usd = canon (bs_total_spent_usd d),
             sm_entry_count = length (bs_entries d)\<rparr>)"

end
