(* ===== verification/LedgerFacts.thy ===== *)
theory LedgerFacts
  imports Ledger "HOL-Library.Multiset"
begin

text \<open>
  What every ledger operation keeps: a written state is a valid state, an operation changes only
  its own action's reservation, and (when no sum needs more than the 28 digits of the decimal
  context) the amounts move between balance, reservations and spending without loss.
\<close>

subsection \<open>Valid states\<close>

definition budget_ok :: "budget_state \<Rightarrow> bool" where
  "budget_ok d \<longleftrightarrow> validate_budget d = return ()"

definition budget_wf :: "budget_state \<Rightarrow> bool" where
  "budget_wf d \<longleftrightarrow> budget_ok d \<and> wf_dict (bs_reservations d) \<and> wf_dict (bs_reconciliations d)"

definition reservation_ok :: "pystr \<Rightarrow> reservation \<Rightarrow> bool" where
  "reservation_ok a r \<longleftrightarrow> a \<noteq> [] \<and> is_money (rv_amount_usd r) \<and> 0 < dval (rv_amount_usd r)
     \<and> rv_request_id r \<noteq> [] \<and> rv_created_at r \<noteq> []"

lemma check_reservation_iff [simp]:
  "check_reservation (a, r) = return () \<longleftrightarrow> reservation_ok a r"
  by (auto simp: check_reservation_def reservation_ok_def money_decimal_iff dec_eq_dval
      is_money_def order.order_iff_strict split: if_splits)

definition entry_ok :: "ledger_entry \<Rightarrow> bool" where
  "entry_ok e \<longleftrightarrow> le_kind e \<noteq> [] \<and> is_money (le_amount_usd e) \<and> is_finite (le_balance_after_usd e)
     \<and> le_at e \<noteq> [] \<and> (\<forall>c. le_completion_record_id e = Some c \<longrightarrow> starts_evd c)"

lemma check_entry_iff [simp]: "check_entry e = return () \<longleftrightarrow> entry_ok e"
  by (auto simp: check_entry_def entry_ok_def money_decimal_iff split: option.splits)

lemma budget_ok_iff:
  "budget_ok d \<longleftrightarrow>
     bs_schema_version d \<in> {lit ''0.1.0'', lit ''0.2.0''}
     \<and> is_finite (bs_balance_usd d) \<and> is_finite (bs_total_spent_usd d)
     \<and> is_finite (bs_total_estimated_usd d)
     \<and> (bs_reservations d = [] \<longrightarrow>
          is_finite (bs_legacy_reserved_usd d) \<and> dec_eq (bs_legacy_reserved_usd d) zero)
     \<and> (\<forall>(a, r) \<in> set (bs_reservations d). reservation_ok a r)
     \<and> (\<forall>p \<in> set (bs_reconciliations d). check_reconciliation p = return ())
     \<and> (\<forall>e \<in> set (bs_entries d). entry_ok e)"
  by (auto simp: budget_ok_def validate_budget_def split_def split: if_splits)

lemma validate_Inr [simp]: "validate_budget d = return u \<longleftrightarrow> budget_ok d"
  by (simp add: budget_ok_def)

lemma validate_ok [simp]: "budget_ok d \<Longrightarrow> validate_budget d = return ()"
  by (rule budget_ok_def [THEN iffD1])

lemma budget_okD:
  assumes "budget_ok d"
  shows "is_finite (bs_balance_usd d)" "is_finite (bs_total_spent_usd d)"
    "is_finite (bs_total_estimated_usd d)"
    "dict_get a (bs_reservations d) = Some r \<Longrightarrow> reservation_ok a r"
    "e \<in> set (bs_entries d) \<Longrightarrow> entry_ok e"
  using assms by (auto simp: budget_ok_iff dest: dict_get_in_set)

lemma budget_wfD [dest]: "budget_wf d \<Longrightarrow> budget_ok d"
  by (simp add: budget_wf_def)

subsection \<open>Writing\<close>

text \<open>A successful write stores the document itself, up to the order of its keys.\<close>

lemma write_budgetE:
  assumes "write_budget d = return t"
  obtains "budget_ok d" "t = d\<lparr>bs_reservations := sort_keys (bs_reservations d),
    bs_reconciliations := sort_keys (bs_reconciliations d)\<rparr>"
  using assms by (auto simp: write_budget_def)

lemma budget_ok_sort [simp]:
  "budget_ok (d\<lparr>bs_reservations := sort_keys (bs_reservations d),
    bs_reconciliations := sort_keys (bs_reconciliations d)\<rparr>) = budget_ok d"
  by (simp add: budget_ok_iff)

lemma write_budget_ok: "write_budget d = return t \<Longrightarrow> budget_ok t"
  by (erule write_budgetE) simp

lemma write_budget_wf:
  "write_budget d = return t \<Longrightarrow> wf_dict (bs_reservations d) \<Longrightarrow> wf_dict (bs_reconciliations d)
   \<Longrightarrow> budget_wf t"
  by (erule write_budgetE) (simp add: budget_wf_def)

lemma append_entry_ok: "append_entry e d = return t \<Longrightarrow> budget_ok t"
  by (simp add: append_entry_def write_budget_ok)

lemma append_entry_wf:
  "append_entry e d = return t \<Longrightarrow> wf_dict (bs_reservations d) \<Longrightarrow> wf_dict (bs_reconciliations d)
   \<Longrightarrow> budget_wf t"
  by (auto simp: append_entry_def intro: write_budget_wf)

text \<open>What an appended state shows to its readers.\<close>

lemma append_entry_fields:
  assumes "append_entry e d = return t"
  shows "bs_balance_usd t = bs_balance_usd d" "bs_total_spent_usd t = bs_total_spent_usd d"
    "bs_total_estimated_usd t = bs_total_estimated_usd d"
    "bs_entries t = bs_entries d @ [e]"
    "mset (bs_reservations t) = mset (bs_reservations d)"
    "wf_dict (bs_reservations d) \<Longrightarrow> dict_get a (bs_reservations t) = dict_get a (bs_reservations d)"
    "wf_dict (bs_reconciliations d) \<Longrightarrow>
       dict_get a (bs_reconciliations t) = dict_get a (bs_reconciliations d)"
  using assms by (auto simp: append_entry_def elim!: write_budgetE)

subsection \<open>The amounts of a state, as rationals\<close>

definition bal :: "budget_state \<Rightarrow> rat" where
  "bal d = dval (bs_balance_usd d)"

definition spent :: "budget_state \<Rightarrow> rat" where
  "spent d = dval (bs_total_spent_usd d)"

definition estimated :: "budget_state \<Rightarrow> rat" where
  "estimated d = dval (bs_total_estimated_usd d)"

definition reserved :: "budget_state \<Rightarrow> rat" where
  "reserved d = sum_list (map (\<lambda>p. dval (rv_amount_usd (snd p))) (bs_reservations d))"

definition headroom :: "budget_state \<Rightarrow> rat" where
  "headroom d = bal d - reserved d"

text \<open>
  A grid \<open>10\<^sup>q\<close> on which all amounts lie, and the largest magnitude the 28 digits of the context
  hold on it. \<open>volume\<close> bounds every sum an operation forms.
\<close>

definition on_grid :: "int \<Rightarrow> decimal \<Rightarrow> bool" where
  "on_grid q x \<longleftrightarrow> is_finite x \<and> (\<exists>n::int. dval x = of_int n * 10 powi q)"

definition cap :: "int \<Rightarrow> rat" where
  "cap q = 10 ^ prec * 10 powi q"

definition volume :: "budget_state \<Rightarrow> rat" where
  "volume d = \<bar>bal d\<bar> + reserved d + \<bar>spent d\<bar> + \<bar>estimated d\<bar>"

definition on_grid_state :: "int \<Rightarrow> budget_state \<Rightarrow> bool" where
  "on_grid_state q d \<longleftrightarrow>
     on_grid q (bs_balance_usd d) \<and> on_grid q (bs_total_spent_usd d)
     \<and> on_grid q (bs_total_estimated_usd d)
     \<and> (\<forall>p \<in> set (bs_reservations d). on_grid q (rv_amount_usd (snd p)))"

lemma on_grid_finite [simp]: "on_grid q x \<Longrightarrow> is_finite x"
  by (simp add: on_grid_def)

lemma on_grid_zero [simp]: "on_grid q zero"
  by (auto simp: on_grid_def intro: exI [of _ 0])

lemma on_grid_canon [simp]: "on_grid q (canon x) = on_grid q x"
  by (simp add: on_grid_def)

lemma on_grid_neg [simp]: "on_grid q x \<Longrightarrow> on_grid q (dec_neg x)"
  unfolding on_grid_def by (metis dval_neg finite_neg mult_minus_left of_int_minus)

lemma grid_add:
  assumes "on_grid q x" "on_grid q y" "\<bar>dval x + dval y\<bar> < cap q"
  shows "dval (dec_add x y) = dval x + dval y" "on_grid q (dec_add x y)"
proof -
  obtain n where n: "dval x = of_int n * 10 powi q" using assms(1) by (auto simp: on_grid_def)
  obtain m where m: "dval y = of_int m * 10 powi q" using assms(2) by (auto simp: on_grid_def)
  have v: "dval x + dval y = of_int (n + m) * 10 powi q" by (simp add: n m algebra_simps)
  have "\<bar>of_int (n + m) :: rat\<bar> * 10 powi q < 10 ^ prec * 10 powi q"
    using assms(3) by (simp add: v cap_def abs_mult)
  then have "\<bar>of_int (n + m) :: rat\<bar> < 10 ^ prec" by simp
  then have "\<bar>n + m\<bar> < 10 ^ prec"
    by (metis of_int_abs of_int_less_iff of_int_numeral of_int_power)
  with v show 1: "dval (dec_add x y) = dval x + dval y"
    by (intro dec_add_exact) (use assms in auto)
  have "is_finite (dec_add x y)" using assms by simp
  then show "on_grid q (dec_add x y)"
    unfolding on_grid_def 1 v by blast
qed

lemma grid_sub:
  assumes "on_grid q x" "on_grid q y" "\<bar>dval x - dval y\<bar> < cap q"
  shows "dval (dec_sub x y) = dval x - dval y" "on_grid q (dec_sub x y)"
  using grid_add [of q x "dec_neg y"] assms by (simp_all add: dec_sub_def)

lemma grid_sum:
  "\<forall>x \<in> set xs. on_grid q x \<and> 0 \<le> dval x \<Longrightarrow> on_grid q a \<Longrightarrow> 0 \<le> dval a \<Longrightarrow>
   dval a + sum_list (map dval xs) < cap q \<Longrightarrow>
   dval (foldl dec_add a xs) = dval a + sum_list (map dval xs) \<and> on_grid q (foldl dec_add a xs)"
proof (induction xs arbitrary: a)
  case Nil
  then show ?case by simp
next
  case (Cons x xs)
  have "0 \<le> sum_list (map dval xs)"
    using Cons.prems(1) by (intro sum_list_nonneg) auto
  then have "\<bar>dval a + dval x\<bar> < cap q" using Cons.prems by auto
  with Cons.prems have "dval (dec_add a x) = dval a + dval x" "on_grid q (dec_add a x)"
    using grid_add [of q a x] by auto
  with Cons show ?case by (simp add: algebra_simps)
qed

lemma budget_ok_amounts:
  "budget_ok d \<Longrightarrow> \<forall>p \<in> set (bs_reservations d). 0 \<le> dval (rv_amount_usd (snd p))"
  by (auto simp: budget_ok_iff reservation_ok_def dest: is_moneyD(2))

lemma reserved_nonneg: "budget_ok d \<Longrightarrow> 0 \<le> reserved d"
  unfolding reserved_def
  by (intro sum_list_nonneg) (auto simp: budget_ok_iff reservation_ok_def dest: is_moneyD(2))

lemma available_exact:
  assumes "\<forall>p \<in> set (bs_reservations d). 0 \<le> dval (rv_amount_usd (snd p))"
    and "on_grid_state q d" "\<bar>bal d\<bar> + reserved d < cap q"
  shows "dval (available d) = headroom d" "on_grid q (available d)"
proof -
  let ?xs = "map (\<lambda>p. rv_amount_usd (snd p)) (bs_reservations d)"
  have s: "sum_list (map dval ?xs) = reserved d" by (simp add: reserved_def o_def)
  have nonneg: "0 \<le> reserved d"
    unfolding reserved_def using assms(1) by (intro sum_list_nonneg) auto
  have "dval (reserved_sum d) = reserved d \<and> on_grid q (reserved_sum d)"
    unfolding reserved_sum_def
    using grid_sum [of ?xs q zero] assms s nonneg
    by (auto simp: on_grid_state_def abs_if split: if_splits)
  then show "dval (available d) = headroom d" "on_grid q (available d)"
    using grid_sub [of q "bs_balance_usd d" "reserved_sum d"] assms nonneg
    by (auto simp: available_def headroom_def bal_def on_grid_state_def abs_if split: if_splits)
qed

subsection \<open>Reservations in and out\<close>

lemma reserved_append [simp]:
  "append_entry e d = return t \<Longrightarrow> reserved t = reserved d"
proof -
  assume "append_entry e d = return t"
  let ?f = "\<lambda>p. dval (rv_amount_usd (snd p))"
  have "mset (map ?f (bs_reservations t)) = mset (map ?f (bs_reservations d))"
    using append_entry_fields(5) [OF \<open>append_entry e d = return t\<close>] by (simp add: mset_map)
  then have "sum_mset (mset (map ?f (bs_reservations t))) = sum_mset (mset (map ?f (bs_reservations d)))"
    by (rule arg_cong)
  then show ?thesis by (simp only: reserved_def sum_mset_sum_list)
qed

lemma reserved_put:
  "dict_get a (bs_reservations d) = None \<Longrightarrow>
   reserved (d\<lparr>bs_reservations := dict_put a r (bs_reservations d)\<rparr>)
     = reserved d + dval (rv_amount_usd r)"
  by (simp add: reserved_def dict_put_new)

lemma dict_del_sum:
  fixes f :: "'v \<Rightarrow> rat"
  assumes "wf_dict d" "dict_get a d = Some r"
  shows "sum_list (map (\<lambda>p. f (snd p)) (dict_del a d)) + f r = sum_list (map (\<lambda>p. f (snd p)) d)"
  using assms
proof (induction d)
  case Nil
  then show ?case by simp
next
  case (Cons p d)
  obtain b v where p: "p = (b, v)" by (cases p)
  show ?case
  proof (cases "b = a")
    case True
    then have "dict_del a d = d" using Cons.prems by (auto simp: p wf_dict_def dict_del_def)
    then show ?thesis using True Cons.prems by (simp add: p dict_del_def)
  next
    case False
    then show ?thesis using Cons by (auto simp: p wf_dict_def dict_del_def)
  qed
qed

lemma reserved_del:
  assumes "wf_dict (bs_reservations d)" "dict_get a (bs_reservations d) = Some r"
  shows "reserved (d\<lparr>bs_reservations := dict_del a (bs_reservations d)\<rparr>)
           = reserved d - dval (rv_amount_usd r)"
  using dict_del_sum [OF assms, of "\<lambda>r. dval (rv_amount_usd r)"] by (simp add: reserved_def)

lemma reserved_ge:
  assumes "budget_wf d" "dict_get a (bs_reservations d) = Some r"
  shows "dval (rv_amount_usd r) \<le> reserved d"
proof -
  have "0 \<le> reserved (d\<lparr>bs_reservations := dict_del a (bs_reservations d)\<rparr>)"
    unfolding reserved_def using budget_wfD [OF assms(1)]
    by (intro sum_list_nonneg)
       (auto simp: budget_ok_iff set_dict_del reservation_ok_def dest: is_moneyD(2))
  then show ?thesis using assms by (simp add: reserved_del budget_wf_def)
qed

lemma pop_reservationE:
  assumes "pop_reservation request_id action_id d = return (x, d1)"
  obtains r where "dict_get action_id (bs_reservations d) = Some r"
    "rv_request_id r = request_id" "x = rv_amount_usd r" "is_money (rv_amount_usd r)"
    "d1 = d\<lparr>bs_reservations := dict_del action_id (bs_reservations d)\<rparr>"
  using assms
  by (auto simp: pop_reservation_def money_decimal_iff split: option.splits if_splits)

subsection \<open>How the amounts move\<close>

text \<open>From one state to the next: the change of each amount, all on the grid.\<close>

definition moved ::
  "int \<Rightarrow> budget_state \<Rightarrow> budget_state \<Rightarrow> rat \<Rightarrow> rat \<Rightarrow> rat \<Rightarrow> rat \<Rightarrow> bool" where
  "moved q d t b s e r \<longleftrightarrow>
     on_grid_state q t \<and> bal t = bal d + b \<and> spent t = spent d + s
     \<and> estimated t = estimated d + e \<and> reserved t = reserved d + r"

lemma moved_refl: "on_grid_state q d \<Longrightarrow> moved q d d 0 0 0 0"
  by (simp add: moved_def)

lemma moved_headroom: "moved q d t b s e r \<Longrightarrow> headroom t = headroom d + b - r"
  by (simp add: moved_def headroom_def)

lemma moved_append:
  assumes "append_entry e d = return t" and g: "on_grid_state q d"
  shows "moved q d t 0 0 0 0"
proof -
  have "set (bs_reservations t) = set (bs_reservations d)"
    using arg_cong [OF append_entry_fields(5) [OF assms(1)], of set_mset] by simp
  then show ?thesis
    using append_entry_fields [OF assms(1)] reserved_append [OF assms(1)] g
    by (simp add: moved_def on_grid_state_def bal_def spent_def estimated_def)
qed

lemma moved_trans:
  "moved q d t b s e r \<Longrightarrow> moved q t u b' s' e' r' \<Longrightarrow>
   moved q d u (b + b') (s + s') (e + e') (r + r')"
  by (simp add: moved_def)

lemma moved_entries [simp]: "moved q d (t\<lparr>bs_entries := es\<rparr>) b s e r = moved q d t b s e r"
  by (simp add: moved_def on_grid_state_def bal_def spent_def estimated_def reserved_def)

lemma moved_reconciliations [simp]:
  "moved q d (t\<lparr>bs_reconciliations := rs\<rparr>) b s e r = moved q d t b s e r"
  by (simp add: moved_def on_grid_state_def bal_def spent_def estimated_def reserved_def)

lemma moved_del:
  assumes "budget_wf d" "on_grid_state q d" "dict_get a (bs_reservations d) = Some r"
  shows "moved q d (d\<lparr>bs_reservations := dict_del a (bs_reservations d)\<rparr>) 0 0 0
           (- dval (rv_amount_usd r))"
  using assms reserved_del [OF _ assms(3)]
  by (auto simp: moved_def on_grid_state_def bal_def spent_def estimated_def budget_wf_def set_dict_del)

lemma moved_charge:
  assumes "on_grid_state q d" "on_grid q x" "0 \<le> dval x"
    and "\<bar>bal d\<bar> + dval x < cap q" "\<bar>spent d\<bar> + dval x < cap q"
  shows "moved q d (charge x d) (- dval x) (dval x) 0 0"
proof -
  have "\<bar>bal d - dval x\<bar> < cap q" "\<bar>spent d + dval x\<bar> < cap q" using assms by auto
  then show ?thesis
    using assms grid_sub [of q "bs_balance_usd d" x] grid_add [of q "bs_total_spent_usd d" x]
    by (auto simp: moved_def charge_def on_grid_state_def bal_def spent_def estimated_def reserved_def)
qed

lemma moved_drop_estimate:
  assumes "on_grid_state q d" "on_grid q x" "0 \<le> dval x" "\<bar>estimated d\<bar> + dval x < cap q"
  shows "moved q d (drop_estimate x d) 0 0 (- dval x) 0"
proof -
  have "\<bar>estimated d - dval x\<bar> < cap q" using assms by auto
  then show ?thesis
    using assms grid_sub [of q "bs_total_estimated_usd d" x]
    by (auto simp: moved_def drop_estimate_def on_grid_state_def bal_def spent_def estimated_def
        reserved_def)
qed

lemma volume_bounds:
  assumes "budget_ok d" "volume d + x < cap q" "0 \<le> x"
  shows "\<bar>bal d\<bar> + reserved d < cap q" "\<bar>bal d\<bar> + x < cap q" "\<bar>spent d\<bar> + x < cap q"
    "\<bar>estimated d\<bar> + x < cap q" "0 \<le> reserved d"
  using assms reserved_nonneg [OF assms(1)] by (auto simp: volume_def)

lemma available_headroom:
  assumes "budget_ok d" "on_grid_state q d" "volume d + x < cap q" "0 \<le> x"
  shows "dval (available d) = headroom d" "on_grid q (available d)"
  using available_exact [OF budget_ok_amounts [OF assms(1)] assms(2)]
    volume_bounds(1) [OF assms(1,3,4)] by blast+

lemma put_reservation_moved:
  assumes ok: "budget_ok d" and g: "on_grid_state q d" "on_grid q x" and x: "0 \<le> dval x"
    and v: "volume d + dval x < cap q" and new: "dict_get a (bs_reservations d) = None"
    and run: "put_reservation x r a t1 t2 d = return t"
  shows "moved q d t 0 0 (dval x) (dval x)" "dval x \<le> headroom d"
proof -
  let ?r = "\<lparr>rv_request_id = r, rv_amount_usd = canon x, rv_created_at = t1\<rparr>"
  let ?d2 = "d\<lparr>bs_reservations := dict_put a ?r (bs_reservations d),
               bs_total_estimated_usd := canon (dec_add (bs_total_estimated_usd d) x)\<rparr>"
  note b = volume_bounds [OF ok v x]
  have "\<bar>estimated d + dval x\<bar> < cap q" using b x by auto
  then have "moved q d ?d2 0 0 (dval x) (dval x)"
    using g grid_add [of q "bs_total_estimated_usd d" x] new reserved_put [OF new, of ?r]
    by (auto simp: moved_def on_grid_state_def bal_def spent_def estimated_def reserved_def
        dict_put_new)
  moreover obtain e where "append_entry e ?d2 = return t"
    using run by (auto simp: put_reservation_def Let_def split: if_splits)
  ultimately show "moved q d t 0 0 (dval x) (dval x)"
    using moved_append [of e ?d2 t q] moved_trans by (fastforce simp: moved_def)
  show "dval x \<le> headroom d"
    using run available_headroom [OF ok g(1) v x] g(2)
    by (auto simp: put_reservation_def dec_lt_dval split: if_splits)
qed

lemma moved_then_append:
  assumes "moved q d d2 b s e r" "append_entry x d2 = return t"
  shows "moved q d t b s e r"
proof -
  have "moved q d2 t 0 0 0 0"
    using assms by (intro moved_append [OF assms(2)]) (simp add: moved_def)
  from moved_trans [OF assms(1) this] show ?thesis by simp
qed

lemma moved_del_charge:
  assumes wf: "budget_wf d" and g: "on_grid_state q d" "on_grid q x" and x: "0 \<le> dval x"
    and v: "volume d + dval x < cap q" and r: "dict_get a (bs_reservations d) = Some r"
  shows "moved q d (charge x (d\<lparr>bs_reservations := dict_del a (bs_reservations d)\<rparr>))
           (- dval x) (dval x) 0 (- dval (rv_amount_usd r))"
proof -
  note b = volume_bounds [OF budget_wfD [OF wf] v x]
  note m = moved_del [OF wf g(1) r]
  have "moved q (d\<lparr>bs_reservations := dict_del a (bs_reservations d)\<rparr>)
          (charge x (d\<lparr>bs_reservations := dict_del a (bs_reservations d)\<rparr>)) (- dval x) (dval x) 0 0"
    by (rule moved_charge) (use m g x b in \<open>auto simp: moved_def bal_def spent_def\<close>)
  from moved_trans [OF m this] show ?thesis by simp
qed

lemma moved_del_drop:
  assumes wf: "budget_wf d" and g: "on_grid_state q d"
    and v: "volume d + dval (rv_amount_usd r) < cap q"
    and r: "dict_get a (bs_reservations d) = Some r"
  shows "moved q d (drop_estimate (rv_amount_usd r)
             (d\<lparr>bs_reservations := dict_del a (bs_reservations d)\<rparr>))
           0 0 (- dval (rv_amount_usd r)) (- dval (rv_amount_usd r))"
proof -
  let ?x = "rv_amount_usd r"
  have x: "0 \<le> dval ?x" and gx: "on_grid q ?x"
    using budget_okD(4) [OF budget_wfD [OF wf] r] g dict_get_in_set [OF r]
    by (auto simp: reservation_ok_def on_grid_state_def)
  note b = volume_bounds [OF budget_wfD [OF wf] v x]
  note m = moved_del [OF wf g r]
  have "moved q (d\<lparr>bs_reservations := dict_del a (bs_reservations d)\<rparr>)
          (drop_estimate ?x (d\<lparr>bs_reservations := dict_del a (bs_reservations d)\<rparr>))
          0 0 (- dval ?x) 0"
    by (rule moved_drop_estimate) (use m gx x b in \<open>auto simp: moved_def estimated_def\<close>)
  from moved_trans [OF m this] show ?thesis by simp
qed

subsection \<open>The operations\<close>

lemma grant_moved:
  assumes ok: "budget_ok d" and g: "on_grid_state q d" "on_grid q x" and m: "money v = return x"
    and v: "volume d + dval x < cap q" and run: "grant v note now d = return (y, t)"
  shows "moved q d t (dval x) 0 0 0"
proof -
  let ?d1 = "d\<lparr>bs_balance_usd := canon (dec_add (bs_balance_usd d) x)\<rparr>"
  have x: "0 \<le> dval x" using m money_sound is_moneyD by blast
  note b = volume_bounds [OF ok v x]
  have "\<bar>bal d + dval x\<bar> < cap q" using b x by auto
  then have "moved q d ?d1 (dval x) 0 0 0"
    using g grid_add [of q "bs_balance_usd d" x]
    by (auto simp: moved_def on_grid_state_def bal_def spent_def estimated_def reserved_def)
  moreover obtain e where "append_entry e ?d1 = return t"
    using run m by (auto simp: grant_def Let_def)
  ultimately show ?thesis by (rule moved_then_append)
qed

lemma settle_moved:
  assumes wf: "budget_wf d" and g: "on_grid_state q d" "on_grid q x" and m: "money v = return x"
    and v: "volume d + dval x < cap q" and run: "settle v r a now d = return (y, t)"
  obtains rv where "dict_get a (bs_reservations d) = Some rv" "rv_request_id rv = r"
    "moved q d t (- dval x) (dval x) 0 (- dval (rv_amount_usd rv))"
proof -
  have x: "0 \<le> dval x" using m money_sound is_moneyD by blast
  obtain z d1 e where p: "pop_reservation r a d = return (z, d1)"
    and e: "append_entry e (charge x d1) = return t"
    using run m by (auto simp: settle_def Let_def)
  from p obtain rv where rv: "dict_get a (bs_reservations d) = Some rv" "rv_request_id rv = r"
    and d1: "d1 = d\<lparr>bs_reservations := dict_del a (bs_reservations d)\<rparr>"
    by (rule pop_reservationE)
  show ?thesis
    using that rv moved_then_append [OF moved_del_charge [OF wf g x v rv(1)] e [unfolded d1]] .
qed

lemma release_moved:
  assumes wf: "budget_wf d" and g: "on_grid_state q d"
    and v: "\<And>rv. dict_get a (bs_reservations d) = Some rv \<Longrightarrow>
      volume d + dval (rv_amount_usd rv) < cap q"
    and run: "release r a now d = return (y, t)"
  obtains rv where "dict_get a (bs_reservations d) = Some rv" "rv_request_id rv = r"
    "moved q d t 0 0 (- dval (rv_amount_usd rv)) (- dval (rv_amount_usd rv))"
proof -
  obtain z d1 e where p: "pop_reservation r a d = return (z, d1)"
    and e: "append_entry e (drop_estimate z d1) = return t"
    using run by (auto simp: release_def Let_def)
  from p obtain rv where rv: "dict_get a (bs_reservations d) = Some rv" "rv_request_id rv = r"
    and z: "z = rv_amount_usd rv"
    and d1: "d1 = d\<lparr>bs_reservations := dict_del a (bs_reservations d)\<rparr>"
    by (rule pop_reservationE)
  show ?thesis
    using that rv moved_then_append [OF moved_del_drop [OF wf g v [OF rv(1)] rv(1)] e [unfolded d1 z]] .
qed

end
