(* ===== verification/LedgerRuns.thy ===== *)
theory LedgerRuns
  imports LedgerFacts
begin

text \<open>
  Runs of the ledger: its mutating operations as commands, the states they reach, and what holds
  in all of them. Recovery repeats the \<open>ensure_\<close> operations and the reconciliation, so these
  are shown to recognise their own earlier effect.
\<close>

datatype ledger_command =
    Grant money_like pystr pystr
  | Reserve money_like pystr pystr pystr pystr
  | EnsureReservation money_like pystr pystr pystr pystr
  | Settle money_like pystr pystr pystr
  | EnsureSettlement money_like money_like pystr pystr pystr pystr
  | Release pystr pystr pystr
  | EnsureRelease money_like pystr pystr pystr
  | Reconcile money_like reconcile_input pystr pystr

fun run_ledger :: "ledger_command \<Rightarrow> budget_state \<Rightarrow> (budget_error, budget_state) result" where
  "run_ledger (Grant v note now) d = stateR (grant v note now d)"
| "run_ledger (Reserve v r a t1 t2) d = reserve v r a t1 t2 d"
| "run_ledger (EnsureReservation v r a t1 t2) d = ensure_reservation v r a t1 t2 d"
| "run_ledger (Settle v r a now) d = stateR (settle v r a now d)"
| "run_ledger (EnsureSettlement e v r a c now) d =
     stateR (ensure_settlement e v r a c now d)"
| "run_ledger (Release r a now) d = stateR (release r a now d)"
| "run_ledger (EnsureRelease e r a now) d =
     stateR (ensure_release e r a now d)"
| "run_ledger (Reconcile e i stamp now) d =
     stateR (reconcile_reservation e i stamp now d)"

subsection \<open>What a successful recovery operation did\<close>

lemma reserveE:
  assumes "reserve v r a t1 t2 d = return t"
  obtains x where "money v = return x" "0 < dval x" "r \<noteq> []" "a \<noteq> []" "budget_ok d"
    "dict_get a (bs_reservations d) = None" "put_reservation x r a t1 t2 d = return t"
proof -
  obtain x where x: "money v = return x" using assms by (auto simp: reserve_def)
  then have m: "is_money x" by (rule money_sound)
  show ?thesis
    using assms x m by (intro that [OF x])
      (auto simp: reserve_def dec_eq_dval is_money_def split: if_splits)
qed

lemma ensure_reservationE:
  assumes "ensure_reservation v r a t1 t2 d = return t"
  obtains (new) x where "money v = return x" "0 < dval x" "budget_ok d"
      "dict_get a (bs_reservations d) = None" "put_reservation x r a t1 t2 d = return t"
  | (again) x rv where "money v = return x" "0 < dval x" "budget_ok d"
      "dict_get a (bs_reservations d) = Some rv" "reservation_matches r x rv" "t = d"
proof -
  obtain x where x: "money v = return x" using assms by (auto simp: ensure_reservation_def)
  then have m: "is_money x" by (rule money_sound)
  then have pos: "0 < dval x" and ok: "budget_ok d"
    using assms x by (auto simp: ensure_reservation_def dec_eq_dval is_money_def split: if_splits)
  show ?thesis
  proof (cases "dict_get a (bs_reservations d)")
    case None
    then show ?thesis
      using assms x by (intro new [OF x pos ok])
        (auto simp: ensure_reservation_def split: if_splits)
  next
    case (Some rv)
    then show ?thesis
      using assms x by (intro again [OF x pos ok Some])
        (auto simp: ensure_reservation_def split: if_splits)
  qed
qed

lemma ensure_settlementE:
  assumes "ensure_settlement e v r a c now d = return (y, t)"
  obtains (again) "budget_ok d" "dict_get a (bs_reservations d) = None" "t = d"
  | (reserved) x xe rv where "money e = return xe" "money v = return x" "budget_ok d"
      "dict_get a (bs_reservations d) = Some rv" "reservation_matches r xe rv"
      "prior_entries r a d = []"
      "append_entry (debit_entry xe x y r a c now)
         (charge x (d\<lparr>bs_reservations := dict_del a (bs_reservations d)\<rparr>)) = return t"
  | (free) x xe where "money e = return xe" "money v = return x" "budget_ok d"
      "dict_get a (bs_reservations d) = None" "\<not> dec_pos xe" "prior_entries r a d = []"
      "append_entry (debit_entry xe x y r a c now) (charge x d) = return t"
proof -
  obtain xe x b where e: "money e = return xe" and v: "money v = return x" and ok: "budget_ok d"
    and b: "settlement_base xe x r a c d = return b"
    using assms by (auto simp: ensure_settlement_def split: if_splits)
  show ?thesis
  proof (cases "dict_get a (bs_reservations d)")
    case None
    show ?thesis
    proof (cases b)
      case None
      then show ?thesis
        using assms e v ok b \<open>dict_get a (bs_reservations d) = None\<close>
        by (intro again) (auto simp: ensure_settlement_def split: if_splits)
    next
      case (Some d1)
      then have d1: "d1 = d" "\<not> dec_pos xe" "prior_entries r a d = []"
        using b None by (auto simp: settlement_base_def Let_def split: if_splits)
      have "append_entry (debit_entry xe x y r a c now) (charge x d) = return t"
        using assms e v ok b Some d1(1)
        by (auto simp: ensure_settlement_def Let_def split: if_splits)
      then show ?thesis using free [OF e v ok None d1(2,3)] by blast
    qed
  next
    case (Some rv)
    then have b': "b = Some (d\<lparr>bs_reservations := dict_del a (bs_reservations d)\<rparr>)"
      and m: "reservation_matches r xe rv" "prior_entries r a d = []"
      using b by (auto simp: settlement_base_def Let_def split: if_splits)
    have "append_entry (debit_entry xe x y r a c now) (charge x (d\<lparr>bs_reservations := dict_del a (bs_reservations d)\<rparr>)) = return t"
      using assms e v ok b b'
      by (auto simp: ensure_settlement_def Let_def split: if_splits)
    then show ?thesis using reserved [OF e v ok Some m] by blast
  qed
qed

lemma ensure_releaseE:
  assumes "ensure_release e r a now d = return (y, t)"
  obtains (same) xe where "money e = return xe" "budget_ok d" "t = d"
      "dec_eq xe zero \<or> dict_get a (bs_reservations d) = None
         \<and> filter (is_matching_release r a xe) (bs_entries d) \<noteq> []"
  | (released) xe rv en where "money e = return xe" "budget_ok d"
      "dict_get a (bs_reservations d) = Some rv" "reservation_matches r xe rv"
      "en = new_entry ''release'' (rv_amount_usd rv) (available (drop_estimate (rv_amount_usd rv)
               (d\<lparr>bs_reservations := dict_del a (bs_reservations d)\<rparr>))) r a
               (lit ''action did not execute'') now"
      "append_entry en (drop_estimate (rv_amount_usd rv)
         (d\<lparr>bs_reservations := dict_del a (bs_reservations d)\<rparr>)) = return t"
proof -
  obtain xe where e: "money e = return xe" using assms by (auto simp: ensure_release_def)
  show ?thesis
  proof (cases "dec_eq xe zero")
    case True
    then show ?thesis
      using assms e by (intro same [OF e]) (auto simp: ensure_release_def balance_of_def)
  next
    case False
    then have ok: "budget_ok d" using assms e by (auto simp: ensure_release_def)
    show ?thesis
    proof (cases "dict_get a (bs_reservations d)")
      case None
      then show ?thesis
        using assms e False ok
        by (intro same [OF e]) (auto simp: ensure_release_def split: if_splits)
    next
      case (Some rv)
      then have "is_money (rv_amount_usd rv)"
        using budget_okD(4) [OF ok] by (auto simp: reservation_ok_def)
      then show ?thesis
        using assms e False ok Some
        by (intro released [OF e ok Some])
          (auto simp: ensure_release_def pop_reservation_def money_decimal_iff Let_def split: if_splits)
    qed
  qed
qed

lemma reconcileE:
  assumes "reconcile_reservation e i stamp now d = return (rc, t)"
  obtains (again) x j where "money e = return x" "check_reconcile_input i = return j" "budget_ok d"
      "dict_get (ri_action_id i) (bs_reconciliations d) = Some rc" "t = d"
  | (new) x j auth where "money e = return x" "check_reconcile_input i = return j" "budget_ok d"
      "dict_get (ri_action_id i) (bs_reconciliations d) = None"
      "reconcile_new x j auth stamp now d = return (rc, t)" "supplied_authority j = return auth"
proof -
  obtain x j auth where x: "money e = return x" and j: "check_reconcile_input i = return j"
    and ok: "budget_ok d" and au: "supplied_authority j = return auth"
    using assms by (auto simp: reconcile_reservation_def)
  have a: "ri_action_id j = ri_action_id i"
    using j by (auto simp: check_reconcile_input_def Let_def split: if_splits)
  show ?thesis
  proof (cases "dict_get (ri_action_id i) (bs_reconciliations d)")
    case None
    then show ?thesis
      using assms x j ok au a by (intro new [OF x j ok None]) (auto simp: reconcile_reservation_def)
  next
    case (Some old)
    then have "rc = old" "t = d"
      using assms x j ok au a by (auto simp: reconcile_reservation_def split: if_splits)
    then show ?thesis using Some by (intro again [OF x j ok]) auto
  qed
qed

lemma check_reconcile_input_fields:
  "check_reconcile_input i = return j \<Longrightarrow>
     ri_action_id j = ri_action_id i \<and> ri_request_id j = ri_request_id i
     \<and> ri_outcome j = ri_outcome i \<and> ri_outcome i \<in> set outcomes
     \<and> ri_request_id i \<noteq> [] \<and> ri_action_id i \<noteq> []"
  by (auto simp: check_reconcile_input_def Let_def split: if_splits)

definition reconcile_entry ::
  "reconcile_input \<Rightarrow> settled_amounts \<Rightarrow> decimal \<Rightarrow> pystr \<Rightarrow> ledger_entry" where
  "reconcile_entry i a remaining now =
     new_entry ''reconcile'' (if dec_pos (st_charged a) then st_charged a else st_released a)
       remaining (ri_request_id i) (ri_action_id i) (reconcile_note i (st_disposition a)) now"

text \<open>The three ways a first reconciliation ends.\<close>

lemma reconcile_newE:
  assumes run: "reconcile_new x i auth stamp now d = return (rc, t)" and ok: "budget_ok d"
  obtains (reserved) rv am en d1 d2 where
      "dict_get (ri_action_id i) (bs_reservations d) = Some rv"
      "rv_request_id rv = ri_request_id i" "dval (rv_amount_usd rv) = dval x \<or> \<not> is_finite x"
      "latest_budget_disposition (bs_entries d) (ri_request_id i) (ri_action_id i) = []"
      "am = decide_amounts (ri_outcome i) (Some (rv_amount_usd rv)) [] x"
      "d1 = d\<lparr>bs_reservations := dict_del (ri_action_id i) (bs_reservations d)\<rparr>"
      "d2 = (if ri_outcome i = lit ''not_executed'' then drop_estimate (rv_amount_usd rv) d1
             else charge (rv_amount_usd rv) d1)"
      "rc = new_reconciliation i x auth am (available d2) stamp"
      "en = reconcile_entry i am (available d2) now"
      "append_entry en (d2\<lparr>bs_reconciliations :=
         dict_put (ri_action_id i) rc (bs_reconciliations d2)\<rparr>) = return t"
  | (free) am prior en d2 where
      "dict_get (ri_action_id i) (bs_reservations d) = None"
      "prior = latest_budget_disposition (bs_entries d) (ri_request_id i) (ri_action_id i)"
      "am = decide_amounts (ri_outcome i) None prior x"
      "d2 = (if ri_outcome i = lit ''not_executed'' \<or> \<not> dec_pos (st_charged am) then d
             else charge (st_charged am) d)"
      "rc = new_reconciliation i x auth am (available d2) stamp"
      "en = reconcile_entry i am (available d2) now"
      "append_entry en (d2\<lparr>bs_reconciliations :=
         dict_put (ri_action_id i) rc (bs_reconciliations d2)\<rparr>) = return t"
proof (cases "dict_get (ri_action_id i) (bs_reservations d)")
  case None
  then show ?thesis
    using run by (intro free [OF None refl refl refl _ refl])
      (auto simp: reconcile_new_def take_reservation_def Let_def apply_amounts_def
        reconcile_entry_def split: if_splits)
next
  case (Some rv)
  have rv: "is_money (rv_amount_usd rv)" "0 < dval (rv_amount_usd rv)"
    using budget_okD(4) [OF ok Some] by (auto simp: reservation_ok_def)
  then have pos: "dec_pos (rv_amount_usd rv)" by (simp add: dec_pos_dval is_money_def)
  have 1: "rv_request_id rv = ri_request_id i" "dec_eq (rv_amount_usd rv) x"
    "latest_budget_disposition (bs_entries d) (ri_request_id i) (ri_action_id i) = []"
    using run Some rv
    by (auto simp: reconcile_new_def take_reservation_def Let_def money_decimal_iff split: if_splits)
  have 2: "dval (rv_amount_usd rv) = dval x \<or> \<not> is_finite x"
    using 1 rv by (auto simp: dec_eq_dval is_money_def)
  show ?thesis
    using run Some rv 1 pos
    by (intro reserved [OF Some 1(1) 2 1(3) refl refl refl _ refl])
      (auto simp: reconcile_new_def take_reservation_def Let_def money_decimal_iff apply_amounts_def
        decide_amounts_def reconcile_entry_def split: if_splits)
qed

subsection \<open>Every command keeps the state valid\<close>

lemma charge_dicts [simp]:
  "bs_reservations (charge x d) = bs_reservations d"
  "bs_reconciliations (charge x d) = bs_reconciliations d"
  "bs_entries (charge x d) = bs_entries d"
  "bs_reservations (drop_estimate x d) = bs_reservations d"
  "bs_reconciliations (drop_estimate x d) = bs_reconciliations d"
  "bs_entries (drop_estimate x d) = bs_entries d"
  by (simp_all add: charge_def drop_estimate_def)

lemma put_reservationE:
  assumes "put_reservation x r a t1 t2 d = return t"
  obtains en e' where "le_kind en = lit ''reserve''" "le_request_id en = r" "le_action_id en = a"
    "append_entry en (d\<lparr>bs_reservations := dict_put a
       \<lparr>rv_request_id = r, rv_amount_usd = canon x, rv_created_at = t1\<rparr> (bs_reservations d),
       bs_total_estimated_usd := e'\<rparr>) = return t"
proof -
  let ?e = "canon (dec_add (bs_total_estimated_usd d) x)"
  let ?d2 = "d\<lparr>bs_reservations := dict_put a
     \<lparr>rv_request_id = r, rv_amount_usd = canon x, rv_created_at = t1\<rparr> (bs_reservations d),
     bs_total_estimated_usd := ?e\<rparr>"
  have "append_entry (new_entry ''reserve'' x (available ?d2) r a [] t2) ?d2 = return t"
    using assms by (auto simp: put_reservation_def Let_def split: if_splits)
  then show ?thesis by (rule that [rotated 3]) (simp_all add: new_entry_def)
qed

lemma run_ledger_wf:
  assumes wf: "budget_wf d" and run: "run_ledger c d = return t"
  shows "budget_wf t"
proof -
  have w: "wf_dict (bs_reservations d)" "wf_dict (bs_reconciliations d)"
    using wf by (simp_all add: budget_wf_def)
  show ?thesis
  proof (cases c)
    case (Grant v nt now)
    then show ?thesis using run w by (auto simp: grant_def Let_def intro: append_entry_wf)
  next
    case (Reserve v r a t1 t2)
    then show ?thesis
      using run w by (auto elim!: reserveE put_reservationE intro: append_entry_wf)
  next
    case (EnsureReservation v r a t1 t2)
    then show ?thesis
      using run w wf by (auto elim!: ensure_reservationE put_reservationE intro: append_entry_wf)
  next
    case (Settle v r a now)
    then show ?thesis
      using run w by (auto simp: settle_def Let_def elim!: pop_reservationE intro: append_entry_wf)
  next
    case (EnsureSettlement e v r a ci now)
    then show ?thesis using run w wf by (auto elim!: ensure_settlementE intro: append_entry_wf)
  next
    case (Release r a now)
    then show ?thesis
      using run w by (auto simp: release_def Let_def elim!: pop_reservationE intro: append_entry_wf)
  next
    case (EnsureRelease e r a now)
    then show ?thesis using run w wf by (auto elim!: ensure_releaseE intro: append_entry_wf)
  next
    case (Reconcile e i stamp now)
    then obtain rc where "reconcile_reservation e i stamp now d = return (rc, t)"
      using run by auto
    then show ?thesis
    proof (cases rule: reconcileE)
      case again
      then show ?thesis using wf by simp
    next
      case (new x j auth)
      from new(5,3) show ?thesis
        by (cases rule: reconcile_newE) (auto simp: w intro!: append_entry_wf split: if_splits)
    qed
  qed
qed

subsection \<open>Where the money goes\<close>

text \<open>
  The arithmetic of a command is exact when every amount lies on one grid and twice the volume of
  the state plus the command's amount fits the 28 digits.
\<close>

fun command_values :: "ledger_command \<Rightarrow> money_like list" where
  "command_values (Grant v _ _) = [v]"
| "command_values (Reserve v _ _ _ _) = [v]"
| "command_values (EnsureReservation v _ _ _ _) = [v]"
| "command_values (Settle v _ _ _) = [v]"
| "command_values (EnsureSettlement e v _ _ _ _) = [v]"
| "command_values (Release _ _ _) = []"
| "command_values (EnsureRelease e _ _ _) = []"
| "command_values (Reconcile e _ _ _) = [e]"

definition exact_amount :: "int \<Rightarrow> budget_state \<Rightarrow> money_like \<Rightarrow> bool" where
  "exact_amount q d v =
     (case money v of Inl _ \<Rightarrow> True | Inr x \<Rightarrow> on_grid q x \<and> 2 * volume d + dval x < cap q)"

definition exact_command :: "int \<Rightarrow> ledger_command \<Rightarrow> budget_state \<Rightarrow> bool" where
  "exact_command q c d \<longleftrightarrow>
     on_grid_state q d \<and> 2 * volume d < cap q \<and> list_all (exact_amount q d) (command_values c)"

definition granted :: "ledger_command \<Rightarrow> rat" where
  "granted c = (case c of
     Grant v _ _ \<Rightarrow> (case money v of Inl _ \<Rightarrow> 0 | Inr x \<Rightarrow> dval x) | _ \<Rightarrow> 0)"

text \<open>
  A command is covered when what it charges was set aside before: a settlement of at most the
  reserved estimate, a reconciliation that finds its reservation or charges nothing for it.
\<close>

definition money_le :: "money_like \<Rightarrow> money_like \<Rightarrow> bool" where
  "money_le v w = (case (money v, money w) of (Inr x, Inr y) \<Rightarrow> dval x \<le> dval y | _ \<Rightarrow> True)"

definition covered :: "ledger_command \<Rightarrow> budget_state \<Rightarrow> bool" where
  "covered c d = (case c of
     Settle v r a now \<Rightarrow>
       (case dict_get a (bs_reservations d) of
         Some rv \<Rightarrow> money_le v (MDecimal (rv_amount_usd rv)) | None \<Rightarrow> True)
   | EnsureSettlement e v r a ci now \<Rightarrow> money_le v e
   | Reconcile e i stamp now \<Rightarrow>
       dict_get (ri_action_id i) (bs_reservations d) \<noteq> None
       \<or> ri_outcome i = lit ''not_executed''
       \<or> latest_budget_disposition (bs_entries d) (ri_request_id i) (ri_action_id i) = lit ''debit''
   | _ \<Rightarrow> True)"

definition conserves :: "int \<Rightarrow> ledger_command \<Rightarrow> budget_state \<Rightarrow> budget_state \<Rightarrow> bool" where
  "conserves q c d t \<longleftrightarrow>
     (\<exists>b s e r. moved q d t b s e r \<and> b + s = granted c
        \<and> (covered c d \<longrightarrow> 0 \<le> headroom d \<longrightarrow> 0 \<le> headroom d + b - r))"

lemma conservesI:
  "moved q d t b s e r \<Longrightarrow> b + s = granted c \<Longrightarrow>
   (covered c d \<Longrightarrow> 0 \<le> headroom d \<Longrightarrow> 0 \<le> headroom d + b - r) \<Longrightarrow> conserves q c d t"
  by (auto simp: conserves_def)

lemma volume_nonneg: "budget_ok d \<Longrightarrow> 0 \<le> volume d"
  using reserved_nonneg [of d] by (simp add: volume_def)

lemma exact_commandD:
  assumes "exact_command q c d" "budget_ok d"
  shows "on_grid_state q d" "volume d < cap q"
    "v \<in> set (command_values c) \<Longrightarrow> money v = return x \<Longrightarrow> on_grid q x"
    "v \<in> set (command_values c) \<Longrightarrow> money v = return x \<Longrightarrow> volume d + dval x < cap q"
proof -
  have n: "0 \<le> volume d" using assms(2) by (rule volume_nonneg)
  show "on_grid_state q d" "volume d < cap q"
    using assms n by (auto simp: exact_command_def)
  show "v \<in> set (command_values c) \<Longrightarrow> money v = return x \<Longrightarrow> on_grid q x"
    using assms by (auto simp: exact_command_def exact_amount_def list_all_iff split: sum.splits)
  show "v \<in> set (command_values c) \<Longrightarrow> money v = return x \<Longrightarrow> volume d + dval x < cap q"
    using assms n by (force simp: exact_command_def exact_amount_def list_all_iff split: sum.splits)
qed

lemma exact_reservation:
  assumes "exact_command q c d" "budget_wf d" "dict_get a (bs_reservations d) = Some rv"
  shows "on_grid q (rv_amount_usd rv)" "volume d + dval (rv_amount_usd rv) < cap q"
    "0 < dval (rv_amount_usd rv)"
proof -
  have ok: "budget_ok d" using assms(2) by blast
  show "on_grid q (rv_amount_usd rv)"
    using exact_commandD(1) [OF assms(1) ok] dict_get_in_set [OF assms(3)]
    by (auto simp: on_grid_state_def)
  have "dval (rv_amount_usd rv) \<le> volume d"
    using reserved_ge [OF assms(2,3)] by (simp add: volume_def)
  then show "volume d + dval (rv_amount_usd rv) < cap q"
    using assms(1) by (simp add: exact_command_def)
  show "0 < dval (rv_amount_usd rv)"
    using budget_okD(4) [OF ok assms(3)] by (simp add: reservation_ok_def)
qed

lemma settlement_conserves:
  assumes wf: "budget_wf d" and ex: "exact_command q (EnsureSettlement e v r a ci now) d"
    and run: "ensure_settlement e v r a ci now d = return (y, t)"
  shows "conserves q (EnsureSettlement e v r a ci now) d t"
  using run
proof (cases rule: ensure_settlementE)
  case again
  then show ?thesis
    using exact_commandD(1) [OF ex] by (auto intro!: conservesI [OF moved_refl] simp: granted_def)
next
  case (reserved x xe rv)
  have m: "is_money x" "is_money xe" using reserved(1,2) by (simp_all add: money_sound)
  have d: "dval (rv_amount_usd rv) = dval xe"
    using reserved(5) m budget_okD(4) [OF reserved(3,4)]
    by (auto simp: reservation_matches_def dec_eq_dval is_money_def reservation_ok_def)
  have "moved q d t (- dval x) (dval x) 0 (- dval (rv_amount_usd rv))"
    by (rule moved_then_append [OF moved_del_charge [OF wf _ _ _ _ reserved(4)] reserved(7)])
      (use exact_commandD [OF ex reserved(3)] reserved(2) m in \<open>auto dest: is_moneyD\<close>)
  then show ?thesis
    by (rule conservesI) (use reserved d in \<open>auto simp: granted_def covered_def money_le_def\<close>)
next
  case (free x xe)
  have m: "is_money x" "is_money xe" using free(1,2) by (simp_all add: money_sound)
  then have z: "dval xe = 0" using free(5) by (auto simp: dec_pos_dval is_money_def)
  have g: "on_grid q x" "volume d + dval x < cap q" "on_grid_state q d"
    using exact_commandD [OF ex free(3)] free(2) by auto
  have "moved q d (charge x d) (- dval x) (dval x) 0 0"
    using g m volume_bounds [OF free(3) g(2)] by (intro moved_charge) (auto dest: is_moneyD)
  from moved_then_append [OF this free(7)] show ?thesis
    by (rule conservesI) (use free z in \<open>auto simp: granted_def covered_def money_le_def\<close>)
qed

lemma decide_free_charged:
  "st_charged (decide_amounts oc None prior x) =
     (if oc \<noteq> lit ''not_executed'' \<and> prior \<noteq> lit ''debit'' \<and> dec_pos x then x else zero)"
  by (simp add: decide_amounts_def)

lemma dec_pos_zero [simp]: "\<not> dec_pos zero"
  by (simp add: dec_pos_def zero_def)

lemma reconcile_conserves:
  assumes wf: "budget_wf d" and ex: "exact_command q (Reconcile e i stamp now) d"
    and run: "reconcile_reservation e i stamp now d = return (rc, t)"
  shows "conserves q (Reconcile e i stamp now) d t"
  using run
proof (cases rule: reconcileE)
  case again
  then show ?thesis
    using exact_commandD(1) [OF ex] by (auto intro!: conservesI [OF moved_refl] simp: granted_def)
next
  case (new x j auth)
  have m: "is_money x" using new(1) by (rule money_sound)
  have j: "ri_action_id j = ri_action_id i" "ri_request_id j = ri_request_id i"
    "ri_outcome j = ri_outcome i" using check_reconcile_input_fields [OF new(2)] by auto
  have g: "on_grid q x" "volume d + dval x < cap q" "on_grid_state q d"
    using exact_commandD [OF ex new(3)] new(1) by auto
  from new(5,3) show ?thesis
  proof (cases rule: reconcile_newE)
    case (reserved rv am en d1 d2)
    let ?x = "rv_amount_usd rv"
    note r = exact_reservation [OF ex wf reserved(1)]
    have "moved q d d2 (if ri_outcome j = lit ''not_executed'' then 0 else - dval ?x)
        (if ri_outcome j = lit ''not_executed'' then 0 else dval ?x)
        (if ri_outcome j = lit ''not_executed'' then - dval ?x else 0) (- dval ?x)"
      using moved_del_drop [OF wf g(3) r(2) reserved(1)]
        moved_del_charge [OF wf g(3) r(1) _ r(2) reserved(1)] r(3)
      by (auto simp: reserved(6,7))
    then have "moved q d (d2\<lparr>bs_reconciliations := dict_put (ri_action_id j) rc (bs_reconciliations d2)\<rparr>)
        (if ri_outcome j = lit ''not_executed'' then 0 else - dval ?x)
        (if ri_outcome j = lit ''not_executed'' then 0 else dval ?x)
        (if ri_outcome j = lit ''not_executed'' then - dval ?x else 0) (- dval ?x)" by simp
    from moved_then_append [OF this reserved(10)] show ?thesis
      by (rule conservesI) (use r(3) in \<open>auto simp: granted_def\<close>)
  next
    case (free am prior en d2)
    let ?c = "dval (st_charged am)"
    have c: "?c = 0 \<or> ?c = dval x" and c0: "st_charged am = zero \<or> st_charged am = x"
      by (auto simp: free(3) decide_free_charged)
    have cov: "covered (Reconcile e i stamp now) d \<Longrightarrow> ?c = 0"
      using free(1,2) j by (auto simp: free(3) covered_def decide_free_charged)
    have "moved q d (charge x d) (- dval x) (dval x) 0 0"
      using g m volume_bounds [OF new(3) g(2)] by (intro moved_charge) (auto dest: is_moneyD)
    moreover have "moved q d d 0 0 0 0" using g(3) by (rule moved_refl)
    moreover have "ri_outcome j = lit ''not_executed'' \<or> \<not> dec_pos (st_charged am) \<Longrightarrow> ?c = 0"
      using m c0 by (auto simp: free(3) decide_free_charged dec_pos_dval is_money_def)
    ultimately have "moved q d d2 (- ?c) ?c 0 0"
      using c0 by (auto simp: free(4))
    then have "moved q d (d2\<lparr>bs_reconciliations := dict_put (ri_action_id j) rc (bs_reconciliations d2)\<rparr>)
        (- ?c) ?c 0 0" by simp
    from moved_then_append [OF this free(7)] show ?thesis
      by (rule conservesI) (use cov in \<open>auto simp: granted_def\<close>)
  qed
qed

lemma grant_conserves:
  assumes ok: "budget_ok d" and ex: "exact_command q (Grant v nt now) d"
    and run: "grant v nt now d = return (y, t)"
  shows "conserves q (Grant v nt now) d t"
proof -
  note exD = exact_commandD [OF ex ok]
  obtain x where x: "money v = return x" using run by (auto simp: grant_def)
  have "moved q d t (dval x) 0 0 0" using grant_moved [OF ok exD(1) _ x _ run] exD(3,4) x by auto
  then show ?thesis
    by (rule conservesI) (use x money_sound [OF x] in \<open>auto simp: granted_def dest: is_moneyD\<close>)
qed

lemma put_reservation_conserves:
  assumes ok: "budget_ok d" and ex: "exact_command q c d" and v: "v \<in> set (command_values c)"
    and g: "granted c = 0" and x: "money v = return x" "0 < dval x"
    and new: "dict_get a (bs_reservations d) = None"
    and run: "put_reservation x r a t1 t2 d = return t"
  shows "conserves q c d t"
proof -
  note exD = exact_commandD [OF ex ok]
  from put_reservation_moved [OF ok exD(1,3) _ exD(4) new run] v x
  have "moved q d t 0 0 (dval x) (dval x)" "dval x \<le> headroom d" by auto
  then show ?thesis using g by (auto intro!: conservesI)
qed

lemma settle_conserves:
  assumes wf: "budget_wf d" and ex: "exact_command q (Settle v r a now) d"
    and run: "settle v r a now d = return (y, t)"
  shows "conserves q (Settle v r a now) d t"
proof -
  have ok: "budget_ok d" using wf by blast
  note exD = exact_commandD [OF ex ok]
  obtain x where x: "money v = return x" using run by (auto simp: settle_def)
  have g: "on_grid q x" "volume d + dval x < cap q" using exD(3,4) x by auto
  from settle_moved [OF wf exD(1) g(1) x g(2) run] obtain rv where
    rv: "dict_get a (bs_reservations d) = Some rv"
    and "moved q d t (- dval x) (dval x) 0 (- dval (rv_amount_usd rv))" by blast
  then show ?thesis
    using x budget_okD(4) [OF ok rv]
    by (auto intro!: conservesI
        simp: granted_def covered_def money_le_def money_decimal reservation_ok_def)
qed

lemma release_conserves:
  assumes wf: "budget_wf d" and ex: "exact_command q (Release r a now) d"
    and run: "release r a now d = return (y, t)"
  shows "conserves q (Release r a now) d t"
proof -
  have ok: "budget_ok d" using wf by blast
  obtain rv where rv: "dict_get a (bs_reservations d) = Some rv"
    and m: "moved q d t 0 0 (- dval (rv_amount_usd rv)) (- dval (rv_amount_usd rv))"
    using release_moved [OF wf exact_commandD(1) [OF ex ok] _ run]
      exact_reservation(2) [OF ex wf] by metis
  show ?thesis
    using m exact_reservation(3) [OF ex wf rv] by (auto intro!: conservesI simp: granted_def)
qed

lemma ensure_release_conserves:
  assumes wf: "budget_wf d" and ex: "exact_command q (EnsureRelease e r a now) d"
    and run: "ensure_release e r a now d = return (y, t)"
  shows "conserves q (EnsureRelease e r a now) d t"
  using run
proof (cases rule: ensure_releaseE)
  case same
  then show ?thesis
    using exact_commandD(1) [OF ex]
    by (auto intro!: conservesI [OF moved_refl] simp: granted_def)
next
  case (released xe rv en)
  note r = exact_reservation [OF ex wf released(3)]
  have "on_grid_state q d" using ex by (simp add: exact_command_def)
  from moved_then_append [OF moved_del_drop [OF wf this r(2) released(3)] released(6)]
  show ?thesis
    using r(3) by (auto intro!: conservesI simp: granted_def)
qed

lemma run_ledger_conserves:
  assumes wf: "budget_wf d" and ex: "exact_command q c d" and run: "run_ledger c d = return t"
  shows "conserves q c d t"
proof (cases c)
  case (Grant v nt now)
  then show ?thesis using run ex budget_wfD [OF wf] by (auto intro: grant_conserves)
next
  case (Reserve v r a t1 t2)
  then show ?thesis
    using run ex budget_wfD [OF wf]
    by (auto elim!: reserveE intro: put_reservation_conserves simp: granted_def)
next
  case (EnsureReservation v r a t1 t2)
  then have "ensure_reservation v r a t1 t2 d = return t" using run by simp
  then show ?thesis
  proof (cases rule: ensure_reservationE)
    case (new x)
    then show ?thesis
      using ex EnsureReservation put_reservation_conserves [OF new(3) ex _ _ new(1,2,4,5)]
      by (simp add: granted_def)
  next
    case (again x rv)
    then show ?thesis
      using ex by (auto intro!: conservesI [OF moved_refl]
        simp: EnsureReservation granted_def exact_command_def)
  qed
next
  case (Settle v r a now)
  then show ?thesis using run ex wf by (auto intro: settle_conserves)
next
  case (EnsureSettlement e v r a ci now)
  then show ?thesis using run ex wf by (auto intro: settlement_conserves)
next
  case (Release r a now)
  then show ?thesis using run ex wf by (auto intro: release_conserves)
next
  case (EnsureRelease e r a now)
  then show ?thesis using run ex wf by (auto intro: ensure_release_conserves)
next
  case (Reconcile e i stamp now)
  then show ?thesis using run ex wf by (auto intro: reconcile_conserves)
qed

end
