(* ===== verification/LedgerOnce.thy ===== *)
theory LedgerOnce
  imports LedgerRuns
begin

text \<open>
  No action is charged twice. A charge of an action is a \<open>debit\<close> entry or a reconciliation marker
  with a positive amount; the guards of the operations on earlier dispositions keep their number
  at one as long as no action id is reserved again after it was disposed of.
\<close>

definition disposed :: "pystr \<Rightarrow> budget_state \<Rightarrow> bool" where
  "disposed a d = list_ex (\<lambda>e. le_action_id e = a \<and> le_kind e \<in> set dispositions) (bs_entries d)"

definition settled :: "pystr \<Rightarrow> pystr \<Rightarrow> ledger_entry \<Rightarrow> bool" where
  "settled r a e \<longleftrightarrow> entry_is ''debit'' r a e \<or> entry_is ''release'' r a e"

definition charges :: "pystr \<Rightarrow> pystr \<Rightarrow> budget_state \<Rightarrow> nat" where
  "charges r a d =
     length (filter (entry_is ''debit'' r a) (bs_entries d))
     + (case dict_get a (bs_reconciliations d) of
          Some m \<Rightarrow> if rc_request_id m = r \<and> dec_pos (rc_charged_usd m) then 1 else 0
        | None \<Rightarrow> 0)"

definition written_kinds :: "pystr list" where
  "written_kinds = [lit ''grant'', lit ''reserve'', lit ''debit'', lit ''release'', lit ''reconcile'']"

definition once :: "budget_state \<Rightarrow> bool" where
  "once d \<longleftrightarrow>
     (\<forall>e \<in> set (bs_entries d). le_kind e \<in> set written_kinds)
     \<and> (\<forall>a rv. dict_get a (bs_reservations d) = Some rv \<longrightarrow> \<not> disposed a d)
     \<and> (\<forall>r a. length (filter (settled r a) (bs_entries d)) \<le> 1)
     \<and> (\<forall>a m. dict_get a (bs_reconciliations d) = Some m \<longrightarrow>
          list_ex (entry_is ''reconcile'' (rc_request_id m) a) (bs_entries d)
          \<and> (dec_pos (rc_charged_usd m) \<longrightarrow>
               filter (entry_is ''debit'' (rc_request_id m) a) (bs_entries d) = []))"

lemma onceD:
  assumes "once d"
  shows "e \<in> set (bs_entries d) \<Longrightarrow> le_kind e \<in> set written_kinds"
    "dict_get a (bs_reservations d) = Some rv \<Longrightarrow> \<not> disposed a d"
    "length (filter (settled r a) (bs_entries d)) \<le> 1"
    "dict_get a (bs_reconciliations d) = Some m \<Longrightarrow>
       list_ex (entry_is ''reconcile'' (rc_request_id m) a) (bs_entries d)"
    "dict_get a (bs_reconciliations d) = Some m \<Longrightarrow> dec_pos (rc_charged_usd m) \<Longrightarrow>
       filter (entry_is ''debit'' (rc_request_id m) a) (bs_entries d) = []"
  using assms by (auto simp: once_def)

lemma filter_debit_le: "length (filter (entry_is ''debit'' r a) es) \<le> length (filter (settled r a) es)"
  by (induction es) (auto simp: settled_def)

lemma once_charges: "once d \<Longrightarrow> charges r a d \<le> 1"
  using filter_debit_le [of r a "bs_entries d"] onceD(3) [of d r a] onceD(5) [of d a]
  by (auto simp: charges_def split: option.splits)

subsection \<open>Appending one entry\<close>

lemma disposed_append:
  "bs_entries t = bs_entries d @ [e] \<Longrightarrow>
   disposed a t \<longleftrightarrow> disposed a d \<or> (le_action_id e = a \<and> le_kind e \<in> set dispositions)"
  by (auto simp: disposed_def)

lemma once_neutral:
  assumes o: "once d" and es: "bs_entries t = bs_entries d @ [e]"
    and k: "le_kind e = lit ''grant'' \<or> le_kind e = lit ''reserve''"
    and rc: "\<And>a. dict_get a (bs_reconciliations t) = dict_get a (bs_reconciliations d)"
    and rs: "\<And>a rv. dict_get a (bs_reservations t) = Some rv \<Longrightarrow> \<not> disposed a d"
  shows "once t"
  unfolding once_def rc
  using k onceD [OF o] rs
  by (auto simp: es disposed_append [OF es] dispositions_def written_kinds_def settled_def entry_is_def)

lemma filter_none: "(\<And>e. e \<in> set es \<Longrightarrow> \<not> P e) \<Longrightarrow> filter P es = []"
  by (auto simp: filter_empty_conv)

lemma once_settled:
  assumes o: "once d" and es: "bs_entries t = bs_entries d @ [e]"
    and k: "settled r a e" and free: "prior_entries r a d = []"
    and rc: "\<And>a. dict_get a (bs_reconciliations t) = dict_get a (bs_reconciliations d)"
    and rs: "\<And>b rv. dict_get b (bs_reservations t) = Some rv \<Longrightarrow>
       b \<noteq> a \<and> dict_get b (bs_reservations d) = Some rv"
  shows "once t"
proof -
  have no: "e' \<in> set (bs_entries d) \<Longrightarrow> \<not> settled r a e' \<and> \<not> entry_is ''reconcile'' r a e'" for e'
    using free by (auto simp: prior_entries_def filter_empty_conv settled_def entry_is_def
        dispositions_def)
  have ra: "le_request_id e = r" "le_action_id e = a"
    and kd: "le_kind e = lit ''debit'' \<or> le_kind e = lit ''release''"
    using k by (auto simp: settled_def entry_is_def)
  have 1: "filter (settled r a) (bs_entries d) = []" using no by (auto simp: filter_empty_conv)
  have 2: "settled r' a' e \<longleftrightarrow> r' = r \<and> a' = a" for r' a'
    using k ra by (auto simp: settled_def entry_is_def)
  have 3: "\<not> entry_is ''reconcile'' r' a' e" for r' a' using kd by (auto simp: entry_is_def)
  have 4: "rc_request_id m = r \<Longrightarrow> dict_get a (bs_reconciliations d) \<noteq> Some m" for m
    using onceD(4) [OF o, of a m] no by (auto simp: list_ex_iff)
  have 5: "entry_is ''debit'' r' a' e \<Longrightarrow> r' = r \<and> a' = a" for r' a'
    using ra by (simp add: entry_is_def)
  show ?thesis
    unfolding once_def rc
  proof (intro conjI allI impI ballI)
    show "le_kind x \<in> set written_kinds" if "x \<in> set (bs_entries t)" for x
      using that onceD(1) [OF o] kd by (auto simp: es written_kinds_def)
    show "\<not> disposed b t" if "dict_get b (bs_reservations t) = Some rv" for b rv
      using rs [OF that] onceD(2) [OF o] ra by (auto simp: disposed_append [OF es])
    show "length (filter (settled r' a') (bs_entries t)) \<le> 1" for r' a'
      using onceD(3) [OF o, of r' a'] 1 by (auto simp: es 2)
    show "list_ex (entry_is ''reconcile'' (rc_request_id m) b) (bs_entries t)"
      if "dict_get b (bs_reconciliations d) = Some m" for b m
      using onceD(4) [OF o that] by (auto simp: es)
    show "filter (entry_is ''debit'' (rc_request_id m) b) (bs_entries t) = []"
      if "dict_get b (bs_reconciliations d) = Some m" "dec_pos (rc_charged_usd m)" for b m
      using onceD(5) [OF o that] that(1) 4 5 by (auto simp: es)
  qed
qed

lemma once_reconciled:
  assumes o: "once d" and es: "bs_entries t = bs_entries d @ [e]"
    and k: "entry_is ''reconcile'' r a e"
    and rc: "\<And>b. dict_get b (bs_reconciliations t) =
       (if b = a then Some m else dict_get b (bs_reconciliations d))"
    and m: "rc_request_id m = r"
    and free: "dec_pos (rc_charged_usd m) \<Longrightarrow> filter (entry_is ''debit'' r a) (bs_entries d) = []"
    and rs: "\<And>b rv. dict_get b (bs_reservations t) = Some rv \<Longrightarrow>
       b \<noteq> a \<and> dict_get b (bs_reservations d) = Some rv"
  shows "once t"
proof -
  have e: "le_kind e = lit ''reconcile''" "le_request_id e = r" "le_action_id e = a"
    using k by (simp_all add: entry_is_def)
  have n: "\<not> settled r' a' e" "\<not> entry_is ''debit'' r' a' e" for r' a'
    using e by (simp_all add: settled_def entry_is_def)
  show ?thesis
    unfolding once_def
  proof (intro conjI allI impI ballI)
    show "le_kind x \<in> set written_kinds" if "x \<in> set (bs_entries t)" for x
      using that onceD(1) [OF o] e by (auto simp: es written_kinds_def)
    show "\<not> disposed b t" if "dict_get b (bs_reservations t) = Some rv" for b rv
      using rs [OF that] onceD(2) [OF o] e by (auto simp: disposed_append [OF es])
    show "length (filter (settled r' a') (bs_entries t)) \<le> 1" for r' a'
      using onceD(3) [OF o, of r' a'] by (simp add: es n)
    show "list_ex (entry_is ''reconcile'' (rc_request_id x) b) (bs_entries t)"
      if "dict_get b (bs_reconciliations t) = Some x" for b x
      using that onceD(4) [OF o] k m by (auto simp: es rc split: if_splits)
    show "filter (entry_is ''debit'' (rc_request_id x) b) (bs_entries t) = []"
      if "dict_get b (bs_reconciliations t) = Some x" "dec_pos (rc_charged_usd x)" for b x
      using that onceD(5) [OF o] free m by (auto simp: es n rc split: if_splits)
  qed
qed

subsection \<open>Every command\<close>

definition fresh_reservation :: "ledger_command \<Rightarrow> budget_state \<Rightarrow> bool" where
  "fresh_reservation c d = (case c of
     Reserve v r a t1 t2 \<Rightarrow> \<not> disposed a d
   | EnsureReservation v r a t1 t2 \<Rightarrow> dict_get a (bs_reservations d) \<noteq> None \<or> \<not> disposed a d
   | _ \<Rightarrow> True)"

lemma not_disposed_prior: "\<not> disposed a d \<Longrightarrow> prior_entries r a d = []"
  by (auto simp: disposed_def prior_entries_def list_ex_iff filter_empty_conv)

lemma not_disposed_debit: "\<not> disposed a d \<Longrightarrow> filter (entry_is ''debit'' r a) (bs_entries d) = []"
  by (auto simp: disposed_def list_ex_iff filter_empty_conv entry_is_def dispositions_def)

lemma latest_of_not_debit:
  "\<forall>e \<in> set es. le_kind e \<in> set written_kinds \<Longrightarrow> latest_of es r a \<noteq> lit ''debit'' \<Longrightarrow>
   filter (entry_is ''debit'' r a) es \<noteq> [] \<Longrightarrow> 2 \<le> length (filter (settled r a) es)"
proof (induction es)
  case Nil
  then show ?case by simp
next
  case (Cons e es)
  have d: "filter (entry_is ''debit'' r a) es \<noteq> [] \<Longrightarrow> 1 \<le> length (filter (settled r a) es)"
    using filter_debit_le [of r a es] by (cases "filter (entry_is ''debit'' r a) es") auto
  have k: "le_kind e \<noteq> lit ''reconcile_debit''" "le_kind e \<noteq> lit ''reconcile_release''"
    using Cons.prems(1) by (auto simp: written_kinds_def)
  show ?case
  proof (cases "le_request_id e = r \<and> le_action_id e = a \<and> le_kind e = lit ''release''")
    case True
    then have "settled r a e" "\<not> entry_is ''debit'' r a e"
      by (simp_all add: settled_def entry_is_def)
    then show ?thesis using Cons.prems(3) d by simp
  next
    case False
    then have "latest_of es r a \<noteq> lit ''debit''" "\<not> entry_is ''debit'' r a e"
      using Cons.prems(2) k by (auto simp: entry_is_def split: if_splits)
    then show ?thesis using Cons by auto
  qed
qed

lemma latest_not_debit:
  assumes "once d" "latest_budget_disposition (bs_entries d) r a \<noteq> lit ''debit''"
  shows "filter (entry_is ''debit'' r a) (bs_entries d) = []"
proof (rule ccontr)
  assume "filter (entry_is ''debit'' r a) (bs_entries d) \<noteq> []"
  then have "filter (entry_is ''debit'' r a) (rev (bs_entries d)) \<noteq> []"
    by (simp add: rev_filter [symmetric])
  then have "2 \<le> length (filter (settled r a) (rev (bs_entries d)))"
    using assms onceD(1) [OF assms(1)]
    by (intro latest_of_not_debit) (auto simp: latest_budget_disposition_def)
  then show False using onceD(3) [OF assms(1), of r a] by (simp add: rev_filter [symmetric])
qed

lemma put_reservation_once:
  assumes o: "once d" and wf: "budget_wf d" and nd: "\<not> disposed a d"
    and run: "put_reservation x r a t1 t2 d = return t"
  shows "once t"
  using run
proof (rule put_reservationE)
  fix en e'
  assume k: "le_kind en = lit ''reserve''" and "le_request_id en = r" "le_action_id en = a"
    and ap: "append_entry en (d\<lparr>bs_reservations := dict_put a
       \<lparr>rv_request_id = r, rv_amount_usd = canon x, rv_created_at = t1\<rparr> (bs_reservations d),
       bs_total_estimated_usd := e'\<rparr>) = return t"
  note f = append_entry_fields [OF ap]
  have w: "wf_dict (bs_reservations d)" "wf_dict (bs_reconciliations d)"
    using wf by (simp_all add: budget_wf_def)
  show ?thesis
    using f(6,7) w k nd onceD(2) [OF o]
    by (intro once_neutral [OF o, of t en]) (auto simp: f(4) split: if_splits)
qed

lemma removed_reservation:
  assumes "append_entry en d2 = return t" "budget_wf d"
    and "bs_reservations d2 = dict_del a (bs_reservations d)"
    and "dict_get b (bs_reservations t) = Some rv"
  shows "b \<noteq> a \<and> dict_get b (bs_reservations d) = Some rv"
  using assms append_entry_fields(6) [OF assms(1), of b] by (auto simp: budget_wf_def split: if_splits)

lemma kept_reconciliations:
  assumes "append_entry en d2 = return t" "budget_wf d"
    and "bs_reconciliations d2 = bs_reconciliations d"
  shows "dict_get b (bs_reconciliations t) = dict_get b (bs_reconciliations d)"
  using assms append_entry_fields(7) [OF assms(1), of b] by (simp add: budget_wf_def)

lemma disposal_once:
  assumes o: "once d" and wf: "budget_wf d" and ap: "append_entry en d2 = return t"
    and es: "bs_entries d2 = bs_entries d" and k: "settled r a en"
    and rs: "bs_reservations d2 = dict_del a (bs_reservations d)"
    and rc: "bs_reconciliations d2 = bs_reconciliations d" and p: "prior_entries r a d = []"
  shows "once t"
  using removed_reservation [OF ap wf rs] kept_reconciliations [OF ap wf rc] p k
    append_entry_fields(4) [OF ap] es
  by (intro once_settled [OF o, of t en r a]) auto

lemma dict_del_absent: "dict_get a d = None \<Longrightarrow> dict_del a d = d"
  by (simp add: dict_del_def dict_get_None_iff delete_id)

lemma reconcile_once:
  assumes o: "once d" and wf: "budget_wf d"
    and none: "dict_get (ri_action_id j) (bs_reconciliations d) = None"
    and run: "reconcile_new x j auth stamp now d = return (rc, t)"
  shows "once t"
proof -
  have w: "wf_dict (bs_reconciliations d)" using wf by (simp add: budget_wf_def)
  let ?r = "ri_request_id j" and ?a = "ri_action_id j"
  from run budget_wfD [OF wf] obtain en d2 am where
    rs: "bs_reservations d2 = dict_del ?a (bs_reservations d)"
    and rcs: "bs_reconciliations d2 = bs_reconciliations d" and es: "bs_entries d2 = bs_entries d"
    and en: "entry_is ''reconcile'' ?r ?a en"
    and rq: "rc_request_id rc = ?r"
    and ch: "dec_pos (rc_charged_usd rc) \<Longrightarrow> filter (entry_is ''debit'' ?r ?a) (bs_entries d) = []"
    and ap: "append_entry en (d2\<lparr>bs_reconciliations :=
         dict_put ?a rc (bs_reconciliations d2)\<rparr>) = return t"
  proof (cases rule: reconcile_newE)
    case (reserved rv am en d1 d2)
    show ?thesis
      by (rule that [OF _ _ _ _ _ _ reserved(10)])
        (use reserved onceD(2) [OF o reserved(1)] in
          \<open>auto simp: new_reconciliation_def reconcile_entry_def new_entry_def entry_is_def
            not_disposed_debit split: if_splits\<close>)
  next
    case (free am prior en d2)
    have "dec_pos (canon (st_charged am)) \<Longrightarrow> prior \<noteq> lit ''debit''"
      by (auto simp: free(3) decide_free_charged split: if_splits)
    then show ?thesis
      by (intro that [OF _ _ _ _ _ _ free(7)])
        (use free in \<open>auto simp: new_reconciliation_def reconcile_entry_def new_entry_def
          entry_is_def dict_del_absent intro!: latest_not_debit [OF o]\<close>)
  qed
  note f = append_entry_fields [OF ap]
  show ?thesis
    using f(7) w rs rcs es removed_reservation [OF ap wf]
    by (intro once_reconciled [OF o _ en _ rq ch]) (auto simp: f(4))
qed

lemma settled_new [simp]:
  "settled r a (debit_entry xe x y r a ci now)"
  "settled r a (new_entry ''debit'' x y r a nt now)"
  "settled r a (new_entry ''release'' x y r a nt now)"
  by (simp_all add: settled_def entry_is_def debit_entry_def new_entry_def)

lemma run_ledger_once:
  assumes o: "once d" and wf: "budget_wf d" and fr: "fresh_reservation c d"
    and run: "run_ledger c d = return t"
  shows "once t"
proof (cases c)
  case (Grant v nt now)
  then obtain x y en where ap: "append_entry en (d\<lparr>bs_balance_usd := y\<rparr>) = return t"
    and "le_kind en = lit ''grant''"
    using run by (fastforce simp: grant_def Let_def new_entry_def)
  then show ?thesis
    using append_entry_fields [OF ap] wf onceD(2) [OF o]
    by (intro once_neutral [OF o, of t en]) (auto simp: budget_wf_def)
next
  case (Reserve v r a t1 t2)
  then show ?thesis
    using run fr by (auto elim!: reserveE intro: put_reservation_once [OF o wf] simp: fresh_reservation_def)
next
  case (EnsureReservation v r a t1 t2)
  then show ?thesis
    using run fr o
    by (auto elim!: ensure_reservationE intro: put_reservation_once [OF o wf]
        simp: fresh_reservation_def)
next
  case (Settle v r a now)
  then obtain x z y d1 where "pop_reservation r a d = return (z, d1)"
    and ap: "append_entry (new_entry ''debit'' x y r a (reserved_note z) now) (charge x d1) = return t"
    using run by (auto simp: settle_def Let_def)
  from this(1) show ?thesis
    by (rule pop_reservationE)
      (use onceD(2) [OF o] in
        \<open>auto intro!: disposal_once [OF o wf ap, where a = a and r = r] not_disposed_prior\<close>)
next
  case (EnsureSettlement e v r a ci now)
  then obtain y where "ensure_settlement e v r a ci now d = return (y, t)" using run by auto
  then show ?thesis
  proof (cases rule: ensure_settlementE)
    case again
    then show ?thesis using o by simp
  next
    case (reserved x xe rv)
    then show ?thesis by (intro disposal_once [OF o wf reserved(7)]) auto
  next
    case (free x xe)
    then show ?thesis by (intro disposal_once [OF o wf free(7)]) (auto simp: dict_del_absent)
  qed
next
  case (Release r a now)
  then obtain z y d1 where "pop_reservation r a d = return (z, d1)"
    and ap: "append_entry (new_entry ''release'' z y r a (lit ''action did not execute'') now)
               (drop_estimate z d1) = return t"
    using run by (auto simp: release_def Let_def)
  from this(1) show ?thesis
    by (rule pop_reservationE)
      (use onceD(2) [OF o] in
        \<open>auto intro!: disposal_once [OF o wf ap, where a = a and r = r] not_disposed_prior\<close>)
next
  case (EnsureRelease e r a now)
  then obtain y where "ensure_release e r a now d = return (y, t)" using run by auto
  then show ?thesis
  proof (cases rule: ensure_releaseE)
    case same
    then show ?thesis using o by simp
  next
    case (released xe rv en)
    then show ?thesis
      using onceD(2) [OF o released(3)]
      by (intro disposal_once [OF o wf released(6), where a = a and r = r])
        (auto intro: not_disposed_prior simp: released(5))
  qed
next
  case (Reconcile e i stamp now)
  then obtain rc where "reconcile_reservation e i stamp now d = return (rc, t)" using run by auto
  then show ?thesis
  proof (cases rule: reconcileE)
    case again
    then show ?thesis using o by simp
  next
    case (new x j auth)
    then show ?thesis
      using check_reconcile_input_fields [OF new(2)]
      by (intro reconcile_once [OF o wf _ new(5)]) simp
  qed
qed

text \<open>A new file.\<close>

lemma new_budget_once:
  assumes "new_budget v = return d"
  shows "budget_wf d" "once d"
  using assms
  by (auto simp: new_budget_def once_def budget_wf_def elim!: write_budgetE)

end
