(* ===== verification/Recovery.thy ===== *)
theory Recovery
  imports Prelude
begin

text \<open>
  The interface recovery relies on: an operation that has succeeded once recognises its effect
  in the resulting state and leaves it alone, whatever the clock reads then.
\<close>

locale recoverable =
  fixes attempt :: "'clock \<Rightarrow> 's \<Rightarrow> ('e, 's) result"
    and valid :: "'s \<Rightarrow> bool"
  assumes keeps_valid: "valid s \<Longrightarrow> attempt k s = return t \<Longrightarrow> valid t"
    and repeats: "valid s \<Longrightarrow> attempt k s = return t \<Longrightarrow> attempt k' t = return t"
begin

fun retries :: "'clock list \<Rightarrow> 's \<Rightarrow> ('e, 's) result" where
  "retries [] s = return s"
| "retries (k # ks) s = bindR (attempt k s) (retries ks)"

lemma retries_settled: "valid s \<Longrightarrow> attempt k s = return t \<Longrightarrow> retries ks t = return t"
  by (induction ks) (auto dest: repeats)

lemma retries_once:
  "valid s \<Longrightarrow> attempt k s = return t \<Longrightarrow> retries (k # ks) s = return t"
  by (simp add: retries_settled)

end

end
