(* ===== verification/LedgerRecovery.thy ===== *)
theory LedgerRecovery
  imports LedgerOnce Recovery
begin

text \<open>
  The ledger operations that crash recovery repeats recognise their own earlier effect: each is
  an interpretation of the \<open>recoverable\<close> interface, for every reading of the clock.
\<close>

lemma ensure_reservation_again:
  assumes "budget_wf d" "ensure_reservation v r a t1 t2 d = return t"
  shows "ensure_reservation v r a t1' t2' t = return t"
proof -
  have wf: "budget_wf t"
    using run_ledger_wf [OF assms(1), of "EnsureReservation v r a t1 t2"] assms(2) by simp
  have args: "r \<noteq> []" "a \<noteq> []" using assms(2) by (auto simp: ensure_reservation_def)
  show ?thesis
    using assms(2)
  proof (cases rule: ensure_reservationE)
    case (again x rv)
    then show ?thesis
      using args money_sound [OF again(1)]
      by (simp add: ensure_reservation_def dec_eq_dval is_money_def)
  next
    case (new x)
    have m: "is_money x" using new(1) by (rule money_sound)
    have "dict_get a (bs_reservations t)
        = Some \<lparr>rv_request_id = r, rv_amount_usd = canon x, rv_created_at = t1\<rparr>"
      using new(5) by (rule put_reservationE)
        (use assms(1) append_entry_fields(6) in \<open>fastforce simp: budget_wf_def\<close>)
    then show ?thesis
      using args new(1,2) budget_wfD [OF wf] m
      by (simp add: ensure_reservation_def reservation_matches_def dec_eq_dval is_money_def)
  qed
qed

lemma settlement_base_after:
  assumes wf: "budget_wf d" and free: "prior_entries r a d = []"
    and ap: "append_entry (debit_entry xe x y r a ci now) d2 = return t"
    and x: "is_money x" and es: "bs_entries d2 = bs_entries d"
    and rs: "bs_reservations d2 = dict_del a (bs_reservations d)"
  shows "settlement_base xe x r a ci t = return None"
proof -
  have "dict_get a (bs_reservations t) = None"
    using removed_reservation [OF ap wf rs, of a] by (cases "dict_get a (bs_reservations t)") auto
  moreover have "prior_entries r a t = [debit_entry xe x y r a ci now]"
    using free append_entry_fields(4) [OF ap] es
    by (simp add: prior_entries_def debit_entry_def new_entry_def dispositions_def)
  moreover have "is_matching_debit xe x ci (debit_entry xe x y r a ci now)"
    using x by (simp add: is_matching_debit_def debit_entry_def new_entry_def dec_eq_dval is_money_def)
  ultimately show ?thesis by (simp add: settlement_base_def)
qed

lemma ensure_settlement_done:
  assumes "money e = return xe" "money v = return x" "r \<noteq> []" "a \<noteq> []" "ci \<noteq> []" "starts_evd ci"
    "budget_ok t" "settlement_base xe x r a ci t = return None"
  shows "ensure_settlement e v r a ci now t = return (available t, t)"
  using assms by (simp add: ensure_settlement_def)

lemma ensure_settlement_base:
  assumes wf: "budget_wf d" and run: "ensure_settlement e v r a ci now d = return (y, t)"
  obtains xe x where "money e = return xe" "money v = return x" "r \<noteq> []" "a \<noteq> []" "ci \<noteq> []"
    "starts_evd ci" "budget_ok t" "settlement_base xe x r a ci t = return None"
proof -
  have ok: "budget_ok t"
    using run_ledger_wf [OF wf, of "EnsureSettlement e v r a ci now" t] run by auto
  obtain xe x where xe: "money e = return xe" and x: "money v = return x"
    and args: "r \<noteq> []" "a \<noteq> []" "ci \<noteq> []" "starts_evd ci"
    using run by (auto simp: ensure_settlement_def split: if_splits)
  obtain b where b: "settlement_base xe x r a ci d = return b"
    using run xe x by (auto simp: ensure_settlement_def split: if_splits)
  have "settlement_base xe x r a ci t = return None"
  proof (cases b)
    case None
    then have "t = d" using run xe x b by (auto simp: ensure_settlement_def split: if_splits)
    then show ?thesis using b None by simp
  next
    case (Some d1)
    have ap: "append_entry (debit_entry xe x (available (charge x d1)) r a ci now) (charge x d1)
        = return t"
      using run xe x b Some by (auto simp: ensure_settlement_def Let_def split: if_splits)
    have "prior_entries r a d = []" "bs_entries d1 = bs_entries d"
      "bs_reservations d1 = dict_del a (bs_reservations d)"
      using b Some
      by (auto simp: settlement_base_def Let_def dict_del_absent split: option.splits if_splits)
    then show ?thesis
      using settlement_base_after [OF wf _ ap money_sound [OF x]] by simp
  qed
  then show ?thesis using that xe x args ok by blast
qed

lemma ensure_settlement_again:
  assumes "budget_wf d" "ensure_settlement e v r a ci now d = return (y, t)"
  shows "ensure_settlement e v r a ci now' t = return (available t, t)"
  using assms by (rule ensure_settlement_base) (rule ensure_settlement_done)

text \<open>A settlement is final: another amount, or another terminal record, is refused.\<close>

lemma settlement_base_conflict:
  assumes "settlement_base xe x r a ci t = return None" and "is_money x" "is_money x'"
    and "dval x' \<noteq> dval x \<or> ci' \<noteq> ci" and "budget_ok t"
  shows "settlement_base xe' x' r a ci' t = raise PriorDisposition"
proof -
  have none: "dict_get a (bs_reservations t) = None"
    and l: "length (prior_entries r a t) = 1"
      "length (filter (is_matching_debit xe x ci) (prior_entries r a t)) = 1"
    using assms(1) by (auto simp: settlement_base_def Let_def split: option.splits if_splits)
  then obtain en where en: "prior_entries r a t = [en]" by (auto simp: length_Suc_conv)
  then have m: "is_matching_debit xe x ci en" using l by (auto split: if_splits)
  have "en \<in> set (prior_entries r a t)" by (simp add: en)
  then have "is_finite (le_amount_usd en)"
    using budget_okD(5) [OF assms(5), of en] by (auto simp: prior_entries_def entry_ok_def is_money_def)
  then have "is_matching_debit xe' x' ci' en \<Longrightarrow> False"
    using m assms(2-4) by (auto simp: is_matching_debit_def dec_eq_dval is_money_def)
  then have "\<not> is_matching_debit xe' x' ci' en" by blast
  then show ?thesis by (simp add: settlement_base_def none en)
qed

lemma ensure_release_again:
  assumes wf: "budget_wf d" and run: "ensure_release e r a now d = return (y, t)"
  shows "ensure_release e r a now' t = return (available t, t)"
proof -
  have ok: "budget_ok t" using run_ledger_wf [OF wf, of "EnsureRelease e r a now" t] run by auto
  obtain xe where xe: "money e = return xe" and args: "r \<noteq> []" "a \<noteq> []"
    using run by (auto simp: ensure_release_def split: if_splits)
  show ?thesis
    using run
  proof (cases rule: ensure_releaseE)
    case (same xe')
    then show ?thesis
      using xe args by (auto simp: ensure_release_def balance_of_def)
  next
    case (released xe' rv en)
    then have m: "reservation_matches r xe rv" using xe by simp
    have none: "dict_get a (bs_reservations t) = None"
      using removed_reservation [OF released(6) wf, of a a]
      by (cases "dict_get a (bs_reservations t)") auto
    have f: "is_finite (rv_amount_usd rv)" "is_money xe"
      using budget_okD(4) [OF budget_wfD [OF wf] released(3)] money_sound [OF xe]
      by (auto simp: reservation_ok_def dest: is_moneyD)
    have "is_matching_release r a xe en"
      using m f
      by (simp add: released(5) is_matching_release_def entry_is_def new_entry_def
          reservation_matches_def dec_eq_dval is_money_def)
    then have "filter (is_matching_release r a xe) (bs_entries t) \<noteq> []"
      using append_entry_fields(4) [OF released(6)] by simp
    then show ?thesis
      using xe args ok none by (simp add: ensure_release_def balance_of_def)
  qed
qed

lemma reconcile_again:
  assumes wf: "budget_wf d" and run: "reconcile_reservation e i stamp now d = return (rc, t)"
  shows "reconcile_reservation e i stamp' now' t = return (rc, t)"
proof -
  have ok: "budget_ok t" using run_ledger_wf [OF wf, of "Reconcile e i stamp now" t] run by auto
  show ?thesis
    using run
  proof (cases rule: reconcileE)
    case (again x j)
    then show ?thesis
      using run check_reconcile_input_fields [OF again(2)]
      by (auto simp: reconcile_reservation_def split: if_splits)
  next
    case (new x j auth)
    have a: "ri_action_id j = ri_action_id i" using check_reconcile_input_fields [OF new(2)] by simp
    have w: "wf_dict (bs_reconciliations d)" using wf by (simp add: budget_wf_def)
    from new(5,3) have rc: "dict_get (ri_action_id j) (bs_reconciliations t) = Some rc
        \<and> \<not> supplied_differs j x auth rc"
    proof (cases rule: reconcile_newE)
      case (reserved rv am en d1 d2)
      then show ?thesis
        using append_entry_fields(7) [OF reserved(10)] w
        by (auto simp: supplied_differs_def new_reconciliation_def split: if_splits)
    next
      case (free am prior en d2)
      then show ?thesis
        using append_entry_fields(7) [OF free(7)] w
        by (auto simp: supplied_differs_def new_reconciliation_def split: if_splits)
    qed
    then show ?thesis
      using new a ok by (simp add: reconcile_reservation_def)
  qed
qed

interpretation reservation: recoverable
  "\<lambda>k. ensure_reservation v r a (fst k) (snd k)" budget_wf
proof
  fix d k t assume "budget_wf d" "ensure_reservation v r a (fst k) (snd k) d = return t"
  then show "budget_wf t"
    using run_ledger_wf [of d "EnsureReservation v r a (fst k) (snd k)"] by simp
qed (rule ensure_reservation_again)

interpretation settlement: recoverable
  "\<lambda>now d. stateR (ensure_settlement e v r a ci now d)" budget_wf
proof
  fix d now t
  assume d: "budget_wf d" "stateR (ensure_settlement e v r a ci now d) = return t"
  then show "budget_wf t"
    using run_ledger_wf [OF d(1), of "EnsureSettlement e v r a ci now"] by simp
qed (auto dest: ensure_settlement_again)

interpretation releasing: recoverable
  "\<lambda>now d. stateR (ensure_release e r a now d)" budget_wf
proof
  fix d now t
  assume d: "budget_wf d" "stateR (ensure_release e r a now d) = return t"
  then show "budget_wf t"
    using run_ledger_wf [OF d(1), of "EnsureRelease e r a now"] by simp
qed (auto dest: ensure_release_again)

interpretation reconciling: recoverable
  "\<lambda>k d. stateR (reconcile_reservation e i (fst k) (snd k) d)" budget_wf
proof
  fix d t and k :: "pystr \<times> pystr"
  assume d: "budget_wf d" "stateR (reconcile_reservation e i (fst k) (snd k) d) = return t"
  then show "budget_wf t"
    using run_ledger_wf [OF d(1), of "Reconcile e i (fst k) (snd k)"] by simp
qed (auto dest: reconcile_again)

end
