(* ===== verification/LedgerProperties.thy ===== *)
theory LedgerProperties
  imports LedgerRecovery
begin

text \<open>
  The properties of the budget ledger, over the runs of its commands. \<open>example_budget\<close> is a ledger
  with a balance of 10 and one live reservation of 4, on which the hypotheses are checked.
\<close>

definition example_budget :: budget_state where
  "example_budget =
     \<lparr>bs_schema_version = lit ''0.2.0'', bs_balance_usd = Fin False 10 0,
      bs_total_spent_usd = zero, bs_total_estimated_usd = Fin False 4 0,
      bs_legacy_reserved_usd = zero,
      bs_reservations = [(lit ''act_1'',
        \<lparr>rv_request_id = lit ''req_1'', rv_amount_usd = Fin False 4 0,
         rv_created_at = lit ''t0''\<rparr>)],
      bs_reconciliations = [], bs_entries = []\<rparr>"

definition example_settlement :: ledger_command where
  "example_settlement =
     EnsureSettlement (MInt 4) (MInt 3) (lit ''req_1'') (lit ''act_1'') (lit ''evd_1'') (lit ''t1'')"

definition later_settlement :: ledger_command where
  "later_settlement =
     EnsureSettlement (MInt 4) (MInt 3) (lit ''req_1'') (lit ''act_1'') (lit ''evd_1'') (lit ''t9'')"

text \<open>Commands that ask for the same thing, whatever the clock read.\<close>

fun same_request :: "ledger_command \<Rightarrow> ledger_command \<Rightarrow> bool" where
  "same_request (EnsureReservation v r a _ _) (EnsureReservation v' r' a' _ _) =
     (v = v' \<and> r = r' \<and> a = a')"
| "same_request (EnsureSettlement e v r a c _) (EnsureSettlement e' v' r' a' c' _) =
     (e = e' \<and> v = v' \<and> r = r' \<and> a = a' \<and> c = c')"
| "same_request (EnsureRelease e r a _) (EnsureRelease e' r' a' _) = (e = e' \<and> r = r' \<and> a = a')"
| "same_request (Reconcile e i _ _) (Reconcile e' i' _ _) = (e = e' \<and> i = i')"
| "same_request _ _ = False"

lemma example_same_request: "same_request example_settlement later_settlement"
  by (simp add: example_settlement_def later_settlement_def)

text \<open>A run of commands, and a condition checked before each of them.\<close>

fun run_all :: "ledger_command list \<Rightarrow> budget_state \<Rightarrow> (budget_error, budget_state) result" where
  "run_all [] d = return d"
| "run_all (c # cs) d = bindR (run_ledger c d) (run_all cs)"

fun along :: "(ledger_command \<Rightarrow> budget_state \<Rightarrow> bool) \<Rightarrow> ledger_command list \<Rightarrow> budget_state \<Rightarrow> bool" where
  "along P [] d = True"
| "along P (c # cs) d =
     (P c d \<and> (case run_ledger c d of Inl _ \<Rightarrow> True | Inr t \<Rightarrow> along P cs t))"



lemma run_all_balance:
  "budget_wf d \<Longrightarrow> along (exact_command q) cs d \<Longrightarrow> run_all cs d = return t \<Longrightarrow>
   bal t + spent t = bal d + spent d + sum_list (map granted cs)"
proof (induction cs arbitrary: d)
  case Nil
  then show ?case by simp
next
  case (Cons c cs)
  from Cons.prems(3) obtain u where u: "run_ledger c d = return u" "run_all cs u = return t" by auto
  have "conserves q c d u" using Cons.prems u by (intro run_ledger_conserves) auto
  then have "bal u + spent u = bal d + spent d + granted c"
    by (auto simp: conserves_def moved_def)
  moreover have "bal t + spent t = bal u + spent u + sum_list (map granted cs)"
    using Cons.prems u run_ledger_wf [OF Cons.prems(1) u(1)] by (intro Cons.IH) auto
  ultimately show ?case by simp
qed

lemma run_all_headroom:
  "budget_wf d \<Longrightarrow> along (\<lambda>c d. exact_command q c d \<and> covered c d) cs d \<Longrightarrow>
   run_all cs d = return t \<Longrightarrow> 0 \<le> headroom d \<Longrightarrow> 0 \<le> headroom t"
proof (induction cs arbitrary: d)
  case Nil
  then show ?case by simp
next
  case (Cons c cs)
  from Cons.prems(3) obtain u where u: "run_ledger c d = return u" "run_all cs u = return t" by auto
  have "conserves q c d u" using Cons.prems u by (intro run_ledger_conserves) auto
  then have "0 \<le> headroom u"
    using Cons.prems by (auto simp: conserves_def dest: moved_headroom)
  then show ?case
    using Cons.prems u run_ledger_wf [OF Cons.prems(1) u(1)] by (intro Cons.IH) auto
qed

lemma example_budget_wf: "budget_wf example_budget"
proof -
  have "validate_budget example_budget = return ()" by code_simp
  then have "budget_ok example_budget" by simp
  then show ?thesis by (simp add: budget_wf_def wf_dict_def example_budget_def)
qed

lemma example_budget_exact: "exact_command 0 example_settlement example_budget"
proof -
  have g: "on_grid 0 (Fin False n 0)" for n
    by (auto simp: on_grid_def dval_Fin scoef_def intro: exI [of _ "int n"])
  then have "on_grid_state 0 example_budget"
    using on_grid_zero by (simp add: on_grid_state_def example_budget_def)
  moreover have "money (MInt 3) = return (Fin False 3 0)" by code_simp
  moreover have "volume example_budget = 18"
    by (simp add: volume_def bal_def spent_def estimated_def reserved_def example_budget_def dval_Fin
        scoef_def)
  ultimately show ?thesis
    using g by (simp add: exact_command_def example_settlement_def exact_amount_def cap_def prec_def
        dval_Fin scoef_def)
qed

lemma example_settlement_runs:
  obtains t where "run_ledger example_settlement example_budget = return t"
proof -
  have "isl (run_ledger example_settlement example_budget) = False" by code_simp
  then show ?thesis using that by (cases "run_ledger example_settlement example_budget") auto
qed

text \<open>
  A run from a new file in which a settlement is repeated, and one that reserves a settled action again,
  which the ledger accepts and charges a second time.
\<close>

definition first_reservation :: ledger_command where
  "first_reservation = EnsureReservation (MInt 4) (lit ''req_1'') (lit ''act_1'') (lit ''t0'') (lit ''t0'')"


definition second_reservation :: "ledger_command list" where
  "second_reservation =
     [first_reservation, Settle (MInt 3) (lit ''req_1'') (lit ''act_1'') (lit ''t1''),
      first_reservation, Settle (MInt 3) (lit ''req_1'') (lit ''act_1'') (lit ''t2'')]"



lemma disposed_action_charged_again:
  "(case new_budget (MInt 10) of Inl _ \<Rightarrow> False
     | Inr b \<Rightarrow> (case run_all second_reservation b of Inl _ \<Rightarrow> False
        | Inr d \<Rightarrow> charges (lit ''req_1'') (lit ''act_1'') d = 2))"
  by code_simp

subsection \<open>Completeness\<close>

lemma foldl_add_finite:
  "is_finite a \<Longrightarrow> \<forall>x \<in> set xs. is_finite x \<Longrightarrow> is_finite (foldl dec_add a xs)"
  by (induction xs arbitrary: a) auto

lemma reserved_sum_finite: "budget_ok d \<Longrightarrow> is_finite (reserved_sum d)"
  unfolding reserved_sum_def
  by (rule foldl_add_finite) (auto simp: budget_ok_iff reservation_ok_def is_money_def split_def)

lemma available_finite: "budget_ok d \<Longrightarrow> is_finite (available d)"
  by (simp add: available_def reserved_sum_finite budget_okD)

lemma put_reservation_total:
  assumes ok: "budget_wf d" and x: "is_money x" "0 < dval x" and le: "dval x \<le> dval (available d)"
    and args: "r \<noteq> []" "a \<noteq> []" "t1 \<noteq> []" "t2 \<noteq> []"
    and new: "dict_get a (bs_reservations d) = None"
  shows "\<exists>t. put_reservation x r a t1 t2 d = return t"
proof -
  let ?rv = "\<lparr>rv_request_id = r, rv_amount_usd = canon x, rv_created_at = t1\<rparr>"
  let ?d2 = "d\<lparr>bs_reservations := dict_put a ?rv (bs_reservations d),
     bs_total_estimated_usd := canon (dec_add (bs_total_estimated_usd d) x)\<rparr>"
  have b: "budget_ok d" using ok by blast
  have fx: "is_finite x" using x(1) by (rule is_moneyD)
  have "budget_ok ?d2"
    using b x args fx new by (auto simp: budget_ok_iff dict_put_new reservation_ok_def)
  moreover from this have "entry_ok (new_entry ''reserve'' x (available ?d2) r a [] t2)"
    using x args available_finite by (simp add: entry_ok_def new_entry_def)
  ultimately have "budget_ok (?d2\<lparr>bs_entries := bs_entries ?d2
      @ [new_entry ''reserve'' x (available ?d2) r a [] t2]\<rparr>)"
    by (auto simp: budget_ok_iff)
  moreover have "\<not> dec_lt (available d) x"
    using le available_finite [OF b] fx by (simp add: dec_lt_dval)
  ultimately show ?thesis
    by (simp add: put_reservation_def append_entry_def write_budget_def Let_def del: validate_Inr)
qed

lemma reserve_complete:
  assumes "budget_wf d" "created_at \<noteq> []" "now \<noteq> []" "money v = return x" "0 < dval x"
    "dval x \<le> dval (available d)" "r \<noteq> []" "a \<noteq> []" "dict_get a (bs_reservations d) = None"
  shows "\<exists>t. reserve v r a created_at now d = return t"
  using assms put_reservation_total [OF assms(1) money_sound [OF assms(4)]] money_sound [OF assms(4)]
  by (auto simp: reserve_def dec_eq_dval is_money_def)

subsection \<open>The properties\<close>

text \<open>
  C13: A balance is spent or kept, never lost: over any run of commands whose sums fit the decimal
  context, the balance and the total spent grow together by exactly what was granted.
\<close>

theorem ledger_conserves_money:
  assumes "budget_wf d" and "along (exact_command q) cs d" and "run_all cs d = return t"
  shows "bal t + spent t = bal d + spent d + sum_list (map granted cs)"
  using assms by (rule run_all_balance)

lemma ledger_conserves_money_witness:
  "\<exists>t. run_all [example_settlement] example_budget = return t \<and> bal t + spent t = 10"
proof -
  obtain t where t: "run_ledger example_settlement example_budget = return t"
    by (rule example_settlement_runs)
  then have "bal t + spent t = bal example_budget + spent example_budget
      + sum_list (map granted [example_settlement])"
    by (intro ledger_conserves_money [where q = 0])
      (simp_all add: example_budget_wf example_budget_exact)
  then show ?thesis
    using t by (auto simp: example_budget_def example_settlement_def bal_def spent_def granted_def
        dval_Fin scoef_def)
qed

text \<open>
  C14: The ledger is never overdrawn by covered commands: if the balance covered the live
  reservations at the start, it covers them after every run of commands whose sums fit the decimal
  context and in which settlements stay within their estimate and reconciliations charge what was
  reserved.
\<close>

theorem ledger_never_overdrawn:
  assumes "budget_wf d" and "0 \<le> headroom d"
    and "along (\<lambda>c d. exact_command q c d \<and> covered c d) cs d" and "run_all cs d = return t"
  shows "0 \<le> headroom t"
  using assms by (auto intro: run_all_headroom)

lemma ledger_never_overdrawn_witness:
  "\<exists>t. run_all [example_settlement] example_budget = return t \<and> 0 \<le> headroom t"
proof -
  obtain t where t: "run_ledger example_settlement example_budget = return t"
    by (rule example_settlement_runs)
  have m: "money (MInt 3) = return (Fin False 3 0)" "money (MInt 4) = return (Fin False 4 0)"
    by code_simp+
  then have c: "covered example_settlement example_budget"
    by (simp add: covered_def example_settlement_def money_le_def dval_Fin scoef_def)
  have h: "0 \<le> headroom example_budget"
    by (simp add: headroom_def bal_def reserved_def example_budget_def dval_Fin scoef_def)
  have a: "along (\<lambda>c d. exact_command 0 c d \<and> covered c d) [example_settlement] example_budget"
    by (simp add: t c example_budget_exact)
  have r: "run_all [example_settlement] example_budget = return t" by (simp add: t)
  show ?thesis using ledger_never_overdrawn [OF example_budget_wf h a r] r by blast
qed



text \<open>
  C19: The recovery operations are idempotent: a reservation, settlement, release or
  reconciliation that succeeded and is asked for again, at any later clock reading, returns
  the ledger unchanged.
\<close>

theorem ledger_recovery_idempotent:
  assumes "budget_wf d" and "same_request c c'" and "run_ledger c d = return t"
  shows "run_ledger c' t = return t"
proof (cases c)
  case (EnsureReservation v r a t1 t2)
  then obtain t1' t2' where "c' = EnsureReservation v r a t1' t2'"
    using assms(2) by (cases c') auto
  then show ?thesis
    using assms(3) EnsureReservation ensure_reservation_again [OF assms(1)] by simp
next
  case (EnsureSettlement e v r a ci now)
  then obtain now' where "c' = EnsureSettlement e v r a ci now'" using assms(2) by (cases c') auto
  then show ?thesis
    using assms(3) EnsureSettlement by (auto intro: ensure_settlement_again [OF assms(1)])
next
  case (EnsureRelease e r a now)
  then obtain now' where "c' = EnsureRelease e r a now'" using assms(2) by (cases c') auto
  then show ?thesis
    using assms(3) EnsureRelease by (auto intro: ensure_release_again [OF assms(1)])
next
  case (Reconcile e i stamp now)
  then obtain stamp' now' where "c' = Reconcile e i stamp' now'" using assms(2) by (cases c') auto
  then show ?thesis
    using assms(3) Reconcile by (auto intro: reconcile_again [OF assms(1)])
qed (use assms(2) in \<open>simp_all\<close>)

lemma ledger_recovery_idempotent_witness:
  "\<exists>t. run_ledger example_settlement example_budget = return t
     \<and> run_ledger later_settlement t = return t"
proof -
  obtain t where t: "run_ledger example_settlement example_budget = return t"
    by (rule example_settlement_runs)
  show ?thesis
    using t ledger_recovery_idempotent [OF example_budget_wf _ t, of later_settlement]
      example_same_request by blast
qed

text \<open>
  A reservation is made exactly when it should be: on a valid ledger it succeeds if and only
  if the amount is positive money not above the available balance, both ids are given and the
  action has no reservation yet.
\<close>

theorem reserve_iff:
  assumes "budget_wf d" and "created_at \<noteq> []" and "now \<noteq> []"
  shows "(\<exists>t. reserve v r a created_at now d = return t) \<longleftrightarrow>
     (\<exists>x. money v = return x \<and> 0 < dval x \<and> dval x \<le> dval (available d))
     \<and> r \<noteq> [] \<and> a \<noteq> [] \<and> dict_get a (bs_reservations d) = None"
proof
  assume "\<exists>t. reserve v r a created_at now d = return t"
  then obtain t where t: "reserve v r a created_at now d = return t" by blast
  then show "(\<exists>x. money v = return x \<and> 0 < dval x \<and> dval x \<le> dval (available d))
     \<and> r \<noteq> [] \<and> a \<noteq> [] \<and> dict_get a (bs_reservations d) = None"
  proof (rule reserveE)
    fix x
    assume *: "money v = return x" "0 < dval x" "r \<noteq> []" "a \<noteq> []" "budget_ok d"
      "dict_get a (bs_reservations d) = None" "put_reservation x r a created_at now d = return t"
    then have "\<not> dec_lt (available d) x" by (auto simp: put_reservation_def split: if_splits)
    then have "dval x \<le> dval (available d)"
      using available_finite [OF *(5)] money_sound [OF *(1)] by (auto simp: dec_lt_dval is_money_def)
    then show ?thesis using * by auto
  qed
qed (use assms reserve_complete in blast)

lemma reserve_iff_witness:
  "\<exists>t. reserve (MInt 5) (lit ''req_2'') (lit ''act_2'') (lit ''t1'') (lit ''t2'')
     example_budget = return t"
proof -
  have m: "money (MInt 5) = return (Fin False 5 0)" by code_simp
  have a: "available example_budget = Fin False 6 0" by code_simp
  have g: "dict_get (lit ''act_2'') (bs_reservations example_budget) = None" by code_simp
  have "0 < dval (Fin False 5 0) \<and> dval (Fin False 5 0) \<le> dval (available example_budget)"
    by (simp add: a dval_Fin scoef_def)
  then show ?thesis
    using m g by (intro reserve_iff [OF example_budget_wf, THEN iffD2]) auto
qed

text \<open>
  A settlement is final: once an action is settled, a settlement with another amount or for
  another evidence record is refused as a conflict.
\<close>

theorem ledger_settlement_final:
  assumes "budget_wf d" and "ensure_settlement e v r a ci now d = return (y, t)"
    and "money v' = return x'" and "money v = return x" and "dval x' \<noteq> dval x \<or> ci' \<noteq> ci"
    and "money e' = return xe'" and "starts_evd ci'"
  shows "ensure_settlement e' v' r a ci' now' t = raise PriorDisposition"
  using assms(1,2)
proof (rule ensure_settlement_base)
  fix xe x1
  assume *: "money v = return x1" "r \<noteq> []" "a \<noteq> []" "budget_ok t"
    "settlement_base xe x1 r a ci t = return None"
  have "settlement_base xe' x' r a ci' t = raise PriorDisposition"
    using * assms by (intro settlement_base_conflict) (auto intro: money_sound)
  moreover have "ci' \<noteq> []" using assms(7) by (auto simp: starts_evd_def startswith_def)
  ultimately show ?thesis
    using * assms by (simp add: ensure_settlement_def ledger_money_def needs_text_def)
qed

lemma ledger_settlement_final_witness:
  "\<exists>y t. ensure_settlement (MInt 4) (MInt 3) (lit ''req_1'') (lit ''act_1'') (lit ''evd_1'')
      (lit ''t1'') example_budget = return (y, t)
    \<and> ensure_settlement (MInt 4) (MInt 2) (lit ''req_1'') (lit ''act_1'') (lit ''evd_1'')
      (lit ''t1'') t = raise PriorDisposition"
proof -
  obtain y t where t: "ensure_settlement (MInt 4) (MInt 3) (lit ''req_1'') (lit ''act_1'')
      (lit ''evd_1'') (lit ''t1'') example_budget = return (y, t)"
    using example_settlement_runs
    unfolding example_settlement_def run_ledger.simps stateR_Inr by blast
  have m: "money (MInt 2) = return (Fin False 2 0)" "money (MInt 3) = return (Fin False 3 0)"
    "money (MInt 4) = return (Fin False 4 0)" "starts_evd (lit ''evd_1'')" by code_simp+
  show ?thesis
    using t ledger_settlement_final [OF example_budget_wf t m(1,2) _ m(3,4)]
    by (auto simp: dval_Fin scoef_def)
qed

text \<open>
  The available balance is exact: on a valid ledger whose amounts lie on one decimal grid and
  fit the context, the number the ledger reports is the balance minus all live reservations.
\<close>

theorem ledger_available_exact:
  assumes "budget_wf d" and "on_grid_state q d" and "volume d < cap q"
  shows "balance_of d = return (available d) \<and> dval (available d) = bal d - reserved d"
  using available_headroom [OF budget_wfD [OF assms(1)] assms(2), of 0] assms
  by (auto simp: balance_of_def headroom_def)

lemma ledger_available_exact_witness:
  "balance_of example_budget = return (available example_budget)
     \<and> dval (available example_budget) = 6"
proof -
  have ok: "budget_ok example_budget" using example_budget_wf by blast
  note ex = exact_commandD(1,2) [OF example_budget_exact ok]
  show ?thesis
    using ledger_available_exact [OF example_budget_wf ex]
    by (simp add: bal_def reserved_def example_budget_def dval_Fin scoef_def)
qed

end
