(* ===== verification/Canonical.thy ===== *)
theory Canonical
  imports PyVal
begin

text \<open>
  Canonical JSON and its bounded preflight (\<open>contracts.py\<close>): the encoder behind every hash, and
  \<open>_validate_action_hash_structure\<close>, which visits a value once, counts the bytes its encoding
  will take against fixed ceilings, and returns the detached snapshot that is then hashed.
  Values are trees, so the guards against cyclic containers and against a mapping that changes
  during the visit have no counterpart.
\<close>

subsection \<open>The encoder: \<open>json.dumps(..., sort_keys=True, ensure_ascii=True)\<close>\<close>

definition hex_digit :: "nat \<Rightarrow> nat" where
  "hex_digit n = (if n < 10 then 48 + n else 87 + n)"

definition unicode_escape :: "nat \<Rightarrow> pystr" where
  "unicode_escape c = [92, 117, hex_digit (c div 4096 mod 16), hex_digit (c div 256 mod 16),
     hex_digit (c div 16 mod 16), hex_digit (c mod 16)]"

definition short_escapes :: "(nat \<times> nat) list" where
  "short_escapes = [(34, 34), (92, 92), (8, 98), (12, 102), (10, 110), (13, 114), (9, 116)]"

definition escape_char :: "nat \<Rightarrow> pystr" where
  "escape_char c =
     (case map_of short_escapes c of
        Some e \<Rightarrow> [92, e]
      | None \<Rightarrow>
          if 32 \<le> c \<and> c \<le> 126 then [c]
          else if c \<le> 65535 then unicode_escape c
          else unicode_escape (55296 + (c - 65536) div 1024)
               @ unicode_escape (56320 + (c - 65536) mod 1024))"

definition encode_string :: "pystr \<Rightarrow> pystr" where
  "encode_string s = [34] @ concat (map escape_char s) @ [34]"

definition quoted :: "pystr \<Rightarrow> pystr" where
  "quoted s = [34] @ s @ [34]"

definition encode_key :: "pyval \<Rightarrow> pystr" where
  "encode_key k = (case k of
     PStr s \<Rightarrow> encode_string s
   | PEnum s \<Rightarrow> encode_string s
   | PNone \<Rightarrow> quoted (lit ''null'')
   | PBool b \<Rightarrow> quoted (if b then lit ''true'' else lit ''false'')
   | PInt i \<Rightarrow> quoted (int_text i)
   | PFloat t \<Rightarrow> quoted t
   | _ \<Rightarrow> [])"

text \<open>The order of keys: text by code points, numbers by value (a float by its \<open>repr\<close>).\<close>

definition key_number :: "pyval \<Rightarrow> decimal option" where
  "key_number k = (case k of
     PBool b \<Rightarrow> Some (decimal_of_int (if b then 1 else 0))
   | PInt i \<Rightarrow> Some (decimal_of_int i)
   | PFloat t \<Rightarrow> decimal_of_text t
   | _ \<Rightarrow> None)"

definition key_text :: "pyval \<Rightarrow> pystr option" where
  "key_text k = (case k of PStr s \<Rightarrow> Some s | PEnum s \<Rightarrow> Some s | _ \<Rightarrow> None)"

definition key_less :: "pyval \<Rightarrow> pyval \<Rightarrow> bool" where
  "key_less k l = (case (key_text k, key_text l) of
     (Some s, Some t) \<Rightarrow> s < t
   | _ \<Rightarrow> (case (key_number k, key_number l) of (Some x, Some y) \<Rightarrow> dec_lt x y | _ \<Rightarrow> False))"

fun insert_item :: "(pyval \<times> 'a) \<Rightarrow> (pyval \<times> 'a) list \<Rightarrow> (pyval \<times> 'a) list" where
  "insert_item p [] = [p]"
| "insert_item p (q # qs) = (if key_less (fst q) (fst p) then q # insert_item p qs else p # q # qs)"

definition sort_items :: "(pyval \<times> 'a) list \<Rightarrow> (pyval \<times> 'a) list" where
  "sort_items ps = foldr insert_item ps []"

definition comma :: pystr where
  "comma = [44]"

definition join_with :: "pystr \<Rightarrow> pystr list \<Rightarrow> pystr" where
  "join_with sep ss = (case ss of [] \<Rightarrow> [] | s # rest \<Rightarrow> s @ concat (map (\<lambda>t. sep @ t) rest))"

fun encode :: "pyval \<Rightarrow> pystr" where
  "encode PNone = lit ''null''"
| "encode (PBool b) = (if b then lit ''true'' else lit ''false'')"
| "encode (PInt i) = int_text i"
| "encode (PFloat t) = t"
| "encode PNonFinite = []"
| "encode (PStr s) = encode_string s"
| "encode (PEnum s) = encode_string s"
| "encode (PDecimal d) = encode_string (decimal_text d)"
| "encode (PList vs) = [91] @ join_with comma (map encode vs) @ [93]"
| "encode (PTuple vs) = [91] @ join_with comma (map encode vs) @ [93]"
| "encode (PDict kvs) =
     [123] @ join_with comma
       (map (\<lambda>(k, t). encode_key k @ [58] @ t) (sort_items (map (\<lambda>(k, v). (k, encode v)) kvs)))
     @ [125]"
| "encode POther = []"

subsection \<open>Limits\<close>

record canonical_limits =
  lim_canonical_bytes :: nat
  lim_mapping_entries :: nat
  lim_mapping_sort_work_units :: nat
  lim_nesting_depth :: nat
  lim_nodes :: nat
  lim_number_characters :: nat
  lim_scalar_characters :: nat
  lim_string_token_bytes :: nat

datatype canonical_error =
    LimitNestingDepth
  | LimitNodes
  | LimitCanonicalBytes
  | LimitMappingSortWork
  | LimitMappingEntries
  | LimitNumberCharacters
  | LimitScalarCharacters
  | LimitStringTokenBytes
  | NotCanonicalData
  | NonFiniteNumber
  | CanonicalMoney value_error

record visit_state =
  vs_nodes :: nat
  vs_bytes :: nat
  vs_sort_work :: nat

definition action_limits :: canonical_limits where
  "action_limits =
     \<lparr>lim_canonical_bytes = 67108864, lim_mapping_entries = 65536,
      lim_mapping_sort_work_units = 67108864, lim_nesting_depth = 64, lim_nodes = 1100000,
      lim_number_characters = 1024, lim_scalar_characters = 8388608,
      lim_string_token_bytes = 67108864\<rparr>"

definition authority_limits :: "nat option \<Rightarrow> canonical_limits option" where
  "authority_limits maximum =
     (case maximum of
        None \<Rightarrow> Some action_limits
      | Some m \<Rightarrow>
          if m < 1 \<or> lim_canonical_bytes action_limits < m then None
          else Some (action_limits\<lparr>lim_canonical_bytes := m,
                 lim_string_token_bytes := min m (lim_string_token_bytes action_limits)\<rparr>))"

subsection \<open>Scalars: the width of a token without building it\<close>

definition char_width :: "nat \<Rightarrow> nat" where
  "char_width c =
     (if c \<in> {34, 92, 8, 12, 10, 13, 9} then 2
      else if 32 \<le> c \<and> c \<le> 126 then 1
      else if c \<le> 65535 then 6 else 12)"

fun add_widths :: "nat \<Rightarrow> pystr \<Rightarrow> nat \<Rightarrow> (canonical_error, nat) result" where
  "add_widths limit [] used = return used"
| "add_widths limit (c # cs) used =
     (if limit - used < char_width c then raise LimitStringTokenBytes
      else add_widths limit cs (used + char_width c))"

definition plain_ascii :: "pystr \<Rightarrow> bool" where
  "plain_ascii s = list_all (\<lambda>c. 32 \<le> c \<and> c \<le> 126 \<and> c \<noteq> 34 \<and> c \<noteq> 92) s"

definition string_token :: "nat \<Rightarrow> pystr \<Rightarrow> (canonical_error, nat) result" where
  "string_token limit s =
     (if limit < 2 then raise LimitStringTokenBytes
      else if plain_ascii s then
        (if limit < 2 + length s then raise LimitStringTokenBytes else return (2 + length s))
      else add_widths limit s 2)"

definition scalar_token :: "canonical_limits \<Rightarrow> pystr \<Rightarrow> (canonical_error, nat) result" where
  "scalar_token L s =
     (if lim_scalar_characters L < length s then raise LimitScalarCharacters
      else string_token (lim_string_token_bytes L) s)"

definition integer_token :: "canonical_limits \<Rightarrow> int \<Rightarrow> (canonical_error, nat) result" where
  "integer_token L value =
     (let allowed = int (lim_number_characters L) - (if value < 0 then 1 else 0)
      in if allowed \<le> 0 then raise LimitNumberCharacters
         else let boundary = 10 ^ nat allowed
              in if boundary \<le> value \<or> value \<le> - boundary then raise LimitNumberCharacters
                 else return (length (int_text value)))"

definition number_text :: "canonical_limits \<Rightarrow> pystr \<Rightarrow> (canonical_error, nat) result" where
  "number_text L t =
     (if lim_number_characters L < length t then raise LimitNumberCharacters
      else return (length t))"

subsection \<open>Money inside canonical data\<close>

text \<open>\<open>_canonical_money_components\<close>: the digits, how many of them are kept, the new exponent.\<close>

definition trailing_zeros :: "pystr \<Rightarrow> nat" where
  "trailing_zeros ds = length (takeWhile (\<lambda>c. c = 48) (rev ds))"

definition money_components ::
  "nat \<Rightarrow> nat \<Rightarrow> int \<Rightarrow> (canonical_error, pystr \<times> nat \<times> int) result" where
  "money_components limit coefficient exponent =
     (let digits = nat_digits coefficient
      in if limit < length digits then raise LimitNumberCharacters
         else if 0 \<le> exponent then return (digits, length digits, exponent)
         else let removed = min (nat (- exponent)) (trailing_zeros digits)
              in return (digits, length digits - removed, exponent + int removed))"

definition money_text_length :: "nat \<Rightarrow> int \<Rightarrow> int" where
  "money_text_length retained exponent =
     (if 0 \<le> exponent then int retained + exponent
      else if int retained \<le> - exponent then 2 - exponent
      else int retained + 1)"

definition bounded_money_text :: "nat \<Rightarrow> decimal \<Rightarrow> (canonical_error, pystr) result" where
  "bounded_money_text limit value =
     bindR (mapErr CanonicalMoney (money (MDecimal value))) (\<lambda>d.
       case d of
         Fin s coefficient e \<Rightarrow>
           if dec_eq d zero then return [48]
           else bindR (money_components limit coefficient e) (\<lambda>(digits, retained, exponent).
             if int limit < money_text_length retained exponent then raise LimitNumberCharacters
             else
               let text = take retained digits in
               if 0 \<le> exponent then return (text @ replicate (nat exponent) 48)
               else let fractional = nat (- exponent) in
                 if retained \<le> fractional
                   then return (48 # 46 # replicate (fractional - retained) 48 @ text)
                 else return (take (retained - fractional) text @ [46]
                              @ drop (retained - fractional) text))
       | _ \<Rightarrow> raise NotCanonicalData)"

subsection \<open>Counters\<close>

definition claim_node :: "canonical_limits \<Rightarrow> nat \<Rightarrow> visit_state \<Rightarrow> (canonical_error, visit_state) result" where
  "claim_node L depth st =
     (if lim_nesting_depth L < depth then raise LimitNestingDepth
      else if lim_nodes L < vs_nodes st + 1 then raise LimitNodes
      else return (st\<lparr>vs_nodes := vs_nodes st + 1\<rparr>))"

definition consume :: "canonical_limits \<Rightarrow> nat \<Rightarrow> visit_state \<Rightarrow> (canonical_error, visit_state) result" where
  "consume L width st =
     (if lim_canonical_bytes L - vs_bytes st < width then raise LimitCanonicalBytes
      else return (st\<lparr>vs_bytes := vs_bytes st + width\<rparr>))"

definition consume_sort_work ::
  "canonical_limits \<Rightarrow> nat \<Rightarrow> nat \<Rightarrow> visit_state \<Rightarrow> (canonical_error, visit_state) result" where
  "consume_sort_work L width rounds st =
     (if rounds = 0 then return st
      else if (lim_mapping_sort_work_units L - vs_sort_work st) div rounds < width
        then raise LimitMappingSortWork
      else return (st\<lparr>vs_sort_work := vs_sort_work st + width * rounds\<rparr>))"

fun bit_length :: "nat \<Rightarrow> nat" where
  "bit_length n = (if n = 0 then 0 else Suc (bit_length (n div 2)))"

declare bit_length.simps [simp del]

subsection \<open>Keys\<close>

datatype key_family = TextKeys | NumberKeys | NullKeys

definition family_of :: "pyval \<Rightarrow> key_family option" where
  "family_of k = (case k of
     PStr _ \<Rightarrow> Some TextKeys | PEnum _ \<Rightarrow> Some TextKeys
   | PBool _ \<Rightarrow> Some NumberKeys | PInt _ \<Rightarrow> Some NumberKeys
   | PFloat _ \<Rightarrow> Some NumberKeys | PNonFinite \<Rightarrow> Some NumberKeys
   | PNone \<Rightarrow> Some NullKeys | _ \<Rightarrow> None)"

fun check_families :: "key_family option \<Rightarrow> pyval list \<Rightarrow> (canonical_error, unit) result" where
  "check_families fam [] = return ()"
| "check_families fam (k # ks) =
     (case family_of k of
        None \<Rightarrow> raise NotCanonicalData
      | Some current \<Rightarrow>
          (case fam of
             None \<Rightarrow> check_families (Some current) ks
           | Some f \<Rightarrow> if current \<noteq> f then raise NotCanonicalData else check_families fam ks))"

definition visit_key ::
  "canonical_limits \<Rightarrow> pyval \<Rightarrow> nat \<Rightarrow> visit_state
   \<Rightarrow> (canonical_error, (pyval \<times> nat) \<times> visit_state) result" where
  "visit_key L value depth st =
     bindR (claim_node L depth st) (\<lambda>st.
     bindR (case value of PEnum _ \<Rightarrow> claim_node L depth st | _ \<Rightarrow> return st) (\<lambda>st.
     bindR (case value of
         PEnum s \<Rightarrow> bindR (scalar_token L s) (\<lambda>w. return (PStr s, w))
       | PStr s \<Rightarrow> bindR (scalar_token L s) (\<lambda>w. return (PStr s, w))
       | PDecimal d \<Rightarrow> bindR (bounded_money_text (lim_number_characters L) d) (\<lambda>t.
           bindR (string_token (lim_string_token_bytes L) t) (\<lambda>w. return (PStr t, w)))
       | PBool b \<Rightarrow> return (PBool b, if b then 6 else 7)
       | PNone \<Rightarrow> return (PNone, 6)
       | PInt i \<Rightarrow> bindR (integer_token L i) (\<lambda>w. return (PInt i, w + 2))
       | PFloat t \<Rightarrow> bindR (number_text L t) (\<lambda>w. return (PFloat t, w + 2))
       | PNonFinite \<Rightarrow> raise NonFiniteNumber
       | _ \<Rightarrow> raise NotCanonicalData) (\<lambda>(k, w).
     bindR (consume L w st) (\<lambda>st. return ((k, w), st)))))"

text \<open>Equality of normalised keys in a Python set: numbers by value, \<open>True\<close> being 1.\<close>

definition same_key :: "pyval \<Rightarrow> pyval \<Rightarrow> bool" where
  "same_key k l = (case (key_number k, key_number l) of
     (Some x, Some y) \<Rightarrow> dec_eq x y
   | _ \<Rightarrow> k = l)"

fun visit_keys ::
  "canonical_limits \<Rightarrow> nat \<Rightarrow> nat \<Rightarrow> pyval list \<Rightarrow> pyval list \<Rightarrow> visit_state
   \<Rightarrow> (canonical_error, pyval list \<times> visit_state) result" where
  "visit_keys L depth rounds seen [] st = return ([], st)"
| "visit_keys L depth rounds seen (k # ks) st =
     bindR (visit_key L k depth st) (\<lambda>((n, w), st).
     bindR (consume_sort_work L w rounds st) (\<lambda>st.
       if list_ex (same_key n) seen then raise NotCanonicalData
       else bindR (visit_keys L depth rounds (n # seen) ks st) (\<lambda>(ns, st).
         return (n # ns, st))))"

subsection \<open>Values\<close>

definition visit_scalar :: "canonical_limits \<Rightarrow> pyval \<Rightarrow> (canonical_error, pyval \<times> nat) result" where
  "visit_scalar L value = (case value of
     PEnum s \<Rightarrow> bindR (scalar_token L s) (\<lambda>w. return (PStr s, w))
   | PStr s \<Rightarrow> bindR (scalar_token L s) (\<lambda>w. return (PStr s, w))
   | PDecimal d \<Rightarrow> bindR (bounded_money_text (lim_number_characters L) d) (\<lambda>t.
       bindR (string_token (lim_string_token_bytes L) t) (\<lambda>w. return (PStr t, w)))
   | PBool b \<Rightarrow> return (PBool b, if b then 4 else 5)
   | PNone \<Rightarrow> return (PNone, 4)
   | PInt i \<Rightarrow> bindR (integer_token L i) (\<lambda>w. return (PInt i, w))
   | PFloat t \<Rightarrow> bindR (number_text L t) (\<lambda>w. return (PFloat t, w))
   | PNonFinite \<Rightarrow> raise NonFiniteNumber
   | _ \<Rightarrow> raise NotCanonicalData)"

definition mapping_keys ::
  "canonical_limits \<Rightarrow> nat \<Rightarrow> pyval list \<Rightarrow> visit_state
   \<Rightarrow> (canonical_error, pyval list \<times> visit_state) result" where
  "mapping_keys L depth keys st =
     (if lim_mapping_entries L < length keys then raise LimitMappingEntries
      else bindR (check_families None keys) (\<lambda>_.
        bindR (consume L 2 st) (\<lambda>st.
          visit_keys L (depth + 1) (bit_length (length keys - 1)) [] keys st)))"

text \<open>
  \<open>visit\<close>; the two loops carry whether an item is the first, the only use of their index. In a
  mapping the keys are visited before any value.
\<close>

fun visit :: "canonical_limits \<Rightarrow> pyval \<Rightarrow> nat \<Rightarrow> visit_state
    \<Rightarrow> (canonical_error, pyval \<times> visit_state) result"
  and visit_items :: "canonical_limits \<Rightarrow> bool \<Rightarrow> pyval list \<Rightarrow> nat \<Rightarrow> visit_state
    \<Rightarrow> (canonical_error, pyval list \<times> visit_state) result"
  and visit_entries :: "canonical_limits \<Rightarrow> bool \<Rightarrow> (pyval \<times> pyval) list \<Rightarrow> nat \<Rightarrow> visit_state
    \<Rightarrow> (canonical_error, pyval list \<times> visit_state) result" where
  "visit L (PDict kvs) depth st =
     bindR (claim_node L depth st) (\<lambda>st.
     bindR (mapping_keys L depth (map fst kvs) st) (\<lambda>(ks, st).
     bindR (visit_entries L True kvs (depth + 1) st) (\<lambda>(vs, st).
       return (PDict (zip ks vs), st))))"
| "visit L (PList vs) depth st =
     bindR (claim_node L depth st) (\<lambda>st. bindR (consume L 2 st) (\<lambda>st.
     bindR (visit_items L True vs (depth + 1) st) (\<lambda>(ws, st). return (PList ws, st))))"
| "visit L (PTuple vs) depth st =
     bindR (claim_node L depth st) (\<lambda>st. bindR (consume L 2 st) (\<lambda>st.
     bindR (visit_items L True vs (depth + 1) st) (\<lambda>(ws, st). return (PTuple ws, st))))"
| "visit L value depth st =
     bindR (claim_node L depth st) (\<lambda>st.
     bindR (case value of PEnum _ \<Rightarrow> claim_node L depth st | _ \<Rightarrow> return st) (\<lambda>st.
     bindR (visit_scalar L value) (\<lambda>(w, n).
     bindR (consume L n st) (\<lambda>st. return (w, st)))))"
| "visit_items L first [] depth st = return ([], st)"
| "visit_items L first (v # vs) depth st =
     bindR (if first then return st else consume L 1 st) (\<lambda>st.
     bindR (visit L v depth st) (\<lambda>(w, st).
     bindR (visit_items L False vs depth st) (\<lambda>(ws, st). return (w # ws, st))))"
| "visit_entries L first [] depth st = return ([], st)"
| "visit_entries L first (kv # kvs) depth st =
     bindR (if first then return st else consume L 1 st) (\<lambda>st.
     bindR (consume L 1 st) (\<lambda>st.
     bindR (visit L (snd kv) depth st) (\<lambda>(w, st).
     bindR (visit_entries L False kvs depth st) (\<lambda>(ws, st). return (w # ws, st)))))"

definition start_state :: visit_state where
  "start_state = \<lparr>vs_nodes = 0, vs_bytes = 0, vs_sort_work = 0\<rparr>"

text \<open>\<open>_validate_action_hash_structure\<close>.\<close>

definition snapshot_of :: "canonical_limits \<Rightarrow> pyval \<Rightarrow> (canonical_error, pyval) result" where
  "snapshot_of L obj = bindR (visit L obj 0 start_state) (\<lambda>(w, _). return w)"

text \<open>
  \<open>action_snapshot_and_sha256_of\<close>; \<open>sha\<close> is SHA-256 in hexadecimal. The encoder's own ceiling is
  checked again while it runs.
\<close>

definition snapshot_sha256 ::
  "(pystr \<Rightarrow> pystr) \<Rightarrow> nat \<Rightarrow> pyval \<Rightarrow> (canonical_error, pystr) result" where
  "snapshot_sha256 sha maximum snapshot =
     (let text = encode snapshot
      in if maximum < length text then raise LimitCanonicalBytes
         else return (lit ''sha256:'' @ sha text))"

definition snapshot_and_sha256 ::
  "(pystr \<Rightarrow> pystr) \<Rightarrow> canonical_limits \<Rightarrow> pyval \<Rightarrow> (canonical_error, pyval \<times> pystr) result" where
  "snapshot_and_sha256 sha L obj =
     bindR (snapshot_of L obj) (\<lambda>snapshot.
     bindR (snapshot_sha256 sha (lim_canonical_bytes L) snapshot) (\<lambda>digest.
       return (snapshot, digest)))"

subsection \<open>The unbounded path\<close>

text \<open>\<open>_enum_safe\<close>, \<open>canonical_json\<close> and \<open>sha256_of\<close>, used for evidence and grants.\<close>

fun enum_safe :: "pyval \<Rightarrow> (value_error, pyval) result"
  and enum_safe_items :: "pyval list \<Rightarrow> (value_error, pyval list) result"
  and enum_safe_entries :: "(pyval \<times> pyval) list \<Rightarrow> (value_error, (pyval \<times> pyval) list) result" where
  "enum_safe (PDict kvs) = bindR (enum_safe_entries kvs) (\<lambda>ws. return (PDict ws))"
| "enum_safe (PList vs) = bindR (enum_safe_items vs) (\<lambda>ws. return (PList ws))"
| "enum_safe (PTuple vs) = bindR (enum_safe_items vs) (\<lambda>ws. return (PList ws))"
| "enum_safe (PEnum s) = return (PStr s)"
| "enum_safe (PDecimal d) = bindR (money_text (MDecimal d)) (\<lambda>t. return (PStr t))"
| "enum_safe v = return v"
| "enum_safe_items [] = return []"
| "enum_safe_items (v # vs) = bindR (enum_safe v) (\<lambda>w. bindR (enum_safe_items vs) (\<lambda>ws. return (w # ws)))"
| "enum_safe_entries [] = return []"
| "enum_safe_entries (kv # kvs) = bindR (enum_safe (snd kv)) (\<lambda>w.
     bindR (enum_safe_entries kvs) (\<lambda>ws. return ((fst kv, w) # ws)))"

definition sha256_of :: "(pystr \<Rightarrow> pystr) \<Rightarrow> pyval \<Rightarrow> pystr" where
  "sha256_of sha v = lit ''sha256:'' @ sha (encode v)"

end
