(* ===== verification/CanonicalFacts.thy ===== *)
theory CanonicalFacts
  imports Canonical "HOL-Library.Multiset"
begin

text \<open>
  The preflight is right about the encoding: the bytes it counts are the bytes the encoder emits,
  every ceiling holds of the snapshot, and a snapshot is its own snapshot.
\<close>

subsection \<open>Widths\<close>

lemma length_escape_char: "length (escape_char c) = char_width c"
  by (auto simp: escape_char_def char_width_def short_escapes_def unicode_escape_def)

lemma length_encode_string: "length (encode_string s) = 2 + sum_list (map char_width s)"
  by (simp add: encode_string_def length_concat o_def length_escape_char)

lemma plain_ascii_width: "plain_ascii s \<Longrightarrow> sum_list (map char_width s) = length s"
  by (induction s) (auto simp: plain_ascii_def char_width_def)

lemma add_widths_sum:
  "add_widths limit s used = return n \<Longrightarrow> n = used + sum_list (map char_width s)"
proof (induction s arbitrary: used)
  case Nil
  then show ?case by simp
next
  case (Cons c s)
  then have "add_widths limit s (used + char_width c) = return n" by (simp split: if_splits)
  from Cons.IH [OF this] show ?case by simp
qed

lemma add_widths_le: "add_widths limit s used = return n \<Longrightarrow> used \<le> limit \<Longrightarrow> n \<le> limit"
  by (induction s arbitrary: used) (force split: if_splits)+

lemma string_token_length: "string_token limit s = return n \<Longrightarrow> n = length (encode_string s)"
  by (auto simp: string_token_def length_encode_string plain_ascii_width
      dest: add_widths_sum split: if_splits)

text \<open>The shortcut for printable text is the general count.\<close>

lemma add_widths_complete:
  "used \<le> limit \<Longrightarrow> used + sum_list (map char_width s) \<le> limit \<Longrightarrow>
   add_widths limit s used = return (used + sum_list (map char_width s))"
  by (induction s arbitrary: used) (auto simp: algebra_simps)

lemma add_widths_exceeds:
  "used \<le> limit \<Longrightarrow> limit < used + sum_list (map char_width s) \<Longrightarrow>
   add_widths limit s used = raise LimitStringTokenBytes"
  by (induction s arbitrary: used) (auto simp: algebra_simps)

lemma string_token_spec:
  "string_token limit s =
     (if length (encode_string s) \<le> limit then return (length (encode_string s))
      else raise LimitStringTokenBytes)"
proof (cases "limit < 2 \<or> plain_ascii s")
  case True
  then show ?thesis
    by (auto simp: string_token_def length_encode_string plain_ascii_width)
next
  case False
  then show ?thesis
    using add_widths_complete [of 2 limit s] add_widths_exceeds [of 2 limit s]
    by (auto simp: string_token_def length_encode_string not_less)
qed

lemma scalar_token_length: "scalar_token L s = return n \<Longrightarrow> n = length (encode_string s)"
  by (auto simp: scalar_token_def dest: string_token_length split: if_splits)

lemma consume_bytes:
  "consume L n st = return st' \<longleftrightarrow>
     n \<le> lim_canonical_bytes L - vs_bytes st \<and> st' = st\<lparr>vs_bytes := vs_bytes st + n\<rparr>"
  by (auto simp: consume_def)

lemma claim_node_state:
  "claim_node L depth st = return st' \<longleftrightarrow>
     depth \<le> lim_nesting_depth L \<and> vs_nodes st + 1 \<le> lim_nodes L
     \<and> st' = st\<lparr>vs_nodes := vs_nodes st + 1\<rparr>"
  by (auto simp: claim_node_def)

lemma consume_sort_work_state:
  "consume_sort_work L w r st = return st' \<Longrightarrow>
     vs_bytes st' = vs_bytes st \<and> vs_nodes st' = vs_nodes st"
  by (auto simp: consume_sort_work_def split: if_splits)

lemma visit_key_bytes:
  "visit_key L k depth st = return ((n, w), st') \<Longrightarrow>
     w = length (encode_key n) \<and> vs_bytes st' = vs_bytes st + w"
  by (auto simp: visit_key_def claim_node_state consume_bytes encode_key_def quoted_def integer_token_def
      number_text_def Let_def dest: scalar_token_length string_token_length
      split: pyval.splits if_splits)

lemma visit_keys_bytes:
  "visit_keys L depth r seen ks st = return (ns, st') \<Longrightarrow>
     length ns = length ks
     \<and> vs_bytes st' = vs_bytes st + sum_list (map (length \<circ> encode_key) ns)"
proof (induction ks arbitrary: seen st ns)
  case Nil
  then show ?case by simp
next
  case (Cons k ks)
  then obtain n w st1 st2 ns' where 1: "visit_key L k depth st = return ((n, w), st1)"
    and 2: "consume_sort_work L w r st1 = return st2"
    and 3: "visit_keys L depth r (n # seen) ks st2 = return (ns', st')" and ns: "ns = n # ns'"
    by (auto split: if_splits)
  show ?case
    using visit_key_bytes [OF 1] consume_sort_work_state [OF 2] Cons.IH [OF 3] by (simp add: ns)
qed

lemma visit_scalar_bytes:
  "visit_scalar L v = return (w, n) \<Longrightarrow> n = length (encode w)"
  by (auto simp: visit_scalar_def integer_token_def number_text_def Let_def
      dest: scalar_token_length string_token_length split: pyval.splits if_splits)

lemma mset_insert_item [simp]: "mset (insert_item p qs) = add_mset p (mset qs)"
  by (induction qs) auto

lemma mset_sort_items [simp]: "mset (sort_items ps) = mset ps"
  unfolding sort_items_def by (induction ps) auto

lemma sum_sort_items:
  "sum_list (map f (sort_items ps)) = (sum_list (map f ps) :: nat)"
  by (metis mset_map mset_sort_items sum_mset_sum_list)

lemma length_sort_items [simp]: "length (sort_items ps) = length ps"
  by (metis mset_sort_items size_mset)

lemma length_join_comma:
  "length (join_with comma ss) = sum_list (map length ss) + (length ss - 1)"
proof (cases ss)
  case (Cons s rest)
  have "length (concat (map (\<lambda>t. comma @ t) rest)) = sum_list (map length rest) + length rest"
    by (induction rest) (auto simp: comma_def)
  then show ?thesis by (simp add: Cons join_with_def)
qed (simp add: join_with_def)

definition value_widths :: "bool \<Rightarrow> nat \<Rightarrow> pyval list \<Rightarrow> nat" where
  "value_widths first extra ws =
     sum_list (map (\<lambda>w. length (encode w) + extra) ws) + (if first then length ws - 1 else length ws)"

lemma encode_dict_length:
  "length ks = length ws \<Longrightarrow>
   length (encode (PDict (zip ks ws))) =
     2 + sum_list (map (length \<circ> encode_key) ks) + value_widths True 1 ws"
proof -
  assume len: "length ks = length ws"
  have "sum_list (map (\<lambda>p. length (encode_key (fst p)) + (1 + length (snd p)))
        (map (\<lambda>(k, v). (k, encode v)) (zip ks ws)))
      = sum_list (map (length \<circ> encode_key) ks) + sum_list (map (\<lambda>w. length (encode w) + 1) ws)"
    using len by (induction ks ws rule: list_induct2) auto
  then show ?thesis
    using len by (simp add: length_join_comma o_def split_def value_widths_def sum_sort_items)
qed

lemma mapping_keys_bytes:
  "mapping_keys L depth ks st = return (ns, st') \<Longrightarrow>
     length ns = length ks \<and> vs_bytes st' = vs_bytes st + 2 + sum_list (map (length \<circ> encode_key) ns)"
  by (auto simp: mapping_keys_def consume_bytes dest!: visit_keys_bytes split: if_splits)

text \<open>What the four shapes of value do.\<close>

definition is_container :: "pyval \<Rightarrow> bool" where
  "is_container v = (case v of PDict _ \<Rightarrow> True | PList _ \<Rightarrow> True | PTuple _ \<Rightarrow> True | _ \<Rightarrow> False)"

lemma visit_scalarE:
  assumes "visit L v depth st = return (w, st')" "\<not> is_container v"
  obtains st1 st2 n where "claim_node L depth st = return st1"
    "st2 = st1 \<or> claim_node L depth st1 = return st2"
    "visit_scalar L v = return (w, n)" "consume L n st2 = return st'"
  using assms by (cases v) (auto simp: is_container_def)

lemma visit_bytes:
  "visit L v depth st = return (w, st') \<Longrightarrow> vs_bytes st' = vs_bytes st + length (encode w)"
  "visit_items L first vs depth st = return (ws, st') \<Longrightarrow>
     length ws = length vs \<and> vs_bytes st' = vs_bytes st + value_widths first 0 ws"
  "visit_entries L first kvs depth st = return (ws, st') \<Longrightarrow>
     length ws = length kvs \<and> vs_bytes st' = vs_bytes st + value_widths first 1 ws"
proof (induction L v depth st and L first vs depth st and L first kvs depth st
    arbitrary: w st' and ws st' and ws st' rule: visit_visit_items_visit_entries.induct)
  case (1 L kvs depth st)
  then obtain st1 st2 ks ws where *: "claim_node L depth st = return st1"
    "mapping_keys L depth (map fst kvs) st1 = return (ks, st2)"
    "visit_entries L True kvs (depth + 1) st2 = return (ws, st')" "w = PDict (zip ks ws)"
    by auto
  from 1 * have "length ws = length kvs \<and> vs_bytes st' = vs_bytes st2 + value_widths True 1 ws" by blast
  with * mapping_keys_bytes [OF *(2)] show ?case by (simp add: encode_dict_length claim_node_state del: encode.simps)
next
  case (2 L vs depth st)
  then show ?case
    by (auto simp: claim_node_state consume_bytes length_join_comma value_widths_def o_def)
next
  case (3 L vs depth st)
  then show ?case
    by (auto simp: claim_node_state consume_bytes length_join_comma value_widths_def o_def)
next
  case (6 L first v vs depth st)
  from "6.prems" obtain s1 s2 u us where *: "(if first then return st else consume L 1 st) = return s1"
    "visit L v depth s1 = return (u, s2)" "visit_items L False vs depth s2 = return (us, st')"
    "ws = u # us" by auto
  from "6.IH"(1) [OF *(1,2)] "6.IH"(2) [OF *(1,2) refl *(3)] *(1,4) show ?case
    by (auto simp: consume_bytes value_widths_def split: if_splits)
next
  case (8 L first kv kvs depth st)
  from "8.prems" obtain s1 s2 s3 u us where *: "(if first then return st else consume L 1 st) = return s1"
    "consume L 1 s1 = return s2" "visit L (snd kv) depth s2 = return (u, s3)"
    "visit_entries L False kvs depth s3 = return (us, st')" "ws = u # us" by auto
  from "8.IH"(1) [OF *(1,2,3)] "8.IH"(2) [OF *(1,2,3) refl *(4)] *(1,2,5) show ?case
    by (auto simp: consume_bytes value_widths_def split: if_splits)
qed (auto simp: claim_node_state consume_bytes value_widths_def dest!: visit_scalar_bytes)

subsection \<open>Ceilings\<close>

fun height :: "pyval \<Rightarrow> nat" where
  "height (PList vs) = foldr (\<lambda>v m. max (Suc (height v)) m) vs 0"
| "height (PTuple vs) = foldr (\<lambda>v m. max (Suc (height v)) m) vs 0"
| "height (PDict kvs) = foldr (\<lambda>p m. max (Suc (height (snd p))) m) kvs 0"
| "height _ = 0"

fun node_count :: "pyval \<Rightarrow> nat" where
  "node_count (PList vs) = Suc (sum_list (map node_count vs))"
| "node_count (PTuple vs) = Suc (sum_list (map node_count vs))"
| "node_count (PDict kvs) = Suc (sum_list (map (\<lambda>p. Suc (node_count (snd p))) kvs))"
| "node_count _ = 1"

definition heights :: "pyval list \<Rightarrow> nat" where
  "heights vs = foldr (\<lambda>v m. max (Suc (height v)) m) vs 0"

lemma heights_simps [simp]:
  "heights [] = 0" "heights (v # vs) = max (Suc (height v)) (heights vs)"
  by (simp_all add: heights_def)

lemma height_dict: "length ks = length ws \<Longrightarrow> height (PDict (zip ks ws)) = heights ws"
  by (induction ks ws rule: list_induct2) simp_all

lemma node_count_dict:
  "length ks = length ws \<Longrightarrow>
   node_count (PDict (zip ks ws)) = Suc (length ws + sum_list (map node_count ws))"
  by (induction ks ws rule: list_induct2) simp_all

lemma visit_keys_nodes:
  "visit_keys L depth r seen ks st = return (ns, st') \<Longrightarrow>
     vs_nodes st + length ks \<le> vs_nodes st'"
proof (induction ks arbitrary: seen st ns)
  case (Cons k ks)
  then obtain n w st1 st2 ns' where 1: "visit_key L k depth st = return ((n, w), st1)"
    and 2: "consume_sort_work L w r st1 = return st2"
    and 3: "visit_keys L depth r (n # seen) ks st2 = return (ns', st')"
    by (auto split: if_splits)
  have "vs_nodes st + 1 \<le> vs_nodes st1"
    using 1 by (auto simp: visit_key_def claim_node_state consume_bytes split: pyval.splits)
  then show ?case using consume_sort_work_state [OF 2] Cons.IH [OF 3] by simp
qed simp

lemma mapping_keys_nodes:
  "mapping_keys L depth ks st = return (ns, st') \<Longrightarrow> vs_nodes st + length ks \<le> vs_nodes st'"
  by (auto simp: mapping_keys_def consume_bytes dest!: visit_keys_nodes split: if_splits)

lemma visit_nodes:
  "visit L v depth st = return (w, st') \<Longrightarrow>
     vs_nodes st + node_count w \<le> vs_nodes st' \<and> depth + height w \<le> lim_nesting_depth L"
  "visit_items L first vs depth st = return (ws, st') \<Longrightarrow>
     vs_nodes st + sum_list (map node_count ws) \<le> vs_nodes st'
     \<and> (ws \<noteq> [] \<longrightarrow> depth + heights ws \<le> Suc (lim_nesting_depth L))"
  "visit_entries L first kvs depth st = return (ws, st') \<Longrightarrow>
     vs_nodes st + sum_list (map node_count ws) \<le> vs_nodes st'
     \<and> (ws \<noteq> [] \<longrightarrow> depth + heights ws \<le> Suc (lim_nesting_depth L))"
proof (induction L v depth st and L first vs depth st and L first kvs depth st
    arbitrary: w st' and ws st' and ws st' rule: visit_visit_items_visit_entries.induct)
  case (1 L kvs depth st)
  then obtain st1 st2 ks ws where *: "claim_node L depth st = return st1"
    "mapping_keys L depth (map fst kvs) st1 = return (ks, st2)"
    "visit_entries L True kvs (depth + 1) st2 = return (ws, st')" "w = PDict (zip ks ws)"
    by auto
  have len: "length ks = length ws" "length ws = length kvs"
    using mapping_keys_bytes [OF *(2)] visit_bytes(3) [OF *(3)] by simp_all
  have "vs_nodes st2 + sum_list (map node_count ws) \<le> vs_nodes st'
     \<and> (ws \<noteq> [] \<longrightarrow> depth + 1 + heights ws \<le> Suc (lim_nesting_depth L))"
    using 1 * by blast
  moreover have "node_count w = Suc (length ws + sum_list (map node_count ws))" "height w = heights ws"
    unfolding *(4) using node_count_dict [OF len(1)] height_dict [OF len(1)] by auto
  ultimately show ?case
    using mapping_keys_nodes [OF *(2)] *(1) len
    by (cases "ws = []") (auto simp: claim_node_state)
next
  case (2 L vs depth st)
  then obtain st1 ws where *: "claim_node L depth st = return st1" "w = PList ws"
    "visit_items L True vs (depth + 1) (st1\<lparr>vs_bytes := vs_bytes st1 + 2\<rparr>) = return (ws, st')"
    by (auto simp: consume_bytes)
  with 2 show ?case
    by (cases "ws = []") (fastforce simp: claim_node_state consume_bytes heights_def)+
next
  case (3 L vs depth st)
  then obtain st1 ws where *: "claim_node L depth st = return st1" "w = PTuple ws"
    "visit_items L True vs (depth + 1) (st1\<lparr>vs_bytes := vs_bytes st1 + 2\<rparr>) = return (ws, st')"
    by (auto simp: consume_bytes)
  with 3 show ?case
    by (cases "ws = []") (fastforce simp: claim_node_state consume_bytes heights_def)+
next
  case (6 L first v vs depth st)
  from "6.prems" obtain s1 s2 u us where *: "(if first then return st else consume L 1 st) = return s1"
    "visit L v depth s1 = return (u, s2)" "visit_items L False vs depth s2 = return (us, st')"
    "ws = u # us" by auto
  from "6.IH"(1) [OF *(1,2)] "6.IH"(2) [OF *(1,2) refl *(3)] *(1,4) show ?case
    by (cases us) (auto simp: consume_bytes split: if_splits)
next
  case (8 L first kv kvs depth st)
  from "8.prems" obtain s1 s2 s3 u us where *: "(if first then return st else consume L 1 st) = return s1"
    "consume L 1 s1 = return s2" "visit L (snd kv) depth s2 = return (u, s3)"
    "visit_entries L False kvs depth s3 = return (us, st')" "ws = u # us" by auto
  from "8.IH"(1) [OF *(1,2,3)] "8.IH"(2) [OF *(1,2,3) refl *(4)] *(1,2,5) show ?case
    by (cases us) (auto simp: consume_bytes split: if_splits)
qed (auto simp: claim_node_state consume_bytes visit_scalar_def)

text \<open>A state within the ceilings stays within them.\<close>

definition inside :: "canonical_limits \<Rightarrow> visit_state \<Rightarrow> bool" where
  "inside L st \<longleftrightarrow> vs_nodes st \<le> lim_nodes L \<and> vs_bytes st \<le> lim_canonical_bytes L"

lemma within_steps:
  "claim_node L depth st = return st' \<Longrightarrow> inside L st \<Longrightarrow> inside L st'"
  "consume L n st = return st' \<Longrightarrow> inside L st \<Longrightarrow> inside L st'"
  "consume_sort_work L n r st = return st' \<Longrightarrow> inside L st \<Longrightarrow> inside L st'"
  by (auto simp: inside_def claim_node_state consume_bytes dest: consume_sort_work_state)

lemma within_visit_key:
  "visit_key L k depth st = return (p, st') \<Longrightarrow> inside L st \<Longrightarrow> inside L st'"
  by (auto simp: visit_key_def inside_def claim_node_state consume_bytes split: pyval.splits)

lemma within_visit_keys:
  "visit_keys L depth r seen ks st = return (ns, st') \<Longrightarrow> inside L st \<Longrightarrow> inside L st'"
proof (induction ks arbitrary: seen st ns)
  case (Cons k ks)
  then obtain p st1 st2 seen' ns' where "visit_key L k depth st = return (p, st1)"
    "consume_sort_work L (snd p) r st1 = return st2"
    "visit_keys L depth r seen' ks st2 = return (ns', st')" by (auto split: if_splits)
  then show ?case using Cons within_visit_key within_steps(3) by blast
qed simp

lemma within_mapping_keys:
  "mapping_keys L depth ks st = return (ns, st') \<Longrightarrow> inside L st \<Longrightarrow> inside L st'"
  using within_visit_keys within_steps(2) by (fastforce simp: mapping_keys_def split: if_splits)

lemma within_visit:
  "visit L v depth st = return (w, st') \<Longrightarrow> inside L st \<Longrightarrow> inside L st'"
  "visit_items L first vs depth st = return (ws, st') \<Longrightarrow> inside L st \<Longrightarrow> inside L st'"
  "visit_entries L first kvs depth st = return (ws, st') \<Longrightarrow> inside L st \<Longrightarrow> inside L st'"
proof (induction L v depth st and L first vs depth st and L first kvs depth st
    arbitrary: w st' and ws st' and ws st' rule: visit_visit_items_visit_entries.induct)
  case (1 L kvs depth st)
  then obtain st1 st2 ks ws where *: "claim_node L depth st = return st1"
    "mapping_keys L depth (map fst kvs) st1 = return (ks, st2)"
    "visit_entries L True kvs (depth + 1) st2 = return (ws, st')"
    by auto
  show ?case
    by (rule "1.IH" [OF *(1,2) refl *(3)])
      (rule within_mapping_keys [OF *(2) within_steps(1) [OF *(1) "1.prems"(2)]])
next
  case (2 L vs depth st)
  then obtain st1 st2 ws where *: "claim_node L depth st = return st1" "consume L 2 st1 = return st2"
    "visit_items L True vs (depth + 1) st2 = return (ws, st')" by auto
  show ?case
    by (rule "2.IH" [OF *]) (rule within_steps(2) [OF *(2) within_steps(1) [OF *(1) "2.prems"(2)]])
next
  case (3 L vs depth st)
  then obtain st1 st2 ws where *: "claim_node L depth st = return st1" "consume L 2 st1 = return st2"
    "visit_items L True vs (depth + 1) st2 = return (ws, st')" by auto
  show ?case
    by (rule "3.IH" [OF *]) (rule within_steps(2) [OF *(2) within_steps(1) [OF *(1) "3.prems"(2)]])
next
  case (6 L first v vs depth st)
  from "6.prems" obtain s1 s2 u us where *: "(if first then return st else consume L 1 st) = return s1"
    "visit L v depth s1 = return (u, s2)" "visit_items L False vs depth s2 = return (us, st')"
    by auto
  from "6.IH"(1) [OF *(1,2)] "6.IH"(2) [OF *(1,2) refl *(3)] *(1) "6.prems"(2) show ?case
    by (auto split: if_splits dest: within_steps)
next
  case (8 L first kv kvs depth st)
  from "8.prems" obtain s1 s2 s3 u us where *: "(if first then return st else consume L 1 st) = return s1"
    "consume L 1 s1 = return s2" "visit L (snd kv) depth s2 = return (u, s3)"
    "visit_entries L False kvs depth s3 = return (us, st')" by auto
  from "8.IH"(1) [OF *(1,2,3)] "8.IH"(2) [OF *(1,2,3) refl *(4)] *(1,2) "8.prems"(2) show ?case
    by (auto split: if_splits dest: within_steps)
qed (auto dest: within_steps)

lemma snapshot_ofE:
  assumes "snapshot_of L obj = return w"
  obtains st where "visit L obj 0 start_state = return (w, st)" "vs_bytes st = length (encode w)"
    "node_count w \<le> vs_nodes st" "inside L st" "height w \<le> lim_nesting_depth L"
proof -
  obtain st where v: "visit L obj 0 start_state = return (w, st)"
    using assms by (auto simp: snapshot_of_def)
  have "inside L start_state" by (simp add: inside_def start_state_def)
  then show ?thesis
    using that v visit_bytes(1) [OF v] visit_nodes(1) [OF v] within_visit(1) [OF v]
    by (simp add: start_state_def)
qed

lemma snapshot_hash:
  "snapshot_of L obj = return w \<Longrightarrow>
   snapshot_and_sha256 sha L obj = return (w, lit ''sha256:'' @ sha (encode w))"
  by (erule snapshot_ofE)
    (auto simp: snapshot_and_sha256_def snapshot_sha256_def inside_def Let_def snapshot_of_def)

subsection \<open>A snapshot is its own snapshot\<close>

definition leaner :: "visit_state \<Rightarrow> visit_state \<Rightarrow> bool" where
  "leaner s t \<longleftrightarrow> vs_nodes s \<le> vs_nodes t \<and> vs_bytes s = vs_bytes t \<and> vs_sort_work s = vs_sort_work t"

lemma leaner_claim:
  "claim_node L d t = return t' \<Longrightarrow> leaner s t \<Longrightarrow>
   \<exists>s'. claim_node L d s = return s' \<and> leaner s' t'"
  by (auto simp: claim_node_state leaner_def)

lemma leaner_claim_extra: "claim_node L d t = return t' \<Longrightarrow> leaner s t \<Longrightarrow> leaner s t'"
  by (auto simp: claim_node_state leaner_def)

lemma leaner_consume:
  "consume L n t = return t' \<Longrightarrow> leaner s t \<Longrightarrow> \<exists>s'. consume L n s = return s' \<and> leaner s' t'"
  by (auto simp: consume_bytes leaner_def)

lemma leaner_sort:
  "consume_sort_work L w r t = return t' \<Longrightarrow> leaner s t \<Longrightarrow>
   \<exists>s'. consume_sort_work L w r s = return s' \<and> leaner s' t'"
  by (auto simp: consume_sort_work_def leaner_def split: if_splits)

definition sane_limits :: "canonical_limits \<Rightarrow> bool" where
  "sane_limits L \<longleftrightarrow> 0 < lim_number_characters L \<and> lim_number_characters L \<le> lim_scalar_characters L"

lemma money_components_retained:
  "money_components limit c e = return (ds, n, x) \<Longrightarrow> n \<le> length ds"
  by (auto simp: money_components_def Let_def split: if_splits)

lemma bounded_money_text_length:
  assumes "bounded_money_text limit d = return t" "0 < limit"
  shows "length t \<le> limit"
proof -
  obtain x where x: "money (MDecimal d) = return x" using assms by (auto simp: bounded_money_text_def)
  then have "is_finite x" using money_sound is_moneyD by blast
  then obtain s c e where xs: "x = Fin s c e" by (rule is_finiteE)
  show ?thesis
  proof (cases "dec_eq x zero")
    case True
    then show ?thesis using assms x xs by (auto simp: bounded_money_text_def)
  next
    case False
    then obtain ds n y where c: "money_components limit c e = return (ds, n, y)"
      and l: "money_text_length n y \<le> int limit"
      using assms x xs by (auto simp: bounded_money_text_def Let_def not_less split: if_splits)
    then show ?thesis
      using assms x xs False money_components_retained [OF c]
      by (auto simp: bounded_money_text_def Let_def money_text_length_def split: if_splits)
  qed
qed

lemma visit_scalar_again:
  assumes "sane_limits L" "visit_scalar L v = return (w, n)"
  shows "visit_scalar L w = return (w, n)" "\<not> is_container w" "\<not> (\<exists>s. w = PEnum s)"
  using assms
  by (auto simp: visit_scalar_def is_container_def scalar_token_def sane_limits_def
      split: pyval.splits if_splits dest!: bounded_money_text_length)

lemma visit_plain:
  "\<not> is_container w \<Longrightarrow> \<not> (\<exists>s. w = PEnum s) \<Longrightarrow>
   visit L w depth st = bindR (claim_node L depth st) (\<lambda>st.
     bindR (visit_scalar L w) (\<lambda>(w, n). bindR (consume L n st) (\<lambda>st. return (w, st))))"
  by (cases w) (auto simp: is_container_def)

lemma visit_key_again:
  assumes k: "visit_key L k depth t = return ((n, w), t')" and f: "family_of k \<noteq> None"
    and s: "leaner s t"
  shows "family_of n = family_of k \<and> (\<exists>s'. visit_key L n depth s = return ((n, w), s') \<and> leaner s' t')"
proof -
  obtain t1 t2 where t1: "claim_node L depth t = return t1"
    and t2: "t2 = t1 \<or> claim_node L depth t1 = return t2" and t3: "consume L w t2 = return t'"
    using k by (auto simp: visit_key_def split: pyval.splits)
  obtain s1 where s1: "claim_node L depth s = return s1" "leaner s1 t1"
    using leaner_claim [OF t1 s] by blast
  then have "leaner s1 t2" using t2 leaner_claim_extra by blast
  then obtain s' where s': "consume L w s1 = return s'" "leaner s' t'"
    using leaner_consume [OF t3] by blast
  then show ?thesis
    using k f s1 by (cases k) (auto simp: visit_key_def family_of_def)
qed

lemma check_families_cong:
  "list_all2 (\<lambda>n k. family_of n = family_of k) ns ks \<Longrightarrow>
   check_families fam ns = check_families fam ks"
proof (induction fam ks arbitrary: ns rule: check_families.induct)
  case (2 fam k ks)
  then obtain m ms where "ns = m # ms" "family_of m = family_of k"
    "list_all2 (\<lambda>n k. family_of n = family_of k) ms ks" by (auto simp: list_all2_Cons2)
  then show ?case using 2 by (auto split: option.splits)
qed simp

lemma check_families_some:
  "check_families fam ks = return u \<Longrightarrow> \<forall>k \<in> set ks. family_of k \<noteq> None"
  by (induction fam ks rule: check_families.induct) (auto split: option.splits if_splits)

lemma visit_keys_again:
  assumes "visit_keys L depth r seen ks t = return (ns, t')" "\<forall>k \<in> set ks. family_of k \<noteq> None"
    and "leaner s t"
  shows "list_all2 (\<lambda>n k. family_of n = family_of k) ns ks
    \<and> (\<exists>s'. visit_keys L depth r seen ns s = return (ns, s') \<and> leaner s' t')"
  using assms
proof (induction ks arbitrary: seen t ns s)
  case (Cons k ks)
  then obtain n w t1 t2 ns' where 1: "visit_key L k depth t = return ((n, w), t1)"
    and 2: "consume_sort_work L w r t1 = return t2" and 3: "\<not> list_ex (same_key n) seen"
    and 4: "visit_keys L depth r (n # seen) ks t2 = return (ns', t')" and ns: "ns = n # ns'"
    by (auto split: if_splits)
  from visit_key_again [OF 1 _ Cons.prems(3)] Cons.prems(2) obtain s1 where
    s1: "family_of n = family_of k" "visit_key L n depth s = return ((n, w), s1)" "leaner s1 t1" by auto
  from leaner_sort [OF 2 s1(3)] obtain s2 where
    s2: "consume_sort_work L w r s1 = return s2" "leaner s2 t2" by blast
  from Cons.IH [OF 4 _ s2(2)] Cons.prems(2) show ?case
    using s1 s2 3 by (auto simp: ns)
qed simp

lemma mapping_keys_again:
  assumes "mapping_keys L depth ks t = return (ns, t')" "leaner s t"
  shows "\<exists>s'. mapping_keys L depth ns s = return (ns, s') \<and> leaner s' t'"
proof -
  have len: "length ns = length ks" using mapping_keys_bytes [OF assms(1)] by simp
  obtain t1 where f: "check_families None ks = return ()" and 1: "consume L 2 t = return t1"
    and 2: "visit_keys L (depth + 1) (bit_length (length ks - 1)) [] ks t1 = return (ns, t')"
    and e: "length ks \<le> lim_mapping_entries L"
    using assms(1) by (auto simp: mapping_keys_def split: if_splits)
  obtain s1 where s1: "consume L 2 s = return s1" "leaner s1 t1"
    using leaner_consume [OF 1 assms(2)] by blast
  from visit_keys_again [OF 2 check_families_some [OF f] s1(2)] show ?thesis
    using s1 f e len check_families_cong [of ns ks None]
    by (auto simp: mapping_keys_def)
qed

lemma visit_again_scalar:
  assumes L: "sane_limits L" and v: "visit L v depth t = return (w, t')" and c: "\<not> is_container v"
    and s: "leaner s t"
  shows "\<exists>s'. visit L w depth s = return (w, s') \<and> leaner s' t'"
  using v c
proof (rule visit_scalarE)
  fix t1 t2 n
  assume *: "claim_node L depth t = return t1" "t2 = t1 \<or> claim_node L depth t1 = return t2"
    "visit_scalar L v = return (w, n)" "consume L n t2 = return t'"
  obtain s1 where s1: "claim_node L depth s = return s1" "leaner s1 t1"
    using leaner_claim [OF *(1) s] by blast
  then have "leaner s1 t2" using *(2) leaner_claim_extra by blast
  then obtain s' where "consume L n s1 = return s'" "leaner s' t'"
    using leaner_consume [OF *(4)] by blast
  then show ?thesis
    using s1 visit_scalar_again [OF L *(3)] by (simp add: visit_plain)
qed

lemma leaner_if:
  "(if first then return t else consume L n t) = return t1 \<Longrightarrow> leaner s t \<Longrightarrow>
   \<exists>s1. (if first then return s else consume L n s) = return s1 \<and> leaner s1 t1"
  using leaner_consume by (cases first) auto

lemma visit_again:
  "visit L v depth t = return (w, t') \<Longrightarrow> sane_limits L \<Longrightarrow> leaner s t \<Longrightarrow>
     \<exists>s'. visit L w depth s = return (w, s') \<and> leaner s' t'"
  "visit_items L first vs depth t = return (ws, t') \<Longrightarrow> sane_limits L \<Longrightarrow> leaner s t \<Longrightarrow>
     \<exists>s'. visit_items L first ws depth s = return (ws, s') \<and> leaner s' t'"
  "visit_entries L first kvs depth t = return (ws, t') \<Longrightarrow> sane_limits L \<Longrightarrow> leaner s t \<Longrightarrow>
     \<forall>ks. length ks = length ws \<longrightarrow>
       (\<exists>s'. visit_entries L first (zip ks ws) depth s = return (ws, s') \<and> leaner s' t')"
proof (induction L v depth t and L first vs depth t and L first kvs depth t
    arbitrary: w t' s and ws t' s and ws t' s rule: visit_visit_items_visit_entries.induct)
  case (1 L kvs depth t)
  then obtain t1 t2 ks ws where *: "claim_node L depth t = return t1"
    "mapping_keys L depth (map fst kvs) t1 = return (ks, t2)"
    "visit_entries L True kvs (depth + 1) t2 = return (ws, t')" "w = PDict (zip ks ws)"
    by auto
  have len: "length ks = length ws"
    using mapping_keys_bytes [OF *(2)] visit_bytes(3) [OF *(3)] by simp
  obtain s1 where s1: "claim_node L depth s = return s1" "leaner s1 t1"
    using leaner_claim [OF *(1) "1.prems"(3)] by blast
  obtain s2 where s2: "mapping_keys L depth ks s1 = return (ks, s2)" "leaner s2 t2"
    using mapping_keys_again [OF *(2) s1(2)] by blast
  from "1.IH" [OF *(1,2) refl *(3) "1.prems"(2) s2(2)] len obtain s' where
    "visit_entries L True (zip ks ws) (depth + 1) s2 = return (ws, s')" "leaner s' t'" by blast
  then show ?case using s1 s2 len by (simp add: *(4))
next
  case (2 L vs depth t)
  then obtain t1 t2 ws where *: "claim_node L depth t = return t1" "consume L 2 t1 = return t2"
    "visit_items L True vs (depth + 1) t2 = return (ws, t')" "w = PList ws" by auto
  obtain s1 where s1: "claim_node L depth s = return s1" "leaner s1 t1"
    using leaner_claim [OF *(1) "2.prems"(3)] by blast
  obtain s2 where s2: "consume L 2 s1 = return s2" "leaner s2 t2"
    using leaner_consume [OF *(2) s1(2)] by blast
  from "2.IH" [OF *(1,2,3) "2.prems"(2) s2(2)] show ?case using s1 s2 *(4) by auto
next
  case (3 L vs depth t)
  then obtain t1 t2 ws where *: "claim_node L depth t = return t1" "consume L 2 t1 = return t2"
    "visit_items L True vs (depth + 1) t2 = return (ws, t')" "w = PTuple ws" by auto
  obtain s1 where s1: "claim_node L depth s = return s1" "leaner s1 t1"
    using leaner_claim [OF *(1) "3.prems"(3)] by blast
  obtain s2 where s2: "consume L 2 s1 = return s2" "leaner s2 t2"
    using leaner_consume [OF *(2) s1(2)] by blast
  from "3.IH" [OF *(1,2,3) "3.prems"(2) s2(2)] show ?case using s1 s2 *(4) by auto
next
  case (6 L first v vs depth t)
  from "6.prems"(1) obtain t1 t2 u us where
    *: "(if first then return t else consume L 1 t) = return t1"
    "visit L v depth t1 = return (u, t2)" "visit_items L False vs depth t2 = return (us, t')"
    "ws = u # us" by auto
  obtain s1 where s1: "(if first then return s else consume L 1 s) = return s1" "leaner s1 t1"
    using leaner_if [OF *(1) "6.prems"(3)] by blast
  from "6.IH"(1) [OF *(1,2) "6.prems"(2) s1(2)] obtain s2 where
    s2: "visit L u depth s1 = return (u, s2)" "leaner s2 t2" by blast
  from "6.IH"(2) [OF *(1,2) refl *(3) "6.prems"(2) s2(2)] show ?case
    using s1 s2 by (auto simp: *(4))
next
  case (8 L first kv kvs depth t)
  from "8.prems"(1) obtain t1 t2 t3 u us where
    *: "(if first then return t else consume L 1 t) = return t1"
    "consume L 1 t1 = return t2" "visit L (snd kv) depth t2 = return (u, t3)"
    "visit_entries L False kvs depth t3 = return (us, t')" "ws = u # us" by auto
  obtain s1 where s1: "(if first then return s else consume L 1 s) = return s1" "leaner s1 t1"
    using leaner_if [OF *(1) "8.prems"(3)] by blast
  obtain s2 where s2: "consume L 1 s1 = return s2" "leaner s2 t2"
    using leaner_consume [OF *(2) s1(2)] by blast
  from "8.IH"(1) [OF *(1,2,3) "8.prems"(2) s2(2)] obtain s3 where
    s3: "visit L u depth s2 = return (u, s3)" "leaner s3 t3" by blast
  note rest = "8.IH"(2) [OF *(1,2,3) refl *(4) "8.prems"(2) s3(2)]
  show ?case
  proof (intro allI impI)
    fix ks :: "pyval list" assume "length ks = length ws"
    then obtain k ks' where "ks = k # ks'" "length ks' = length us" by (cases ks) (auto simp: *(5))
    with rest show "\<exists>s'. visit_entries L first (zip ks ws) depth s = return (ws, s') \<and> leaner s' t'"
      using s1 s2 s3 by (auto simp: *(5))
  qed
qed ((rule visit_again_scalar, assumption, assumption, simp add: is_container_def, assumption)
    | auto)+

lemma snapshot_idem:
  assumes "sane_limits L" "snapshot_of L obj = return w"
  shows "snapshot_of L w = return w"
proof -
  obtain t where "visit L obj 0 start_state = return (w, t)"
    using assms(2) by (auto simp: snapshot_of_def)
  from visit_again(1) [OF this assms(1), of start_state] show ?thesis
    by (auto simp: leaner_def snapshot_of_def)
qed

end
