(* ===== verification/CanonicalPaths.thy ===== *)
theory CanonicalPaths
  imports CanonicalFacts
begin

text \<open>
  The bounded path (snapshot, then hash) and the unbounded one (\<open>_enum_safe\<close>, then \<open>json.dumps\<close>)
  emit the same bytes for every value without a negative zero among its decimals.
\<close>

subsection \<open>Both money texts agree\<close>

lemma rstrip_take: "py_rstrip_of p s = take (length s - length (takeWhile p (rev s))) s"
proof -
  have "dropWhile p (rev s) = drop (length (takeWhile p (rev s))) (rev s)"
    by (rule dropWhile_eq_drop)
  then show ?thesis by (simp add: py_rstrip_of_def rev_drop)
qed

lemma trailing_zeros_lt: "\<exists>x \<in> set ds. x \<noteq> 48 \<Longrightarrow> trailing_zeros ds < length ds"
proof -
  assume "\<exists>x \<in> set ds. x \<noteq> 48"
  then have "takeWhile (\<lambda>c. c = 48) (rev ds) \<noteq> rev ds"
    by (auto simp: takeWhile_eq_all_conv)
  then have "length (takeWhile (\<lambda>c. c = 48) (rev ds)) < length (rev ds)"
    by (metis length_takeWhile_le le_neq_implies_less takeWhile_eq_take take_all_iff le_refl)
  then show ?thesis by (simp add: trailing_zeros_def)
qed

lemma nat_digits_nonzero: "0 < c \<Longrightarrow> \<exists>x \<in> set (nat_digits c). x \<noteq> 48"
proof (rule ccontr)
  assume c: "0 < c" and "\<not> (\<exists>x \<in> set (nat_digits c). x \<noteq> 48)"
  then have "nat_digits c = replicate (length (nat_digits c)) 48"
    by (simp add: replicate_length_same)
  then have "digits_val (nat_digits c) 0 = 0" by (metis digits_val_zeros mult_zero_left)
  then show False using c by simp
qed

lemma decimal_text_split:
  assumes A: "A \<noteq> []" "list_all is_digit A" and B: "list_all is_digit B"
  shows "(let text = A @ [46] @ B in
      if 46 \<in> set text then py_rstrip_of (\<lambda>x. x = 46) (py_rstrip_of (\<lambda>x. x = 48) text) else text)
    = (if \<forall>x \<in> set B. x = 48 then A else A @ [46] @ py_rstrip_of (\<lambda>x. x = 48) B)"
proof (cases "\<forall>x \<in> set B. x = 48")
  case True
  then have "py_rstrip_of (\<lambda>x. x = 48) ((A @ [46]) @ B) = A @ [46]"
    using rstrip_of_append [of "\<lambda>x. x = 48" "A @ [46]" B] rstrip_of_snoc [of "\<lambda>x. x = 48" A 46]
    by simp
  moreover have "py_rstrip_of (\<lambda>x. x = 46) (A @ [46]) = A"
    using rstrip_other [OF A(2), of "[]"] A(1) by (simp add: rstrip_of_snoc)
  ultimately show ?thesis using True by simp
next
  case False
  let ?B = "py_rstrip_of (\<lambda>x. x = 48) B"
  have ne: "?B \<noteq> []" using False by (auto simp: py_rstrip_of_def dropWhile_eq_Nil_conv)
  have dB: "list_all is_digit ?B" using B by (auto simp: list_all_iff dest: set_rstrip_of)
  have "py_rstrip_of (\<lambda>x. x = 48) ((A @ [46]) @ B) = (A @ [46]) @ ?B"
    using rstrip_of_append [of "\<lambda>x. x = 48" "A @ [46]" B] False by (simp only: if_False)
  then show ?thesis using False ne rstrip_other [OF dB, of "A @ [46]"] by simp
qed

lemma bounded_money_components:
  assumes "bounded_money_text limit (Fin s c e) = return t" "0 < c"
  obtains ds n y where "\<not> s" "money_components limit c e = return (ds, n, y)"
    "t = (if 0 \<le> y then take n ds @ replicate (nat y) 48
          else if n \<le> nat (- y) then 48 # 46 # replicate (nat (- y) - n) 48 @ take n ds
          else take (n - nat (- y)) (take n ds) @ [46] @ drop (n - nat (- y)) (take n ds))"
proof -
  obtain x where x: "money (MDecimal (Fin s c e)) = return x"
    using assms(1) by (auto simp: bounded_money_text_def)
  then have xs: "x = Fin s c e" and m: "is_money (Fin s c e)"
    by (auto simp: money_def is_money_def dec_lt_dval split: if_splits)
  have "dval (Fin s c e) \<noteq> 0" using assms(2) by (simp add: dval_Fin scoef_def)
  then have nz: "\<not> dec_eq x zero" by (simp add: xs dec_eq_dval)
  have "\<not> (10::rat) powi e \<le> 0" using powi10_pos [of e] by linarith
  then have "\<not> s" using m assms(2)
    by (auto simp: is_money_def dval_Fin scoef_def zero_le_mult_iff)
  then show ?thesis
    using assms(1) x nz that
    by (auto simp: bounded_money_text_def xs Let_def split: if_splits)
qed

lemma takeWhile_take_eq: "takeWhile p (take k xs) = take k (takeWhile p xs)"
  by (induction xs arbitrary: k) (auto simp: take_Cons split: nat.splits)

lemma tail_zeros:
  assumes "k \<le> trailing_zeros d" "x \<in> set (drop (length d - k) d)"
  shows "x = 48"
proof -
  have "rev (drop (length d - k) d) = take k (rev d)"
    using assms(1) length_takeWhile_le [of "\<lambda>c. c = 48" "rev d"]
    by (simp add: rev_drop trailing_zeros_def)
  also have "\<dots> = take k (takeWhile (\<lambda>c. c = 48) (rev d))"
    using assms(1) by (metis take_take trailing_zeros_def takeWhile_eq_take min.absorb1)
  finally have "x \<in> set (takeWhile (\<lambda>c. c = 48) (rev d))"
    using assms(2) by (metis in_set_takeD set_rev)
  then show ?thesis by (auto dest: set_takeWhileD)
qed

lemma bounded_money_agrees:
  assumes "bounded_money_text limit (Fin s c e) = return t" "0 < c"
  shows "t = decimal_text (Fin s c e)"
  using assms
proof (rule bounded_money_components)
  fix ds n y
  assume s: "\<not> s" and cm: "money_components limit c e = return (ds, n, y)"
    and t: "t = (if 0 \<le> y then take n ds @ replicate (nat y) 48
          else if n \<le> nat (- y) then 48 # 46 # replicate (nat (- y) - n) 48 @ take n ds
          else take (n - nat (- y)) (take n ds) @ [46] @ drop (n - nat (- y)) (take n ds))"
  let ?d = "nat_digits c"
  have dd: "list_all is_digit ?d" using nat_digits_digit by (simp add: list_all_iff)
  show ?thesis
  proof (cases "0 \<le> e")
    case True
    then have "ds = ?d" "n = length ?d" "y = e"
      using cm by (auto simp: money_components_def Let_def split: if_splits)
    moreover have "46 \<notin> set (?d @ replicate (nat e) 48)"
      using dd by (auto simp: list_all_iff is_digit_def)
    ultimately show ?thesis
      using True s assms(2) by (simp add: t decimal_text_def format_f_def Let_def)
  next
    case False
    define k where "k = nat (- e)"
    define tz where "tz = trailing_zeros ?d"
    define P where "P = pad_zeros (k + 1) ?d"
    define A where "A = take (length P - k) P"
    define B where "B = drop (length P - k) P"
    have k: "0 < k" "- e = int k" using False by (simp_all add: k_def)
    have c: "ds = ?d" "n = length ?d - min k tz" "y = int (min k tz) - int k"
      using cm False by (auto simp: money_components_def Let_def k_def tz_def split: if_splits)
    have tz: "tz < length ?d" unfolding tz_def by (rule trailing_zeros_lt [OF nat_digits_nonzero [OF assms(2)]])
    have lP: "length P = max (k + 1) (length ?d)" by (simp add: P_def length_pad)
    have dP: "list_all is_digit P" by (simp add: P_def pad_digits dd)
    have AB: "A @ B = P" "length B = k" using lP by (auto simp: A_def B_def)
    have A: "A \<noteq> []" using lP by (auto simp: A_def)
    have dA: "list_all is_digit A" "list_all is_digit B"
      using dP unfolding AB(1) [symmetric] by simp_all
    have fmt: "format_f c e = A @ [46] @ B"
      unfolding format_f_def A_def B_def P_def k_def Let_def using False by simp
    have dt: "decimal_text (Fin s c e) =
        (if \<forall>x \<in> set B. x = 48 then A else A @ [46] @ py_rstrip_of (\<lambda>x. x = 48) B)"
      using decimal_text_split [OF A dA] s unfolding decimal_text_def decimal.case fmt by simp
    show ?thesis
    proof (cases "k \<le> tz")
      case True
      then have "P = ?d" using tz by (simp add: P_def pad_zeros_def)
      then have "A = take (length ?d - k) ?d" "\<forall>x \<in> set B. x = 48"
        using tail_zeros True by (auto simp: A_def B_def tz_def)
      then show ?thesis using True c by (simp add: t dt)
    next
      case less: False
      have "takeWhile (\<lambda>x. x = 48) (rev B) = take k (takeWhile (\<lambda>x. x = 48) (rev P))"
        by (simp add: B_def rev_drop takeWhile_take_eq lP)
      also have "takeWhile (\<lambda>x. x = 48) (rev P) = takeWhile (\<lambda>x. x = 48) (rev ?d)"
        using nat_digits_nonzero [OF assms(2)] by (auto simp: P_def pad_zeros_def intro!: takeWhile_append1)
      finally have tw: "length (takeWhile (\<lambda>x. x = 48) (rev B)) = tz"
        using less by (simp add: tz_def trailing_zeros_def)
      have nz: "\<not> (\<forall>x \<in> set B. x = 48)"
      proof
        assume "\<forall>x \<in> set B. x = 48"
        then have "takeWhile (\<lambda>x. x = 48) (rev B) = rev B" by (simp add: takeWhile_eq_all_conv)
        then have "tz = length B" by (metis tw length_rev)
        then show False using less AB(2) by simp
      qed
      have rB: "py_rstrip_of (\<lambda>x. x = 48) B = take (k - tz) B" by (simp add: rstrip_take tw AB(2))
      have y: "\<not> 0 \<le> y" "nat (- y) = k - tz" and n: "n = length ?d - tz"
        using c less by auto
      have dtext: "decimal_text (Fin s c e) = A @ [46] @ take (k - tz) B"
        by (simp only: dt nz if_False rB)
      show ?thesis
      proof (cases "length ?d \<le> k")
        case True
        then have "A = [48]" "B = replicate (k - length ?d) 48 @ ?d"
          by (simp_all add: A_def B_def P_def pad_zeros_def Suc_diff_le)
        then show ?thesis unfolding dtext t using True less tz y n c(1) by simp
      next
        case longer: False
        then have "P = ?d" by (simp add: P_def pad_zeros_def)
        then have "A = take (length ?d - k) ?d" "B = drop (length ?d - k) ?d"
          by (simp_all add: A_def B_def)
        then show ?thesis unfolding dtext t using longer less tz y n c(1) by (simp add: drop_take)
      qed
    qed
  qed
qed

lemma decimal_text_zero: "decimal_text (Fin False 0 e) = [48]"
proof (cases "0 \<le> e")
  case True
  then show ?thesis by (simp add: decimal_text_def format_f_def Let_def)
next
  case False
  define k where "k = nat (- e)"
  have ds: "pad_zeros (k + 1) (nat_digits 0) = replicate (Suc k) 48"
    by (simp add: pad_zeros_def nat_digits.simps [of 0] replicate_append_same)
  have "format_f 0 e = [48] @ [46] @ replicate k 48"
    unfolding format_f_def k_def [symmetric] ds Let_def using False
    by (simp add: take_Cons' del: replicate.simps) (simp add: k_def)
  then show ?thesis
    using decimal_text_split [of "[48]" "replicate k 48"]
    by (simp add: decimal_text_def is_digit_def Let_def list_all_iff)
qed

definition negative_zero :: "decimal \<Rightarrow> bool" where
  "negative_zero d = (case d of Fin s c _ \<Rightarrow> s \<and> c = 0 | _ \<Rightarrow> False)"

lemma bounded_money_text_agrees:
  assumes "bounded_money_text limit d = return t" "\<not> negative_zero d"
  shows "money_text (MDecimal d) = return t"
proof -
  obtain x where x: "money (MDecimal d) = return x"
    using assms(1) by (auto simp: bounded_money_text_def)
  then have xd: "x = d" and m: "is_money d"
    by (auto simp: money_def is_money_def dec_lt_dval split: if_splits)
  obtain s c e where d: "d = Fin s c e" using m by (metis is_moneyD(1) is_finiteE)
  show ?thesis
  proof (cases "c = 0")
    case True
    then have "\<not> s" using assms(2) by (simp add: d negative_zero_def)
    moreover have "dec_eq d zero" using True by (simp add: d dec_eq_dval dval_Fin scoef_def)
    ultimately show ?thesis
      using assms(1) x xd True decimal_text_zero by (simp add: bounded_money_text_def money_text_def d)
  next
    case False
    then show ?thesis
      using assms(1) x xd bounded_money_agrees by (simp add: money_text_def d)
  qed
qed

subsection \<open>The two hashing paths agree\<close>

fun no_negative_zero :: "pyval \<Rightarrow> bool" where
  "no_negative_zero (PDecimal d) = (\<not> negative_zero d)"
| "no_negative_zero (PList vs) = list_all no_negative_zero vs"
| "no_negative_zero (PTuple vs) = list_all no_negative_zero vs"
| "no_negative_zero (PDict kvs) = list_all (\<lambda>p. no_negative_zero (snd p)) kvs"
| "no_negative_zero _ = True"

definition same_place :: "pyval \<Rightarrow> pyval \<Rightarrow> bool" where
  "same_place k l \<longleftrightarrow>
     key_text k = key_text l \<and> key_number k = key_number l \<and> encode_key k = encode_key l"

definition same_item :: "(pyval \<times> pystr) \<Rightarrow> (pyval \<times> pystr) \<Rightarrow> bool" where
  "same_item p q \<longleftrightarrow> same_place (fst p) (fst q) \<and> snd p = snd q"

lemma insert_item_same:
  "same_item p q \<Longrightarrow> list_all2 same_item ps qs \<Longrightarrow>
   list_all2 same_item (insert_item p ps) (insert_item q qs)"
proof (induction ps arbitrary: qs)
  case Nil
  then show ?case by simp
next
  case (Cons a ps)
  then obtain b qs' where "qs = b # qs'" "same_item a b" "list_all2 same_item ps qs'"
    by (auto simp: list_all2_Cons1)
  moreover have "key_less (fst a) (fst p) = key_less (fst b) (fst q)"
    using Cons.prems(1) \<open>same_item a b\<close> unfolding same_item_def same_place_def key_less_def
    by (elim conjE) (simp only:)
  ultimately show ?case using Cons by simp
qed

lemma sort_items_same:
  "list_all2 same_item ps qs \<Longrightarrow> list_all2 same_item (sort_items ps) (sort_items qs)"
  unfolding sort_items_def
  by (induction rule: list_all2_induct) (auto intro: insert_item_same)

lemma encode_dict_same:
  assumes "list_all2 same_place ks ls" "map encode ws = map encode us" "length ks = length ws"
    "length ls = length us"
  shows "encode (PDict (zip ks ws)) = encode (PDict (zip ls us))"
proof -
  have "list_all2 same_item (zip ks (map encode ws)) (zip ls (map encode us))"
    using assms by (auto simp: list_all2_conv_all_nth same_item_def)
  then have "list_all2 same_item (sort_items (zip ks (map encode ws))) (sort_items (zip ls (map encode us)))"
    by (rule sort_items_same)
  then have "map (\<lambda>(k, t). encode_key k @ [58] @ t) (sort_items (zip ks (map encode ws)))
      = map (\<lambda>(k, t). encode_key k @ [58] @ t) (sort_items (zip ls (map encode us)))"
    by (induction rule: list_all2_induct) (auto simp: same_item_def same_place_def)
  moreover have "map (\<lambda>(k, v). (k, encode v)) (zip ks ws) = zip ks (map encode ws)"
    "map (\<lambda>(k, v). (k, encode v)) (zip ls us) = zip ls (map encode us)"
    by (simp_all add: zip_map2)
  ultimately show ?thesis by simp
qed

lemma visit_key_place:
  "visit_key L k depth st = return ((n, w), st') \<Longrightarrow> family_of k \<noteq> None \<Longrightarrow> same_place n k"
  by (auto simp: visit_key_def same_place_def family_of_def key_text_def key_number_def encode_key_def
      split: pyval.splits)

lemma visit_keys_place:
  "visit_keys L depth r seen ks t = return (ns, t') \<Longrightarrow> \<forall>k \<in> set ks. family_of k \<noteq> None \<Longrightarrow>
   list_all2 same_place ns ks"
proof (induction ks arbitrary: seen t ns)
  case (Cons k ks)
  then obtain n w t1 t2 ns' where 1: "visit_key L k depth t = return ((n, w), t1)"
    and 4: "visit_keys L depth r (n # seen) ks t2 = return (ns', t')" and ns: "ns = n # ns'"
    by (auto split: if_splits)
  show ?case
    using visit_key_place [OF 1] Cons.IH [OF 4] Cons.prems(2) by (simp add: ns)
qed simp

lemma mapping_keys_place:
  "mapping_keys L depth ks t = return (ns, t') \<Longrightarrow> list_all2 same_place ns ks"
  using check_families_some visit_keys_place by (fastforce simp: mapping_keys_def split: if_splits)

lemma same_scalar:
  assumes "visit_scalar L v = return (w, n)" "enum_safe v = return u" "no_negative_zero v"
  shows "encode w = encode u"
proof (cases v)
  case (PDecimal d)
  then obtain t n' where t: "bounded_money_text (lim_number_characters L) d = return t" "w = PStr t"
    using assms(1) by (auto simp: visit_scalar_def)
  have "money_text (MDecimal d) = return t"
    using bounded_money_text_agrees [OF t(1)] assms(3) by (simp add: PDecimal)
  then show ?thesis using assms(2) t(2) by (simp add: PDecimal)
qed (use assms in \<open>auto simp: visit_scalar_def\<close>)

lemma enum_safe_entries_keys:
  "enum_safe_entries kvs = return us \<Longrightarrow> map fst us = map fst kvs"
  by (induction kvs arbitrary: us) auto

lemma visit_enum_safe:
  "visit L v depth st = return (w, st') \<Longrightarrow> enum_safe v = return u \<Longrightarrow> no_negative_zero v \<Longrightarrow>
     encode w = encode u"
  "visit_items L first vs depth st = return (ws, st') \<Longrightarrow> enum_safe_items vs = return us \<Longrightarrow>
     list_all no_negative_zero vs \<Longrightarrow> map encode ws = map encode us"
  "visit_entries L first kvs depth st = return (ws, st') \<Longrightarrow> enum_safe_entries kvs = return es \<Longrightarrow>
     list_all (\<lambda>p. no_negative_zero (snd p)) kvs \<Longrightarrow> map encode ws = map (encode \<circ> snd) es"
proof (induction L v depth st and L first vs depth st and L first kvs depth st
    arbitrary: w st' u and ws st' us and ws st' es rule: visit_visit_items_visit_entries.induct)
  case (1 L kvs depth st)
  then obtain st1 st2 ks ws es where *: "claim_node L depth st = return st1"
    "mapping_keys L depth (map fst kvs) st1 = return (ks, st2)"
    "visit_entries L True kvs (depth + 1) st2 = return (ws, st')" "w = PDict (zip ks ws)"
    "enum_safe_entries kvs = return es" "u = PDict es"
    by auto
  have e: "map encode ws = map encode (map snd es)"
    using "1.IH" [OF *(1,2) refl *(3,5)] "1.prems"(3) by simp
  have k: "list_all2 same_place ks (map fst es)"
    using mapping_keys_place [OF *(2)] enum_safe_entries_keys [OF *(5)] by simp
  have "length ks = length ws"
    using mapping_keys_bytes [OF *(2)] visit_bytes(3) [OF *(3)] by simp
  from encode_dict_same [OF k e this] show ?case
    by (simp only: *(4,6) length_map zip_map_fst_snd)
next
  case (6 L first v vs depth st)
  from "6.prems" obtain s1 s2 x xs y ys where
    *: "(if first then return st else consume L 1 st) = return s1"
    "visit L v depth s1 = return (x, s2)" "visit_items L False vs depth s2 = return (xs, st')"
    "ws = x # xs" "enum_safe v = return y" "enum_safe_items vs = return ys" "us = y # ys" by auto
  from "6.IH"(1) [OF *(1,2,5)] "6.IH"(2) [OF *(1,2) refl *(3,6)] "6.prems"(3) show ?case
    by (simp add: *(4,7))
next
  case (8 L first kv kvs depth st)
  from "8.prems" obtain s1 s2 s3 x xs y ys where
    *: "(if first then return st else consume L 1 st) = return s1" "consume L 1 s1 = return s2"
    "visit L (snd kv) depth s2 = return (x, s3)" "visit_entries L False kvs depth s3 = return (xs, st')"
    "ws = x # xs" "enum_safe (snd kv) = return y" "enum_safe_entries kvs = return ys"
    "es = (fst kv, y) # ys" by auto
  from "8.IH"(1) [OF *(1,2,3,6)] "8.IH"(2) [OF *(1,2,3) refl *(4,7)] "8.prems"(3) show ?case
    by (simp add: *(5,8))
next
  case (2 L vs depth st)
  then obtain st1 st2 ws us where *: "claim_node L depth st = return st1"
    "consume L 2 st1 = return st2" "visit_items L True vs (depth + 1) st2 = return (ws, st')"
    "w = PList ws" "enum_safe_items vs = return us" "u = PList us" by auto
  have "list_all no_negative_zero vs" using "2.prems"(3) by simp
  from "2.IH" [OF *(1,2,3,5) this] show ?case by (simp add: *(4,6))
next
  case (3 L vs depth st)
  then obtain st1 st2 ws us where *: "claim_node L depth st = return st1"
    "consume L 2 st1 = return st2" "visit_items L True vs (depth + 1) st2 = return (ws, st')"
    "w = PTuple ws" "enum_safe_items vs = return us" "u = PList us" by auto
  have "list_all no_negative_zero vs" using "3.prems"(3) by simp
  from "3.IH" [OF *(1,2,3,5) this] show ?case by (simp add: *(4,6))
qed (auto dest!: same_scalar)

lemma hashing_paths_agree:
  assumes "snapshot_and_sha256 sha L obj = return (w, digest)" "enum_safe obj = return u"
    "no_negative_zero obj"
  shows "digest = sha256_of sha u"
  using assms visit_enum_safe(1)
  by (fastforce simp: snapshot_and_sha256_def snapshot_sha256_def snapshot_of_def sha256_of_def Let_def
      split: if_splits)

end
