(* ===== verification/CanonicalProperties.thy ===== *)
theory CanonicalProperties
  imports CanonicalPaths
begin

text \<open>
  The properties of canonical JSON. \<open>example_value\<close> is a nested mapping with text, an enumeration
  member, a decimal and a list.
\<close>

definition example_value :: pyval where
  "example_value =
     PDict [(PStr (lit ''tool''), PEnum (lit ''spend'')),
            (PStr (lit ''cost''), PDecimal (Fin False 150 (-2))),
            (PStr (lit ''args''), PList [PBool True, PNone])]"

definition example_snapshot :: pyval where
  "example_snapshot =
     PDict [(PStr (lit ''tool''), PStr (lit ''spend'')),
            (PStr (lit ''cost''), PStr (lit ''1.5'')),
            (PStr (lit ''args''), PList [PBool True, PNone])]"

definition example_limits :: canonical_limits where
  "example_limits =
     \<lparr>lim_canonical_bytes = 200, lim_mapping_entries = 10, lim_mapping_sort_work_units = 500,
      lim_nesting_depth = 5, lim_nodes = 50, lim_number_characters = 20,
      lim_scalar_characters = 40, lim_string_token_bytes = 200\<rparr>"

lemma example_snapshot_of: "snapshot_of example_limits example_value = return example_snapshot"
  by code_simp

text \<open>
  The preflight counts exactly what the encoder emits: when a value is visited successfully,
  the bytes claimed are the length of the canonical encoding of the snapshot it returns.
\<close>

theorem visit_counts_encoding:
  assumes "visit L v depth st = return (w, st')"
  shows "vs_bytes st' = vs_bytes st + length (encode w)"
  using assms by (rule visit_bytes(1))

lemma visit_counts_encoding_witness:
  "\<exists>st'. visit example_limits example_value 0 start_state = return (example_snapshot, st')
     \<and> vs_bytes st' = length (encode example_snapshot)"
proof -
  obtain st' where v: "visit example_limits example_value 0 start_state = return (example_snapshot, st')"
    using example_snapshot_of by (auto simp: snapshot_of_def)
  show ?thesis using v visit_counts_encoding [OF v] by (simp add: start_state_def)
qed

text \<open>
  C20: A snapshot obeys every ceiling, so hashing it never fails: its encoding, its nodes and its
  nesting are within the limits, and the digest is SHA-256 of the whole encoding.
\<close>

theorem snapshot_within_limits:
  assumes "snapshot_of L obj = return w"
  shows "length (encode w) \<le> lim_canonical_bytes L \<and> node_count w \<le> lim_nodes L
     \<and> height w \<le> lim_nesting_depth L
     \<and> snapshot_and_sha256 sha L obj = return (w, lit ''sha256:'' @ sha (encode w))"
  by (rule snapshot_ofE [OF assms]) (simp add: inside_def snapshot_hash [OF assms])

lemma snapshot_within_limits_witness:
  "height example_snapshot \<le> 5
     \<and> snapshot_and_sha256 (\<lambda>t. t) example_limits example_value
         = return (example_snapshot, lit ''sha256:'' @ encode example_snapshot)"
  using snapshot_within_limits [OF example_snapshot_of] by (simp add: example_limits_def)

text \<open>
  A snapshot is stable: taking the snapshot of a snapshot succeeds and changes nothing, so
  the object retained at an ownership boundary hashes to the digest taken there.
\<close>

theorem snapshot_stable:
  assumes "sane_limits L" and "snapshot_and_sha256 sha L obj = return (w, digest)"
  shows "snapshot_and_sha256 sha L w = return (w, digest)"
proof -
  have s: "snapshot_of L obj = return w"
    using assms(2) by (auto simp: snapshot_and_sha256_def)
  show ?thesis
    using snapshot_hash [OF s, of sha] snapshot_hash [OF snapshot_idem [OF assms(1) s], of sha] assms(2)
    by simp
qed

lemma snapshot_stable_witness:
  "snapshot_and_sha256 (\<lambda>t. t) example_limits example_snapshot
     = return (example_snapshot, lit ''sha256:'' @ encode example_snapshot)"
  by (rule snapshot_stable [where obj = example_value])
    (simp add: sane_limits_def example_limits_def, rule snapshot_hash [OF example_snapshot_of])

text \<open>
  C21: The two hashing paths agree: unless a decimal is a negative zero, the bounded digest of a
  value is the digest of its unbounded canonical JSON.
\<close>

theorem bounded_hash_is_sha256_of:
  assumes "snapshot_and_sha256 sha L obj = return (w, digest)" and "enum_safe obj = return u"
    and "no_negative_zero obj"
  shows "digest = sha256_of sha u"
  using assms by (rule hashing_paths_agree)

lemma bounded_hash_is_sha256_of_witness:
  "lit ''sha256:'' @ encode example_snapshot = sha256_of (\<lambda>t. t) example_snapshot"
proof (rule bounded_hash_is_sha256_of [OF snapshot_hash [OF example_snapshot_of]])
  show "enum_safe example_value = return example_snapshot" by code_simp
  show "no_negative_zero example_value" by code_simp
qed

text \<open>
  C14: The exception is real: the amount \<open>-0\<close> is accepted as money, and the bounded path encodes it
  as \<open>"0"\<close> where the unbounded path encodes it as \<open>"-0"\<close>.
\<close>

theorem negative_zero_hashes_differ:
  "\<exists>d w u. money (MStr (lit ''-0'')) = return d
     \<and> snapshot_of action_limits (PDecimal d) = return w \<and> enum_safe (PDecimal d) = return u
     \<and> encode w \<noteq> encode u"
proof -
  have m: "money (MStr (lit ''-0'')) = return (Fin True 0 0)" by code_simp
  have z: "dec_eq (Fin True 0 0) zero" "is_money (Fin True 0 0)"
    by (simp_all add: dec_eq_dval is_money_def dval_Fin scoef_def)
  have s: "snapshot_of action_limits (PDecimal (Fin True 0 0)) = return (PStr [48])"
    using z by (simp add: snapshot_of_def start_state_def claim_node_def visit_scalar_def consume_def
        bounded_money_text_def money_decimal_iff string_token_def plain_ascii_def action_limits_def)
  have e: "enum_safe (PDecimal (Fin True 0 0)) = return (PStr (lit ''-0''))" by code_simp
  have "encode (PStr [48]) \<noteq> encode (PStr (lit ''-0''))" by code_simp
  then show ?thesis using m s e by blast
qed

text \<open>
  The width of a string token is counted without building it: the shortcut for printable
  ASCII and the per-character count both give the length of the escaped token, and refuse it
  exactly when it is over the limit.
\<close>

theorem string_token_is_encoded_length:
  "string_token limit s =
     (if length (encode_string s) \<le> limit then return (length (encode_string s))
      else raise LimitStringTokenBytes)"
  by (rule string_token_spec)

text \<open>
  Money survives its text: the decimal text persisted for an accepted amount is accepted
  again and denotes the same number.
\<close>

theorem money_text_roundtrip:
  assumes "money v = return d" and "money_text v = return t"
  shows "money (MStr t) = return (canon d) \<and> dval (canon d) = dval d"
proof -
  have m: "is_money d" using assms(1) by (rule money_sound)
  then have "is_money (canon d)" by simp
  moreover have "decimal_of_text t = Some (canon d)"
    using assms m decimal_text_roundtrip [of d] by (auto simp: money_text_def is_money_def)
  ultimately show ?thesis
    by (auto simp: money_def is_money_def dec_lt_dval)
qed

lemma money_text_roundtrip_witness:
  "money (MStr (lit ''2.5'')) = return (Fin False 25 (-1))"
proof -
  have "money (MDecimal (Fin False 250 (-2))) = return (Fin False 250 (-2))"
    and "money_text (MDecimal (Fin False 250 (-2))) = return (lit ''2.5'')"
    and "canon (Fin False 250 (-2)) = Fin False 25 (-1)" by code_simp+
  then show ?thesis using money_text_roundtrip by metis
qed

end
