(* ===== verification/Contracts.thy ===== *)
theory Contracts
  imports CanonicalPaths
begin

text \<open>
  The contracts that cross component boundaries (\<open>contracts.py\<close>): the enumerations, provenance,
  the request, the proposed action with its fingerprints, the guardrail decision and the
  capability grant. Fields that the dataclasses normalise are normalised here; checks that a
  value has its declared Python type are the types of the records.
\<close>

subsection \<open>What is taken from the runtime\<close>

text \<open>
  SHA-256 and HMAC as functions on text, and the two directions of RFC 3339 timestamps: the
  instant a text denotes (none when it is malformed or has no time zone) and its UTC rendering.
  Every theorem holds for all such functions.
\<close>

record runtime =
  rt_sha256 :: "pystr \<Rightarrow> pystr"
  rt_hmac :: "pystr \<Rightarrow> pystr \<Rightarrow> pystr"
  rt_instant :: "pystr \<Rightarrow> int option"
  rt_utc_text :: "int \<Rightarrow> pystr"

subsection \<open>Enumerations\<close>

datatype sensitivity = Public | Internal | Client | Legal | Financial | Regulated | UnknownSensitivity
datatype side_effect = NoEffect | LocalWrite | ExternalSend | ExternalPublish | Spend | Destructive
datatype trust = Trusted | Untrusted | Derived
datatype decision = Allow | Block | ApprovalRequired
datatype result_status =
  Succeeded | Failed | Blocked | Skipped | PendingApproval | ExpiredResult | RejectedResult | NotExecuted

definition sensitivity_value :: "sensitivity \<Rightarrow> pystr" where
  "sensitivity_value s = (case s of
     Public \<Rightarrow> lit ''public'' | Internal \<Rightarrow> lit ''internal'' | Client \<Rightarrow> lit ''client''
   | Legal \<Rightarrow> lit ''legal'' | Financial \<Rightarrow> lit ''financial'' | Regulated \<Rightarrow> lit ''regulated''
   | UnknownSensitivity \<Rightarrow> lit ''unknown'')"

definition side_effect_value :: "side_effect \<Rightarrow> pystr" where
  "side_effect_value s = (case s of
     NoEffect \<Rightarrow> lit ''none'' | LocalWrite \<Rightarrow> lit ''local_write'' | ExternalSend \<Rightarrow> lit ''external_send''
   | ExternalPublish \<Rightarrow> lit ''external_publish'' | Spend \<Rightarrow> lit ''spend''
   | Destructive \<Rightarrow> lit ''destructive'')"

definition trust_value :: "trust \<Rightarrow> pystr" where
  "trust_value t = (case t of
     Trusted \<Rightarrow> lit ''trusted'' | Untrusted \<Rightarrow> lit ''untrusted'' | Derived \<Rightarrow> lit ''derived'')"

definition decision_value :: "decision \<Rightarrow> pystr" where
  "decision_value d = (case d of
     Allow \<Rightarrow> lit ''allow'' | Block \<Rightarrow> lit ''block'' | ApprovalRequired \<Rightarrow> lit ''approval_required'')"

definition status_value :: "result_status \<Rightarrow> pystr" where
  "status_value s = (case s of
     Succeeded \<Rightarrow> lit ''succeeded'' | Failed \<Rightarrow> lit ''failed'' | Blocked \<Rightarrow> lit ''blocked''
   | Skipped \<Rightarrow> lit ''skipped'' | PendingApproval \<Rightarrow> lit ''pending_approval''
   | ExpiredResult \<Rightarrow> lit ''expired'' | RejectedResult \<Rightarrow> lit ''rejected''
   | NotExecuted \<Rightarrow> lit ''not_executed'')"

text \<open>\<open>Enum(value)\<close>: the member with that value.\<close>

definition member_of :: "('e \<Rightarrow> pystr) \<Rightarrow> 'e list \<Rightarrow> pystr \<Rightarrow> 'e option" where
  "member_of value members s = find (\<lambda>m. value m = s) members"

definition all_statuses :: "result_status list" where
  "all_statuses = [Succeeded, Failed, Blocked, Skipped, PendingApproval, ExpiredResult,
     RejectedResult, NotExecuted]"

definition all_decisions :: "decision list" where
  "all_decisions = [Allow, Block, ApprovalRequired]"

lemma status_value_inj [simp]: "status_value s = status_value t \<longleftrightarrow> s = t"
  by (cases s; cases t) (simp_all add: status_value_def)

lemma decision_value_inj [simp]: "decision_value s = decision_value t \<longleftrightarrow> s = t"
  by (cases s; cases t) (simp_all add: decision_value_def)

lemma side_effect_value_inj [simp]: "side_effect_value s = side_effect_value t \<longleftrightarrow> s = t"
  by (cases s; cases t) (simp_all add: side_effect_value_def)

lemma trust_value_inj [simp]: "trust_value s = trust_value t \<longleftrightarrow> s = t"
  by (cases s; cases t) (simp_all add: trust_value_def)

definition side_effect_order :: "side_effect list" where
  "side_effect_order = [NoEffect, LocalWrite, ExternalSend, ExternalPublish, Spend, Destructive]"

definition side_effect_rank :: "side_effect \<Rightarrow> nat" where
  "side_effect_rank level = length (takeWhile (\<lambda>x. x \<noteq> level) side_effect_order)"

lemma side_effect_rank_inj [simp]: "side_effect_rank a = side_effect_rank b \<longleftrightarrow> a = b"
  by (cases a; cases b) (simp_all add: side_effect_rank_def side_effect_order_def)

text \<open>The order of blast radius makes the side effects a linear order.\<close>

instantiation side_effect :: linorder
begin

definition less_eq_side_effect :: "side_effect \<Rightarrow> side_effect \<Rightarrow> bool" where
  "less_eq_side_effect a b \<longleftrightarrow> side_effect_rank a \<le> side_effect_rank b"

definition less_side_effect :: "side_effect \<Rightarrow> side_effect \<Rightarrow> bool" where
  "less_side_effect a b \<longleftrightarrow> side_effect_rank a < side_effect_rank b"

instance
  by standard (auto simp: less_eq_side_effect_def less_side_effect_def)

end

subsection \<open>Text and timestamps\<close>

datatype contract_error =
    NotNonEmptyText
  | InvalidTimestamp
  | ContractMoney value_error
  | ContractLimit
  | ContractCanonical canonical_error
  | MissingPolicyIds
  | InvalidEnforcementBasis
  | NotFinite
  | AlreadySealed
  | InvalidMember
  | FieldsMismatch
  | PayloadNotMapping

definition require_text :: "pystr \<Rightarrow> (contract_error, unit) result" where
  "require_text s = require (py_strip s \<noteq> []) NotNonEmptyText"

definition utc_timestamp :: "runtime \<Rightarrow> pystr \<Rightarrow> (contract_error, pystr) result" where
  "utc_timestamp R s =
     (if s = [] then raise InvalidTimestamp
      else case rt_instant R s of
          None \<Rightarrow> raise InvalidTimestamp
        | Some t \<Rightarrow> return (rt_utc_text R t))"

definition optional_timestamp :: "runtime \<Rightarrow> pystr option \<Rightarrow> (contract_error, pystr option) result" where
  "optional_timestamp R v =
     (case v of None \<Rightarrow> return None | Some s \<Rightarrow> bindR (utc_timestamp R s) (\<lambda>t. return (Some t)))"

definition contract_money :: "decimal \<Rightarrow> (contract_error, decimal) result" where
  "contract_money d = mapErr ContractMoney (money (MDecimal d))"

fun aggregate_text :: "nat \<Rightarrow> nat \<Rightarrow> pystr list \<Rightarrow> (contract_error, unit) result" where
  "aggregate_text maximum used [] = return ()"
| "aggregate_text maximum used (v # vs) =
     (if maximum - used < length v then raise ContractLimit
      else aggregate_text maximum (used + length v) vs)"

lemma require_text_Inr [simp]: "require_text s = return u \<longleftrightarrow> py_strip s \<noteq> []"
  by (simp add: require_text_def)

subsection \<open>Provenance\<close>

record content_ref =
  cr_ref_id :: pystr
  cr_origin :: pystr
  cr_trust :: trust
  cr_content_hash :: pystr
  cr_label :: pystr

definition max_provenance_text_item :: nat where
  "max_provenance_text_item = 8192"

definition check_content_ref :: "content_ref \<Rightarrow> (contract_error, unit) result" where
  "check_content_ref r =
     bindR (require_text (cr_ref_id r)) (\<lambda>_.
     bindR (require_text (cr_origin r)) (\<lambda>_.
     bindR (require_text (cr_content_hash r)) (\<lambda>_.
       require (\<forall>s \<in> set [cr_ref_id r, cr_origin r, cr_content_hash r, cr_label r].
                  length s \<le> max_provenance_text_item) ContractLimit)))"

definition worst_trust :: "content_ref list \<Rightarrow> trust" where
  "worst_trust refs =
     (if refs = [] then Derived
      else if list_ex (\<lambda>r. cr_trust r = Untrusted) refs then Untrusted
      else if list_ex (\<lambda>r. cr_trust r = Derived) refs then Derived
      else Trusted)"

definition ref_texts :: "content_ref list \<Rightarrow> pystr list" where
  "ref_texts refs =
     concat (map (\<lambda>r. [cr_ref_id r, cr_origin r, cr_content_hash r, cr_label r]) refs)"

definition ref_object :: "content_ref \<Rightarrow> pyval" where
  "ref_object r = PDict
     [(PStr (lit ''ref_id''), PStr (cr_ref_id r)), (PStr (lit ''origin''), PStr (cr_origin r)),
      (PStr (lit ''trust''), PEnum (trust_value (cr_trust r))),
      (PStr (lit ''content_hash''), PStr (cr_content_hash r)), (PStr (lit ''label''), PStr (cr_label r))]"

subsection \<open>Requests\<close>

record harness_request =
  hr_task :: pystr
  hr_user_id :: pystr
  hr_workspace_id :: pystr
  hr_request_id :: pystr
  hr_task_type :: pystr
  hr_sensitivity :: sensitivity
  hr_allowed_tools :: "pystr list"
  hr_budget_limit_usd :: "decimal option"
  hr_inputs :: "content_ref list"
  hr_created_at :: pystr

definition max_request_text_item :: nat where "max_request_text_item = 1048576"
definition max_request_identifier :: nat where "max_request_identifier = 4096"
definition max_request_allowed_tools :: nat where "max_request_allowed_tools = 4096"
definition max_request_allowed_tool_characters :: nat where "max_request_allowed_tool_characters = 4096"
definition max_provenance_refs :: nat where "max_provenance_refs = 100000"
definition max_request_text :: nat where "max_request_text = 8388608"
definition max_provenance_text :: nat where "max_provenance_text = 8388608"

definition request_texts :: "harness_request \<Rightarrow> pystr list" where
  "request_texts r =
     [hr_task r, hr_user_id r, hr_workspace_id r, hr_request_id r, hr_task_type r]
     @ hr_allowed_tools r @ ref_texts (hr_inputs r)"

text \<open>\<open>HarnessRequest._validate_contract\<close>, and sealing, which validates again and then freezes.\<close>

definition validate_request ::
  "runtime \<Rightarrow> harness_request \<Rightarrow> (contract_error, harness_request) result" where
  "validate_request R r =
     bindR (case hr_budget_limit_usd r of None \<Rightarrow> return () | Some b \<Rightarrow>
              bindR (contract_money b) (\<lambda>_. return ())) (\<lambda>_.
     bindR (utc_timestamp R (hr_created_at r)) (\<lambda>created_at.
     let ids = [hr_user_id r, hr_workspace_id r, hr_request_id r, hr_task_type r] in
     bindR (allR require_text (hr_task r # ids)) (\<lambda>_.
       if max_request_text_item < length (hr_task r) then raise ContractLimit
       else if \<exists>s \<in> set ids. max_request_identifier < length s then raise ContractLimit
       else if max_request_allowed_tools < length (hr_allowed_tools r) then raise ContractLimit
       else bindR (allR (\<lambda>name.
           bindR (require_text name) (\<lambda>_.
             require (length name \<le> max_request_allowed_tool_characters) ContractLimit))
           (hr_allowed_tools r)) (\<lambda>_.
         if max_provenance_refs < length (hr_inputs r) then raise ContractLimit
         else bindR (aggregate_text max_request_text 0 (request_texts r)) (\<lambda>_.
           return (r\<lparr>hr_created_at := created_at\<rparr>))))))"

subsection \<open>Proposed actions and their fingerprints\<close>

record action =
  pa_tool_name :: pystr
  pa_target :: pystr
  pa_payload :: pyval
  pa_side_effect_level :: side_effect
  pa_agent_reason :: pystr
  pa_action_id :: pystr
  pa_request_id :: pystr
  pa_payload_sources :: "content_ref list"
  pa_estimated_cost_usd :: decimal
  pa_created_at :: pystr
  pa_sealed :: "(pystr \<times> pystr) option"

definition is_mapping :: "pyval \<Rightarrow> bool" where
  "is_mapping v = (case v of PDict _ \<Rightarrow> True | _ \<Rightarrow> False)"

definition validate_action_contract ::
  "runtime \<Rightarrow> action \<Rightarrow> (contract_error, action) result" where
  "validate_action_contract R a =
     bindR (allR require_text [pa_tool_name a, pa_target a, pa_action_id a]) (\<lambda>_.
       if \<not> is_mapping (pa_payload a) then raise PayloadNotMapping
       else if max_provenance_refs < length (pa_payload_sources a) then raise ContractLimit
       else bindR (aggregate_text max_provenance_text 0 (ref_texts (pa_payload_sources a))) (\<lambda>_.
         bindR (contract_money (pa_estimated_cost_usd a)) (\<lambda>_.
         bindR (utc_timestamp R (pa_created_at a)) (\<lambda>created_at.
           return (a\<lparr>pa_created_at := created_at\<rparr>)))))"

definition action_sha256_of :: "runtime \<Rightarrow> pyval \<Rightarrow> (canonical_error, pystr) result" where
  "action_sha256_of R obj =
     bindR (snapshot_and_sha256 (rt_sha256 R) action_limits obj) (\<lambda>(_, digest). return digest)"

text \<open>Everything an approval or a grant is bound to.\<close>

definition authorization_surface :: "action \<Rightarrow> pyval" where
  "authorization_surface a = PDict
     [(PStr (lit ''action_id''), PStr (pa_action_id a)),
      (PStr (lit ''request_id''), PStr (pa_request_id a)),
      (PStr (lit ''tool_name''), PStr (pa_tool_name a)),
      (PStr (lit ''target''), PStr (pa_target a)),
      (PStr (lit ''payload''), pa_payload a),
      (PStr (lit ''side_effect_level''), PEnum (side_effect_value (pa_side_effect_level a))),
      (PStr (lit ''payload_sources''), PList (map ref_object (pa_payload_sources a))),
      (PStr (lit ''estimated_cost_usd''), PDecimal (pa_estimated_cost_usd a))]"

definition current_authorization_hash :: "runtime \<Rightarrow> action \<Rightarrow> (canonical_error, pystr) result" where
  "current_authorization_hash R a = action_sha256_of R (authorization_surface a)"

definition payload_hash :: "runtime \<Rightarrow> action \<Rightarrow> (canonical_error, pystr) result" where
  "payload_hash R a = (case pa_sealed a of
     Some (p, _) \<Rightarrow> return p | None \<Rightarrow> action_sha256_of R (pa_payload a))"

definition authorization_hash :: "runtime \<Rightarrow> action \<Rightarrow> (canonical_error, pystr) result" where
  "authorization_hash R a = (case pa_sealed a of
     Some (_, h) \<Rightarrow> return h | None \<Rightarrow> current_authorization_hash R a)"

definition payload_trust :: "action \<Rightarrow> trust" where
  "payload_trust a = worst_trust (pa_payload_sources a)"

text \<open>The value under a text key of a snapshot.\<close>

definition dict_lookup :: "string \<Rightarrow> pyval \<Rightarrow> pyval option" where
  "dict_lookup k v = (case v of PDict kvs \<Rightarrow> dict_get (PStr (lit k)) kvs | _ \<Rightarrow> None)"

definition seal_fingerprints :: "runtime \<Rightarrow> action \<Rightarrow> (contract_error, action) result" where
  "seal_fingerprints R a =
     (case pa_sealed a of
        Some _ \<Rightarrow> return a
      | None \<Rightarrow>
          bindR (validate_action_contract R a) (\<lambda>a.
          bindR (mapErr ContractCanonical
              (snapshot_and_sha256 (rt_sha256 R) action_limits (pa_payload a))) (\<lambda>(payload, ph).
          bindR (mapErr ContractCanonical (snapshot_and_sha256 (rt_sha256 R) action_limits
              (authorization_surface (a\<lparr>pa_payload := payload\<rparr>)))) (\<lambda>(surface, ah).
            case dict_lookup ''payload'' surface of
              None \<Rightarrow> raise FieldsMismatch
            | Some retained \<Rightarrow> return (a\<lparr>pa_payload := retained, pa_sealed := Some (ph, ah)\<rparr>)))))"

subsection \<open>Decisions\<close>

record guardrail_decision =
  gd_decision :: decision
  gd_reason :: pystr
  gd_policy_ids :: "pystr list"
  gd_policy_version :: pystr
  gd_ruleset_hash :: pystr
  gd_approval_scope :: pystr
  gd_expires_at :: "pystr option"
  gd_redactions :: "pystr list"
  gd_decision_inputs :: pyval
  gd_decided_at :: pystr

definition authority_snapshot :: "pyval \<Rightarrow> (contract_error, pyval) result" where
  "authority_snapshot v = mapErr ContractCanonical (snapshot_of action_limits v)"

definition string_list_snapshot :: "pystr list \<Rightarrow> (contract_error, unit) result" where
  "string_list_snapshot ss = bindR (authority_snapshot (PList (map PStr ss))) (\<lambda>_. return ())"

definition mapping_snapshot :: "pyval \<Rightarrow> (contract_error, pyval) result" where
  "mapping_snapshot v = (case v of
     PDict _ \<Rightarrow> authority_snapshot v | _ \<Rightarrow> raise FieldsMismatch)"

definition validate_guardrail_decision ::
  "runtime \<Rightarrow> guardrail_decision \<Rightarrow> (contract_error, guardrail_decision) result" where
  "validate_guardrail_decision R d =
     bindR (require_text (gd_reason d)) (\<lambda>_.
     bindR (string_list_snapshot (gd_policy_ids d)) (\<lambda>_.
       if gd_policy_ids d = [] \<or> [] \<in> set (gd_policy_ids d) then raise MissingPolicyIds
       else bindR (string_list_snapshot (gd_redactions d)) (\<lambda>_.
         bindR (mapping_snapshot (gd_decision_inputs d)) (\<lambda>inputs.
         bindR (utc_timestamp R (gd_decided_at d)) (\<lambda>decided_at.
         bindR (optional_timestamp R (gd_expires_at d)) (\<lambda>expires_at.
           return (d\<lparr>gd_decision_inputs := inputs, gd_decided_at := decided_at,
                     gd_expires_at := expires_at\<rparr>)))))))"

subsection \<open>Capability grants\<close>

record capability_grant =
  cg_action_id :: pystr
  cg_tool_name :: pystr
  cg_authorization_hash :: pystr
  cg_evidence_record_id :: pystr
  cg_evidence_record_hash :: pystr
  cg_issued_at :: pystr
  cg_grant_id :: pystr
  cg_signature :: pystr
  cg_spent :: bool

datatype grant_error =
    GrantContract contract_error
  | GrantSpent
  | GrantActionMismatch
  | GrantToolMismatch
  | GrantVoid
  | GrantHash canonical_error

definition validate_grant :: "runtime \<Rightarrow> capability_grant \<Rightarrow> (contract_error, capability_grant) result" where
  "validate_grant R g =
     bindR (allR require_text
        [cg_action_id g, cg_tool_name g, cg_authorization_hash g, cg_evidence_record_id g,
         cg_evidence_record_hash g, cg_grant_id g]) (\<lambda>_.
     bindR (utc_timestamp R (cg_issued_at g)) (\<lambda>issued_at.
       return (g\<lparr>cg_issued_at := issued_at\<rparr>)))"

definition grant_claims :: "capability_grant \<Rightarrow> pyval" where
  "grant_claims g = PDict
     [(PStr (lit ''action_id''), PStr (cg_action_id g)),
      (PStr (lit ''tool_name''), PStr (cg_tool_name g)),
      (PStr (lit ''authorization_hash''), PStr (cg_authorization_hash g)),
      (PStr (lit ''evidence_record_id''), PStr (cg_evidence_record_id g)),
      (PStr (lit ''evidence_record_hash''), PStr (cg_evidence_record_hash g)),
      (PStr (lit ''issued_at''), PStr (cg_issued_at g)),
      (PStr (lit ''grant_id''), PStr (cg_grant_id g))]"

definition spend :: "runtime \<Rightarrow> action \<Rightarrow> capability_grant \<Rightarrow> (grant_error, capability_grant) result" where
  "spend R a g0 =
     bindR (mapErr GrantContract (validate_grant R g0)) (\<lambda>g.
       if cg_spent g then raise GrantSpent
       else if pa_action_id a \<noteq> cg_action_id g then raise GrantActionMismatch
       else if pa_tool_name a \<noteq> cg_tool_name g then raise GrantToolMismatch
       else bindR (mapErr GrantHash (current_authorization_hash R a)) (\<lambda>presented.
         if presented \<noteq> cg_authorization_hash g then raise GrantVoid
         else return (g\<lparr>cg_spent := True\<rparr>)))"

end
