(* ===== verification/ContractFacts.thy ===== *)
theory ContractFacts
  imports Contracts
begin

text \<open>
  Facts about the contracts: a snapshot has one value wherever it is taken, so sealing an action
  retains exactly what was hashed.
\<close>

subsection \<open>The value of a snapshot does not depend on where it is taken\<close>

lemma visit_key_unique:
  "visit_key L k d s = return ((n, w), s') \<Longrightarrow> visit_key L k d2 t = return ((n2, w2), t') \<Longrightarrow> n = n2"
  by (cases k) (auto simp: visit_key_def)

lemma visit_keys_unique:
  "visit_keys L d r seen ks s = return (ns, s') \<Longrightarrow>
   visit_keys L d2 r2 seen2 ks t = return (ns2, t') \<Longrightarrow> ns = ns2"
proof (induction ks arbitrary: seen seen2 s t ns ns2)
  case (Cons k ks)
  from Cons.prems(1) obtain n w s1 s2 ms where 1: "visit_key L k d s = return ((n, w), s1)"
    "visit_keys L d r (n # seen) ks s2 = return (ms, s')" "ns = n # ms" by (auto split: if_splits)
  from Cons.prems(2) obtain n2 w2 t1 t2 ms2 where 2: "visit_key L k d2 t = return ((n2, w2), t1)"
    "visit_keys L d2 r2 (n2 # seen2) ks t2 = return (ms2, t')" "ns2 = n2 # ms2"
    by (auto split: if_splits)
  show ?case using visit_key_unique [OF 1(1) 2(1)] Cons.IH [OF 1(2) 2(2)] 1(3) 2(3) by simp
qed simp

lemma mapping_keys_unique:
  "mapping_keys L d ks s = return (ns, s') \<Longrightarrow> mapping_keys L d2 ks t = return (ns2, t') \<Longrightarrow> ns = ns2"
  by (auto simp: mapping_keys_def split: if_splits dest: visit_keys_unique)

lemma visit_unique:
  "visit L v d s = return (w, s') \<Longrightarrow> visit L v d2 t = return (w2, t') \<Longrightarrow> w = w2"
  "visit_items L first vs d s = return (ws, s') \<Longrightarrow>
     visit_items L first2 vs d2 t = return (ws2, t') \<Longrightarrow> ws = ws2"
  "visit_entries L first kvs d s = return (ws, s') \<Longrightarrow>
     visit_entries L first2 kvs d2 t = return (ws2, t') \<Longrightarrow> ws = ws2"
proof (induction L v d s and L first vs d s and L first kvs d s
    arbitrary: w s' d2 t w2 t' and ws s' first2 d2 t ws2 t' and ws s' first2 d2 t ws2 t'
    rule: visit_visit_items_visit_entries.induct)
  case (1 L kvs d s)
  from "1.prems"(1) obtain s1 s2 ks ws where 1: "claim_node L d s = return s1"
    "mapping_keys L d (map fst kvs) s1 = return (ks, s2)"
    "visit_entries L True kvs (d + 1) s2 = return (ws, s')" "w = PDict (zip ks ws)" by auto
  from "1.prems"(2) obtain t1 t2 ks2 ws2 where 2:
    "mapping_keys L d2 (map fst kvs) t1 = return (ks2, t2)"
    "visit_entries L True kvs (d2 + 1) t2 = return (ws2, t')" "w2 = PDict (zip ks2 ws2)" by auto
  show ?case
    using mapping_keys_unique [OF 1(2) 2(1)] "1.IH" [OF 1(1,2) refl 1(3) 2(2)] 1(4) 2(3) by simp
next
  case (2 L vs d s)
  from "2.prems"(1) obtain s1 s2 ws where 1: "claim_node L d s = return s1" "consume L 2 s1 = return s2"
    "visit_items L True vs (d + 1) s2 = return (ws, s')" "w = PList ws" by auto
  from "2.prems"(2) obtain t2 ws2 where 2: "visit_items L True vs (d2 + 1) t2 = return (ws2, t')"
    "w2 = PList ws2" by auto
  show ?case using "2.IH" [OF 1(1,2,3) 2(1)] 1(4) 2(2) by simp
next
  case (3 L vs d s)
  from "3.prems"(1) obtain s1 s2 ws where 1: "claim_node L d s = return s1" "consume L 2 s1 = return s2"
    "visit_items L True vs (d + 1) s2 = return (ws, s')" "w = PTuple ws" by auto
  from "3.prems"(2) obtain t2 ws2 where 2: "visit_items L True vs (d2 + 1) t2 = return (ws2, t')"
    "w2 = PTuple ws2" by auto
  show ?case using "3.IH" [OF 1(1,2,3) 2(1)] 1(4) 2(2) by simp
next
  case (6 L first v vs d s)
  from "6.prems"(1) obtain s1 s2 x xs where 1: "(if first then return s else consume L 1 s) = return s1"
    "visit L v d s1 = return (x, s2)" "visit_items L False vs d s2 = return (xs, s')" "ws = x # xs"
    by auto
  from "6.prems"(2) obtain t1 t2 y ys where 2: "visit L v d2 t1 = return (y, t2)"
    "visit_items L False vs d2 t2 = return (ys, t')" "ws2 = y # ys" by auto
  show ?case using "6.IH"(1) [OF 1(1,2) 2(1)] "6.IH"(2) [OF 1(1,2) refl 1(3) 2(2)] 1(4) 2(3) by simp
next
  case (8 L first kv kvs d s)
  from "8.prems"(1) obtain s1 s2 s3 x xs where 1: "(if first then return s else consume L 1 s) = return s1"
    "consume L 1 s1 = return s2" "visit L (snd kv) d s2 = return (x, s3)"
    "visit_entries L False kvs d s3 = return (xs, s')" "ws = x # xs" by auto
  from "8.prems"(2) obtain t2 t3 y ys where 2: "visit L (snd kv) d2 t2 = return (y, t3)"
    "visit_entries L False kvs d2 t3 = return (ys, t')" "ws2 = y # ys" by auto
  show ?case
    using "8.IH"(1) [OF 1(1,2,3) 2(1)] "8.IH"(2) [OF 1(1,2,3) refl 1(4) 2(2)] 1(5) 2(3) by simp
qed auto

lemma visit_entries_nth:
  "visit_entries L first kvs d s = return (ws, s') \<Longrightarrow> i < length kvs \<Longrightarrow>
   \<exists>t t'. visit L (snd (kvs ! i)) d t = return (ws ! i, t')"
proof (induction kvs arbitrary: first s ws i)
  case (Cons kv kvs)
  then obtain x xs s2 s3 where *: "visit L (snd kv) d s2 = return (x, s3)"
    "visit_entries L False kvs d s3 = return (xs, s')" "ws = x # xs" by auto
  show ?case using Cons.IH [OF *(2)] Cons.prems(2) *(1,3) by (cases i) auto
qed simp

lemma sane_action_limits [simp]: "sane_limits action_limits"
  by (simp add: sane_limits_def action_limits_def)

lemma visit_text_keys:
  "visit_keys L d r seen (map PStr ss) s = return (ns, s') \<Longrightarrow> ns = map PStr ss"
proof (induction ss arbitrary: seen s ns)
  case (Cons k ss)
  then obtain n w s1 s2 ms where 1: "visit_key L (PStr k) d s = return ((n, w), s1)"
    "visit_keys L d r (n # seen) (map PStr ss) s2 = return (ms, s')" "ns = n # ms"
    by (auto split: if_splits)
  have "n = PStr k" using 1(1) by (auto simp: visit_key_def)
  then show ?case using Cons.IH [OF 1(2)] 1(3) by simp
qed simp

lemma snapshot_text_dict:
  assumes "snapshot_of L (PDict (zip (map PStr ss) vs)) = return w" "length ss = length vs"
  obtains ws where "w = PDict (zip (map PStr ss) ws)" "length ws = length vs"
    "\<And>i. i < length vs \<Longrightarrow> \<exists>d t t'. visit L (vs ! i) d t = return (ws ! i, t')"
proof -
  obtain s1 s2 ks ws s' where *: "mapping_keys L 0 (map PStr ss) s1 = return (ks, s2)"
    "visit_entries L True (zip (map PStr ss) vs) 1 s2 = return (ws, s')" "w = PDict (zip ks ws)"
    using assms by (auto simp: snapshot_of_def)
  have "ks = map PStr ss" using *(1) visit_text_keys by (auto simp: mapping_keys_def split: if_splits)
  then show ?thesis
    using that * visit_bytes(3) [OF *(2)] visit_entries_nth [OF *(2)] assms(2) by fastforce
qed

definition surface_names :: "pystr list" where
  "surface_names = map lit [''action_id'', ''request_id'', ''tool_name'', ''target'', ''payload'',
     ''side_effect_level'', ''payload_sources'', ''estimated_cost_usd'']"

lemma surface_zip:
  "authorization_surface a = PDict (zip (map PStr surface_names)
     [PStr (pa_action_id a), PStr (pa_request_id a), PStr (pa_tool_name a), PStr (pa_target a),
      pa_payload a, PEnum (side_effect_value (pa_side_effect_level a)),
      PList (map ref_object (pa_payload_sources a)), PDecimal (pa_estimated_cost_usd a)])"
  by (simp add: authorization_surface_def surface_names_def)

lemma surface_payload:
  assumes "snapshot_of L (authorization_surface a) = return surface"
  shows "\<exists>w d t t'. dict_lookup ''payload'' surface = Some w \<and> visit L (pa_payload a) d t = return (w, t')"
  using assms unfolding surface_zip
proof (rule snapshot_text_dict)
  fix ws
  assume s: "surface = PDict (zip (map PStr surface_names) ws)"
    and l: "length ws = length [PStr (pa_action_id a), PStr (pa_request_id a), PStr (pa_tool_name a),
      PStr (pa_target a), pa_payload a, PEnum (side_effect_value (pa_side_effect_level a)),
      PList (map ref_object (pa_payload_sources a)), PDecimal (pa_estimated_cost_usd a)]"
    and v: "\<And>i. i < length [PStr (pa_action_id a), PStr (pa_request_id a), PStr (pa_tool_name a),
      PStr (pa_target a), pa_payload a, PEnum (side_effect_value (pa_side_effect_level a)),
      PList (map ref_object (pa_payload_sources a)), PDecimal (pa_estimated_cost_usd a)] \<Longrightarrow>
      \<exists>d t t'. visit L ([PStr (pa_action_id a), PStr (pa_request_id a), PStr (pa_tool_name a),
      PStr (pa_target a), pa_payload a, PEnum (side_effect_value (pa_side_effect_level a)),
      PList (map ref_object (pa_payload_sources a)), PDecimal (pa_estimated_cost_usd a)] ! i) d t
        = return (ws ! i, t')"
  have "dict_lookup ''payload'' surface = Some (ws ! 4)"
    using l by (auto simp: s dict_lookup_def surface_names_def length_Suc_conv)
  then show ?thesis using v [of 4] by auto
qed (simp add: surface_names_def)

lemma snapshot_and_sha256D:
  "snapshot_and_sha256 sha L obj = return (w, h) \<Longrightarrow>
   snapshot_of L obj = return w \<and> h = lit ''sha256:'' @ sha (encode w)"
  using snapshot_hash [of L obj w sha] by (auto simp: snapshot_and_sha256_def)

text \<open>
  Sealing keeps exactly the payload it hashed, and hashing the sealed action again reproduces
  both fingerprints.
\<close>

lemma seal_fingerprints_sound:
  assumes "seal_fingerprints R a = return b" "pa_sealed a = None"
  obtains ph ah where "pa_sealed b = Some (ph, ah)"
    "snapshot_and_sha256 (rt_sha256 R) action_limits (pa_payload b) = return (pa_payload b, ph)"
    "current_authorization_hash R b = return ah"
    "validate_action_contract R a = return (b\<lparr>pa_payload := pa_payload a, pa_sealed := None\<rparr>)"
proof -
  obtain a1 payload ph surface ah retained where v: "validate_action_contract R a = return a1"
    and p: "snapshot_and_sha256 (rt_sha256 R) action_limits (pa_payload a1) = return (payload, ph)"
    and s: "snapshot_and_sha256 (rt_sha256 R) action_limits
      (authorization_surface (a1\<lparr>pa_payload := payload\<rparr>)) = return (surface, ah)"
    and r: "dict_lookup ''payload'' surface = Some retained"
    and b: "b = a1\<lparr>pa_payload := retained, pa_sealed := Some (ph, ah)\<rparr>"
    using assms by (auto simp: seal_fingerprints_def split: option.splits)
  have ps: "snapshot_of action_limits (pa_payload a1) = return payload"
    using snapshot_and_sha256D [OF p] by simp
  have pp: "snapshot_of action_limits payload = return payload"
    by (rule snapshot_idem [OF sane_action_limits ps])
  from surface_payload [OF snapshot_and_sha256D [OF s, THEN conjunct1]] r
  obtain d t t' where "visit action_limits payload d t = return (retained, t')" by auto
  with pp have ret: "retained = payload"
    by (auto simp: snapshot_of_def dest: visit_unique(1))
  have a1: "a1 = a\<lparr>pa_created_at := pa_created_at a1\<rparr>"
    using v by (auto simp: validate_action_contract_def split: if_splits)
  have e: "authorization_surface b = authorization_surface (a1\<lparr>pa_payload := payload\<rparr>)"
    by (simp add: b ret authorization_surface_def)
  show ?thesis
  proof (rule that)
    show "pa_sealed b = Some (ph, ah)" by (simp add: b)
    show "snapshot_and_sha256 (rt_sha256 R) action_limits (pa_payload b) = return (pa_payload b, ph)"
      using snapshot_hash [OF pp, of "rt_sha256 R"] snapshot_and_sha256D [OF p] by (simp add: b ret)
    show "current_authorization_hash R b = return ah"
      using s by (simp add: current_authorization_hash_def action_sha256_of_def e)
    show "validate_action_contract R a = return (b\<lparr>pa_payload := pa_payload a, pa_sealed := None\<rparr>)"
      using v a1 assms(2) by (cases a; cases a1) (simp add: b)
  qed
qed

end
