(* ===== verification/ContractProperties.thy ===== *)
theory ContractProperties
  imports ContractFacts "HOL-Library.Code_Target_Numeral"
begin

text \<open>
  The properties of actions, fingerprints and grants. \<open>example_action\<close> is an external send with one
  trusted source; \<open>example_runtime\<close> takes the text itself for its hash, which has no collisions.
\<close>

text \<open>Two texts that a hash function does not tell apart.\<close>

definition collision :: "runtime \<Rightarrow> pystr \<Rightarrow> pystr \<Rightarrow> bool" where
  "collision R x y \<longleftrightarrow> x \<noteq> y \<and> rt_sha256 R x = rt_sha256 R y"

text \<open>The canonical text an action is authorized by.\<close>

definition surface_text :: "action \<Rightarrow> pystr option" where
  "surface_text a = (case snapshot_of action_limits (authorization_surface a) of
     Inl _ \<Rightarrow> None | Inr w \<Rightarrow> Some (encode w))"

lemma current_hash_text:
  "current_authorization_hash R a = return h \<Longrightarrow>
   \<exists>t. surface_text a = Some t \<and> h = lit ''sha256:'' @ rt_sha256 R t"
  by (auto simp: current_authorization_hash_def action_sha256_of_def surface_text_def
      dest!: snapshot_and_sha256D)

lemma validate_grant_fields:
  "validate_grant R g = return g' \<Longrightarrow>
   cg_action_id g' = cg_action_id g \<and> cg_tool_name g' = cg_tool_name g
   \<and> cg_authorization_hash g' = cg_authorization_hash g \<and> cg_spent g' = cg_spent g"
  by (auto simp: validate_grant_def)

lemma spendE:
  assumes "spend R b g = return g'"
  obtains h where "\<not> cg_spent g" "cg_spent g'" "pa_action_id b = cg_action_id g"
    "pa_tool_name b = cg_tool_name g" "current_authorization_hash R b = return (cg_authorization_hash g)"
  using assms by (auto simp: spend_def split: if_splits dest!: validate_grant_fields)

definition example_runtime :: runtime where
  "example_runtime = \<lparr>rt_sha256 = \<lambda>t. t, rt_hmac = \<lambda>k t. k @ t, rt_instant = \<lambda>t. Some 0,
     rt_utc_text = \<lambda>i. lit ''t0''\<rparr>"

definition example_action :: action where
  "example_action =
     \<lparr>pa_tool_name = lit ''mail'', pa_target = lit ''ops'',
      pa_payload = PDict [(PStr (lit ''to''), PStr (lit ''a''))],
      pa_side_effect_level = ExternalSend, pa_agent_reason = [], pa_action_id = lit ''act_1'',
      pa_request_id = lit ''req_1'', pa_payload_sources =
        [\<lparr>cr_ref_id = lit ''r1'', cr_origin = lit ''user'', cr_trust = Trusted,
          cr_content_hash = lit ''sha256:1'', cr_label = []\<rparr>],
      pa_estimated_cost_usd = Fin False 15 (-1), pa_created_at = lit ''t0'', pa_sealed = None\<rparr>"

definition example_sealed :: action where
  "example_sealed = (case seal_fingerprints example_runtime example_action of
     Inr a \<Rightarrow> a | Inl _ \<Rightarrow> example_action)"

definition example_grant :: capability_grant where
  "example_grant =
     \<lparr>cg_action_id = lit ''act_1'', cg_tool_name = lit ''mail'',
      cg_authorization_hash = (case pa_sealed example_sealed of Some (_, h) \<Rightarrow> h | None \<Rightarrow> []),
      cg_evidence_record_id = lit ''evd_1'', cg_evidence_record_hash = lit ''sha256:2'',
      cg_issued_at = lit ''t0'', cg_grant_id = lit ''grant_1'', cg_signature = [], cg_spent = False\<rparr>"

lemma example_seals: "seal_fingerprints example_runtime example_action = return example_sealed"
proof -
  have "isl (seal_fingerprints example_runtime example_action) = False" by code_simp
  then show ?thesis by (auto simp: example_sealed_def split: sum.splits)
qed

lemma example_spends: "spend example_runtime example_sealed example_grant = return (example_grant\<lparr>cg_spent := True\<rparr>)"
  by code_simp

lemma worst_trusted:
  "worst_trust refs = Trusted \<longleftrightarrow> refs \<noteq> [] \<and> (\<forall>r \<in> set refs. cr_trust r = Trusted)"
proof -
  have "t = Trusted \<longleftrightarrow> t \<noteq> Untrusted \<and> t \<noteq> Derived" for t by (cases t) simp_all
  then show ?thesis by (auto simp: worst_trust_def list_ex_iff)
qed

lemma worst_untrusted: "worst_trust refs = Untrusted \<longleftrightarrow> (\<exists>r \<in> set refs. cr_trust r = Untrusted)"
  by (auto simp: worst_trust_def list_ex_iff)

text \<open>
  Sealing binds what it keeps: the sealed action hashes to both of its fingerprints when they
  are computed again from its retained fields, and sealing it again changes nothing.
\<close>

theorem sealed_action_matches_fingerprints:
  assumes "seal_fingerprints R proposed = return a" and "pa_sealed proposed = None"
  shows "action_sha256_of R (pa_payload a) = payload_hash R a
     \<and> current_authorization_hash R a = authorization_hash R a
     \<and> seal_fingerprints R a = return a \<and> payload_trust a = payload_trust proposed"
proof (rule seal_fingerprints_sound [OF assms])
  fix ph ah
  assume s: "pa_sealed a = Some (ph, ah)"
    and p: "snapshot_and_sha256 (rt_sha256 R) action_limits (pa_payload a) = return (pa_payload a, ph)"
    and h: "current_authorization_hash R a = return ah"
    and v: "validate_action_contract R proposed
      = return (a\<lparr>pa_payload := pa_payload proposed, pa_sealed := None\<rparr>)"
  have "pa_payload_sources a = pa_payload_sources proposed"
    using arg_cong [OF v, of "map_sum id pa_payload_sources"]
    by (auto simp: validate_action_contract_def bindR_def split: if_splits sum.splits)
  then show ?thesis
    using s p h by (simp add: action_sha256_of_def payload_hash_def authorization_hash_def
        seal_fingerprints_def payload_trust_def)
qed

lemma sealed_action_matches_fingerprints_witness:
  "current_authorization_hash example_runtime example_sealed
     = authorization_hash example_runtime example_sealed
   \<and> payload_trust example_sealed = Trusted"
  using sealed_action_matches_fingerprints [OF example_seals]
  by (simp add: example_action_def payload_trust_def worst_trust_def)

text \<open>
  C22: A grant opens one action once: whatever is presented to it carries the same canonical
  authorization text as the action that was sealed, or exhibits a collision of the hash, and no
  action opens it a second time.
\<close>

theorem grant_opens_sealed_action_once:
  assumes "seal_fingerprints R proposed = return a" and "pa_sealed proposed = None"
    and "authorization_hash R a = return (cg_authorization_hash g)"
    and "spend R b g = return g'"
  shows "pa_action_id b = cg_action_id g \<and> pa_tool_name b = cg_tool_name g
     \<and> (\<exists>ta tb. surface_text a = Some ta \<and> surface_text b = Some tb \<and> (tb = ta \<or> collision R tb ta))
     \<and> (\<forall>c g''. spend R c g' \<noteq> return g'')"
proof -
  have "cg_spent g'" using assms(4) by (rule spendE)
  then have once: "\<forall>c g''. spend R c g' \<noteq> return g''" by (metis spendE)
  obtain ph ah where s: "pa_sealed a = Some (ph, ah)" "current_authorization_hash R a = return ah"
    using seal_fingerprints_sound [OF assms(1,2)] by metis
  then have ah: "ah = cg_authorization_hash g" using assms(3) by (simp add: authorization_hash_def)
  obtain ta where "surface_text a = Some ta" "ah = lit ''sha256:'' @ rt_sha256 R ta"
    using current_hash_text [OF s(2)] by auto
  moreover obtain tb where "surface_text b = Some tb" "ah = lit ''sha256:'' @ rt_sha256 R tb"
    using current_hash_text ah spendE [OF assms(4)] by metis
  ultimately show ?thesis using once spendE [OF assms(4)] by (auto simp: collision_def)
qed

lemma grant_opens_sealed_action_once_witness:
  "\<forall>c g. spend example_runtime c (example_grant\<lparr>cg_spent := True\<rparr>) \<noteq> return g"
proof -
  have "authorization_hash example_runtime example_sealed = return (cg_authorization_hash example_grant)"
    by code_simp
  then show ?thesis
    using grant_opens_sealed_action_once [OF example_seals _ _ example_spends]
    by (simp add: example_action_def)
qed

text \<open>
  Untrusted input propagates: a payload is trusted only when it has sources and all of them
  are trusted, any untrusted source makes it untrusted, and sources added later never raise it.
\<close>

theorem payload_trust_propagates:
  "(worst_trust refs = Trusted \<longleftrightarrow> refs \<noteq> [] \<and> (\<forall>r \<in> set refs. cr_trust r = Trusted))
   \<and> (worst_trust refs = Untrusted \<longleftrightarrow> (\<exists>r \<in> set refs. cr_trust r = Untrusted))
   \<and> (worst_trust refs = Untrusted \<longrightarrow> worst_trust (refs @ extra) = Untrusted)
   \<and> (refs \<noteq> [] \<longrightarrow> worst_trust (refs @ extra) = Trusted \<longrightarrow> worst_trust refs = Trusted)"
  by (auto simp: worst_trusted worst_untrusted)

lemma payload_trust_propagates_witness:
  "worst_trust (pa_payload_sources example_action @ pa_payload_sources example_action) = Trusted"
  using payload_trust_propagates [of "pa_payload_sources example_action @ pa_payload_sources example_action"]
  by (simp add: example_action_def)

end
