(* ===== verification/CanonicalTokens.thy ===== *)
theory CanonicalTokens
  imports CanonicalFacts
begin

text \<open>
  Canonical JSON can be read back: a text is the encoding of at most one value, up to the order of
  mapping keys and the kinds of value that JSON does not keep apart (a tuple is a list, an
  enumeration member and a decimal are text). Text is taken to be free of surrogate code points.
\<close>

subsection \<open>String tokens\<close>

definition scalar_value :: "nat \<Rightarrow> bool" where
  "scalar_value c \<longleftrightarrow> c < 55296 \<or> 57343 < c \<and> c \<le> 1114111"

definition unicode_text :: "pystr \<Rightarrow> bool" where
  "unicode_text s \<longleftrightarrow> (\<forall>c \<in> set s. scalar_value c)"

lemma hex_digit_inj: "m < 16 \<Longrightarrow> n < 16 \<Longrightarrow> hex_digit m = hex_digit n \<Longrightarrow> m = n"
  by (simp add: hex_digit_def split: if_splits)

lemma nibbles:
  assumes "c \<le> (65535::nat)"
  shows "c = (c div 4096 mod 16) * 4096 + (c div 256 mod 16) * 256 + (c div 16 mod 16) * 16 + (c mod 16)"
proof -
  have e: "c div 256 = c div 16 div 16" "c div 4096 = c div 16 div 16 div 16"
    by (simp_all add: div_mult2_eq [symmetric])
  have "c div 16 div 16 div 16 < 16" using assms by (simp add: div_mult2_eq [symmetric])
  then have "c div 16 div 16 div 16 mod 16 = c div 16 div 16 div 16" by simp
  then show ?thesis
    unfolding e
    using div_mult_mod_eq [of c 16] div_mult_mod_eq [of "c div 16" 16]
      div_mult_mod_eq [of "c div 16 div 16" 16]
    by linarith
qed

lemma unicode_escape_inj:
  assumes "c \<le> 65535" "d \<le> 65535" "unicode_escape c @ r = unicode_escape d @ q"
  shows "c = d \<and> r = q"
proof -
  have h: "hex_digit (c div 4096 mod 16) = hex_digit (d div 4096 mod 16)"
    "hex_digit (c div 256 mod 16) = hex_digit (d div 256 mod 16)"
    "hex_digit (c div 16 mod 16) = hex_digit (d div 16 mod 16)"
    "hex_digit (c mod 16) = hex_digit (d mod 16)" and r: "r = q"
    using assms(3) by (simp_all add: unicode_escape_def)
  have "c div 4096 mod 16 = d div 4096 mod 16" "c div 256 mod 16 = d div 256 mod 16"
    "c div 16 mod 16 = d div 16 mod 16" "c mod 16 = d mod 16"
    using h by (auto intro!: hex_digit_inj)
  then have "c = d" using nibbles [OF assms(1)] nibbles [OF assms(2)] by metis
  then show ?thesis using r by simp
qed

lemma surrogates_inj:
  "(65536::nat) \<le> c \<Longrightarrow> 65536 \<le> d \<Longrightarrow> (c - 65536) div 1024 = (d - 65536) div 1024 \<Longrightarrow>
   (c - 65536) mod 1024 = (d - 65536) mod 1024 \<Longrightarrow> c = d"
  by (metis div_mod_decomp le_add_diff_inverse)

lemma short_escape_facts:
  "map_of short_escapes c = Some e \<Longrightarrow>
   (c, e) \<in> {(34, 34), (92, 92), (8, 98), (12, 102), (10, 110), (13, 114), (9, 116)}"
  "map_of short_escapes c = None \<Longrightarrow> c \<noteq> 34 \<and> c \<noteq> 92"
  by (auto simp: short_escapes_def split: if_splits)

lemma escape_char_cases:
  obtains (Short) e where "map_of short_escapes c = Some e" "escape_char c = [92, e]" "e \<noteq> 117"
  | (Plain) "escape_char c = [c]" "c \<noteq> 34" "c \<noteq> 92"
  | (Unit) "escape_char c = unicode_escape c" "c \<le> 65535"
  | (Pair) "escape_char c = unicode_escape (55296 + (c - 65536) div 1024)
        @ unicode_escape (56320 + (c - 65536) mod 1024)" "65536 \<le> c"
proof (cases "map_of short_escapes c")
  case (Some e)
  then show ?thesis using Short short_escape_facts(1) [OF Some] by (auto simp: escape_char_def)
next
  case None
  note f = short_escape_facts(2) [OF None]
  consider "32 \<le> c \<and> c \<le> 126" | "\<not> (32 \<le> c \<and> c \<le> 126)" "c \<le> 65535" | "65536 \<le> c" by linarith
  then show ?thesis
  proof cases
    case 1 then show ?thesis using None f Plain by (simp add: escape_char_def)
  next
    case 2 then show ?thesis by (intro Unit) (auto simp: escape_char_def None)
  next
    case 3 then show ?thesis by (intro Pair) (auto simp: escape_char_def None)
  qed
qed

lemma surrogate_ranges:
  assumes "scalar_value c" "65536 \<le> c"
  shows "55296 + (c - 65536) div 1024 \<le> 65535" "56320 + (c - 65536) mod 1024 \<le> 65535"
    "\<not> scalar_value (55296 + (c - 65536) div 1024)"
proof -
  have "c - 65536 < 1048576" using assms by (auto simp: scalar_value_def)
  then have "(c - 65536) div 1024 < 1024" by (simp add: less_mult_imp_div_less)
  moreover have "(c - 65536) mod 1024 < 1024" by simp
  ultimately show "55296 + (c - 65536) div 1024 \<le> 65535" "56320 + (c - 65536) mod 1024 \<le> 65535"
    "\<not> scalar_value (55296 + (c - 65536) div 1024)"
    by (simp_all only: scalar_value_def) linarith+
qed

lemma short_escape_inj:
  "map_of short_escapes c = Some e \<Longrightarrow> map_of short_escapes d = Some e \<Longrightarrow> c = d"
  by (auto dest!: short_escape_facts(1))

lemma escape_char_inj:
  assumes "scalar_value c" "scalar_value d" "escape_char c @ r = escape_char d @ q"
  shows "c = d \<and> r = q"
proof (cases c rule: escape_char_cases)
  case S: (Short e)
  show ?thesis using assms(3) S
    by (cases d rule: escape_char_cases) (auto simp: unicode_escape_def dest: short_escape_inj)
next
  case P: Plain
  show ?thesis using assms(3) P
    by (cases d rule: escape_char_cases) (auto simp: unicode_escape_def)
next
  case U: Unit
  show ?thesis
  proof (cases d rule: escape_char_cases)
    case Unit
    show ?thesis by (rule unicode_escape_inj [OF U(2) Unit(2)]) (use assms(3) U(1) Unit(1) in metis)
  next
    case Pair
    have "unicode_escape c @ r = unicode_escape (55296 + (d - 65536) div 1024)
        @ (unicode_escape (56320 + (d - 65536) mod 1024) @ q)"
      using assms(3) unfolding U(1) Pair(1) append_assoc .
    from unicode_escape_inj [OF U(2) surrogate_ranges(1) [OF assms(2) Pair(2)] this]
    have "c = 55296 + (d - 65536) div 1024" by (rule conjunct1)
    then show ?thesis using assms(1) surrogate_ranges(3) [OF assms(2) Pair(2)] by blast
  qed (use assms(3) U in \<open>auto simp: unicode_escape_def\<close>)
next
  case P: Pair
  show ?thesis
  proof (cases d rule: escape_char_cases)
    case Unit
    have "unicode_escape (55296 + (c - 65536) div 1024)
        @ (unicode_escape (56320 + (c - 65536) mod 1024) @ r) = unicode_escape d @ q"
      using assms(3) unfolding P(1) Unit(1) append_assoc .
    from unicode_escape_inj [OF surrogate_ranges(1) [OF assms(1) P(2)] Unit(2) this]
    have "55296 + (c - 65536) div 1024 = d" by (rule conjunct1)
    then show ?thesis using assms(2) surrogate_ranges(3) [OF assms(1) P(2)] by blast
  next
    case Pair
    note b = surrogate_ranges(1) [OF assms(1) P(2)] surrogate_ranges(1) [OF assms(2) Pair(2)]
      surrogate_ranges(2) [OF assms(1) P(2)] surrogate_ranges(2) [OF assms(2) Pair(2)]
    have "unicode_escape (55296 + (c - 65536) div 1024) @
        (unicode_escape (56320 + (c - 65536) mod 1024) @ r)
      = unicode_escape (55296 + (d - 65536) div 1024) @
        (unicode_escape (56320 + (d - 65536) mod 1024) @ q)"
      using assms(3) unfolding P(1) Pair(1) append_assoc .
    from unicode_escape_inj [OF b(1,2) this]
    have 1: "55296 + (c - 65536) div 1024 = 55296 + (d - 65536) div 1024"
      and 2: "unicode_escape (56320 + (c - 65536) mod 1024) @ r
        = unicode_escape (56320 + (d - 65536) mod 1024) @ q" by (rule conjunct1, rule conjunct2)
    from unicode_escape_inj [OF b(3,4) 2]
    have 3: "56320 + (c - 65536) mod 1024 = 56320 + (d - 65536) mod 1024" and 4: "r = q"
      by (rule conjunct1, rule conjunct2)
    have "c = d" by (rule surrogates_inj [OF P(2) Pair(2) add_left_imp_eq [OF 1] add_left_imp_eq [OF 3]])
    then show ?thesis using 4 by (rule conjI)
  qed (use assms(3) P in \<open>auto simp: unicode_escape_def\<close>)
qed

lemma escape_char_hd: "\<exists>x xs. escape_char c = x # xs \<and> x \<noteq> 34"
  by (cases c rule: escape_char_cases) (auto simp: unicode_escape_def)

lemma escapes_inj:
  "unicode_text s \<Longrightarrow> unicode_text t \<Longrightarrow>
   concat (map escape_char s) @ 34 # r = concat (map escape_char t) @ 34 # q \<Longrightarrow> s = t \<and> r = q"
proof (induction s arbitrary: t)
  case Nil
  show ?case
  proof (cases t)
    case (Cons d ds)
    then show ?thesis using Nil(3) escape_char_hd [of d] by auto
  qed (use Nil in simp)
next
  case (Cons c cs)
  show ?case
  proof (cases t)
    case Nil
    then show ?thesis using Cons.prems(3) escape_char_hd [of c] by auto
  next
    case d: (Cons d ds)
    have "escape_char c @ (concat (map escape_char cs) @ 34 # r)
      = escape_char d @ (concat (map escape_char ds) @ 34 # q)"
      using Cons.prems(3) d by simp
    then have "c = d \<and> concat (map escape_char cs) @ 34 # r = concat (map escape_char ds) @ 34 # q"
      using Cons.prems(1,2) d by (intro escape_char_inj) (auto simp: unicode_text_def)
    then show ?thesis using Cons.IH [of ds] Cons.prems(1,2) d by (auto simp: unicode_text_def)
  qed
qed

lemma encode_string_inj:
  "unicode_text s \<Longrightarrow> unicode_text t \<Longrightarrow> encode_string s @ r = encode_string t @ q \<Longrightarrow> s = t \<and> r = q"
  using escapes_inj [of s t r q] by (simp add: encode_string_def)


subsection \<open>Numbers\<close>

definition number_char :: "nat \<Rightarrow> bool" where
  "number_char c \<longleftrightarrow> is_digit c \<or> c \<in> {43, 45, 46, 69, 101}"

text \<open>The text of a finite float: it shows a point or an exponent, so it is never an integer's.\<close>

definition float_text :: "pystr \<Rightarrow> bool" where
  "float_text t \<longleftrightarrow> (\<forall>c \<in> set t. number_char c) \<and> (\<exists>c \<in> set t. c = 46 \<or> c = 101)
     \<and> (is_digit (hd t) \<or> hd t = 45)"

definition delimited :: "pystr \<Rightarrow> bool" where
  "delimited r \<longleftrightarrow> r = [] \<or> hd r \<in> {44, 93, 125}"

lemma number_token_inj:
  assumes "\<forall>c \<in> set s. number_char c" "\<forall>c \<in> set t. number_char c" "delimited r" "delimited q"
    "s @ r = t @ q"
  shows "s = t \<and> r = q"
proof -
  have d: "takeWhile number_char r = []" if "delimited r" for r
    using that by (cases r) (auto simp: delimited_def number_char_def is_digit_def)
  have "takeWhile number_char (s @ r) = s" "takeWhile number_char (t @ q) = t"
    using assms(1-4) d by (simp_all add: takeWhile_append2)
  then have "s = t" using assms(5) by metis
  then show ?thesis using assms(5) by simp
qed

lemma nat_digits_inj: "nat_digits m = nat_digits n \<longleftrightarrow> m = n"
  by (metis digits_val_nat_digits)

lemma digits_head: "nat_digits n \<noteq> 45 # s"
  using nat_digits_digit [of n] by (auto simp: is_digit_def)

lemma int_text_inj: "int_text i = int_text j \<Longrightarrow> i = j"
  by (auto simp: int_text_def nat_digits_inj digits_head digits_head [symmetric] split: if_splits)

lemma int_text_chars: "c \<in> set (int_text i) \<Longrightarrow> number_char c \<and> c \<noteq> 46 \<and> c \<noteq> 101"
  using nat_digits_digit [of "nat i"] nat_digits_digit [of "nat (- i)"]
  by (auto simp: int_text_def number_char_def is_digit_def split: if_splits)

lemma int_text_head: "\<exists>x xs. int_text i = x # xs \<and> (is_digit x \<or> x = 45)"
  using nat_digits_digit [of "nat i"] nat_digits_nonempty [of "nat i"]
  by (cases "nat_digits (nat i)") (auto simp: int_text_def)

lemma float_head: "float_text t \<Longrightarrow> \<exists>x xs. t = x # xs \<and> (is_digit x \<or> x = 45)"
  by (cases t) (auto simp: float_text_def)

end
