(* ===== verification/CanonicalInjective.thy ===== *)
theory CanonicalInjective
  imports CanonicalTokens
begin

text \<open>
  Canonical JSON determines its value: two values read from JSON with one encoding are equal, and
  data with text keys keeps its encoding when it is written and read back.
\<close>

subsection \<open>Separated lists\<close>

text \<open>
  A list of tokens separated by commas and closed by a bracket is read back in one way, when each
  of its tokens is.
\<close>

definition reads_back :: "('a \<Rightarrow> pystr) \<Rightarrow> 'a \<Rightarrow> 'a \<Rightarrow> bool" where
  "reads_back f x y \<longleftrightarrow>
     (\<forall>r q. delimited r \<longrightarrow> delimited q \<longrightarrow> f x @ r = f y @ q \<longrightarrow> x = y \<and> r = q)"

definition token_start :: "pystr \<Rightarrow> bool" where
  "token_start s \<longleftrightarrow> s \<noteq> [] \<and> hd s \<notin> {44, 93, 125}"

lemma reads_backD:
  "reads_back f x y \<Longrightarrow> delimited r \<Longrightarrow> delimited q \<Longrightarrow> f x @ r = f y @ q \<Longrightarrow> x = y \<and> r = q"
  by (simp add: reads_back_def)

lemma tail_reads_back:
  assumes "\<forall>x \<in> set xs. \<forall>y \<in> set ys. reads_back f x y" "c \<noteq> 44" "c \<in> {93, 125}"
    and "concat (map (\<lambda>x. 44 # f x) xs) @ c # r = concat (map (\<lambda>y. 44 # f y) ys) @ c # q"
  shows "xs = ys \<and> r = q"
  using assms
proof (induction xs arbitrary: ys)
  case Nil
  then show ?case by (cases ys) auto
next
  case (Cons x xs)
  then obtain y zs where ys: "ys = y # zs" by (cases ys) auto
  have d: "delimited (concat (map (\<lambda>x. 44 # f x) vs) @ c # t)" for vs t
    using Cons.prems(3) by (cases vs) (auto simp: delimited_def)
  have "f x @ (concat (map (\<lambda>x. 44 # f x) xs) @ c # r)
      = f y @ (concat (map (\<lambda>y. 44 # f y) zs) @ c # q)"
    using Cons.prems(4) ys by simp
  then have "x = y \<and> concat (map (\<lambda>x. 44 # f x) xs) @ c # r = concat (map (\<lambda>y. 44 # f y) zs) @ c # q"
    using Cons.prems(1) ys d by (intro reads_backD) simp_all
  then show ?case using Cons.IH [of zs] Cons.prems(1-3) ys by simp
qed

lemma join_reads_back:
  assumes "\<forall>x \<in> set xs. \<forall>y \<in> set ys. reads_back f x y" "c \<in> {93, 125}"
    and "\<forall>x \<in> set xs. token_start (f x)" "\<forall>y \<in> set ys. token_start (f y)"
    and "join_with comma (map f xs) @ c # r = join_with comma (map f ys) @ c # q"
  shows "xs = ys \<and> r = q"
proof -
  have j: "join_with comma (map f (z # zs)) = f z @ concat (map (\<lambda>x. 44 # f x) zs)" for z zs
    by (simp add: join_with_def comma_def o_def)
  have n: "join_with comma (map f []) = []" by (simp add: join_with_def)
  have c: "c \<noteq> 44" using assms(2) by auto
  show ?thesis
  proof (cases xs)
    case Nil
    then show ?thesis using assms(2,4,5) n j by (cases ys) (auto simp: token_start_def neq_Nil_conv)
  next
    case x: (Cons x xs')
    show ?thesis
    proof (cases ys)
      case Nil
      then show ?thesis using assms(2,3,5) n j x by (auto simp: token_start_def neq_Nil_conv)
    next
      case (Cons y ys')
      have "concat (map (\<lambda>x. 44 # f x) xs) @ c # r = concat (map (\<lambda>y. 44 # f y) ys) @ c # q"
        using assms(5) unfolding x Cons j by simp
      then show ?thesis using tail_reads_back [OF assms(1) c assms(2)] by blast
    qed
  qed
qed

subsection \<open>Values read from JSON\<close>

fun json_value :: "pyval \<Rightarrow> bool" where
  "json_value PNone = True"
| "json_value (PBool b) = True"
| "json_value (PInt i) = True"
| "json_value (PFloat t) = float_text t"
| "json_value (PStr s) = unicode_text s"
| "json_value (PList vs) = list_all json_value vs"
| "json_value (PDict kvs) =
     (list_all (\<lambda>(k, v). (case k of PStr s \<Rightarrow> unicode_text s | _ \<Rightarrow> False) \<and> json_value v) kvs
      \<and> sorted_wrt (\<lambda>p q. key_less (fst p) (fst q)) kvs)"
| "json_value _ = False"

lemma sort_sorted_items:
  "sorted_wrt (\<lambda>p q. key_less (fst p) (fst q)) ps \<Longrightarrow>
   \<forall>p \<in> set ps. \<forall>q \<in> set ps. key_less (fst p) (fst q) \<longrightarrow> \<not> key_less (fst q) (fst p) \<Longrightarrow>
   sort_items ps = ps"
proof (induction ps)
  case (Cons p ps)
  then have "sort_items ps = ps" by simp
  then show ?case using Cons.prems by (cases ps) (auto simp: sort_items_def)
qed (simp add: sort_items_def)

lemma key_less_text [simp]: "key_less (PStr s) (PStr t) \<longleftrightarrow> s < t"
  by (simp add: key_less_def key_text_def)

definition entry_text :: "pyval \<times> pyval \<Rightarrow> pystr" where
  "entry_text kv = encode_key (fst kv) @ [58] @ encode (snd kv)"

lemma encode_sorted_dict:
  assumes "json_value (PDict kvs)"
  shows "encode (PDict kvs) = [123] @ join_with comma (map entry_text kvs) @ [125]"
proof -
  let ?ps = "map (\<lambda>(k, v). (k, encode v)) kvs"
  have k: "\<forall>p \<in> set kvs. \<exists>s. fst p = PStr s"
    using assms by (fastforce simp: list_all_iff split: pyval.splits)
  have kp: "\<exists>s. fst p = PStr s" if "p \<in> set ?ps" for p
  proof -
    from that obtain q where "q \<in> set kvs" "fst p = fst q" by auto
    then show ?thesis using k by metis
  qed
  have "sort_items ?ps = ?ps"
  proof (rule sort_sorted_items)
    show "sorted_wrt (\<lambda>p q. key_less (fst p) (fst q)) ?ps"
      using assms by (simp add: sorted_wrt_map case_prod_beta)
    show "\<forall>p \<in> set ?ps. \<forall>q \<in> set ?ps. key_less (fst p) (fst q) \<longrightarrow> \<not> key_less (fst q) (fst p)"
    proof (intro ballI impI)
      fix p q assume "p \<in> set ?ps" "q \<in> set ?ps" "key_less (fst p) (fst q)"
      moreover obtain s t where "fst p = PStr s" "fst q = PStr t"
        using kp [OF \<open>p \<in> _\<close>] kp [OF \<open>q \<in> _\<close>] by metis
      ultimately show "\<not> key_less (fst q) (fst p)" by auto
    qed
  qed
  moreover have "map (\<lambda>(k, t). encode_key k @ [58] @ t) ?ps = map entry_text kvs"
    by (auto simp: entry_text_def)
  ultimately show ?thesis by (simp del: map_map)
qed

lemma encode_string_start: "\<exists>xs. encode_string s = 34 # xs"
  by (simp add: encode_string_def)

lemma encode_head:
  "json_value v \<Longrightarrow> \<exists>x xs. encode v = x # xs \<and>
     (case v of PNone \<Rightarrow> x = 110 | PBool b \<Rightarrow> x = (if b then 116 else 102)
      | PInt _ \<Rightarrow> is_digit x \<or> x = 45 | PFloat _ \<Rightarrow> is_digit x \<or> x = 45
      | PStr _ \<Rightarrow> x = 34 | PList _ \<Rightarrow> x = 91 | PDict _ \<Rightarrow> x = 123 | _ \<Rightarrow> False)"
  using int_text_head float_head encode_string_start encode_sorted_dict
  by (cases v) (auto simp: lit_def)

lemma encode_token_start: "json_value v \<Longrightarrow> token_start (encode v)"
  using encode_head [of v]
  by (cases v) (auto simp: token_start_def is_digit_def split: if_splits)


lemma number_reads:
  assumes "json_value v" "json_value w" "delimited r" "delimited q" "encode v @ r = encode w @ q"
    and "v = PInt i \<or> v = PFloat t"
  shows "v = w \<and> r = q"
proof -
  have w: "(\<exists>j. w = PInt j) \<or> (\<exists>u. w = PFloat u)"
    using encode_head [OF assms(1)] encode_head [OF assms(2)] assms(5,6)
    by (cases w) (auto simp: is_digit_def split: if_splits)
  have c: "\<forall>c \<in> set (encode x). number_char c" if "json_value x" "(\<exists>j. x = PInt j) \<or> (\<exists>u. x = PFloat u)" for x
    using that int_text_chars by (auto simp: float_text_def)
  have "encode v = encode w \<and> r = q"
    using c [OF assms(1)] c [OF assms(2) w] assms(6) by (intro number_token_inj assms(3-5)) auto
  moreover have "\<not> float_text (int_text j)" for j
    using int_text_chars by (fastforce simp: float_text_def)
  ultimately show ?thesis
    using assms(1,2,6) w by (auto dest: int_text_inj)
qed

lemma entry_reads_back:
  assumes "unicode_text s" "unicode_text t" "reads_back encode v w"
  shows "reads_back entry_text (PStr s, v) (PStr t, w)"
  unfolding reads_back_def
proof (intro allI impI)
  fix r q assume d: "delimited r" "delimited q"
    and e: "entry_text (PStr s, v) @ r = entry_text (PStr t, w) @ q"
  have "encode_string s @ (58 # encode v @ r) = encode_string t @ (58 # encode w @ q)"
    using e by (simp add: entry_text_def encode_key_def)
  from encode_string_inj [OF assms(1,2) this] have "s = t" "encode v @ r = encode w @ q" by auto
  then show "(PStr s, v) = (PStr t, w) \<and> r = q" using reads_backD [OF assms(3) d] by simp
qed

lemma json_entries:
  assumes "json_value (PDict kvs)" "kv \<in> set kvs"
  obtains s where "fst kv = PStr s" "unicode_text s" "json_value (snd kv)"
  using assms by (cases "fst kv") (auto simp: list_all_iff split: pyval.splits)

lemma entry_start: "json_value (PDict kvs) \<Longrightarrow> kv \<in> set kvs \<Longrightarrow> token_start (entry_text kv)"
  by (erule (1) json_entries) (simp add: entry_text_def encode_key_def encode_string_def token_start_def)

text \<open>Two values of JSON with the same encoding, each followed by a delimiter, are one value.\<close>

lemma encode_reads_back: "json_value v \<Longrightarrow> json_value w \<Longrightarrow> reads_back encode v w"
proof (induction v arbitrary: w)
  case (PList vs)
  show ?case unfolding reads_back_def
  proof (intro allI impI)
    fix r q assume d: "delimited r" "delimited q" and e: "encode (PList vs) @ r = encode w @ q"
    obtain ws where w: "w = PList ws"
      using encode_head [OF PList.prems(1)] encode_head [OF PList.prems(2)] e
      by (cases w) (auto simp: is_digit_def split: if_splits)
    have "vs = ws \<and> r = q"
    proof (rule join_reads_back [where f = encode and c = 93])
      show "\<forall>x \<in> set vs. \<forall>y \<in> set ws. reads_back encode x y"
        using PList w by (simp add: list_all_iff)
      show "\<forall>x \<in> set vs. token_start (encode x)" "\<forall>x \<in> set ws. token_start (encode x)"
        using PList.prems w by (simp_all add: list_all_iff encode_token_start)
      show "join_with comma (map encode vs) @ 93 # r = join_with comma (map encode ws) @ 93 # q"
        using e w by simp
    qed simp
    then show "PList vs = w \<and> r = q" using w by simp
  qed
next
  case (PDict kvs)
  show ?case unfolding reads_back_def
  proof (intro allI impI)
    fix r q assume d: "delimited r" "delimited q" and e: "encode (PDict kvs) @ r = encode w @ q"
    obtain lws where w: "w = PDict lws"
      using encode_head [OF PDict.prems(1)] encode_head [OF PDict.prems(2)] e
      by (cases w) (auto simp: is_digit_def split: if_splits)
    have "kvs = lws \<and> r = q"
    proof (rule join_reads_back [where f = entry_text and c = 125])
      show "\<forall>x \<in> set kvs. \<forall>y \<in> set lws. reads_back entry_text x y"
      proof (intro ballI)
        fix x y assume x: "x \<in> set kvs" and y: "y \<in> set lws"
        obtain s where s: "fst x = PStr s" "unicode_text s" "json_value (snd x)"
          by (rule json_entries [OF PDict.prems(1) x])
        obtain t where t: "fst y = PStr t" "unicode_text t" "json_value (snd y)"
          by (rule json_entries [OF PDict.prems(2) [unfolded w] y])
        have "snd x \<in> Basic_BNFs.snds x" by (cases x) simp
        then have "reads_back encode (snd x) (snd y)"
          by (rule PDict.IH [OF x _ s(3) t(3)])
        from entry_reads_back [OF s(2) t(2) this] show "reads_back entry_text x y"
          using s(1) t(1) by (metis prod.collapse)
      qed
      show "\<forall>x \<in> set kvs. token_start (entry_text x)" "\<forall>x \<in> set lws. token_start (entry_text x)"
        using entry_start [OF PDict.prems(1)] entry_start [OF PDict.prems(2) [unfolded w]] by blast+
      show "join_with comma (map entry_text kvs) @ 125 # r = join_with comma (map entry_text lws) @ 125 # q"
        using e unfolding w encode_sorted_dict [OF PDict.prems(1)]
          encode_sorted_dict [OF PDict.prems(2) [unfolded w]] by simp
    qed simp
    then show "PDict kvs = w \<and> r = q" using w by simp
  qed
next
  case (PInt i)
  then show ?case using number_reads unfolding reads_back_def by blast
next
  case (PFloat t)
  then show ?case using number_reads unfolding reads_back_def by blast
next
  case (PStr s)
  show ?case unfolding reads_back_def
  proof (intro allI impI)
    fix r q assume e: "encode (PStr s) @ r = encode w @ q"
    obtain t where w: "w = PStr t"
      using encode_head [OF PStr(1)] encode_head [OF PStr(2)] e
      by (cases w) (auto simp: is_digit_def split: if_splits)
    have "s = t \<and> r = q" using PStr e w by (intro encode_string_inj) simp_all
    then show "PStr s = w \<and> r = q" using w by simp
  qed
next
  case PNone
  show ?case unfolding reads_back_def
    using encode_head [OF PNone(2)]
    by (cases w) (auto simp: lit_def is_digit_def split: if_splits)
next
  case (PBool b)
  show ?case unfolding reads_back_def
    using encode_head [OF PBool(2)]
    by (cases w) (auto simp: lit_def is_digit_def split: if_splits)
qed simp_all

lemma encode_json_inj: "json_value v \<Longrightarrow> json_value w \<Longrightarrow> encode v = encode w \<Longrightarrow> v = w"
  using reads_backD [OF encode_reads_back, of v w "[]" "[]"] by (simp add: delimited_def)

subsection \<open>Writing a value and reading it back\<close>

text \<open>
  What \<open>json.loads\<close> returns for the text \<open>json.dumps(..., sort_keys=True)\<close> writes: tuples become
  lists, enumeration members and decimals become text, and every key becomes text, after the
  entries were put in the order of the original keys.
\<close>

definition key_name :: "pyval \<Rightarrow> pystr" where
  "key_name k = (case k of
     PStr s \<Rightarrow> s | PEnum s \<Rightarrow> s | PNone \<Rightarrow> lit ''null''
   | PBool b \<Rightarrow> (if b then lit ''true'' else lit ''false'')
   | PInt i \<Rightarrow> int_text i | PFloat t \<Rightarrow> t | _ \<Rightarrow> [])"

fun json_reload :: "pyval \<Rightarrow> pyval" where
  "json_reload (PEnum s) = PStr s"
| "json_reload (PDecimal d) = PStr (decimal_text d)"
| "json_reload (PList vs) = PList (map json_reload vs)"
| "json_reload (PTuple vs) = PList (map json_reload vs)"
| "json_reload (PDict kvs) =
     PDict (map (\<lambda>(k, w). (PStr (key_name k), w))
       (sort_items (map (\<lambda>(k, v). (k, json_reload v)) kvs)))"
| "json_reload v = v"

text \<open>Data whose keys are distinct text and whose numbers are finite.\<close>

definition text_key :: "pyval \<Rightarrow> bool" where
  "text_key k \<longleftrightarrow> (case k of PStr s \<Rightarrow> unicode_text s | PEnum s \<Rightarrow> unicode_text s | _ \<Rightarrow> False)"

fun json_data :: "pyval \<Rightarrow> bool" where
  "json_data PNone = True"
| "json_data (PBool b) = True"
| "json_data (PInt i) = True"
| "json_data (PFloat t) = float_text t"
| "json_data (PStr s) = unicode_text s"
| "json_data (PEnum s) = unicode_text s"
| "json_data (PDecimal d) = unicode_text (decimal_text d)"
| "json_data (PList vs) = list_all json_data vs"
| "json_data (PTuple vs) = list_all json_data vs"
| "json_data (PDict kvs) =
     (list_all (\<lambda>(k, v). text_key k \<and> json_data v) kvs \<and> distinct (map (key_name \<circ> fst) kvs))"
| "json_data _ = False"

lemma text_keyE:
  assumes "text_key k"
  obtains "key_text k = Some (key_name k)" "unicode_text (key_name k)" "encode_key k = encode_string (key_name k)"
  using assms by (cases k) (auto simp: text_key_def key_text_def key_name_def encode_key_def)

lemma text_key_less: "text_key k \<Longrightarrow> text_key l \<Longrightarrow> key_less k l \<longleftrightarrow> key_name k < key_name l"
  by (auto simp: key_less_def elim!: text_keyE)

lemma insert_item_map:
  "\<forall>q \<in> set qs. key_less (fst (g q)) (fst (g p)) \<longleftrightarrow> key_less (fst q) (fst p) \<Longrightarrow>
   insert_item (g p) (map g qs) = map g (insert_item p qs)"
  by (induction qs) auto

lemma set_insert_item [simp]: "set (insert_item p qs) = insert p (set qs)"
  by (induction qs) auto

lemma set_sort_items [simp]: "set (sort_items ps) = set ps"
  by (induction ps) (auto simp: sort_items_def)

lemma sort_items_map:
  "\<forall>p \<in> set ps. \<forall>q \<in> set ps. key_less (fst (g q)) (fst (g p)) \<longleftrightarrow> key_less (fst q) (fst p) \<Longrightarrow>
   sort_items (map g ps) = map g (sort_items ps)"
proof (induction ps)
  case (Cons p ps)
  then have ih: "sort_items (map g ps) = map g (sort_items ps)" by simp
  have "sort_items (map g (p # ps)) = insert_item (g p) (sort_items (map g ps))"
    by (simp add: sort_items_def)
  also have "\<dots> = map g (insert_item p (sort_items ps))"
    unfolding ih using Cons.prems by (intro insert_item_map) simp
  finally show ?case by (simp add: sort_items_def)
qed (simp add: sort_items_def)

abbreviation sorted_items :: "(pyval \<times> 'a) list \<Rightarrow> bool" where
  "sorted_items \<equiv> sorted_wrt (\<lambda>p q. key_name (fst p) < key_name (fst q))"

lemma insert_item_sorted:
  "sorted_items qs \<Longrightarrow> text_key (fst p) \<Longrightarrow>
   \<forall>q \<in> set qs. text_key (fst q) \<and> key_name (fst q) \<noteq> key_name (fst p) \<Longrightarrow>
   sorted_items (insert_item p qs)"
proof (induction qs)
  case (Cons q qs)
  then show ?case
    by (auto simp: text_key_less intro: order.strict_trans)
qed simp

lemma sort_items_sorted:
  "\<forall>p \<in> set ps. text_key (fst p) \<Longrightarrow> distinct (map (key_name \<circ> fst) ps) \<Longrightarrow> sorted_items (sort_items ps)"
proof (induction ps)
  case (Cons p ps)
  then have "sorted_items (insert_item p (sort_items ps))"
    by (intro insert_item_sorted) (auto simp: image_iff)
  then show ?case by (simp add: sort_items_def)
qed (simp add: sort_items_def)

lemma key_name_PStr [simp]: "key_name (PStr s) = s"
  by (simp add: key_name_def)

lemma json_reload_dict:
  assumes d: "json_data (PDict kvs)"
    and v: "\<And>kv. kv \<in> set kvs \<Longrightarrow>
      json_value (json_reload (snd kv)) \<and> encode (json_reload (snd kv)) = encode (snd kv)"
  shows "json_value (json_reload (PDict kvs)) \<and> encode (json_reload (PDict kvs)) = encode (PDict kvs)"
proof -
  define ps where "ps = sort_items kvs"
  have k: "text_key (fst kv)" if "kv \<in> set kvs" for kv
    using d that by (auto simp: list_all_iff)
  have ek: "encode_key (fst kv) = encode_string (key_name (fst kv))" if "kv \<in> set kvs" for kv
    using k [OF that] by (rule text_keyE)
  have s: "sorted_items ps" unfolding ps_def by (rule sort_items_sorted) (use d k in simp_all)
  have ps: "set ps = set kvs" by (simp add: ps_def)
  have r: "sort_items (map (\<lambda>(k, v). (k, f v)) kvs) = map (\<lambda>(k, v). (k, f v)) ps" for f :: "pyval \<Rightarrow> 'b"
    unfolding ps_def by (rule sort_items_map) auto
  let ?es = "map (\<lambda>(k, v). (PStr (key_name k), json_reload v)) ps"
  have e: "json_reload (PDict kvs) = PDict ?es" by (simp add: r case_prod_beta comp_def)
  have j: "json_value (PDict ?es)"
    using s k v unfolding json_value.simps
    by (auto simp: list_all_iff ps sorted_wrt_map case_prod_beta elim!: text_keyE)
  have t: "map entry_text ?es = map (\<lambda>(k, t). encode_key k @ [58] @ t) (map (\<lambda>(k, v). (k, encode v)) ps)"
    using v ek by (force simp: ps entry_text_def encode_key_def [of "PStr _"])
  have "encode (PDict ?es) = encode (PDict kvs)"
    unfolding encode_sorted_dict [OF j] t by (simp add: r)
  then show ?thesis using j e by metis
qed

text \<open>
  Such data keeps its encoding when it is written and read back, and what is read back is a value
  the encoding determines.
\<close>

lemma json_reload_sound:
  "json_data v \<Longrightarrow> json_value (json_reload v) \<and> encode (json_reload v) = encode v"
proof (induction v)
  case (PList vs)
  then show ?case by (auto simp: list_all_iff cong: map_cong)
next
  case (PTuple vs)
  then show ?case by (auto simp: list_all_iff cong: map_cong)
next
  case (PDict kvs)
  show ?case
  proof (rule json_reload_dict [OF PDict.prems])
    fix kv assume kv: "kv \<in> set kvs"
    have "snd kv \<in> Basic_BNFs.snds kv" by (cases kv) simp
    moreover have "json_data (snd kv)" using PDict.prems kv by (auto simp: list_all_iff)
    ultimately show "json_value (json_reload (snd kv)) \<and> encode (json_reload (snd kv)) = encode (snd kv)"
      using PDict.IH [OF kv] by blast
  qed
qed simp_all

lemma encode_data_inj:
  assumes "json_data v" "json_data w" "encode v = encode w"
  shows "json_reload v = json_reload w"
  using assms json_reload_sound [of v] json_reload_sound [of w] encode_json_inj by metis

text \<open>The entries of a mapping that is written and read back, found by their key.\<close>

lemma json_reload_entry:
  assumes "json_reload (PDict kvs) = json_reload (PDict lws)" "(k, v) \<in> set kvs"
  obtains l w where "(l, w) \<in> set lws" "key_name l = key_name k" "json_reload w = json_reload v"
proof -
  have s: "set (map (\<lambda>(k, w). (PStr (key_name k), w)) (sort_items (map (\<lambda>(k, v). (k, json_reload v)) xs)))
      = (\<lambda>(k, v). (PStr (key_name k), json_reload v)) ` set xs" for xs
    by (force simp: image_image)
  have "(\<lambda>(k, v). (PStr (key_name k), json_reload v)) ` set kvs
      = (\<lambda>(k, v). (PStr (key_name k), json_reload v)) ` set lws"
    using assms(1) s [of kvs] s [of lws] by simp
  then have "(PStr (key_name k), json_reload v) \<in> (\<lambda>(k, v). (PStr (key_name k), json_reload v)) ` set lws"
    using assms(2) by (metis (no_types, lifting) case_prod_conv imageI)
  then show ?thesis using that by auto
qed

lemma json_reload_field:
  assumes "json_reload (PDict kvs) = json_reload (PDict lws)"
    and "(PStr s, v) \<in> set kvs" "(PStr s, w) \<in> set lws" "distinct (map fst lws)" "\<forall>p \<in> set lws. \<exists>t. fst p = PStr t"
  shows "json_reload v = json_reload w"
proof -
  obtain l u where *: "(l, u) \<in> set lws" "key_name l = s" "json_reload u = json_reload v"
    using json_reload_entry [OF assms(1,2)] by auto
  then have "l = PStr s" using assms(5) by fastforce
  then have "u = w" using *(1) assms(3,4) by (metis map_of_is_SomeI option.inject)
  then show ?thesis using *(3) by simp
qed

end
