(* ===== verification/AuthorityProperties.thy ===== *)
theory AuthorityProperties
  imports CanonicalInjective CanonicalProperties ContractProperties
begin

text \<open>
  What a canonical hash binds: the value it was taken of, and for an authorization hash every field
  of the action.
\<close>


lemma enum_safe_encode:
  "enum_safe v = return u \<Longrightarrow> encode u = encode v"
  "enum_safe_items vs = return us \<Longrightarrow> map encode us = map encode vs"
  "enum_safe_entries kvs = return es \<Longrightarrow> map (\<lambda>(k, v). (k, encode v)) es = map (\<lambda>(k, v). (k, encode v)) kvs"
proof (induction v and vs and kvs arbitrary: u and us and es rule: enum_safe_enum_safe_items_enum_safe_entries.induct)
  case (5 d)
  then show ?case by (auto simp: money_text_def money_decimal_iff)
qed (auto simp del: map_map simp: case_prod_beta)

lemma ref_object_inj: "json_reload (ref_object r) = json_reload (ref_object q) \<Longrightarrow> r = q"
proof -
  assume a: "json_reload (ref_object r) = json_reload (ref_object q)"
  note f = json_reload_field [OF a [unfolded ref_object_def]]
  have "cr_ref_id r = cr_ref_id q"
    using f [of "lit ''ref_id''" "PStr (cr_ref_id r)" "PStr (cr_ref_id q)"] by (simp add: lit_def)
  moreover have "cr_origin r = cr_origin q"
    using f [of "lit ''origin''" "PStr (cr_origin r)" "PStr (cr_origin q)"] by (simp add: lit_def)
  moreover have "cr_trust r = cr_trust q"
    using f [of "lit ''trust''" "PEnum (trust_value (cr_trust r))" "PEnum (trust_value (cr_trust q))"]
    by (simp add: lit_def)
  moreover have "cr_content_hash r = cr_content_hash q"
    using f [of "lit ''content_hash''" "PStr (cr_content_hash r)" "PStr (cr_content_hash q)"] by (simp add: lit_def)
  moreover have "cr_label r = cr_label q"
    using f [of "lit ''label''" "PStr (cr_label r)" "PStr (cr_label q)"] by (simp add: lit_def)
  ultimately show "r = q" by simp
qed

text \<open>The fields an approval and a grant are bound to, as they are read back.\<close>

definition same_authority :: "action \<Rightarrow> action \<Rightarrow> bool" where
  "same_authority a b \<longleftrightarrow>
     pa_action_id a = pa_action_id b \<and> pa_request_id a = pa_request_id b
     \<and> pa_tool_name a = pa_tool_name b \<and> pa_target a = pa_target b
     \<and> json_reload (pa_payload a) = json_reload (pa_payload b)
     \<and> pa_side_effect_level a = pa_side_effect_level b
     \<and> pa_payload_sources a = pa_payload_sources b
     \<and> decimal_text (pa_estimated_cost_usd a) = decimal_text (pa_estimated_cost_usd b)"

lemma surface_determines_action:
  assumes a: "json_reload (authorization_surface a) = json_reload (authorization_surface b)"
  shows "same_authority a b"
proof -
  note f = json_reload_field [OF a [unfolded authorization_surface_def]]
  have "pa_action_id a = pa_action_id b"
    using f [of "lit ''action_id''" "PStr (pa_action_id a)" "PStr (pa_action_id b)"] by (simp add: lit_def)
  moreover have "pa_request_id a = pa_request_id b"
    using f [of "lit ''request_id''" "PStr (pa_request_id a)" "PStr (pa_request_id b)"] by (simp add: lit_def)
  moreover have "pa_tool_name a = pa_tool_name b"
    using f [of "lit ''tool_name''" "PStr (pa_tool_name a)" "PStr (pa_tool_name b)"] by (simp add: lit_def)
  moreover have "pa_target a = pa_target b"
    using f [of "lit ''target''" "PStr (pa_target a)" "PStr (pa_target b)"] by (simp add: lit_def)
  moreover have "json_reload (pa_payload a) = json_reload (pa_payload b)"
    using f [of "lit ''payload''" "pa_payload a" "pa_payload b"] by (simp add: lit_def)
  moreover have "pa_side_effect_level a = pa_side_effect_level b"
    using f [of "lit ''side_effect_level''" "PEnum (side_effect_value (pa_side_effect_level a))"
        "PEnum (side_effect_value (pa_side_effect_level b))"] by (simp add: lit_def)
  moreover have "map (json_reload \<circ> ref_object) (pa_payload_sources a)
      = map (json_reload \<circ> ref_object) (pa_payload_sources b)"
    using f [of "lit ''payload_sources''" "PList (map ref_object (pa_payload_sources a))"
        "PList (map ref_object (pa_payload_sources b))"] by (simp add: lit_def)
  then have "pa_payload_sources a = pa_payload_sources b"
    by (rule map_injective) (auto simp: inj_def dest: ref_object_inj)
  moreover have "decimal_text (pa_estimated_cost_usd a) = decimal_text (pa_estimated_cost_usd b)"
    using f [of "lit ''estimated_cost_usd''" "PDecimal (pa_estimated_cost_usd a)"
        "PDecimal (pa_estimated_cost_usd b)"] by (simp add: lit_def)
  ultimately show ?thesis by (simp add: same_authority_def)
qed

text \<open>An action whose text has no surrogates, whose keys are text and whose amounts are money.\<close>

definition plain_action :: "action \<Rightarrow> bool" where
  "plain_action a \<longleftrightarrow> json_data (authorization_surface a) \<and> no_negative_zero (authorization_surface a)
     \<and> \<not> isl (enum_safe (authorization_surface a))"

lemma plain_surface_text:
  assumes "plain_action a" "surface_text a = Some t"
  shows "t = encode (authorization_surface a)"
proof -
  obtain u where u: "enum_safe (authorization_surface a) = return u"
    using assms(1) by (cases "enum_safe (authorization_surface a)") (auto simp: plain_action_def)
  obtain w s where "visit action_limits (authorization_surface a) 0 start_state = return (w, s)" "t = encode w"
    using assms(2) by (auto simp: surface_text_def snapshot_of_def bindR_def split: sum.splits)
  then show ?thesis
    using visit_enum_safe(1) [OF _ u] enum_safe_encode(1) [OF u] assms(1) by (metis plain_action_def)
qed

lemma plain_surface_inj:
  assumes "plain_action a" "plain_action b" "surface_text a = Some t" "surface_text b = Some t"
  shows "same_authority a b"
  using assms plain_surface_text encode_data_inj surface_determines_action
  unfolding plain_action_def by metis

text \<open>
  C10: An authorization hash binds the whole action: two actions with one authorization hash, whose
  surfaces are JSON data (texts without surrogates, distinct text keys) with valid amounts and no negative
  zero among their numbers, have the same id, request, tool, target, payload, side effect, provenance and
  cost, or the authorization texts of the two are a collision of SHA-256. Only fields outside the surface
  (the agent's reason, the time) may differ.
\<close>

theorem authorization_hash_binds_action:
  assumes "current_authorization_hash R a = return h" and "current_authorization_hash R b = return h"
    and "plain_action a" and "plain_action b"
  shows "\<exists>s t. surface_text a = Some s \<and> surface_text b = Some t \<and> (same_authority a b \<or> collision R s t)"
proof -
  obtain s t where st: "surface_text a = Some s" "surface_text b = Some t" "rt_sha256 R s = rt_sha256 R t"
    using current_hash_text [OF assms(1)] current_hash_text [OF assms(2)] by auto
  then have "same_authority a b \<or> collision R s t"
    using plain_surface_inj [OF assms(3,4)] by (cases "s = t") (auto simp: collision_def)
  then show ?thesis using st by blast
qed

lemma authorization_hash_binds_action_witness:
  "same_authority example_action (example_action\<lparr>pa_agent_reason := lit ''why''\<rparr>)"
proof -
  have e: "authorization_surface (example_action\<lparr>pa_agent_reason := lit ''why''\<rparr>)
      = authorization_surface example_action" by (simp add: authorization_surface_def)
  have "isl (current_authorization_hash example_runtime example_action) = False" by code_simp
  then obtain h where h: "current_authorization_hash example_runtime example_action = return h"
    by (cases "current_authorization_hash example_runtime example_action") auto
  have p: "plain_action example_action" by code_simp
  have "\<exists>s t. surface_text example_action = Some s \<and> surface_text (example_action\<lparr>pa_agent_reason := lit ''why''\<rparr>) = Some t
      \<and> (same_authority example_action (example_action\<lparr>pa_agent_reason := lit ''why''\<rparr>) \<or> collision example_runtime s t)"
    by (rule authorization_hash_binds_action [OF h])
      (use h p e in \<open>simp_all add: current_authorization_hash_def plain_action_def\<close>)
  then show ?thesis by (simp add: collision_def example_runtime_def)
qed

text \<open>
  C23: Canonical JSON can be read back: data with text keys keeps its canonical text when it is
  written and parsed again, and two such values with one canonical text parse to the same value.
\<close>

theorem canonical_json_roundtrip:
  assumes "json_data v" and "json_data w"
  shows "encode (json_reload v) = encode v
     \<and> (encode v = encode w \<longleftrightarrow> json_reload v = json_reload w)"
proof -
  have v: "encode (json_reload v) = encode v" and w: "encode (json_reload w) = encode w"
    using json_reload_sound assms by simp_all
  have "encode v = encode w" if "json_reload v = json_reload w"
    using v w that by simp
  then show ?thesis using v encode_data_inj [OF assms] by blast
qed

lemma canonical_json_roundtrip_witness:
  "encode (json_reload example_value) = encode example_value"
proof -
  have "json_data (PDecimal (Fin False 150 (-2)))" by code_simp
  then have "json_data example_value"
    by (simp add: example_value_def text_key_def key_name_def lit_def unicode_text_def scalar_value_def)
  from canonical_json_roundtrip [OF this this] show ?thesis by (rule conjunct1)
qed

text \<open>
  Numeric keys break the round trip: the snapshot accepts a mapping with the keys 2.0 and 10.0 and
  encodes them in the order of the numbers, but the value parsed from that text has text keys and
  encodes in the other order, so its hash is not the hash that was taken.
\<close>

theorem numeric_keys_change_on_reload:
  "\<exists>v w. snapshot_of action_limits v = return w \<and> encode (json_reload w) \<noteq> encode w"
proof (intro exI conjI)
  let ?v = "PDict [(PFloat (lit ''2.0''), PNone), (PFloat (lit ''10.0''), PNone)]"
  show "snapshot_of action_limits ?v = return ?v" by code_simp
  have r: "json_reload ?v = PDict [(PStr (lit ''2.0''), PNone), (PStr (lit ''10.0''), PNone)]" by code_simp
  have n: "encode (PDict [(PStr (lit ''2.0''), PNone), (PStr (lit ''10.0''), PNone)]) \<noteq> encode ?v" by code_simp
  show "encode (json_reload ?v) \<noteq> encode ?v" unfolding r by (rule n)
qed

end
