(* ===== verification/ApprovalRecord.thy ===== *)
theory ApprovalRecord
  imports CanonicalInjective ContractFacts
begin

text \<open>
  One approval (\<open>PendingApproval\<close> of \<open>approvals/store.py\<close>): the record an operator decides on, its
  validation whenever it is read, built or updated, and the contracts it holds. The snapshots of
  the action, the request and the decision are held as the contracts they are parsed into; an
  attestation is a JSON object.
\<close>

datatype approval_status = Pending | Approved | Rejected | Expired | Executing | Consumed

definition approval_status_value :: "approval_status \<Rightarrow> pystr" where
  "approval_status_value s = (case s of
     Pending \<Rightarrow> lit ''pending'' | Approved \<Rightarrow> lit ''approved'' | Rejected \<Rightarrow> lit ''rejected''
   | Expired \<Rightarrow> lit ''expired'' | Executing \<Rightarrow> lit ''executing'' | Consumed \<Rightarrow> lit ''consumed'')"

type_synonym attestation = json_object

record approval =
  ap_action_id :: pystr
  ap_request_id :: pystr
  ap_tool_name :: pystr
  ap_target :: pystr
  ap_payload_hash :: pystr
  ap_authorization_hash :: pystr
  ap_payload_preview :: pystr
  ap_approval_scope :: pystr
  ap_reason :: pystr
  ap_policy_ids :: "pystr list"
  ap_expires_at :: pystr
  ap_created_at :: pystr
  ap_approval_id :: pystr
  ap_status :: approval_status
  ap_decided_by :: "pystr option"
  ap_decided_at :: "pystr option"
  ap_note :: pystr
  ap_decision_attestation :: "attestation option"
  ap_reserved_usd :: decimal
  ap_action_snapshot :: "action option"
  ap_request_snapshot :: "harness_request option"
  ap_decision_snapshot :: "guardrail_decision option"
  ap_execution_record_id :: pystr
  ap_consumed_at :: "pystr option"
  ap_execution_owner :: pystr
  ap_execution_key :: pystr
  ap_reconciliation_outcome :: pystr
  ap_reconciled_by :: pystr
  ap_reconciliation_note :: pystr
  ap_reconciliation_started_at :: "pystr option"
  ap_reconciliation_completed_at :: "pystr option"
  ap_reconciliation_attestation :: "attestation option"

text \<open>Failures of an operator's attestation; a comparison of text that is not ASCII raises a type error.\<close>

datatype identity_error =
    AttestationRequired
  | AttestationSchema
  | AttestationText
  | AttestationTime
  | AttestationHash
  | AttestationSignature
  | AttestationOutcome
  | UntrustedKey
  | AttestationMismatch
  | SignedTooEarly
  | SignedTooLate
  | NotAnAuthorization
  | NonAsciiComparison
  | TransitionGeneration
  | TransitionUnchanged
  | NoTrustedKeys
  | TooManyTrustedKeys
  | TrustSpecInvalid
  | TrustedKeyUnreadable
  | TrustedKeySetTooLarge
  | TrustedKeyShared
  | TrustedKeyInsideState

datatype approval_error =
    ApprovalTextMissing
  | ApprovalPolicyIds
  | OwnerWithoutKey
  | ApprovalTimestamp
  | MissingOperator
  | MissingConsumedAt
  | MissingExecutionEvidence
  | InvalidReconciliationOutcome
  | ReconciliationIncomplete
  | ReconciliationStatus
  | SnapshotNotCanonical
  | ActionBinding
  | RequestBinding
  | DecisionBinding
  | ApprovalMoney
  | ApprovalKey
  | NoSnapshot
  | NotPositiveTtl
  | ConflictsWithPrepared
  | AlreadyActive
  | UnknownApproval
  | AlreadyDecided
  | ApprovalExpired
  | NotDue
  | CannotExpire
  | NotTheRejection
  | OperatorRequired
  | NoteRequired
  | AttestationWithoutTrust
  | ApprovalIdentity identity_error
  | NotApproved
  | NotExecutable
  | NotExecuting
  | WrongAction
  | ChangedAction
  | ReconciliationInProgress
  | ExecutionRecordRequired
  | ConsumedByOtherEvidence
  | DifferentReconciliationInput
  | NotReconcilable
  | NoReconciliationIntent
  | HashFailed canonical_error
  | NotSerializable value_error

subsection \<open>Validation\<close>

definition parse_time :: "runtime \<Rightarrow> pystr \<Rightarrow> (approval_error, int) result" where
  "parse_time R ts = (case rt_instant R ts of None \<Rightarrow> raise ApprovalTimestamp | Some t \<Rightarrow> return t)"

definition check_time :: "runtime \<Rightarrow> pystr \<Rightarrow> (approval_error, unit) result" where
  "check_time R ts = bindR (parse_time R ts) (\<lambda>_. return ())"

definition present :: "pystr option \<Rightarrow> bool" where
  "present v \<longleftrightarrow> (case v of None \<Rightarrow> False | Some s \<Rightarrow> s \<noteq> [])"

definition reconciliation_outcomes :: "pystr list" where
  "reconciliation_outcomes = [lit ''succeeded'', lit ''failed'', lit ''not_executed'']"

text \<open>
  A snapshot is canonical when parsing it and writing it again gives it back: the contract
  validates to itself, and its fingerprints are those of its own content.
\<close>

definition plain_payload :: "pyval \<Rightarrow> bool" where
  "plain_payload v \<longleftrightarrow> enum_safe v = return v"

definition canonical_action :: "runtime \<Rightarrow> action \<Rightarrow> bool" where
  "canonical_action R a \<longleftrightarrow>
     pa_sealed a = None \<and> plain_payload (pa_payload a)
     \<and> canon (pa_estimated_cost_usd a) = pa_estimated_cost_usd a
     \<and> validate_action_contract R a = return a"

definition canonical_request :: "runtime \<Rightarrow> harness_request \<Rightarrow> bool" where
  "canonical_request R r \<longleftrightarrow>
     map_option canon (hr_budget_limit_usd r) = hr_budget_limit_usd r \<and> validate_request R r = return r"

definition canonical_decision :: "runtime \<Rightarrow> guardrail_decision \<Rightarrow> bool" where
  "canonical_decision R d \<longleftrightarrow>
     plain_payload (gd_decision_inputs d) \<and> validate_guardrail_decision R d = return d"

definition bound_action :: "runtime \<Rightarrow> approval \<Rightarrow> action \<Rightarrow> bool" where
  "bound_action R p a \<longleftrightarrow>
     pa_action_id a = ap_action_id p \<and> pa_request_id a = ap_request_id p
     \<and> pa_tool_name a = ap_tool_name p \<and> pa_target a = ap_target p
     \<and> payload_hash R a = return (ap_payload_hash p)
     \<and> authorization_hash R a = return (ap_authorization_hash p)"

definition bound_decision :: "approval \<Rightarrow> guardrail_decision \<Rightarrow> bool" where
  "bound_decision p d \<longleftrightarrow>
     gd_reason d = ap_reason p \<and> gd_approval_scope d = ap_approval_scope p
     \<and> gd_policy_ids d = ap_policy_ids p"

definition check_text_fields :: "approval \<Rightarrow> (approval_error, unit) result" where
  "check_text_fields p =
     (if [] \<in> set [ap_action_id p, ap_request_id p, ap_tool_name p, ap_approval_id p]
      then raise ApprovalTextMissing
      else if [] \<in> set (ap_policy_ids p) then raise ApprovalPolicyIds
      else if (ap_execution_owner p \<noteq> []) \<noteq> (ap_execution_key p \<noteq> []) then raise OwnerWithoutKey
      else return ())"

definition check_times :: "runtime \<Rightarrow> approval \<Rightarrow> (approval_error, unit) result" where
  "check_times R p =
     bindR (check_time R (ap_created_at p)) (\<lambda>_.
     bindR (if ap_expires_at p \<noteq> [] then check_time R (ap_expires_at p) else return ()) (\<lambda>_.
       allR (\<lambda>v. case v of None \<Rightarrow> return () | Some ts \<Rightarrow> check_time R ts)
         [ap_decided_at p, ap_consumed_at p, ap_reconciliation_started_at p,
          ap_reconciliation_completed_at p]))"

definition check_status :: "approval \<Rightarrow> (approval_error, unit) result" where
  "check_status p =
     (if ap_status p \<in> {Approved, Executing, Consumed, Rejected}
         \<and> \<not> (present (ap_decided_by p) \<and> present (ap_decided_at p)) then raise MissingOperator
      else if ap_status p \<in> {Consumed, Rejected, Expired} \<and> \<not> present (ap_consumed_at p)
        then raise MissingConsumedAt
      else if ap_status p = Consumed \<and> ap_execution_record_id p = [] then raise MissingExecutionEvidence
      else return ())"

text \<open>Any and all of the four values that record a reconciliation intent.\<close>

definition some_intent :: "approval \<Rightarrow> bool" where
  "some_intent p \<longleftrightarrow> ap_reconciliation_outcome p \<noteq> [] \<or> ap_reconciled_by p \<noteq> []
     \<or> ap_reconciliation_note p \<noteq> [] \<or> present (ap_reconciliation_started_at p)"

definition full_intent :: "approval \<Rightarrow> bool" where
  "full_intent p \<longleftrightarrow> ap_reconciliation_outcome p \<noteq> [] \<and> ap_reconciled_by p \<noteq> []
     \<and> ap_reconciliation_note p \<noteq> [] \<and> present (ap_reconciliation_started_at p)"

definition check_intent :: "approval \<Rightarrow> (approval_error, unit) result" where
  "check_intent p =
     bindR (if \<not> some_intent p then return ()
       else if ap_reconciliation_outcome p \<notin> set reconciliation_outcomes
         then raise InvalidReconciliationOutcome
       else if py_strip (ap_reconciled_by p) = [] \<or> py_strip (ap_reconciliation_note p) = []
           \<or> \<not> present (ap_reconciliation_started_at p) then raise ReconciliationIncomplete
       else require (ap_status p \<in> {Executing, Consumed}) ReconciliationStatus) (\<lambda>_.
     if present (ap_reconciliation_completed_at p) then
       (if \<not> full_intent p then raise ReconciliationIncomplete
        else require (ap_status p = Consumed \<and> ap_execution_record_id p \<noteq> []) ReconciliationStatus)
     else require (\<not> (ap_status p = Consumed \<and> ap_reconciliation_outcome p \<noteq> [])) ReconciliationIncomplete)"

definition check_snapshots :: "runtime \<Rightarrow> approval \<Rightarrow> (approval_error, unit) result" where
  "check_snapshots R p =
     (case (ap_action_snapshot p, ap_request_snapshot p, ap_decision_snapshot p) of (a, r, d) \<Rightarrow>
        if \<not> (case a of None \<Rightarrow> True | Some a \<Rightarrow> canonical_action R a) then raise SnapshotNotCanonical
        else if \<not> (case r of None \<Rightarrow> True | Some r \<Rightarrow> canonical_request R r) then raise SnapshotNotCanonical
        else if \<not> (case d of None \<Rightarrow> True | Some d \<Rightarrow> canonical_decision R d) then raise SnapshotNotCanonical
        else if \<not> (case a of None \<Rightarrow> True | Some a \<Rightarrow> bound_action R p a) then raise ActionBinding
        else if \<not> (case r of None \<Rightarrow> True | Some r \<Rightarrow> hr_request_id r = ap_request_id p)
          then raise RequestBinding
        else require (case d of None \<Rightarrow> True | Some d \<Rightarrow> bound_decision p d) DecisionBinding)"

text \<open>\<open>PendingApproval._from_snapshot\<close>.\<close>

definition check_approval :: "runtime \<Rightarrow> approval \<Rightarrow> (approval_error, unit) result" where
  "check_approval R p =
     bindR (check_text_fields p) (\<lambda>_.
     bindR (check_times R p) (\<lambda>_.
     bindR (check_status p) (\<lambda>_.
     bindR (check_intent p) (\<lambda>_.
     bindR (check_snapshots R p) (\<lambda>_.
       require (is_money (ap_reserved_usd p) \<and> canon (ap_reserved_usd p) = ap_reserved_usd p)
         ApprovalMoney)))))"

definition approval_ok :: "runtime \<Rightarrow> approval \<Rightarrow> bool" where
  "approval_ok R p \<longleftrightarrow> check_approval R p = return ()"

text \<open>\<open>with_updates\<close>: the changed record is validated like any other.\<close>

definition with_updates :: "runtime \<Rightarrow> (approval \<Rightarrow> approval) \<Rightarrow> approval \<Rightarrow> (approval_error, approval) result" where
  "with_updates R f p = bindR (check_approval R (f p)) (\<lambda>_. return (f p))"

lemma with_updates_Inr [simp]: "with_updates R f p = return q \<longleftrightarrow> q = f p \<and> approval_ok R (f p)"
  by (auto simp: with_updates_def approval_ok_def)

subsection \<open>Reading an approval\<close>

definition is_expired :: "runtime \<Rightarrow> int \<Rightarrow> approval \<Rightarrow> bool" where
  "is_expired R now p \<longleftrightarrow>
     ap_expires_at p \<noteq> [] \<and> (case rt_instant R (ap_expires_at p) of None \<Rightarrow> False | Some t \<Rightarrow> t \<le> now)"

definition held :: "'a option \<Rightarrow> (approval_error, 'a) result" where
  "held v = (case v of None \<Rightarrow> raise NoSnapshot | Some x \<Rightarrow> return x)"

definition held_action :: "approval \<Rightarrow> (approval_error, action) result" where
  "held_action p = held (ap_action_snapshot p)"

definition held_request :: "approval \<Rightarrow> (approval_error, harness_request) result" where
  "held_request p = held (ap_request_snapshot p)"

definition held_decision :: "approval \<Rightarrow> (approval_error, guardrail_decision) result" where
  "held_decision p = held (ap_decision_snapshot p)"

end
