(* ===== verification/OperatorIdentity.thy ===== *)
theory OperatorIdentity
  imports ApprovalRecord
begin

text \<open>
  Operator attestations (\<open>operator_identity.py\<close>): the schema of a signed decision or
  reconciliation, its binding to one approval, and the trust policy that pins operators to public
  keys. Ed25519 verification belongs to a library: it is the field \<open>tp_verify\<close> of the policy, a
  function of the public key, the signature bytes and the signed text.
\<close>

subsection \<open>Comparisons and texts\<close>

definition is_ascii :: "pystr \<Rightarrow> bool" where
  "is_ascii s \<longleftrightarrow> list_all (\<lambda>c. c < 128) s"

text \<open>\<open>hmac.compare_digest\<close> on text: a type error unless both texts are ASCII.\<close>

definition compare_digest :: "pystr \<Rightarrow> pystr \<Rightarrow> (identity_error, bool) result" where
  "compare_digest a b = (if is_ascii a \<and> is_ascii b then return (a = b) else raise NonAsciiComparison)"

definition expect_field :: "attestation \<Rightarrow> string \<times> pystr \<Rightarrow> (identity_error, unit) result" where
  "expect_field att fv = bindR (compare_digest (text_of (obj_get (fst fv) att)) (snd fv)) (\<lambda>ok.
     require ok AttestationMismatch)"

definition max_note_chars :: nat where "max_note_chars = 4096"

definition bounded_text :: "nat \<Rightarrow> pyval option \<Rightarrow> (identity_error, pystr) result" where
  "bounded_text maximum v = (case v of
     Some (PStr s) \<Rightarrow> (if py_strip s = [] \<or> maximum < length s then raise AttestationText else return s)
   | _ \<Rightarrow> raise AttestationText)"

definition identity_time :: "runtime \<Rightarrow> pystr \<Rightarrow> (identity_error, int) result" where
  "identity_time R s = (case rt_instant R s of None \<Rightarrow> raise AttestationTime | Some t \<Rightarrow> return t)"

definition identity_timestamp :: "runtime \<Rightarrow> pyval option \<Rightarrow> (identity_error, unit) result" where
  "identity_timestamp R v = bindR (bounded_text 128 v) (\<lambda>s. bindR (identity_time R s) (\<lambda>_. return ()))"

subsection \<open>Signatures\<close>

definition b64_value :: "nat \<Rightarrow> nat option" where
  "b64_value c =
     (if 65 \<le> c \<and> c \<le> 90 then Some (c - 65) else if 97 \<le> c \<and> c \<le> 122 then Some (c - 71)
      else if 48 \<le> c \<and> c \<le> 57 then Some (c + 4) else if c = 43 then Some 62
      else if c = 47 then Some 63 else None)"

fun b64_groups :: "nat list \<Rightarrow> nat \<Rightarrow> nat list option" where
  "b64_groups [] pads = Some []"
| "b64_groups [a] pads = None"
| "b64_groups [a, b] pads = (if 2 \<le> pads then Some [a * 4 + b div 16] else None)"
| "b64_groups [a, b, c] pads =
     (if 1 \<le> pads then Some [a * 4 + b div 16, (b mod 16) * 16 + c div 4] else None)"
| "b64_groups (a # b # c # d # rest) pads =
     (case b64_groups rest pads of None \<Rightarrow> None
      | Some bs \<Rightarrow> Some ([a * 4 + b div 16, (b mod 16) * 16 + c div 4, (c mod 4) * 64 + d] @ bs))"

text \<open>\<open>base64.b64decode(..., validate=True)\<close>: the alphabet and at most two padding characters.\<close>

definition b64_decode :: "pystr \<Rightarrow> nat list option" where
  "b64_decode s =
     (let body = py_rstrip_of (\<lambda>c. c = 61) s; pads = length s - length body
      in if 2 < pads \<or> \<not> list_all (\<lambda>c. b64_value c \<noteq> None) body then None
         else b64_groups (map (\<lambda>c. the (b64_value c)) body) pads)"

definition decode_signature :: "pystr \<Rightarrow> (identity_error, nat list) result" where
  "decode_signature v =
     (if \<not> startswith v (lit ''base64:'') then raise AttestationSignature
      else case b64_decode (drop 7 v) of
          None \<Rightarrow> raise AttestationSignature
        | Some bytes \<Rightarrow> (if length bytes \<noteq> 64 then raise AttestationSignature else return bytes))"

subsection \<open>Schemas\<close>

definition attestation_fields :: "pystr list" where
  "attestation_fields = map lit
     [''schema_name'', ''schema_version'', ''algorithm'', ''purpose'', ''key_id'', ''signed_at'',
      ''operator'', ''note'', ''outcome'', ''approval_id'', ''action_id'', ''request_id'',
      ''authorization_hash'', ''signature'']"

definition decision_purpose :: pystr where "decision_purpose = lit ''approval_decision''"
definition reconciliation_purpose :: pystr where "reconciliation_purpose = lit ''execution_reconciliation''"

definition has_value :: "string \<Rightarrow> string \<Rightarrow> json_object \<Rightarrow> bool" where
  "has_value k v obj \<longleftrightarrow> obj_get k obj = Some (PStr (lit v))"

definition validate_attestation :: "runtime \<Rightarrow> attestation \<Rightarrow> (identity_error, unit) result" where
  "validate_attestation R att =
     (if set (map fst att) \<noteq> set attestation_fields
         \<or> \<not> has_value ''schema_name'' ''defiant.operator.attestation'' att
         \<or> \<not> has_value ''schema_version'' ''0.1.0'' att \<or> \<not> has_value ''algorithm'' ''Ed25519'' att
         \<or> \<not> (obj_get ''purpose'' att = Some (PStr decision_purpose)
               \<or> obj_get ''purpose'' att = Some (PStr reconciliation_purpose)) then raise AttestationSchema
      else bindR (allR (\<lambda>f. bindR (bounded_text max_note_chars (obj_get f att)) (\<lambda>_. return ()))
          [''key_id'', ''operator'', ''note'', ''outcome'', ''approval_id'', ''action_id'',
           ''request_id'', ''authorization_hash'', ''signature'']) (\<lambda>_.
        bindR (identity_timestamp R (obj_get ''signed_at'' att)) (\<lambda>_.
          require (is_sha256 (text_of (obj_get ''key_id'' att))
            \<and> is_sha256 (text_of (obj_get ''authorization_hash'' att))) AttestationHash)))"

definition five_minutes :: int where "five_minutes = 300000000"

definition validate_binding ::
  "runtime \<Rightarrow> int \<Rightarrow> attestation \<Rightarrow> approval \<Rightarrow> (identity_error, unit) result" where
  "validate_binding R now att p =
     bindR (allR (expect_field att)
       [(''approval_id'', ap_approval_id p), (''action_id'', ap_action_id p),
        (''request_id'', ap_request_id p), (''authorization_hash'', ap_authorization_hash p)]) (\<lambda>_.
     bindR (identity_time R (text_of (obj_get ''signed_at'' att))) (\<lambda>signed_at.
     bindR (identity_time R (ap_created_at p)) (\<lambda>created_at.
       if signed_at < created_at then raise SignedTooEarly
       else if now + five_minutes < signed_at then raise SignedTooLate
       else bindR (if obj_get ''purpose'' att = Some (PStr decision_purpose) \<and> ap_expires_at p \<noteq> []
           then bindR (identity_time R (ap_expires_at p)) (\<lambda>expires_at.
             require (signed_at < expires_at) SignedTooLate)
           else return ()) (\<lambda>_.
         if obj_get ''purpose'' att = Some (PStr reconciliation_purpose) \<and> present (ap_decided_at p)
         then bindR (identity_time R (the (ap_decided_at p))) (\<lambda>decided_at.
           require (decided_at \<le> signed_at) SignedTooEarly)
         else return ()))))"

subsection \<open>The trust policy\<close>

record trust_policy =
  tp_keys :: "(pystr, (pystr, pystr) dict) dict"
  tp_verify :: "pystr \<Rightarrow> nat list \<Rightarrow> pystr \<Rightarrow> bool"

definition trusted_key :: "trust_policy \<Rightarrow> pystr \<Rightarrow> pystr \<Rightarrow> pystr option" where
  "trusted_key T operator key_id = (case dict_get operator (tp_keys T) of
     None \<Rightarrow> None | Some ks \<Rightarrow> dict_get key_id ks)"

definition attestation_domain :: pystr where
  "attestation_domain = lit ''Defiant Agent Harness operator authority v0.1.0'' @ [0]"

definition unsigned_part :: "attestation \<Rightarrow> attestation" where
  "unsigned_part att = filter (\<lambda>kv. fst kv \<noteq> lit ''signature'') att"

text \<open>\<open>canonical_json\<close> of the attestation without its signature, after the domain separator.\<close>

definition statement_text :: "pystr \<Rightarrow> attestation \<Rightarrow> pystr" where
  "statement_text domain att = domain @ encode (json_of (unsigned_part att))"

definition signature_valid :: "trust_policy \<Rightarrow> pystr \<Rightarrow> pystr \<Rightarrow> attestation \<Rightarrow> (identity_error, unit) result" where
  "signature_valid T key domain att =
     bindR (decode_signature (text_of (obj_get ''signature'' att))) (\<lambda>signature.
       require (tp_verify T key signature (statement_text domain att)) AttestationSignature)"

definition verify_attestation ::
  "runtime \<Rightarrow> trust_policy \<Rightarrow> int \<Rightarrow> attestation \<Rightarrow> approval \<Rightarrow> (identity_error, unit) result" where
  "verify_attestation R T now att p =
     bindR (validate_attestation R att) (\<lambda>_.
       case trusted_key T (text_of (obj_get ''operator'' att)) (text_of (obj_get ''key_id'' att)) of
         None \<Rightarrow> raise UntrustedKey
       | Some key \<Rightarrow>
           bindR (validate_binding R now att p) (\<lambda>_. signature_valid T key attestation_domain att))"

definition require_attestation ::
  "runtime \<Rightarrow> trust_policy \<Rightarrow> int \<Rightarrow> attestation option \<Rightarrow> approval
   \<Rightarrow> pystr \<Rightarrow> pystr \<Rightarrow> pystr \<Rightarrow> pystr \<Rightarrow> (identity_error, unit) result" where
  "require_attestation R T now att p purpose outcome operator note_text = (case att of
     None \<Rightarrow> raise AttestationRequired
   | Some att \<Rightarrow>
       bindR (verify_attestation R T now att p) (\<lambda>_.
         allR (expect_field att)
           [(''purpose'', purpose), (''outcome'', outcome), (''operator'', py_strip operator),
            (''note'', py_strip note_text)]))"

text \<open>\<open>OperatorIdentityStatus\<close>: whether the identity is established, with its assurance level.\<close>

record identity_status =
  is_ok :: bool
  is_assurance :: pystr
  is_operator :: pystr

definition assess_attestation ::
  "runtime \<Rightarrow> trust_policy \<Rightarrow> int \<Rightarrow> attestation option \<Rightarrow> approval
   \<Rightarrow> pystr \<Rightarrow> pystr \<Rightarrow> pystr \<Rightarrow> pystr \<Rightarrow> identity_status" where
  "assess_attestation R T now att p purpose outcome operator note_text =
     (case require_attestation R T now att p purpose outcome operator note_text of
        Inl _ \<Rightarrow> \<lparr>is_ok = False, is_assurance = lit ''invalid'', is_operator = []\<rparr>
      | Inr _ \<Rightarrow> \<lparr>is_ok = True, is_assurance = lit ''signed_trusted'', is_operator = py_strip operator\<rparr>)"

definition unsigned_status :: "pystr \<Rightarrow> identity_status" where
  "unsigned_status operator = \<lparr>is_ok = False, is_assurance = lit ''unsigned'', is_operator = operator\<rparr>"

subsection \<open>Reconciling an authorization that has no approval\<close>

record authorization_subject =
  as_record_id :: pystr
  as_record_hash :: pystr
  as_action_id :: pystr
  as_request_id :: pystr
  as_authorization_hash :: pystr
  as_authorized_at :: pystr

definition authorization_subject_of ::
  "runtime \<Rightarrow> json_object \<Rightarrow> (identity_error, authorization_subject) result" where
  "authorization_subject_of R rec =
     (if \<not> has_value ''result_status'' ''skipped'' rec \<or> \<not> has_value ''decision'' ''allow'' rec
      then raise NotAnAuthorization
      else bindR (bounded_text max_note_chars (obj_get ''record_id'' rec)) (\<lambda>rid.
        bindR (bounded_text max_note_chars (obj_get ''record_hash'' rec)) (\<lambda>rh.
        bindR (bounded_text max_note_chars (obj_get ''action_id'' rec)) (\<lambda>aid.
        bindR (bounded_text max_note_chars (obj_get ''request_id'' rec)) (\<lambda>qid.
        bindR (bounded_text max_note_chars (obj_get ''authorization_hash'' rec)) (\<lambda>ah.
        bindR (bounded_text max_note_chars (obj_get ''timestamp'' rec)) (\<lambda>ts.
          if \<not> is_sha256 rh \<or> \<not> is_sha256 ah then raise AttestationHash
          else bindR (identity_timestamp R (Some (PStr ts))) (\<lambda>_.
            return \<lparr>as_record_id = rid, as_record_hash = rh, as_action_id = aid,
              as_request_id = qid, as_authorization_hash = ah, as_authorized_at = ts\<rparr>))))))))"

definition authorization_fields :: "pystr list" where
  "authorization_fields = map lit
     [''schema_name'', ''schema_version'', ''algorithm'', ''purpose'', ''key_id'', ''signed_at'',
      ''operator'', ''note'', ''outcome'', ''authority_record_id'', ''authority_record_hash'',
      ''action_id'', ''request_id'', ''authorization_hash'', ''signature'']"

definition authorization_domain :: pystr where
  "authorization_domain = lit ''Defiant Agent Harness authorization reconciliation v0.1.0'' @ [0]"

definition validate_authorization_attestation :: "runtime \<Rightarrow> attestation \<Rightarrow> (identity_error, unit) result" where
  "validate_authorization_attestation R att =
     (if set (map fst att) \<noteq> set authorization_fields
         \<or> \<not> has_value ''schema_name'' ''defiant.operator.authorization_reconciliation'' att
         \<or> \<not> has_value ''schema_version'' ''0.1.0'' att \<or> \<not> has_value ''algorithm'' ''Ed25519'' att
         \<or> \<not> has_value ''purpose'' ''authorization_reconciliation'' att then raise AttestationSchema
      else bindR (allR (\<lambda>f. bindR (bounded_text max_note_chars (obj_get f att)) (\<lambda>_. return ()))
          [''key_id'', ''operator'', ''note'', ''outcome'', ''authority_record_id'',
           ''authority_record_hash'', ''action_id'', ''request_id'', ''authorization_hash'',
           ''signature'']) (\<lambda>_.
        if text_of (obj_get ''outcome'' att) \<notin> set reconciliation_outcomes then raise AttestationOutcome
        else bindR (identity_timestamp R (obj_get ''signed_at'' att)) (\<lambda>_.
          bindR (require (is_sha256 (text_of (obj_get ''key_id'' att))
            \<and> is_sha256 (text_of (obj_get ''authority_record_hash'' att))
            \<and> is_sha256 (text_of (obj_get ''authorization_hash'' att))) AttestationHash) (\<lambda>_.
          bindR (decode_signature (text_of (obj_get ''signature'' att))) (\<lambda>_. return ())))))"

definition verify_authorization_reconciliation ::
  "runtime \<Rightarrow> trust_policy \<Rightarrow> int \<Rightarrow> attestation \<Rightarrow> authorization_subject \<Rightarrow> (identity_error, unit) result" where
  "verify_authorization_reconciliation R T now att s =
     bindR (validate_authorization_attestation R att) (\<lambda>_.
       case trusted_key T (text_of (obj_get ''operator'' att)) (text_of (obj_get ''key_id'' att)) of
         None \<Rightarrow> raise UntrustedKey
       | Some key \<Rightarrow>
           bindR (allR (expect_field att)
             [(''authority_record_id'', as_record_id s), (''authority_record_hash'', as_record_hash s),
              (''action_id'', as_action_id s), (''request_id'', as_request_id s),
              (''authorization_hash'', as_authorization_hash s)]) (\<lambda>_.
           bindR (identity_time R (text_of (obj_get ''signed_at'' att))) (\<lambda>signed_at.
           bindR (identity_time R (as_authorized_at s)) (\<lambda>authorized_at.
             if signed_at < authorized_at then raise SignedTooEarly
             else if now + five_minutes < signed_at then raise SignedTooLate
             else signature_valid T key authorization_domain att))))"

definition require_authorization_reconciliation ::
  "runtime \<Rightarrow> trust_policy \<Rightarrow> int \<Rightarrow> attestation option \<Rightarrow> authorization_subject
   \<Rightarrow> pystr \<Rightarrow> pystr \<Rightarrow> pystr \<Rightarrow> (identity_error, unit) result" where
  "require_authorization_reconciliation R T now att s outcome operator note_text = (case att of
     None \<Rightarrow> raise AttestationRequired
   | Some att \<Rightarrow>
       bindR (verify_authorization_reconciliation R T now att s) (\<lambda>_.
         allR (expect_field att)
           [(''outcome'', outcome), (''operator'', py_strip operator), (''note'', py_strip note_text)]))"

text \<open>A field that was compared is the text it was compared with.\<close>

lemma expect_fieldD: "expect_field att (f, v) = return u \<Longrightarrow> text_of (obj_get f att) = v"
  by (auto simp: expect_field_def compare_digest_def split: if_splits)

end
