(* ===== verification/Approvals.thy ===== *)
theory Approvals
  imports OperatorIdentity
begin

text \<open>
  The approval queue (\<open>approvals/store.py\<close>): a dictionary of approvals by id in one JSON file. Every
  operation reads and validates the whole file, and writes a changed record only after validating
  it again. Clock readings (the instant compared with expiry, and the text stored) are arguments;
  the trust policy is part of the store's configuration.
\<close>

type_synonym approval_data = "(pystr, approval) dict"

record approval_config =
  ac_default_ttl_minutes :: int
  ac_operator_trust :: "trust_policy option"

record clock =
  ck_now :: int
  ck_stamp :: pystr

subsection \<open>Persistence\<close>

definition check_stored :: "runtime \<Rightarrow> pystr \<times> approval \<Rightarrow> (approval_error, unit) result" where
  "check_stored R kp =
     (if fst kp = [] then raise ApprovalKey
      else bindR (check_approval R (snd kp)) (\<lambda>_. require (ap_approval_id (snd kp) = fst kp) ApprovalKey))"

definition read_all :: "runtime \<Rightarrow> approval_data \<Rightarrow> (approval_error, approval_data) result" where
  "read_all R d = bindR (allR (check_stored R) d) (\<lambda>_. return d)"

definition write_all :: "approval_data \<Rightarrow> (approval_error, approval_data) result" where
  "write_all d =
     (if list_ex (\<lambda>kp. fst kp = [] \<or> ap_approval_id (snd kp) \<noteq> fst kp) d then raise ApprovalKey
      else return (sort_keys d))"

definition store_approval :: "approval \<Rightarrow> approval_data \<Rightarrow> (approval_error, approval \<times> approval_data) result" where
  "store_approval p d = bindR (write_all (dict_put (ap_approval_id p) p d)) (\<lambda>t. return (p, t))"

text \<open>\<open>with_updates\<close> followed by the write.\<close>

definition update_stored ::
  "runtime \<Rightarrow> (approval \<Rightarrow> approval) \<Rightarrow> approval \<Rightarrow> approval_data \<Rightarrow> (approval_error, approval \<times> approval_data) result" where
  "update_stored R f p d = bindR (with_updates R f p) (\<lambda>q. store_approval q d)"

definition fetch :: "runtime \<Rightarrow> pystr \<Rightarrow> approval_data \<Rightarrow> (approval_error, approval) result" where
  "fetch R approval_id d = bindR (read_all R d) (\<lambda>d.
     case dict_get approval_id d of None \<Rightarrow> raise UnknownApproval | Some p \<Rightarrow> return p)"

subsection \<open>Creation\<close>

text \<open>\<open>json.dumps(payload, indent=2, sort_keys=True)\<close>, cut to 400 characters.\<close>

definition newline_indent :: "nat \<Rightarrow> pystr" where
  "newline_indent depth = 10 # replicate (2 * depth) 32"

definition pretty_block :: "nat \<Rightarrow> nat \<Rightarrow> nat \<Rightarrow> pystr list \<Rightarrow> pystr" where
  "pretty_block opening closing depth items =
     (if items = [] then [opening, closing]
      else [opening] @ newline_indent (depth + 1)
        @ join_with (44 # newline_indent (depth + 1)) items @ newline_indent depth @ [closing])"

fun pretty :: "nat \<Rightarrow> pyval \<Rightarrow> pystr" where
  "pretty depth (PList vs) = pretty_block 91 93 depth (map (pretty (depth + 1)) vs)"
| "pretty depth (PTuple vs) = pretty_block 91 93 depth (map (pretty (depth + 1)) vs)"
| "pretty depth (PDict kvs) = pretty_block 123 125 depth
     (map (\<lambda>(k, t). encode_key k @ [58, 32] @ t)
       (sort_items (map (\<lambda>(k, v). (k, pretty (depth + 1) v)) kvs)))"
| "pretty depth v = encode v"

definition preview :: "pyval \<Rightarrow> pystr" where
  "preview payload =
     (let text = pretty 0 payload
      in if length text \<le> 400 then text else take 400 text @ 10 # lit ''... [truncated]'')"

text \<open>The contracts as they are after \<open>to_dict\<close> and \<open>from_dict\<close>.\<close>

definition action_snapshot_of :: "action \<Rightarrow> (approval_error, action) result" where
  "action_snapshot_of a = bindR (mapErr NotSerializable (enum_safe (pa_payload a))) (\<lambda>payload.
     return (a\<lparr>pa_payload := payload, pa_estimated_cost_usd := canon (pa_estimated_cost_usd a),
               pa_sealed := None\<rparr>))"

definition request_snapshot_of :: "harness_request \<Rightarrow> harness_request" where
  "request_snapshot_of r = r\<lparr>hr_budget_limit_usd := map_option canon (hr_budget_limit_usd r)\<rparr>"

definition decision_snapshot_of ::
  "guardrail_decision \<Rightarrow> (approval_error, guardrail_decision) result" where
  "decision_snapshot_of d = bindR (mapErr NotSerializable (enum_safe (gd_decision_inputs d))) (\<lambda>inputs.
     return (d\<lparr>gd_decision_inputs := inputs\<rparr>))"

definition minute :: int where "minute = 60000000"

definition new_approval :: "action \<Rightarrow> pystr \<Rightarrow> pystr \<Rightarrow> pystr \<Rightarrow> pystr \<Rightarrow> pystr list \<Rightarrow> pystr \<Rightarrow> pystr \<Rightarrow> pystr
    \<Rightarrow> decimal \<Rightarrow> harness_request option \<Rightarrow> guardrail_decision option \<Rightarrow> pystr \<Rightarrow> pystr \<Rightarrow> approval" where
  "new_approval act ph ah scope reason pids expires_at created_at approval_id reserved request decision owner key =
     \<lparr>ap_action_id = pa_action_id act, ap_request_id = pa_request_id act,
      ap_tool_name = pa_tool_name act, ap_target = pa_target act, ap_payload_hash = ph,
      ap_authorization_hash = ah, ap_payload_preview = preview (pa_payload act),
      ap_approval_scope = scope, ap_reason = reason, ap_policy_ids = pids,
      ap_expires_at = expires_at, ap_created_at = created_at, ap_approval_id = approval_id,
      ap_status = Pending, ap_decided_by = None, ap_decided_at = None, ap_note = [],
      ap_decision_attestation = None, ap_reserved_usd = reserved, ap_action_snapshot = Some act,
      ap_request_snapshot = request, ap_decision_snapshot = decision,
      ap_execution_record_id = [], ap_consumed_at = None, ap_execution_owner = owner,
      ap_execution_key = key, ap_reconciliation_outcome = [], ap_reconciled_by = [],
      ap_reconciliation_note = [], ap_reconciliation_started_at = None,
      ap_reconciliation_completed_at = None, ap_reconciliation_attestation = None\<rparr>"

definition prepare ::
  "runtime \<Rightarrow> approval_config \<Rightarrow> clock \<Rightarrow> pystr \<Rightarrow> action \<Rightarrow> pystr \<Rightarrow> pystr \<Rightarrow> pystr list \<Rightarrow> int option
   \<Rightarrow> harness_request option \<Rightarrow> guardrail_decision option \<Rightarrow> money_like \<Rightarrow> pystr \<Rightarrow> pystr
   \<Rightarrow> (approval_error, approval) result" where
  "prepare R cfg ck new_id a reason scope pids ttl request decision reserved owner key =
     (let minutes = (case ttl of Some m \<Rightarrow> m | None \<Rightarrow> ac_default_ttl_minutes cfg) in
      if minutes \<le> 0 then raise NotPositiveTtl
      else bindR (action_snapshot_of a) (\<lambda>act.
        bindR (mapErr HashFailed (payload_hash R a)) (\<lambda>ph.
        bindR (mapErr HashFailed (authorization_hash R a)) (\<lambda>ah.
        bindR (case decision of None \<Rightarrow> return None
            | Some d \<Rightarrow> bindR (decision_snapshot_of d) (\<lambda>d. return (Some d))) (\<lambda>decision.
        bindR (mapErr (\<lambda>_. ApprovalMoney) (money reserved)) (\<lambda>reserved.
          let p = new_approval act ph ah scope reason pids
                (rt_utc_text R (ck_now ck + minutes * minute)) (ck_stamp ck) new_id
                (canon reserved) (map_option request_snapshot_of request) decision owner key
          in bindR (check_approval R p) (\<lambda>_. return p)))))))"

definition is_active :: "approval \<Rightarrow> bool" where
  "is_active p \<longleftrightarrow> ap_status p \<in> {Pending, Approved, Executing}"

definition create_prepared ::
  "runtime \<Rightarrow> approval \<Rightarrow> approval_data \<Rightarrow> (approval_error, approval \<times> approval_data) result" where
  "create_prepared R p d =
     bindR (read_all R d) (\<lambda>d.
       case dict_get (ap_approval_id p) d of
         Some existing \<Rightarrow> if existing = p then return (existing, d) else raise ConflictsWithPrepared
       | None \<Rightarrow>
           if list_ex (\<lambda>kq. ap_action_id (snd kq) = ap_action_id p \<and> is_active (snd kq)) d
           then raise AlreadyActive
           else store_approval p d)"

subsection \<open>Queries\<close>

definition get_approval :: "runtime \<Rightarrow> pystr \<Rightarrow> approval_data \<Rightarrow> (approval_error, approval option) result" where
  "get_approval R approval_id d = bindR (read_all R d) (\<lambda>d. return (dict_get approval_id d))"

definition by_creation :: "approval list \<Rightarrow> approval list" where
  "by_creation ps = foldr (insort_key ap_created_at) ps []"

definition for_action :: "runtime \<Rightarrow> pystr \<Rightarrow> approval_data \<Rightarrow> (approval_error, approval list) result" where
  "for_action R action_id d = bindR (read_all R d) (\<lambda>d.
     return (filter (\<lambda>p. ap_action_id p = action_id) (map snd d)))"

definition list_pending :: "runtime \<Rightarrow> int \<Rightarrow> approval_data \<Rightarrow> (approval_error, approval list) result" where
  "list_pending R now d = bindR (read_all R d) (\<lambda>d.
     return (by_creation (filter (\<lambda>p. ap_status p = Pending \<and> \<not> is_expired R now p) (map snd d))))"

definition list_actionable :: "runtime \<Rightarrow> int \<Rightarrow> approval_data \<Rightarrow> (approval_error, approval list) result" where
  "list_actionable R now d = bindR (read_all R d) (\<lambda>d.
     return (by_creation (filter (\<lambda>p. is_active p \<and> (ap_status p = Executing \<or> \<not> is_expired R now p))
       (map snd d))))"

definition latest_created :: "approval list \<Rightarrow> approval option" where
  "latest_created ps = foldl (\<lambda>best p. case best of None \<Rightarrow> Some p
     | Some b \<Rightarrow> if ap_created_at b < ap_created_at p then Some p else best) None ps"

definition find_execution ::
  "runtime \<Rightarrow> int \<Rightarrow> pystr \<Rightarrow> pystr \<Rightarrow> approval_data \<Rightarrow> (approval_error, approval option) result" where
  "find_execution R now owner key d =
     (if owner = [] \<or> key = [] then return None
      else bindR (read_all R d) (\<lambda>d.
        return (latest_created (filter (\<lambda>p.
          ap_execution_owner p = owner \<and> ap_execution_key p = key
          \<and> ap_status p \<in> {Pending, Approved, Rejected, Executing}
          \<and> (ap_status p = Executing \<or> \<not> is_expired R now p)) (map snd d)))))"

definition is_due :: "runtime \<Rightarrow> int \<Rightarrow> approval \<Rightarrow> bool" where
  "is_due R now p \<longleftrightarrow> ap_status p \<in> {Pending, Approved} \<and> is_expired R now p"

definition due :: "runtime \<Rightarrow> int \<Rightarrow> approval_data \<Rightarrow> (approval_error, approval list) result" where
  "due R now d = bindR (read_all R d) (\<lambda>d. return (by_creation (filter (is_due R now) (map snd d))))"

subsection \<open>Expiry\<close>

definition expire_update :: "pystr \<Rightarrow> approval \<Rightarrow> approval" where
  "expire_update stamp p = p\<lparr>ap_status := Expired, ap_consumed_at := Some stamp\<rparr>"

definition expire_entry ::
  "runtime \<Rightarrow> int \<Rightarrow> clock \<Rightarrow> pystr \<times> approval \<Rightarrow> (approval_error, pystr \<times> approval) result" where
  "expire_entry R now ck kp =
     (if is_due R now (snd kp)
      then bindR (with_updates R (expire_update (ck_stamp ck)) (snd kp)) (\<lambda>q. return (fst kp, q))
      else return kp)"

definition expire_due ::
  "runtime \<Rightarrow> int \<Rightarrow> clock \<Rightarrow> approval_data \<Rightarrow> (approval_error, approval list \<times> approval_data) result" where
  "expire_due R now ck d =
     bindR (read_all R d) (\<lambda>d.
     bindR (mapR (expire_entry R now ck) d) (\<lambda>t.
       let expired = map (expire_update (ck_stamp ck)) (filter (is_due R now) (map snd d))
       in if expired = [] then return ([], d)
          else bindR (write_all t) (\<lambda>t. return (expired, t))))"

definition expire_one ::
  "runtime \<Rightarrow> clock \<Rightarrow> pystr \<Rightarrow> approval_data \<Rightarrow> (approval_error, approval \<times> approval_data) result" where
  "expire_one R ck approval_id d =
     bindR (fetch R approval_id d) (\<lambda>p.
       if ap_status p = Expired then return (p, d)
       else if ap_status p \<notin> {Pending, Approved} then raise CannotExpire
       else if \<not> is_expired R (ck_now ck) p then raise NotDue
       else update_stored R (expire_update (ck_stamp ck)) p d)"

subsection \<open>Decisions\<close>

text \<open>\<open>_validate_decision\<close>, giving the normalised operator and note.\<close>

definition check_decision ::
  "runtime \<Rightarrow> approval_config \<Rightarrow> int \<Rightarrow> approval \<Rightarrow> bool \<Rightarrow> pystr \<Rightarrow> pystr \<Rightarrow> attestation option
   \<Rightarrow> (approval_error, pystr \<times> pystr) result" where
  "check_decision R cfg now p approved decided_by note_text att =
     (if py_strip decided_by = [] then raise OperatorRequired
      else let operator = py_strip decided_by; remark = py_strip note_text in
        case ac_operator_trust cfg of
          None \<Rightarrow> (if att \<noteq> None then raise AttestationWithoutTrust else return (operator, remark))
        | Some T \<Rightarrow> bindR (mapErr ApprovalIdentity (require_attestation R T now att p decision_purpose
              (if approved then lit ''approved'' else lit ''rejected'') operator remark))
              (\<lambda>_. return (operator, remark)))"

definition signed_at_of :: "attestation option \<Rightarrow> pystr \<Rightarrow> pystr" where
  "signed_at_of att stamp = (case att of None \<Rightarrow> stamp | Some a \<Rightarrow> text_of (obj_get ''signed_at'' a))"

definition decide_update :: "bool \<Rightarrow> pystr \<Rightarrow> pystr \<Rightarrow> pystr \<Rightarrow> attestation option \<Rightarrow> approval \<Rightarrow> approval" where
  "decide_update approved operator remark decided_at att p =
     p\<lparr>ap_status := (if approved then Approved else Rejected), ap_decided_by := Some operator,
       ap_decided_at := Some decided_at, ap_note := remark, ap_decision_attestation := att,
       ap_consumed_at := (if approved then None else Some decided_at)\<rparr>"

definition validate_decision ::
  "runtime \<Rightarrow> approval_config \<Rightarrow> int \<Rightarrow> pystr \<Rightarrow> bool \<Rightarrow> pystr \<Rightarrow> pystr \<Rightarrow> attestation option
   \<Rightarrow> approval_data \<Rightarrow> (approval_error, pystr \<times> pystr) result" where
  "validate_decision R cfg now approval_id approved decided_by note_text att d =
     bindR (fetch R approval_id d) (\<lambda>p.
       if ap_status p \<noteq> Pending then raise AlreadyDecided
       else if is_expired R now p then raise ApprovalExpired
       else check_decision R cfg now p approved decided_by note_text att)"

definition decide ::
  "runtime \<Rightarrow> approval_config \<Rightarrow> clock \<Rightarrow> pystr \<Rightarrow> bool \<Rightarrow> pystr \<Rightarrow> pystr \<Rightarrow> attestation option
   \<Rightarrow> approval_data \<Rightarrow> (approval_error, approval \<times> approval_data) result" where
  "decide R cfg ck approval_id approved decided_by note_text att d =
     bindR (fetch R approval_id d) (\<lambda>p.
       if ap_status p \<noteq> Pending then raise AlreadyDecided
       else if is_expired R (ck_now ck) p then raise ApprovalExpired
       else bindR (check_decision R cfg (ck_now ck) p approved decided_by note_text att) (\<lambda>(operator, remark).
         update_stored R (decide_update approved operator remark (signed_at_of att (ck_stamp ck)) att) p d))"

definition decision_identity ::
  "runtime \<Rightarrow> approval_config \<Rightarrow> int \<Rightarrow> approval \<Rightarrow> identity_status" where
  "decision_identity R cfg now p =
     (let operator = (case ap_decided_by p of None \<Rightarrow> [] | Some s \<Rightarrow> s) in
      case ap_decision_attestation p of
        None \<Rightarrow> unsigned_status operator
      | Some att \<Rightarrow>
          (case ac_operator_trust cfg of
             None \<Rightarrow> \<lparr>is_ok = False, is_assurance = lit ''unverified'', is_operator = operator\<rparr>
           | Some T \<Rightarrow> assess_attestation R T now (Some att) p decision_purpose
               (if ap_status p = Rejected then lit ''rejected'' else lit ''approved'') operator (ap_note p)))"

definition reconciliation_identity ::
  "runtime \<Rightarrow> approval_config \<Rightarrow> int \<Rightarrow> approval \<Rightarrow> identity_status" where
  "reconciliation_identity R cfg now p =
     (case ap_reconciliation_attestation p of
        None \<Rightarrow> unsigned_status (ap_reconciled_by p)
      | Some att \<Rightarrow>
          (case ac_operator_trust cfg of
             None \<Rightarrow> \<lparr>is_ok = False, is_assurance = lit ''unverified'', is_operator = ap_reconciled_by p\<rparr>
           | Some T \<Rightarrow> assess_attestation R T now (Some att) p reconciliation_purpose
               (ap_reconciliation_outcome p) (ap_reconciled_by p) (ap_reconciliation_note p)))"

definition require_decision_identity ::
  "runtime \<Rightarrow> approval_config \<Rightarrow> int \<Rightarrow> approval \<Rightarrow> (approval_error, unit) result" where
  "require_decision_identity R cfg now p = (case ac_operator_trust cfg of
     None \<Rightarrow> return ()
   | Some _ \<Rightarrow> require (is_ok (decision_identity R cfg now p)) (ApprovalIdentity AttestationMismatch))"

definition ensure_rejected ::
  "runtime \<Rightarrow> approval_config \<Rightarrow> clock \<Rightarrow> pystr \<Rightarrow> pystr \<Rightarrow> pystr \<Rightarrow> attestation option
   \<Rightarrow> approval_data \<Rightarrow> (approval_error, approval \<times> approval_data) result" where
  "ensure_rejected R cfg ck approval_id decided_by note_text att d =
     bindR (fetch R approval_id d) (\<lambda>p.
       if ap_status p = Pending then decide R cfg ck approval_id False decided_by note_text att d
       else if ap_status p = Rejected \<and> ap_decided_by p = Some (py_strip decided_by)
           \<and> ap_note p = py_strip note_text \<and> ap_decision_attestation p = att
         then bindR (require_decision_identity R cfg (ck_now ck) p) (\<lambda>_. return (p, d))
       else raise NotTheRejection)"

subsection \<open>Execution\<close>

definition validate_for ::
  "runtime \<Rightarrow> approval_config \<Rightarrow> int \<Rightarrow> pystr \<Rightarrow> action \<Rightarrow> approval_data \<Rightarrow> (approval_error, approval) result" where
  "validate_for R cfg now approval_id a d =
     bindR (fetch R approval_id d) (\<lambda>p.
       if ap_status p \<notin> {Approved, Executing} then raise NotApproved
       else if is_expired R now p \<and> ap_status p \<noteq> Executing then raise ApprovalExpired
       else if ap_action_id p \<noteq> pa_action_id a then raise WrongAction
       else bindR (mapErr HashFailed (authorization_hash R a)) (\<lambda>h.
         if ap_authorization_hash p \<noteq> h then raise ChangedAction
         else bindR (require_decision_identity R cfg now p) (\<lambda>_. return p)))"

text \<open>An approval found expired is first written as expired; then the call fails.\<close>

definition begin_execution ::
  "runtime \<Rightarrow> approval_config \<Rightarrow> clock \<Rightarrow> pystr \<Rightarrow> action \<Rightarrow> (approval_data, approval_error, approval) effect" where
  "begin_execution R cfg ck approval_id a d =
     (case fetch R approval_id d of
        Inl e \<Rightarrow> (raise e, d)
      | Inr p \<Rightarrow>
          if ap_status p \<noteq> Approved then (raise NotExecutable, d)
          else if is_expired R (ck_now ck) p then
            (case update_stored R (expire_update (ck_stamp ck)) p d of
               Inl e \<Rightarrow> (raise e, d)
             | Inr (_, t) \<Rightarrow> (raise ApprovalExpired, t))
          else if ap_action_id p \<noteq> pa_action_id a then (raise WrongAction, d)
          else (case authorization_hash R a of
              Inl e \<Rightarrow> (raise (HashFailed e), d)
            | Inr h \<Rightarrow>
                if ap_authorization_hash p \<noteq> h then (raise ChangedAction, d)
                else (case bindR (require_decision_identity R cfg (ck_now ck) p) (\<lambda>_.
                    update_stored R (\<lambda>p. p\<lparr>ap_status := Executing\<rparr>) p d) of
                    Inl e \<Rightarrow> (raise e, d)
                  | Inr (q, t) \<Rightarrow> (return q, t))))"

definition consume_update :: "pystr \<Rightarrow> pystr \<Rightarrow> approval \<Rightarrow> approval" where
  "consume_update record_id stamp p =
     p\<lparr>ap_status := Consumed, ap_execution_record_id := record_id, ap_consumed_at := Some stamp\<rparr>"

definition mark_consumed ::
  "runtime \<Rightarrow> clock \<Rightarrow> pystr \<Rightarrow> pystr \<Rightarrow> approval_data \<Rightarrow> (approval_error, approval \<times> approval_data) result" where
  "mark_consumed R ck approval_id record_id d =
     bindR (fetch R approval_id d) (\<lambda>p.
       if ap_status p \<noteq> Executing then raise NotExecuting
       else if ap_reconciliation_outcome p \<noteq> [] then raise ReconciliationInProgress
       else update_stored R (consume_update record_id (ck_stamp ck)) p d)"

definition ensure_consumed ::
  "runtime \<Rightarrow> clock \<Rightarrow> pystr \<Rightarrow> pystr \<Rightarrow> approval_data \<Rightarrow> (approval_error, approval \<times> approval_data) result" where
  "ensure_consumed R ck approval_id record_id d =
     (if record_id = [] then raise ExecutionRecordRequired
      else bindR (fetch R approval_id d) (\<lambda>p.
        if ap_status p = Consumed then
          (if ap_execution_record_id p \<noteq> record_id then raise ConsumedByOtherEvidence else return (p, d))
        else if ap_status p \<noteq> Executing then raise NotExecuting
        else if ap_reconciliation_outcome p \<noteq> [] then raise ReconciliationInProgress
        else update_stored R (consume_update record_id (ck_stamp ck)) p d))"

subsection \<open>Reconciliation\<close>

definition intent_update :: "pystr \<Rightarrow> pystr \<Rightarrow> pystr \<Rightarrow> pystr \<Rightarrow> attestation option \<Rightarrow> approval \<Rightarrow> approval" where
  "intent_update outcome operator remark started_at att p =
     p\<lparr>ap_reconciliation_outcome := outcome, ap_reconciled_by := operator,
       ap_reconciliation_note := remark, ap_reconciliation_started_at := Some started_at,
       ap_reconciliation_attestation := att\<rparr>"

definition begin_reconciliation ::
  "runtime \<Rightarrow> approval_config \<Rightarrow> clock \<Rightarrow> pystr \<Rightarrow> pystr \<Rightarrow> pystr \<Rightarrow> pystr \<Rightarrow> attestation option
   \<Rightarrow> approval_data \<Rightarrow> (approval_error, approval \<times> approval_data) result" where
  "begin_reconciliation R cfg ck approval_id outcome reconciled_by note_text att d =
     (if outcome \<notin> set reconciliation_outcomes then raise InvalidReconciliationOutcome
      else if py_strip reconciled_by = [] then raise OperatorRequired
      else if py_strip note_text = [] then raise NoteRequired
      else let operator = py_strip reconciled_by; remark = py_strip note_text in
        bindR (fetch R approval_id d) (\<lambda>p.
          if ap_reconciliation_outcome p \<noteq> [] then
            (if (ap_reconciliation_outcome p, ap_reconciled_by p, ap_reconciliation_note p)
                \<noteq> (outcome, operator, remark) then raise DifferentReconciliationInput
             else if ap_status p \<notin> {Executing, Consumed} then raise NotReconcilable
             else if ac_operator_trust cfg \<noteq> None \<and> \<not> is_ok (reconciliation_identity R cfg (ck_now ck) p)
               then raise (ApprovalIdentity AttestationMismatch)
             else return (p, d))
          else if ap_status p \<noteq> Executing then raise NotExecuting
          else bindR (case ac_operator_trust cfg of
              None \<Rightarrow> require (att = None) AttestationWithoutTrust
            | Some T \<Rightarrow> mapErr ApprovalIdentity (require_attestation R T (ck_now ck) att p
                reconciliation_purpose outcome operator remark)) (\<lambda>_.
            update_stored R (intent_update outcome operator remark (signed_at_of att (ck_stamp ck)) att) p d)))"

definition reconciled_update :: "pystr \<Rightarrow> pystr \<Rightarrow> approval \<Rightarrow> approval" where
  "reconciled_update record_id stamp p =
     (consume_update record_id stamp p)\<lparr>ap_reconciliation_completed_at := Some stamp\<rparr>"

definition mark_reconciled ::
  "runtime \<Rightarrow> clock \<Rightarrow> pystr \<Rightarrow> pystr \<Rightarrow> approval_data \<Rightarrow> (approval_error, approval \<times> approval_data) result" where
  "mark_reconciled R ck approval_id record_id d =
     (if record_id = [] then raise ExecutionRecordRequired
      else bindR (fetch R approval_id d) (\<lambda>p.
        if ap_reconciliation_outcome p = [] then raise NoReconciliationIntent
        else if ap_status p = Consumed then
          (if ap_execution_record_id p \<noteq> record_id then raise ConsumedByOtherEvidence else return (p, d))
        else if ap_status p \<noteq> Executing then raise NotExecuting
        else update_stored R (reconciled_update record_id (ck_stamp ck)) p d))"

end
