(* ===== verification/ApprovalFacts.thy ===== *)
theory ApprovalFacts
  imports Approvals
begin

text \<open>
  What every operation of the approval queue keeps: a stored file stays valid, an approval keeps
  everything it was bound to, and its status only moves along its life cycle.
\<close>

subsection \<open>Valid files\<close>

definition store_ok :: "runtime \<Rightarrow> approval_data \<Rightarrow> bool" where
  "store_ok R d \<longleftrightarrow> wf_dict d
     \<and> (\<forall>kp \<in> set d. fst kp \<noteq> [] \<and> approval_ok R (snd kp) \<and> ap_approval_id (snd kp) = fst kp)"

lemma check_stored_Inr [simp]:
  "check_stored R kp = return u \<longleftrightarrow>
     fst kp \<noteq> [] \<and> approval_ok R (snd kp) \<and> ap_approval_id (snd kp) = fst kp"
  by (auto simp: check_stored_def approval_ok_def)

lemma read_all_Inr [simp]:
  "read_all R d = return t \<longleftrightarrow> t = d \<and> (\<forall>kp \<in> set d. check_stored R kp = return ())"
  by (auto simp: read_all_def)

lemma store_ok_read: "store_ok R d \<Longrightarrow> read_all R d = return d"
  by (simp add: store_ok_def)

lemma store_ok_get:
  "store_ok R d \<Longrightarrow> dict_get k d = Some p \<Longrightarrow> k \<noteq> [] \<and> approval_ok R p \<and> ap_approval_id p = k"
  by (fastforce simp: store_ok_def dest: dict_get_in_set)

lemma fetch_Inr: "store_ok R d \<Longrightarrow> fetch R k d = return p \<longleftrightarrow> dict_get k d = Some p"
  by (auto simp: fetch_def store_ok_read bindR_def split: option.splits)

lemma fetchE:
  assumes "fetch R k d = return p"
  obtains "dict_get k d = Some p"
  using assms by (auto simp: fetch_def split: option.splits)

lemma write_all_Inr [simp]:
  "write_all d = return t \<longleftrightarrow> t = sort_keys d \<and> (\<forall>kp \<in> set d. fst kp \<noteq> [] \<and> ap_approval_id (snd kp) = fst kp)"
  by (auto simp: write_all_def list_ex_iff)

text \<open>Storing one validated approval.\<close>

lemma store_ok_put:
  assumes "store_ok R d" "approval_ok R p" "ap_approval_id p = k" "k \<noteq> []"
  shows "store_ok R (sort_keys (dict_put k p d))"
  using assms set_dict_put_subset [of k p d] by (fastforce simp: store_ok_def)

lemma store_approvalE:
  assumes "store_approval p d = return (q, t)"
  obtains "q = p" "t = sort_keys (dict_put (ap_approval_id p) p d)" "ap_approval_id p \<noteq> []"
proof -
  have *: "q = p" "t = sort_keys (dict_put (ap_approval_id p) p d)"
    "\<forall>kp \<in> set (dict_put (ap_approval_id p) p d). fst kp \<noteq> []"
    using assms by (auto simp: store_approval_def)
  moreover have "(ap_approval_id p, p) \<in> set (dict_put (ap_approval_id p) p d)"
    by (rule dict_get_in_set) simp
  ultimately show ?thesis using that by fastforce
qed

lemma store_approval_ok:
  "store_ok R d \<Longrightarrow> ap_approval_id p \<noteq> [] \<Longrightarrow>
   store_approval p d = return (p, sort_keys (dict_put (ap_approval_id p) p d))"
proof -
  assume "store_ok R d" "ap_approval_id p \<noteq> []"
  then have "write_all (dict_put (ap_approval_id p) p d) = return (sort_keys (dict_put (ap_approval_id p) p d))"
    using set_dict_put_subset [of "ap_approval_id p" p d] by (fastforce simp: store_ok_def)
  then show ?thesis by (simp add: store_approval_def)
qed

lemma update_storedE:
  assumes "update_stored R f p d = return (q, t)"
  obtains "q = f p" "approval_ok R (f p)" "t = sort_keys (dict_put (ap_approval_id (f p)) (f p) d)"
  using assms by (auto simp: update_stored_def elim!: store_approvalE)

lemma update_result: "update_stored R f p d = return (q, t) \<Longrightarrow> q = f p"
  by (rule update_storedE)

lemma update_stored_ok:
  "store_ok R d \<Longrightarrow> approval_ok R (f p) \<Longrightarrow> ap_approval_id (f p) \<noteq> [] \<Longrightarrow>
   update_stored R f p d = return (f p, sort_keys (dict_put (ap_approval_id (f p)) (f p) d))"
  by (auto simp: update_stored_def store_approval_ok with_updates_def approval_ok_def)

subsection \<open>The life cycle\<close>

inductive lifecycle :: "approval_status \<Rightarrow> approval_status \<Rightarrow> bool" where
  approve: "lifecycle Pending Approved"
| reject: "lifecycle Pending Rejected"
| lapse: "lifecycle Pending Expired"
| lapse_approved: "lifecycle Approved Expired"
| start: "lifecycle Approved Executing"
| finish: "lifecycle Executing Consumed"

inductive_simps lifecycle_from [simp]:
  "lifecycle Pending s" "lifecycle Approved s" "lifecycle Executing s"
  "lifecycle Rejected s" "lifecycle Expired s" "lifecycle Consumed s"

code_pred lifecycle .

text \<open>What an approval is bound to: everything except its status and what an operator recorded.\<close>

definition binding_of :: "approval \<Rightarrow> approval" where
  "binding_of p = p\<lparr>ap_status := Pending, ap_decided_by := None, ap_decided_at := None, ap_note := [],
     ap_decision_attestation := None, ap_execution_record_id := [], ap_consumed_at := None,
     ap_reconciliation_outcome := [], ap_reconciled_by := [], ap_reconciliation_note := [],
     ap_reconciliation_started_at := None, ap_reconciliation_completed_at := None,
     ap_reconciliation_attestation := None\<rparr>"

definition advances :: "approval \<Rightarrow> approval \<Rightarrow> bool" where
  "advances p q \<longleftrightarrow> binding_of q = binding_of p
     \<and> (ap_status q = ap_status p \<or> lifecycle (ap_status p) (ap_status q))
     \<and> (ap_status p \<notin> {Pending} \<longrightarrow> ap_decided_by q = ap_decided_by p
         \<and> ap_decision_attestation q = ap_decision_attestation p)"

lemma advances_refl [simp]: "advances p p"
  by (simp add: advances_def)

lemma binding_fields:
  assumes "binding_of q = binding_of p"
  shows "ap_action_id q = ap_action_id p" "ap_approval_id q = ap_approval_id p"
    "ap_authorization_hash q = ap_authorization_hash p" "ap_expires_at q = ap_expires_at p"
    "ap_payload_hash q = ap_payload_hash p" "ap_action_snapshot q = ap_action_snapshot p"
  using arg_cong [OF assms, of ap_action_id] arg_cong [OF assms, of ap_approval_id]
    arg_cong [OF assms, of ap_authorization_hash] arg_cong [OF assms, of ap_expires_at]
    arg_cong [OF assms, of ap_payload_hash] arg_cong [OF assms, of ap_action_snapshot]
  by (simp_all add: binding_of_def)

lemma updates_advance:
  "ap_status p = Pending \<Longrightarrow> advances p (decide_update b x y z w p)"
  "ap_status p = Pending \<or> ap_status p = Approved \<Longrightarrow> advances p (expire_update s p)"
  "ap_status p = Approved \<Longrightarrow> advances p (p\<lparr>ap_status := Executing\<rparr>)"
  "ap_status p = Executing \<Longrightarrow> advances p (consume_update r s p)"
  "ap_status p = Executing \<Longrightarrow> advances p (intent_update o' x y z w p)"
  "ap_status p = Executing \<Longrightarrow> advances p (reconciled_update r s p)"
  by (auto simp: advances_def binding_of_def decide_update_def expire_update_def consume_update_def
      intent_update_def reconciled_update_def)

text \<open>A file after an operation: no approval is lost, none goes back.\<close>

definition evolves :: "approval_data \<Rightarrow> approval_data \<Rightarrow> bool" where
  "evolves d t \<longleftrightarrow> (\<forall>k p. dict_get k d = Some p \<longrightarrow> (\<exists>q. dict_get k t = Some q \<and> advances p q))"

lemma evolves_refl [simp]: "evolves d d"
  by (simp add: evolves_def)

text \<open>An operation that changes one stored approval, or none.\<close>

lemma single_update:
  assumes ok: "store_ok R d" and p: "dict_get k d = Some p" and a: "advances p (f p)"
    and u: "update_stored R f p d = return (q, t)"
  shows "store_ok R t \<and> evolves d t \<and> q = f p \<and> (\<forall>k'. dict_get k' t = (if k' = k then Some q else dict_get k' d))"
proof -
  have i: "ap_approval_id p = k" "k \<noteq> []" using store_ok_get [OF ok p] by auto
  have i': "ap_approval_id (f p) = k"
    using a i(1) binding_fields(2) [of "f p" p] by (simp add: advances_def)
  from u obtain q: "q = f p" "approval_ok R (f p)"
    and "t = sort_keys (dict_put (ap_approval_id (f p)) (f p) d)" by (rule update_storedE)
  then have t: "t = sort_keys (dict_put k (f p) d)" by (simp only: i')
  have w: "wf_dict (dict_put k (f p) d)" using ok by (simp add: store_ok_def)
  have g: "dict_get k' t = (if k' = k then Some q else dict_get k' d)" for k'
    by (simp add: t q w)
  show ?thesis
    using store_ok_put [OF ok q(2) i' i(2)] g p a by (auto simp: t q evolves_def)
qed


subsection \<open>Operations\<close>

text \<open>
  The file after a call, whether the call returned or raised, and the calls that may write it.
\<close>

definition left_in :: "approval_data \<Rightarrow> (approval_error, 'a \<times> approval_data) result \<Rightarrow> approval_data" where
  "left_in d r = (case r of Inl _ \<Rightarrow> d | Inr (_, t) \<Rightarrow> t)"

datatype approval_call =
    CreatePrepared approval
  | ExpireDue int clock
  | ExpireOne clock pystr
  | Decide clock pystr bool pystr pystr "attestation option"
  | EnsureRejected clock pystr pystr pystr "attestation option"
  | BeginExecution clock pystr action
  | MarkConsumed clock pystr pystr
  | EnsureConsumed clock pystr pystr
  | BeginReconciliation clock pystr pystr pystr pystr "attestation option"
  | MarkReconciled clock pystr pystr

fun after_call :: "runtime \<Rightarrow> approval_config \<Rightarrow> approval_call \<Rightarrow> approval_data \<Rightarrow> approval_data" where
  "after_call R cfg (CreatePrepared p) d = left_in d (create_prepared R p d)"
| "after_call R cfg (ExpireDue now ck) d = left_in d (expire_due R now ck d)"
| "after_call R cfg (ExpireOne ck k) d = left_in d (expire_one R ck k d)"
| "after_call R cfg (Decide ck k b x y w) d = left_in d (decide R cfg ck k b x y w d)"
| "after_call R cfg (EnsureRejected ck k x y w) d = left_in d (ensure_rejected R cfg ck k x y w d)"
| "after_call R cfg (BeginExecution ck k a) d = snd (begin_execution R cfg ck k a d)"
| "after_call R cfg (MarkConsumed ck k r) d = left_in d (mark_consumed R ck k r d)"
| "after_call R cfg (EnsureConsumed ck k r) d = left_in d (ensure_consumed R ck k r d)"
| "after_call R cfg (BeginReconciliation ck k o' x y w) d =
     left_in d (begin_reconciliation R cfg ck k o' x y w d)"
| "after_call R cfg (MarkReconciled ck k r) d = left_in d (mark_reconciled R ck k r d)"

text \<open>A call that writes at most one approval and moves it along its life cycle.\<close>

definition touches :: "runtime \<Rightarrow> approval_data \<Rightarrow> pystr \<Rightarrow> approval \<times> approval_data \<Rightarrow> bool" where
  "touches R d k qt \<longleftrightarrow> store_ok R (snd qt) \<and> evolves d (snd qt) \<and> dict_get k (snd qt) = Some (fst qt)
     \<and> dict_get k d \<noteq> None \<and> (\<forall>k'. k' \<noteq> k \<longrightarrow> dict_get k' (snd qt) = dict_get k' d)"

lemma touchesI:
  assumes "store_ok R d" "dict_get k d = Some p" "advances p (f p)" "update_stored R f p d = return (q, t)"
  shows "touches R d k (q, t)"
  using single_update [OF assms] assms(2) by (simp add: touches_def)

lemma touches_same: "store_ok R d \<Longrightarrow> dict_get k d = Some p \<Longrightarrow> touches R d k (p, d)"
  by (simp add: touches_def)

lemma expire_one_touches:
  "store_ok R d \<Longrightarrow> expire_one R ck k d = return (q, t) \<Longrightarrow> touches R d k (q, t)"
  by (auto simp: expire_one_def fetch_Inr touches_same intro: touchesI updates_advance split: if_splits)

lemma decide_touches:
  "store_ok R d \<Longrightarrow> decide R cfg ck k b x y w d = return (q, t) \<Longrightarrow> touches R d k (q, t)"
  by (auto simp: decide_def fetch_Inr intro: touchesI updates_advance split: if_splits)

lemma ensure_rejected_touches:
  "store_ok R d \<Longrightarrow> ensure_rejected R cfg ck k x y w d = return (q, t) \<Longrightarrow> touches R d k (q, t)"
  by (auto simp: ensure_rejected_def fetch_Inr touches_same intro: decide_touches split: if_splits)

lemma mark_consumed_touches:
  "store_ok R d \<Longrightarrow> mark_consumed R ck k r d = return (q, t) \<Longrightarrow> touches R d k (q, t)"
  by (auto simp: mark_consumed_def fetch_Inr intro: touchesI updates_advance split: if_splits)

lemma ensure_consumed_touches:
  "store_ok R d \<Longrightarrow> ensure_consumed R ck k r d = return (q, t) \<Longrightarrow> touches R d k (q, t)"
  by (auto simp: ensure_consumed_def fetch_Inr touches_same intro: touchesI updates_advance split: if_splits)

lemma begin_reconciliation_touches:
  "store_ok R d \<Longrightarrow> begin_reconciliation R cfg ck k o' x y w d = return (q, t) \<Longrightarrow> touches R d k (q, t)"
  by (auto simp: begin_reconciliation_def Let_def fetch_Inr touches_same
      intro: touchesI updates_advance split: if_splits option.splits)

lemma mark_reconciled_touches:
  "store_ok R d \<Longrightarrow> mark_reconciled R ck k r d = return (q, t) \<Longrightarrow> touches R d k (q, t)"
  by (auto simp: mark_reconciled_def fetch_Inr touches_same intro: touchesI updates_advance split: if_splits)

lemma begin_executionE:
  assumes "store_ok R d" "begin_execution R cfg ck k a d = (return q, t)"
  obtains p where "dict_get k d = Some p" "ap_status p = Approved" "\<not> is_expired R (ck_now ck) p"
    "ap_action_id p = pa_action_id a" "authorization_hash R a = return (ap_authorization_hash p)"
    "require_decision_identity R cfg (ck_now ck) p = return ()"
    "update_stored R (\<lambda>p. p\<lparr>ap_status := Executing\<rparr>) p d = return (q, t)"
proof -
  obtain p where f: "fetch R k d = return p" "dict_get k d = Some p"
    using assms by (cases "fetch R k d") (auto simp: begin_execution_def fetch_Inr)
  then show ?thesis
    using assms(2) that [OF f(2)]
    by (auto simp: begin_execution_def bindR_def split: if_splits sum.splits prod.splits)
qed

lemma begin_execution_touches:
  assumes "store_ok R d" "begin_execution R cfg ck k a d = (r, t)"
  shows "t = d \<or> (\<exists>q. touches R d k (q, t) \<and>
    ((r = return q \<and> ap_status q = Executing) \<or> (r = raise ApprovalExpired \<and> ap_status q = Expired)))"
proof (cases "fetch R k d")
  case (Inr p)
  then have g: "dict_get k d = Some p" using assms(1) by (simp add: fetch_Inr)
  note u = touchesI [OF assms(1) g]
  show ?thesis
    using assms(2) Inr u [of "expire_update (ck_stamp ck)"] u [of "\<lambda>p. p\<lparr>ap_status := Executing\<rparr>"]
      updates_advance(2) [of p] updates_advance(3) [of p]
    by (auto simp: begin_execution_def bindR_def expire_update_def
        split: if_splits sum.splits prod.splits elim!: update_storedE)
qed (use assms in \<open>simp add: begin_execution_def\<close>)

text \<open>No approval appears out of nothing.\<close>

definition descends :: "approval_data \<Rightarrow> approval_data \<Rightarrow> bool" where
  "descends d t \<longleftrightarrow> (\<forall>k q. dict_get k t = Some q \<longrightarrow> (\<exists>p. dict_get k d = Some p \<and> advances p q))"

lemma touches_descends: "touches R d k qt \<Longrightarrow> descends d (snd qt)"
  unfolding touches_def descends_def evolves_def by (metis advances_refl not_None_eq option.inject)

lemma touches_after: "(\<And>q t. r = return (q, t) \<Longrightarrow> touches R d k (q, t)) \<Longrightarrow> store_ok R d \<Longrightarrow>
    store_ok R (left_in d r) \<and> evolves d (left_in d r)"
  by (auto simp: left_in_def touches_def split: sum.splits)


text \<open>The expiry of everything that is due rewrites each entry on its own.\<close>

definition expire_if_due :: "runtime \<Rightarrow> int \<Rightarrow> pystr \<Rightarrow> approval \<Rightarrow> approval" where
  "expire_if_due R now stamp p = (if is_due R now p then expire_update stamp p else p)"

lemma expire_entries:
  "mapR (expire_entry R now ck) d = return t \<Longrightarrow>
   t = map (\<lambda>kp. (fst kp, expire_if_due R now (ck_stamp ck) (snd kp))) d
   \<and> (\<forall>kp \<in> set d. is_due R now (snd kp) \<longrightarrow> approval_ok R (expire_update (ck_stamp ck) (snd kp)))"
  by (induction d arbitrary: t) (auto simp: expire_entry_def expire_if_due_def split: if_splits)

lemma dict_get_map_values: "dict_get k (map (\<lambda>kp. (fst kp, g (snd kp))) d) = map_option g (dict_get k d)"
  by (induction d) (auto simp: dict_get_def)

lemma wf_dict_map_values [simp]: "wf_dict (map (\<lambda>kp. (fst kp, g (snd kp))) d) = wf_dict d"
  by (simp add: wf_dict_def comp_def)

lemma expire_if_due_advances: "advances p (expire_if_due R now s p)"
  by (auto simp: expire_if_due_def is_due_def intro: updates_advance)

lemma expire_due_facts:
  assumes ok: "store_ok R d" and e: "expire_due R now ck d = return (ps, t)"
  shows "store_ok R t \<and> (\<forall>k. dict_get k t = map_option (expire_if_due R now (ck_stamp ck)) (dict_get k d))"
proof -
  let ?g = "expire_if_due R now (ck_stamp ck)"
  have r: "read_all R d = return d" by (rule store_ok_read [OF ok])
  show ?thesis
  proof (cases "filter (is_due R now) (map snd d) = []")
    case True
    then have "t = d" using e r by (auto simp: expire_due_def Let_def)
    moreover have "map_option ?g (dict_get k d) = dict_get k d" for k
      using True dict_get_in_set [of k d]
      by (cases "dict_get k d") (force simp: expire_if_due_def filter_empty_conv)+
    ultimately show ?thesis using ok by simp
  next
    case False
    then obtain u where u: "mapR (expire_entry R now ck) d = return u" "write_all u = return t"
      using e r by (auto simp: expire_due_def Let_def)
    have w: "wf_dict d" using ok by (simp add: store_ok_def)
    have t: "t = sort_keys (map (\<lambda>kp. (fst kp, ?g (snd kp))) d)"
      using u(2) expire_entries [OF u(1)] by simp
    have i: "ap_approval_id (?g p) = ap_approval_id p" for p
      by (simp add: expire_if_due_def expire_update_def)
    have "approval_ok R (?g (snd kp))" if "kp \<in> set d" for kp
      using ok expire_entries [OF u(1)] that by (auto simp: store_ok_def expire_if_due_def)
    then have "store_ok R t" using ok by (auto simp: store_ok_def t i)
    then show ?thesis using w by (simp add: t dict_get_map_values)
  qed
qed

lemma create_prepared_facts:
  assumes ok: "store_ok R d" and p: "approval_ok R p" and c: "create_prepared R p d = return (q, t)"
  shows "q = p \<and> store_ok R t \<and> dict_get (ap_approval_id p) t = Some p
    \<and> (\<forall>k. k \<noteq> ap_approval_id p \<longrightarrow> dict_get k t = dict_get k d)
    \<and> (t = d \<or> dict_get (ap_approval_id p) d = None
        \<and> (\<forall>k r. dict_get k d = Some r \<longrightarrow> ap_action_id r = ap_action_id p \<longrightarrow> \<not> is_active r))"
proof (cases "dict_get (ap_approval_id p) d")
  case None
  then have n: "\<not> list_ex (\<lambda>kq. ap_action_id (snd kq) = ap_action_id p \<and> is_active (snd kq)) d"
    and s: "store_approval p d = return (q, t)"
    using c store_ok_read [OF ok] by (auto simp: create_prepared_def split: if_splits)
  have w: "wf_dict (dict_put (ap_approval_id p) p d)" using ok by (simp add: store_ok_def)
  have free: "\<forall>k r. dict_get k d = Some r \<longrightarrow> ap_action_id r = ap_action_id p \<longrightarrow> \<not> is_active r"
    using n by (fastforce simp: list_ex_iff dest: dict_get_in_set)
  from s obtain "q = p" and t: "t = sort_keys (dict_put (ap_approval_id p) p d)" and "ap_approval_id p \<noteq> []"
    by (rule store_approvalE)
  then show ?thesis using store_ok_put [OF ok p refl] None free w by simp
next
  case (Some r)
  then show ?thesis using c store_ok_read [OF ok] ok
    by (auto simp: create_prepared_def split: if_splits)
qed

text \<open>A prepared approval was validated when it was built.\<close>

fun call_ok :: "runtime \<Rightarrow> approval_call \<Rightarrow> bool" where
  "call_ok R (CreatePrepared p) = approval_ok R p"
| "call_ok R _ = True"

lemma call_evolves:
  assumes ok: "store_ok R d" and c: "call_ok R c"
  shows "store_ok R (after_call R cfg c d) \<and> evolves d (after_call R cfg c d)"
proof (cases c)
  case (CreatePrepared p)
  have "store_ok R t \<and> evolves d t" if "create_prepared R p d = return (q, t)" for q t
    using create_prepared_facts [OF ok _ that] c CreatePrepared
    by (auto simp: evolves_def) (metis advances_refl option.distinct(1))
  then show ?thesis using ok CreatePrepared by (auto simp: left_in_def split: sum.splits)
next
  case (ExpireDue now ck)
  have "store_ok R t \<and> evolves d t" if "expire_due R now ck d = return (ps, t)" for ps t
    using expire_due_facts [OF ok that] expire_if_due_advances by (auto simp: evolves_def)
  then show ?thesis using ok ExpireDue by (auto simp: left_in_def split: sum.splits)
next
  case (BeginExecution ck k a)
  obtain r t where e: "begin_execution R cfg ck k a d = (r, t)" by fastforce
  then show ?thesis using begin_execution_touches [OF ok e] ok BeginExecution
    by (auto simp: touches_def)
next
  case (ExpireOne ck k)
  then show ?thesis using touches_after [OF expire_one_touches [OF ok] ok] by simp
next
  case (Decide ck k b x y w)
  then show ?thesis using touches_after [OF decide_touches [OF ok] ok] by simp
next
  case (EnsureRejected ck k x y w)
  then show ?thesis using touches_after [OF ensure_rejected_touches [OF ok] ok] by simp
next
  case (MarkConsumed ck k r)
  then show ?thesis using touches_after [OF mark_consumed_touches [OF ok] ok] by simp
next
  case (EnsureConsumed ck k r)
  then show ?thesis using touches_after [OF ensure_consumed_touches [OF ok] ok] by simp
next
  case (BeginReconciliation ck k o' x y w)
  then show ?thesis using touches_after [OF begin_reconciliation_touches [OF ok] ok] by simp
next
  case (MarkReconciled ck k r)
  then show ?thesis using touches_after [OF mark_reconciled_touches [OF ok] ok] by simp
qed

text \<open>At most one approval of an action is pending, approved or executing.\<close>

definition one_active :: "approval_data \<Rightarrow> bool" where
  "one_active d \<longleftrightarrow> (\<forall>k l p q. dict_get k d = Some p \<longrightarrow> dict_get l d = Some q \<longrightarrow>
     is_active p \<longrightarrow> is_active q \<longrightarrow> ap_action_id p = ap_action_id q \<longrightarrow> k = l)"

lemma advances_active: "advances p q \<Longrightarrow> is_active q \<Longrightarrow> is_active p \<and> ap_action_id p = ap_action_id q"
  using binding_fields(1) [of q p] by (cases "ap_status p") (auto simp: advances_def is_active_def)

lemma descends_one_active: "descends d t \<Longrightarrow> one_active d \<Longrightarrow> one_active t"
  unfolding one_active_def
proof (intro allI impI)
  fix k l p q
  assume d: "descends d t" and g: "dict_get k t = Some p" "dict_get l t = Some q" and a: "is_active p" "is_active q"
    "ap_action_id p = ap_action_id q" and u: "\<forall>k l p q. dict_get k d = Some p \<longrightarrow> dict_get l d = Some q \<longrightarrow>
     is_active p \<longrightarrow> is_active q \<longrightarrow> ap_action_id p = ap_action_id q \<longrightarrow> k = l"
  obtain p' where p': "dict_get k d = Some p'" "advances p' p" using d g(1) by (auto simp: descends_def)
  obtain q' where q': "dict_get l d = Some q'" "advances q' q" using d g(2) by (auto simp: descends_def)
  show "k = l"
    using u p'(1) q'(1) advances_active [OF p'(2) a(1)] advances_active [OF q'(2) a(2)] a(3) by metis
qed

lemma one_active_new:
  assumes "one_active d" "dict_get (ap_approval_id p) t = Some p"
    "\<forall>k. k \<noteq> ap_approval_id p \<longrightarrow> dict_get k t = dict_get k d"
    "\<forall>k r. dict_get k d = Some r \<longrightarrow> ap_action_id r = ap_action_id p \<longrightarrow> \<not> is_active r"
  shows "one_active t"
  unfolding one_active_def
proof (intro allI impI)
  fix k l x y
  assume g: "dict_get k t = Some x" "dict_get l t = Some y" "is_active x" "is_active y"
    "ap_action_id x = ap_action_id y"
  show "k = l"
  proof (cases "k = ap_approval_id p \<or> l = ap_approval_id p")
    case True
    then show ?thesis using g assms(2,3,4) by (metis option.inject)
  next
    case False
    then show ?thesis using g assms(1,3) by (simp add: one_active_def)
  qed
qed

lemma left_in_descends:
  "(\<And>q t. r = return (q, t) \<Longrightarrow> touches R d k (q, t)) \<Longrightarrow> descends d (left_in d r)"
  using touches_descends [of R d k] by (auto simp: left_in_def descends_def split: sum.splits)

lemma call_one_active:
  assumes ok: "store_ok R d" and c: "call_ok R c" and u: "one_active d"
  shows "one_active (after_call R cfg c d)"
proof (cases c)
  case (CreatePrepared p)
  have "one_active t" if "create_prepared R p d = return (q, t)" for q t
    using create_prepared_facts [OF ok _ that] c CreatePrepared u
    by (auto intro: one_active_new)
  then show ?thesis using u CreatePrepared by (auto simp: left_in_def split: sum.splits)
next
  case (ExpireDue now ck)
  have "one_active t" if "expire_due R now ck d = return (ps, t)" for ps t
    using expire_due_facts [OF ok that] expire_if_due_advances
    by (intro descends_one_active [OF _ u]) (auto simp: descends_def)
  then show ?thesis using u ExpireDue by (auto simp: left_in_def split: sum.splits)
next
  case (BeginExecution ck k a)
  obtain r t where e: "begin_execution R cfg ck k a d = (r, t)" by fastforce
  then have "t = d \<or> descends d t"
    using begin_execution_touches [OF ok e] touches_descends by fastforce
  then show ?thesis using u e BeginExecution descends_one_active by auto
next
  case (ExpireOne ck k)
  then show ?thesis using descends_one_active [OF left_in_descends [OF expire_one_touches [OF ok]] u] by simp
next
  case (Decide ck k b x y w)
  then show ?thesis using descends_one_active [OF left_in_descends [OF decide_touches [OF ok]] u] by simp
next
  case (EnsureRejected ck k x y w)
  then show ?thesis using descends_one_active [OF left_in_descends [OF ensure_rejected_touches [OF ok]] u] by simp
next
  case (MarkConsumed ck k r)
  then show ?thesis using descends_one_active [OF left_in_descends [OF mark_consumed_touches [OF ok]] u] by simp
next
  case (EnsureConsumed ck k r)
  then show ?thesis using descends_one_active [OF left_in_descends [OF ensure_consumed_touches [OF ok]] u] by simp
next
  case (BeginReconciliation ck k o' x y w)
  then show ?thesis using descends_one_active [OF left_in_descends [OF begin_reconciliation_touches [OF ok]] u] by simp
next
  case (MarkReconciled ck k r)
  then show ?thesis using descends_one_active [OF left_in_descends [OF mark_reconciled_touches [OF ok]] u] by simp
qed

subsection \<open>Runs of calls\<close>

definition after_calls :: "runtime \<Rightarrow> approval_config \<Rightarrow> approval_call list \<Rightarrow> approval_data \<Rightarrow> approval_data" where
  "after_calls R cfg cs d = foldl (\<lambda>d c. after_call R cfg c d) d cs"

lemma after_calls_simps [simp]:
  "after_calls R cfg [] d = d"
  "after_calls R cfg (c # cs) d = after_calls R cfg cs (after_call R cfg c d)"
  by (simp_all add: after_calls_def)

definition later :: "approval \<Rightarrow> approval \<Rightarrow> bool" where
  "later p q \<longleftrightarrow> binding_of q = binding_of p \<and> lifecycle\<^sup>*\<^sup>* (ap_status p) (ap_status q)"

lemma later_trans: "later p q \<Longrightarrow> later q r \<Longrightarrow> later p r"
  by (auto simp: later_def)

lemma advances_later: "advances p q \<Longrightarrow> later p q"
  by (auto simp: advances_def later_def)

lemma calls_later:
  "store_ok R d \<Longrightarrow> \<forall>c \<in> set cs. call_ok R c \<Longrightarrow>
   store_ok R (after_calls R cfg cs d) \<and>
   (\<forall>k p. dict_get k d = Some p \<longrightarrow> (\<exists>q. dict_get k (after_calls R cfg cs d) = Some q \<and> later p q))"
proof (induction cs arbitrary: d)
  case Nil
  then show ?case by (auto simp: later_def)
next
  case (Cons c cs)
  have 1: "store_ok R (after_call R cfg c d)" "evolves d (after_call R cfg c d)"
    using call_evolves [OF Cons.prems(1), of c cfg] Cons.prems(2) by auto
  have 2: "\<forall>c \<in> set cs. call_ok R c" using Cons.prems(2) by simp
  show ?case
    using Cons.IH [OF 1(1) 2] 1(2) advances_later later_trans unfolding evolves_def after_calls_simps by meson
qed

lemma lifecycle_closed:
  "lifecycle\<^sup>*\<^sup>* s t \<Longrightarrow> (s = Executing \<longrightarrow> t \<in> {Executing, Consumed})
     \<and> (s \<in> {Rejected, Expired, Consumed} \<longrightarrow> t = s) \<and> (s = Approved \<longrightarrow> t \<noteq> Pending \<and> t \<noteq> Rejected)"
proof (induction rule: rtranclp_induct)
  case (step y z)
  then show ?case by (cases y; cases z) auto
qed auto

end
