(* ===== verification/ApprovalRecovery.thy ===== *)
theory ApprovalRecovery
  imports ApprovalFacts Recovery
begin

text \<open>
  The operations of the approval queue that the operation journal repeats after a crash: each
  recognises its own earlier effect (\<open>recoverable\<close>). An operator's attestation is checked against
  the clock on every call, so decisions and reconciliations are shown for queues without trust pins.
\<close>

lemma touches_valid: "touches R d k (q, t) \<Longrightarrow> store_ok R t"
  by (simp add: touches_def)

lemma touches_get: "touches R d k (q, t) \<Longrightarrow> dict_get k t = Some q"
  by (simp add: touches_def)

definition unsigned_config :: "int \<Rightarrow> approval_config" where
  "unsigned_config ttl = \<lparr>ac_default_ttl_minutes = ttl, ac_operator_trust = None\<rparr>"

lemma unsigned_trust [simp]: "ac_operator_trust (unsigned_config ttl) = None"
  by (simp add: unsigned_config_def)

lemma fetch_touched: "touches R d k (q, t) \<Longrightarrow> fetch R k t = return q"
  by (simp add: fetch_Inr [OF touches_valid] touches_get)

lemma expire_oneE:
  assumes "expire_one R ck k d = return (q, t)"
  obtains "t = d" "ap_status q = Expired"
  | p where "update_stored R (expire_update (ck_stamp ck)) p d = return (q, t)"
  using assms by (auto simp: expire_one_def split: if_splits)

lemma begin_reconciliationE:
  assumes "begin_reconciliation R cfg ck k o' x y w d = return (q, t)"
  obtains "o' \<in> set reconciliation_outcomes" "py_strip x \<noteq> []" "py_strip y \<noteq> []"
    "t = d" "ap_reconciliation_outcome q = o'" "ap_reconciled_by q = py_strip x"
    "ap_reconciliation_note q = py_strip y" "ap_status q \<in> {Executing, Consumed}"
  | p where "o' \<in> set reconciliation_outcomes" "py_strip x \<noteq> []" "py_strip y \<noteq> []" "ap_status p = Executing"
    "update_stored R (intent_update o' (py_strip x) (py_strip y) (signed_at_of w (ck_stamp ck)) w) p d
      = return (q, t)"
  using assms by (auto simp: begin_reconciliation_def Let_def split: if_splits)

lemma expire_one_again:
  assumes "store_ok R d" "expire_one R ck k d = return (q, t)"
  shows "expire_one R ck' k t = return (q, t)"
proof -
  have "ap_status q = Expired"
    using assms(2) by (cases rule: expire_oneE) (auto simp: expire_update_def dest: update_result)
  then show ?thesis
    by (simp add: expire_one_def fetch_touched [OF expire_one_touches [OF assms]])
qed

lemma ensure_consumed_again:
  assumes "store_ok R d" "ensure_consumed R ck k r d = return (q, t)"
  shows "ensure_consumed R ck' k r t = return (q, t)"
proof -
  have "ap_status q = Consumed \<and> ap_execution_record_id q = r \<and> r \<noteq> []"
    using assms by (auto simp: ensure_consumed_def consume_update_def split: if_splits dest!: update_result)
  then show ?thesis
    by (simp add: ensure_consumed_def fetch_touched [OF ensure_consumed_touches [OF assms]])
qed

lemma mark_reconciled_again:
  assumes "store_ok R d" "mark_reconciled R ck k r d = return (q, t)"
  shows "mark_reconciled R ck' k r t = return (q, t)"
proof -
  have "ap_status q = Consumed \<and> ap_execution_record_id q = r \<and> r \<noteq> [] \<and> ap_reconciliation_outcome q \<noteq> []"
    using assms
    by (auto simp: mark_reconciled_def reconciled_update_def consume_update_def split: if_splits
        dest!: update_result)
  then show ?thesis
    by (simp add: mark_reconciled_def fetch_touched [OF mark_reconciled_touches [OF assms]])
qed

lemma begin_reconciliation_again:
  assumes "store_ok R d" "begin_reconciliation R (unsigned_config n) ck k o' x y w d = return (q, t)"
  shows "begin_reconciliation R (unsigned_config n) ck' k o' x y w t = return (q, t)"
proof -
  have n: "[] \<notin> set reconciliation_outcomes"
    by (auto simp: reconciliation_outcomes_def)
  have "o' \<in> set reconciliation_outcomes \<and> py_strip x \<noteq> [] \<and> py_strip y \<noteq> [] \<and> o' \<noteq> []
      \<and> ap_reconciliation_outcome q = o' \<and> ap_reconciled_by q = py_strip x
      \<and> ap_reconciliation_note q = py_strip y \<and> ap_status q \<in> {Executing, Consumed}"
    using assms(2) by (cases rule: begin_reconciliationE) (auto simp: intent_update_def n dest: update_result)
  then show ?thesis
    by (auto simp: begin_reconciliation_def Let_def fetch_touched [OF begin_reconciliation_touches [OF assms]])
qed

lemma ensure_rejected_again:
  assumes "store_ok R d" "ensure_rejected R (unsigned_config n) ck k x y w d = return (q, t)"
  shows "ensure_rejected R (unsigned_config n) ck' k x y w t = return (q, t)"
proof -
  have "ap_status q = Rejected \<and> ap_decided_by q = Some (py_strip x) \<and> ap_note q = py_strip y
      \<and> ap_decision_attestation q = w"
    using assms
    by (auto simp: ensure_rejected_def decide_def check_decision_def decide_update_def Let_def
        split: if_splits dest!: update_result)
  then show ?thesis
    by (simp add: ensure_rejected_def require_decision_identity_def
        fetch_touched [OF ensure_rejected_touches [OF assms]])
qed

lemma create_prepared_again:
  assumes "store_ok R d" "approval_ok R p" "create_prepared R p d = return (q, t)"
  shows "create_prepared R p t = return (q, t)"
  using create_prepared_facts [OF assms] store_ok_read by (auto simp: create_prepared_def)

interpretation creating: recoverable "\<lambda>(_ :: unit) d. if approval_ok R p then stateR (create_prepared R p d) else raise SnapshotNotCanonical"
    "store_ok R" for R p
  by unfold_locales (auto split: if_splits dest: create_prepared_again create_prepared_facts)

interpretation expiring: recoverable "\<lambda>ck d. stateR (expire_one R ck k d)" "store_ok R" for R k
  by unfold_locales (auto dest: touches_valid [OF expire_one_touches], blast dest: expire_one_again)

interpretation rejecting: recoverable "\<lambda>ck d. stateR (ensure_rejected R (unsigned_config n) ck k x y w d)"
    "store_ok R" for R n k x y w
  by unfold_locales (auto dest: touches_valid [OF ensure_rejected_touches], blast dest: ensure_rejected_again)

interpretation consuming: recoverable "\<lambda>ck d. stateR (ensure_consumed R ck k r d)" "store_ok R" for R k r
  by unfold_locales (auto dest: touches_valid [OF ensure_consumed_touches], blast dest: ensure_consumed_again)

interpretation intending: recoverable
    "\<lambda>ck d. stateR (begin_reconciliation R (unsigned_config n) ck k o' x y w d)" "store_ok R" for R n k o' x y w
  by unfold_locales (auto dest: touches_valid [OF begin_reconciliation_touches],
      blast dest: begin_reconciliation_again)

interpretation closing: recoverable "\<lambda>ck d. stateR (mark_reconciled R ck k r d)" "store_ok R" for R k r
  by unfold_locales (auto dest: touches_valid [OF mark_reconciled_touches], blast dest: mark_reconciled_again)

end
