(* ===== verification/ApprovalProperties.thy ===== *)
theory ApprovalProperties
  imports ApprovalRecovery ContractProperties "HOL-Library.Code_Target_Numeral"
begin

text \<open>
  The properties of the approval queue. Example clocks write instants as decimal numerals.
\<close>

subsection \<open>Starting an execution\<close>

lemma approval_ok_start:
  assumes "approval_ok R p" "ap_status p = Approved"
  shows "approval_ok R (p\<lparr>ap_status := Executing\<rparr>)"
proof -
  have n: "\<not> some_intent p" using assms
    by (auto simp: approval_ok_def check_approval_def check_intent_def split: if_splits)
  have "check_text_fields (p\<lparr>ap_status := Executing\<rparr>) = check_text_fields p"
    "check_times R (p\<lparr>ap_status := Executing\<rparr>) = check_times R p"
    "check_snapshots R (p\<lparr>ap_status := Executing\<rparr>) = check_snapshots R p"
    by (simp_all add: check_text_fields_def check_times_def check_snapshots_def bound_action_def
        bound_decision_def cong: option.case_cong)
  moreover have "check_intent (p\<lparr>ap_status := Executing\<rparr>) = return ()"
    using assms n by (auto simp: approval_ok_def check_approval_def check_intent_def some_intent_def
        full_intent_def split: if_splits)
  moreover have "check_status (p\<lparr>ap_status := Executing\<rparr>) = return ()"
    using assms by (auto simp: approval_ok_def check_approval_def check_status_def split: if_splits)
  ultimately show ?thesis using assms by (auto simp: approval_ok_def check_approval_def)
qed

lemma begin_execution_succeeds:
  assumes ok: "store_ok R d" and p: "dict_get k d = Some p" "ap_status p = Approved"
    "\<not> is_expired R (ck_now ck) p" "ap_action_id p = pa_action_id a"
    "authorization_hash R a = return (ap_authorization_hash p)"
    "require_decision_identity R cfg (ck_now ck) p = return ()"
  shows "\<exists>t. begin_execution R cfg ck k a d = (return (p\<lparr>ap_status := Executing\<rparr>), t)"
proof -
  have o: "approval_ok R (p\<lparr>ap_status := Executing\<rparr>)" "ap_approval_id p \<noteq> []"
    using store_ok_get [OF ok p(1)] p(2) by (auto intro: approval_ok_start)
  have "\<exists>t. update_stored R (\<lambda>p. p\<lparr>ap_status := Executing\<rparr>) p d = return (p\<lparr>ap_status := Executing\<rparr>, t)"
    using update_stored_ok [OF ok, of "\<lambda>p. p\<lparr>ap_status := Executing\<rparr>" p] o by auto
  then show ?thesis
    using fetch_Inr [OF ok, of k p] p by (auto simp: begin_execution_def)
qed

lemma executing_not_startable:
  "store_ok R d \<Longrightarrow> dict_get k d = Some q \<Longrightarrow> ap_status q \<noteq> Approved \<Longrightarrow>
   begin_execution R cfg ck k a d = (raise NotExecutable, d)"
  by (simp add: begin_execution_def fetch_Inr [THEN iffD2])

subsection \<open>Signed decisions\<close>

lemma require_attestationD:
  assumes "require_attestation R T now (Some att) p purpose outcome operator remark = return u"
  obtains key signature where
    "trusted_key T (text_of (obj_get ''operator'' att)) (text_of (obj_get ''key_id'' att)) = Some key"
    "decode_signature (text_of (obj_get ''signature'' att)) = return signature"
    "tp_verify T key signature (statement_text attestation_domain att)"
    "text_of (obj_get ''approval_id'' att) = ap_approval_id p"
    "text_of (obj_get ''action_id'' att) = ap_action_id p"
    "text_of (obj_get ''authorization_hash'' att) = ap_authorization_hash p"
    "text_of (obj_get ''purpose'' att) = purpose" "text_of (obj_get ''outcome'' att) = outcome"
    "text_of (obj_get ''operator'' att) = py_strip operator"
    "text_of (obj_get ''note'' att) = py_strip remark"
proof -
  have v: "verify_attestation R T now att p = return ()"
    and e: "allR (expect_field att) [(''purpose'', purpose), (''outcome'', outcome),
      (''operator'', py_strip operator), (''note'', py_strip remark)] = return ()"
    using assms by (auto simp: require_attestation_def)
  obtain key where
    k: "trusted_key T (text_of (obj_get ''operator'' att)) (text_of (obj_get ''key_id'' att)) = Some key"
    and b: "validate_binding R now att p = return ()" and s: "signature_valid T key attestation_domain att = return ()"
    using v by (auto simp: verify_attestation_def split: option.splits)
  have b': "allR (expect_field att) [(''approval_id'', ap_approval_id p), (''action_id'', ap_action_id p),
      (''request_id'', ap_request_id p), (''authorization_hash'', ap_authorization_hash p)] = return ()"
    using b by (auto simp: validate_binding_def)
  show ?thesis
    using that k s b' e by (auto simp: signature_valid_def dest!: expect_fieldD)
qed

lemma decision_identity_signed:
  assumes "ac_operator_trust cfg = Some T" "require_decision_identity R cfg now p = return ()"
    "ap_status p \<noteq> Rejected"
  obtains att operator where "ap_decision_attestation p = Some att"
    "require_attestation R T now (Some att) p decision_purpose (lit ''approved'') operator (ap_note p) = return ()"
  using assms
  by (auto simp: require_decision_identity_def decision_identity_def unsigned_status_def Let_def
      assess_attestation_def split: option.splits sum.splits)

subsection \<open>Examples\<close>

definition flat_digest :: pystr where
  "flat_digest = replicate 64 97"

definition numeral_clock :: runtime where
  "numeral_clock =
     \<lparr>rt_sha256 = \<lambda>t. flat_digest, rt_hmac = \<lambda>k t. k @ t,
      rt_instant = \<lambda>t. if t = [] then None else Some (int (digits_val t 0)), rt_utc_text = int_text\<rparr>"

definition queued_action :: action where
  "queued_action =
     \<lparr>pa_tool_name = lit ''mail'', pa_target = lit ''ops'',
      pa_payload = PDict [(PStr (lit ''to''), PStr (lit ''a''))],
      pa_side_effect_level = ExternalSend, pa_agent_reason = [], pa_action_id = lit ''act_1'',
      pa_request_id = lit ''req_1'', pa_payload_sources = [],
      pa_estimated_cost_usd = Fin False 15 (-1), pa_created_at = lit ''5'', pa_sealed = None\<rparr>"

definition one_minute_clock :: clock where
  "one_minute_clock = \<lparr>ck_now = 7, ck_stamp = lit ''7''\<rparr>"

definition queued_approval :: approval where
  "queued_approval = new_approval queued_action (lit ''sha256:'' @ flat_digest) (lit ''sha256:'' @ flat_digest)
     (lit ''one'') (lit ''external send'') [lit ''rule-1''] (lit ''60000007'') (lit ''7'') (lit ''apr_1'')
     (Fin False 0 0) None None [] []"

lemma queued_approval_prepared:
  "prepare numeral_clock (unsigned_config 60) one_minute_clock (lit ''apr_1'') queued_action
     (lit ''external send'') (lit ''one'') [lit ''rule-1''] (Some 1) None None (MInt 0) [] []
     = return queued_approval"
  by code_simp

definition queue :: approval_data where
  "queue = [(lit ''apr_1'', queued_approval)]"

definition approved_approval :: approval where
  "approved_approval = decide_update True (lit ''alice'') (lit ''ok'') (lit ''7'') None queued_approval"

definition approved_queue :: approval_data where
  "approved_queue = [(lit ''apr_1'', approved_approval)]"

lemma queue_ok: "store_ok numeral_clock queue" "one_active queue"
  subgoal by code_simp
  subgoal by (simp add: one_active_def queue_def)
  done

lemma approved_queue_ok: "store_ok numeral_clock approved_queue"
  by code_simp

lemma approved_queue_entry:
  "dict_get (lit ''apr_1'') approved_queue = Some approved_approval" "ap_status approved_approval = Approved"
  by (simp_all add: approved_queue_def approved_approval_def decide_update_def)

lemma queue_starts:
  obtains t where "begin_execution numeral_clock (unsigned_config 60) one_minute_clock (lit ''apr_1'')
     queued_action approved_queue = (return (approved_approval\<lparr>ap_status := Executing\<rparr>), t)"
proof -
  have "\<not> is_expired numeral_clock (ck_now one_minute_clock) approved_approval"
    "ap_action_id approved_approval = pa_action_id queued_action"
    "authorization_hash numeral_clock queued_action = return (ap_authorization_hash approved_approval)"
    by code_simp+
  moreover have "require_decision_identity numeral_clock (unsigned_config 60) (ck_now one_minute_clock)
      approved_approval = return ()"
    by (simp add: require_decision_identity_def)
  ultimately show ?thesis
    using begin_execution_succeeds [OF approved_queue_ok approved_queue_entry] that by blast
qed

text \<open>A trust policy with one key for \<open>alice\<close>, and her attestation of the approval.\<close>

definition alice_trust :: trust_policy where
  "alice_trust = \<lparr>tp_keys = [(lit ''alice'', [(lit ''sha256:'' @ flat_digest, lit ''key'')])],
     tp_verify = \<lambda>key signature text. key = lit ''key'' \<and> length signature = 64\<rparr>"

definition signed_config :: approval_config where
  "signed_config = \<lparr>ac_default_ttl_minutes = 60, ac_operator_trust = Some alice_trust\<rparr>"

definition alice_attestation :: attestation where
  "alice_attestation = map (\<lambda>(k, v). (lit k, PStr v))
     [(''schema_name'', lit ''defiant.operator.attestation''), (''schema_version'', lit ''0.1.0''),
      (''algorithm'', lit ''Ed25519''), (''purpose'', decision_purpose),
      (''key_id'', lit ''sha256:'' @ flat_digest), (''signed_at'', lit ''8''),
      (''operator'', lit ''alice''), (''note'', lit ''ok''), (''outcome'', lit ''approved''),
      (''approval_id'', lit ''apr_1''), (''action_id'', lit ''act_1''), (''request_id'', lit ''req_1''),
      (''authorization_hash'', lit ''sha256:'' @ flat_digest),
      (''signature'', lit ''base64:'' @ replicate 86 65 @ [61, 61])]"

definition signed_queue :: approval_data where
  "signed_queue = [(lit ''apr_1'',
     decide_update True (lit ''alice'') (lit ''ok'') (lit ''8'') (Some alice_attestation) queued_approval)]"

lemma signed_queue_ok: "store_ok numeral_clock signed_queue"
  by code_simp

lemma signed_queue_starts:
  obtains q t where "begin_execution numeral_clock signed_config one_minute_clock (lit ''apr_1'')
     queued_action signed_queue = (return q, t)"
proof -
  let ?p = "decide_update True (lit ''alice'') (lit ''ok'') (lit ''8'') (Some alice_attestation) queued_approval"
  have "\<not> is_expired numeral_clock (ck_now one_minute_clock) ?p"
    "ap_action_id ?p = pa_action_id queued_action"
    "authorization_hash numeral_clock queued_action = return (ap_authorization_hash ?p)"
    "require_decision_identity numeral_clock signed_config (ck_now one_minute_clock) ?p = return ()"
    by code_simp+
  moreover have g: "dict_get (lit ''apr_1'') signed_queue = Some ?p" by (simp add: signed_queue_def)
  moreover have st: "ap_status ?p = Approved" by (simp add: decide_update_def)
  ultimately show ?thesis
    using begin_execution_succeeds [OF signed_queue_ok g st] that by blast
qed

subsection \<open>Properties\<close>

text \<open>
  C32: Every run of calls refines the life cycle of an approval: whatever is called, in whatever
  order, an approval on file stays on file with everything it was bound to (action, hashes,
  snapshots, policy, expiry), and its status only moves forward along the life cycle.
\<close>

theorem approval_lifecycle:
  assumes "store_ok R d" and "\<forall>c \<in> set cs. call_ok R c" and "dict_get k d = Some p"
  shows "\<exists>q. dict_get k (after_calls R cfg cs d) = Some q \<and> binding_of q = binding_of p
     \<and> lifecycle\<^sup>*\<^sup>* (ap_status p) (ap_status q)"
  using calls_later [OF assms(1,2), of cfg] assms(3) by (fastforce simp: later_def)

lemma approval_lifecycle_witness:
  "\<exists>q. dict_get (lit ''apr_1'') (after_calls numeral_clock (unsigned_config 60)
       [Decide one_minute_clock (lit ''apr_1'') True (lit ''alice'') (lit ''ok'') None,
        BeginExecution one_minute_clock (lit ''apr_1'') queued_action] queue) = Some q
     \<and> binding_of q = binding_of queued_approval \<and> lifecycle\<^sup>*\<^sup>* (ap_status queued_approval) (ap_status q)"
  by (rule approval_lifecycle [OF queue_ok(1)]) (simp_all add: queue_def)

text \<open>
  C8: An approval executes once: after it has started an execution, no sequence of calls brings it
  to a state in which it can start another.
\<close>

theorem approval_executes_once:
  assumes "store_ok R d" and "begin_execution R cfg ck k a d = (return p, t)"
    and "\<forall>c \<in> set cs. call_ok R c"
  shows "\<exists>q. begin_execution R cfg' ck' k b (after_calls R cfg'' cs t) = (raise NotExecutable, after_calls R cfg'' cs t)
     \<and> dict_get k (after_calls R cfg'' cs t) = Some q \<and> ap_status q \<in> {Executing, Consumed}"
proof -
  obtain p0 where p0: "dict_get k d = Some p0" "ap_status p0 = Approved"
    "update_stored R (\<lambda>p. p\<lparr>ap_status := Executing\<rparr>) p0 d = return (p, t)"
    using begin_executionE [OF assms(1,2)] by metis
  have "touches R d k (p, t)"
    by (rule touchesI [OF assms(1) p0(1) updates_advance(3) [OF p0(2)] p0(3)])
  moreover have "ap_status p = Executing" using update_result [OF p0(3)] by simp
  ultimately have t: "store_ok R t" "dict_get k t = Some p" "ap_status p = Executing"
    by (auto simp: touches_def)
  obtain q where q: "dict_get k (after_calls R cfg'' cs t) = Some q" "lifecycle\<^sup>*\<^sup>* Executing (ap_status q)"
    and ok: "store_ok R (after_calls R cfg'' cs t)"
    using calls_later [OF t(1) assms(3), of cfg''] t(2,3) by (fastforce simp: later_def)
  have "ap_status q \<in> {Executing, Consumed}" using lifecycle_closed [OF q(2)] by simp
  moreover from this have "ap_status q \<noteq> Approved" by auto
  ultimately show ?thesis using executing_not_startable [OF ok q(1)] q(1) by blast
qed

lemma approval_executes_once_witness:
  "\<exists>t. fst (begin_execution numeral_clock (unsigned_config 60) one_minute_clock (lit ''apr_1'') queued_action t)
     = raise NotExecutable"
proof -
  obtain t where s: "begin_execution numeral_clock (unsigned_config 60) one_minute_clock (lit ''apr_1'')
     queued_action approved_queue = (return (approved_approval\<lparr>ap_status := Executing\<rparr>), t)"
    by (rule queue_starts)
  show ?thesis
    using approval_executes_once [OF approved_queue_ok s, of "[]" "unsigned_config 60" one_minute_clock
        queued_action "unsigned_config 60"] by (auto intro: exI [of _ t])
qed

text \<open>
  C31: On a valid queue an execution starts exactly when the approval is on file, approved, not
  expired, given for this action, the action still has the authorization hash that was approved, and
  the decision still passes its identity check: without operator trust there is nothing to check, with
  operator trust the attestation of the decision verifies again at this clock reading.
\<close>

theorem begin_execution_iff:
  assumes "store_ok R d"
  shows "(\<exists>q t. begin_execution R cfg ck k a d = (return q, t)) \<longleftrightarrow>
     (\<exists>p. dict_get k d = Some p \<and> ap_status p = Approved \<and> \<not> is_expired R (ck_now ck) p
        \<and> ap_action_id p = pa_action_id a \<and> authorization_hash R a = return (ap_authorization_hash p)
        \<and> require_decision_identity R cfg (ck_now ck) p = return ())"
  using begin_executionE [OF assms] begin_execution_succeeds [OF assms] by metis

lemma begin_execution_iff_witness:
  "\<exists>p. dict_get (lit ''apr_1'') approved_queue = Some p \<and> ap_status p = Approved"
  using begin_execution_iff [OF approved_queue_ok] queue_starts by metis

text \<open>
  C30: With pinned operator keys, an execution has a signed decision: the approval carries an
  attestation whose signature verifies under a key trusted for its operator, over a statement that
  names this approval, this action and its authorization hash, and the outcome \<open>approved\<close>.
\<close>

theorem execution_has_signed_decision:
  assumes "store_ok R d" and "ac_operator_trust cfg = Some T"
    and "begin_execution R cfg ck k a d = (return q, t)"
  shows "\<exists>att key signature. ap_decision_attestation q = Some att
     \<and> trusted_key T (text_of (obj_get ''operator'' att)) (text_of (obj_get ''key_id'' att)) = Some key
     \<and> decode_signature (text_of (obj_get ''signature'' att)) = return signature
     \<and> tp_verify T key signature (statement_text attestation_domain att)
     \<and> text_of (obj_get ''approval_id'' att) = k \<and> text_of (obj_get ''action_id'' att) = pa_action_id a
     \<and> authorization_hash R a = return (text_of (obj_get ''authorization_hash'' att))
     \<and> text_of (obj_get ''purpose'' att) = decision_purpose \<and> text_of (obj_get ''outcome'' att) = lit ''approved''"
  using assms(1,3)
proof (rule begin_executionE)
  fix p
  assume p: "dict_get k d = Some p" "ap_status p = Approved" "ap_action_id p = pa_action_id a"
    "authorization_hash R a = return (ap_authorization_hash p)"
    and i: "require_decision_identity R cfg (ck_now ck) p = return ()"
    and u: "update_stored R (\<lambda>p. p\<lparr>ap_status := Executing\<rparr>) p d = return (q, t)"
  have q: "ap_decision_attestation q = ap_decision_attestation p" using update_result [OF u] by simp
  have k: "ap_approval_id p = k" using store_ok_get [OF assms(1) p(1)] by simp
  obtain att operator where a: "ap_decision_attestation p = Some att"
    "require_attestation R T (ck_now ck) (Some att) p decision_purpose (lit ''approved'') operator (ap_note p)
      = return ()"
    using decision_identity_signed [OF assms(2) i] p(2) by auto
  show ?thesis
    using require_attestationD [OF a(2)] a(1) q k p(3,4) by metis
qed

lemma execution_has_signed_decision_witness:
  "\<exists>att key signature. trusted_key alice_trust (text_of (obj_get ''operator'' att))
      (text_of (obj_get ''key_id'' att)) = Some key
    \<and> tp_verify alice_trust key signature (statement_text attestation_domain att)"
proof -
  obtain q t where s: "begin_execution numeral_clock signed_config one_minute_clock (lit ''apr_1'')
     queued_action signed_queue = (return q, t)" by (rule signed_queue_starts)
  show ?thesis
    using execution_has_signed_decision [OF signed_queue_ok _ s, of alice_trust]
    by (auto simp: signed_config_def)
qed

text \<open>
  C33: An action has at most one active approval: starting from a queue where no action has two
  approvals that are pending, approved or executing, no call ever gives it a second one.
\<close>

theorem one_active_approval:
  assumes "store_ok R d" and "one_active d" and "\<forall>c \<in> set cs. call_ok R c"
  shows "one_active (after_calls R cfg cs d)"
  using assms
proof (induction cs arbitrary: d)
  case (Cons c cs)
  then show ?case
    using call_evolves [of R d c cfg] call_one_active [of R d c cfg] by simp
qed simp

lemma one_active_approval_witness:
  "one_active (after_calls numeral_clock (unsigned_config 60)
     [Decide one_minute_clock (lit ''apr_1'') False (lit ''alice'') (lit ''no'') None] queue)"
  by (rule one_active_approval [OF queue_ok]) simp

text \<open>
  C34: Recovery of the queue is idempotent: an operation that the journal repeats after a crash, if
  it succeeded once, succeeds at every other clock reading and leaves the file as it is. Expiry, the
  recording of a consumed approval and the end of a reconciliation are covered under every
  configuration; a repeated rejection and a repeated begin of a reconciliation only without operator
  trust, since with it their attestation is verified again against the clock of each attempt.
\<close>

theorem approval_recovery_idempotent:
  assumes "store_ok R d"
  shows "(expire_one R ck k d = return (q, t) \<longrightarrow> expire_one R ck' k t = return (q, t))
    \<and> (ensure_consumed R ck k r d = return (q, t) \<longrightarrow> ensure_consumed R ck' k r t = return (q, t))
    \<and> (mark_reconciled R ck k r d = return (q, t) \<longrightarrow> mark_reconciled R ck' k r t = return (q, t))
    \<and> (ensure_rejected R (unsigned_config n) ck k x y w d = return (q, t)
        \<longrightarrow> ensure_rejected R (unsigned_config n) ck' k x y w t = return (q, t))
    \<and> (begin_reconciliation R (unsigned_config n) ck k o' x y w d = return (q, t)
        \<longrightarrow> begin_reconciliation R (unsigned_config n) ck' k o' x y w t = return (q, t))"
  by (intro conjI impI; (erule expire_one_again [OF assms] | erule ensure_consumed_again [OF assms]
      | erule mark_reconciled_again [OF assms] | erule ensure_rejected_again [OF assms]
      | erule begin_reconciliation_again [OF assms]))

lemma approval_recovery_idempotent_witness:
  "\<exists>q t. ensure_rejected numeral_clock (unsigned_config 60) one_minute_clock (lit ''apr_1'')
     (lit ''alice'') (lit ''no'') None t = return (q, t)"
proof -
  let ?e = "ensure_rejected numeral_clock (unsigned_config 60) one_minute_clock (lit ''apr_1'')
     (lit ''alice'') (lit ''no'') None"
  have "isl (?e queue) = False" by code_simp
  then obtain q t where "?e queue = return (q, t)" by (cases "?e queue") auto
  then show ?thesis using approval_recovery_idempotent [OF queue_ok(1)] by blast
qed

text \<open>
  C35: A signed decision must be ASCII: with pinned operator keys, a decision whose note or operator
  name, after the whitespace around it is stripped, has any other character is never accepted, because
  the comparison of the signed fields raises.
\<close>

theorem signed_decisions_are_ascii:
  assumes "\<not> is_ascii (py_strip (py_strip note_text)) \<or> \<not> is_ascii (py_strip (py_strip decided_by))"
    and "ac_operator_trust cfg = Some T"
  shows "decide R cfg ck k approved decided_by note_text att d \<noteq> return r"
proof
  assume "decide R cfg ck k approved decided_by note_text att d = return r"
  then obtain p where "check_decision R cfg (ck_now ck) p approved decided_by note_text att = return (py_strip decided_by, py_strip note_text)"
    by (auto simp: decide_def check_decision_def Let_def split: if_splits option.splits)
  then show False
    using assms by (auto simp: check_decision_def Let_def require_attestation_def expect_field_def
        compare_digest_def split: if_splits option.splits)
qed

lemma signed_decisions_are_ascii_witness:
  "\<forall>r. decide numeral_clock signed_config one_minute_clock (lit ''apr_1'') True (lit ''alice'') [233]
     (Some alice_attestation) queue \<noteq> return r"
  by (intro allI signed_decisions_are_ascii [where T = alice_trust])
    (simp_all add: signed_config_def is_ascii_def py_strip_def py_rstrip_of_def py_lstrip_def py_isspace_def)

end
