(* ===== verification/EvidenceRecord.thy ===== *)
theory EvidenceRecord
  imports CanonicalInjective ContractFacts
begin

text \<open>
  One evidence record (\<open>EvidenceRecord\<close> of \<open>contracts.py\<close>): its fields, their validation, the hashed
  body and the JSON object written for it. An object read back from a line of the evidence file is
  a dictionary with text keys.
\<close>

record evidence_record =
  er_request_id :: pystr
  er_action_id :: pystr
  er_decision :: decision
  er_result_status :: result_status
  er_schema_name :: pystr
  er_schema_version :: pystr
  er_record_id :: pystr
  er_timestamp :: pystr
  er_agent_runner :: pystr
  er_model_id :: pystr
  er_user_id :: pystr
  er_workspace_id :: pystr
  er_tool_name :: pystr
  er_target :: pystr
  er_side_effect_level :: pystr
  er_policy_ids :: "pystr list"
  er_policy_version :: pystr
  er_ruleset_hash :: pystr
  er_decision_reason :: pystr
  er_decision_inputs :: pyval
  er_approved_by :: "pystr option"
  er_approved_at :: "pystr option"
  er_payload_hash :: pystr
  er_authorization_hash :: pystr
  er_payload_trust :: pystr
  er_input_refs :: "pyval list"
  er_output_hash :: pystr
  er_result_summary :: pystr
  er_cost_usd :: decimal
  er_budget_remaining_usd :: "decimal option"
  er_dry_run :: bool
  er_reconciliation_outcome :: pystr
  er_reconciled_by :: pystr
  er_reconciled_at :: "pystr option"
  er_reconciliation_note :: pystr
  er_previous_record_hash :: pystr
  er_record_hash :: pystr
  er_enforcement_basis :: pystr

subsection \<open>Validation\<close>

definition enforcement_bases :: "pystr list" where
  "enforcement_bases = [[], lit ''native_hook_preview'', lit ''mcp_proxy'', lit ''harness_control_loop'']"

definition check_enforcement_basis :: "pystr \<Rightarrow> (contract_error, unit) result" where
  "check_enforcement_basis s = require (s \<in> set enforcement_bases) InvalidEnforcementBasis"

definition mapping_list_snapshot :: "pyval list \<Rightarrow> (contract_error, pyval list) result" where
  "mapping_list_snapshot vs = bindR (authority_snapshot (PList vs)) (\<lambda>s.
     case s of PList ws \<Rightarrow> (if list_all is_mapping ws then return ws else raise FieldsMismatch)
     | _ \<Rightarrow> raise FieldsMismatch)"

definition validate_evidence :: "runtime \<Rightarrow> evidence_record \<Rightarrow> (contract_error, evidence_record) result" where
  "validate_evidence R r =
     bindR (require_text (er_request_id r)) (\<lambda>_.
     bindR (require_text (er_action_id r)) (\<lambda>_.
     bindR (check_enforcement_basis (er_enforcement_basis r)) (\<lambda>_.
     bindR (allR require_text [er_schema_name r, er_schema_version r, er_record_id r]) (\<lambda>_.
     bindR (string_list_snapshot (er_policy_ids r)) (\<lambda>_.
     bindR (mapping_snapshot (er_decision_inputs r)) (\<lambda>inputs.
     bindR (mapping_list_snapshot (er_input_refs r)) (\<lambda>refs.
     bindR (contract_money (er_cost_usd r)) (\<lambda>_.
     bindR (case er_budget_remaining_usd r of None \<Rightarrow> return () | Some d \<Rightarrow> require (is_finite d) NotFinite) (\<lambda>_.
     bindR (utc_timestamp R (er_timestamp r)) (\<lambda>timestamp.
     bindR (optional_timestamp R (er_approved_at r)) (\<lambda>approved_at.
     bindR (optional_timestamp R (er_reconciled_at r)) (\<lambda>reconciled_at.
       return (r\<lparr>er_decision_inputs := inputs, er_input_refs := refs, er_timestamp := timestamp,
                 er_approved_at := approved_at, er_reconciled_at := reconciled_at\<rparr>)))))))))))))"

subsection \<open>The written object\<close>

definition dec_abs :: "decimal \<Rightarrow> decimal" where
  "dec_abs d = (case d of Fin s c e \<Rightarrow> Fin False c e | Infinite s \<Rightarrow> Infinite False | NotANumber \<Rightarrow> NotANumber)"

text \<open>\<open>_bounded_signed_decimal_text\<close>.\<close>

definition signed_decimal_text :: "decimal \<Rightarrow> (canonical_error, pystr) result" where
  "signed_decimal_text d =
     (let limit = lim_number_characters action_limits in
      if dec_eq d zero then return [48]
      else bindR (bounded_money_text limit (dec_abs d)) (\<lambda>text.
        if dec_lt d zero then (if limit \<le> length text then raise LimitNumberCharacters else return (45 # text))
        else return text))"

definition optional_text :: "pystr option \<Rightarrow> pyval" where
  "optional_text v = (case v of None \<Rightarrow> PNone | Some s \<Rightarrow> PStr s)"

definition remaining_value :: "evidence_record \<Rightarrow> (contract_error, pyval) result" where
  "remaining_value r = (case er_budget_remaining_usd r of
     None \<Rightarrow> return PNone
   | Some d \<Rightarrow> bindR (mapErr ContractCanonical (signed_decimal_text d)) (\<lambda>t. return (PStr t)))"

definition safe_value :: "pyval \<Rightarrow> (contract_error, pyval) result" where
  "safe_value v = mapErr ContractMoney (enum_safe v)"

text \<open>The fields in the order of their names, with an empty enforcement basis left out.\<close>

definition record_entries ::
  "evidence_record \<Rightarrow> pyval \<Rightarrow> pyval \<Rightarrow> pyval \<Rightarrow> pyval \<Rightarrow> json_object" where
  "record_entries r inputs refs cost remaining =
     filter (\<lambda>kv. fst kv \<noteq> lit ''enforcement_basis'' \<or> er_enforcement_basis r \<noteq> [])
     [(lit ''action_id'', PStr (er_action_id r)), (lit ''agent_runner'', PStr (er_agent_runner r)),
      (lit ''approved_at'', optional_text (er_approved_at r)),
      (lit ''approved_by'', optional_text (er_approved_by r)),
      (lit ''authorization_hash'', PStr (er_authorization_hash r)),
      (lit ''budget_remaining_usd'', remaining), (lit ''cost_usd'', cost),
      (lit ''decision'', PStr (decision_value (er_decision r))), (lit ''decision_inputs'', inputs),
      (lit ''decision_reason'', PStr (er_decision_reason r)), (lit ''dry_run'', PBool (er_dry_run r)),
      (lit ''enforcement_basis'', PStr (er_enforcement_basis r)), (lit ''input_refs'', refs),
      (lit ''model_id'', PStr (er_model_id r)), (lit ''output_hash'', PStr (er_output_hash r)),
      (lit ''payload_hash'', PStr (er_payload_hash r)), (lit ''payload_trust'', PStr (er_payload_trust r)),
      (lit ''policy_ids'', PList (map PStr (er_policy_ids r))),
      (lit ''policy_version'', PStr (er_policy_version r)),
      (lit ''previous_record_hash'', PStr (er_previous_record_hash r)),
      (lit ''reconciled_at'', optional_text (er_reconciled_at r)),
      (lit ''reconciled_by'', PStr (er_reconciled_by r)),
      (lit ''reconciliation_note'', PStr (er_reconciliation_note r)),
      (lit ''reconciliation_outcome'', PStr (er_reconciliation_outcome r)),
      (lit ''record_hash'', PStr (er_record_hash r)), (lit ''record_id'', PStr (er_record_id r)),
      (lit ''request_id'', PStr (er_request_id r)),
      (lit ''result_status'', PStr (status_value (er_result_status r))),
      (lit ''result_summary'', PStr (er_result_summary r)), (lit ''ruleset_hash'', PStr (er_ruleset_hash r)),
      (lit ''schema_name'', PStr (er_schema_name r)), (lit ''schema_version'', PStr (er_schema_version r)),
      (lit ''side_effect_level'', PStr (er_side_effect_level r)), (lit ''target'', PStr (er_target r)),
      (lit ''timestamp'', PStr (er_timestamp r)), (lit ''tool_name'', PStr (er_tool_name r)),
      (lit ''user_id'', PStr (er_user_id r)), (lit ''workspace_id'', PStr (er_workspace_id r))]"

definition record_values :: "evidence_record \<Rightarrow> (contract_error, json_object) result" where
  "record_values r =
     bindR (remaining_value r) (\<lambda>remaining.
     bindR (safe_value (er_decision_inputs r)) (\<lambda>inputs.
     bindR (safe_value (PList (er_input_refs r))) (\<lambda>refs.
     bindR (safe_value (PDecimal (er_cost_usd r))) (\<lambda>cost.
       return (record_entries r inputs refs cost remaining)))))"

text \<open>\<open>to_dict\<close>, \<open>body\<close> and \<open>seal\<close>: each validates the record again, normalising it in place.\<close>

definition evidence_to_dict ::
  "runtime \<Rightarrow> evidence_record \<Rightarrow> (contract_error, evidence_record \<times> json_object) result" where
  "evidence_to_dict R r = bindR (validate_evidence R r) (\<lambda>r.
     bindR (record_values r) (\<lambda>obj. return (r, obj)))"

definition without_hash :: "json_object \<Rightarrow> json_object" where
  "without_hash obj = filter (\<lambda>kv. fst kv \<noteq> lit ''record_hash'') obj"

definition seal_record :: "runtime \<Rightarrow> pystr \<Rightarrow> evidence_record \<Rightarrow> (contract_error, evidence_record) result" where
  "seal_record R previous r =
     (if er_record_hash r \<noteq> [] then raise AlreadySealed
      else bindR (evidence_to_dict R (r\<lparr>er_previous_record_hash := previous\<rparr>)) (\<lambda>(r, obj).
        return (r\<lparr>er_record_hash := sha256_of (rt_sha256 R) (json_of (without_hash obj))\<rparr>)))"

subsection \<open>Reading a written line\<close>

definition reload_object :: "json_object \<Rightarrow> json_object" where
  "reload_object obj = sort_keys (map (\<lambda>(k, v). (k, json_reload v)) obj)"

lemma insert_item_text:
  "insert_item (PStr (fst p), snd p) (map (\<lambda>(k, v). (PStr k, v)) qs)
     = map (\<lambda>(k, v). (PStr k, v)) (insort_key fst p qs)"
  by (induction qs) (auto simp: not_less case_prod_beta)

lemma sort_items_text:
  "sort_items (map (\<lambda>(k, v). (PStr k, v)) ps) = map (\<lambda>(k, v). (PStr k, v)) (sort_keys ps)"
proof (induction ps)
  case (Cons p ps)
  have "sort_items (map (\<lambda>(k, v). (PStr k, v)) (p # ps))
      = insert_item (PStr (fst p), snd p) (sort_items (map (\<lambda>(k, v). (PStr k, v)) ps))"
    by (simp add: sort_items_def case_prod_beta)
  then show ?case unfolding Cons.IH insert_item_text by (simp add: sort_keys_def)
qed (simp add: sort_items_def)

lemma json_reload_object: "json_reload (json_of obj) = json_of (reload_object obj)"
proof -
  have "map (\<lambda>(k, v). (k, json_reload v)) (map (\<lambda>(k, v). (PStr k, v)) obj)
      = map (\<lambda>(k, v). (PStr k, v)) (map (\<lambda>(k, v). (k, json_reload v)) obj)"
    by (simp add: case_prod_beta)
  then show ?thesis
    by (simp add: json_of_def reload_object_def sort_items_text case_prod_beta comp_def
        del: map_map) (simp add: case_prod_beta)
qed

end
