(* ===== verification/EvidenceHead.thy ===== *)
theory EvidenceHead
  imports EvidenceRecord
begin

text \<open>
  The durable checkpoint of the evidence chain (\<open>evidence_head.py\<close>): how many records the chain had
  and the hash it ended in, bound to the active authority profile. A chain may run ahead of its
  checkpoint by records it already contained; falling behind it or leaving it is refused.
\<close>

definition genesis :: pystr where
  "genesis = lit ''sha256:'' @ replicate 64 48"

record head_state =
  hs_profile_hash :: pystr
  hs_record_count :: nat
  hs_head_hash :: pystr
  hs_checkpointed_at :: pystr

datatype head_error =
    HeadNotSha256
  | EmptyWithoutGenesis
  | HeadTimestamp
  | WrongProfile
  | BehindCheckpoint
  | DivergesFromCheckpoint
  | CheckpointMustAdvance
  | HeadNotInitialized
  | HeadChanged

definition check_hash :: "pystr \<Rightarrow> (head_error, unit) result" where
  "check_hash s = require (is_sha256 s) HeadNotSha256"

text \<open>\<open>EvidenceHeadState._from_snapshot\<close>, run on every read and before every write.\<close>

definition check_head :: "runtime \<Rightarrow> head_state \<Rightarrow> (head_error, unit) result" where
  "check_head R h =
     bindR (check_hash (hs_profile_hash h)) (\<lambda>_.
     bindR (check_hash (hs_head_hash h)) (\<lambda>_.
       if hs_record_count h = 0 \<and> hs_head_hash h \<noteq> genesis then raise EmptyWithoutGenesis
       else require (hs_checkpointed_at h \<noteq> [] \<and> rt_instant R (hs_checkpointed_at h) \<noteq> None) HeadTimestamp))"

definition get_head :: "runtime \<Rightarrow> head_state option \<Rightarrow> (head_error, head_state option) result" where
  "get_head R h = (case h of None \<Rightarrow> return None | Some h \<Rightarrow> bindR (check_head R h) (\<lambda>_. return (Some h)))"

definition write_head ::
  "runtime \<Rightarrow> pystr \<Rightarrow> pystr \<Rightarrow> nat \<Rightarrow> pystr \<Rightarrow> (head_error, head_state) result" where
  "write_head R stamp profile_hash n head_hash =
     (let h = \<lparr>hs_profile_hash = profile_hash, hs_record_count = n, hs_head_hash = head_hash,
               hs_checkpointed_at = stamp\<rparr>
      in bindR (check_head R h) (\<lambda>_. return h))"

definition evidence_position :: "json_object list \<Rightarrow> nat \<times> pystr" where
  "evidence_position records =
     (length records, if records = [] then genesis else text_of (obj_get ''record_hash'' (last records)))"

datatype head_verification = Verified | ForwardRecovery | Rollback | Diverged

definition assess_head :: "head_state \<Rightarrow> json_object list \<Rightarrow> head_verification" where
  "assess_head h records =
     (let (n, head) = evidence_position records in
      if n = hs_record_count h then (if head = hs_head_hash h then Verified else Diverged)
      else if n < hs_record_count h then Rollback
      else if hs_record_count h = 0 then (if hs_head_hash h = genesis then ForwardRecovery else Diverged)
      else if obj_get ''record_hash'' (records ! (hs_record_count h - 1)) = Some (PStr (hs_head_hash h))
        then ForwardRecovery else Diverged)"

text \<open>\<open>reconcile_for_authority\<close>.\<close>

definition reconcile_head ::
  "runtime \<Rightarrow> pystr \<Rightarrow> pystr \<Rightarrow> json_object list \<Rightarrow> bool \<Rightarrow> head_state option
   \<Rightarrow> (head_error, head_state) result" where
  "reconcile_head R stamp profile_hash records allow_rebind h =
     bindR (check_hash profile_hash) (\<lambda>_.
     let (n, head) = evidence_position records in
     bindR (get_head R h) (\<lambda>current.
       case current of
         None \<Rightarrow> write_head R stamp profile_hash n head
       | Some h \<Rightarrow>
           if hs_profile_hash h \<noteq> profile_hash then
             (if \<not> allow_rebind then raise WrongProfile
              else (case assess_head h records of
                  Verified \<Rightarrow> write_head R stamp profile_hash n head
                | ForwardRecovery \<Rightarrow> write_head R stamp profile_hash n head
                | Rollback \<Rightarrow> raise BehindCheckpoint
                | Diverged \<Rightarrow> raise DivergesFromCheckpoint))
           else (case assess_head h records of
               Verified \<Rightarrow> return h
             | ForwardRecovery \<Rightarrow> write_head R stamp profile_hash n head
             | Rollback \<Rightarrow> raise BehindCheckpoint
             | Diverged \<Rightarrow> raise DivergesFromCheckpoint)))"

definition advance_head ::
  "runtime \<Rightarrow> pystr \<Rightarrow> pystr \<Rightarrow> nat \<Rightarrow> pystr \<Rightarrow> nat \<Rightarrow> pystr \<Rightarrow> head_state option
   \<Rightarrow> (head_error, head_state) result" where
  "advance_head R stamp profile_hash previous_count previous_head n head_hash h =
     bindR (allR check_hash [profile_hash, previous_head, head_hash]) (\<lambda>_.
       if n \<le> previous_count then raise CheckpointMustAdvance
       else bindR (get_head R h) (\<lambda>current.
         case current of
           None \<Rightarrow> raise HeadNotInitialized
         | Some h \<Rightarrow>
             if hs_profile_hash h \<noteq> profile_hash then raise WrongProfile
             else if hs_record_count h = n \<and> hs_head_hash h = head_hash then return h
             else if hs_record_count h \<noteq> previous_count \<or> hs_head_hash h \<noteq> previous_head then raise HeadChanged
             else write_head R stamp profile_hash n head_hash))"

lemma write_head_Inr [simp]:
  "write_head R stamp pr n hh = return h \<longleftrightarrow>
     h = \<lparr>hs_profile_hash = pr, hs_record_count = n, hs_head_hash = hh, hs_checkpointed_at = stamp\<rparr>
     \<and> check_head R h = return ()"
  by (auto simp: write_head_def Let_def)

end
