(* ===== verification/Evidence.thy ===== *)
theory Evidence
  imports EvidenceHead
begin

text \<open>
  The evidence store (\<open>evidence/store.py\<close>): an append-only file of JSON lines, each sealed with the
  hash of its predecessor. A line that is not a strict JSON object is \<open>Unreadable\<close>; blank lines are
  skipped by the reader and not listed. The store's configuration is the authority profile it
  checkpoints for, if any. An append writes the line before it advances the checkpoint, so the
  state after an interruption between the two is one of the states below.
\<close>

datatype evidence_line = Line json_object | Unreadable

record evidence_state =
  es_lines :: "evidence_line list"
  es_head :: "head_state option"
  es_allow_rebind :: bool

datatype evidence_error =
    BrokenChain
  | CannotRead
  | AlreadySealedRecord
  | RecordTooLarge
  | EvidenceContract contract_error
  | EvidenceHeadError head_error
  | ConflictsWithJournal

subsection \<open>Reading and verifying\<close>

definition is_line :: "evidence_line \<Rightarrow> bool" where
  "is_line l \<longleftrightarrow> (case l of Line _ \<Rightarrow> True | Unreadable \<Rightarrow> False)"

fun raw_records :: "evidence_line list \<Rightarrow> (evidence_error, json_object list) result" where
  "raw_records [] = return []"
| "raw_records (Unreadable # ls) = raise CannotRead"
| "raw_records (Line obj # ls) = bindR (raw_records ls) (\<lambda>objs. return (obj # objs))"

record chain_status =
  cs_ok :: bool
  cs_count :: nat
  cs_broken_at :: "nat option"

definition broken :: "nat \<Rightarrow> nat \<Rightarrow> chain_status" where
  "broken n index = \<lparr>cs_ok = False, cs_count = n, cs_broken_at = Some index\<rparr>"

definition body_hash :: "runtime \<Rightarrow> json_object \<Rightarrow> pystr" where
  "body_hash R obj = sha256_of (rt_sha256 R) (json_of (without_hash obj))"

text \<open>\<open>verify_evidence_records\<close>: the first failure, found while reading.\<close>

fun verify_from :: "runtime \<Rightarrow> pystr \<Rightarrow> nat \<Rightarrow> evidence_line list \<Rightarrow> chain_status" where
  "verify_from R previous n [] = \<lparr>cs_ok = True, cs_count = n, cs_broken_at = None\<rparr>"
| "verify_from R previous n (Unreadable # ls) = broken n n"
| "verify_from R previous n (Line obj # ls) =
     (if obj_get ''previous_record_hash'' obj \<noteq> Some (PStr previous) then broken (n + 1) n
      else if obj_get ''record_hash'' obj \<noteq> Some (PStr (body_hash R obj)) then broken (n + 1) n
      else verify_from R (body_hash R obj) (n + 1) ls)"

definition verify_evidence_records ::
  "runtime \<Rightarrow> bool \<Rightarrow> evidence_line list \<Rightarrow> (evidence_error, chain_status) result" where
  "verify_evidence_records R require_complete_read ls =
     (if require_complete_read \<and> \<not> list_all is_line ls then raise CannotRead
      else return (verify_from R genesis 0 ls))"

definition verify :: "runtime \<Rightarrow> evidence_line list \<Rightarrow> chain_status" where
  "verify R ls = verify_from R genesis 0 ls"

definition head_hash_unchecked :: "evidence_line list \<Rightarrow> (evidence_error, pystr) result" where
  "head_hash_unchecked ls = bindR (raw_records ls) (\<lambda>objs. return (snd (evidence_position objs)))"

definition head_hash :: "runtime \<Rightarrow> evidence_line list \<Rightarrow> (evidence_error, pystr) result" where
  "head_hash R ls = (if cs_ok (verify R ls) then head_hash_unchecked ls else raise BrokenChain)"

subsection \<open>Appending\<close>

definition max_evidence_record_bytes :: nat where
  "max_evidence_record_bytes = 16777216"

definition serialized_line :: "runtime \<Rightarrow> evidence_record \<Rightarrow> (evidence_error, json_object) result" where
  "serialized_line R r = bindR (mapErr EvidenceContract (evidence_to_dict R r)) (\<lambda>(_, obj).
     if max_evidence_record_bytes < length (encode (json_of obj)) + 1 then raise RecordTooLarge
     else return (reload_object obj))"

definition reconcile_head_unlocked ::
  "runtime \<Rightarrow> pystr option \<Rightarrow> pystr \<Rightarrow> (evidence_state, evidence_error, unit) effect" where
  "reconcile_head_unlocked R profile stamp s = (case profile of
     None \<Rightarrow> (return (), s)
   | Some profile_hash \<Rightarrow>
       (case bindR (raw_records (es_lines s)) (\<lambda>objs. mapErr EvidenceHeadError
            (reconcile_head R stamp profile_hash objs (es_allow_rebind s) (es_head s))) of
          Inl e \<Rightarrow> (raise e, s)
        | Inr h \<Rightarrow> (return (), s\<lparr>es_head := Some h, es_allow_rebind := False\<rparr>)))"

definition advance_head_unlocked ::
  "runtime \<Rightarrow> pystr option \<Rightarrow> pystr \<Rightarrow> nat \<Rightarrow> pystr \<Rightarrow> pystr \<Rightarrow> (evidence_state, evidence_error, unit) effect" where
  "advance_head_unlocked R profile stamp n previous_head new_head s = (case profile of
     None \<Rightarrow> (return (), s)
   | Some profile_hash \<Rightarrow>
       (case advance_head R stamp profile_hash n previous_head (n + 1) new_head (es_head s) of
          Inl e \<Rightarrow> (raise (EvidenceHeadError e), s)
        | Inr h \<Rightarrow> (return (), s\<lparr>es_head := Some h\<rparr>)))"

definition write_line :: "json_object \<Rightarrow> (evidence_state, evidence_error, unit) effect" where
  "write_line obj = writeA (\<lambda>s. s\<lparr>es_lines := es_lines s @ [Line obj]\<rparr>)"

text \<open>The last part of both appends: seal, write the line, advance the checkpoint.\<close>

definition seal_and_write ::
  "runtime \<Rightarrow> pystr option \<Rightarrow> pystr \<Rightarrow> nat \<Rightarrow> evidence_record
   \<Rightarrow> (evidence_state, evidence_error, evidence_record) effect" where
  "seal_and_write R profile stamp n r =
     bindA (\<lambda>s. (head_hash_unchecked (es_lines s), s)) (\<lambda>previous.
     bindA (liftA (mapErr EvidenceContract (seal_record R previous r))) (\<lambda>r.
     bindA (liftA (serialized_line R r)) (\<lambda>obj.
     bindA (write_line obj) (\<lambda>_.
     bindA (advance_head_unlocked R profile stamp n previous (er_record_hash r)) (\<lambda>_.
       okA r)))))"

definition append_evidence ::
  "runtime \<Rightarrow> pystr option \<Rightarrow> pystr \<Rightarrow> evidence_record
   \<Rightarrow> (evidence_state, evidence_error, evidence_record) effect" where
  "append_evidence R profile stamp r s =
     (if er_record_hash r \<noteq> [] then (raise AlreadySealedRecord, s)
      else let status = verify R (es_lines s) in
        if \<not> cs_ok status then (raise BrokenChain, s)
        else bindA (reconcile_head_unlocked R profile stamp) (\<lambda>_.
          seal_and_write R profile stamp (cs_count status) r) s)"

text \<open>The comparison of a stored record with a prepared one, without the chain fields.\<close>

definition comparable :: "json_object \<Rightarrow> json_object" where
  "comparable obj = filter (\<lambda>kv. fst kv \<notin> {lit ''previous_record_hash'', lit ''record_hash''}) obj"

fun ordered_value :: "pyval \<Rightarrow> pyval" where
  "ordered_value (PList vs) = PList (map ordered_value vs)"
| "ordered_value (PTuple vs) = PTuple (map ordered_value vs)"
| "ordered_value (PDict kvs) = PDict (sort_items (map (\<lambda>(k, v). (k, ordered_value v)) kvs))"
| "ordered_value v = v"

definition same_object :: "json_object \<Rightarrow> json_object \<Rightarrow> bool" where
  "same_object a b \<longleftrightarrow> ordered_value (json_of a) = ordered_value (json_of b)"

definition find_record :: "pystr \<Rightarrow> json_object list \<Rightarrow> json_object option" where
  "find_record record_id objs = find (\<lambda>obj. obj_get ''record_id'' obj = Some (PStr record_id)) objs"

text \<open>
  A recognised record is the prepared one with the chain fields of the stored line: all its other
  fields were just compared.
\<close>

definition recognised :: "evidence_record \<Rightarrow> json_object \<Rightarrow> evidence_record" where
  "recognised r obj = r\<lparr>er_previous_record_hash := text_of (obj_get ''previous_record_hash'' obj),
     er_record_hash := text_of (obj_get ''record_hash'' obj)\<rparr>"

definition append_idempotent ::
  "runtime \<Rightarrow> pystr option \<Rightarrow> pystr \<Rightarrow> evidence_record
   \<Rightarrow> (evidence_state, evidence_error, evidence_record) effect" where
  "append_idempotent R profile stamp r s =
     (if er_record_hash r \<noteq> [] then (raise AlreadySealedRecord, s)
      else case evidence_to_dict R r of
          Inl e \<Rightarrow> (raise (EvidenceContract e), s)
        | Inr (r, expected) \<Rightarrow>
            let status = verify R (es_lines s) in
            if \<not> cs_ok status then (raise BrokenChain, s)
            else bindA (reconcile_head_unlocked R profile stamp) (\<lambda>_.
              bindA (\<lambda>s. (raw_records (es_lines s), s)) (\<lambda>objs.
                case find_record (er_record_id r) objs of
                  Some obj \<Rightarrow>
                    (if same_object (comparable obj) (comparable expected) then okA (recognised r obj)
                     else failA ConflictsWithJournal)
                | None \<Rightarrow> seal_and_write R profile stamp (cs_count status) r)) s)"

text \<open>Opening the store reconciles its checkpoint.\<close>

definition open_store :: "runtime \<Rightarrow> pystr option \<Rightarrow> pystr \<Rightarrow> (evidence_state, evidence_error, unit) effect" where
  "open_store R profile stamp s =
     (if profile = None then (return (), s)
      else if \<not> cs_ok (verify R (es_lines s)) then (raise BrokenChain, s)
      else reconcile_head_unlocked R profile stamp s)"

subsection \<open>Queries\<close>

definition field_is :: "string \<Rightarrow> pystr \<Rightarrow> json_object \<Rightarrow> bool" where
  "field_is k v obj \<longleftrightarrow> obj_get k obj = Some (PStr v)"

definition terminal_results :: "pystr list" where
  "terminal_results = map lit
     [''succeeded'', ''failed'', ''blocked'', ''rejected'', ''expired'', ''not_executed'']"

definition is_terminal :: "json_object \<Rightarrow> bool" where
  "is_terminal obj \<longleftrightarrow> list_ex (\<lambda>v. field_is ''result_status'' v obj) terminal_results"

definition open_of :: "json_object list \<Rightarrow> json_object list" where
  "open_of objs =
     (let terminal_hashes = map (obj_get ''authorization_hash'') (filter is_terminal objs)
      in filter (\<lambda>obj. field_is ''result_status'' (lit ''skipped'') obj
           \<and> obj_get ''authorization_hash'' obj \<notin> set terminal_hashes) objs)"

definition open_authorizations :: "evidence_line list \<Rightarrow> (evidence_error, json_object list) result" where
  "open_authorizations ls = bindR (raw_records ls) (\<lambda>objs. return (open_of objs))"

definition open_authorization :: "pystr \<Rightarrow> evidence_line list \<Rightarrow> (evidence_error, json_object option) result" where
  "open_authorization record_id ls = bindR (open_authorizations ls) (\<lambda>objs.
     return (find (field_is ''record_id'' record_id) objs))"

definition by_request :: "pystr \<Rightarrow> evidence_line list \<Rightarrow> (evidence_error, json_object list) result" where
  "by_request request_id ls = bindR (raw_records ls) (\<lambda>objs.
     return (filter (field_is ''request_id'' request_id) objs))"

definition by_action :: "pystr \<Rightarrow> evidence_line list \<Rightarrow> (evidence_error, json_object list) result" where
  "by_action action_id ls = bindR (raw_records ls) (\<lambda>objs.
     return (filter (field_is ''action_id'' action_id) objs))"

text \<open>These two stop at the first match and never read past it.\<close>

fun first_matching :: "(json_object \<Rightarrow> bool) \<Rightarrow> evidence_line list \<Rightarrow> (evidence_error, json_object option) result" where
  "first_matching P [] = return None"
| "first_matching P (Unreadable # ls) = raise CannotRead"
| "first_matching P (Line obj # ls) = (if P obj then return (Some obj) else first_matching P ls)"

definition first_by_action :: "pystr \<Rightarrow> evidence_line list \<Rightarrow> (evidence_error, json_object option) result" where
  "first_by_action action_id ls = first_matching (field_is ''action_id'' action_id) ls"

definition get_record :: "pystr \<Rightarrow> evidence_line list \<Rightarrow> (evidence_error, json_object option) result" where
  "get_record record_id ls = first_matching (field_is ''record_id'' record_id) ls"

subsection \<open>Export\<close>

text \<open>
  \<open>export_existing_request\<close>: the records of one request, with the length and the end of the whole
  chain; the end is left out when the chain does not verify, and a file that cannot be read to its
  end is refused.
\<close>

record evidence_export =
  ex_request_id :: pystr
  ex_exported_at :: pystr
  ex_record_count :: nat
  ex_full_chain_record_count :: nat
  ex_chain_head_hash :: "pyval option"
  ex_chain_status :: chain_status
  ex_records :: "json_object list"

definition last_hash :: "json_object list \<Rightarrow> pyval" where
  "last_hash objs = (if objs = [] then PStr genesis
     else (case obj_get ''record_hash'' (last objs) of None \<Rightarrow> PNone | Some v \<Rightarrow> v))"

definition export_request ::
  "runtime \<Rightarrow> pystr \<Rightarrow> pystr \<Rightarrow> evidence_line list \<Rightarrow> (evidence_error, evidence_export) result" where
  "export_request R stamp request_id ls =
     bindR (verify_evidence_records R True ls) (\<lambda>status.
     bindR (by_request request_id ls) (\<lambda>records.
     bindR (raw_records ls) (\<lambda>objs.
       return \<lparr>ex_request_id = request_id, ex_exported_at = stamp, ex_record_count = length records,
         ex_full_chain_record_count = cs_count status,
         ex_chain_head_hash = (if cs_ok status then Some (last_hash objs) else None),
         ex_chain_status = status, ex_records = records\<rparr>)))"

end
