(* ===== verification/EvidenceFacts.thy ===== *)
theory EvidenceFacts
  imports Evidence
begin

text \<open>
  The evidence chain: what its verification establishes, what a sealed line contributes to it, and
  how the last hash and the number of records pin down everything before them.
\<close>

subsection \<open>Chains\<close>

fun chain :: "runtime \<Rightarrow> pystr \<Rightarrow> json_object list \<Rightarrow> bool" where
  "chain R previous [] = True"
| "chain R previous (obj # objs) =
     (obj_get ''previous_record_hash'' obj = Some (PStr previous)
      \<and> obj_get ''record_hash'' obj = Some (PStr (body_hash R obj)) \<and> chain R (body_hash R obj) objs)"

definition chain_end :: "runtime \<Rightarrow> pystr \<Rightarrow> json_object list \<Rightarrow> pystr" where
  "chain_end R previous objs = (if objs = [] then previous else body_hash R (last objs))"

lemma raw_records_Inr [simp]: "raw_records ls = return objs \<longleftrightarrow> ls = map Line objs"
proof (induction ls arbitrary: objs)
  case (Cons l ls)
  then show ?case by (cases l; cases objs) auto
qed auto

lemma raw_records_map [simp]: "raw_records (map Line objs) = return objs"
  by simp

lemma verify_from_ok:
  "cs_ok (verify_from R previous n ls) \<longleftrightarrow> (\<exists>objs. ls = map Line objs \<and> chain R previous objs)"
proof (induction R previous n ls rule: verify_from.induct)
  case (3 R previous n obj ls)
  show ?case
  proof
    assume "cs_ok (verify_from R previous n (Line obj # ls))"
    then have c: "obj_get ''previous_record_hash'' obj = Some (PStr previous)"
      "obj_get ''record_hash'' obj = Some (PStr (body_hash R obj))"
      "cs_ok (verify_from R (body_hash R obj) (n + 1) ls)"
      by (auto simp: broken_def split: if_splits)
    then obtain objs where "ls = map Line objs" "chain R (body_hash R obj) objs"
      using 3 by auto
    then show "\<exists>objs. Line obj # ls = map Line objs \<and> chain R previous objs"
      using c by (intro exI [of _ "obj # objs"]) simp
  next
    assume "\<exists>objs. Line obj # ls = map Line objs \<and> chain R previous objs"
    then show "cs_ok (verify_from R previous n (Line obj # ls))" using 3 by auto
  qed
qed (auto simp: broken_def)

lemma verify_from_count:
  "chain R previous objs \<Longrightarrow> cs_count (verify_from R previous n (map Line objs)) = n + length objs"
  by (induction objs arbitrary: previous n) auto

lemma verify_ok: "cs_ok (verify R ls) \<longleftrightarrow> (\<exists>objs. ls = map Line objs \<and> chain R genesis objs)"
  by (simp add: verify_def verify_from_ok)

lemma verify_count: "chain R genesis objs \<Longrightarrow> cs_count (verify R (map Line objs)) = length objs"
  by (simp add: verify_def verify_from_count)

lemma chain_append:
  "chain R p (xs @ ys) \<longleftrightarrow> chain R p xs \<and> chain R (chain_end R p xs) ys"
  by (induction xs arbitrary: p) (auto simp: chain_end_def)

lemma chain_last_hash:
  "chain R p objs \<Longrightarrow> objs \<noteq> [] \<Longrightarrow> obj_get ''record_hash'' (last objs) = Some (PStr (body_hash R (last objs)))"
  by (induction objs arbitrary: p) auto

lemma chain_position: "chain R genesis objs \<Longrightarrow> evidence_position objs = (length objs, chain_end R genesis objs)"
  using chain_last_hash [of R genesis objs] by (simp add: evidence_position_def chain_end_def)

lemma chain_take: "chain R p objs \<Longrightarrow> chain R p (take n objs)"
  using chain_append [of R p "take n objs" "drop n objs"] by simp

subsection \<open>A body determines its record\<close>

text \<open>The text a record's hash is of; two histories collide where, at one place, two such texts do.\<close>

definition body_text :: "json_object \<Rightarrow> pystr" where
  "body_text obj = encode (json_of (without_hash obj))"

definition colliding :: "runtime \<Rightarrow> json_object list \<Rightarrow> json_object list \<Rightarrow> bool" where
  "colliding R xs ys \<longleftrightarrow> list_ex (\<lambda>(x, y). body_text x \<noteq> body_text y
     \<and> rt_sha256 R (body_text x) = rt_sha256 R (body_text y)) (zip xs ys)"

lemma colliding_snoc:
  "length xs = length ys \<Longrightarrow> colliding R (xs @ [x]) (ys @ [y]) \<longleftrightarrow> colliding R xs ys \<or> colliding R [x] [y]"
  by (simp add: colliding_def)

abbreviation reloads_data :: "json_object \<Rightarrow> bool" where
  "reloads_data obj \<equiv> json_data (json_of obj)"

lemma json_of_inj [simp]: "json_of a = json_of b \<longleftrightarrow> a = b"
proof -
  have "inj (\<lambda>(k, v :: pyval). (PStr k, v))" by (auto simp: inj_def)
  then show ?thesis by (simp add: json_of_def inj_map_eq_map)
qed

lemma json_data_object: "reloads_data obj \<Longrightarrow> wf_dict obj"
  by (simp add: json_of_def wf_dict_def comp_def case_prod_beta)

lemma json_data_filter: "reloads_data obj \<Longrightarrow> reloads_data (filter P obj)"
  by (auto simp: json_of_def list_all_iff distinct_map comp_def case_prod_beta inj_on_def)

lemma dict_get_map_snd: "dict_get k (map (\<lambda>(k, v). (k, f v)) obj) = map_option f (dict_get k obj)"
  by (induction obj) auto

lemma wf_dict_map_snd [simp]: "wf_dict (map (\<lambda>(k, v). (k, f v)) obj) = wf_dict obj"
  by (simp add: wf_dict_def comp_def case_prod_beta)

lemma reload_object_get: "wf_dict obj \<Longrightarrow> dict_get k (reload_object obj) = map_option json_reload (dict_get k obj)"
  by (simp add: reload_object_def dict_get_map_snd)

lemma dict_get_filter: "(\<And>v. P (k, v)) \<Longrightarrow> dict_get k (filter P obj) = dict_get k obj"
  by (induction obj) auto

lemma previous_in_body: "obj_get ''previous_record_hash'' (without_hash obj) = obj_get ''previous_record_hash'' obj"
  unfolding without_hash_def by (rule dict_get_filter) simp

lemma body_hash_determines:
  assumes "reloads_data a" "reloads_data b" "body_hash R a = body_hash R b"
  shows "reload_object (without_hash a) = reload_object (without_hash b) \<or> colliding R [a] [b]"
proof (cases "body_text a = body_text b")
  case True
  have "json_reload (json_of (without_hash a)) = json_reload (json_of (without_hash b))"
    by (rule encode_data_inj [OF _ _ True [unfolded body_text_def]]) (use assms json_data_filter in \<open>auto simp: without_hash_def\<close>)
  then show ?thesis by (simp add: json_reload_object)
next
  case False
  then show ?thesis using assms(3) by (simp add: body_hash_def sha256_of_def colliding_def body_text_def)
qed

text \<open>The bodies of a file as they are read.\<close>

definition bodies :: "json_object list \<Rightarrow> json_object list" where
  "bodies objs = map (\<lambda>obj. reload_object (without_hash obj)) objs"

lemma chain_determined:
  "chain R p xs \<Longrightarrow> chain R p ys \<Longrightarrow> length xs = length ys \<Longrightarrow> chain_end R p xs = chain_end R p ys \<Longrightarrow>
   \<forall>obj \<in> set xs \<union> set ys. reloads_data obj \<Longrightarrow> bodies xs = bodies ys \<or> colliding R xs ys"
proof (induction xs arbitrary: ys rule: rev_induct)
  case Nil
  then show ?case by (simp add: bodies_def)
next
  case (snoc x xs)
  obtain y zs where ys: "ys = zs @ [y]"
    using snoc.prems(3) by (cases ys rule: rev_cases) auto
  have cx: "chain R p xs" "obj_get ''previous_record_hash'' x = Some (PStr (chain_end R p xs))"
    and cy: "chain R p zs" "obj_get ''previous_record_hash'' y = Some (PStr (chain_end R p zs))"
    using snoc.prems(1,2) by (auto simp: ys chain_append)
  have "body_hash R x = body_hash R y" using snoc.prems(4) by (simp add: ys chain_end_def)
  then have "reload_object (without_hash x) = reload_object (without_hash y) \<or> colliding R [x] [y]"
    using snoc.prems(5) by (intro body_hash_determines) (auto simp: ys)
  then show ?case
  proof
    assume r: "reload_object (without_hash x) = reload_object (without_hash y)"
    have g: "obj_get ''previous_record_hash'' (reload_object (without_hash o'))
        = map_option json_reload (obj_get ''previous_record_hash'' o')"
      if "o' \<in> {x, y}" for o'
    proof -
      have "reloads_data (without_hash o')"
        using that snoc.prems(5) json_data_filter by (auto simp: ys without_hash_def)
      then show ?thesis by (simp add: reload_object_get json_data_object previous_in_body)
    qed
    have "chain_end R p xs = chain_end R p zs" using g [of x] g [of y] r cx(2) cy(2) by simp
    then have "bodies xs = bodies zs \<or> colliding R xs zs"
      using snoc.IH [OF cx(1) cy(1)] snoc.prems(3,5) by (auto simp: ys)
    then show ?thesis using r snoc.prems(3) by (auto simp: ys bodies_def colliding_snoc)
  qed (use snoc.prems(3) in \<open>simp add: ys colliding_snoc\<close>)
qed

subsection \<open>What is written\<close>

text \<open>Clocks that write times they read back, and hashes of the expected shape.\<close>

definition utc_stable :: "runtime \<Rightarrow> bool" where
  "utc_stable R \<longleftrightarrow> (\<forall>s t. rt_instant R s = Some t \<longrightarrow>
     rt_utc_text R t \<noteq> [] \<and> rt_instant R (rt_utc_text R t) = Some t)"

definition sha_shaped :: "runtime \<Rightarrow> bool" where
  "sha_shaped R \<longleftrightarrow> (\<forall>x. is_sha256 (lit ''sha256:'' @ rt_sha256 R x))"

lemma utc_timestamp_again: "utc_stable R \<Longrightarrow> utc_timestamp R s = return t \<Longrightarrow> utc_timestamp R t = return t"
  by (auto simp: utc_timestamp_def utc_stable_def split: if_splits option.splits)

lemma optional_timestamp_again:
  "utc_stable R \<Longrightarrow> optional_timestamp R v = return w \<Longrightarrow> optional_timestamp R w = return w"
  by (auto simp: optional_timestamp_def utc_timestamp_again split: option.splits)

lemma snapshot_again: "authority_snapshot v = return w \<Longrightarrow> authority_snapshot w = return w"
  using snapshot_idem [OF sane_action_limits] by (auto simp: authority_snapshot_def)

lemma mapping_snapshot_again: "mapping_snapshot v = return w \<Longrightarrow> mapping_snapshot w = return w"
proof -
  assume m: "mapping_snapshot v = return w"
  then obtain kvs where v: "v = PDict kvs" "authority_snapshot v = return w"
    by (auto simp: mapping_snapshot_def split: pyval.splits)
  then have "\<exists>es. w = PDict es" by (auto simp: authority_snapshot_def snapshot_of_def)
  then show ?thesis using snapshot_again [OF v(2)] by (auto simp: mapping_snapshot_def)
qed

lemma mapping_list_snapshot_again: "mapping_list_snapshot vs = return ws \<Longrightarrow> mapping_list_snapshot ws = return ws"
proof -
  assume m: "mapping_list_snapshot vs = return ws"
  then obtain x where x: "authority_snapshot (PList vs) = return x"
    "(case x of PList ws \<Rightarrow> if list_all is_mapping ws then return ws else raise FieldsMismatch
       | _ \<Rightarrow> raise FieldsMismatch) = return ws"
    by (auto simp: mapping_list_snapshot_def)
  then have s: "authority_snapshot (PList vs) = return (PList ws)" "list_all is_mapping ws"
    by (cases x; simp split: if_splits)+
  then show ?thesis using snapshot_again [OF s(1)] by (simp add: mapping_list_snapshot_def)
qed

lemma validate_evidence_again:
  assumes "utc_stable R" "validate_evidence R r = return q"
  shows "validate_evidence R (q\<lparr>er_record_hash := h\<rparr>) = return (q\<lparr>er_record_hash := h\<rparr>)"
  using assms mapping_snapshot_again mapping_list_snapshot_again utc_timestamp_again optional_timestamp_again
  by (auto simp: validate_evidence_def) 


text \<open>The lookups in the written fields.\<close>

lemma record_entries_get:
  "obj_get ''previous_record_hash'' (record_entries r i f c m) = Some (PStr (er_previous_record_hash r))"
  "obj_get ''record_hash'' (record_entries r i f c m) = Some (PStr (er_record_hash r))"
  "obj_get ''record_id'' (record_entries r i f c m) = Some (PStr (er_record_id r))"
  "obj_get ''result_status'' (record_entries r i f c m) = Some (PStr (status_value (er_result_status r)))"
  "obj_get ''authorization_hash'' (record_entries r i f c m) = Some (PStr (er_authorization_hash r))"
  "obj_get ''action_id'' (record_entries r i f c m) = Some (PStr (er_action_id r))"
  unfolding record_entries_def
  by ((subst dict_get_filter; simp))+

lemma record_entries_body:
  "without_hash (record_entries (r\<lparr>er_record_hash := h\<rparr>) i f c m) = without_hash (record_entries r i f c m)"
  by (simp add: record_entries_def without_hash_def)

lemma reload_without_hash: "without_hash (reload_object obj) = reload_object (without_hash obj)"
proof -
  have "filter (\<lambda>kv. fst kv \<noteq> lit ''record_hash'') (map (\<lambda>(k, v). (k, json_reload v)) obj)
      = map (\<lambda>(k, v). (k, json_reload v)) (filter (\<lambda>kv. fst kv \<noteq> lit ''record_hash'') obj)"
    by (induction obj) auto
  then show ?thesis
    by (simp add: without_hash_def reload_object_def sort_keys_sort filter_sort)
qed

lemma body_hash_reload:
  assumes "reloads_data obj"
  shows "body_hash R (reload_object obj) = body_hash R obj"
proof -
  have "reloads_data (without_hash obj)" using assms json_data_filter by (simp add: without_hash_def)
  then have "encode (json_of (reload_object (without_hash obj))) = encode (json_of (without_hash obj))"
    using json_reload_sound by (metis json_reload_object)
  then show ?thesis by (simp add: body_hash_def sha256_of_def reload_without_hash)
qed

lemma evidence_to_dictE:
  assumes "evidence_to_dict R r = return (q, obj)"
  obtains i f c m where "validate_evidence R r = return q" "record_values q = return obj"
    "obj = record_entries q i f c m"
  using assms by (auto simp: evidence_to_dict_def record_values_def)

lemma record_values_hash:
  "record_values r = return obj \<Longrightarrow>
   \<exists>obj'. record_values (r\<lparr>er_record_hash := h\<rparr>) = return obj' \<and> without_hash obj' = without_hash obj"
  by (auto simp: record_values_def remaining_value_def record_entries_body)

text \<open>
  A record sealed after a chain extends it: the line that is written carries the hash of its
  predecessor and the hash of its own body, as they are read back.
\<close>

definition plain_record :: "runtime \<Rightarrow> evidence_record \<Rightarrow> bool" where
  "plain_record R r \<longleftrightarrow> (case evidence_to_dict R r of Inl _ \<Rightarrow> True | Inr (_, obj) \<Rightarrow> reloads_data obj)"

lemma sealed_line_chains:
  assumes u: "utc_stable R" and s: "seal_record R previous r = return q"
    and l: "serialized_line R q = return line" and p: "plain_record R q"
  shows "chain R previous [line] \<and> er_record_hash q = body_hash R line
    \<and> obj_get ''record_id'' line = Some (PStr (er_record_id q))
    \<and> obj_get ''result_status'' line = Some (PStr (status_value (er_result_status q)))
    \<and> obj_get ''authorization_hash'' line = Some (PStr (er_authorization_hash q))"
proof -
  obtain r1 obj where r1: "evidence_to_dict R (r\<lparr>er_previous_record_hash := previous\<rparr>) = return (r1, obj)"
    and q: "q = r1\<lparr>er_record_hash := body_hash R obj\<rparr>"
    using s by (auto simp: seal_record_def body_hash_def split: if_splits)
  obtain i f c m where v: "validate_evidence R (r\<lparr>er_previous_record_hash := previous\<rparr>) = return r1"
    and rv: "record_values r1 = return obj"
    using r1 by (rule evidence_to_dictE)
  have prev: "er_previous_record_hash r1 = previous" using v by (auto simp: validate_evidence_def)
  obtain obj2 where o2: "record_values q = return obj2" "without_hash obj2 = without_hash obj"
    using record_values_hash [OF rv] q by blast
  have d2: "evidence_to_dict R q = return (q, obj2)"
    using validate_evidence_again [OF u v] o2(1) by (simp add: evidence_to_dict_def q)
  obtain i f c m where e2: "obj2 = record_entries q i f c m" by (rule evidence_to_dictE [OF d2])
  have line: "line = reload_object obj2" using l d2 by (auto simp: serialized_line_def split: if_splits)
  have w: "reloads_data obj2" using p d2 by (simp add: plain_record_def)
  have h: "body_hash R line = body_hash R obj2"
    unfolding line by (rule body_hash_reload [OF w])
  have h': "body_hash R obj2 = body_hash R obj" using o2(2) by (simp add: body_hash_def)
  note g = reload_object_get [OF json_data_object [OF w]]
  show ?thesis
    using h h' prev by (simp add: line g e2 [symmetric] del: e2) (simp add: e2 record_entries_get q)
qed

end
