(* ===== verification/EvidenceRecovery.thy ===== *)
theory EvidenceRecovery
  imports EvidenceFacts Recovery
begin

text \<open>
  What the calls of the evidence store do to its file and its checkpoint, and the interface of
  recovery for the append that recognises a record already written.
\<close>

subsection \<open>The steps of an append\<close>

lemma lines_inj [simp]: "map Line xs = map Line ys \<longleftrightarrow> xs = ys"
  by (rule inj_map_eq_map) (simp add: inj_def)

lemma reconcile_unlockedE:
  assumes "reconcile_head_unlocked R profile stamp s = (res, t)"
  obtains "t = s"
    | pr objs h where "profile = Some pr" "es_lines s = map Line objs"
      "reconcile_head R stamp pr objs (es_allow_rebind s) (es_head s) = return h"
      "res = return ()" "t = s\<lparr>es_head := Some h, es_allow_rebind := False\<rparr>"
proof (cases profile)
  case None
  then show ?thesis using assms that(1) by (simp add: reconcile_head_unlocked_def)
next
  case (Some pr)
  show ?thesis
  proof (cases "bindR (raw_records (es_lines s)) (\<lambda>objs. mapErr EvidenceHeadError
      (reconcile_head R stamp pr objs (es_allow_rebind s) (es_head s)))")
    case (Inl e)
    then show ?thesis using assms that(1) Some by (simp add: reconcile_head_unlocked_def)
  next
    case (Inr h)
    then obtain objs where "es_lines s = map Line objs"
      "reconcile_head R stamp pr objs (es_allow_rebind s) (es_head s) = return h"
      by auto
    then show ?thesis
      using assms Some Inr by (intro that(2) [of pr objs h]) (simp_all add: reconcile_head_unlocked_def)
  qed
qed

lemma reconcile_headE:
  assumes "reconcile_head R stamp pr objs b cur = return h"
  obtains "cur = None" "h = \<lparr>hs_profile_hash = pr, hs_record_count = fst (evidence_position objs),
      hs_head_hash = snd (evidence_position objs), hs_checkpointed_at = stamp\<rparr>" "check_head R h = return ()"
    | g where "cur = Some g" "assess_head g objs = Verified" "h = g" "hs_profile_hash g = pr" "check_head R g = return ()"
    | g where "cur = Some g" "assess_head g objs \<in> {Verified, ForwardRecovery}" "check_head R h = return ()"
      "hs_profile_hash g \<noteq> pr \<and> b \<or> hs_profile_hash g = pr \<and> assess_head g objs = ForwardRecovery"
      "h = \<lparr>hs_profile_hash = pr, hs_record_count = fst (evidence_position objs),
        hs_head_hash = snd (evidence_position objs), hs_checkpointed_at = stamp\<rparr>"
  using assms
  by (auto simp: reconcile_head_def get_head_def case_prod_beta Let_def
      split: option.splits head_verification.splits if_splits)

lemma assess_verified: "assess_head h objs = Verified \<Longrightarrow> evidence_position objs = (hs_record_count h, hs_head_hash h)"
  by (auto simp: assess_head_def case_prod_beta prod_eq_iff split: if_splits)

lemma assess_forward:
  "assess_head h objs = ForwardRecovery \<Longrightarrow> hs_record_count h < length objs
   \<and> (hs_record_count h = 0 \<longrightarrow> hs_head_hash h = genesis)
   \<and> (hs_record_count h \<noteq> 0 \<longrightarrow> obj_get ''record_hash'' (objs ! (hs_record_count h - 1)) = Some (PStr (hs_head_hash h)))"
  by (auto simp: assess_head_def evidence_position_def split: if_splits)

text \<open>A reconciled checkpoint stands at the end of the chain, under the active profile.\<close>

lemma reconcile_head_position:
  assumes "reconcile_head R stamp pr objs b cur = return h"
  shows "hs_profile_hash h = pr \<and> evidence_position objs = (hs_record_count h, hs_head_hash h) \<and> check_head R h = return ()"
  using assms by (cases rule: reconcile_headE) (auto dest: assess_verified)

lemma reconcile_head_monotone:
  assumes "reconcile_head R stamp pr objs b (Some g) = return h"
  shows "hs_record_count g \<le> hs_record_count h"
  using assms
  by (cases rule: reconcile_headE)
    (auto dest: assess_verified assess_forward simp: evidence_position_def)

lemma head_reconcile_again:
  assumes "reconcile_head R stamp pr objs b cur = return h"
  shows "reconcile_head R stamp' pr objs b' (Some h) = return h"
proof -
  have h: "hs_profile_hash h = pr" "evidence_position objs = (hs_record_count h, hs_head_hash h)"
    "check_head R h = return ()"
    using reconcile_head_position [OF assms] by auto
  have "check_hash pr = return ()" using assms by (auto simp: reconcile_head_def)
  then show ?thesis using h by (simp add: reconcile_head_def get_head_def assess_head_def)
qed

lemma advance_headE:
  assumes "advance_head R stamp pr n previous m hh cur = return h"
  obtains g where "cur = Some g" "hs_profile_hash g = pr" "check_head R h = return ()" "n < m"
    "hs_record_count h = m" "hs_head_hash h = hh" "hs_profile_hash h = pr" "is_sha256 pr"
    "hs_record_count g = n \<and> hs_head_hash g = previous \<and> hs_checkpointed_at h = stamp \<or> h = g"
  using assms
  by (auto simp: advance_head_def get_head_def check_hash_def not_le split: option.splits if_splits)

lemma seal_and_writeE:
  assumes "seal_and_write R profile stamp n r s = (return q, t)"
  obtains objs line where "es_lines s = map Line objs"
    "seal_record R (snd (evidence_position objs)) r = return q" "serialized_line R q = return line"
    "advance_head_unlocked R profile stamp n (snd (evidence_position objs)) (er_record_hash q)
       (s\<lparr>es_lines := es_lines s @ [Line line]\<rparr>) = (return (), t)"
  using assms
  by (auto simp: seal_and_write_def head_hash_unchecked_def write_line_def bindA_Inr liftA_def okA_def)

lemma advance_unlockedE:
  assumes "advance_head_unlocked R profile stamp n previous hh s = (res, t)"
  obtains "t = s" | pr h where "profile = Some pr" "advance_head R stamp pr n previous (n + 1) hh (es_head s) = return h"
     "t = s\<lparr>es_head := Some h\<rparr>" "res = return ()"
proof (cases profile)
  case None
  then show ?thesis using assms that(1) by (simp add: advance_head_unlocked_def)
next
  case (Some pr)
  show ?thesis
  proof (cases "advance_head R stamp pr n previous (n + 1) hh (es_head s)")
    case (Inl e)
    then show ?thesis using assms that(1) Some by (simp add: advance_head_unlocked_def)
  next
    case (Inr h)
    then show ?thesis using assms Some by (intro that(2) [of pr h]) (simp_all add: advance_head_unlocked_def)
  qed
qed

text \<open>Every call leaves the lines, or adds one.\<close>

lemma reconcile_unlocked_lines: "es_lines (snd (reconcile_head_unlocked R profile stamp s)) = es_lines s"
  by (cases "reconcile_head_unlocked R profile stamp s") (auto elim!: reconcile_unlockedE)

lemma advance_unlocked_lines:
  "advance_head_unlocked R profile stamp n p hh s = (res, t) \<Longrightarrow> es_lines t = es_lines s"
  by (auto elim!: advance_unlockedE)

definition one_more :: "evidence_line list \<Rightarrow> evidence_line list \<Rightarrow> bool" where
  "one_more ls ms \<longleftrightarrow> ms = ls \<or> (\<exists>line. ms = ls @ [Line line])"

lemma one_more_simps [simp]: "one_more ls ls" "one_more ls (ls @ [Line line])"
  by (simp_all add: one_more_def)

lemma seal_and_write_lines: "one_more (es_lines s) (es_lines (snd (seal_and_write R profile stamp n r s)))"
  by (auto simp: seal_and_write_def bindA_def write_line_def liftA_def okA_def head_hash_unchecked_def
      dest!: advance_unlocked_lines split: sum.split prod.split)

lemma append_lines:
  "one_more (es_lines s) (es_lines (snd (append_evidence R profile stamp r s)))"
  "one_more (es_lines s) (es_lines (snd (append_idempotent R profile stamp r s)))"
proof -
  obtain res s1 where m: "reconcile_head_unlocked R profile stamp s = (res, s1)"
    by (cases "reconcile_head_unlocked R profile stamp s")
  then have e: "es_lines s1 = es_lines s" using reconcile_unlocked_lines [of R profile stamp s] by simp
  have w: "one_more (es_lines s) (es_lines (snd (seal_and_write R profile stamp n q s1)))" for n q
    using seal_and_write_lines [of s1] e by simp
  show "one_more (es_lines s) (es_lines (snd (append_evidence R profile stamp r s)))"
    using m e w by (cases res) (simp_all add: append_evidence_def Let_def)
  show "one_more (es_lines s) (es_lines (snd (append_idempotent R profile stamp r s)))"
  proof (cases "evidence_to_dict R r")
    case (Inr p)
    then show ?thesis
      using m e w
      by (cases res; cases p; cases "raw_records (es_lines s)")
        (simp_all add: append_idempotent_def Let_def bindA_def split: option.split)
  qed (simp add: append_idempotent_def)
qed

lemma open_store_lines: "es_lines (snd (open_store R profile stamp s)) = es_lines s"
  by (simp add: open_store_def reconcile_unlocked_lines)

subsection \<open>A successful append\<close>

text \<open>The checkpoint stands at the end of the file, under the active profile.\<close>

definition anchored :: "runtime \<Rightarrow> pystr option \<Rightarrow> json_object list \<Rightarrow> evidence_state \<Rightarrow> bool" where
  "anchored R profile objs s \<longleftrightarrow> (case profile of None \<Rightarrow> True
     | Some pr \<Rightarrow> \<not> es_allow_rebind s \<and> (\<exists>h. es_head s = Some h \<and> hs_profile_hash h = pr
         \<and> evidence_position objs = (hs_record_count h, hs_head_hash h) \<and> check_head R h = return ()))"

lemma reconcile_unlocked_anchors:
  assumes "reconcile_head_unlocked R profile stamp s = (return (), t)" "es_lines s = map Line objs"
  shows "anchored R profile objs t \<and> es_lines t = es_lines s \<and> (profile = None \<longrightarrow> t = s)"
proof (cases profile)
  case None
  then show ?thesis using assms by (simp add: reconcile_head_unlocked_def anchored_def)
next
  case (Some pr)
  then obtain h where "reconcile_head R stamp pr objs (es_allow_rebind s) (es_head s) = return h"
    "t = s\<lparr>es_head := Some h, es_allow_rebind := False\<rparr>"
    using assms by (auto simp: reconcile_head_unlocked_def split: sum.splits)
  then show ?thesis using reconcile_head_position Some by (fastforce simp: anchored_def)
qed

lemma anchored_reconcile:
  assumes "anchored R profile objs s" "es_lines s = map Line objs"
    "\<And>pr. profile = Some pr \<Longrightarrow> is_sha256 pr"
  shows "reconcile_head_unlocked R profile stamp s = (return (), s)"
proof (cases profile)
  case None
  then show ?thesis by (simp add: reconcile_head_unlocked_def)
next
  case (Some pr)
  then obtain h where h: "es_head s = Some h" "hs_profile_hash h = pr" "\<not> es_allow_rebind s"
    "evidence_position objs = (hs_record_count h, hs_head_hash h)" "check_head R h = return ()"
    using assms(1) by (auto simp: anchored_def)
  then have "reconcile_head R stamp pr objs (es_allow_rebind s) (es_head s) = return h"
    using assms(3) [OF Some] by (simp add: reconcile_head_def check_hash_def get_head_def assess_head_def)
  then show ?thesis using h assms(2) Some by (simp add: reconcile_head_unlocked_def)
qed

lemma seal_and_write_extends:
  assumes u: "utc_stable R" and w: "seal_and_write R profile stamp (length objs) r s = (return q, t)"
    and s: "es_lines s = map Line objs" "chain R genesis objs" and p: "plain_record R q"
    and a: "anchored R profile objs s"
  obtains line where "es_lines t = map Line (objs @ [line])" "chain R genesis (objs @ [line])"
    "serialized_line R q = return line" "seal_record R (chain_end R genesis objs) r = return q"
    "er_record_hash q = body_hash R line" "anchored R profile (objs @ [line]) t"
proof -
  obtain line where q: "seal_record R (chain_end R genesis objs) r = return q" "serialized_line R q = return line"
    and adv: "advance_head_unlocked R profile stamp (length objs) (chain_end R genesis objs) (er_record_hash q)
       (s\<lparr>es_lines := es_lines s @ [Line line]\<rparr>) = (return (), t)"
    using w by (rule seal_and_writeE) (use s chain_position [OF s(2)] in auto)
  have l: "chain R (chain_end R genesis objs) [line]" "er_record_hash q = body_hash R line"
    using sealed_line_chains [OF u q p] by auto
  have c: "chain R genesis (objs @ [line])" using s(2) l(1) by (simp add: chain_append)
  have e: "es_lines t = map Line (objs @ [line])" using advance_unlocked_lines [OF adv] s(1) by simp
  have "anchored R profile (objs @ [line]) t"
  proof (cases profile)
    case (Some pr)
    then obtain h where h: "advance_head R stamp pr (length objs) (chain_end R genesis objs)
        (length objs + 1) (er_record_hash q) (es_head s) = return h"
      "t = s\<lparr>es_lines := es_lines s @ [Line line], es_head := Some h\<rparr>"
      using adv by (auto simp: advance_head_unlocked_def split: sum.splits)
    then have "hs_record_count h = length objs + 1" "hs_head_hash h = er_record_hash q"
      "hs_profile_hash h = pr" "check_head R h = return ()"
      by (auto elim!: advance_headE)
    then show ?thesis
      using h a Some chain_position [OF c] l(2) by (simp add: anchored_def chain_end_def)
  qed (simp add: anchored_def)
  then show ?thesis using that c e q l(2) by blast
qed

lemma append_evidenceE:
  assumes "append_evidence R profile stamp r s = (return q, t)"
  obtains objs s1 where "er_record_hash r = []" "es_lines s = map Line objs" "chain R genesis objs"
    "reconcile_head_unlocked R profile stamp s = (return (), s1)" "es_lines s1 = map Line objs"
    "anchored R profile objs s1" "seal_and_write R profile stamp (length objs) r s1 = (return q, t)"
proof -
  obtain s1 where m: "er_record_hash r = []" "cs_ok (verify R (es_lines s))"
    "reconcile_head_unlocked R profile stamp s = (return (), s1)"
    "seal_and_write R profile stamp (cs_count (verify R (es_lines s))) r s1 = (return q, t)"
    using assms by (auto simp: append_evidence_def Let_def bindA_Inr split: if_splits)
  then obtain objs where "es_lines s = map Line objs" "chain R genesis objs" by (auto simp: verify_ok)
  then show ?thesis
    using m that reconcile_unlocked_anchors [OF m(3)] by (simp add: verify_count)
qed

text \<open>
  An append cut off after its line was written and before the checkpoint moved: opening the store
  brings the checkpoint to where the finished append leaves it.
\<close>

lemma chain_end_in_last:
  "chain R genesis objs \<Longrightarrow> objs \<noteq> [] \<Longrightarrow>
   obj_get ''record_hash'' (objs ! (length objs - 1)) = Some (PStr (chain_end R genesis objs))"
  using chain_last_hash [of R genesis objs] by (simp add: chain_end_def last_conv_nth)

lemma interrupted_assessed:
  assumes "chain R genesis (objs @ [line])" "evidence_position objs = (hs_record_count g, hs_head_hash g)"
  shows "assess_head g (objs @ [line]) = ForwardRecovery"
proof -
  have c: "chain R genesis objs" using assms(1) by (simp add: chain_append)
  have g: "hs_record_count g = length objs" "hs_head_hash g = chain_end R genesis objs"
    using assms(2) chain_position [OF c] by auto
  show ?thesis
  proof (cases "objs = []")
    case True
    then show ?thesis using g by (simp add: assess_head_def evidence_position_def chain_end_def)
  next
    case False
    then have "objs ! (length objs - 1) = (objs @ [line]) ! (length objs - 1)"
      by (simp add: nth_append)
    then show ?thesis
      using chain_end_in_last [OF c False] g False
      by (simp add: assess_head_def evidence_position_def)
  qed
qed

text \<open>Recognising a record that is already on file.\<close>

fun stored_value :: "pyval \<Rightarrow> bool" where
  "stored_value (PList vs) = list_all stored_value vs"
| "stored_value (PDict kvs) =
     list_all (\<lambda>(k, v). (case k of PStr s \<Rightarrow> True | _ \<Rightarrow> False) \<and> stored_value v) kvs"
| "stored_value (PEnum s) = False"
| "stored_value (PDecimal d) = False"
| "stored_value (PTuple vs) = False"
| "stored_value v = True"

lemma text_items:
  "list_all (\<lambda>(k, v). (case k of PStr s \<Rightarrow> True | _ \<Rightarrow> False) \<and> P v) kvs \<Longrightarrow>
   \<exists>obj. kvs = map (\<lambda>(k, v). (PStr k, v)) obj \<and> list_all (\<lambda>(k, v). P v) obj"
proof (induction kvs)
  case (Cons kv kvs)
  then obtain obj s v where "kvs = map (\<lambda>(k, v). (PStr k, v)) obj" "list_all (\<lambda>(k, v). P v) obj"
    "kv = (PStr s, v)" "P v"
    by (cases kv; cases "fst kv") auto
  then show ?case by (intro exI [of _ "(s, v) # obj"]) simp
qed simp

lemma sort_keys_values: "sort_keys (map (\<lambda>(k, v). (k, f v)) obj) = map (\<lambda>(k, v). (k, f v)) (sort_keys obj)"
proof (induction obj)
  case (Cons p obj)
  have "insort_key fst (fst p, f (snd p)) (map (\<lambda>(k, v). (k, f v)) ps)
      = map (\<lambda>(k, v). (k, f v)) (insort_key fst p ps)" for ps
    by (induction ps) (auto simp: case_prod_beta)
  then show ?case using Cons unfolding case_prod_beta by (simp add: sort_keys_def)
qed simp

lemma sort_keys_again [simp]: "sort_keys (sort_keys obj) = sort_keys obj"
  by (simp add: sort_keys_sort sort_key_id_if_sorted)

lemma ordered_object:
  "ordered_value (json_of obj) = json_of (map (\<lambda>(k, v). (k, ordered_value v)) (sort_keys obj))"
  using sort_items_text [of "map (\<lambda>(k, v). (k, ordered_value v)) obj"]
  by (simp add: json_of_def comp_def case_prod_beta sort_keys_values)

lemma ordered_reload_object:
  assumes "\<And>k v. (k, v) \<in> set obj \<Longrightarrow> ordered_value (json_reload v) = ordered_value v"
  shows "ordered_value (json_of (reload_object obj)) = ordered_value (json_of obj)"
  using assms by (auto simp: ordered_object reload_object_def sort_keys_values comp_def case_prod_beta)

lemma ordered_reload: "stored_value v \<Longrightarrow> ordered_value (json_reload v) = ordered_value v"
proof (induction v)
  case (PList vs)
  then show ?case by (simp add: list_all_iff)
next
  case (PDict kvs)
  then obtain obj where obj: "kvs = map (\<lambda>(k, v). (PStr k, v)) obj" "list_all (\<lambda>(k, v). stored_value v) obj"
    using text_items [of stored_value kvs] by auto
  have "ordered_value (json_reload v) = ordered_value v" if "(k, v) \<in> set obj" for k v
  proof -
    have "(PStr k, v) \<in> set kvs" using that obj by force
    then show ?thesis using PDict.IH [of "(PStr k, v)" v] that obj(2) by (auto simp: list_all_iff)
  qed
  then show ?case
    using ordered_reload_object [of obj] by (simp add: json_of_def [symmetric] obj(1) json_reload_object del: ordered_value.simps json_reload.simps)
qed simp_all

lemma comparable_reload: "comparable (reload_object obj) = reload_object (comparable obj)"
proof -
  have "filter (\<lambda>kv. fst kv \<notin> S) (map (\<lambda>(k, v). (k, json_reload v)) obj)
      = map (\<lambda>(k, v). (k, json_reload v)) (filter (\<lambda>kv. fst kv \<notin> S) obj)" for S
    by (induction obj) auto
  then show ?thesis
    by (simp only: comparable_def reload_object_def sort_keys_sort filter_sort)
qed

lemma same_object_reload:
  assumes "list_all (\<lambda>(k, v). stored_value v) obj" "comparable obj' = comparable obj"
  shows "same_object (comparable (reload_object obj')) (comparable obj)"
proof -
  have "ordered_value (json_reload v) = ordered_value v" if "(k, v) \<in> set (comparable obj)" for k v
    using that assms(1) by (intro ordered_reload) (auto simp: comparable_def list_all_iff)
  then show ?thesis
    using ordered_reload_object [of "comparable obj"] assms(2)
    by (simp add: same_object_def comparable_reload)
qed

lemma append_idempotentE:
  assumes "append_idempotent R profile stamp r s = (return q, t)"
  obtains r1 obj objs s1 where "er_record_hash r = []" "evidence_to_dict R r = return (r1, obj)"
    "es_lines s = map Line objs" "chain R genesis objs"
    "reconcile_head_unlocked R profile stamp s = (return (), s1)" "es_lines s1 = map Line objs"
    "anchored R profile objs s1" "\<And>pr. profile = Some pr \<Longrightarrow> is_sha256 pr"
    "(\<exists>line. find_record (er_record_id r1) objs = Some line \<and> same_object (comparable line) (comparable obj)
        \<and> q = recognised r1 line \<and> t = s1)
     \<or> find_record (er_record_id r1) objs = None
        \<and> seal_and_write R profile stamp (length objs) r1 s1 = (return q, t)"
proof -
  obtain r1 obj where d: "evidence_to_dict R r = return (r1, obj)" "er_record_hash r = []"
    using assms by (auto simp: append_idempotent_def split: if_splits sum.splits)
  then obtain s1 where v: "cs_ok (verify R (es_lines s))"
    and m: "reconcile_head_unlocked R profile stamp s = (return (), s1)"
    and c: "bindA (\<lambda>s. (raw_records (es_lines s), s)) (\<lambda>objs.
                case find_record (er_record_id r1) objs of
                  Some line \<Rightarrow>
                    (if same_object (comparable line) (comparable obj) then okA (recognised r1 line)
                     else failA ConflictsWithJournal)
                | None \<Rightarrow> seal_and_write R profile stamp (cs_count (verify R (es_lines s))) r1) s1 = (return q, t)"
    using assms by (auto simp: append_idempotent_def Let_def bindA_Inr [of "reconcile_head_unlocked _ _ _"] split: if_splits)
  obtain objs where o: "es_lines s = map Line objs" "chain R genesis objs" using v by (auto simp: verify_ok)
  have a: "anchored R profile objs s1" "es_lines s1 = map Line objs"
    using reconcile_unlocked_anchors [OF m o(1)] o(1) by auto
  have p: "is_sha256 pr" if "profile = Some pr" for pr
    using m that by (auto simp: reconcile_head_unlocked_def reconcile_head_def check_hash_def split: sum.splits)
  show ?thesis
    by (rule that [OF d(2,1) o m a(2,1) p])
      (use c in \<open>auto simp: a(2) o verify_count split: option.splits if_splits\<close>)
qed

text \<open>A record whose written form is read back as it was: text keys, no tuples, enums or decimals left.\<close>

definition portable_record :: "runtime \<Rightarrow> evidence_record \<Rightarrow> bool" where
  "portable_record R r \<longleftrightarrow> (case evidence_to_dict R r of Inl _ \<Rightarrow> False
     | Inr (_, obj) \<Rightarrow> list_all (\<lambda>(k, v). stored_value v) obj \<and> reloads_data obj)"

lemma reloads_data_iff:
  "reloads_data obj \<longleftrightarrow> wf_dict obj \<and> (\<forall>(k, v) \<in> set obj. unicode_text k \<and> json_data v)"
  by (auto simp: json_of_def wf_dict_def comp_def case_prod_beta list_all_iff text_key_def key_name_def)

lemma record_entries_links:
  "set (record_entries (r\<lparr>er_previous_record_hash := p, er_record_hash := h\<rparr>) i f c m)
     \<subseteq> insert (lit ''previous_record_hash'', PStr p) (insert (lit ''record_hash'', PStr h)
         (set (record_entries r i f c m)))"
  "map fst (record_entries (r\<lparr>er_previous_record_hash := p, er_record_hash := h\<rparr>) i f c m)
     = map fst (record_entries r i f c m)"
proof -
  show "set (record_entries (r\<lparr>er_previous_record_hash := p, er_record_hash := h\<rparr>) i f c m)
     \<subseteq> insert (lit ''previous_record_hash'', PStr p) (insert (lit ''record_hash'', PStr h)
         (set (record_entries r i f c m)))"
    unfolding record_entries_def by simp
  show "map fst (record_entries (r\<lparr>er_previous_record_hash := p, er_record_hash := h\<rparr>) i f c m)
     = map fst (record_entries r i f c m)"
    by (simp add: record_entries_def)
qed

lemma lit_unicode: "unicode_text (lit s)"
proof -
  have "of_char c < (256 :: nat)" for c :: char
    by (cases c) (simp add: of_bool_def)
  then have "of_char c < (55296 :: nat)" for c :: char by (rule less_trans) simp
  then show ?thesis by (simp add: unicode_text_def lit_def scalar_value_def)
qed

lemma sha_unicode: "is_sha256 s \<Longrightarrow> unicode_text s"
proof -
  assume a: "is_sha256 s"
  then have k: "take 7 s = lit ''sha256:''"
    by (simp add: is_sha256_def startswith_def numeral_eq_Suc)
  have "s = take 7 s @ drop 7 s" by simp
  also have "\<dots> = lit ''sha256:'' @ drop 7 s" by (simp only: k)
  finally have e: "s = lit ''sha256:'' @ drop 7 s" .
  have "unicode_text (lit ''sha256:'')" by (rule lit_unicode)
  moreover have "unicode_text (drop 7 s)"
    using a by (auto simp: is_sha256_def list_all_iff is_hex_lower_def scalar_value_def unicode_text_def)
  ultimately have "unicode_text (lit ''sha256:'' @ drop 7 s)"
    unfolding unicode_text_def by auto
  then show ?thesis unfolding e [symmetric] .
qed

lemma validate_evidence_links:
  assumes "utc_stable R" "validate_evidence R r = return q"
  shows "validate_evidence R (q\<lparr>er_previous_record_hash := p, er_record_hash := h\<rparr>)
       = return (q\<lparr>er_previous_record_hash := p, er_record_hash := h\<rparr>)"
    and "validate_evidence R (q\<lparr>er_previous_record_hash := p\<rparr>) = return (q\<lparr>er_previous_record_hash := p\<rparr>)"
  using assms mapping_snapshot_again mapping_list_snapshot_again utc_timestamp_again optional_timestamp_again
  by (auto simp: validate_evidence_def)

lemma comparable_entries:
  "comparable (record_entries (r\<lparr>er_previous_record_hash := p, er_record_hash := h\<rparr>) i f c m)
     = comparable (record_entries r i f c m)"
  by (simp add: record_entries_def comparable_def)

lemma record_values_links:
  assumes "record_values r = return obj"
  obtains obj2 where "record_values (r\<lparr>er_previous_record_hash := p, er_record_hash := h\<rparr>) = return obj2"
    "comparable obj2 = comparable obj" "map fst obj2 = map fst obj"
    "set obj2 \<subseteq> insert (lit ''previous_record_hash'', PStr p) (insert (lit ''record_hash'', PStr h) (set obj))"
proof -
  obtain i f c m where o: "obj = record_entries r i f c m"
    "record_values (r\<lparr>er_previous_record_hash := p, er_record_hash := h\<rparr>)
      = return (record_entries (r\<lparr>er_previous_record_hash := p, er_record_hash := h\<rparr>) i f c m)"
    using assms by (auto simp: record_values_def remaining_value_def)
  show ?thesis
    by (rule that [OF o(2)])
      (use record_entries_links comparable_entries o(1) in \<open>auto simp del: map_eq_conv\<close>)
qed

lemma chain_end_sha: "sha_shaped R \<Longrightarrow> is_sha256 (chain_end R genesis objs)"
proof -
  have "is_sha256 genesis" by code_simp
  then show "sha_shaped R \<Longrightarrow> is_sha256 (chain_end R genesis objs)"
    by (simp add: chain_end_def body_hash_def sha256_of_def sha_shaped_def)
qed

text \<open>The record an append returns is portable when the prepared one was.\<close>

lemma sealed_record:
  assumes u: "utc_stable R" "sha_shaped R" and q: "seal_record R previous r = return q"
    and p: "is_sha256 previous" and st: "portable_record R r" and d: "evidence_to_dict R r = return (r1, obj)"
  obtains obj2 where "q = r1\<lparr>er_previous_record_hash := previous, er_record_hash := er_record_hash q\<rparr>"
    "evidence_to_dict R q = return (q, obj2)" "comparable obj2 = comparable obj" "plain_record R q"
proof -
  have v: "validate_evidence R r = return r1" and rv: "record_values r1 = return obj"
    using d by (auto elim: evidence_to_dictE)
  have vp: "validate_evidence R (r\<lparr>er_previous_record_hash := previous\<rparr>)
      = return (r1\<lparr>er_previous_record_hash := previous\<rparr>)"
    using v by (auto simp: validate_evidence_def)
  obtain h where h: "is_sha256 h" "q = r1\<lparr>er_previous_record_hash := previous, er_record_hash := h\<rparr>"
    using q vp u(2) by (auto simp: seal_record_def evidence_to_dict_def sha256_of_def sha_shaped_def split: if_splits)
  obtain obj2 where o2: "record_values q = return obj2" "comparable obj2 = comparable obj"
    "map fst obj2 = map fst obj"
    "set obj2 \<subseteq> insert (lit ''previous_record_hash'', PStr previous) (insert (lit ''record_hash'', PStr h) (set obj))"
    by (rule record_values_links [OF rv, where p = previous and h = h, folded h(2)])
  have e: "evidence_to_dict R q = return (q, obj2)"
    using validate_evidence_links(1) [OF u(1) v, where p = previous and h = h] h(2) o2(1) by (simp add: evidence_to_dict_def)
  have "reloads_data obj" using st d by (simp add: portable_record_def)
  then have w: "wf_dict obj2" "\<forall>(k, v) \<in> set obj. unicode_text k \<and> json_data v"
    using o2(3) by (auto simp: reloads_data_iff wf_dict_def)
  have "unicode_text (lit ''previous_record_hash'')" "unicode_text (lit ''record_hash'')" by (rule lit_unicode)+
  moreover have "json_data (PStr previous)" "json_data (PStr h)"
    using sha_unicode [OF p] sha_unicode [OF h(1)] by simp_all
  ultimately have "\<forall>(k, v) \<in> set obj2. unicode_text k \<and> json_data v"
    using w(2) o2(4) by blast
  then have "plain_record R q" using e w(1) by (simp add: plain_record_def reloads_data_iff)
  then show ?thesis using that e o2(2) h(2) by auto
qed

text \<open>The line written for a prepared record, and what reading it back recognises.\<close>

lemma portable_validated:
  "utc_stable R \<Longrightarrow> evidence_to_dict R r = return (r1, obj) \<Longrightarrow> evidence_to_dict R r1 = return (r1, obj)"
  using validate_evidence_again [of R r r1 "er_record_hash r1"] by (auto simp: evidence_to_dict_def)

lemma prepared_line:
  assumes u: "utc_stable R" "sha_shaped R" and d: "evidence_to_dict R r = return (r1, obj)"
    and q: "seal_record R previous r1 = return q" and l: "serialized_line R q = return line"
    and p: "is_sha256 previous" and st: "portable_record R r"
  shows "find_record (er_record_id r1) [line] = Some line"
    and "same_object (comparable line) (comparable obj)" and "recognised r1 line = q"
proof -
  note d1 = portable_validated [OF u(1) d]
  have st1: "portable_record R r1" using st d d1 by (simp add: portable_record_def)
  obtain obj2 where o2: "q = r1\<lparr>er_previous_record_hash := previous, er_record_hash := er_record_hash q\<rparr>"
    "evidence_to_dict R q = return (q, obj2)" "comparable obj2 = comparable obj" "plain_record R q"
    using sealed_record [OF u q p st1 d1] by metis
  have line: "line = reload_object obj2" using l o2(2) by (auto simp: serialized_line_def split: if_splits)
  have k: "chain R previous [line]" "er_record_hash q = body_hash R line"
    "obj_get ''record_id'' line = Some (PStr (er_record_id q))"
    using sealed_line_chains [OF u(1) q l o2(4)] by auto
  have id: "er_record_id q = er_record_id r1" by (subst o2(1)) simp
  show "find_record (er_record_id r1) [line] = Some line" using k(3) id by (simp add: find_record_def)
  have "list_all (\<lambda>(k, v). stored_value v) obj" using st d by (simp add: portable_record_def)
  then show "same_object (comparable line) (comparable obj)"
    unfolding line by (rule same_object_reload [OF _ o2(3)])
  have "er_previous_record_hash q = previous" by (subst o2(1)) simp
  then show "recognised r1 line = q" using k o2(1) by (simp add: recognised_def)
qed

lemma find_record_append:
  "find_record k objs = None \<Longrightarrow> find_record k (objs @ ms) = find_record k ms"
  unfolding find_record_def by (induction objs) (auto split: if_splits)

text \<open>An append of a portable record extends the chain.\<close>

lemma portable_extends:
  assumes u: "utc_stable R" "sha_shaped R" and w: "seal_and_write R profile stamp (length objs) r s = (return q, t)"
    and s: "es_lines s = map Line objs" "chain R genesis objs" and st: "portable_record R r"
    and a: "anchored R profile objs s"
  obtains line where "es_lines t = map Line (objs @ [line])" "chain R genesis (objs @ [line])"
    "serialized_line R q = return line" "seal_record R (chain_end R genesis objs) r = return q"
    "er_record_hash q = body_hash R line" "anchored R profile (objs @ [line]) t"
    "er_previous_record_hash q = chain_end R genesis objs" "field_is ''record_id'' (er_record_id q) line"
    "field_is ''result_status'' (status_value (er_result_status q)) line"
    "field_is ''authorization_hash'' (er_authorization_hash q) line"
proof -
  have q: "seal_record R (chain_end R genesis objs) r = return q"
    using w by (rule seal_and_writeE) (use s chain_position [OF s(2)] in auto)
  obtain r1 obj where d: "evidence_to_dict R r = return (r1, obj)"
    using st by (auto simp: portable_record_def split: sum.splits)
  obtain p: "plain_record R q" and e: "er_previous_record_hash q = chain_end R genesis objs"
  proof (rule sealed_record [OF u q chain_end_sha [OF u(2)] st d])
    assume "q = r1\<lparr>er_previous_record_hash := chain_end R genesis objs, er_record_hash := er_record_hash q\<rparr>"
    then have "er_previous_record_hash q = er_previous_record_hash
        (r1\<lparr>er_previous_record_hash := chain_end R genesis objs, er_record_hash := er_record_hash q\<rparr>)" by (rule arg_cong)
    then show "plain_record R q \<Longrightarrow> thesis" by (intro that) simp_all
  qed
  show ?thesis
    by (rule seal_and_write_extends [OF u(1) w s p a], rule that [OF _ _ _ _ _ _ e])
      (use sealed_line_chains [OF u(1) q _ p] in \<open>auto simp: field_is_def simp del: map_append\<close>)
qed

lemma append_idempotent_again:
  assumes u: "utc_stable R" "sha_shaped R" and w: "append_idempotent R profile stamp r s = (return q, t)"
    and st: "portable_record R r"
  shows "append_idempotent R profile stamp' r t = (return q, t)"
proof -
  have again: "append_idempotent R profile stamp' r t = (return q, t)"
    if "er_record_hash r = []" "evidence_to_dict R r = return (r1, obj)" "es_lines t = map Line objs"
      "chain R genesis objs" "anchored R profile objs t" "\<And>pr. profile = Some pr \<Longrightarrow> is_sha256 pr"
      "find_record (er_record_id r1) objs = Some line" "same_object (comparable line) (comparable obj)"
      "q = recognised r1 line" for r1 obj objs line
    using that anchored_reconcile [OF that(5,3,6)]
    by (simp add: append_idempotent_def Let_def verify_ok bindA_def)
  show ?thesis
    using w
  proof (cases rule: append_idempotentE)
    case (1 r1 obj objs s1)
    from 1(9) show ?thesis
    proof
      assume "\<exists>line. find_record (er_record_id r1) objs = Some line \<and> same_object (comparable line) (comparable obj)
        \<and> q = recognised r1 line \<and> t = s1"
      then show ?thesis using again [OF 1(1,2) _ 1(4) _ 1(8)] 1(6,7) by blast
    next
      assume n: "find_record (er_record_id r1) objs = None
        \<and> seal_and_write R profile stamp (length objs) r1 s1 = (return q, t)"
      have st1: "portable_record R r1"
        using st 1(2) portable_validated [OF u(1) 1(2)] by (simp add: portable_record_def)
      obtain line where l: "es_lines t = map Line (objs @ [line])" "chain R genesis (objs @ [line])"
        "serialized_line R q = return line" "seal_record R (chain_end R genesis objs) r1 = return q"
        "anchored R profile (objs @ [line]) t"
        using portable_extends [OF u conjunct2 [OF n] 1(6,4) st1 1(7)] by metis
      note f = prepared_line [OF u 1(2) l(4,3) chain_end_sha [OF u(2)] st]
      have "find_record (er_record_id r1) (objs @ [line]) = Some line"
        using find_record_append [OF conjunct1 [OF n]] f(1) by simp
      then show ?thesis using again [OF 1(1,2) l(1,2,5) 1(8) _ f(2)] f(3) by simp
    qed
  qed
qed

definition append_attempt ::
  "runtime \<Rightarrow> pystr option \<Rightarrow> evidence_record \<Rightarrow> pystr \<Rightarrow> evidence_state \<Rightarrow> (evidence_error, evidence_state) result" where
  "append_attempt R profile r stamp s =
     (case append_idempotent R profile stamp r s of (Inl e, _) \<Rightarrow> raise e | (Inr q, t) \<Rightarrow> return t)"

lemma append_attempt_Inr:
  "append_attempt R profile r stamp s = return t \<longleftrightarrow> (\<exists>q. append_idempotent R profile stamp r s = (return q, t))"
  by (auto simp: append_attempt_def split: prod.splits sum.splits)

interpretation appending: recoverable "append_attempt R profile r"
    "\<lambda>_. utc_stable R \<and> sha_shaped R \<and> portable_record R r" for R profile r
  by unfold_locales
    (auto simp: append_attempt_Inr dest: append_idempotent_again)

end
