(* ===== verification/EvidenceProperties.thy ===== *)
theory EvidenceProperties
  imports EvidenceRecovery ApprovalProperties "HOL-Library.Code_Target_Numeral"
begin

text \<open>
  The properties of the evidence store: appends extend a verified chain, nothing is ever removed or
  changed, the checkpoint pins the history down, and an interrupted append is repaired.
\<close>

subsection \<open>Examples\<close>

definition skipped_record :: evidence_record where
  "skipped_record =
     \<lparr>er_request_id = lit ''req_1'', er_action_id = lit ''act_1'', er_decision = ApprovalRequired,
      er_result_status = Skipped, er_schema_name = lit ''s'', er_schema_version = lit ''1'',
      er_record_id = lit ''evd_1'', er_timestamp = lit ''5'', er_agent_runner = lit ''r'',
      er_model_id = lit ''m'', er_user_id = lit ''u'', er_workspace_id = lit ''w'',
      er_tool_name = lit ''mail'', er_target = lit ''ops'', er_side_effect_level = lit ''read_only'',
      er_policy_ids = [lit ''p1''], er_policy_version = lit ''1'', er_ruleset_hash = [],
      er_decision_reason = lit ''held'',
      er_decision_inputs = PDict [(PStr (lit ''rule''), PList [PStr (lit ''a'')])],
      er_approved_by = None, er_approved_at = None, er_payload_hash = [],
      er_authorization_hash = lit ''h1'', er_payload_trust = lit ''trusted'', er_input_refs = [],
      er_output_hash = [], er_result_summary = [], er_cost_usd = Fin False 0 0,
      er_budget_remaining_usd = None, er_dry_run = False, er_reconciliation_outcome = [],
      er_reconciled_by = [], er_reconciled_at = None, er_reconciliation_note = [],
      er_previous_record_hash = [], er_record_hash = [], er_enforcement_basis = []\<rparr>"

definition no_evidence :: evidence_state where
  "no_evidence = \<lparr>es_lines = [], es_head = None, es_allow_rebind = False\<rparr>"

definition some_profile :: pystr where
  "some_profile = lit ''sha256:'' @ flat_digest"

definition first_append :: "(evidence_error, evidence_record) result \<times> evidence_state" where
  "first_append = append_evidence numeral_clock (Some some_profile) (lit ''5'') skipped_record no_evidence"

lemma first_append_ok: "\<exists>q t. first_append = (return q, t)"
proof -
  have "(case first_append of (Inl _, _) \<Rightarrow> False | (Inr _, _) \<Rightarrow> True)" by code_simp
  then show ?thesis by (auto split: prod.splits sum.splits)
qed

lemma skipped_portable: "portable_record numeral_clock skipped_record"
  by code_simp

lemma numeral_clock_stable: "utc_stable numeral_clock"
proof -
  have "nat_digits n \<noteq> []" for n by (cases "n = 0") (simp_all add: nat_digits.simps [of n])
  then show ?thesis by (auto simp: utc_stable_def numeral_clock_def int_text_def digits_val_nat_digits)
qed

lemma numeral_clock_shaped: "sha_shaped numeral_clock"
proof -
  have "is_sha256 (lit ''sha256:'' @ flat_digest)" by code_simp
  then show ?thesis by (simp add: sha_shaped_def numeral_clock_def)
qed

lemmas example_hyps = numeral_clock_stable numeral_clock_shaped skipped_portable

subsection \<open>Appending\<close>



text \<open>
  C11: whatever calls reach the store, accepted or refused, the file keeps every line it had in its
  place, grows by at most one line for each call, and the checkpoint is never taken back.
\<close>

datatype evidence_call = AppendCall evidence_record | RecordCall evidence_record | OpenCall

definition evidence_call ::
  "runtime \<Rightarrow> pystr option \<Rightarrow> pystr \<Rightarrow> evidence_call \<Rightarrow> evidence_state \<Rightarrow> evidence_state" where
  "evidence_call R profile stamp c s = (case c of
     AppendCall r \<Rightarrow> snd (append_evidence R profile stamp r s)
   | RecordCall r \<Rightarrow> snd (append_idempotent R profile stamp r s)
   | OpenCall \<Rightarrow> snd (open_store R profile stamp s))"

fun evidence_calls ::
  "runtime \<Rightarrow> pystr option \<Rightarrow> (pystr \<times> evidence_call) list \<Rightarrow> evidence_state \<Rightarrow> evidence_state" where
  "evidence_calls R profile [] s = s"
| "evidence_calls R profile ((stamp, c) # cs) s = evidence_calls R profile cs (evidence_call R profile stamp c s)"

definition head_count :: "evidence_state \<Rightarrow> nat option" where
  "head_count s = map_option hs_record_count (es_head s)"

definition head_kept :: "evidence_state \<Rightarrow> evidence_state \<Rightarrow> bool" where
  "head_kept s t \<longleftrightarrow> (case es_head s of None \<Rightarrow> True
     | Some g \<Rightarrow> (case es_head t of None \<Rightarrow> False | Some h \<Rightarrow> hs_record_count g \<le> hs_record_count h))"

lemma head_kept_refl [simp]: "head_kept s s"
  by (simp add: head_kept_def split: option.split)

lemma head_kept_trans: "head_kept s t \<Longrightarrow> head_kept t u \<Longrightarrow> head_kept s u"
  by (auto simp: head_kept_def split: option.splits)

lemma reconcile_unlocked_kept: "reconcile_head_unlocked R profile stamp s = (res, t) \<Longrightarrow> head_kept s t"
  by (erule reconcile_unlockedE)
    (auto simp: head_kept_def split: option.split dest: reconcile_head_monotone)

lemma advance_unlocked_kept: "advance_head_unlocked R profile stamp n p hh s = (res, t) \<Longrightarrow> head_kept s t"
  by (erule advance_unlockedE) (auto simp: head_kept_def elim: advance_headE)

lemma seal_and_write_kept: "head_kept s (snd (seal_and_write R profile stamp n r s))"
proof -
  have k: "head_kept s t" if "advance_head_unlocked R profile stamp n p hh (s\<lparr>es_lines := ls\<rparr>) = (res, t)" for p hh ls res t
    using advance_unlocked_kept [OF that] by (simp add: head_kept_def)
  then show ?thesis
    by (auto simp: seal_and_write_def bindA_def write_line_def liftA_def okA_def head_hash_unchecked_def
        split: sum.split prod.split)
qed

lemma evidence_call_kept: "head_kept s (evidence_call R profile stamp c s)"
proof -
  obtain res s1 where m: "reconcile_head_unlocked R profile stamp s = (res, s1)"
    by (cases "reconcile_head_unlocked R profile stamp s")
  then have k: "head_kept s s1" by (rule reconcile_unlocked_kept)
  have w: "head_kept s (snd (seal_and_write R profile stamp n q s1))" for n q
    by (rule head_kept_trans [OF k seal_and_write_kept])
  show ?thesis
  proof (cases c)
    case (AppendCall r)
    then show ?thesis using m k w by (cases res) (simp_all add: evidence_call_def append_evidence_def Let_def)
  next
    case (RecordCall r)
    then show ?thesis using m k w
      by (cases "evidence_to_dict R r"; cases res; cases "raw_records (es_lines s1)")
        (auto simp: evidence_call_def append_idempotent_def Let_def bindA_def split: option.split)
  next
    case OpenCall
    then show ?thesis using m k by (simp add: evidence_call_def open_store_def)
  qed
qed

lemma evidence_call_lines: "one_more (es_lines s) (es_lines (evidence_call R profile stamp c s))"
  by (cases c) (simp_all add: evidence_call_def append_lines open_store_lines)

theorem evidence_append_only:
  "(\<exists>ls. es_lines (evidence_calls R profile cs s) = es_lines s @ ls \<and> length ls \<le> length cs)
   \<and> head_kept s (evidence_calls R profile cs s)"
proof (induction R profile cs s rule: evidence_calls.induct)
  case (2 R profile stamp c cs s)
  let ?t = "evidence_call R profile stamp c s"
  obtain ls where ls: "es_lines (evidence_calls R profile cs ?t) = es_lines ?t @ ls" "length ls \<le> length cs"
    "head_kept ?t (evidence_calls R profile cs ?t)"
    using 2 by auto
  have "es_lines ?t = es_lines s \<or> (\<exists>line. es_lines ?t = es_lines s @ [Line line])"
    using evidence_call_lines [of s R profile stamp c] by (simp add: one_more_def)
  then show ?case
    using ls head_kept_trans [OF evidence_call_kept ls(3)] by auto
qed simp

subsection \<open>The checkpoint\<close>

lemma assess_prefix:
  assumes a: "assess_head h objs \<in> {Verified, ForwardRecovery}"
    and c: "chain R genesis objs" "chain R genesis old"
    and h: "evidence_position old = (hs_record_count h, hs_head_hash h)"
  shows "length old \<le> length objs \<and> chain_end R genesis (take (length old) objs) = chain_end R genesis old"
proof -
  have n: "hs_record_count h = length old" "hs_head_hash h = chain_end R genesis old"
    using h chain_position [OF c(2)] by auto
  show ?thesis
  proof (cases "assess_head h objs = Verified")
    case True
    then show ?thesis using assess_verified [OF True] chain_position [OF c(1)] n by simp
  next
    case False
    then have f: "length old < length objs" "old \<noteq> [] \<Longrightarrow>
        obj_get ''record_hash'' (objs ! (length old - 1)) = Some (PStr (chain_end R genesis old))"
      using a assess_forward [of h objs] n by auto
    show ?thesis
    proof (cases "old = []")
      case True
      then show ?thesis by (simp add: chain_end_def)
    next
      case old: False
      have "chain_end R genesis (take (length old) objs) = chain_end R genesis old"
        using chain_end_in_last [OF chain_take [OF c(1)], of "length old"] f old by (cases "objs = []") auto
      then show ?thesis using f(1) by simp
    qed
  qed
qed

text \<open>
  C12: a file whose checkpoint was taken at the end of a verified chain is accepted again only with
  that history in front, whatever was done to the file in between: its first records have the same
  bodies, or at some place the canonical texts of the old body and of the new one are a collision of
  SHA-256. The records of both histories are JSON data (texts without surrogates, distinct keys).
\<close>

theorem evidence_history_protected:
  assumes "chain R genesis old" "\<forall>obj \<in> set old. reloads_data obj"
    and "es_head s = Some h" "evidence_position old = (hs_record_count h, hs_head_hash h)"
    and "\<forall>obj. Line obj \<in> set (es_lines s) \<longrightarrow> reloads_data obj"
    and "open_store R (Some pr) stamp s = (return (), t)"
  shows "\<exists>objs. es_lines s = map Line objs \<and> length old \<le> length objs
    \<and> (bodies (take (length old) objs) = bodies old \<or> colliding R (take (length old) objs) old)"
proof -
  have v: "cs_ok (verify R (es_lines s))" "reconcile_head_unlocked R (Some pr) stamp s = (return (), t)"
    using assms(6) by (auto simp: open_store_def split: if_splits)
  then obtain objs where o: "es_lines s = map Line objs" "chain R genesis objs" by (auto simp: verify_ok)
  then obtain h' where "reconcile_head R stamp pr objs (es_allow_rebind s) (Some h) = return h'"
    using v(2) assms(3) by (auto simp: reconcile_head_unlocked_def split: sum.splits)
  then have a: "assess_head h objs \<in> {Verified, ForwardRecovery}"
    by (cases rule: reconcile_headE) auto
  note p = assess_prefix [OF a o(2) assms(1,4)]
  have "\<forall>obj \<in> set (take (length old) objs) \<union> set old. reloads_data obj"
    using assms(2,5) o(1) in_set_takeD by fastforce
  then have "bodies (take (length old) objs) = bodies old \<or> colliding R (take (length old) objs) old"
    using p by (intro chain_determined [OF chain_take [OF o(2)] assms(1)]) auto
  then show ?thesis using o(1) p by blast
qed

lemma empty_opens: "\<exists>t h. open_store numeral_clock (Some some_profile) (lit ''5'') no_evidence = (return (), t)
    \<and> es_lines t = [] \<and> es_head t = Some h \<and> (hs_record_count h, hs_head_hash h) = evidence_position []"
proof -
  have "(case open_store numeral_clock (Some some_profile) (lit ''5'') no_evidence of
      (Inl _, _) \<Rightarrow> False
    | (Inr _, t) \<Rightarrow> es_lines t = [] \<and> (case es_head t of None \<Rightarrow> False
        | Some h \<Rightarrow> (hs_record_count h, hs_head_hash h) = evidence_position []))"
    by code_simp
  then show ?thesis by (auto split: prod.splits sum.splits option.splits)
qed

text \<open>
  a verified file with fewer records than its checkpoint counts is refused by every call, and
  nothing is changed.
\<close>

theorem evidence_truncation_refused:
  assumes "es_lines s = map Line objs" "chain R genesis objs" "es_head s = Some h"
    and "length objs < hs_record_count h" "check_head R h = return ()" "is_sha256 pr"
    and "hs_profile_hash h = pr \<or> es_allow_rebind s"
  shows "open_store R (Some pr) stamp s = (raise (EvidenceHeadError BehindCheckpoint), s)
    \<and> (er_record_hash r \<noteq> [] \<or> append_evidence R (Some pr) stamp r s = (raise (EvidenceHeadError BehindCheckpoint), s))
    \<and> evidence_call R (Some pr) stamp (RecordCall r) s = s"
proof -
  have "assess_head h objs = Rollback"
    using assms(4) by (simp add: assess_head_def evidence_position_def)
  then have "reconcile_head R stamp pr objs (es_allow_rebind s) (Some h) = raise BehindCheckpoint"
    using assms(5-7) by (auto simp: reconcile_head_def get_head_def check_hash_def case_prod_beta)
  then have m: "reconcile_head_unlocked R (Some pr) stamp s = (raise (EvidenceHeadError BehindCheckpoint), s)"
    using assms(1,3) by (simp add: reconcile_head_unlocked_def)
  have ok: "cs_ok (verify R (es_lines s))" using assms(1,2) by (auto simp: verify_ok)
  then have "evidence_call R (Some pr) stamp (RecordCall r) s = s"
    using m by (auto simp: evidence_call_def append_idempotent_def Let_def split: sum.split)
  then show ?thesis using m ok by (simp add: open_store_def append_evidence_def Let_def)
qed

text \<open>
  C37: an append of a portable record that was cut off between writing its line and moving the checkpoint
  is completed by the next opening under the same profile, at the same clock reading: it reaches the very
  state the append would have left (timestamps and hashes as in the theorem on appends).
\<close>

theorem evidence_interruption_recovered:
  assumes "utc_stable R" "sha_shaped R" "portable_record R r"
    and "append_evidence R (Some pr) stamp r s = (return q, t)"
  shows "open_store R (Some pr) stamp
      (t\<lparr>es_head := es_head (snd (open_store R (Some pr) stamp s))\<rparr>) = (return (), t)"
proof -
  obtain objs s1 where o: "es_lines s = map Line objs" "chain R genesis objs" "es_lines s1 = map Line objs"
    "reconcile_head_unlocked R (Some pr) stamp s = (return (), s1)"
    "anchored R (Some pr) objs s1" "seal_and_write R (Some pr) stamp (length objs) r s1 = (return q, t)"
    using assms(4) by (rule append_evidenceE)
  obtain line where l: "es_lines t = map Line (objs @ [line])" "chain R genesis (objs @ [line])"
    "anchored R (Some pr) (objs @ [line]) t"
    by (rule portable_extends [OF assms(1,2) o(6,3,2) assms(3) o(5)])
  have "open_store R (Some pr) stamp s = (return (), s1)"
    using o(1,2,4) by (auto simp: open_store_def verify_ok)
  moreover obtain g where g: "es_head s1 = Some g" "hs_profile_hash g = pr" "check_head R g = return ()"
    "evidence_position objs = (hs_record_count g, hs_head_hash g)"
    using o(5) by (auto simp: anchored_def)
  moreover obtain h where h: "es_head t = Some h" "hs_profile_hash h = pr" "\<not> es_allow_rebind t"
    "evidence_position (objs @ [line]) = (hs_record_count h, hs_head_hash h)" "check_head R h = return ()"
    using l(3) by (auto simp: anchored_def)
  moreover have st: "hs_checkpointed_at h = stamp" "is_sha256 pr"
  proof -
    obtain n m prev hh where "advance_head R stamp pr n prev (n + 1) hh (Some g) = return h" "n = length objs"
      using o(6) g(1) h(1)
      by (auto elim!: seal_and_writeE simp: advance_head_unlocked_def split: sum.splits)
    then have "hs_record_count h = length objs + 1" "hs_checkpointed_at h = stamp \<or> h = g" "is_sha256 pr"
      by (auto elim!: advance_headE)
    moreover have "hs_record_count g = length objs" using g(4) chain_position [OF o(2)] by simp
    ultimately show "hs_checkpointed_at h = stamp" "is_sha256 pr" by auto
  qed
  moreover have "h = \<lparr>hs_profile_hash = pr, hs_record_count = hs_record_count h, hs_head_hash = hs_head_hash h,
      hs_checkpointed_at = stamp\<rparr>"
    using h(2) st(1) by simp
  then have "write_head R stamp pr (hs_record_count h) (hs_head_hash h) = return h"
    using h(5) by (simp only: write_head_Inr)
  then have "reconcile_head R stamp pr (objs @ [line]) False (Some g) = return h"
    using interrupted_assessed [OF l(2) g(4)] g h(4) st(2)
    by (simp add: reconcile_head_def get_head_def check_hash_def)
  ultimately show ?thesis
    using l(1,2) by (auto simp: open_store_def verify_ok reconcile_head_unlocked_def simp del: map_append)
qed

subsection \<open>Recovery and queries\<close>

text \<open>
  recording a prepared record is idempotent: once it has succeeded, every repetition, at any
  clock reading, returns the same record and leaves the file and the checkpoint as they are.
\<close>

theorem evidence_recording_idempotent:
  assumes "utc_stable R" "sha_shaped R" "portable_record R r"
    and "append_idempotent R profile stamp r s = (return q, t)"
  shows "append_idempotent R profile stamp' r t = (return q, t)
    \<and> appending.retries R profile r stamps t = return t"
proof -
  have "append_attempt R profile r stamp s = return t" using assms(4) by (auto simp: append_attempt_Inr)
  then have "appending.retries R profile r stamps t = return t"
    using assms(1-3) by (intro appending.retries_settled) auto
  then show ?thesis using append_idempotent_again [OF assms(1,2,4,3)] by simp
qed

text \<open>
  the open authorizations after an append: a record with a terminal result closes every open
  authorization with its authorization hash, a skipped one opens another unless its hash is already
  closed, and any other leaves them as they were.
\<close>

lemma is_terminal_iff:
  "field_is ''result_status'' v line \<Longrightarrow> is_terminal line \<longleftrightarrow> v \<in> set terminal_results"
  by (auto simp: is_terminal_def field_is_def list_ex_iff)

lemma open_of_append:
  assumes "field_is ''result_status'' v line" "field_is ''authorization_hash'' h line"
  shows "open_of (objs @ [line]) =
    (if v \<in> set terminal_results then filter (\<lambda>obj. \<not> field_is ''authorization_hash'' h obj) (open_of objs)
     else if v = lit ''skipped'' \<and> \<not> (\<exists>obj \<in> set objs. is_terminal obj \<and> field_is ''authorization_hash'' h obj)
       then open_of objs @ [line] else open_of objs)"
proof -
  have sk: "lit ''skipped'' \<notin> set terminal_results" by (simp add: terminal_results_def)
  have s: "field_is ''result_status'' (lit ''skipped'') line \<longleftrightarrow> v = lit ''skipped''"
    using assms(1) by (auto simp: field_is_def)
  have h: "obj_get ''authorization_hash'' obj = obj_get ''authorization_hash'' line
      \<longleftrightarrow> field_is ''authorization_hash'' h obj" for obj
    using assms(2) by (simp add: field_is_def)
  let ?closed = "\<lambda>obj. obj_get ''authorization_hash'' obj \<in> obj_get ''authorization_hash'' ` {o' \<in> set objs. is_terminal o'}"
  show ?thesis
  proof (cases "v \<in> set terminal_results")
    case True
    then have "is_terminal line" "\<not> field_is ''result_status'' (lit ''skipped'') line"
      using is_terminal_iff [OF assms(1)] s sk by auto
    then have "open_of (objs @ [line]) = filter (\<lambda>obj. field_is ''result_status'' (lit ''skipped'') obj
        \<and> \<not> (?closed obj \<or> field_is ''authorization_hash'' h obj)) objs"
      by (auto simp: open_of_def h intro!: filter_cong)
    also have "\<dots> = filter (\<lambda>obj. \<not> field_is ''authorization_hash'' h obj) (open_of objs)"
      by (auto simp: open_of_def intro!: filter_cong)
    finally show ?thesis using True by simp
  next
    case False
    then have n: "\<not> is_terminal line" using is_terminal_iff [OF assms(1)] by simp
    have c: "?closed line \<longleftrightarrow> (\<exists>obj \<in> set objs. is_terminal obj \<and> field_is ''authorization_hash'' h obj)"
      by (auto simp: h [symmetric] image_iff dest: sym)
    show ?thesis
      using False n s c by (simp add: open_of_def Let_def)
  qed
qed

theorem open_authorizations_follow_appends:
  assumes "utc_stable R" "sha_shaped R" "portable_record R r"
    and "append_evidence R profile stamp r s = (return q, t)"
  shows "\<exists>objs line. es_lines s = map Line objs \<and> es_lines t = map Line (objs @ [line])
    \<and> field_is ''record_id'' (er_record_id q) line
    \<and> open_authorizations (es_lines t) = return
        (if status_value (er_result_status q) \<in> set terminal_results
         then filter (\<lambda>obj. \<not> field_is ''authorization_hash'' (er_authorization_hash q) obj) (open_of objs)
         else if er_result_status q = Skipped
           \<and> (\<forall>obj \<in> set objs. \<not> is_terminal obj \<or> \<not> field_is ''authorization_hash'' (er_authorization_hash q) obj)
         then open_of objs @ [line] else open_of objs)"
proof -
  obtain objs s1 where o: "es_lines s = map Line objs" "chain R genesis objs" "es_lines s1 = map Line objs"
    "anchored R profile objs s1" "seal_and_write R profile stamp (length objs) r s1 = (return q, t)"
    using assms(4) by (rule append_evidenceE)
  obtain line where l: "es_lines t = map Line (objs @ [line])" "field_is ''record_id'' (er_record_id q) line"
    "field_is ''result_status'' (status_value (er_result_status q)) line"
    "field_is ''authorization_hash'' (er_authorization_hash q) line"
    by (rule portable_extends [OF assms(1,2) o(5,3,2) assms(3) o(4)])
  have "status_value (er_result_status q) = lit ''skipped'' \<longleftrightarrow> er_result_status q = Skipped"
    by (auto simp: status_value_def split: result_status.splits)
  then show ?thesis
    using l(1,2) o(1) open_of_append [OF l(3,4), of objs]
    by (intro exI [of _ objs] exI [of _ line]) (auto simp: open_authorizations_def simp del: map_append)
qed

subsection \<open>Examples of the properties\<close>

lemma first_append_facts:
  "\<exists>q t obj h. first_append = (return q, t) \<and> es_lines t = [Line obj] \<and> reloads_data obj
     \<and> es_head t = Some h \<and> check_head numeral_clock h = return () \<and> hs_profile_hash h = some_profile
     \<and> chain numeral_clock genesis [obj] \<and> evidence_position [obj] = (hs_record_count h, hs_head_hash h)
     \<and> open_store numeral_clock (Some some_profile) (lit ''6'') t = (return (), t)"
proof -
  let ?ok = "\<lambda>t obj h. reloads_data obj \<and> check_head numeral_clock h = return ()
      \<and> hs_profile_hash h = some_profile \<and> chain numeral_clock genesis [obj]
      \<and> evidence_position [obj] = (hs_record_count h, hs_head_hash h)
      \<and> open_store numeral_clock (Some some_profile) (lit ''6'') t = (return (), t)"
  have "(case first_append of (Inl _, _) \<Rightarrow> False | (Inr _, t) \<Rightarrow>
      (case raw_records (es_lines t) of Inl _ \<Rightarrow> False | Inr objs \<Rightarrow> length objs = 1
        \<and> (case es_head t of None \<Rightarrow> False | Some h \<Rightarrow> ?ok t (hd objs) h)))"
    by code_simp
  then obtain q t objs h where f: "first_append = (return q, t)" "es_lines t = map Line objs" "length objs = 1"
    "es_head t = Some h" "?ok t (hd objs) h"
    by (simp del: chain.simps split: prod.splits sum.splits option.splits)
  moreover obtain obj where "objs = [obj]" using f(3) by (cases objs) auto
  ultimately show ?thesis by (intro exI [of _ q] exI [of _ t] exI [of _ obj] exI [of _ h]) simp
qed

theorem evidence_history_protected_witness:
  "\<exists>(t :: evidence_state) obj. es_lines t = [Line obj] \<and> (\<exists>objs. es_lines t = map Line objs \<and> length [obj] \<le> length objs
     \<and> (bodies (take (length [obj]) objs) = bodies [obj] \<or> colliding numeral_clock (take (length [obj]) objs) [obj]))"
proof -
  obtain t obj h where t: "es_lines t = [Line obj]" "reloads_data obj" "es_head t = Some h"
    "chain numeral_clock genesis [obj]" "evidence_position [obj] = (hs_record_count h, hs_head_hash h)"
    "open_store numeral_clock (Some some_profile) (lit ''6'') t = (return (), t)"
    using first_append_facts by blast
  have "\<forall>o' \<in> set [obj]. reloads_data o'" "\<forall>o'. Line o' \<in> set (es_lines t) \<longrightarrow> reloads_data o'"
    using t(1,2) by simp_all
  note evidence_history_protected [OF t(4) this(1) t(3,5) this(2) t(6)]
  then show ?thesis using t(1) by blast
qed

theorem evidence_truncation_refused_witness:
  "\<exists>(t :: evidence_state). es_lines t \<noteq> [] \<and> open_store numeral_clock (Some some_profile) (lit ''6'') (t\<lparr>es_lines := []\<rparr>)
     = (raise (EvidenceHeadError BehindCheckpoint), t\<lparr>es_lines := []\<rparr>)"
proof -
  obtain t :: evidence_state and obj h where t: "es_lines t = [Line obj]" "es_head t = Some h" "check_head numeral_clock h = return ()"
    "hs_profile_hash h = some_profile" "evidence_position [obj] = (hs_record_count h, hs_head_hash h)"
    using first_append_facts by blast
  have p: "is_sha256 some_profile" by code_simp
  have n: "hs_record_count h = 1" using t(5) by (simp add: evidence_position_def)
  have "open_store numeral_clock (Some some_profile) (lit ''6'') (t\<lparr>es_lines := []\<rparr>)
     = (raise (EvidenceHeadError BehindCheckpoint), t\<lparr>es_lines := []\<rparr>)"
    using evidence_truncation_refused [of "t\<lparr>es_lines := []\<rparr>" "[]" numeral_clock h some_profile] t n p by simp
  then show ?thesis using t(1) by (intro exI [of _ t]) simp
qed

theorem evidence_interruption_recovered_witness:
  "\<exists>q t. first_append = (return q, t) \<and> open_store numeral_clock (Some some_profile) (lit ''5'')
     (t\<lparr>es_head := es_head (snd (open_store numeral_clock (Some some_profile) (lit ''5'') no_evidence))\<rparr>) = (return (), t)"
  using evidence_interruption_recovered [OF example_hyps] first_append_ok unfolding first_append_def by fast

theorem open_authorizations_follow_appends_witness:
  "\<exists>q t objs line. first_append = (return q, t) \<and> es_lines t = map Line (objs @ [line])
     \<and> field_is ''record_id'' (er_record_id q) line"
  using open_authorizations_follow_appends [OF example_hyps] first_append_ok unfolding first_append_def by blast

definition first_recording :: "(evidence_error, evidence_record) result \<times> evidence_state" where
  "first_recording = append_idempotent numeral_clock (Some some_profile) (lit ''5'') skipped_record no_evidence"

theorem evidence_recording_idempotent_witness:
  "\<exists>q t. first_recording = (return q, t)
     \<and> append_idempotent numeral_clock (Some some_profile) (lit ''9'') skipped_record t = (return q, t)"
proof -
  have "(case first_recording of (Inl _, _) \<Rightarrow> False | (Inr _, _) \<Rightarrow> True)" by code_simp
  then have "\<exists>q t. first_recording = (return q, t)" by (auto split: prod.splits sum.splits)
  then show ?thesis
    using evidence_recording_idempotent [OF example_hyps] unfolding first_recording_def by blast
qed

end
