(* ===== verification/Effects.thy ===== *)
theory Effects
  imports Prelude
begin

text \<open>
  Reasoning about effects: a triple gives the states in which a computation may end when it returns
  and when it raises. There is one rule for each combinator, so that a property of an operation is
  proved along its text.
\<close>

definition triple ::
  "('s \<Rightarrow> bool) \<Rightarrow> ('s, 'e, 'a) effect \<Rightarrow> ('a \<Rightarrow> 's \<Rightarrow> bool) \<Rightarrow> ('s \<Rightarrow> bool) \<Rightarrow> bool" where
  "triple P m Q E \<longleftrightarrow> (\<forall>s. P s \<longrightarrow> (case m s of (Inl e, t) \<Rightarrow> E t | (Inr x, t) \<Rightarrow> Q x t))"

definition resultA :: "('s \<Rightarrow> ('e, 'a) result) \<Rightarrow> ('s, 'e, 'a) effect" where
  "resultA f s = (f s, s)"

fun forA :: "('a \<Rightarrow> ('s, 'e, 'b) effect) \<Rightarrow> 'a list \<Rightarrow> ('s, 'e, 'b list) effect" where
  "forA f [] = okA []"
| "forA f (x # xs) = bindA (f x) (\<lambda>y. bindA (forA f xs) (\<lambda>ys. okA (y # ys)))"

lemma resultA_simp [simp]: "resultA f s = (f s, s)"
  by (simp add: resultA_def)

lemma tripleI:
  "(\<And>s x t. P s \<Longrightarrow> m s = (Inr x, t) \<Longrightarrow> Q x t) \<Longrightarrow> (\<And>s e t. P s \<Longrightarrow> m s = (Inl e, t) \<Longrightarrow> E t)
   \<Longrightarrow> triple P m Q E"
  by (auto simp: triple_def split: prod.splits sum.splits)

lemma tripleD:
  "triple P m Q E \<Longrightarrow> P s \<Longrightarrow> m s = (Inr x, t) \<Longrightarrow> Q x t"
  "triple P m Q E \<Longrightarrow> P s \<Longrightarrow> m s = (Inl e, t) \<Longrightarrow> E t"
  unfolding triple_def by (drule spec [of _ s], simp)+

lemma triple_conseq:
  "triple P' m Q' E' \<Longrightarrow> (\<And>s. P s \<Longrightarrow> P' s) \<Longrightarrow> (\<And>x s. Q' x s \<Longrightarrow> Q x s) \<Longrightarrow> (\<And>s. E' s \<Longrightarrow> E s)
   \<Longrightarrow> triple P m Q E"
  unfolding triple_def by (fastforce split: prod.splits sum.splits)

lemma triple_pre: "triple P' m Q E \<Longrightarrow> (\<And>s. P s \<Longrightarrow> P' s) \<Longrightarrow> triple P m Q E"
  by (erule triple_conseq)

lemma triple_bind:
  "triple P m R E \<Longrightarrow> (\<And>x. triple (R x) (f x) Q E) \<Longrightarrow> triple P (bindA m f) Q E"
  by (fastforce simp: triple_def bindA_def split: prod.splits sum.splits)

lemma triple_ok: "triple (Q x) (okA x) Q E"
  by (simp add: triple_def)

lemma triple_fail: "triple E (failA e) Q E"
  by (simp add: triple_def)

lemma triple_check: "triple (\<lambda>s. if b then Q () s else E s) (checkA b e) Q E"
  by (simp add: triple_def checkA_def)

lemma triple_lift: "triple (\<lambda>s. case r of Inl e \<Rightarrow> E s | Inr x \<Rightarrow> Q x s) (liftA r) Q E"
  by (simp add: triple_def split: sum.splits)

lemma triple_result: "triple (\<lambda>s. case f s of Inl e \<Rightarrow> E s | Inr x \<Rightarrow> Q x s) (resultA f) Q E"
  by (simp add: triple_def split: sum.splits)

lemma triple_read: "triple (\<lambda>s. Q (f s) s) (readA f) Q E"
  by (simp add: triple_def)

lemma triple_write: "triple (\<lambda>s. Q () (f s)) (writeA f) Q E"
  by (simp add: triple_def)

lemma triple_if:
  "(b \<Longrightarrow> triple P m Q E) \<Longrightarrow> (\<not> b \<Longrightarrow> triple P n Q E) \<Longrightarrow> triple P (if b then m else n) Q E"
  by simp

lemma triple_option:
  "(x = None \<Longrightarrow> triple P m Q E) \<Longrightarrow> (\<And>y. x = Some y \<Longrightarrow> triple P (f y) Q E)
   \<Longrightarrow> triple P (case x of None \<Rightarrow> m | Some y \<Rightarrow> f y) Q E"
  by (cases x) simp_all

text \<open>An invariant kept on every path.\<close>

definition keeps :: "('s \<Rightarrow> bool) \<Rightarrow> ('s, 'e, 'a) effect \<Rightarrow> bool" where
  "keeps I m \<longleftrightarrow> triple I m (\<lambda>_. I) I"

lemma keepsI: "(\<And>s. I s \<Longrightarrow> I (snd (m s))) \<Longrightarrow> keeps I m"
  by (force simp: keeps_def triple_def split: prod.splits sum.splits)

lemma keepsD: "keeps I m \<Longrightarrow> I s \<Longrightarrow> I (snd (m s))"
proof -
  assume k: "keeps I m" "I s"
  obtain r t where m: "m s = (r, t)" by (cases "m s")
  have t: "triple I m (\<lambda>_. I) I" using k(1) by (simp add: keeps_def)
  show ?thesis
    using tripleD [OF t k(2)] m by (cases r) simp_all
qed

named_theorems keeps_rules \<open>which combinators and operations keep an invariant\<close>

lemma keeps_bind [keeps_rules]: "keeps I m \<Longrightarrow> (\<And>x. keeps I (f x)) \<Longrightarrow> keeps I (bindA m f)"
  unfolding keeps_def by (rule triple_bind)

lemma keeps_pure [keeps_rules]:
  "keeps I (okA x)" "keeps I (failA e)" "keeps I (checkA b e)" "keeps I (liftA r)" "keeps I (resultA g)"
  "keeps I (readA h)"
  by (rule keepsI; simp add: checkA_def)+

lemma keeps_if [keeps_rules]: "(b \<Longrightarrow> keeps I m) \<Longrightarrow> (\<not> b \<Longrightarrow> keeps I n) \<Longrightarrow> keeps I (if b then m else n)"
  by simp

lemma keeps_option [keeps_rules]:
  "(x = None \<Longrightarrow> keeps I m) \<Longrightarrow> (\<And>y. x = Some y \<Longrightarrow> keeps I (f y)) \<Longrightarrow> keeps I (case x of None \<Rightarrow> m | Some y \<Rightarrow> f y)"
  by (cases x) simp_all

lemma keeps_prod [keeps_rules]: "(\<And>y z. keeps I (f y z)) \<Longrightarrow> keeps I (case x of (y, z) \<Rightarrow> f y z)"
  by (cases x) simp

lemma keeps_let [keeps_rules]: "(\<And>y. keeps I (f y)) \<Longrightarrow> keeps I (let y = x in f y)"
  by simp

lemma keeps_for [keeps_rules]: "(\<And>x. keeps I (f x)) \<Longrightarrow> keeps I (forA f xs)"
  by (induction xs) (auto intro!: keeps_rules)

end
