(* ===== verification/Journal.thy ===== *)
theory Journal
  imports Approvals Evidence OperatorIdentity
begin

text \<open>
  The single-writer crash journal (\<open>operation_journal.py\<close>): at most one prepared mutation that spans
  several stores, validated before it is written and whenever it is read back. The payloads are
  held as the contracts and amounts their JSON denotes; the hash over the payload's JSON, the byte
  ceiling and the schema names of the file are not part of the model.
\<close>

subsection \<open>Operations\<close>

record completion_subject =
  xs_record_id :: pystr
  xs_record_hash :: pystr
  xs_action_id :: pystr
  xs_request_id :: pystr
  xs_authorization_hash :: pystr
  xs_decision :: pystr

datatype disposition = SettleBudget | NoBudget

datatype journal_payload =
    ApprovalCreate (jp_approval: approval) (jp_reserved: decimal) (jp_evidence: evidence_record)
  | ApprovalReject (jp_approval_id: pystr) (jp_action_id: pystr) (jp_request_id: pystr)
      (jp_reserved: decimal) (jp_decided_by: pystr) (jp_note: pystr)
      (jp_attestation: "attestation option") (jp_evidence: evidence_record)
  | ApprovalExpire (jp_approval_id: pystr) (jp_action_id: pystr) (jp_request_id: pystr)
      (jp_reserved: decimal) (jp_evidence: evidence_record)
  | AuthorizationReconcile (jp_subject: authorization_subject) (jp_reserved: decimal)
      (jp_outcome: pystr) (jp_reconciled_by: pystr) (jp_note: pystr)
      (jp_attestation: "attestation option") (jp_evidence: evidence_record)
  | ExecutionComplete (jp_completion: completion_subject) (jp_approval_id: pystr)
      (jp_reserved: decimal) (jp_actual: decimal) (jp_disposition: disposition)
      (jp_evidence: evidence_record)

record journal_operation =
  jo_operation_id :: pystr
  jo_prepared_at :: pystr
  jo_payload :: journal_payload

datatype journal_error =
    CompletionSubjectInvalid
  | NotAnExecutionAuthorization
  | JournalMoney value_error
  | JournalEvidence contract_error
  | JournalEvidenceSealed
  | JournalStatusMismatch
  | JournalIdentity identity_error
  | JournalSubjectMismatch
  | JournalTextMissing
  | JournalOutcomeMismatch
  | JournalOperatorMismatch
  | JournalApproval approval_error
  | JournalApprovalMismatch
  | JournalApprovalId
  | JournalDecisionBinding
  | JournalNotAResult
  | JournalDispositionMismatch
  | JournalCostMismatch
  | JournalHasReconciliation
  | JournalOperationInvalid
  | RequiresRecovery
  | NoActiveOperation
  | CompletionIdMismatch

subsection \<open>Validation\<close>

definition check_completion_subject :: "completion_subject \<Rightarrow> (journal_error, unit) result" where
  "check_completion_subject x =
     require (list_all (\<lambda>s. py_strip s \<noteq> []) [xs_record_id x, xs_record_hash x, xs_action_id x,
          xs_request_id x, xs_authorization_hash x, xs_decision x]
        \<and> is_sha256 (xs_record_hash x) \<and> is_sha256 (xs_authorization_hash x)
        \<and> xs_decision x \<in> {decision_value Allow, decision_value ApprovalRequired})
       CompletionSubjectInvalid"

definition text_field :: "string \<Rightarrow> json_object \<Rightarrow> (journal_error, pystr) result" where
  "text_field k obj = (case obj_get k obj of Some (PStr s) \<Rightarrow> return s | _ \<Rightarrow> raise CompletionSubjectInvalid)"

definition completion_subject_of :: "json_object \<Rightarrow> (journal_error, completion_subject) result" where
  "completion_subject_of obj =
     (if \<not> field_is ''result_status'' (status_value Skipped) obj then raise NotAnExecutionAuthorization
      else bindR (text_field ''record_id'' obj) (\<lambda>rid.
        bindR (text_field ''record_hash'' obj) (\<lambda>rh.
        bindR (text_field ''action_id'' obj) (\<lambda>aid.
        bindR (text_field ''request_id'' obj) (\<lambda>qid.
        bindR (text_field ''authorization_hash'' obj) (\<lambda>ah.
        bindR (text_field ''decision'' obj) (\<lambda>dec.
          let x = \<lparr>xs_record_id = rid, xs_record_hash = rh, xs_action_id = aid, xs_request_id = qid,
                   xs_authorization_hash = ah, xs_decision = dec\<rparr>
          in bindR (check_completion_subject x) (\<lambda>_. return x))))))))"

text \<open>The constructor of \<open>AuthorizationReconciliationSubject\<close>.\<close>

definition check_authorization_subject :: "runtime \<Rightarrow> authorization_subject \<Rightarrow> (identity_error, unit) result" where
  "check_authorization_subject R s =
     bindR (allR (\<lambda>v. bindR (bounded_text max_note_chars (Some (PStr v))) (\<lambda>_. return ()))
       [as_record_id s, as_record_hash s, as_action_id s, as_request_id s, as_authorization_hash s,
        as_authorized_at s]) (\<lambda>_.
       if \<not> is_sha256 (as_record_hash s) \<or> \<not> is_sha256 (as_authorization_hash s) then raise AttestationHash
       else identity_timestamp R (Some (PStr (as_authorized_at s))))"

definition outcome_status :: "pystr \<Rightarrow> result_status option" where
  "outcome_status outcome =
     (if outcome = lit ''succeeded'' then Some Succeeded
      else if outcome = lit ''failed'' then Some Failed
      else if outcome = lit ''not_executed'' then Some NotExecuted else None)"

definition expected_status :: "journal_payload \<Rightarrow> result_status option" where
  "expected_status p = (case p of
     ApprovalCreate _ _ _ \<Rightarrow> Some PendingApproval
   | ApprovalReject _ _ _ _ _ _ _ _ \<Rightarrow> Some RejectedResult
   | ApprovalExpire _ _ _ _ _ \<Rightarrow> Some ExpiredResult
   | AuthorizationReconcile _ _ outcome _ _ _ _ \<Rightarrow> outcome_status outcome
   | ExecutionComplete _ _ _ _ _ _ \<Rightarrow> None)"

text \<open>\<open>_validate_execution_completion\<close>.\<close>

definition validate_completion ::
  "completion_subject \<Rightarrow> pystr \<Rightarrow> decimal \<Rightarrow> decimal \<Rightarrow> disposition \<Rightarrow> evidence_record \<Rightarrow> (journal_error, unit) result" where
  "validate_completion x approval_id reserved actual disp r =
     bindR (check_completion_subject x) (\<lambda>_.
     bindR (mapErr JournalMoney (money (MDecimal actual))) (\<lambda>_.
       if approval_id \<noteq> [] \<and> \<not> startswith approval_id (lit ''apr_'') then raise JournalApprovalId
       else if approval_id \<noteq> [] \<and> xs_decision x \<noteq> decision_value ApprovalRequired then raise JournalDecisionBinding
       else if approval_id = [] \<and> xs_decision x \<noteq> decision_value Allow then raise JournalDecisionBinding
       else if er_result_status r \<notin> {Succeeded, Failed} then raise JournalNotAResult
       else if xs_action_id x \<noteq> er_action_id r \<or> xs_request_id x \<noteq> er_request_id r
            \<or> xs_authorization_hash x \<noteq> er_authorization_hash r
            \<or> xs_decision x \<noteq> decision_value (er_decision r) then raise JournalSubjectMismatch
       else if disp = SettleBudget \<and> dec_eq reserved zero \<and> dec_eq actual zero then raise JournalDispositionMismatch
       else if disp = NoBudget \<and> (\<not> dec_eq reserved zero \<or> \<not> dec_eq actual zero) then raise JournalDispositionMismatch
       else if \<not> dec_eq (er_cost_usd r) actual then raise JournalCostMismatch
       else require (er_reconciliation_outcome r = [] \<and> er_reconciled_by r = []
            \<and> \<not> present (er_reconciled_at r) \<and> er_reconciliation_note r = []) JournalHasReconciliation))"

text \<open>The identifiers of a rejection or an expiry against its evidence.\<close>

definition check_bindings :: "pystr \<Rightarrow> pystr \<Rightarrow> pystr \<Rightarrow> evidence_record \<Rightarrow> (journal_error, unit) result" where
  "check_bindings approval_id action_id request_id r =
     (if \<exists>s \<in> set [approval_id, action_id, request_id]. py_strip s = [] then raise JournalTextMissing
      else require (action_id = er_action_id r \<and> request_id = er_request_id r) JournalSubjectMismatch)"

definition validate_payload :: "runtime \<Rightarrow> journal_payload \<Rightarrow> (journal_error, unit) result" where
  "validate_payload R p =
     bindR (mapErr JournalMoney (money (MDecimal (jp_reserved p)))) (\<lambda>reserved.
     bindR (mapErr JournalEvidence (validate_evidence R (jp_evidence p))) (\<lambda>r.
       if er_record_hash r \<noteq> [] \<or> er_previous_record_hash r \<noteq> [] then raise JournalEvidenceSealed
       else case p of
         ExecutionComplete x approval_id _ actual disp _ \<Rightarrow>
           validate_completion x approval_id reserved actual disp r
       | _ \<Rightarrow>
         if Some (er_result_status r) \<noteq> expected_status p then raise JournalStatusMismatch
         else (case p of
           AuthorizationReconcile s _ outcome by remark _ _ \<Rightarrow>
             bindR (mapErr JournalIdentity (check_authorization_subject R s)) (\<lambda>_.
               if as_action_id s \<noteq> er_action_id r \<or> as_request_id s \<noteq> er_request_id r
                 \<or> as_authorization_hash s \<noteq> er_authorization_hash r then raise JournalSubjectMismatch
               else if py_strip by = [] \<or> py_strip remark = [] then raise JournalTextMissing
               else if er_reconciliation_outcome r \<noteq> outcome then raise JournalOutcomeMismatch
               else require (er_reconciled_by r = py_strip by \<and> er_reconciliation_note r = py_strip remark)
                 JournalOperatorMismatch)
         | ApprovalCreate a _ _ \<Rightarrow>
             bindR (mapErr JournalApproval (check_approval R a)) (\<lambda>_.
               require (ap_status a = Pending \<and> ap_action_id a = er_action_id r
                 \<and> ap_request_id a = er_request_id r \<and> ap_reserved_usd a = canon reserved)
                 JournalApprovalMismatch)
         | ApprovalReject k aid qid _ by _ _ _ \<Rightarrow>
             bindR (check_bindings k aid qid r) (\<lambda>_. require (py_strip by \<noteq> []) JournalTextMissing)
         | ApprovalExpire k aid qid _ _ \<Rightarrow> check_bindings k aid qid r
         | ExecutionComplete _ _ _ _ _ _ \<Rightarrow> return ())))"

definition check_operation :: "runtime \<Rightarrow> journal_operation \<Rightarrow> (journal_error, unit) result" where
  "check_operation R op =
     (if \<not> startswith (jo_operation_id op) (lit ''op_'') \<or> jo_prepared_at op = [] then raise JournalOperationInvalid
      else validate_payload R (jo_payload op))"

subsection \<open>The journal\<close>

type_synonym journal_state = "journal_operation option"

definition active_operation :: "runtime \<Rightarrow> journal_state \<Rightarrow> (journal_error, journal_operation option) result" where
  "active_operation R j = (case j of
     None \<Rightarrow> return None
   | Some op \<Rightarrow> bindR (check_operation R op) (\<lambda>_. return (Some op)))"

definition prepare_operation ::
  "runtime \<Rightarrow> pystr \<Rightarrow> pystr \<Rightarrow> journal_payload \<Rightarrow> journal_state
   \<Rightarrow> (journal_error, journal_operation \<times> journal_state) result" where
  "prepare_operation R stamp new_id p j =
     bindR (validate_payload R p) (\<lambda>_.
     let op = \<lparr>jo_operation_id = new_id, jo_prepared_at = stamp, jo_payload = p\<rparr> in
     bindR (active_operation R j) (\<lambda>active.
       if active \<noteq> None then raise RequiresRecovery else return (op, Some op)))"

definition complete_operation ::
  "runtime \<Rightarrow> pystr \<Rightarrow> journal_state \<Rightarrow> (journal_error, unit \<times> journal_state) result" where
  "complete_operation R operation_id j =
     bindR (active_operation R j) (\<lambda>active. case active of
       None \<Rightarrow> raise NoActiveOperation
     | Some op \<Rightarrow> if jo_operation_id op \<noteq> operation_id then raise CompletionIdMismatch else return ((), None))"

lemma active_Inr [simp]: "active_operation R j = return x \<longleftrightarrow> x = j \<and> (\<forall>op. j = Some op \<longrightarrow> check_operation R op = return ())"
  by (auto simp: active_operation_def split: option.splits)

lemma prepare_Inr:
  "prepare_operation R stamp new_id p j = return (op, t) \<longleftrightarrow>
     op = \<lparr>jo_operation_id = new_id, jo_prepared_at = stamp, jo_payload = p\<rparr> \<and> t = Some op
     \<and> j = None \<and> validate_payload R p = return ()"
  by (auto simp: prepare_operation_def Let_def)

lemma complete_Inr:
  "complete_operation R k j = return (u, t) \<longleftrightarrow>
     t = None \<and> (\<exists>op. j = Some op \<and> jo_operation_id op = k \<and> check_operation R op = return ())"
  by (auto simp: complete_operation_def split: option.splits)

end
