(* ===== verification/Registry.thy ===== *)
theory Registry
  imports EvidenceFacts
begin

text \<open>
  The capability-gated tool registry (\<open>tools/registry.py\<close>): the authoritative contract of a tool,
  the resolution of workspace targets, the signed grant and the only path on which a handler runs.
  Handlers and the file system are not part of the program: a handler is a function from the action
  to what the call produced, and the resolution of links is a function on paths. The handlers that
  were really called are kept in the order of the calls.
\<close>

subsection \<open>Tool contracts\<close>

datatype target_scope = AnyTarget | WorkspaceFile | WorkspacePath

record tool_spec =
  ts_name :: pystr
  ts_side_effect_level :: side_effect
  ts_description :: pystr
  ts_cost_estimate_usd :: decimal
  ts_supports_dry_run :: bool
  ts_target_scope :: target_scope

datatype registry_error =
    EmptyToolName
  | ToolCost value_error
  | AlreadyRegistered
  | NotRegistered
  | SideEffectMismatch
  | EmptyTarget
  | OutsideWorkspace
  | NamesNoFile
  | ProtectedPath
  | WorkspaceChanged pystr
  | EvidenceNotSealed
  | EvidenceSealMismatch
  | EvidenceInvalid contract_error
  | EvidenceActionMismatch
  | EvidenceToolMismatch
  | EvidenceHashMismatch
  | EvidenceNotPending
  | EvidenceBlocked
  | NoGrant
  | ForgedGrant
  | GrantRefused grant_error
  | ResultStatusInvalid
  | ResultSummaryLimit
  | ResultCost value_error
  | ResultOutput canonical_error
  | ResultInvalid
  | ResultSealed

definition check_tool_spec :: "tool_spec \<Rightarrow> (registry_error, tool_spec) result" where
  "check_tool_spec s =
     (if py_strip (ts_name s) = [] then raise EmptyToolName
      else bindR (mapErr ToolCost (money (MDecimal (ts_cost_estimate_usd s)))) (\<lambda>cost.
        return (s\<lparr>ts_cost_estimate_usd := cost\<rparr>)))"

subsection \<open>Tool results\<close>

record tool_result =
  tr_status :: pystr
  tr_summary :: pystr
  tr_output :: pyval
  tr_cost_usd :: decimal
  tr_dry_run :: bool
  tr_sealed :: "pystr option"

definition max_tool_result_summary_characters :: nat where
  "max_tool_result_summary_characters = 65536"

definition validate_result_fields :: "tool_result \<Rightarrow> (registry_error, unit) result" where
  "validate_result_fields r =
     (if tr_status r \<notin> {lit ''succeeded'', lit ''failed''} then raise ResultStatusInvalid
      else if max_tool_result_summary_characters < length (tr_summary r) then raise ResultSummaryLimit
      else bindR (mapErr ResultCost (money (MDecimal (tr_cost_usd r)))) (\<lambda>_. return ()))"

definition output_snapshot :: "runtime \<Rightarrow> pyval \<Rightarrow> (registry_error, pyval \<times> pystr) result" where
  "output_snapshot R v = mapErr ResultOutput (snapshot_and_sha256 (rt_sha256 R) action_limits v)"

definition seal_result :: "runtime \<Rightarrow> tool_result \<Rightarrow> (registry_error, tool_result) result" where
  "seal_result R r = (case tr_sealed r of
     Some _ \<Rightarrow> return r
   | None \<Rightarrow> bindR (validate_result_fields r) (\<lambda>_.
       bindR (output_snapshot R (tr_output r)) (\<lambda>(out, digest).
         return (r\<lparr>tr_output := out, tr_sealed := Some digest\<rparr>))))"

text \<open>Construction, which hashes the output once to see that it can be hashed.\<close>

definition new_result ::
  "runtime \<Rightarrow> pystr \<Rightarrow> pystr \<Rightarrow> pyval \<Rightarrow> decimal \<Rightarrow> bool \<Rightarrow> (registry_error, tool_result) result" where
  "new_result R status summ out cost dry =
     (let r = \<lparr>tr_status = status, tr_summary = summ, tr_output = out, tr_cost_usd = cost,
               tr_dry_run = dry, tr_sealed = None\<rparr>
      in bindR (validate_result_fields r) (\<lambda>_. bindR (output_snapshot R out) (\<lambda>_. return r)))"

definition output_hash :: "runtime \<Rightarrow> tool_result \<Rightarrow> (registry_error, pystr) result" where
  "output_hash R r = (case tr_sealed r of
     Some h \<Rightarrow> return h
   | None \<Rightarrow> bindR (output_snapshot R (tr_output r)) (\<lambda>(_, digest). return digest))"

subsection \<open>The registry\<close>

text \<open>
  What a call of a handler produces: a result, a failure of its own result contract, another
  exception (its type and message), or a value that is not a result.
\<close>

datatype handler_outcome = Returned tool_result | BadResult registry_error | Raised pystr | NotAResult

type_synonym handler = "action \<Rightarrow> handler_outcome"

text \<open>An absolute path as its components; \<open>ws_resolve\<close> follows the links of the file
  system, and \<open>ws_problem\<close> is what the check of the bound root found, if anything.\<close>

type_synonym path = "pystr list"

record workspace =
  ws_root :: path
  ws_resolve :: "path \<Rightarrow> path"
  ws_problem :: "pystr option"

record registry =
  rg_tools :: "(pystr, tool_spec \<times> handler) dict"
  rg_dry_run :: bool
  rg_workspace :: workspace
  rg_protected_roots :: "path list"
  rg_grant_key :: pystr

definition register_tool :: "tool_spec \<Rightarrow> handler \<Rightarrow> registry \<Rightarrow> (registry_error, registry) result" where
  "register_tool spec fn reg =
     (if dict_get (ts_name spec) (rg_tools reg) \<noteq> None then raise AlreadyRegistered
      else return (reg\<lparr>rg_tools := dict_put (ts_name spec) (spec, fn) (rg_tools reg)\<rparr>))"

definition tool_spec_of :: "registry \<Rightarrow> pystr \<Rightarrow> tool_spec option" where
  "tool_spec_of reg name = map_option fst (dict_get name (rg_tools reg))"

definition tool_names :: "registry \<Rightarrow> pystr list" where
  "tool_names reg = sort (map fst (rg_tools reg))"

subsection \<open>Workspace targets\<close>

fun split_slashes :: "pystr \<Rightarrow> pystr \<Rightarrow> pystr list" where
  "split_slashes acc [] = [rev acc]"
| "split_slashes acc (c # cs) =
     (if c = 47 \<or> c = 92 then rev acc # split_slashes [] cs else split_slashes (c # acc) cs)"

text \<open>Absolute on either platform: a leading slash or backslash, or a drive.\<close>

definition has_anchor :: "pystr \<Rightarrow> bool" where
  "has_anchor target \<longleftrightarrow> take 1 target \<in> {[47], [92]} \<or> take 1 (drop 1 target) = [58]"

definition dot :: pystr where "dot = [46]"
definition dot_dot :: pystr where "dot_dot = [46, 46]"

definition target_parts :: "pystr \<Rightarrow> pystr list" where
  "target_parts target =
     dropWhile (\<lambda>part. part \<in> {dot, lit ''workspace''})
       (filter (\<lambda>part. part \<notin> {[], dot}) (split_slashes [] target))"

definition is_relative_to :: "path \<Rightarrow> path \<Rightarrow> bool" where
  "is_relative_to p base \<longleftrightarrow> take (length base) p = base"

definition resolve_workspace_target ::
  "workspace \<Rightarrow> bool \<Rightarrow> pystr \<Rightarrow> (registry_error, path) result" where
  "resolve_workspace_target ws allow_root target =
     (if py_strip target = [] then raise EmptyTarget
      else if has_anchor target then raise OutsideWorkspace
      else let parts = target_parts target in
        if dot_dot \<in> set parts then raise NamesNoFile
        else let base = ws_resolve ws (ws_root ws) in
          if parts = [] then (if allow_root then return base else raise NamesNoFile)
          else let candidate = ws_resolve ws (base @ parts) in
            if \<not> is_relative_to candidate base \<or> (candidate = base \<and> \<not> allow_root) then raise OutsideWorkspace
            else return candidate)"

definition require_unprotected :: "registry \<Rightarrow> path \<Rightarrow> (registry_error, unit) result" where
  "require_unprotected reg target =
     require (\<not> list_ex (\<lambda>base. target = base \<or> is_relative_to target base \<or> is_relative_to base target)
       (rg_protected_roots reg)) ProtectedPath"

definition check_workspace_target :: "registry \<Rightarrow> bool \<Rightarrow> pystr \<Rightarrow> (registry_error, unit) result" where
  "check_workspace_target reg allow_root target =
     bindR (case ws_problem (rg_workspace reg) of None \<Rightarrow> return () | Some m \<Rightarrow> raise (WorkspaceChanged m)) (\<lambda>_.
     bindR (resolve_workspace_target (rg_workspace reg) allow_root target) (require_unprotected reg))"

definition validate_action :: "registry \<Rightarrow> action \<Rightarrow> (registry_error, unit) result" where
  "validate_action reg a = (case dict_get (pa_tool_name a) (rg_tools reg) of
     None \<Rightarrow> raise NotRegistered
   | Some (spec, _) \<Rightarrow>
       if pa_side_effect_level a \<noteq> ts_side_effect_level spec then raise SideEffectMismatch
       else (case ts_target_scope spec of
           AnyTarget \<Rightarrow> return ()
         | WorkspaceFile \<Rightarrow> check_workspace_target reg False (pa_target a)
         | WorkspacePath \<Rightarrow> check_workspace_target reg True (pa_target a)))"

text \<open>The roots the control plane keeps to itself, bound once.\<close>

definition protect_roots :: "path list \<Rightarrow> registry \<Rightarrow> (registry_error, registry) result" where
  "protect_roots roots reg =
     (if roots = [] then raise ProtectedPath
      else if rg_protected_roots reg \<noteq> [] \<and> rg_protected_roots reg \<noteq> roots then raise ProtectedPath
      else return (reg\<lparr>rg_protected_roots := roots\<rparr>))"

subsection \<open>Grants\<close>

definition sign_grant :: "runtime \<Rightarrow> registry \<Rightarrow> capability_grant \<Rightarrow> pystr" where
  "sign_grant R reg g = rt_hmac R (rg_grant_key reg) (encode (grant_claims g))"

definition verify_grant :: "runtime \<Rightarrow> registry \<Rightarrow> capability_grant \<Rightarrow> (registry_error, unit) result" where
  "verify_grant R reg g =
     require (cg_signature g \<noteq> [] \<and> cg_signature g = sign_grant R reg g) ForgedGrant"

definition evidence_body_hash :: "runtime \<Rightarrow> evidence_record \<Rightarrow> (contract_error, pystr) result" where
  "evidence_body_hash R r = bindR (evidence_to_dict R r) (\<lambda>(_, obj). return (body_hash R obj))"

definition authorize ::
  "runtime \<Rightarrow> registry \<Rightarrow> pystr \<Rightarrow> pystr \<Rightarrow> action \<Rightarrow> evidence_record \<Rightarrow> (registry_error, capability_grant) result" where
  "authorize R reg stamp grant_id a r =
     bindR (validate_action reg a) (\<lambda>_.
       if er_record_hash r = [] then raise EvidenceNotSealed
       else bindR (mapErr EvidenceInvalid (evidence_body_hash R r)) (\<lambda>h.
         if h \<noteq> er_record_hash r then raise EvidenceSealMismatch
         else if er_action_id r \<noteq> pa_action_id a then raise EvidenceActionMismatch
         else if er_tool_name r \<noteq> pa_tool_name a then raise EvidenceToolMismatch
         else if authorization_hash R a \<noteq> return (er_authorization_hash r) then raise EvidenceHashMismatch
         else if er_result_status r \<noteq> Skipped then raise EvidenceNotPending
         else if er_decision r \<notin> {Allow, ApprovalRequired} then raise EvidenceBlocked
         else bindR (mapErr (\<lambda>e. GrantRefused (GrantContract e)) (validate_grant R
             \<lparr>cg_action_id = pa_action_id a, cg_tool_name = pa_tool_name a,
              cg_authorization_hash = er_authorization_hash r, cg_evidence_record_id = er_record_id r,
              cg_evidence_record_hash = er_record_hash r, cg_issued_at = stamp, cg_grant_id = grant_id,
              cg_signature = [], cg_spent = False\<rparr>)) (\<lambda>g.
           return (g\<lparr>cg_signature := sign_grant R reg g\<rparr>))))"

subsection \<open>Execution\<close>

definition dry_run_result :: "runtime \<Rightarrow> tool_spec \<Rightarrow> action \<Rightarrow> (registry_error, tool_result) result" where
  "dry_run_result R spec a =
     (if \<not> ts_supports_dry_run spec
      then new_result R (lit ''failed'') (lit ''tool '' @ [39] @ ts_name spec @ [39] @ lit '' does not support dry run'') PNone zero True
      else new_result R (lit ''succeeded'')
        (lit ''DRY RUN: would execute '' @ ts_name spec @ lit '' on '' @ pa_target a)
        (PDict [(PStr (lit ''dry_run''), PBool True), (PStr (lit ''target''), PStr (pa_target a)),
                (PStr (lit ''payload''), pa_payload a)]) zero True)"

definition handler_result ::
  "runtime \<Rightarrow> tool_spec \<Rightarrow> handler_outcome \<Rightarrow> (registry_error, tool_result) result" where
  "handler_result R spec out = (case out of
     Returned r \<Rightarrow> (if tr_sealed r \<noteq> None then raise ResultSealed else return (r\<lparr>tr_dry_run := False\<rparr>))
   | BadResult e \<Rightarrow> raise e
   | Raised message \<Rightarrow> new_result R (lit ''failed'') message PNone (ts_cost_estimate_usd spec) False
   | NotAResult \<Rightarrow> raise ResultInvalid)"

text \<open>
  The state: the actions whose handler was called, in the order of the calls, and the grant that is
  presented, which stays spent whatever happens after it was spent.
\<close>

record tool_state =
  tl_called :: "action list"
  tl_grant :: "capability_grant option"

definition spend_grant :: "runtime \<Rightarrow> action \<Rightarrow> capability_grant \<Rightarrow> (tool_state, registry_error, unit) effect" where
  "spend_grant R a g s = (case spend R a g of
     Inl e \<Rightarrow> (raise (GrantRefused e), s)
   | Inr g \<Rightarrow> (return (), s\<lparr>tl_grant := Some g\<rparr>))"

definition call_handler :: "action \<Rightarrow> (tool_state, registry_error, unit) effect" where
  "call_handler a = writeA (\<lambda>s. s\<lparr>tl_called := tl_called s @ [a]\<rparr>)"

definition execute_tool ::
  "runtime \<Rightarrow> registry \<Rightarrow> action \<Rightarrow> bool option \<Rightarrow> (tool_state, registry_error, tool_result) effect" where
  "execute_tool R reg a dry =
     bindA (readA tl_grant) (\<lambda>g. case g of
       None \<Rightarrow> failA NoGrant
     | Some g \<Rightarrow>
         bindA (liftA (verify_grant R reg g)) (\<lambda>_.
         bindA (liftA (validate_action reg a)) (\<lambda>_.
         bindA (spend_grant R a g) (\<lambda>_.
           case dict_get (pa_tool_name a) (rg_tools reg) of
             None \<Rightarrow> failA NotRegistered
           | Some (spec, fn) \<Rightarrow>
               if (case dry of None \<Rightarrow> rg_dry_run reg | Some b \<Rightarrow> b)
               then liftA (dry_run_result R spec a)
               else bindA (call_handler a) (\<lambda>_. liftA (handler_result R spec (fn a)))))))"

end
