(* ===== verification/Globs.thy ===== *)
theory Globs
  imports PyText
begin

text \<open>
  Shell patterns as \<open>fnmatch.fnmatchcase\<close> of the standard library reads them, which the policy
  engine matches tool names and targets with: \<open>*\<close>, \<open>?\<close>, \<open>[seq]\<close> and \<open>[!seq]\<close>, with ranges, where a
  range that runs backwards stands for nothing. \<open>matches_glob\<close> is the relation a pattern denotes.
\<close>

subsection \<open>Patterns\<close>

datatype glob_item = OneChar nat | CharRange nat nat
datatype glob = AnyText | AnyChar | OneOf bool "glob_item list" | Exactly nat

fun in_item :: "nat \<Rightarrow> glob_item \<Rightarrow> bool" where
  "in_item c (OneChar a) \<longleftrightarrow> c = a"
| "in_item c (CharRange a b) \<longleftrightarrow> a \<le> c \<and> c \<le> b"

text \<open>The characters of a class; a hyphen between two characters makes a range.\<close>

fun glob_items :: "pystr \<Rightarrow> glob_item list" where
  "glob_items [] = []"
| "glob_items [a] = [OneChar a]"
| "glob_items [a, b] = [OneChar a, OneChar b]"
| "glob_items (a # b # c # cs) =
     (if b = 45 then (if a \<le> c then CharRange a c # glob_items cs else glob_items cs)
      else OneChar a # glob_items (b # c # cs))"

text \<open>
  What is left after the reversed ranges are gone decides whether the class is negated, so a class
  that comes to begin with an exclamation mark is negated, too.
\<close>

definition char_class :: "pystr \<Rightarrow> glob" where
  "char_class s = (case s of
     [] \<Rightarrow> OneOf True []
   | c # cs \<Rightarrow>
       if c = 33 then OneOf False (glob_items cs)
       else (case glob_items (c # cs) of
           OneChar a # rest \<Rightarrow> if a = 33 then OneOf False rest else OneOf True (OneChar a # rest)
         | CharRange a b # rest \<Rightarrow>
             if a = 33 then OneOf False (OneChar 45 # OneChar b # rest) else OneOf True (CharRange a b # rest)
         | [] \<Rightarrow> OneOf True []))"

text \<open>The text up to the closing bracket, which does not come first, and what follows it.\<close>

definition split_bracket :: "pystr \<Rightarrow> (pystr \<times> pystr) option" where
  "split_bracket s =
     (let bang = takeWhile (\<lambda>c. c = 33) (take 1 s); s1 = drop (length bang) s;
          first = takeWhile (\<lambda>c. c = 93) (take 1 s1); s2 = drop (length first) s1;
          body = takeWhile (\<lambda>c. c \<noteq> 93) s2
      in if length body = length s2 then None
         else Some (bang @ first @ body, drop (Suc (length body)) s2))"

lemma split_bracket_shorter: "split_bracket s = Some (body, rest) \<Longrightarrow> length rest < length s"
  unfolding split_bracket_def Let_def by (cases s) (auto split: if_splits)

function parse_glob :: "pystr \<Rightarrow> glob list" where
  "parse_glob [] = []"
| "parse_glob (c # cs) =
     (if c = 42 then AnyText # parse_glob cs
      else if c = 63 then AnyChar # parse_glob cs
      else if c = 91 then (case split_bracket cs of
          None \<Rightarrow> Exactly 91 # parse_glob cs
        | Some (body, rest) \<Rightarrow> char_class body # parse_glob rest)
      else Exactly c # parse_glob cs)"
  by pat_completeness auto

termination
  by (relation "measure length") (auto dest: split_bracket_shorter)

subsection \<open>Matching\<close>

fun glob_accepts :: "glob \<Rightarrow> nat \<Rightarrow> bool" where
  "glob_accepts AnyText c \<longleftrightarrow> False"
| "glob_accepts AnyChar c \<longleftrightarrow> True"
| "glob_accepts (OneOf b items) c \<longleftrightarrow> list_ex (in_item c) items = b"
| "glob_accepts (Exactly a) c \<longleftrightarrow> c = a"

fun glob_matches :: "glob list \<Rightarrow> pystr \<Rightarrow> bool" where
  "glob_matches [] s \<longleftrightarrow> s = []"
| "glob_matches (g # gs) [] \<longleftrightarrow> g = AnyText \<and> glob_matches gs []"
| "glob_matches (g # gs) (c # cs) \<longleftrightarrow>
     (if g = AnyText then glob_matches gs (c # cs) \<or> glob_matches (g # gs) cs
      else glob_accepts g c \<and> glob_matches gs cs)"

definition fnmatchcase :: "pystr \<Rightarrow> pystr \<Rightarrow> bool" where
  "fnmatchcase name pattern \<longleftrightarrow> glob_matches (parse_glob pattern) name"

subsection \<open>What a pattern denotes\<close>

inductive matches_glob :: "glob list \<Rightarrow> pystr \<Rightarrow> bool" where
  nothing: "matches_glob [] []"
| any_text: "matches_glob gs t \<Longrightarrow> matches_glob (AnyText # gs) (s @ t)"
| one_char: "glob_accepts g c \<Longrightarrow> matches_glob gs t \<Longrightarrow> matches_glob (g # gs) (c # t)"

inductive_cases matches_NilE [elim!]: "matches_glob [] s"
inductive_cases matches_ConsE: "matches_glob (g # gs) s"

lemma glob_matches_sound: "glob_matches gs s \<Longrightarrow> matches_glob gs s"
proof (induction gs s rule: glob_matches.induct)
  case (1 s)
  then show ?case by (simp add: matches_glob.nothing)
next
  case (2 g gs)
  then show ?case using matches_glob.any_text [of gs "[]" "[]"] by simp
next
  case (3 g gs c cs)
  show ?case
  proof (cases "g = AnyText")
    case True
    then consider "glob_matches gs (c # cs)" | "glob_matches (g # gs) cs" using "3.prems" by auto
    then show ?thesis
    proof cases
      case 1
      then show ?thesis using "3.IH"(1) True matches_glob.any_text [of gs "c # cs" "[]"] by simp
    next
      case 2
      then have "matches_glob (AnyText # gs) cs" using "3.IH"(2) True by simp
      then obtain u t where u: "cs = u @ t" "matches_glob gs t" by (cases rule: matches_ConsE) auto
      show ?thesis using u True matches_glob.any_text [of gs t "c # u"] by simp
    qed
  next
    case False
    then show ?thesis using 3 matches_glob.one_char [of g c gs cs] by simp
  qed
qed

lemma glob_matches_skip: "glob_matches gs t \<Longrightarrow> glob_matches (AnyText # gs) (s @ t)"
proof (induction s)
  case Nil
  then show ?case by (cases t) auto
qed simp

lemma glob_matches_complete: "matches_glob gs s \<Longrightarrow> glob_matches gs s"
proof (induction rule: matches_glob.induct)
  case nothing
  then show ?case by simp
next
  case (any_text gs t s)
  then show ?case using glob_matches_skip by blast
next
  case (one_char g c gs t)
  then show ?case by (cases g) auto
qed

lemma glob_matches_iff: "glob_matches gs s \<longleftrightarrow> matches_glob gs s"
  using glob_matches_sound glob_matches_complete by blast

lemma fnmatchcase_iff: "fnmatchcase s p \<longleftrightarrow> matches_glob (parse_glob p) s"
  by (simp add: fnmatchcase_def glob_matches_iff)

text \<open>A pattern without wildcards matches itself, a star matches everything.\<close>

lemma parse_plain: "\<forall>c \<in> set p. c \<notin> {42, 63, 91} \<Longrightarrow> parse_glob p = map Exactly p"
  by (induction p) auto

lemma matches_plain: "glob_matches (map Exactly p) s \<longleftrightarrow> s = p"
proof (induction p arbitrary: s)
  case (Cons c p)
  then show ?case by (cases s) auto
qed simp

lemma fnmatch_plain: "\<forall>c \<in> set p. c \<notin> {42, 63, 91} \<Longrightarrow> fnmatchcase s p \<longleftrightarrow> s = p"
  by (simp add: fnmatchcase_def parse_plain matches_plain)

lemma fnmatch_star [simp]: "fnmatchcase s (lit ''*'')"
proof -
  have "matches_glob [AnyText] (s @ [])" by (intro matches_glob.intros)
  moreover have "parse_glob (lit ''*'') = [AnyText]" by (simp add: lit_def)
  ultimately show ?thesis by (simp add: fnmatchcase_iff)
qed

lemma fnmatch_prefix: "\<forall>c \<in> set p. c \<notin> {42, 63, 91} \<Longrightarrow> fnmatchcase s (p @ lit ''*'') \<longleftrightarrow> startswith s p"
proof -
  assume p: "\<forall>c \<in> set p. c \<notin> {42, 63, 91}"
  have parse: "parse_glob (p @ lit ''*'') = map Exactly p @ [AnyText]"
    using p by (induction p) (simp_all add: lit_def)
  have all: "glob_matches [AnyText] t" for t by (induction t) auto
  have "glob_matches (map Exactly p @ [AnyText]) s \<longleftrightarrow> startswith s p"
  proof (induction p arbitrary: s)
    case Nil
    then show ?case using all by (simp add: startswith_def del: glob_matches.simps)
  next
    case (Cons c p)
    then show ?case by (cases s) (auto simp: startswith_def)
  qed
  then show ?thesis by (simp add: fnmatchcase_def parse)
qed

end
