(* ===== verification/Policy.thy ===== *)
theory Policy
  imports Globs Contracts
begin

text \<open>
  The policy engine (\<open>policy/engine.py\<close>): rules and their matching under fixed work ceilings, the
  construction of an engine from parsed packs with its ruleset hash, and the evaluation of an action.
  Lower-casing, the platform's normalisation of case, and \<open>str\<close> of the few values whose text is not
  written out here are functions of a \<open>text_library\<close>; reading YAML files is not part of the model.
\<close>

subsection \<open>Ceilings\<close>

definition max_packs :: nat where "max_packs = 64"
definition max_rules :: nat where "max_rules = 4096"
definition max_known_tools :: nat where "max_known_tools = 4096"
definition max_rule_field_items :: nat where "max_rule_field_items = 4096"
definition max_rule_list_items :: nat where "max_rule_list_items = 65536"
definition max_policy_text_item :: nat where "max_policy_text_item = 4096"
definition max_policy_text :: nat where "max_policy_text = 8388608"
definition max_match_nesting :: nat where "max_match_nesting = 64"
definition max_match_nodes :: nat where "max_match_nodes = 100000"
definition max_match_characters :: nat where "max_match_characters = 1048576"
definition max_payload_work :: nat where "max_payload_work = 67108864"
definition max_match_tool_name :: nat where "max_match_tool_name = 4096"
definition max_match_target :: nat where "max_match_target = 1048576"
definition max_glob_work :: nat where "max_glob_work = 67108864"
definition max_context_entries :: nat where "max_context_entries = 64"
definition max_context_key :: nat where "max_context_key = 256"
definition max_context_value :: nat where "max_context_value = 4096"
definition max_context_text :: nat where "max_context_text = 262144"

subsection \<open>Text\<close>

record text_library =
  tx_lower :: "pystr \<Rightarrow> pystr"
  tx_normcase :: "pystr \<Rightarrow> pystr"
  tx_str :: "pyval \<Rightarrow> pystr"

text \<open>\<open>str(value)\<close>.\<close>

definition str_text :: "text_library \<Rightarrow> pyval \<Rightarrow> pystr" where
  "str_text T v = (case v of
     PStr s \<Rightarrow> s
   | PNone \<Rightarrow> lit ''None''
   | PBool b \<Rightarrow> (if b then lit ''True'' else lit ''False'')
   | PInt i \<Rightarrow> int_text i
   | PFloat s \<Rightarrow> s
   | _ \<Rightarrow> tx_str T v)"

text \<open>The truth value of a value, as \<open>x or []\<close> reads it.\<close>

definition truthy :: "pyval \<Rightarrow> bool" where
  "truthy v = (case v of
     PNone \<Rightarrow> False | PBool b \<Rightarrow> b | PInt i \<Rightarrow> i \<noteq> 0 | PFloat s \<Rightarrow> s \<notin> {lit ''0.0'', lit ''-0.0''}
   | PStr s \<Rightarrow> s \<noteq> [] | PEnum s \<Rightarrow> s \<noteq> [] | PDecimal d \<Rightarrow> \<not> dec_eq d zero
   | PList vs \<Rightarrow> vs \<noteq> [] | PTuple vs \<Rightarrow> vs \<noteq> [] | PDict kvs \<Rightarrow> kvs \<noteq> []
   | PNonFinite \<Rightarrow> True | POther \<Rightarrow> True)"

subsection \<open>Rules\<close>

record rule =
  ru_id :: pystr
  ru_description :: pystr
  ru_tools :: "pystr list"
  ru_side_effect_at_least :: "side_effect option"
  ru_targets :: "pystr list"
  ru_payload_contains :: "pystr list"
  ru_max_payload_trust :: "trust option"
  ru_sensitivities :: "pystr list"
  ru_effect :: decision
  ru_reason :: pystr
  ru_approval_scope :: pystr
  ru_redactions :: "pystr list"

definition severity :: "decision \<Rightarrow> nat" where
  "severity d = (case d of Allow \<Rightarrow> 0 | ApprovalRequired \<Rightarrow> 1 | Block \<Rightarrow> 2)"

definition trust_rank :: "trust \<Rightarrow> nat" where
  "trust_rank t = (case t of Trusted \<Rightarrow> 0 | Derived \<Rightarrow> 1 | Untrusted \<Rightarrow> 2)"

definition trust_satisfies :: "trust \<Rightarrow> trust \<Rightarrow> bool" where
  "trust_satisfies actual required_max \<longleftrightarrow> trust_rank required_max < trust_rank actual"

subsection \<open>Matching under ceilings\<close>

datatype match_error =
    GlobTooLong string nat
  | GlobNormalizedTooLong string nat
  | GlobWork
  | PayloadWork
  | PayloadText
  | PayloadNesting
  | PayloadNodes
  | PayloadNormalized

record match_state =
  ms_payload_work :: nat
  ms_glob_work :: nat
  ms_payload_text :: "pystr option"

definition new_match_state :: match_state where
  "new_match_state = \<lparr>ms_payload_work = 0, ms_glob_work = 0, ms_payload_text = None\<rparr>"

type_synonym 'a matching = "(match_state, match_error, 'a) effect"

definition charge_payload_work :: "nat \<Rightarrow> unit matching" where
  "charge_payload_work units s =
     (if max_payload_work < ms_payload_work s + units then (raise PayloadWork, s)
      else (return (), s\<lparr>ms_payload_work := ms_payload_work s + units\<rparr>))"

definition charge_glob_work :: "nat \<Rightarrow> unit matching" where
  "charge_glob_work units s =
     (if max_glob_work < ms_glob_work s + units then (raise GlobWork, s)
      else (return (), s\<lparr>ms_glob_work := ms_glob_work s + units\<rparr>))"

fun match_patterns :: "text_library \<Rightarrow> pystr \<Rightarrow> pystr list \<Rightarrow> bool matching" where
  "match_patterns T name [] = okA False"
| "match_patterns T name (p # ps) =
     (let pattern = tx_normcase T p in
      bindA (charge_glob_work (length name + length pattern)) (\<lambda>_.
        if fnmatchcase name pattern then okA True else match_patterns T name ps))"

definition matches_any_glob ::
  "text_library \<Rightarrow> pystr \<Rightarrow> pystr list \<Rightarrow> string \<Rightarrow> nat \<Rightarrow> bool matching" where
  "matches_any_glob T subject patterns label maximum =
     bindA (checkA (length subject \<le> maximum) (GlobTooLong label maximum)) (\<lambda>_.
     let name = tx_normcase T subject in
     bindA (checkA (length name \<le> maximum) (GlobNormalizedTooLong label maximum)) (\<lambda>_.
       match_patterns T name patterns))"

text \<open>The text of a payload: its leaves in order, siblings apart by one space.\<close>

definition append_text :: "pystr \<Rightarrow> pystr \<times> nat \<Rightarrow> (match_error, pystr \<times> nat) result" where
  "append_text v = (\<lambda>(acc, nodes).
     if max_match_characters < length acc + length v then raise PayloadText else return (acc @ v, nodes))"

definition claim_match_node :: "nat \<Rightarrow> pystr \<times> nat \<Rightarrow> (match_error, pystr \<times> nat) result" where
  "claim_match_node depth = (\<lambda>(acc, nodes).
     if max_match_nesting < depth then raise PayloadNesting
     else if max_match_nodes < nodes + 1 then raise PayloadNodes else return (acc, nodes + 1))"

fun visit_payload :: "text_library \<Rightarrow> nat \<Rightarrow> pyval \<Rightarrow> pystr \<times> nat \<Rightarrow> (match_error, pystr \<times> nat) result"
  and visit_payload_items :: "text_library \<Rightarrow> nat \<Rightarrow> bool \<Rightarrow> pyval list \<Rightarrow> pystr \<times> nat
    \<Rightarrow> (match_error, pystr \<times> nat) result"
  and visit_payload_entries :: "text_library \<Rightarrow> nat \<Rightarrow> bool \<Rightarrow> (pyval \<times> pyval) list \<Rightarrow> pystr \<times> nat
    \<Rightarrow> (match_error, pystr \<times> nat) result" where
  "visit_payload T depth v st = bindR (claim_match_node depth st) (\<lambda>st. case v of
     PDict kvs \<Rightarrow> visit_payload_entries T (depth + 1) False kvs st
   | PList vs \<Rightarrow> visit_payload_items T (depth + 1) False vs st
   | PTuple vs \<Rightarrow> visit_payload_items T (depth + 1) False vs st
   | _ \<Rightarrow> append_text (str_text T v) st)"
| "visit_payload_items T depth later [] st = return st"
| "visit_payload_items T depth later (v # vs) st =
     bindR (if later then append_text [32] st else return st) (\<lambda>st.
     bindR (visit_payload T depth v st) (visit_payload_items T depth True vs))"
| "visit_payload_entries T depth later [] st = return st"
| "visit_payload_entries T depth later (kv # kvs) st =
     bindR (if later then append_text [32] st else return st) (\<lambda>st.
     bindR (visit_payload T depth (snd kv) st) (visit_payload_entries T depth True kvs))"

definition bounded_payload_text :: "text_library \<Rightarrow> pyval \<Rightarrow> (match_error, pystr) result" where
  "bounded_payload_text T payload =
     bindR (visit_payload T 1 payload ([], 0)) (\<lambda>(joined, _).
       let lowered = tx_lower T joined in
       if max_match_characters < length lowered then raise PayloadNormalized else return lowered)"

definition payload_text_for :: "text_library \<Rightarrow> pyval \<Rightarrow> pystr matching" where
  "payload_text_for T payload =
     bindA (readA ms_payload_text) (\<lambda>known. case known of
       Some t \<Rightarrow> okA t
     | None \<Rightarrow> bindA (liftA (bounded_payload_text T payload)) (\<lambda>t.
         bindA (writeA (\<lambda>s. s\<lparr>ms_payload_text := Some t\<rparr>)) (\<lambda>_. okA t)))"

definition contains :: "pystr \<Rightarrow> pystr \<Rightarrow> bool" where
  "contains s t \<longleftrightarrow> list_ex (\<lambda>n. startswith (drop n s) t) [0..<Suc (length s)]"

fun match_terms :: "text_library \<Rightarrow> pystr \<Rightarrow> pystr list \<Rightarrow> bool matching" where
  "match_terms T payload_text [] = okA False"
| "match_terms T payload_text (t # ts) =
     (let lowered = tx_lower T t in
      bindA (charge_payload_work (length payload_text + length lowered)) (\<lambda>_.
        if contains payload_text lowered then okA True else match_terms T payload_text ts))"

definition match_payload :: "text_library \<Rightarrow> rule \<Rightarrow> pyval \<Rightarrow> bool matching" where
  "match_payload T r payload =
     (if ru_payload_contains r = [] then okA True
      else bindA (payload_text_for T payload) (\<lambda>t. match_terms T t (ru_payload_contains r)))"

text \<open>\<open>Rule.matches\<close>: every condition that is present must hold, tested in this order.\<close>

definition andA :: "('s, 'e, bool) effect \<Rightarrow> ('s, 'e, bool) effect \<Rightarrow> ('s, 'e, bool) effect" where
  "andA m n = bindA m (\<lambda>b. if b then n else okA False)"

definition rule_matches ::
  "text_library \<Rightarrow> action \<Rightarrow> (pystr \<times> pystr) list \<Rightarrow> rule \<Rightarrow> bool matching" where
  "rule_matches T a context r =
     andA (if ru_tools r = [] then okA True
           else matches_any_glob T (pa_tool_name a) (ru_tools r) ''tool name'' max_match_tool_name)
    (andA (okA (case ru_side_effect_at_least r of None \<Rightarrow> True
           | Some threshold \<Rightarrow> side_effect_rank threshold \<le> side_effect_rank (pa_side_effect_level a)))
    (andA (if ru_targets r = [] then okA True
           else matches_any_glob T (pa_target a) (ru_targets r) ''target'' max_match_target)
    (andA (match_payload T r (pa_payload a))
    (andA (okA (case ru_max_payload_trust r of None \<Rightarrow> True
           | Some allowed \<Rightarrow> trust_satisfies (payload_trust a) allowed))
          (okA (ru_sensitivities r = []
             \<or> (case dict_get (lit ''sensitivity'') context of None \<Rightarrow> [] | Some v \<Rightarrow> v) \<in> set (ru_sensitivities r)))))))"

text \<open>The matching rules, in the order of the ruleset.\<close>

fun matched_rules ::
  "text_library \<Rightarrow> action \<Rightarrow> (pystr \<times> pystr) list \<Rightarrow> rule list \<Rightarrow> rule list matching" where
  "matched_rules T a context [] = okA []"
| "matched_rules T a context (r # rs) =
     bindA (rule_matches T a context r) (\<lambda>hit.
     bindA (matched_rules T a context rs) (\<lambda>rest. okA (if hit then r # rest else rest)))"

end
