(* ===== verification/PolicyEngine.thy ===== *)
theory PolicyEngine
  imports Policy
begin

text \<open>
  The engine of \<open>policy/engine.py\<close>: its construction from parsed packs under the complexity ceilings,
  the hash of its ruleset, the snapshot of the context, and the evaluation of an action.
\<close>

subsection \<open>Construction\<close>

datatype policy_error =
    NotASequence
  | NotCanonical contract_error
  | AuthorityNotMapping
  | TooComplex
  | PackNotMapping
  | UnknownPackField
  | KnownToolsInvalid
  | RulesInvalid
  | RuleNotMapping
  | RuleFieldUnknown
  | RuleFieldInvalid
  | RuleIdEmpty
  | DuplicateRule

type_synonym raw_object = "(pyval, pyval) dict"

abbreviation raw_get :: "string \<Rightarrow> raw_object \<Rightarrow> pyval option" where
  "raw_get k \<equiv> dict_get (PStr (lit k))"

definition or_empty_list :: "pyval option \<Rightarrow> pyval" where
  "or_empty_list v = (case v of Some w \<Rightarrow> if truthy w then w else PList [] | None \<Rightarrow> PList [])"

definition items_of :: "pyval \<Rightarrow> pyval list option" where
  "items_of v = (case v of PList vs \<Rightarrow> Some vs | PTuple vs \<Rightarrow> Some vs | _ \<Rightarrow> None)"

definition rule_list_fields :: "string list" where
  "rule_list_fields = [''tools'', ''targets'', ''payload_contains'', ''sensitivities'', ''redactions'']"

definition rule_text_fields :: "string list" where
  "rule_text_fields = [''id'', ''description'', ''side_effect_at_least'', ''max_payload_trust'', ''effect'',
     ''reason'', ''approval_scope'']"

definition pack_text_fields :: "string list" where "pack_text_fields = [''version'', ''name'', ''description'']"
definition pack_fields :: "string list" where
  "pack_fields = [''version'', ''name'', ''description'', ''known_tools'', ''rules'']"

text \<open>The counters of \<open>_validate_policy_complexity\<close>.\<close>

record complexity =
  cx_known_tools :: nat
  cx_rules :: nat
  cx_items :: nat
  cx_text :: nat

definition count_policy_text :: "pyval option \<Rightarrow> complexity \<Rightarrow> (policy_error, complexity) result" where
  "count_policy_text v c = (case v of
     Some (PStr s) \<Rightarrow>
       if max_policy_text_item < length s \<or> max_policy_text < cx_text c + length s then raise TooComplex
       else return (c\<lparr>cx_text := cx_text c + length s\<rparr>)
   | _ \<Rightarrow> return c)"

fun countR :: "('a \<Rightarrow> 'c \<Rightarrow> ('e, 'c) result) \<Rightarrow> 'a list \<Rightarrow> 'c \<Rightarrow> ('e, 'c) result" where
  "countR f [] c = return c"
| "countR f (x # xs) c = bindR (f x c) (countR f xs)"

definition count_rule_list :: "raw_object \<Rightarrow> string \<Rightarrow> complexity \<Rightarrow> (policy_error, complexity) result" where
  "count_rule_list raw k c = (case raw_get k raw of
     Some (PList vs) \<Rightarrow>
       if max_rule_field_items < length vs \<or> max_rule_list_items < cx_items c + length vs then raise TooComplex
       else countR (\<lambda>v. count_policy_text (Some v)) vs (c\<lparr>cx_items := cx_items c + length vs\<rparr>)
   | _ \<Rightarrow> return c)"

definition count_rule :: "pyval \<Rightarrow> complexity \<Rightarrow> (policy_error, complexity) result" where
  "count_rule v c = (case v of
     PDict raw \<Rightarrow>
       bindR (countR (\<lambda>k. count_policy_text (raw_get k raw)) rule_text_fields c)
         (countR (count_rule_list raw) rule_list_fields)
   | _ \<Rightarrow> return c)"

definition count_known_tools :: "raw_object \<Rightarrow> complexity \<Rightarrow> (policy_error, complexity) result" where
  "count_known_tools pack c = (case or_empty_list (raw_get ''known_tools'' pack) of
     PList vs \<Rightarrow>
       if max_known_tools < cx_known_tools c + length vs then raise TooComplex
       else countR (\<lambda>v. count_policy_text (Some v)) vs (c\<lparr>cx_known_tools := cx_known_tools c + length vs\<rparr>)
   | _ \<Rightarrow> return c)"

definition count_pack :: "pyval \<Rightarrow> complexity \<Rightarrow> (policy_error, complexity) result" where
  "count_pack v c = (case v of
     PDict pack \<Rightarrow>
       bindR (countR (\<lambda>k. count_policy_text (raw_get k pack)) pack_text_fields c) (\<lambda>c.
       bindR (count_known_tools pack c) (\<lambda>c. case or_empty_list (raw_get ''rules'' pack) of
         PList rs \<Rightarrow>
           if max_rules < cx_rules c + length rs then raise TooComplex
           else countR count_rule rs (c\<lparr>cx_rules := cx_rules c + length rs\<rparr>)
       | _ \<Rightarrow> return c))
   | _ \<Rightarrow> raise PackNotMapping)"

definition validate_policy_complexity :: "pyval list \<Rightarrow> (policy_error, unit) result" where
  "validate_policy_complexity packs =
     (if max_packs < length packs then raise TooComplex
      else bindR (countR count_pack packs \<lparr>cx_known_tools = 0, cx_rules = 0, cx_items = 0, cx_text = 0\<rparr>)
        (\<lambda>_. return ()))"

text \<open>One rule, as \<open>Rule(**raw)\<close> builds and checks it.\<close>

definition text_entry :: "string \<Rightarrow> string \<Rightarrow> raw_object \<Rightarrow> (policy_error, pystr) result" where
  "text_entry k fallback raw = (case raw_get k raw of
     None \<Rightarrow> return (lit fallback) | Some (PStr s) \<Rightarrow> return s | Some _ \<Rightarrow> raise RuleFieldInvalid)"

definition member_entry ::
  "('m \<Rightarrow> pystr) \<Rightarrow> 'm list \<Rightarrow> string \<Rightarrow> raw_object \<Rightarrow> (policy_error, 'm option) result" where
  "member_entry value members k raw = (case raw_get k raw of
     None \<Rightarrow> return None
   | Some PNone \<Rightarrow> return None
   | Some (PStr s) \<Rightarrow> (case member_of value members s of
       None \<Rightarrow> raise RuleFieldInvalid | Some m \<Rightarrow> return (Some m))
   | Some _ \<Rightarrow> raise RuleFieldInvalid)"

definition nonempty_texts :: "pyval list \<Rightarrow> pystr list option" where
  "nonempty_texts vs = (if list_all (\<lambda>v. case v of PStr s \<Rightarrow> s \<noteq> [] | _ \<Rightarrow> False) vs
     then Some (map (\<lambda>v. text_of (Some v)) vs) else None)"

definition texts_entry :: "string \<Rightarrow> raw_object \<Rightarrow> (policy_error, pystr list) result" where
  "texts_entry k raw = (case raw_get k raw of
     None \<Rightarrow> return []
   | Some v \<Rightarrow>
       if items_of v = None then raise RuleFieldInvalid
       else bindR (mapErr NotCanonical (authority_snapshot v)) (\<lambda>w.
         case items_of w of None \<Rightarrow> raise RuleFieldInvalid | Some vs \<Rightarrow>
           (case nonempty_texts vs of None \<Rightarrow> raise RuleFieldInvalid | Some ss \<Rightarrow> return ss)))"

definition all_trusts :: "trust list" where "all_trusts = [Trusted, Untrusted, Derived]"

definition rule_of :: "pyval \<Rightarrow> (policy_error, rule) result" where
  "rule_of v = (case v of
     PDict raw \<Rightarrow>
       if \<not> set (map fst raw) \<subseteq> set (map (\<lambda>k. PStr (lit k)) (rule_text_fields @ rule_list_fields)) then raise RuleFieldUnknown
       else if raw_get ''id'' raw = None then raise RuleFieldUnknown
       else bindR (text_entry ''id'' '''' raw) (\<lambda>rid.
       bindR (text_entry ''description'' '''' raw) (\<lambda>description.
       bindR (text_entry ''effect'' ''block'' raw) (\<lambda>effect.
       bindR (text_entry ''reason'' '''' raw) (\<lambda>reason.
       bindR (text_entry ''approval_scope'' '''' raw) (\<lambda>scope.
         if py_strip rid = [] then raise RuleIdEmpty
         else case member_of decision_value all_decisions effect of
           None \<Rightarrow> raise RuleFieldInvalid
         | Some outc \<Rightarrow>
           bindR (member_entry side_effect_value side_effect_order ''side_effect_at_least'' raw) (\<lambda>threshold.
           bindR (member_entry trust_value all_trusts ''max_payload_trust'' raw) (\<lambda>ceiling.
           bindR (texts_entry ''tools'' raw) (\<lambda>tools.
           bindR (texts_entry ''targets'' raw) (\<lambda>targets.
           bindR (texts_entry ''payload_contains'' raw) (\<lambda>terms.
           bindR (texts_entry ''sensitivities'' raw) (\<lambda>sensitivities.
           bindR (texts_entry ''redactions'' raw) (\<lambda>redactions.
             return \<lparr>ru_id = rid, ru_description = description, ru_tools = tools,
               ru_side_effect_at_least = threshold, ru_targets = targets, ru_payload_contains = terms,
               ru_max_payload_trust = ceiling, ru_sensitivities = sensitivities, ru_effect = outc,
               ru_reason = reason, ru_approval_scope = scope, ru_redactions = redactions\<rparr>))))))))))))
   | _ \<Rightarrow> raise RuleNotMapping)"

text \<open>One pack: its version, known tools and rules.\<close>

record policy_parts =
  pp_versions :: "pystr list"
  pp_known_tools :: "pystr list"
  pp_rules :: "rule list"

definition add_rule :: "pyval \<Rightarrow> policy_parts \<Rightarrow> (policy_error, policy_parts) result" where
  "add_rule v p = bindR (rule_of v) (\<lambda>r.
     if ru_id r \<in> set (map ru_id (pp_rules p)) then raise DuplicateRule
     else return (p\<lparr>pp_rules := pp_rules p @ [r]\<rparr>))"

definition pack_known_tools :: "raw_object \<Rightarrow> (policy_error, pystr list) result" where
  "pack_known_tools pack = (case or_empty_list (raw_get ''known_tools'' pack) of
     PList vs \<Rightarrow> (case nonempty_texts vs of None \<Rightarrow> raise KnownToolsInvalid | Some ss \<Rightarrow> return ss)
   | _ \<Rightarrow> raise KnownToolsInvalid)"

definition add_pack :: "text_library \<Rightarrow> pyval \<Rightarrow> policy_parts \<Rightarrow> (policy_error, policy_parts) result" where
  "add_pack T v p = (case v of
     PDict pack \<Rightarrow>
       if \<not> set (map fst pack) \<subseteq> set (map (\<lambda>k. PStr (lit k)) pack_fields) then raise UnknownPackField
       else bindR (pack_known_tools pack) (\<lambda>tools.
         let version = (case raw_get ''version'' pack of None \<Rightarrow> lit ''0'' | Some w \<Rightarrow> str_text T w);
             p' = p\<lparr>pp_versions := pp_versions p @ [version], pp_known_tools := pp_known_tools p @ tools\<rparr>
         in case or_empty_list (raw_get ''rules'' pack) of
             PList rs \<Rightarrow> countR add_rule rs p'
           | _ \<Rightarrow> raise RulesInvalid)
   | _ \<Rightarrow> raise PackNotMapping)"

record policy_engine =
  pe_name :: pystr
  pe_version :: pystr
  pe_rules :: "rule list"
  pe_known_tools :: "pystr list"
  pe_authority_inputs :: pyval
  pe_ruleset_hash :: pystr

text \<open>The authority inputs are kept frozen and handed out with lists for tuples.\<close>

fun thaw :: "pyval \<Rightarrow> pyval" where
  "thaw (PDict kvs) = PDict (map (\<lambda>(k, v). (k, thaw v)) kvs)"
| "thaw (PList vs) = PList (map thaw vs)"
| "thaw (PTuple vs) = PList (map thaw vs)"
| "thaw v = v"

definition authority_inputs_of :: "policy_engine \<Rightarrow> pyval" where
  "authority_inputs_of E = thaw (pe_authority_inputs E)"

definition optional_text :: "('m \<Rightarrow> pystr) \<Rightarrow> 'm option \<Rightarrow> pyval" where
  "optional_text value v = (case v of None \<Rightarrow> PNone | Some m \<Rightarrow> PStr (value m))"

definition text_tuple :: "pystr list \<Rightarrow> pyval" where "text_tuple ss = PTuple (map PStr ss)"

text \<open>What the hash of the ruleset is taken over: \<open>vars\<close> of every rule, sorted by identifier.\<close>

definition rule_object :: "rule \<Rightarrow> pyval" where
  "rule_object r = PDict
     [(PStr (lit ''id''), PStr (ru_id r)), (PStr (lit ''description''), PStr (ru_description r)),
      (PStr (lit ''tools''), text_tuple (ru_tools r)),
      (PStr (lit ''side_effect_at_least''), optional_text side_effect_value (ru_side_effect_at_least r)),
      (PStr (lit ''targets''), text_tuple (ru_targets r)),
      (PStr (lit ''payload_contains''), text_tuple (ru_payload_contains r)),
      (PStr (lit ''max_payload_trust''), optional_text trust_value (ru_max_payload_trust r)),
      (PStr (lit ''sensitivities''), text_tuple (ru_sensitivities r)),
      (PStr (lit ''effect''), PStr (decision_value (ru_effect r))), (PStr (lit ''reason''), PStr (ru_reason r)),
      (PStr (lit ''approval_scope''), PStr (ru_approval_scope r)),
      (PStr (lit ''redactions''), text_tuple (ru_redactions r))]"

definition ruleset_surface :: "pystr list \<Rightarrow> pyval \<Rightarrow> rule list \<Rightarrow> pyval" where
  "ruleset_surface tools inputs rs = PDict
     [(PStr (lit ''known_tools''), PList (map PStr (sort tools))),
      (PStr (lit ''authority_inputs''), inputs),
      (PStr (lit ''rules''), PList (map rule_object (sort_key ru_id rs)))]"

definition ruleset_hash_of :: "runtime \<Rightarrow> pystr list \<Rightarrow> pyval \<Rightarrow> rule list \<Rightarrow> pystr" where
  "ruleset_hash_of R tools inputs rs = sha256_of (rt_sha256 R) (ruleset_surface tools inputs rs)"

fun join_plus :: "pystr list \<Rightarrow> pystr" where
  "join_plus [] = []"
| "join_plus [s] = s"
| "join_plus (s # ss) = s @ [43] @ join_plus ss"

definition new_engine ::
  "runtime \<Rightarrow> text_library \<Rightarrow> pystr \<Rightarrow> pyval \<Rightarrow> pyval option \<Rightarrow> (policy_error, policy_engine) result" where
  "new_engine R T name packs authority_inputs =
     (if items_of packs = None then raise NotASequence
      else bindR (mapErr NotCanonical (authority_snapshot packs)) (\<lambda>observed.
        case items_of observed of None \<Rightarrow> raise NotASequence | Some ps \<Rightarrow>
        bindR (mapErr NotCanonical (authority_snapshot
           (case authority_inputs of None \<Rightarrow> PDict [] | Some v \<Rightarrow> v))) (\<lambda>inputs.
        if \<not> is_mapping inputs then raise AuthorityNotMapping
        else bindR (validate_policy_complexity ps) (\<lambda>_.
        bindR (countR (add_pack T) ps \<lparr>pp_versions = [], pp_known_tools = [], pp_rules = []\<rparr>) (\<lambda>parts.
          return \<lparr>pe_name = name, pe_version = join_plus (pp_versions parts), pe_rules = pp_rules parts,
            pe_known_tools = pp_known_tools parts, pe_authority_inputs = inputs,
            pe_ruleset_hash = ruleset_hash_of R (pp_known_tools parts) inputs (pp_rules parts)\<rparr>)))))"

text \<open>\<open>from_loaded\<close>: the parsed packs and one more pack for the tools the registry declares.\<close>

definition registry_pack :: "pystr list \<Rightarrow> pyval" where
  "registry_pack tools = PDict
     [(PStr (lit ''version''), PStr (lit ''registry-v1'')),
      (PStr (lit ''known_tools''), PList (map PStr (sort tools))), (PStr (lit ''rules''), PList [])]"

definition from_loaded ::
  "runtime \<Rightarrow> text_library \<Rightarrow> pyval list \<Rightarrow> pystr \<Rightarrow> pystr list \<Rightarrow> pyval option \<Rightarrow> (policy_error, policy_engine) result" where
  "from_loaded R T packs name tools authority_inputs =
     bindR (mapErr NotCanonical (authority_snapshot (PTuple packs))) (\<lambda>observed.
     bindR (mapErr NotCanonical (authority_snapshot (PList (map PStr tools)))) (\<lambda>_.
       case items_of observed of None \<Rightarrow> raise NotASequence | Some ps \<Rightarrow>
         new_engine R T name (PList (ps @ (if tools = [] then [] else [registry_pack tools]))) authority_inputs))"

subsection \<open>The context\<close>

datatype context_error =
    ContextNotMapping
  | ContextEntries
  | ContextType
  | ContextKey
  | ContextAmbiguous
  | ContextValue
  | ContextText

text \<open>A text key or value: a string, or the text of a string enumeration.\<close>

definition exact_text :: "pyval \<Rightarrow> pystr option" where
  "exact_text v = (case v of PStr s \<Rightarrow> Some s | PEnum s \<Rightarrow> Some s | _ \<Rightarrow> None)"

fun context_keys :: "pyval list \<Rightarrow> pystr list \<Rightarrow> nat \<Rightarrow> (context_error, pystr list \<times> nat) result" where
  "context_keys [] seen used = return (seen, used)"
| "context_keys (k # ks) seen used = (case exact_text k of
     None \<Rightarrow> raise ContextType
   | Some key \<Rightarrow>
       if max_context_key < length key then raise ContextKey
       else if max_context_text < used + length key then raise ContextText
       else if key \<in> set seen then raise ContextAmbiguous
       else context_keys ks (seen @ [key]) (used + length key))"

fun context_values :: "pyval list \<Rightarrow> nat \<Rightarrow> (context_error, pystr list) result" where
  "context_values [] used = return []"
| "context_values (v # vs) used = (case exact_text v of
     None \<Rightarrow> raise ContextType
   | Some s \<Rightarrow>
       if max_context_value < length s then raise ContextValue
       else if max_context_text < used + length s then raise ContextText
       else bindR (context_values vs (used + length s)) (\<lambda>rest. return (s # rest)))"

definition context_snapshot :: "pyval option \<Rightarrow> (context_error, (pystr, pystr) dict) result" where
  "context_snapshot context = (case context of
     None \<Rightarrow> return []
   | Some (PDict kvs) \<Rightarrow>
       if max_context_entries < length kvs then raise ContextEntries
       else bindR (context_keys (map fst kvs) [] 0) (\<lambda>(keys, used).
         bindR (context_values (map snd kvs) used) (\<lambda>vals. return (zip keys vals)))
   | Some _ \<Rightarrow> raise ContextNotMapping)"

subsection \<open>Evaluation\<close>

definition is_known_tool :: "text_library \<Rightarrow> policy_engine \<Rightarrow> pystr \<Rightarrow> bool matching" where
  "is_known_tool T E name =
     (if pe_known_tools E = [] then okA True
      else matches_any_glob T name (pe_known_tools E) ''tool name'' max_match_tool_name)"

text \<open>The messages and names of the ceilings.\<close>

definition limit_text :: "nat \<Rightarrow> pystr" where "limit_text n = nat_digits n"

definition match_message :: "match_error \<Rightarrow> pystr" where
  "match_message e = (case e of
     GlobTooLong label n \<Rightarrow> lit ''policy glob '' @ lit label @ lit '' exceeds maximum of '' @ limit_text n @ lit '' characters''
   | GlobNormalizedTooLong label n \<Rightarrow>
       lit ''normalized policy glob '' @ lit label @ lit '' exceeds maximum of '' @ limit_text n @ lit '' characters''
   | GlobWork \<Rightarrow> lit ''policy glob match work exceeds maximum of '' @ limit_text max_glob_work @ lit '' units''
   | PayloadWork \<Rightarrow> lit ''policy payload substring work exceeds maximum of '' @ limit_text max_payload_work @ lit '' units''
   | PayloadText \<Rightarrow> lit ''policy match payload text exceeds maximum of '' @ limit_text max_match_characters @ lit '' characters''
   | PayloadNesting \<Rightarrow> lit ''policy match payload nesting exceeds maximum depth of '' @ limit_text max_match_nesting
   | PayloadNodes \<Rightarrow> lit ''policy match payload node count exceeds maximum of '' @ limit_text max_match_nodes
   | PayloadNormalized \<Rightarrow>
       lit ''normalized policy match payload text exceeds maximum of '' @ limit_text max_match_characters @ lit '' characters'')"

definition match_limit :: "match_error \<Rightarrow> string" where
  "match_limit e = (case e of
     GlobTooLong _ _ \<Rightarrow> ''policy_glob_matching'' | GlobNormalizedTooLong _ _ \<Rightarrow> ''policy_glob_matching''
   | GlobWork \<Rightarrow> ''policy_glob_matching'' | _ \<Rightarrow> ''policy_payload_matching'')"

definition context_message :: "context_error \<Rightarrow> pystr" where
  "context_message e = (case e of
     ContextNotMapping \<Rightarrow> lit ''policy context must be a mapping''
   | ContextEntries \<Rightarrow> lit ''policy context exceeds maximum entry count of '' @ limit_text max_context_entries
   | ContextType \<Rightarrow> lit ''policy context keys and values must be strings''
   | ContextKey \<Rightarrow> lit ''policy context key exceeds maximum of '' @ limit_text max_context_key @ lit '' characters''
   | ContextAmbiguous \<Rightarrow> lit ''policy context keys are ambiguous after normalization''
   | ContextValue \<Rightarrow> lit ''policy context value exceeds maximum of '' @ limit_text max_context_value @ lit '' characters''
   | ContextText \<Rightarrow> lit ''policy context text exceeds maximum of '' @ limit_text max_context_text @ lit '' characters'')"

definition context_limit :: "context_error \<Rightarrow> string" where
  "context_limit e = (case e of
     ContextNotMapping \<Rightarrow> ''policy_context_type'' | ContextEntries \<Rightarrow> ''policy_context_entries''
   | ContextType \<Rightarrow> ''policy_context_type'' | ContextKey \<Rightarrow> ''policy_context_key_characters''
   | ContextAmbiguous \<Rightarrow> ''policy_context_type'' | ContextValue \<Rightarrow> ''policy_context_value_characters''
   | ContextText \<Rightarrow> ''policy_context_characters'')"

text \<open>A decision as the engine constructs it, decided at \<open>stamp\<close>.\<close>

definition policy_decision ::
  "runtime \<Rightarrow> policy_engine \<Rightarrow> pystr \<Rightarrow> decision \<Rightarrow> pystr \<Rightarrow> pystr list \<Rightarrow> pystr \<Rightarrow> pystr list
   \<Rightarrow> (string \<times> pyval) list \<Rightarrow> (contract_error, guardrail_decision) result" where
  "policy_decision R E stamp d reason ids scope redactions inputs =
     validate_guardrail_decision R
       \<lparr>gd_decision = d, gd_reason = reason, gd_policy_ids = ids, gd_policy_version = pe_version E,
        gd_ruleset_hash = pe_ruleset_hash E, gd_approval_scope = scope, gd_expires_at = None,
        gd_redactions = redactions,
        gd_decision_inputs = PDict (map (\<lambda>(k, v). (PStr (lit k), v)) inputs), gd_decided_at = stamp\<rparr>"

definition match_limit_decision ::
  "runtime \<Rightarrow> policy_engine \<Rightarrow> pystr \<Rightarrow> action \<Rightarrow> match_error \<Rightarrow> (contract_error, guardrail_decision) result" where
  "match_limit_decision R E stamp a e =
     policy_decision R E stamp Block (match_message e) [lit ''policy_match_limit''] [] []
       ([(''side_effect_level'', PStr (side_effect_value (pa_side_effect_level a))),
         (''policy_name'', PStr (pe_name E)), (''limit_enforced'', PStr (lit (match_limit e)))]
        @ (if match_limit e \<noteq> ''policy_glob_matching'' then [(''tool_name'', PStr (pa_tool_name a))] else []))"

definition context_error_decision ::
  "runtime \<Rightarrow> policy_engine \<Rightarrow> pystr \<Rightarrow> action \<Rightarrow> context_error \<Rightarrow> (contract_error, guardrail_decision) result" where
  "context_error_decision R E stamp a e =
     policy_decision R E stamp Block (context_message e) [lit ''policy_context_contract''] [] []
       [(''tool_name'', PStr (pa_tool_name a)),
        (''side_effect_level'', PStr (side_effect_value (pa_side_effect_level a))),
        (''policy_name'', PStr (pe_name E)), (''limit_enforced'', PStr (lit (context_limit e)))]"

definition in_quotes :: "pystr \<Rightarrow> pystr" where "in_quotes s = [39] @ s @ [39]"

definition unknown_tool_decision ::
  "runtime \<Rightarrow> policy_engine \<Rightarrow> pystr \<Rightarrow> action \<Rightarrow> (contract_error, guardrail_decision) result" where
  "unknown_tool_decision R E stamp a =
     policy_decision R E stamp Block
       (lit ''tool '' @ in_quotes (pa_tool_name a) @ lit '' is not declared in any loaded policy pack'' @ [39]
        @ lit ''s known_tools; unclassified tools are refused'')
       [lit ''unknown_tool''] [] []
       [(''tool_name'', PStr (pa_tool_name a)), (''known_tools'', PList (map PStr (sort (pe_known_tools E)))),
        (''policy_name'', PStr (pe_name E)), (''authority_inputs'', authority_inputs_of E)]"

text \<open>\<open>max(matched, key=severity)\<close>: the first of the strictest.\<close>

fun strictest :: "rule \<Rightarrow> rule list \<Rightarrow> rule" where
  "strictest best [] = best"
| "strictest best (r # rs) =
     strictest (if severity (ru_effect best) < severity (ru_effect r) then r else best) rs"

record verdict =
  vd_decision :: decision
  vd_reason :: pystr
  vd_policy_ids :: "pystr list"
  vd_approval_scope :: pystr
  vd_redactions :: "pystr list"

definition first_text :: "pystr list \<Rightarrow> pystr" where
  "first_text ss = (case filter (\<lambda>s. s \<noteq> []) ss of [] \<Rightarrow> [] | s # _ \<Rightarrow> s)"

definition verdict_of :: "action \<Rightarrow> rule list \<Rightarrow> verdict" where
  "verdict_of a matched = (case matched of
     [] \<Rightarrow>
       if pa_side_effect_level a = NoEffect
       then \<lparr>vd_decision = Allow, vd_reason = lit ''no rule matched; action has no side effect'',
             vd_policy_ids = [lit ''default_deny''], vd_approval_scope = [], vd_redactions = []\<rparr>
       else \<lparr>vd_decision = Block,
             vd_reason = lit ''no rule permits tool '' @ in_quotes (pa_tool_name a) @ lit '' at side-effect level ''
               @ in_quotes (side_effect_value (pa_side_effect_level a)) @ lit '' (default deny)'',
             vd_policy_ids = [lit ''default_deny''], vd_approval_scope = [], vd_redactions = []\<rparr>
   | r # rs \<Rightarrow>
       let worst = strictest r rs; d = ru_effect worst; agreeing = filter (\<lambda>x. ru_effect x = d) matched
       in \<lparr>vd_decision = d,
           vd_reason = first_text [ru_reason worst, ru_description worst, lit ''matched '' @ ru_id worst],
           vd_policy_ids = map ru_id agreeing, vd_approval_scope = ru_approval_scope worst,
           vd_redactions = sort (remdups (concat (map ru_redactions agreeing)))\<rparr>)"

definition scope_of :: "action \<Rightarrow> verdict \<Rightarrow> pystr" where
  "scope_of a v =
     (if vd_approval_scope v \<noteq> [] then vd_approval_scope v
      else if vd_decision v = ApprovalRequired then lit ''execute '' @ pa_tool_name a @ lit '' on '' @ pa_target a
      else [])"

definition text_object :: "(pystr \<times> pystr) list \<Rightarrow> pyval" where
  "text_object d = PDict (map (\<lambda>(k, v). (PStr k, PStr v)) d)"

definition rules_decision ::
  "runtime \<Rightarrow> policy_engine \<Rightarrow> pystr \<Rightarrow> action \<Rightarrow> (pystr, pystr) dict \<Rightarrow> rule list
   \<Rightarrow> (contract_error, guardrail_decision) result" where
  "rules_decision R E stamp a context matched =
     (let v = verdict_of a matched in
     bindR (mapErr ContractCanonical (payload_hash R a)) (\<lambda>ph.
     bindR (mapErr ContractCanonical (authorization_hash R a)) (\<lambda>ah.
       policy_decision R E stamp (vd_decision v) (vd_reason v) (vd_policy_ids v) (scope_of a v) (vd_redactions v)
         [(''tool_name'', PStr (pa_tool_name a)), (''target'', PStr (pa_target a)),
          (''side_effect_level'', PStr (side_effect_value (pa_side_effect_level a))),
          (''payload_hash'', PStr ph), (''authorization_hash'', PStr ah),
          (''payload_trust'', PStr (trust_value (payload_trust a))), (''context'', text_object context),
          (''matched_rules'', PList (map (\<lambda>r. PStr (ru_id r)) matched)), (''policy_name'', PStr (pe_name E)),
          (''authority_inputs'', authority_inputs_of E)])))"

text \<open>What the matching of an action comes to: no known tool, or the rules that match.\<close>

definition match_action ::
  "text_library \<Rightarrow> policy_engine \<Rightarrow> action \<Rightarrow> (pystr, pystr) dict \<Rightarrow> rule list option matching" where
  "match_action T E a context =
     bindA (is_known_tool T E (pa_tool_name a)) (\<lambda>known.
       if \<not> known then okA None
       else bindA (matched_rules T a context (pe_rules E)) (\<lambda>matched. okA (Some matched)))"

definition evaluate ::
  "runtime \<Rightarrow> text_library \<Rightarrow> policy_engine \<Rightarrow> pystr \<Rightarrow> action \<Rightarrow> pyval option
   \<Rightarrow> (contract_error, guardrail_decision) result" where
  "evaluate R T E stamp a context = (case context_snapshot context of
     Inl e \<Rightarrow> context_error_decision R E stamp a e
   | Inr ctx \<Rightarrow> (case fst (match_action T E a ctx new_match_state) of
       Inl e \<Rightarrow> match_limit_decision R E stamp a e
     | Inr None \<Rightarrow> unknown_tool_decision R E stamp a
     | Inr (Some matched) \<Rightarrow> rules_decision R E stamp a ctx matched))"

end
