(* ===== verification/HarnessState.thy ===== *)
theory HarnessState
  imports Effects Journal Registry Ledger PolicyEngine
begin

text \<open>
  The state the control loop works on (\<open>orchestrator/harness.py\<close>) and the parts its entry points
  share. A harness owns four durable files, the budget, the approvals, the evidence with its
  checkpoint and the operation journal, next to the tools and a bounded cache. \<open>hn_writes_left\<close>
  is the number of further file writes before the process is killed, so that the runs with every
  such number are the runs with a crash at every place. The state audit is a predicate
  of the configuration.
\<close>

subsection \<open>State and configuration\<close>

record harness_state =
  hn_budget :: budget_state
  hn_approvals :: approval_data
  hn_evidence :: evidence_state
  hn_journal :: journal_state
  hn_tools :: tool_state
  hn_bases :: "(pystr, pystr) dict"
  hn_writes_left :: nat

text \<open>
  What the clock reads and the random part of a new identifier, at one place of a call. The places
  of a call are numbered, those of a call inside it below their own number.
\<close>

record moment =
  mo_clock :: clock
  mo_token :: pystr

type_synonym readings = "nat list \<Rightarrow> moment"

definition inside :: "nat \<Rightarrow> readings \<Rightarrow> readings" where
  "inside n env = (\<lambda>place. env (n # place))"

definition clock_at :: "nat \<Rightarrow> readings \<Rightarrow> clock" where
  "clock_at n env = mo_clock (env [n])"

definition stamp_at :: "nat \<Rightarrow> readings \<Rightarrow> pystr" where
  "stamp_at n env = ck_stamp (clock_at n env)"

definition new_id :: "string \<Rightarrow> nat \<Rightarrow> readings \<Rightarrow> pystr" where
  "new_id prefix n env = lit prefix @ lit ''_'' @ mo_token (env [n])"

record harness =
  hc_runtime :: runtime
  hc_approvals :: approval_config
  hc_registry :: registry
  hc_policy :: policy_engine
  hc_text :: text_library
  hc_runner_name :: pystr
  hc_model_id :: pystr
  hc_dry_run :: bool
  hc_execution_disabled :: bool
  hc_evidence_basis :: pystr
  hc_profile :: "pystr option"
  hc_audit :: "harness_state \<Rightarrow> bool"

datatype harness_error =
    Killed
  | ExecutionDisabled
  | UnsafeState
  | HarnessBudget budget_error
  | HarnessApproval approval_error
  | HarnessEvidence evidence_error
  | HarnessJournal journal_error
  | HarnessContract contract_error
  | HarnessTool registry_error
  | HarnessHash canonical_error
  | HarnessIdentity identity_error
  | BrokenEvidence
  | PreparedRecordSealed
  | UnknownAuthority
  | AuthorityConflict
  | BelongsToApproval
  | ConflictingTerminal
  | ApprovalConflict
  | NotRecoverable
  | LiveReservation
  | NotResumable
  | NotRejectable
  | NoSealedAuthorization
  | ExternalMismatch
  | AlreadyTerminal
  | OutcomeConflict
  | InvalidInput

type_synonym 'a harness_effect = "(harness_state, harness_error, 'a) effect"

subsection \<open>Reading and writing the files\<close>

text \<open>A write happens, or the process is killed just before it.\<close>

definition spend_write :: "unit harness_effect" where
  "spend_write s = (if hn_writes_left s = 0 then (raise Killed, s)
     else (return (), s\<lparr>hn_writes_left := hn_writes_left s - 1\<rparr>))"

definition put_budget ::
  "(budget_state \<Rightarrow> (budget_error, 'a \<times> budget_state) result) \<Rightarrow> 'a harness_effect" where
  "put_budget f s = (case f (hn_budget s) of
     Inl e \<Rightarrow> (raise (HarnessBudget e), s)
   | Inr (x, d) \<Rightarrow> (return x, s\<lparr>hn_budget := d\<rparr>))"

definition budget_write ::
  "(budget_state \<Rightarrow> (budget_error, 'a \<times> budget_state) result) \<Rightarrow> 'a harness_effect" where
  "budget_write f = bindA spend_write (\<lambda>_. put_budget f)"

definition budget_step ::
  "(budget_state \<Rightarrow> (budget_error, budget_state) result) \<Rightarrow> unit harness_effect" where
  "budget_step f = budget_write (\<lambda>d. bindR (f d) (\<lambda>t. return ((), t)))"

definition budget_read :: "(budget_state \<Rightarrow> (budget_error, 'a) result) \<Rightarrow> 'a harness_effect" where
  "budget_read f = resultA (\<lambda>s. mapErr HarnessBudget (f (hn_budget s)))"

definition put_approvals ::
  "(approval_data, approval_error, 'a) effect \<Rightarrow> 'a harness_effect" where
  "put_approvals m s = (case m (hn_approvals s) of (r, d) \<Rightarrow>
     (mapErr HarnessApproval r, s\<lparr>hn_approvals := d\<rparr>))"

definition approval_effect :: "(approval_data, approval_error, 'a) effect \<Rightarrow> 'a harness_effect" where
  "approval_effect m = bindA spend_write (\<lambda>_. put_approvals m)"

definition as_effect :: "('s \<Rightarrow> ('e, 'a \<times> 's) result) \<Rightarrow> ('s, 'e, 'a) effect" where
  "as_effect f s = (case f s of Inl e \<Rightarrow> (raise e, s) | Inr (x, t) \<Rightarrow> (return x, t))"

definition approval_write ::
  "(approval_data \<Rightarrow> (approval_error, 'a \<times> approval_data) result) \<Rightarrow> 'a harness_effect" where
  "approval_write f = approval_effect (as_effect f)"

definition approval_read :: "(approval_data \<Rightarrow> (approval_error, 'a) result) \<Rightarrow> 'a harness_effect" where
  "approval_read f = resultA (\<lambda>s. mapErr HarnessApproval (f (hn_approvals s)))"

text \<open>
  An append writes its line and then the checkpoint: with one write left the line is on file and
  the checkpoint is not moved.
\<close>

definition put_evidence ::
  "(evidence_state, evidence_error, 'a) effect \<Rightarrow> 'a harness_effect" where
  "put_evidence m s = (case m (hn_evidence s) of (r, e) \<Rightarrow>
     if hn_writes_left s = 0
     then (raise Killed, s\<lparr>hn_evidence := e\<lparr>es_head := es_head (hn_evidence s)\<rparr>\<rparr>)
     else (mapErr HarnessEvidence r, s\<lparr>hn_evidence := e, hn_writes_left := hn_writes_left s - 1\<rparr>))"

definition evidence_write :: "(evidence_state, evidence_error, 'a) effect \<Rightarrow> 'a harness_effect" where
  "evidence_write m = bindA spend_write (\<lambda>_. put_evidence m)"

definition evidence_read :: "(evidence_line list \<Rightarrow> (evidence_error, 'a) result) \<Rightarrow> 'a harness_effect" where
  "evidence_read f = resultA (\<lambda>s. mapErr HarnessEvidence (f (es_lines (hn_evidence s))))"

definition put_journal ::
  "(journal_state \<Rightarrow> (journal_error, 'a \<times> journal_state) result) \<Rightarrow> 'a harness_effect" where
  "put_journal f s = (case f (hn_journal s) of
     Inl e \<Rightarrow> (raise (HarnessJournal e), s)
   | Inr (x, j) \<Rightarrow> (return x, s\<lparr>hn_journal := j\<rparr>))"

definition journal_write ::
  "(journal_state \<Rightarrow> (journal_error, 'a \<times> journal_state) result) \<Rightarrow> 'a harness_effect" where
  "journal_write f = bindA spend_write (\<lambda>_. put_journal f)"

definition contract :: "(contract_error, 'a) result \<Rightarrow> 'a harness_effect" where
  "contract r = liftA (mapErr HarnessContract r)"

definition hashed :: "(canonical_error, 'a) result \<Rightarrow> 'a harness_effect" where
  "hashed r = liftA (mapErr HarnessHash r)"

definition require_execution_enabled :: "harness \<Rightarrow> unit harness_effect" where
  "require_execution_enabled H = checkA (\<not> hc_execution_disabled H) ExecutionDisabled"

definition require_safe :: "harness \<Rightarrow> unit harness_effect" where
  "require_safe H = resultA (\<lambda>s. require (hc_audit H s) UnsafeState)"

subsection \<open>The basis of an action\<close>

definition max_action_bases :: nat where "max_action_bases = 1024"

text \<open>An ordered dictionary: the entry moves to the end, and the oldest one leaves.\<close>

definition put_basis :: "pystr \<Rightarrow> pystr \<Rightarrow> (pystr, pystr) dict \<Rightarrow> (pystr, pystr) dict" where
  "put_basis action_id basis d =
     (let t = dict_del action_id d @ [(action_id, basis)]
      in if max_action_bases < length t then tl t else t)"

definition remember_action_basis :: "pystr \<Rightarrow> pystr \<Rightarrow> pystr harness_effect" where
  "remember_action_basis action_id basis =
     bindA (contract (check_enforcement_basis basis)) (\<lambda>_.
     bindA (writeA (\<lambda>s. s\<lparr>hn_bases := put_basis action_id basis (hn_bases s)\<rparr>)) (\<lambda>_. okA basis))"

definition basis_of :: "harness \<Rightarrow> json_object option \<Rightarrow> (contract_error, pystr) result" where
  "basis_of H prior = (case prior of
     None \<Rightarrow> return (hc_evidence_basis H)
   | Some obj \<Rightarrow> (case obj_get ''enforcement_basis'' obj of
       None \<Rightarrow> return [] | Some (PStr s) \<Rightarrow> return s | Some _ \<Rightarrow> raise InvalidEnforcementBasis))"

definition basis_for_action :: "harness \<Rightarrow> pystr \<Rightarrow> pystr harness_effect" where
  "basis_for_action H action_id =
     bindA (readA (\<lambda>s. dict_get action_id (hn_bases s))) (\<lambda>known. case known of
       Some basis \<Rightarrow> bindA (writeA (\<lambda>s. s\<lparr>hn_bases := put_basis action_id basis (hn_bases s)\<rparr>)) (\<lambda>_. okA basis)
     | None \<Rightarrow>
         bindA (evidence_read (first_by_action action_id)) (\<lambda>prior.
         bindA (contract (basis_of H prior)) (remember_action_basis action_id)))"

subsection \<open>Evidence of an action\<close>

record note_fields =
  nf_approved_by :: "pystr option"
  nf_result :: "tool_result option"
  nf_detail :: pystr
  nf_reconciliation_outcome :: pystr
  nf_reconciled_by :: pystr
  nf_reconciled_at :: "pystr option"
  nf_reconciliation_note :: pystr
  nf_budget_remaining_usd :: "decimal option"

definition plain_note :: "pystr \<Rightarrow> note_fields" where
  "plain_note detail =
     \<lparr>nf_approved_by = None, nf_result = None, nf_detail = detail, nf_reconciliation_outcome = [],
      nf_reconciled_by = [], nf_reconciled_at = None, nf_reconciliation_note = [],
      nf_budget_remaining_usd = None\<rparr>"

definition input_ref :: "content_ref \<Rightarrow> pyval" where
  "input_ref r = PDict
     [(PStr (lit ''ref_id''), PStr (cr_ref_id r)), (PStr (lit ''origin''), PStr (cr_origin r)),
      (PStr (lit ''trust''), PStr (trust_value (cr_trust r))),
      (PStr (lit ''content_hash''), PStr (cr_content_hash r)), (PStr (lit ''label''), PStr (cr_label r))]"

definition record_schema_name :: pystr where
  "record_schema_name = lit ''defiant.agent_harness.evidence_record''"

definition record_schema_version :: pystr where "record_schema_version = lit ''0.1.0''"

definition make_record ::
  "harness \<Rightarrow> readings \<Rightarrow> action \<Rightarrow> harness_request \<Rightarrow> guardrail_decision \<Rightarrow> result_status
   \<Rightarrow> note_fields \<Rightarrow> evidence_record harness_effect" where
  "make_record H env a q d status nf =
     (let R = hc_runtime H in
     bindA (basis_for_action H (pa_action_id a)) (\<lambda>basis.
     bindA (hashed (payload_hash R a)) (\<lambda>ph.
     bindA (hashed (authorization_hash R a)) (\<lambda>ah.
     bindA (liftA (mapErr HarnessTool (case nf_result nf of None \<Rightarrow> return [] | Some r \<Rightarrow> output_hash R r))) (\<lambda>oh.
     bindA (case nf_budget_remaining_usd nf of None \<Rightarrow> budget_read balance_of | Some b \<Rightarrow> okA b) (\<lambda>remaining.
       contract (validate_evidence R
         \<lparr>er_request_id = hr_request_id q, er_action_id = pa_action_id a, er_decision = gd_decision d,
          er_result_status = status, er_schema_name = record_schema_name,
          er_schema_version = record_schema_version, er_record_id = new_id ''evd'' 1 env,
          er_timestamp = stamp_at 2 env, er_agent_runner = hc_runner_name H, er_model_id = hc_model_id H,
          er_user_id = hr_user_id q, er_workspace_id = hr_workspace_id q, er_tool_name = pa_tool_name a,
          er_target = pa_target a, er_side_effect_level = side_effect_value (pa_side_effect_level a),
          er_policy_ids = gd_policy_ids d, er_policy_version = gd_policy_version d,
          er_ruleset_hash = gd_ruleset_hash d, er_decision_reason = gd_reason d,
          er_decision_inputs = gd_decision_inputs d, er_approved_by = nf_approved_by nf,
          er_approved_at = (if present (nf_approved_by nf) then Some (stamp_at 3 env) else None),
          er_payload_hash = ph, er_authorization_hash = ah, er_payload_trust = trust_value (payload_trust a),
          er_input_refs = map input_ref (pa_payload_sources a), er_output_hash = oh,
          er_result_summary = (if nf_detail nf \<noteq> [] then nf_detail nf
             else case nf_result nf of None \<Rightarrow> [] | Some r \<Rightarrow> tr_summary r),
          er_cost_usd = (case nf_result nf of None \<Rightarrow> zero | Some r \<Rightarrow> tr_cost_usd r),
          er_budget_remaining_usd = Some remaining,
          er_dry_run = (case nf_result nf of None \<Rightarrow> hc_dry_run H | Some r \<Rightarrow> tr_dry_run r),
          er_reconciliation_outcome = nf_reconciliation_outcome nf, er_reconciled_by = nf_reconciled_by nf,
          er_reconciled_at = nf_reconciled_at nf, er_reconciliation_note = nf_reconciliation_note nf,
          er_previous_record_hash = [], er_record_hash = [], er_enforcement_basis = basis\<rparr>)))))))"

definition record_evidence ::
  "harness \<Rightarrow> readings \<Rightarrow> action \<Rightarrow> harness_request \<Rightarrow> guardrail_decision \<Rightarrow> result_status
   \<Rightarrow> note_fields \<Rightarrow> evidence_record harness_effect" where
  "record_evidence H env a q d status nf =
     bindA (make_record H env a q d status nf) (\<lambda>r.
       evidence_write (append_evidence (hc_runtime H) (hc_profile H) (stamp_at 4 env) r))"

text \<open>The record as a journal holds it: the object it is written as, read back.\<close>

definition journaled :: "harness \<Rightarrow> evidence_record \<Rightarrow> evidence_record harness_effect" where
  "journaled H r = bindA (contract (evidence_to_dict (hc_runtime H) r)) (\<lambda>(r, _). okA r)"

subsection \<open>Control decisions\<close>

definition control_decision ::
  "harness \<Rightarrow> readings \<Rightarrow> action \<Rightarrow> pystr \<Rightarrow> string \<Rightarrow> (pyval \<times> pyval) list \<Rightarrow> guardrail_decision harness_effect" where
  "control_decision H env a reason policy_id extra =
     bindA (hashed (authorization_hash (hc_runtime H) a)) (\<lambda>ah.
       contract (validate_guardrail_decision (hc_runtime H)
         \<lparr>gd_decision = Block, gd_reason = reason, gd_policy_ids = [lit policy_id],
          gd_policy_version = pe_version (hc_policy H), gd_ruleset_hash = pe_ruleset_hash (hc_policy H),
          gd_approval_scope = [], gd_expires_at = None, gd_redactions = [],
          gd_decision_inputs = PDict
            ([(PStr (lit ''tool_name''), PStr (pa_tool_name a)), (PStr (lit ''target''), PStr (pa_target a)),
              (PStr (lit ''authorization_hash''), PStr ah),
              (PStr (lit ''authority_inputs''), authority_inputs_of (hc_policy H))] @ extra),
          gd_decided_at = stamp_at 5 env\<rparr>))"

definition quoted :: "pystr \<Rightarrow> pystr" where
  "quoted s = [39] @ s @ [39]"

text \<open>The messages of the failures of \<open>validate_action\<close>.\<close>

definition tool_message :: "registry \<Rightarrow> action \<Rightarrow> registry_error \<Rightarrow> pystr" where
  "tool_message reg a e = (case e of
     NotRegistered \<Rightarrow> lit ''tool '' @ quoted (pa_tool_name a) @ lit '' is not registered''
   | SideEffectMismatch \<Rightarrow> lit ''adapter classified '' @ quoted (pa_tool_name a) @ lit '' as ''
       @ quoted (side_effect_value (pa_side_effect_level a)) @ lit '', but the registry declares ''
       @ quoted (case tool_spec_of reg (pa_tool_name a) of None \<Rightarrow> []
           | Some spec \<Rightarrow> side_effect_value (ts_side_effect_level spec))
   | EmptyTarget \<Rightarrow> lit ''workspace file target must be non-empty''
   | OutsideWorkspace \<Rightarrow> lit ''path is outside the approved workspace: '' @ pa_target a
   | NamesNoFile \<Rightarrow> lit ''workspace file target must name a file''
   | ProtectedPath \<Rightarrow> lit ''workspace target overlaps a protected control-plane path''
   | WorkspaceChanged m \<Rightarrow> m
   | _ \<Rightarrow> [])"

definition tool_contract_error :: "harness \<Rightarrow> action \<Rightarrow> pystr" where
  "tool_contract_error H a = (case validate_action (hc_registry H) a of
     Inr _ \<Rightarrow> [] | Inl e \<Rightarrow> tool_message (hc_registry H) a e)"

definition scope_message :: "action \<Rightarrow> pystr" where
  "scope_message a =
     lit ''tool '' @ quoted (pa_tool_name a) @ lit '' is not in this request'' @ [39] @ lit ''s allowed_tools''"

definition out_of_scope :: "action \<Rightarrow> harness_request \<Rightarrow> bool" where
  "out_of_scope a q \<longleftrightarrow> hr_allowed_tools q \<noteq> [] \<and> pa_tool_name a \<notin> set (hr_allowed_tools q)"

definition context_of :: "harness_request \<Rightarrow> pyval" where
  "context_of q = PDict
     [(PStr (lit ''sensitivity''), PStr (sensitivity_value (hr_sensitivity q))),
      (PStr (lit ''task_type''), PStr (hr_task_type q)), (PStr (lit ''workspace_id''), PStr (hr_workspace_id q))]"

definition evaluate_action ::
  "harness \<Rightarrow> readings \<Rightarrow> action \<Rightarrow> harness_request \<Rightarrow> guardrail_decision harness_effect" where
  "evaluate_action H env a q =
     contract (evaluate (hc_runtime H) (hc_text H) (hc_policy H) (stamp_at 6 env) a (Some (context_of q)))"

definition spec_cost :: "harness \<Rightarrow> action \<Rightarrow> decimal" where
  "spec_cost H a = (case tool_spec_of (hc_registry H) (pa_tool_name a) of
     None \<Rightarrow> zero | Some spec \<Rightarrow> ts_cost_estimate_usd spec)"

text \<open>\<open>max(a, b)\<close>, and a cost written with four decimals, ties to even.\<close>

definition dec_max :: "decimal \<Rightarrow> decimal \<Rightarrow> decimal" where
  "dec_max a b = (if dec_lt a b then b else a)"

definition half_even :: "nat \<Rightarrow> nat \<Rightarrow> nat" where
  "half_even c m = (let n = c div m; r = c mod m in
     if m < 2 * r \<or> (2 * r = m \<and> odd n) then n + 1 else n)"

definition fixed4 :: "decimal \<Rightarrow> pystr" where
  "fixed4 d = (case d of
     Fin s c e \<Rightarrow>
       (let n = (if -4 \<le> e then c * 10 ^ nat (e + 4) else half_even c (10 ^ nat (- 4 - e)));
            ds = nat_digits n; padded = replicate (5 - length ds) 48 @ ds
        in (if s then [45] else []) @ take (length padded - 4) padded @ [46] @ drop (length padded - 4) padded)
   | _ \<Rightarrow> [])"

definition budget_message :: "budget_check \<Rightarrow> decimal option \<Rightarrow> pystr" where
  "budget_message c limit = lit ''budget: worst-case estimate $'' @ fixed4 (ck_estimate_usd c) @ (case ck_reason c of
     Some RequestLimit \<Rightarrow> lit '' exceeds this request'' @ [39] @ lit ''s limit $''
       @ (case limit of None \<Rightarrow> [] | Some l \<Rightarrow> fixed4 l)
   | _ \<Rightarrow> lit '' exceeds remaining budget $'' @ fixed4 (ck_remaining_usd c))"

definition optional_decimal :: "decimal option \<Rightarrow> pyval" where
  "optional_decimal v = (case v of None \<Rightarrow> PNone | Some d \<Rightarrow> PDecimal d)"

subsection \<open>Outcomes\<close>

record action_outcome =
  ao_action :: action
  ao_decision :: guardrail_decision
  ao_status :: result_status
  ao_record_id :: pystr
  ao_approval_id :: pystr
  ao_result :: "tool_result option"
  ao_detail :: pystr

definition outcome :: "action \<Rightarrow> guardrail_decision \<Rightarrow> result_status \<Rightarrow> pystr \<Rightarrow> pystr \<Rightarrow> tool_result option \<Rightarrow> pystr
    \<Rightarrow> action_outcome" where
  "outcome a d status record_id approval_id r detail =
     \<lparr>ao_action = a, ao_decision = d, ao_status = status, ao_record_id = record_id,
      ao_approval_id = approval_id, ao_result = r, ao_detail = detail\<rparr>"

definition terminal_outcome ::
  "harness \<Rightarrow> readings \<Rightarrow> action \<Rightarrow> harness_request \<Rightarrow> guardrail_decision \<Rightarrow> result_status
   \<Rightarrow> action_outcome harness_effect" where
  "terminal_outcome H env a q d status =
     bindA (record_evidence H env a q d status (plain_note (gd_reason d))) (\<lambda>r.
       okA (outcome a d status (er_record_id r) [] None (gd_reason d)))"

text \<open>What a caller of the loop is told (\<open>as_tool_outcome\<close>): whether it is an error, and the text.\<close>

definition refused_statuses :: "result_status list" where
  "refused_statuses = [Blocked, RejectedResult, ExpiredResult, Failed, NotExecuted]"

definition as_tool_outcome :: "action_outcome \<Rightarrow> bool \<times> pyval" where
  "as_tool_outcome o' =
     (ao_status o' \<in> set refused_statuses \<or> ao_status o' = PendingApproval,
      if ao_status o' = PendingApproval
      then PStr (lit ''Action held for human approval ('' @ ao_approval_id o' @ lit ''). Reason: ''
             @ gd_reason (ao_decision o'))
      else if ao_status o' \<in> set refused_statuses
      then PStr (lit ''Permission denied by policy: '' @ gd_reason (ao_decision o'))
      else (case ao_result o' of None \<Rightarrow> PStr (lit ''ok'') | Some r \<Rightarrow> tr_output r))"

end
