(* ===== verification/HarnessRecovery.thy ===== *)
theory HarnessRecovery
  imports HarnessState
begin

text \<open>
  The recovery of a journaled operation (\<open>_recover_operation\<close>): the one path on which a prepared
  mutation reaches the stores, taken when it is first carried out and again after a crash. Its steps
  recognise what is already done.
\<close>

definition stored_authority :: "pystr \<Rightarrow> json_object harness_effect" where
  "stored_authority record_id =
     bindA (evidence_read (get_record record_id)) (\<lambda>found. case found of
       None \<Rightarrow> failA UnknownAuthority | Some obj \<Rightarrow> okA obj)"

definition is_terminal_for :: "pystr \<Rightarrow> json_object \<Rightarrow> bool" where
  "is_terminal_for ah obj \<longleftrightarrow>
     field_is ''authorization_hash'' ah obj \<and> is_terminal obj"

definition authorization_terminal :: "pystr \<Rightarrow> pystr \<Rightarrow> json_object option harness_effect" where
  "authorization_terminal action_id ah =
     bindA (evidence_read (by_action action_id)) (\<lambda>objs.
       okA (find (is_terminal_for ah) (rev objs)))"

definition require_same_terminal :: "json_object option \<Rightarrow> pystr \<Rightarrow> unit harness_effect" where
  "require_same_terminal terminal record_id =
     checkA (case terminal of None \<Rightarrow> True | Some obj \<Rightarrow> field_is ''record_id'' record_id obj) ConflictingTerminal"

definition known_approval :: "harness \<Rightarrow> pystr \<Rightarrow> approval harness_effect" where
  "known_approval H k =
     bindA (approval_read (get_approval (hc_runtime H) k)) (\<lambda>found. case found of
       None \<Rightarrow> failA (HarnessApproval UnknownApproval) | Some p \<Rightarrow> okA p)"

definition require_no_approval :: "harness \<Rightarrow> pystr \<Rightarrow> unit harness_effect" where
  "require_no_approval H action_id =
     bindA (approval_read (for_action (hc_runtime H) action_id)) (\<lambda>ps. checkA (ps = []) BelongsToApproval)"

text \<open>\<open>_validate_journaled_approval\<close>.\<close>

definition validate_journaled_approval ::
  "harness \<Rightarrow> pystr \<Rightarrow> pystr \<Rightarrow> pystr \<Rightarrow> decimal \<Rightarrow> unit harness_effect" where
  "validate_journaled_approval H k action_id request_id reserved =
     bindA (known_approval H k) (\<lambda>p.
       checkA (ap_action_id p = action_id \<and> ap_request_id p = request_id \<and> dec_eq (ap_reserved_usd p) reserved)
         ApprovalConflict)"

text \<open>\<open>_require_authorization_reconciliation_identity\<close>.\<close>

definition require_reconciliation_identity ::
  "harness \<Rightarrow> int \<Rightarrow> authorization_subject \<Rightarrow> pystr \<Rightarrow> pystr \<Rightarrow> pystr \<Rightarrow> attestation option \<Rightarrow> unit harness_effect" where
  "require_reconciliation_identity H now subject outc operator remark att =
     liftA (case ac_operator_trust (hc_approvals H) of
       None \<Rightarrow> require (att = None) (HarnessIdentity AttestationRequired)
     | Some T \<Rightarrow> mapErr HarnessIdentity
         (require_authorization_reconciliation (hc_runtime H) T now att subject outc operator remark))"

definition release_if_reserved :: "readings \<Rightarrow> decimal \<Rightarrow> pystr \<Rightarrow> pystr \<Rightarrow> unit harness_effect" where
  "release_if_reserved env reserved request_id action_id =
     (if dec_pos reserved
      then bindA (budget_write (ensure_release (MDecimal reserved) request_id action_id (stamp_at 1 env))) (\<lambda>_. okA ())
      else okA ())"

definition recover_create :: "harness \<Rightarrow> readings \<Rightarrow> approval \<Rightarrow> decimal \<Rightarrow> unit harness_effect" where
  "recover_create H env p reserved =
     bindA (liftA (mapErr HarnessApproval (check_approval (hc_runtime H) p))) (\<lambda>_.
     bindA (if dec_pos reserved
       then budget_step (ensure_reservation (MDecimal reserved) (ap_request_id p) (ap_action_id p)
              (stamp_at 1 env) (stamp_at 2 env))
       else okA ()) (\<lambda>_.
     bindA (approval_write (create_prepared (hc_runtime H) p)) (\<lambda>_. okA ())))"

definition recover_reject ::
  "harness \<Rightarrow> readings \<Rightarrow> pystr \<Rightarrow> pystr \<Rightarrow> pystr \<Rightarrow> decimal \<Rightarrow> pystr \<Rightarrow> pystr \<Rightarrow> attestation option \<Rightarrow> unit harness_effect" where
  "recover_reject H env k action_id request_id reserved decided_by remark att =
     bindA (validate_journaled_approval H k action_id request_id reserved) (\<lambda>_.
     bindA (approval_write (ensure_rejected (hc_runtime H) (hc_approvals H) (clock_at 3 env) k decided_by remark att)) (\<lambda>_.
       release_if_reserved env reserved request_id action_id))"

definition recover_expire ::
  "harness \<Rightarrow> readings \<Rightarrow> pystr \<Rightarrow> pystr \<Rightarrow> pystr \<Rightarrow> decimal \<Rightarrow> unit harness_effect" where
  "recover_expire H env k action_id request_id reserved =
     bindA (validate_journaled_approval H k action_id request_id reserved) (\<lambda>_.
     bindA (approval_write (expire_one (hc_runtime H) (clock_at 3 env) k)) (\<lambda>_.
       release_if_reserved env reserved request_id action_id))"

definition reconcile_input_of ::
  "authorization_subject \<Rightarrow> pystr \<Rightarrow> pystr \<Rightarrow> pystr \<Rightarrow> attestation option \<Rightarrow> reconcile_input" where
  "reconcile_input_of subject outc operator remark att =
     \<lparr>ri_request_id = as_request_id subject, ri_action_id = as_action_id subject, ri_outcome = outc,
      ri_reconciled_by = operator, ri_note = remark, ri_authority_record_id = as_record_id subject,
      ri_authority_record_hash = as_record_hash subject, ri_attestation = map_option json_of att\<rparr>"

definition recover_authorization ::
  "harness \<Rightarrow> readings \<Rightarrow> authorization_subject \<Rightarrow> decimal \<Rightarrow> pystr \<Rightarrow> pystr \<Rightarrow> pystr \<Rightarrow> attestation option
   \<Rightarrow> pystr \<Rightarrow> unit harness_effect" where
  "recover_authorization H env subject reserved outc operator remark att record_id =
     bindA (stored_authority (as_record_id subject)) (\<lambda>obj.
     bindA (liftA (mapErr HarnessIdentity (authorization_subject_of (hc_runtime H) obj))) (\<lambda>found.
     bindA (checkA (found = subject) AuthorityConflict) (\<lambda>_.
     bindA (require_no_approval H (as_action_id subject)) (\<lambda>_.
     bindA (require_reconciliation_identity H (ck_now (clock_at 4 env)) subject outc operator remark att) (\<lambda>_.
     bindA (authorization_terminal (as_action_id subject) (as_authorization_hash subject)) (\<lambda>terminal.
     bindA (require_same_terminal terminal record_id) (\<lambda>_.
     bindA (budget_write (reconcile_reservation (MDecimal reserved)
         (reconcile_input_of subject outc operator remark att) (stamp_at 1 env) (stamp_at 2 env))) (\<lambda>_.
       okA ()))))))))"

text \<open>The approval of a known tool result, when it has one.\<close>

definition completing_approval ::
  "harness \<Rightarrow> readings \<Rightarrow> completion_subject \<Rightarrow> pystr \<Rightarrow> pystr \<Rightarrow> unit harness_effect" where
  "completing_approval H env x approval_id record_id =
     (if approval_id = [] then require_no_approval H (xs_action_id x)
      else bindA (known_approval H approval_id) (\<lambda>p.
        bindA (checkA (ap_action_id p = xs_action_id x \<and> ap_request_id p = xs_request_id x
          \<and> ap_authorization_hash p = xs_authorization_hash x) ApprovalConflict) (\<lambda>_.
        bindA (checkA (ap_status p \<in> {Executing, Consumed}) NotRecoverable) (\<lambda>_.
        bindA (checkA (\<not> (ap_status p = Consumed \<and> ap_execution_record_id p \<noteq> record_id)) NotRecoverable) (\<lambda>_.
        bindA (checkA (ap_reconciliation_outcome p = []) NotRecoverable) (\<lambda>_.
          checkA (ac_operator_trust (hc_approvals H) = None
              \<or> is_ok (decision_identity (hc_runtime H) (hc_approvals H) (ck_now (clock_at 4 env)) p))
            (HarnessIdentity AttestationMismatch)))))))"

definition recover_completion ::
  "harness \<Rightarrow> readings \<Rightarrow> completion_subject \<Rightarrow> pystr \<Rightarrow> decimal \<Rightarrow> decimal \<Rightarrow> disposition \<Rightarrow> evidence_record
   \<Rightarrow> unit harness_effect" where
  "recover_completion H env x approval_id reserved actual disp r =
     bindA (stored_authority (xs_record_id x)) (\<lambda>obj.
     bindA (liftA (mapErr HarnessJournal (completion_subject_of obj))) (\<lambda>found.
     bindA (checkA (found = x) AuthorityConflict) (\<lambda>_.
     bindA (completing_approval H env x approval_id (er_record_id r)) (\<lambda>_.
     bindA (authorization_terminal (xs_action_id x) (xs_authorization_hash x)) (\<lambda>terminal.
     bindA (require_same_terminal terminal (er_record_id r)) (\<lambda>_.
     bindA (case disp of
         SettleBudget \<Rightarrow> bindA (budget_write (ensure_settlement (MDecimal reserved) (MDecimal actual)
             (xs_request_id x) (xs_action_id x) (er_record_id r) (stamp_at 1 env))) (\<lambda>_. okA ())
       | NoBudget \<Rightarrow> bindA (budget_read (reservation_for (xs_action_id x))) (\<lambda>live.
             checkA (\<not> dec_pos live) LiveReservation)) (\<lambda>_.
     bindA (evidence_write (append_idempotent (hc_runtime H) (hc_profile H) (stamp_at 5 env) r)) (\<lambda>_.
       if approval_id = [] then okA ()
       else bindA (approval_write (ensure_consumed (hc_runtime H) (clock_at 3 env) approval_id (er_record_id r)))
         (\<lambda>_. okA ())))))))))"

text \<open>The store mutations of an operation, up to and with its evidence.\<close>

definition apply_payload :: "harness \<Rightarrow> readings \<Rightarrow> journal_payload \<Rightarrow> evidence_record \<Rightarrow> unit harness_effect" where
  "apply_payload H env p r =
     (let finish = (\<lambda>_. bindA (evidence_write (append_idempotent (hc_runtime H) (hc_profile H) (stamp_at 5 env) r))
            (\<lambda>_. okA ()))
      in case p of
        ApprovalCreate a reserved _ \<Rightarrow> bindA (recover_create H env a reserved) finish
      | ApprovalReject k aid qid reserved by remark att _ \<Rightarrow>
          bindA (recover_reject H env k aid qid reserved by remark att) finish
      | ApprovalExpire k aid qid reserved _ \<Rightarrow> bindA (recover_expire H env k aid qid reserved) finish
      | AuthorizationReconcile subject reserved outc by remark att _ \<Rightarrow>
          bindA (recover_authorization H env subject reserved outc by remark att (er_record_id r)) finish
      | ExecutionComplete x approval_id reserved actual disp _ \<Rightarrow>
          recover_completion H env x approval_id reserved actual disp r)"

definition recover_prepared :: "harness \<Rightarrow> readings \<Rightarrow> journal_operation \<Rightarrow> unit harness_effect" where
  "recover_prepared H env op =
     bindA (resultA (\<lambda>s. require (cs_ok (verify (hc_runtime H) (es_lines (hn_evidence s)))) BrokenEvidence)) (\<lambda>_.
     bindA (contract (validate_evidence (hc_runtime H) (jp_evidence (jo_payload op)))) (\<lambda>r.
     bindA (checkA (er_record_hash r = [] \<and> er_previous_record_hash r = []) PreparedRecordSealed) (\<lambda>_.
     bindA (apply_payload H env (jo_payload op) r) (\<lambda>_.
       journal_write (complete_operation (hc_runtime H) (jo_operation_id op))))))"

definition recover_operation :: "harness \<Rightarrow> readings \<Rightarrow> journal_operation option harness_effect" where
  "recover_operation H env =
     bindA (resultA (\<lambda>s. mapErr HarnessJournal (active_operation (hc_runtime H) (hn_journal s)))) (\<lambda>active.
       case active of
         None \<Rightarrow> okA None
       | Some op \<Rightarrow> bindA (recover_prepared H env op) (\<lambda>_. okA (Some op)))"

text \<open>Journal an operation, then carry it out.\<close>

definition carry_out :: "harness \<Rightarrow> readings \<Rightarrow> journal_payload \<Rightarrow> unit harness_effect" where
  "carry_out H env p =
     bindA (journal_write (prepare_operation (hc_runtime H) (stamp_at 6 env) (new_id ''op'' 7 env) p)) (\<lambda>op.
       recover_prepared H (inside 8 env) op)"

end
