(* ===== verification/Harness.thy ===== *)
theory Harness
  imports HarnessRecovery
begin

text \<open>
  The entry points of the control loop (\<open>orchestrator/harness.py\<close>). Each first recovers a journaled
  operation. The clock readings and new identifiers of a call come in as its \<open>readings\<close>, one place
  for every use.
\<close>

subsection \<open>Tools\<close>

definition put_tools :: "(tool_state, registry_error, 'a) effect \<Rightarrow> 'a harness_effect" where
  "put_tools m s = (case m (hn_tools s) of (r, t) \<Rightarrow> (mapErr HarnessTool r, s\<lparr>hn_tools := t\<rparr>))"

definition run_tool :: "harness \<Rightarrow> action \<Rightarrow> capability_grant \<Rightarrow> tool_result harness_effect" where
  "run_tool H a g =
     bindA (writeA (\<lambda>s. s\<lparr>hn_tools := (hn_tools s)\<lparr>tl_grant := Some g\<rparr>\<rparr>)) (\<lambda>_.
       put_tools (execute_tool (hc_runtime H) (hc_registry H) a (Some (hc_dry_run H))))"

subsection \<open>Completion\<close>

definition actual_cost :: "tool_result \<Rightarrow> decimal \<Rightarrow> decimal" where
  "actual_cost r estimate = (if tr_dry_run r then zero else if dec_pos (tr_cost_usd r) then tr_cost_usd r else estimate)"

text \<open>\<open>_complete_known_result\<close>, giving the record and the sealed result.\<close>

definition complete_known_result ::
  "harness \<Rightarrow> readings \<Rightarrow> json_object \<Rightarrow> action \<Rightarrow> harness_request \<Rightarrow> guardrail_decision \<Rightarrow> tool_result \<Rightarrow> decimal
   \<Rightarrow> pystr option \<Rightarrow> pystr \<Rightarrow> (evidence_record \<times> tool_result) harness_effect" where
  "complete_known_result H env obj a q d r estimate approved_by approval_id =
     bindA (liftA (mapErr HarnessTool (validate_result_fields r))) (\<lambda>_.
     let actual = actual_cost r estimate;
         disp = (if dec_pos estimate \<or> dec_pos actual then SettleBudget else NoBudget) in
     bindA (liftA (mapErr HarnessTool (seal_result (hc_runtime H) (r\<lparr>tr_cost_usd := actual\<rparr>)))) (\<lambda>r.
     let status = (if tr_status r = lit ''succeeded'' then Succeeded else Failed) in
     bindA (budget_read (case disp of
         SettleBudget \<Rightarrow> preview_settlement (MDecimal estimate) (MDecimal actual) (hr_request_id q) (pa_action_id a)
       | NoBudget \<Rightarrow> balance_of)) (\<lambda>remaining.
     bindA (make_record H (inside 1 env) a q d status
        ((plain_note (tr_summary r))\<lparr>nf_approved_by := approved_by, nf_result := Some r,
           nf_budget_remaining_usd := Some remaining\<rparr>)) (\<lambda>record.
     bindA (liftA (mapErr HarnessJournal (completion_subject_of obj))) (\<lambda>x.
     bindA (journaled H record) (\<lambda>record.
     bindA (carry_out H (inside 2 env) (ExecutionComplete x approval_id estimate actual disp record)) (\<lambda>_.
       okA (record, r))))))))"

subsection \<open>Execution\<close>

definition authorized_note :: "pystr option \<Rightarrow> string \<Rightarrow> note_fields" where
  "authorized_note approved_by detail = (plain_note (lit detail))\<lparr>nf_approved_by := approved_by\<rparr>"

definition authorize_external ::
  "harness \<Rightarrow> readings \<Rightarrow> action \<Rightarrow> harness_request \<Rightarrow> guardrail_decision \<Rightarrow> pystr option \<Rightarrow> pystr
   \<Rightarrow> action_outcome harness_effect" where
  "authorize_external H env a q d approved_by approval_id =
     bindA (record_evidence H env a q d Skipped
        (authorized_note approved_by ''authorized; external execution pending'')) (\<lambda>r.
       okA (outcome a d Skipped (er_record_id r) approval_id None (lit ''authorized; external execution pending'')))"

text \<open>\<open>_execute\<close>: seal the authorization, run the tool under a grant bound to it, complete.\<close>

definition execute_action ::
  "harness \<Rightarrow> readings \<Rightarrow> action \<Rightarrow> harness_request \<Rightarrow> guardrail_decision \<Rightarrow> decimal \<Rightarrow> pystr option \<Rightarrow> pystr
   \<Rightarrow> action_outcome harness_effect" where
  "execute_action H env a q d estimate approved_by approval_id =
     bindA (record_evidence H (inside 1 env) a q d Skipped
        (authorized_note approved_by ''authorized; execution pending'')) (\<lambda>auth.
     bindA (liftA (mapErr HarnessTool
        (authorize (hc_runtime H) (hc_registry H) (stamp_at 2 env) (new_id ''grant'' 2 env) a auth))) (\<lambda>g.
     bindA (run_tool H a g) (\<lambda>r.
     bindA (contract (evidence_to_dict (hc_runtime H) auth)) (\<lambda>(_, obj).
     bindA (complete_known_result H (inside 3 env) obj a q d r estimate approved_by approval_id) (\<lambda>(final, r).
       okA (outcome a d (er_result_status final) (er_record_id final) approval_id (Some r) (tr_summary r)))))))"

subsection \<open>Held contracts and decisions\<close>

definition held_part :: "(approval_error, 'a) result \<Rightarrow> 'a harness_effect" where
  "held_part r = liftA (mapErr HarnessApproval r)"

definition held_contracts ::
  "harness \<Rightarrow> approval \<Rightarrow> (action \<times> harness_request \<times> guardrail_decision) harness_effect" where
  "held_contracts H p =
     bindA (held_part (held_action p)) (\<lambda>a.
     bindA (contract (seal_fingerprints (hc_runtime H) a)) (\<lambda>a.
     bindA (held_part (held_request p)) (\<lambda>q.
     bindA (contract (validate_request (hc_runtime H) q)) (\<lambda>q.
     bindA (held_part (held_decision p)) (\<lambda>d. okA (a, q, d))))))"

definition blocked_outcome ::
  "harness \<Rightarrow> readings \<Rightarrow> action \<Rightarrow> harness_request \<Rightarrow> pystr \<Rightarrow> string \<Rightarrow> (pyval \<times> pyval) list
   \<Rightarrow> action_outcome harness_effect" where
  "blocked_outcome H env a q reason policy_id extra =
     bindA (control_decision H (inside 1 env) a reason policy_id extra) (\<lambda>d.
       terminal_outcome H (inside 2 env) a q d Blocked)"

text \<open>\<open>_resume_decision\<close>.\<close>

definition resume_decision ::
  "harness \<Rightarrow> readings \<Rightarrow> action \<Rightarrow> harness_request \<Rightarrow> guardrail_decision harness_effect" where
  "resume_decision H env a q =
     (if tool_contract_error H a \<noteq> [] then control_decision H env a (tool_contract_error H a) ''tool_contract'' []
      else if out_of_scope a q then control_decision H env a (scope_message a) ''request_scope'' []
      else evaluate_action H env a q)"

definition current_decision ::
  "harness \<Rightarrow> readings \<Rightarrow> action \<Rightarrow> harness_request \<Rightarrow> guardrail_decision \<Rightarrow> guardrail_decision harness_effect" where
  "current_decision H env a q d =
     (if gd_ruleset_hash d \<noteq> pe_ruleset_hash (hc_policy H)
      then control_decision H env a
        (lit ''loaded policy ruleset differs from the ruleset that created this approval; explicit re-proposal is required'')
        ''policy_changed''
        [(PStr (lit ''approved_ruleset_hash''), PStr (gd_ruleset_hash d)),
         (PStr (lit ''current_ruleset_hash''), PStr (pe_ruleset_hash (hc_policy H)))]
      else resume_decision H env a q)"

definition release_reservation :: "readings \<Rightarrow> approval \<Rightarrow> unit harness_effect" where
  "release_reservation env p =
     bindA (budget_read (reservation_for (ap_action_id p))) (\<lambda>live.
       if dec_pos live
       then bindA (budget_write (release (ap_request_id p) (ap_action_id p) (stamp_at 1 env))) (\<lambda>_. okA ())
       else okA ())"

text \<open>A resumed action that the current rules block: its approval is consumed by the refusal.\<close>

definition finish_blocked ::
  "harness \<Rightarrow> readings \<Rightarrow> approval \<Rightarrow> action \<Rightarrow> harness_request \<Rightarrow> guardrail_decision \<Rightarrow> pystr option
   \<Rightarrow> action_outcome harness_effect" where
  "finish_blocked H env p a q d approved_by =
     bindA (release_reservation (inside 1 env) p) (\<lambda>_.
     bindA (record_evidence H (inside 2 env) a q d Blocked
        ((plain_note (gd_reason d))\<lparr>nf_approved_by := approved_by\<rparr>)) (\<lambda>r.
     bindA (approval_write (mark_consumed (hc_runtime H) (clock_at 3 env) (ap_approval_id p) (er_record_id r))) (\<lambda>_.
       okA (outcome a d Blocked (er_record_id r) (ap_approval_id p) None (gd_reason d)))))"

subsection \<open>Expired approvals\<close>

definition expire_held ::
  "harness \<Rightarrow> readings \<Rightarrow> approval \<Rightarrow> action \<Rightarrow> harness_request \<Rightarrow> guardrail_decision
   \<Rightarrow> action_outcome option harness_effect" where
  "expire_held H env p a q d =
     bindA (budget_read balance_of) (\<lambda>balance.
     bindA (make_record H (inside 1 env) a q d ExpiredResult
        ((plain_note (lit ''approval expired at '' @ ap_expires_at p))
           \<lparr>nf_budget_remaining_usd := Some (dec_add balance (ap_reserved_usd p))\<rparr>)) (\<lambda>record.
     bindA (journaled H record) (\<lambda>record.
     bindA (carry_out H (inside 2 env) (ApprovalExpire (ap_approval_id p) (ap_action_id p) (ap_request_id p)
        (ap_reserved_usd p) record)) (\<lambda>_.
       okA (Some (outcome a d ExpiredResult (er_record_id record) (ap_approval_id p) None (lit ''approval expired'')))))))"

text \<open>An approval without its contracts is left as it is.\<close>

definition expire_approval :: "harness \<Rightarrow> readings \<Rightarrow> approval \<Rightarrow> action_outcome option harness_effect" where
  "expire_approval H env p = (case held_action p of
     Inl _ \<Rightarrow> okA None
   | Inr a \<Rightarrow> bindA (contract (seal_fingerprints (hc_runtime H) a)) (\<lambda>a. case held_request p of
       Inl _ \<Rightarrow> okA None
     | Inr q \<Rightarrow> bindA (contract (validate_request (hc_runtime H) q)) (\<lambda>q. case held_decision p of
         Inl _ \<Rightarrow> okA None
       | Inr d \<Rightarrow> expire_held H env p a q d)))"

fun expire_each :: "harness \<Rightarrow> readings \<Rightarrow> nat \<Rightarrow> approval list \<Rightarrow> action_outcome option list harness_effect" where
  "expire_each H env n [] = okA []"
| "expire_each H env n (p # ps) =
     bindA (expire_approval H (inside n env) p) (\<lambda>x.
     bindA (expire_each H env (n + 1) ps) (\<lambda>xs. okA (x # xs)))"

definition reconcile_expired_approvals :: "harness \<Rightarrow> readings \<Rightarrow> action_outcome list harness_effect" where
  "reconcile_expired_approvals H env =
     bindA (recover_operation H (inside 1 env)) (\<lambda>_.
     bindA (require_safe H) (\<lambda>_.
     bindA (approval_read (due (hc_runtime H) (ck_now (clock_at 2 env)))) (\<lambda>ps.
     bindA (expire_each H (inside 3 env) 0 ps) (\<lambda>found. okA (List.map_filter (\<lambda>x. x) found)))))"

subsection \<open>A proposed action\<close>

text \<open>The approval branch of \<open>_handle\<close>.\<close>

definition hold_for_approval ::
  "harness \<Rightarrow> readings \<Rightarrow> action \<Rightarrow> harness_request \<Rightarrow> guardrail_decision \<Rightarrow> decimal \<Rightarrow> pystr \<Rightarrow> pystr
   \<Rightarrow> action_outcome harness_effect" where
  "hold_for_approval H env a q d estimate owner key =
     bindA (held_part (prepare (hc_runtime H) (hc_approvals H) (clock_at 1 env) (new_id ''apr'' 2 env) a
        (gd_reason d) (gd_approval_scope d) (gd_policy_ids d) None (Some q) (Some d) (MDecimal estimate) owner key)) (\<lambda>p.
     bindA (budget_read balance_of) (\<lambda>balance.
     bindA (make_record H (inside 3 env) a q d PendingApproval
        ((plain_note (lit ''held for approval '' @ ap_approval_id p))
           \<lparr>nf_budget_remaining_usd := Some (dec_sub balance estimate)\<rparr>)) (\<lambda>record.
     bindA (journaled H record) (\<lambda>record.
     bindA (carry_out H (inside 4 env) (ApprovalCreate p (ap_reserved_usd p) record)) (\<lambda>_.
       okA (outcome a d PendingApproval (er_record_id record) (ap_approval_id p) None (gd_reason d)))))))"

text \<open>The budget of the request; a refusal is the decision that says so.\<close>

definition over_budget ::
  "harness \<Rightarrow> harness_request \<Rightarrow> decimal \<Rightarrow> (pystr \<times> (pyval \<times> pyval) list) option harness_effect" where
  "over_budget H q estimate =
     (if \<not> dec_pos estimate then okA None
      else bindA (budget_read (preflight (MDecimal estimate) (map_option MDecimal (hr_budget_limit_usd q)))) (\<lambda>c.
        if ck_ok c then okA None
        else okA (Some (budget_message c (hr_budget_limit_usd q),
          [(PStr (lit ''estimate_usd''), PDecimal (ck_estimate_usd c)),
           (PStr (lit ''remaining_usd''), PDecimal (ck_remaining_usd c)),
           (PStr (lit ''request_limit_usd''), optional_decimal (hr_budget_limit_usd q))]))))"

text \<open>The end of \<open>_handle\<close>, once nothing stands against the action.\<close>

definition proceed ::
  "harness \<Rightarrow> readings \<Rightarrow> action \<Rightarrow> harness_request \<Rightarrow> guardrail_decision \<Rightarrow> decimal \<Rightarrow> pystr \<Rightarrow> pystr \<Rightarrow> bool
   \<Rightarrow> action_outcome harness_effect" where
  "proceed H env a q d estimate owner key external =
     (if gd_decision d = ApprovalRequired then hold_for_approval H (inside 1 env) a q d estimate owner key
      else bindA (if dec_pos estimate
          then budget_step (reserve (MDecimal estimate) (hr_request_id q) (pa_action_id a)
                 (stamp_at 2 env) (stamp_at 3 env))
          else okA ()) (\<lambda>_.
        if external then authorize_external H (inside 4 env) a q d None []
        else execute_action H (inside 4 env) a q d estimate None []))"

definition propose ::
  "harness \<Rightarrow> readings \<Rightarrow> action \<Rightarrow> harness_request \<Rightarrow> pystr \<Rightarrow> pystr \<Rightarrow> bool \<Rightarrow> action_outcome harness_effect" where
  "propose H env a q owner key external =
     (if tool_contract_error H a \<noteq> []
      then blocked_outcome H (inside 1 env) a q (tool_contract_error H a) ''tool_contract'' []
      else if out_of_scope a q
      then blocked_outcome H (inside 1 env) a q (scope_message a) ''request_scope''
        [(PStr (lit ''allowed_tools''), PList (map PStr (hr_allowed_tools q)))]
      else bindA (evaluate_action H (inside 5 env) a q) (\<lambda>d.
        if gd_decision d = Block then terminal_outcome H (inside 2 env) a q d Blocked
        else let estimate = dec_max (pa_estimated_cost_usd a) (spec_cost H a) in
          bindA (over_budget H q estimate) (\<lambda>refused. case refused of
            Some (message, inputs) \<Rightarrow> blocked_outcome H (inside 3 env) a q message ''budget_limit'' inputs
          | None \<Rightarrow> proceed H (inside 4 env) a q d estimate owner key external)))"

definition handle_action ::
  "harness \<Rightarrow> readings \<Rightarrow> action \<Rightarrow> harness_request \<Rightarrow> pystr \<Rightarrow> pystr \<Rightarrow> bool \<Rightarrow> action_outcome harness_effect" where
  "handle_action H env a q owner key external =
     bindA (contract (validate_request (hc_runtime H) q)) (\<lambda>q.
     bindA (contract (seal_fingerprints (hc_runtime H) a)) (\<lambda>a.
     bindA (recover_operation H (inside 1 env)) (\<lambda>_.
     bindA (reconcile_expired_approvals H (inside 2 env)) (\<lambda>_.
     bindA (require_safe H) (\<lambda>_.
     bindA (evidence_read (first_by_action (pa_action_id a))) (\<lambda>prior.
     bindA (contract (basis_of H prior)) (\<lambda>basis.
     bindA (remember_action_basis (pa_action_id a) basis) (\<lambda>_.
       if prior \<noteq> None
       then blocked_outcome H (inside 3 env) a q (lit ''duplicate action_id; replay refused'') ''duplicate_action'' []
       else propose H (inside 4 env) a q owner key external))))))))"

text \<open>\<open>handle_call\<close> and \<open>preflight_external_call\<close>, once the adapter has made the action.\<close>

definition handle ::
  "harness \<Rightarrow> readings \<Rightarrow> action \<Rightarrow> harness_request \<Rightarrow> pystr \<Rightarrow> pystr \<Rightarrow> bool \<Rightarrow> action_outcome harness_effect" where
  "handle H env a q owner key external =
     bindA (require_execution_enabled H) (\<lambda>_. handle_action H env a q owner key external)"

end
