(* ===== verification/HarnessResume.thy ===== *)
theory HarnessResume
  imports Harness
begin

text \<open>
  The entry points that take up an action again (\<open>orchestrator/harness.py\<close>): the resumption of an
  approval, the completion of an external tool, and the reconciliation of an execution or an
  authorization whose outcome is uncertain.
\<close>

subsection \<open>Resumption of an approval\<close>

text \<open>What every resumption does first, and the approval it is about.\<close>

definition settle_and_get :: "harness \<Rightarrow> readings \<Rightarrow> pystr \<Rightarrow> approval harness_effect" where
  "settle_and_get H env k =
     bindA (recover_operation H (inside 1 env)) (\<lambda>_.
     bindA (reconcile_expired_approvals H (inside 2 env)) (\<lambda>_.
     bindA (require_safe H) (\<lambda>_. known_approval H k)))"

definition resume_external :: "harness \<Rightarrow> readings \<Rightarrow> pystr \<Rightarrow> action_outcome harness_effect" where
  "resume_external H env k =
     bindA (require_execution_enabled H) (\<lambda>_.
     bindA (settle_and_get H (inside 1 env) k) (\<lambda>p.
     bindA (checkA (ap_status p = Approved) NotResumable) (\<lambda>_.
     bindA (held_contracts H p) (\<lambda>(a, q, d0).
     bindA (current_decision H (inside 2 env) a q d0) (\<lambda>d.
     bindA (approval_effect (begin_execution (hc_runtime H) (hc_approvals H) (clock_at 3 env) k a)) (\<lambda>_.
       if gd_decision d = Block then finish_blocked H (inside 4 env) p a q d (ap_decided_by p)
       else authorize_external H (inside 5 env) a q d (ap_decided_by p) k))))))"

text \<open>\<open>resume\<close> with a refusal, and with an approval.\<close>

definition resume_rejected ::
  "harness \<Rightarrow> readings \<Rightarrow> approval \<Rightarrow> action \<Rightarrow> harness_request \<Rightarrow> guardrail_decision \<Rightarrow> pystr \<Rightarrow> pystr
   \<Rightarrow> attestation option \<Rightarrow> action_outcome harness_effect" where
  "resume_rejected H env p a q d0 decided_by remark att =
     bindA (approval_read (validate_decision (hc_runtime H) (hc_approvals H) (ck_now (clock_at 1 env))
        (ap_approval_id p) False decided_by remark att)) (\<lambda>(operator, remark).
     bindA (budget_read balance_of) (\<lambda>balance.
     bindA (make_record H (inside 2 env) a q d0 RejectedResult
        ((plain_note (if remark \<noteq> [] then remark else lit ''rejected by human reviewer''))
           \<lparr>nf_approved_by := Some operator,
            nf_budget_remaining_usd := Some (dec_add balance (ap_reserved_usd p))\<rparr>)) (\<lambda>record.
     bindA (journaled H record) (\<lambda>record.
     bindA (carry_out H (inside 3 env) (ApprovalReject (ap_approval_id p) (ap_action_id p) (ap_request_id p)
        (ap_reserved_usd p) operator remark att record)) (\<lambda>_.
       okA (outcome a d0 RejectedResult (er_record_id record) (ap_approval_id p) None (lit ''rejected'')))))))"

definition resume_approved ::
  "harness \<Rightarrow> readings \<Rightarrow> approval \<Rightarrow> action \<Rightarrow> harness_request \<Rightarrow> guardrail_decision \<Rightarrow> pystr
   \<Rightarrow> action_outcome harness_effect" where
  "resume_approved H env p a q d0 decided_by =
     bindA (current_decision H (inside 1 env) a q d0) (\<lambda>d.
     bindA (approval_effect (begin_execution (hc_runtime H) (hc_approvals H) (clock_at 2 env)
        (ap_approval_id p) a)) (\<lambda>_.
       if gd_decision d = Block then finish_blocked H (inside 3 env) p a q d (Some decided_by)
       else bindA (budget_read (reservation_for (pa_action_id a))) (\<lambda>estimate.
         execute_action H (inside 4 env) a q d estimate (Some decided_by) (ap_approval_id p))))"

definition resume ::
  "harness \<Rightarrow> readings \<Rightarrow> pystr \<Rightarrow> bool \<Rightarrow> pystr \<Rightarrow> pystr \<Rightarrow> attestation option \<Rightarrow> action_outcome harness_effect" where
  "resume H env k approved decided_by remark att =
     bindA (if approved then require_execution_enabled H else okA ()) (\<lambda>_.
     bindA (settle_and_get H (inside 1 env) k) (\<lambda>p.
     bindA (checkA (ap_status p \<in> {Pending, Approved}) NotResumable) (\<lambda>_.
     bindA (held_contracts H p) (\<lambda>(a, q, d0).
       if approved
       then bindA (if ap_status p = Pending
             then approval_write (decide (hc_runtime H) (hc_approvals H) (clock_at 2 env) k True decided_by remark att)
             else okA p) (\<lambda>p.
           resume_approved H (inside 3 env) p a q d0 decided_by)
       else bindA (checkA (ap_status p = Pending) NotRejectable) (\<lambda>_.
           resume_rejected H (inside 4 env) p a q d0 decided_by remark att)))))"

subsection \<open>Completion of an external tool\<close>

definition is_authorization_of :: "pystr \<Rightarrow> json_object \<Rightarrow> bool" where
  "is_authorization_of ah obj \<longleftrightarrow>
     field_is ''result_status'' (status_value Skipped) obj \<and> field_is ''authorization_hash'' ah obj"

definition has_outcome :: "json_object \<Rightarrow> bool" where
  "has_outcome obj \<longleftrightarrow> list_ex (\<lambda>st. field_is ''result_status'' (status_value st) obj)
     [Succeeded, Failed, Blocked, RejectedResult, ExpiredResult]"

text \<open>The approval an external execution belongs to, and who decided it.\<close>

definition external_approval :: "harness \<Rightarrow> pystr \<Rightarrow> action \<Rightarrow> pystr \<Rightarrow> pystr option harness_effect" where
  "external_approval H k a ah =
     (if k = [] then okA None
      else bindA (known_approval H k) (\<lambda>p.
        bindA (checkA (ap_status p = Executing) NotResumable) (\<lambda>_.
        bindA (checkA (ap_reconciliation_outcome p = []) NotResumable) (\<lambda>_.
        bindA (checkA (ap_action_id p = pa_action_id a \<and> ap_authorization_hash p = ah) ApprovalConflict) (\<lambda>_.
          okA (ap_decided_by p))))))"

definition complete_external_call ::
  "harness \<Rightarrow> readings \<Rightarrow> action \<Rightarrow> harness_request \<Rightarrow> guardrail_decision \<Rightarrow> pyval \<Rightarrow> pystr
   \<Rightarrow> action_outcome harness_effect" where
  "complete_external_call H env a q d response k =
     bindA (require_execution_enabled H) (\<lambda>_.
     bindA (recover_operation H (inside 1 env)) (\<lambda>_.
     bindA (require_safe H) (\<lambda>_.
     bindA (contract (validate_request (hc_runtime H) q)) (\<lambda>q.
     bindA (contract (seal_fingerprints (hc_runtime H) a)) (\<lambda>a.
     bindA (hashed (authorization_hash (hc_runtime H) a)) (\<lambda>ah.
     bindA (evidence_read (by_action (pa_action_id a))) (\<lambda>objs.
       case find (is_authorization_of ah) (rev objs) of
         None \<Rightarrow> failA NoSealedAuthorization
       | Some obj \<Rightarrow>
           bindA (contract (basis_of H (Some (hd objs)))) (\<lambda>basis.
           bindA (remember_action_basis (pa_action_id a) basis) (\<lambda>_.
           bindA (checkA (field_is ''request_id'' (hr_request_id q) obj
             \<and> field_is ''decision'' (decision_value (gd_decision d)) obj
             \<and> field_is ''ruleset_hash'' (gd_ruleset_hash d) obj) ExternalMismatch) (\<lambda>_.
           bindA (checkA (\<not> list_ex has_outcome objs) AlreadyTerminal) (\<lambda>_.
           bindA (liftA (mapErr HarnessTool (new_result (hc_runtime H) (lit ''succeeded'')
              (lit ''external tool '' @ pa_tool_name a @ lit '' completed'') response zero False))) (\<lambda>r.
           bindA (external_approval H k a ah) (\<lambda>approved_by.
           bindA (budget_read (reservation_for (pa_action_id a))) (\<lambda>estimate.
           bindA (complete_known_result H (inside 2 env) obj a q d r estimate approved_by k) (\<lambda>(record, r).
             okA (outcome a d Succeeded (er_record_id record) k (Some r) (tr_summary r)))))))))))))))))"

subsection \<open>Reconciliation of an execution\<close>

definition observed_outcome :: "json_object \<Rightarrow> pystr" where
  "observed_outcome obj =
     (if field_is ''result_status'' (status_value Succeeded) obj then lit ''succeeded''
      else if field_is ''result_status'' (status_value Failed) obj then lit ''failed''
      else lit ''not_executed'')"

definition status_of :: "json_object \<Rightarrow> result_status harness_effect" where
  "status_of obj = (case member_of status_value all_statuses (text_of (obj_get ''result_status'' obj)) of
     None \<Rightarrow> failA InvalidInput | Some st \<Rightarrow> okA st)"

text \<open>The evidence of the outcome, unless there is one already.\<close>

definition reconciled_result :: "harness \<Rightarrow> pystr \<Rightarrow> reconciliation \<Rightarrow> tool_result option harness_effect" where
  "reconciled_result H outc rc =
     (if outc = lit ''not_executed'' then okA None
      else bindA (liftA (mapErr HarnessTool (new_result (hc_runtime H) outc
          (lit ''operator reconciled an uncertain execution as '' @ outc)
          (PDict [(PStr (lit ''operator_reconciled''), PBool True)]) (rc_charged_usd rc) False)))
        (\<lambda>r. okA (Some r)))"

definition reconciled_evidence ::
  "harness \<Rightarrow> readings \<Rightarrow> approval \<Rightarrow> action \<Rightarrow> harness_request \<Rightarrow> guardrail_decision \<Rightarrow> pystr \<Rightarrow> reconciliation
   \<Rightarrow> (pystr \<times> result_status) harness_effect" where
  "reconciled_evidence H env p a q d outc rc = (case outcome_status outc of
     None \<Rightarrow> failA InvalidInput
   | Some status \<Rightarrow>
       bindA (reconciled_result H outc rc) (\<lambda>r.
       bindA (record_evidence H env a q d status
          ((plain_note (lit ''operator reconciliation: '' @ outc @ lit ''; budget '' @ rc_disposition rc))
             \<lparr>nf_approved_by := ap_decided_by p, nf_result := r, nf_reconciliation_outcome := outc,
              nf_reconciled_by := ap_reconciled_by p, nf_reconciled_at := ap_reconciliation_started_at p,
              nf_reconciliation_note := ap_reconciliation_note p\<rparr>)) (\<lambda>rec.
         okA (er_record_id rec, er_result_status rec))))"

definition reconcile_execution ::
  "harness \<Rightarrow> readings \<Rightarrow> pystr \<Rightarrow> pystr \<Rightarrow> pystr \<Rightarrow> pystr \<Rightarrow> attestation option \<Rightarrow> action_outcome harness_effect" where
  "reconcile_execution H env k outc operator remark att =
     bindA (recover_operation H (inside 1 env)) (\<lambda>_.
     bindA (require_safe H) (\<lambda>_.
     bindA (known_approval H k) (\<lambda>p0.
     bindA (held_part (held_action p0)) (\<lambda>a.
     bindA (contract (seal_fingerprints (hc_runtime H) a)) (\<lambda>a.
     bindA (hashed (authorization_hash (hc_runtime H) a)) (\<lambda>ah.
     bindA (authorization_terminal (pa_action_id a) ah) (\<lambda>terminal.
     bindA (checkA (case terminal of None \<Rightarrow> True | Some obj \<Rightarrow> observed_outcome obj = outc) OutcomeConflict) (\<lambda>_.
     bindA (approval_write (begin_reconciliation (hc_runtime H) (hc_approvals H) (clock_at 2 env)
        k outc operator remark att)) (\<lambda>p.
     bindA (held_part (held_request p)) (\<lambda>q.
     bindA (contract (validate_request (hc_runtime H) q)) (\<lambda>q.
     bindA (held_part (held_decision p)) (\<lambda>d.
     bindA (budget_write (reconcile_reservation (MDecimal (ap_reserved_usd p))
        \<lparr>ri_request_id = ap_request_id p, ri_action_id = ap_action_id p, ri_outcome = outc,
         ri_reconciled_by = ap_reconciled_by p, ri_note = ap_reconciliation_note p,
         ri_authority_record_id = [], ri_authority_record_hash = [], ri_attestation = None\<rparr>
        (stamp_at 3 env) (stamp_at 4 env))) (\<lambda>rc.
     bindA (case terminal of
         None \<Rightarrow> reconciled_evidence H (inside 5 env) p a q d outc rc
       | Some obj \<Rightarrow> bindA (status_of obj) (\<lambda>st. okA (text_of (obj_get ''record_id'' obj), st))) (\<lambda>(record_id, st).
     bindA (approval_write (mark_reconciled (hc_runtime H) (clock_at 6 env) k record_id)) (\<lambda>_.
       okA (outcome a d st record_id k None (lit ''operator reconciled execution as '' @ outc)))))))))))))))))"

subsection \<open>Reconciliation of an authorization\<close>

record authorization_outcome =
  aa_record_id :: pystr
  aa_action_id :: pystr
  aa_request_id :: pystr
  aa_status :: result_status
  aa_evidence_record_id :: pystr
  aa_detail :: pystr

definition authorization_outcome_of ::
  "authorization_subject \<Rightarrow> result_status \<Rightarrow> pystr \<Rightarrow> pystr \<Rightarrow> authorization_outcome" where
  "authorization_outcome_of subject st record_id outc =
     \<lparr>aa_record_id = as_record_id subject, aa_action_id = as_action_id subject,
      aa_request_id = as_request_id subject, aa_status = st, aa_evidence_record_id = record_id,
      aa_detail = lit ''operator reconciled authorization as '' @ outc\<rparr>"

text \<open>\<open>_validate_existing_authorization_reconciliation\<close>.\<close>

definition existing_reconciliation_ok :: "json_object \<Rightarrow> pystr \<Rightarrow> pystr \<Rightarrow> pystr \<Rightarrow> bool" where
  "existing_reconciliation_ok obj outc operator remark \<longleftrightarrow>
     (case outcome_status outc of None \<Rightarrow> False | Some st \<Rightarrow> field_is ''result_status'' (status_value st) obj)
     \<and> field_is ''reconciliation_outcome'' outc obj \<and> field_is ''reconciled_by'' operator obj
     \<and> field_is ''reconciliation_note'' remark obj"

text \<open>A field of the authority as text, or what it stands for when it is absent.\<close>

definition text_or :: "string \<Rightarrow> pystr \<Rightarrow> json_object \<Rightarrow> (contract_error, pystr) result" where
  "text_or k v obj = (case obj_get k obj of
     None \<Rightarrow> return v | Some (PStr s) \<Rightarrow> return s | Some _ \<Rightarrow> raise FieldsMismatch)"

definition texts_or_empty :: "string \<Rightarrow> json_object \<Rightarrow> (contract_error, pystr list) result" where
  "texts_or_empty k obj = (case obj_get k obj of
     None \<Rightarrow> return []
   | Some (PList vs) \<Rightarrow> mapR (\<lambda>v. case v of PStr s \<Rightarrow> return s | _ \<Rightarrow> raise FieldsMismatch) vs
   | Some _ \<Rightarrow> raise FieldsMismatch)"

definition values_or_empty :: "string \<Rightarrow> json_object \<Rightarrow> (contract_error, pyval list) result" where
  "values_or_empty k obj = (case obj_get k obj of
     None \<Rightarrow> return [] | Some (PList vs) \<Rightarrow> return vs | Some _ \<Rightarrow> raise FieldsMismatch)"

definition dict_or_empty :: "string \<Rightarrow> json_object \<Rightarrow> (contract_error, pyval) result" where
  "dict_or_empty k obj = (case obj_get k obj of
     None \<Rightarrow> return (PDict []) | Some (PDict kvs) \<Rightarrow> return (PDict kvs) | Some _ \<Rightarrow> raise FieldsMismatch)"

definition flag_or_false :: "string \<Rightarrow> json_object \<Rightarrow> (contract_error, bool) result" where
  "flag_or_false k obj = (case obj_get k obj of
     None \<Rightarrow> return False | Some (PBool b) \<Rightarrow> return b | Some _ \<Rightarrow> raise FieldsMismatch)"

definition reconciled_output_hash :: "runtime \<Rightarrow> pystr \<Rightarrow> pystr" where
  "reconciled_output_hash R outc =
     (if outc = lit ''not_executed'' then []
      else sha256_of (rt_sha256 R)
        (PDict [(PStr (lit ''operator_reconciled''), PBool True), (PStr (lit ''outcome''), PStr outc)]))"

text \<open>\<open>_make_authorization_reconciliation_record\<close>: the authority's fields with the operator's outcome.\<close>

definition reconciliation_record ::
  "harness \<Rightarrow> readings \<Rightarrow> json_object \<Rightarrow> authorization_subject \<Rightarrow> result_status \<Rightarrow> decimal \<Rightarrow> pystr \<Rightarrow> pystr \<Rightarrow> pystr
   \<Rightarrow> pystr \<Rightarrow> (contract_error, evidence_record) result" where
  "reconciliation_record H env obj subject st cost outc operator reconciled_at remark =
     bindR (text_or ''agent_runner'' [] obj) (\<lambda>runner.
     bindR (text_or ''enforcement_basis'' [] obj) (\<lambda>basis.
     bindR (text_or ''model_id'' [] obj) (\<lambda>model.
     bindR (text_or ''user_id'' [] obj) (\<lambda>user.
     bindR (text_or ''workspace_id'' [] obj) (\<lambda>ws.
     bindR (text_or ''tool_name'' [] obj) (\<lambda>tool.
     bindR (text_or ''target'' [] obj) (\<lambda>target.
     bindR (text_or ''side_effect_level'' (lit ''none'') obj) (\<lambda>level.
     bindR (texts_or_empty ''policy_ids'' obj) (\<lambda>policies.
     bindR (text_or ''policy_version'' [] obj) (\<lambda>version.
     bindR (text_or ''ruleset_hash'' [] obj) (\<lambda>ruleset.
     bindR (text_or ''decision_reason'' [] obj) (\<lambda>reason.
     bindR (dict_or_empty ''decision_inputs'' obj) (\<lambda>inputs.
     bindR (text_or ''payload_hash'' [] obj) (\<lambda>ph.
     bindR (text_or ''payload_trust'' (lit ''derived'') obj) (\<lambda>trust.
     bindR (values_or_empty ''input_refs'' obj) (\<lambda>refs.
     bindR (flag_or_false ''dry_run'' obj) (\<lambda>dry.
       validate_evidence (hc_runtime H)
         \<lparr>er_request_id = as_request_id subject, er_action_id = as_action_id subject, er_decision = Allow,
          er_result_status = st, er_schema_name = record_schema_name,
          er_schema_version = record_schema_version, er_record_id = new_id ''evd'' 1 env,
          er_timestamp = stamp_at 2 env, er_agent_runner = runner, er_model_id = model, er_user_id = user,
          er_workspace_id = ws, er_tool_name = tool, er_target = target, er_side_effect_level = level,
          er_policy_ids = policies, er_policy_version = version, er_ruleset_hash = ruleset,
          er_decision_reason = reason, er_decision_inputs = inputs, er_approved_by = None,
          er_approved_at = None, er_payload_hash = ph, er_authorization_hash = as_authorization_hash subject,
          er_payload_trust = trust, er_input_refs = refs, er_output_hash = reconciled_output_hash (hc_runtime H) outc,
          er_result_summary = lit ''operator reconciliation: '' @ outc, er_cost_usd = cost,
          er_budget_remaining_usd = None, er_dry_run = dry, er_reconciliation_outcome = outc,
          er_reconciled_by = operator, er_reconciled_at = Some reconciled_at, er_reconciliation_note = remark,
          er_previous_record_hash = [], er_record_hash = [], er_enforcement_basis = basis\<rparr>)))))))))))))))))"

definition reconcile_open ::
  "harness \<Rightarrow> readings \<Rightarrow> json_object \<Rightarrow> authorization_subject \<Rightarrow> result_status \<Rightarrow> pystr \<Rightarrow> pystr \<Rightarrow> pystr
   \<Rightarrow> attestation option \<Rightarrow> authorization_outcome harness_effect" where
  "reconcile_open H env obj subject st outc operator remark att =
     bindA (budget_read (exposure_for (as_request_id subject) (as_action_id subject))) (\<lambda>expected.
     bindA (budget_read (prior_debit_for (as_request_id subject) (as_action_id subject))) (\<lambda>prior.
     let cost = (case prior of Some debit \<Rightarrow> debit
           | None \<Rightarrow> if outc = lit ''not_executed'' then zero else expected) in
     bindA (contract (reconciliation_record H (inside 1 env) obj subject st cost outc operator
        (signed_at_of att (stamp_at 2 env)) remark)) (\<lambda>record.
     bindA (journaled H record) (\<lambda>record.
     bindA (carry_out H (inside 3 env)
        (AuthorizationReconcile subject expected outc operator remark att record)) (\<lambda>_.
       okA (authorization_outcome_of subject st (er_record_id record) outc))))))"

definition reconcile_authorization ::
  "harness \<Rightarrow> readings \<Rightarrow> pystr \<Rightarrow> pystr \<Rightarrow> pystr \<Rightarrow> pystr \<Rightarrow> attestation option
   \<Rightarrow> authorization_outcome harness_effect" where
  "reconcile_authorization H env record_id outc reconciled_by note_text att =
     bindA (recover_operation H (inside 1 env)) (\<lambda>_.
     bindA (require_safe H) (\<lambda>_.
       case outcome_status outc of
         None \<Rightarrow> failA InvalidInput
       | Some st \<Rightarrow>
           bindA (checkA (py_strip reconciled_by \<noteq> [] \<and> py_strip note_text \<noteq> []) InvalidInput) (\<lambda>_.
           let operator = py_strip reconciled_by; remark = py_strip note_text in
           bindA (stored_authority record_id) (\<lambda>obj.
           bindA (liftA (mapErr HarnessIdentity (authorization_subject_of (hc_runtime H) obj))) (\<lambda>subject.
           bindA (require_no_approval H (as_action_id subject)) (\<lambda>_.
           bindA (require_reconciliation_identity H (ck_now (clock_at 2 env)) subject outc operator remark att) (\<lambda>_.
           bindA (authorization_terminal (as_action_id subject) (as_authorization_hash subject)) (\<lambda>terminal.
             case terminal of
               Some obj \<Rightarrow>
                 bindA (checkA (existing_reconciliation_ok obj outc operator remark) OutcomeConflict) (\<lambda>_.
                   okA (authorization_outcome_of subject st (text_of (obj_get ''record_id'' obj)) outc))
             | None \<Rightarrow> reconcile_open H (inside 3 env) obj subject st outc operator remark att))))))))"

end
