(* ===== verification/HarnessFrame.thy ===== *)
theory HarnessFrame
  imports HarnessResume EvidenceRecovery ApprovalFacts
begin

text \<open>
  What the steps of the control loop leave alone. The view of a state is its approvals, the lines
  of its evidence, its journal and the handler calls made so far; budgets, caches and grants are
  outside it. Most steps do not touch the view, and the rest touch one part of it.
\<close>

type_synonym view = "approval_data \<times> evidence_line list \<times> journal_state \<times> action list"

definition view :: "harness_state \<Rightarrow> view" where
  "view s = (hn_approvals s, es_lines (hn_evidence s), hn_journal s, tl_called (hn_tools s))"

definition onview :: "(view \<Rightarrow> bool) \<Rightarrow> harness_state \<Rightarrow> bool" where
  "onview P s \<longleftrightarrow> P (view s)"

definition still :: "'a harness_effect \<Rightarrow> bool" where
  "still m \<longleftrightarrow> (\<forall>s. view (snd (m s)) = view s)"

lemma view_simps [simp]:
  "view (s\<lparr>hn_budget := b\<rparr>) = view s" "view (s\<lparr>hn_bases := d\<rparr>) = view s"
  "view (s\<lparr>hn_writes_left := n\<rparr>) = view s"
  by (simp_all add: view_def)

lemma keeps_still: "still m \<Longrightarrow> keeps (onview P) m"
  by (rule keepsI) (simp add: still_def onview_def)

named_theorems still_rules \<open>steps that leave the view alone\<close>

lemma stillI: "(\<And>s. view (snd (m s)) = view s) \<Longrightarrow> still m"
  by (simp add: still_def)

lemma still_bind [still_rules]: "still m \<Longrightarrow> (\<And>x. still (f x)) \<Longrightarrow> still (bindA m f)"
  unfolding still_def bindA_def by (auto split: prod.splits sum.splits) (metis snd_conv)+

lemma still_pure [still_rules]:
  "still (okA x)" "still (failA e)" "still (checkA b e)" "still (liftA r)" "still (resultA g)" "still (readA h)"
  by (rule stillI; simp add: checkA_def)+

lemma still_cases [still_rules]:
  "(b \<Longrightarrow> still m) \<Longrightarrow> (\<not> b \<Longrightarrow> still n) \<Longrightarrow> still (if b then m else n)"
  "(x = None \<Longrightarrow> still m) \<Longrightarrow> (\<And>y. x = Some y \<Longrightarrow> still (f y)) \<Longrightarrow> still (case x of None \<Rightarrow> m | Some y \<Rightarrow> f y)"
  "(\<And>y z. still (g y z)) \<Longrightarrow> still (case p of (y, z) \<Rightarrow> g y z)"
  "(\<And>y. still (h y)) \<Longrightarrow> still (let y = v in h y)"
  by (simp_all split: option.split prod.split)

lemma still_spend [still_rules]: "still spend_write"
  by (rule stillI) (simp add: spend_write_def)

lemma still_put_budget [still_rules]: "still (put_budget f)"
  by (rule stillI) (simp add: put_budget_def split: sum.split prod.split)

lemma still_budget_write [still_rules]: "still (budget_write f)"
  unfolding budget_write_def by (intro still_rules)

lemma still_budget [still_rules]: "still (budget_step k)" "still (budget_read g)"
  unfolding budget_step_def budget_read_def by (intro still_rules)+

lemma still_reads [still_rules]:
  "still (approval_read f)" "still (evidence_read g)" "still (contract r)" "still (hashed q)"
  "still (require_execution_enabled H)" "still (require_safe H)" "still (held_part v)"
  unfolding approval_read_def evidence_read_def contract_def hashed_def require_execution_enabled_def
    require_safe_def held_part_def
  by (intro still_rules)+

lemma still_bases [still_rules]: "still (remember_action_basis a b)" "still (basis_for_action H a)"
proof -
  have w: "still (writeA (\<lambda>s. s\<lparr>hn_bases := f s\<rparr>))" for f by (rule stillI) simp
  show r: "still (remember_action_basis a b)" for a b
    unfolding remember_action_basis_def by (intro still_rules w)
  show "still (basis_for_action H a)" unfolding basis_for_action_def by (intro still_rules w r)
qed

lemma still_record [still_rules]:
  "still (make_record H env a q d st nf)" "still (journaled H r)" "still (control_decision H env a reason p extra)"
  unfolding make_record_def journaled_def control_decision_def Let_def by (intro still_rules)+

lemma still_lookups [still_rules]:
  "still (stored_authority k)" "still (authorization_terminal k h)" "still (require_same_terminal t k)"
  "still (known_approval H k)" "still (require_no_approval H k)" "still (validate_journaled_approval H k x y z)"
  "still (require_reconciliation_identity H now sub oc op rm att)" "still (release_if_reserved env z x y)"
  "still (completing_approval H env xs k rid)"
  unfolding stored_authority_def authorization_terminal_def require_same_terminal_def known_approval_def
    require_no_approval_def validate_journaled_approval_def require_reconciliation_identity_def
    release_if_reserved_def completing_approval_def
  by (intro still_rules)+

lemma still_evaluate [still_rules]: "still (evaluate_action H env a q)"
  unfolding evaluate_action_def by (intro still_rules)+

lemma still_decisions [still_rules]:
  "still (held_contracts H p)" "still (resume_decision H env a q)" "still (current_decision H env a q d)"
  "still (over_budget H q e)" "still (release_reservation env p)" "still (external_approval H k a ah)"
  "still (status_of obj)" "still (reconciled_result H oc rc)"
  unfolding held_contracts_def resume_decision_def current_decision_def over_budget_def release_reservation_def
    external_approval_def status_of_def reconciled_result_def
  by (intro still_rules)+

lemmas keeps_steps [keeps_rules] =
  still_evaluate [THEN keeps_still] still_spend [THEN keeps_still] still_put_budget [THEN keeps_still] still_budget_write [THEN keeps_still]
  still_budget [THEN keeps_still] still_reads [THEN keeps_still] still_bases [THEN keeps_still]
  still_record [THEN keeps_still] still_lookups [THEN keeps_still] still_decisions [THEN keeps_still]

lemma keeps_sum [keeps_rules]:
  "(\<And>e. x = Inl e \<Longrightarrow> keeps I (f e)) \<Longrightarrow> (\<And>y. x = Inr y \<Longrightarrow> keeps I (g y)) \<Longrightarrow>
   keeps I (case x of Inl e \<Rightarrow> f e | Inr y \<Rightarrow> g y)"
  by (cases x) simp_all

subsection \<open>Steps that change one part\<close>

lemma keeps_put_approvals:
  assumes "\<And>d ls j cs. P (d, ls, j, cs) \<Longrightarrow> P (snd (m d), ls, j, cs)"
  shows "keeps (onview P) (approval_effect m)"
proof -
  have "onview P (snd (put_approvals m s))" if "onview P s" for s
    using that assms [of "hn_approvals s"]
    by (cases "m (hn_approvals s)") (simp add: onview_def view_def put_approvals_def)
  then have "keeps (onview P) (put_approvals m)" by (rule keepsI)
  then show ?thesis unfolding approval_effect_def by (rule keeps_bind [OF keeps_still [OF still_spend]])
qed

lemma keeps_approval_write:
  assumes "\<And>d ls j cs x t. P (d, ls, j, cs) \<Longrightarrow> f d = return (x, t) \<Longrightarrow> P (t, ls, j, cs)"
  shows "keeps (onview P) (approval_write f)"
  unfolding approval_write_def
  by (rule keeps_put_approvals) (use assms in \<open>auto simp: as_effect_def split: sum.split\<close>)

lemma keeps_evidence_write:
  assumes "\<And>d ls j cs e. P (d, es_lines e, j, cs) \<Longrightarrow> P (d, es_lines (snd (m e)), j, cs)"
  shows "keeps (onview P) (evidence_write m)"
proof -
  have "onview P (snd (put_evidence m s))" if "onview P s" for s
    using that assms [of _ "hn_evidence s"]
    by (cases "m (hn_evidence s)") (simp add: onview_def view_def put_evidence_def)
  then have "keeps (onview P) (put_evidence m)" by (rule keepsI)
  then show ?thesis unfolding evidence_write_def by (rule keeps_bind [OF keeps_still [OF still_spend]])
qed

end
