(* ===== verification/HarnessOnce.thy ===== *)
theory HarnessOnce
  imports HarnessFrame
begin

text \<open>
  The invariant behind \<open>a handler runs once for an action\<close>: a handler that ran has evidence of its
  action, no approval of that action can still start, and an approval has evidence of its action
  unless the journal still holds its creation.
\<close>

subsection \<open>Actions on record\<close>

definition recorded :: "evidence_line list \<Rightarrow> pystr set" where
  "recorded ls = {a. \<exists>obj. Line obj \<in> set ls \<and> field_is ''action_id'' a obj}"

lemma recorded_append [simp]: "recorded (ls @ ms) = recorded ls \<union> recorded ms"
  by (auto simp: recorded_def)

lemma recorded_Nil [simp]: "recorded [] = {}"
  by (simp add: recorded_def)

lemma recorded_line: "recorded [Line obj] = {a. field_is ''action_id'' a obj}"
  by (simp add: recorded_def)

lemma first_matching_None: "first_matching P ls = return None \<Longrightarrow> Line obj \<in> set ls \<Longrightarrow> \<not> P obj"
  by (induction P ls rule: first_matching.induct) (auto split: if_splits)

lemma first_by_action_None: "first_by_action a ls = return None \<Longrightarrow> a \<notin> recorded ls"
  unfolding first_by_action_def recorded_def by (auto dest: first_matching_None)

lemma one_more_recorded: "one_more ls ms \<Longrightarrow> recorded ls \<subseteq> recorded ms"
  by (auto simp: one_more_def)

lemma dict_get_sort_keys:
  fixes d :: "(pystr, 'a) dict" and k :: pystr
  shows "dict_get k (sort_keys d) = dict_get k d"
proof -
  have g: "dict_get k d = (case filter (\<lambda>kv. fst kv = k) d of [] \<Rightarrow> None | kv # _ \<Rightarrow> Some (snd kv))" for d :: "(pystr, 'a) dict"
    by (induction d) auto
  have "filter (\<lambda>kv. fst kv = k) (sort_keys d) = filter (\<lambda>kv. fst kv = k) d"
    unfolding sort_keys_sort by (rule sort_key_stable)
  then show ?thesis by (simp add: g)
qed

lemma reload_object_text: "obj_get f obj = Some (PStr v) \<Longrightarrow> obj_get f (reload_object obj) = Some (PStr v)"
  by (simp add: reload_object_def dict_get_sort_keys dict_get_map_snd)

lemma serialized_action:
  assumes "serialized_line R r = return line"
  shows "field_is ''action_id'' (er_action_id r) line"
proof -
  obtain q obj where d: "evidence_to_dict R r = return (q, obj)" "line = reload_object obj"
    using assms by (auto simp: serialized_line_def split: if_splits)
  have "er_action_id q = er_action_id r"
    using d(1) by (auto simp: evidence_to_dict_def validate_evidence_def)
  then show ?thesis
    using d by (auto simp: field_is_def elim!: evidence_to_dictE intro!: reload_object_text)
      (simp add: record_entries_get)
qed

lemma seal_record_action: "seal_record R p r = return q \<Longrightarrow> er_action_id q = er_action_id r"
  by (auto simp: seal_record_def evidence_to_dict_def validate_evidence_def split: if_splits)

lemma seal_and_write_recorded:
  assumes "seal_and_write R profile stamp n r s = (return q, t)"
  shows "er_action_id r \<in> recorded (es_lines t)"
proof -
  obtain objs line where w: "seal_record R (snd (evidence_position objs)) r = return q" "serialized_line R q = return line"
    "advance_head_unlocked R profile stamp n (snd (evidence_position objs)) (er_record_hash q)
       (s\<lparr>es_lines := es_lines s @ [Line line]\<rparr>) = (return (), t)"
    using assms by (rule seal_and_writeE)
  have "field_is ''action_id'' (er_action_id r) line"
    using serialized_action [OF w(2)] seal_record_action [OF w(1)] by simp
  then show ?thesis using advance_unlocked_lines [OF w(3)] by (simp add: recorded_line)
qed

lemma append_evidence_recorded:
  assumes "append_evidence R profile stamp r s = (return q, t)"
  shows "er_action_id r \<in> recorded (es_lines t)"
  using assms by (auto simp: append_evidence_def Let_def bindA_Inr split: if_splits dest: seal_and_write_recorded)

lemma comparable_get: "f \<notin> {''previous_record_hash'', ''record_hash''} \<Longrightarrow> obj_get f (comparable obj) = obj_get f obj"
  unfolding comparable_def by (rule dict_get_filter) auto

lemma ordered_get:
  assumes "same_object a b" "obj_get f b = Some (PStr v)"
  shows "obj_get f a = Some (PStr v)"
proof -
  have "map (\<lambda>(k, v). (k, ordered_value v)) (sort_keys a) = map (\<lambda>(k, v). (k, ordered_value v)) (sort_keys b)"
    using assms(1) by (simp add: same_object_def ordered_object)
  then have "map_option ordered_value (obj_get f a) = map_option ordered_value (obj_get f b)"
    by (metis dict_get_map_snd dict_get_sort_keys)
  then have "map_option ordered_value (obj_get f a) = Some (PStr v)" using assms(2) by simp
  then obtain w where w: "obj_get f a = Some w" "ordered_value w = PStr v" by auto
  then show ?thesis by (cases w) auto
qed

lemma find_in_set: "find P xs = Some x \<Longrightarrow> x \<in> set xs"
  by (metis find_Some_iff nth_mem)

lemma append_idempotent_recorded:
  assumes "append_idempotent R profile stamp r s = (return q, t)"
  shows "er_action_id r \<in> recorded (es_lines t)"
  using assms
proof (rule append_idempotentE)
  fix r1 obj objs s1
  assume d: "evidence_to_dict R r = return (r1, obj)" and o: "es_lines s1 = map Line objs"
    and c: "(\<exists>line. find_record (er_record_id r1) objs = Some line \<and> same_object (comparable line) (comparable obj)
        \<and> q = recognised r1 line \<and> t = s1)
     \<or> find_record (er_record_id r1) objs = None
        \<and> seal_and_write R profile stamp (length objs) r1 s1 = (return q, t)"
  have a: "er_action_id r1 = er_action_id r"
    using d by (auto simp: evidence_to_dict_def validate_evidence_def)
  have g: "obj_get ''action_id'' obj = Some (PStr (er_action_id r1))"
    using d by (auto elim!: evidence_to_dictE intro: record_entries_get)
  from c show ?thesis
  proof
    assume "\<exists>line. find_record (er_record_id r1) objs = Some line \<and> same_object (comparable line) (comparable obj)
        \<and> q = recognised r1 line \<and> t = s1"
    then obtain line where l: "line \<in> set objs" "same_object (comparable line) (comparable obj)" "t = s1"
      by (auto simp: find_record_def dest!: find_in_set)
    have "obj_get ''action_id'' (comparable line) = Some (PStr (er_action_id r1))"
      by (rule ordered_get [OF l(2)]) (simp add: comparable_get g)
    then show ?thesis using l o by (auto simp: recorded_def field_is_def comparable_get a)
  next
    assume "find_record (er_record_id r1) objs = None \<and> seal_and_write R profile stamp (length objs) r1 s1 = (return q, t)"
    then show ?thesis using seal_and_write_recorded a by metis
  qed
qed

subsection \<open>Approvals that can still start\<close>

definition startable :: "approval_data \<Rightarrow> pystr set" where
  "startable d = {ap_action_id p | k p. dict_get k d = Some p \<and> ap_status p \<in> {Pending, Approved}}"

definition queued :: "approval_data \<Rightarrow> pystr set" where
  "queued d = {ap_action_id p | k p. dict_get k d = Some p}"

text \<open>A change of the queue that adds no approval and lets none start again.\<close>

definition calm :: "runtime \<Rightarrow> approval_data \<Rightarrow> approval_data \<Rightarrow> bool" where
  "calm R d t \<longleftrightarrow> store_ok R t \<and> one_active t \<and> startable t \<subseteq> startable d \<and> queued t \<subseteq> queued d"

lemma advances_startable:
  "advances p q \<Longrightarrow> ap_status q \<in> {Pending, Approved} \<Longrightarrow> ap_status p \<in> {Pending, Approved}"
  by (cases "ap_status p") (auto simp: advances_def)

lemma advances_action: "advances p q \<Longrightarrow> ap_action_id q = ap_action_id p"
  by (auto simp: advances_def dest: binding_fields(1))

lemma descends_startable: "descends d t \<Longrightarrow> startable t \<subseteq> startable d"
  unfolding startable_def descends_def
  by clarify (metis advances_startable advances_action)

lemma descends_queued: "descends d t \<Longrightarrow> queued t \<subseteq> queued d"
  unfolding queued_def descends_def by clarify (metis advances_action)

lemma touches_calm: "touches R d k (q, t) \<Longrightarrow> one_active d \<Longrightarrow> calm R d t"
  using touches_descends [of R d k "(q, t)"]
  by (auto simp: calm_def touches_def dest: descends_one_active descends_startable descends_queued)

lemma calm_refl: "store_ok R d \<Longrightarrow> one_active d \<Longrightarrow> calm R d d"
  by (simp add: calm_def)

subsection \<open>The invariant\<close>

fun created :: "journal_state \<Rightarrow> pystr set" where
  "created None = {}"
| "created (Some op) = (case jo_payload op of ApprovalCreate p _ _ \<Rightarrow> {ap_action_id p} | _ \<Rightarrow> {})"

definition once :: "runtime \<Rightarrow> view \<Rightarrow> bool" where
  "once R v = (case v of (d, ls, j, calls) \<Rightarrow>
     store_ok R d \<and> one_active d \<and> distinct (map pa_action_id calls)
     \<and> pa_action_id ` set calls \<subseteq> recorded ls
     \<and> startable d \<inter> pa_action_id ` set calls = {}
     \<and> created j \<inter> pa_action_id ` set calls = {}
     \<and> queued d \<subseteq> recorded ls \<union> created j)"

lemma once_calm:
  assumes "once R (d, ls, j, calls)" "calm R d t"
  shows "once R (t, ls, j, calls)"
proof -
  have "startable t \<inter> pa_action_id ` set calls \<subseteq> startable d \<inter> pa_action_id ` set calls"
    using assms(2) by (intro Int_mono) (simp_all add: calm_def)
  moreover have "startable d \<inter> pa_action_id ` set calls = {}" using assms(1) by (simp add: once_def)
  ultimately have "startable t \<inter> pa_action_id ` set calls = {}" by (simp only: subset_empty)
  moreover have "queued t \<subseteq> recorded ls \<union> created j"
    by (rule subset_trans [of _ "queued d"]) (use assms in \<open>simp_all add: once_def calm_def\<close>)
  ultimately show ?thesis using assms by (simp add: once_def calm_def)
qed

lemma once_grows:
  assumes "once R (d, ls, j, calls)" "recorded ls \<subseteq> recorded ms"
  shows "once R (d, ms, j, calls)"
proof -
  have "queued d \<subseteq> recorded ms \<union> created j"
    by (rule subset_trans [of _ "recorded ls \<union> created j"])
      (use assms in \<open>simp_all add: once_def le_supI1\<close>)
  moreover have "pa_action_id ` set calls \<subseteq> recorded ms"
    by (rule subset_trans [OF _ assms(2)]) (use assms(1) in \<open>simp add: once_def\<close>)
  ultimately show ?thesis using assms by (simp add: once_def)
qed

lemma once_valid: "once R (d, ls, j, calls) \<Longrightarrow> store_ok R d \<and> one_active d"
  by (simp add: once_def)

text \<open>An invariant of the view that calm changes of the queue and more evidence keep.\<close>

definition robust :: "runtime \<Rightarrow> (view \<Rightarrow> bool) \<Rightarrow> bool" where
  "robust R P \<longleftrightarrow>
     (\<forall>d ls j calls t. P (d, ls, j, calls) \<longrightarrow> store_ok R d \<and> one_active d \<and> (calm R d t \<longrightarrow> P (t, ls, j, calls)))
     \<and> (\<forall>d ls j calls ms. P (d, ls, j, calls) \<longrightarrow> recorded ls \<subseteq> recorded ms \<longrightarrow> P (d, ms, j, calls))"

lemma robust_once: "robust R (\<lambda>v. once R v \<and> J (fst (snd (snd v))) (snd (snd (snd v))))"
  unfolding robust_def by (auto intro: once_calm once_grows dest: once_valid)

lemma robust_calm:
  assumes "robust R P"
  shows "P (d, ls, j, calls) \<Longrightarrow> calm R d t \<Longrightarrow> P (t, ls, j, calls)"
    and "P (d, ls, j, calls) \<Longrightarrow> store_ok R d" "P (d, ls, j, calls) \<Longrightarrow> one_active d"
    and "P (d, ls, j, calls) \<Longrightarrow> recorded ls \<subseteq> recorded ms \<Longrightarrow> P (d, ms, j, calls)"
  using assms unfolding robust_def by blast+

lemma keeps_calm:
  assumes "robust R P" "\<And>d q t. store_ok R d \<Longrightarrow> f d = return (q, t) \<Longrightarrow> touches R d k (q, t)"
  shows "keeps (onview P) (approval_write f)"
proof (rule keeps_approval_write)
  fix d ls j cs q t
  assume p: "P (d, ls, j, cs)" and f: "f d = return (q, t)"
  have "touches R d k (q, t)" by (rule assms(2) [OF robust_calm(2) [OF assms(1) p] f])
  then show "P (t, ls, j, cs)"
    by (intro robust_calm(1) [OF assms(1) p] touches_calm [OF _ robust_calm(3) [OF assms(1) p]])
qed

lemma keeps_record:
  assumes "robust R P"
  shows "keeps (onview P) (evidence_write (append_evidence R' profile stamp r))"
    "keeps (onview P) (evidence_write (append_idempotent R' profile stamp r))"
  by (rule keeps_evidence_write, rule robust_calm(4) [OF assms], assumption, rule one_more_recorded, rule append_lines)+

end
