(* ===== verification/HarnessRuns.thy ===== *)
theory HarnessRuns
  imports HarnessOnce
begin

text \<open>
  The invariant along the text of the control loop: recovery, expiry, execution and every entry
  point, whether they return, raise or are killed at a write.
\<close>

subsection \<open>The invariant with what is known besides\<close>

definition assured :: "runtime \<Rightarrow> (journal_state \<Rightarrow> action list \<Rightarrow> bool) \<Rightarrow> pystr set \<Rightarrow> pystr set \<Rightarrow> view \<Rightarrow> bool" where
  "assured R J A B v = (case v of (d, ls, j, calls) \<Rightarrow>
     once R v \<and> J j calls \<and> A \<subseteq> recorded ls \<and> startable d \<inter> B = {})"

lemma robust_assured: "robust R (assured R J A B)"
proof -
  have 1: "startable t \<inter> B = {}" if "startable t \<subseteq> startable d" "startable d \<inter> B = {}" for t d
  proof -
    have "startable t \<inter> B \<subseteq> startable d \<inter> B" by (intro Int_mono that) simp
    then show ?thesis by (simp only: that(2) subset_empty)
  qed
  have c: "startable t \<subseteq> startable d" if "calm R d t" for t d using that by (simp add: calm_def)
  show ?thesis
    unfolding robust_def assured_def prod.case
    by (intro conjI allI impI; (elim conjE)?; (assumption | erule once_calm once_grows | drule once_valid | rule 1 | rule c | rule subset_trans)+)
       (auto dest: once_valid intro: once_calm once_grows)
qed

abbreviation idle :: "journal_state \<Rightarrow> action list \<Rightarrow> bool" where
  "idle j calls \<equiv> j = None"

abbreviation holds :: "journal_operation \<Rightarrow> journal_state \<Rightarrow> action list \<Rightarrow> bool" where
  "holds op j calls \<equiv> j = Some op"

text \<open>Not held by a pending or approved approval, not performed, and the journal empty.\<close>

abbreviation unperformed :: "pystr \<Rightarrow> journal_state \<Rightarrow> action list \<Rightarrow> bool" where
  "unperformed k j calls \<equiv> j = None \<and> k \<notin> pa_action_id ` set calls"

lemma assured_once: "onview (assured R J A B) s \<Longrightarrow> onview (once R) s"
  by (auto simp: onview_def assured_def split: prod.splits)

lemma assured_weaken:
  "onview (assured R J A B) s \<Longrightarrow> (\<And>j c. J j c \<Longrightarrow> J' j c) \<Longrightarrow> A' \<subseteq> A \<Longrightarrow> B' \<subseteq> B \<Longrightarrow> onview (assured R J' A' B') s"
  by (auto simp: onview_def assured_def split: prod.splits)

lemma once_assured: "onview (once R) s \<Longrightarrow> onview (assured R (\<lambda>_ _. True) {} {}) s"
  by (auto simp: onview_def assured_def split: prod.splits)

lemma keeps_triple: "keeps (onview (assured R J A B)) m \<Longrightarrow> triple (onview (assured R J A B)) m (\<lambda>_. onview (assured R J A B)) (onview (once R))"
  unfolding keeps_def by (erule triple_conseq) (auto dest: assured_once)

lemma triple_steps:
  assumes "keeps (onview (assured R J A B)) m" "\<And>x. triple (onview (assured R J A B)) (f x) Q (onview (once R))"
  shows "triple (onview (assured R J A B)) (bindA m f) Q (onview (once R))"
  by (rule triple_bind [OF keeps_triple [OF assms(1)] assms(2)])

lemma evidence_records:
  assumes m: "\<And>e. one_more (es_lines e) (es_lines (snd (m e)))"
    "\<And>e q t. m e = (return q, t) \<Longrightarrow> a \<in> recorded (es_lines t)"
  shows "triple (onview (assured R J A B)) (evidence_write m) (\<lambda>_. onview (assured R J (insert a A) B)) (onview (once R))"
proof (rule tripleI)
  fix s t e assume "onview (assured R J A B) s" "evidence_write m s = (Inl e, t)"
  moreover have "keeps (onview (assured R J A B)) (evidence_write m)"
    by (rule keeps_evidence_write, rule robust_calm(4) [OF robust_assured], assumption, rule one_more_recorded, rule m)
  ultimately show "onview (once R) t" using keepsD by (metis assured_once snd_conv)
next
  fix s t x assume i: "onview (assured R J A B) s" and w: "evidence_write m s = (Inr x, t)"
  have "keeps (onview (assured R J A B)) (evidence_write m)"
    by (rule keeps_evidence_write, rule robust_calm(4) [OF robust_assured], assumption, rule one_more_recorded, rule m)
  then have k: "onview (assured R J A B) t" using keepsD i w by (metis snd_conv)
  obtain s1 y where "put_evidence m s1 = (Inr y, t)"
    using w unfolding evidence_write_def bindA_Inr by blast
  then obtain e where "m (hn_evidence s1) = (return y, e)" "es_lines (hn_evidence t) = es_lines e"
    by (cases "m (hn_evidence s1)") (auto simp: put_evidence_def split: if_splits)
  then have "a \<in> recorded (es_lines (hn_evidence t))" using m(2) by metis
  then show "onview (assured R J (insert a A) B) t" using k by (simp add: onview_def assured_def view_def)
qed

lemma idempotent_records:
  "triple (onview (assured R J A B)) (evidence_write (append_idempotent R' profile stamp r))
     (\<lambda>_. onview (assured R J (insert (er_action_id r) A) B)) (onview (once R))"
  by (rule evidence_records [OF append_lines(2)]) (rule append_idempotent_recorded)

lemma appended_records:
  "triple (onview (assured R J A B)) (evidence_write (append_evidence R' profile stamp r))
     (\<lambda>_. onview (assured R J (insert (er_action_id r) A) B)) (onview (once R))"
  by (rule evidence_records [OF append_lines(1)]) (rule append_evidence_recorded)

lemma keeps_queue [keeps_rules]:
  "keeps (onview (assured R J A B)) (approval_write (expire_one R ck k))"
  "keeps (onview (assured R J A B)) (approval_write (decide R cfg ck k b x y w))"
  "keeps (onview (assured R J A B)) (approval_write (ensure_rejected R cfg ck k x y w))"
  "keeps (onview (assured R J A B)) (approval_write (mark_consumed R ck k rid))"
  "keeps (onview (assured R J A B)) (approval_write (ensure_consumed R ck k rid))"
  "keeps (onview (assured R J A B)) (approval_write (begin_reconciliation R cfg ck k oc x y w))"
  "keeps (onview (assured R J A B)) (approval_write (mark_reconciled R ck k rid))"
  by (rule keeps_calm [OF robust_assured], erule (1) expire_one_touches decide_touches ensure_rejected_touches
      mark_consumed_touches ensure_consumed_touches begin_reconciliation_touches mark_reconciled_touches)+

lemmas keeps_written [keeps_rules] = keeps_record [OF robust_assured]

subsection \<open>Recovery\<close>

lemma keeps_disposition [keeps_rules]:
  "(disp = SettleBudget \<Longrightarrow> keeps I m) \<Longrightarrow> (disp = NoBudget \<Longrightarrow> keeps I n) \<Longrightarrow>
   keeps I (case disp of SettleBudget \<Rightarrow> m | NoBudget \<Rightarrow> n)"
  by (cases disp) simp_all

lemma keeps_recover [keeps_rules]:
  "keeps (onview (assured R J A B)) (recover_reject H env k x y z by' rm att)"
  "keeps (onview (assured R J A B)) (recover_expire H env k x y z)"
  "keeps (onview (assured R J A B)) (recover_authorization H env sub z oc op rm att rid)"
  "keeps (onview (assured R J A B)) (recover_completion H env xs k z u disp r)"
  if "hc_runtime H = R"
  unfolding recover_reject_def recover_expire_def recover_authorization_def recover_completion_def that
  by (intro keeps_rules)+

text \<open>The approval of a journaled creation reaches the queue while the journal still holds it.\<close>

lemma once_create:
  assumes o: "assured R (holds op) {} {} (d, ls, j, calls)" and p: "jo_payload op = ApprovalCreate p z r"
    and ok: "approval_ok R p" and c: "create_prepared R p d = return (q, t)"
  shows "assured R (holds op) {} {} (t, ls, j, calls)"
proof -
  have o': "once R (d, ls, j, calls)" "j = Some op" using o by (auto simp: assured_def)
  then have v: "store_ok R d" "one_active d" by (auto simp: once_def)
  note f = create_prepared_facts [OF v(1) ok c]
  have g: "dict_get k t = Some x \<Longrightarrow> x = p \<or> dict_get k d = Some x" for k x
    using f by (cases "k = ap_approval_id p") auto
  have cr: "created j = {ap_action_id p}" using o'(2) p by simp
  have st: "startable t \<subseteq> insert (ap_action_id p) (startable d)"
    and qt: "queued t \<subseteq> insert (ap_action_id p) (queued d)"
    using g unfolding startable_def queued_def by blast+
  have "startable t \<inter> pa_action_id ` set calls \<subseteq> insert (ap_action_id p) (startable d) \<inter> pa_action_id ` set calls"
    by (intro Int_mono st) simp
  also have "\<dots> = {}" using o'(1) cr by (simp add: once_def)
  finally have "startable t \<inter> pa_action_id ` set calls = {}" by simp
  moreover have "queued t \<subseteq> recorded ls \<union> created j"
    by (rule subset_trans [OF qt]) (use o'(1) cr in \<open>simp add: once_def\<close>)
  moreover have "one_active t"
    using f v(2) one_active_new [of d p t] by auto
  moreover have "store_ok R t" using f by simp
  ultimately show ?thesis using o' cr by (auto simp: assured_def once_def)
qed

lemma keeps_create:
  assumes "hc_runtime H = R" "jo_payload op = ApprovalCreate p z r" "approval_ok R p"
  shows "keeps (onview (assured R (holds op) {} {})) (recover_create H env p z')"
proof -
  have "keeps (onview (assured R (holds op) {} {})) (approval_write (create_prepared R p))"
    by (rule keeps_approval_write) (rule once_create [OF _ assms(2,3)])
  then show ?thesis unfolding recover_create_def assms(1) by (intro keeps_rules)
qed

lemma finish_create:
  assumes "jo_payload op = ApprovalCreate p z e" "er_action_id r = ap_action_id p"
  shows "triple (onview (assured R (holds op) {} {}))
     (bindA (evidence_write (append_idempotent R profile stamp r)) (\<lambda>_. okA ()))
     (\<lambda>_. onview (assured R (holds op) (created (Some op)) {})) (onview (once R))"
  by (rule triple_bind [OF idempotent_records], rule triple_pre, rule triple_ok) (simp add: assms)

lemma keeps_apply:
  assumes "hc_runtime H = R" "\<And>p z e. q \<noteq> ApprovalCreate p z e"
  shows "keeps (onview (assured R J A B)) (apply_payload H env q r)"
  unfolding apply_payload_def Let_def assms(1)
  by (cases q; simp only: journal_payload.case)
    (use assms in \<open>simp; fail | intro keeps_rules, simp_all\<close>)+

lemma apply_payload_once:
  assumes H: "hc_runtime H = R" and v: "validate_payload R (jo_payload op) = return ()"
    and r: "er_action_id r = er_action_id (jp_evidence (jo_payload op))"
  shows "triple (onview (assured R (holds op) {} {})) (apply_payload H env (jo_payload op) r)
     (\<lambda>_. onview (assured R (holds op) (created (Some op)) {})) (onview (once R))"
proof (cases "\<exists>p z e. jo_payload op = ApprovalCreate p z e")
  case True
  then obtain p z e where ApprovalCreate: "jo_payload op = ApprovalCreate p z e" by blast
  have p: "approval_ok R p" "ap_action_id p = er_action_id r"
    using v r ApprovalCreate
    by (auto simp: validate_payload_def approval_ok_def validate_evidence_def split: if_splits)
  show ?thesis
    unfolding ApprovalCreate apply_payload_def Let_def journal_payload.case H
    by (rule triple_steps [OF keeps_create [OF H ApprovalCreate p(1)]],
        rule finish_create [OF ApprovalCreate p(2) [symmetric]])
next
  case False
  then have "\<And>p z e. jo_payload op \<noteq> ApprovalCreate p z e" by blast
  moreover from this have "created (Some op) = {}" by (cases "jo_payload op") auto
  ultimately show ?thesis using keeps_triple [OF keeps_apply [OF H]] by metis
qed

subsection \<open>The journal\<close>

lemma journal_write_Inl: "journal_write f s = (Inl e, t) \<Longrightarrow> view t = view s"
  by (auto simp: journal_write_def bindA_def spend_write_def put_journal_def view_def
      split: if_splits sum.splits prod.splits)

lemma journal_write_Inr:
  "journal_write f s = (Inr x, t) \<Longrightarrow>
   \<exists>j. f (hn_journal s) = return (x, j)
     \<and> view t = (hn_approvals s, es_lines (hn_evidence s), j, tl_called (hn_tools s))"
  by (auto simp: journal_write_def bindA_def spend_write_def put_journal_def view_def
      split: if_splits sum.splits prod.splits)

lemma complete_once:
  "triple (onview (assured R (holds op) (created (Some op)) {})) (journal_write (complete_operation R' k))
     (\<lambda>_. onview (assured R idle {} {})) (onview (once R))"
proof (rule tripleI)
  fix s e t assume "onview (assured R (holds op) (created (Some op)) {}) s"
    "journal_write (complete_operation R' k) s = (Inl e, t)"
  then show "onview (once R) t" using journal_write_Inl assured_once by (metis onview_def)
next
  fix s x t assume o: "onview (assured R (holds op) (created (Some op)) {}) s"
    and w: "journal_write (complete_operation R' k) s = (Inr x, t)"
  have v: "view t = (hn_approvals s, es_lines (hn_evidence s), None, tl_called (hn_tools s))"
    using journal_write_Inr [OF w] by (auto simp: complete_Inr)
  have j: "hn_journal s = Some op"
    and q: "queued (hn_approvals s) \<subseteq> recorded (es_lines (hn_evidence s)) \<union> created (Some op)"
      "created (Some op) \<subseteq> recorded (es_lines (hn_evidence s))"
    using o by (auto simp: onview_def assured_def once_def view_def simp del: created.simps(2))
  have "queued (hn_approvals s) \<subseteq> recorded (es_lines (hn_evidence s))"
    by (rule subset_trans [OF q(1)]) (use q(2) in simp)
  then show "onview (assured R idle {} {}) t"
    using o unfolding onview_def v by (simp add: assured_def once_def view_def)
qed

text \<open>Preparing an operation that creates no approval of a performed action.\<close>

definition may_create :: "journal_payload \<Rightarrow> action list \<Rightarrow> bool" where
  "may_create p calls \<longleftrightarrow> (case p of
     ApprovalCreate a _ _ \<Rightarrow> ap_action_id a \<notin> pa_action_id ` set calls | _ \<Rightarrow> True)"

lemma prepare_once:
  assumes "onview (assured R (\<lambda>j calls. may_create p calls) {} {}) s"
    and "journal_write (prepare_operation R stamp k p) s = (Inr op, t)"
  shows "onview (assured R (holds op) {} {}) t \<and> jo_payload op = p \<and> validate_payload R p = return ()"
proof -
  have v: "hn_journal s = None" "jo_payload op = p" "validate_payload R p = return ()"
    "view t = (hn_approvals s, es_lines (hn_evidence s), Some op, tl_called (hn_tools s))"
    using journal_write_Inr [OF assms(2)] by (auto simp: prepare_Inr)
  have o: "once R (hn_approvals s, es_lines (hn_evidence s), None, tl_called (hn_tools s))"
    "may_create p (tl_called (hn_tools s))"
    using assms(1) v(1) by (auto simp: onview_def assured_def view_def)
  have "created (Some op) \<inter> pa_action_id ` set (tl_called (hn_tools s)) = {}"
    using o(2) v(2) by (cases p) (auto simp: may_create_def)
  moreover have "queued (hn_approvals s) \<subseteq> recorded (es_lines (hn_evidence s)) \<union> created (Some op)"
    using o(1) by (auto simp: once_def)
  ultimately show ?thesis
    using o(1) v(2,3) by (simp add: onview_def v(4) assured_def once_def del: created.simps(2))
qed

lemma recover_prepared_once:
  assumes H: "hc_runtime H = R" and v: "validate_payload R (jo_payload op) = return ()"
  shows "triple (onview (assured R (holds op) {} {})) (recover_prepared H env op)
     (\<lambda>_. onview (assured R idle {} {})) (onview (once R))"
proof -
  let ?r = "validate_evidence R (jp_evidence (jo_payload op))"
  have "triple (onview (assured R (holds op) {} {}))
      (bindA (checkA (er_record_hash r = [] \<and> er_previous_record_hash r = []) PreparedRecordSealed) (\<lambda>_.
       bindA (apply_payload H env (jo_payload op) r) (\<lambda>_. journal_write (complete_operation R (jo_operation_id op)))))
     (\<lambda>_. onview (assured R idle {} {})) (onview (once R))" if "?r = return r" for r
    using that
    by (intro triple_steps keeps_rules triple_bind [OF apply_payload_once [OF H v]] complete_once)
      (auto simp: validate_evidence_def)
  then have "triple (onview (assured R (holds op) {} {}))
      (bindA (contract ?r) (\<lambda>r.
       bindA (checkA (er_record_hash r = [] \<and> er_previous_record_hash r = []) PreparedRecordSealed) (\<lambda>_.
       bindA (apply_payload H env (jo_payload op) r) (\<lambda>_. journal_write (complete_operation R (jo_operation_id op))))))
     (\<lambda>_. onview (assured R idle {} {})) (onview (once R))"
    by (cases ?r) (auto simp: contract_def triple_def bindA_def intro: assured_once)
  then show ?thesis
    unfolding recover_prepared_def H by (rule triple_steps [rotated]) (intro keeps_rules)
qed

lemma recover_operation_once:
  assumes H: "hc_runtime H = R"
  shows "triple (onview (once R)) (recover_operation H env) (\<lambda>_. onview (assured R idle {} {})) (onview (once R))"
proof (rule tripleI)
  fix s x t assume o: "onview (once R) s" and r: "recover_operation H env s = (Inr x, t)"
  show "onview (assured R idle {} {}) t"
  proof (cases "hn_journal s")
    case None
    then have "t = s" using r by (simp add: recover_operation_def active_operation_def bindA_def)
    then show ?thesis using o None by (auto simp: onview_def assured_def view_def)
  next
    case (Some op)
    then have v: "validate_payload R (jo_payload op) = return ()"
      and p: "\<exists>u. recover_prepared H env op s = (Inr u, t)"
      using r by (auto simp: recover_operation_def active_operation_def check_operation_def bindA_Inr H split: if_splits)
    have "onview (assured R (holds op) {} {}) s" using o Some by (auto simp: onview_def assured_def view_def)
    then show ?thesis using tripleD(1) [OF recover_prepared_once [OF H v]] p by blast
  qed
next
  fix s e t assume o: "onview (once R) s" and r: "recover_operation H env s = (Inl e, t)"
  show "onview (once R) t"
  proof (cases "t = s")
    case False
    then obtain op where op: "hn_journal s = Some op" and v: "validate_payload R (jo_payload op) = return ()"
      and p: "recover_prepared H env op s = (Inl e, t)"
      using r by (auto simp: recover_operation_def active_operation_def check_operation_def bindA_def H
          split: if_splits sum.splits prod.splits option.splits)
    have "onview (assured R (holds op) {} {}) s" using o op by (auto simp: onview_def assured_def view_def)
    then show ?thesis using tripleD(2) [OF recover_prepared_once [OF H v]] p by blast
  qed (use o in simp)
qed

lemma carry_out_once:
  assumes H: "hc_runtime H = R"
  shows "triple (onview (assured R (\<lambda>j calls. may_create p calls) {} {})) (carry_out H env p)
     (\<lambda>_. onview (assured R idle {} {})) (onview (once R))"
proof -
  have "triple (\<lambda>s. onview (assured R (holds op) {} {}) s \<and> jo_payload op = p \<and> validate_payload R p = return ())
      (recover_prepared H env' op) (\<lambda>_. onview (assured R idle {} {})) (onview (once R))" for op env'
  proof (cases "jo_payload op = p \<and> validate_payload R p = return ()")
    case True
    then show ?thesis by (intro triple_pre [OF recover_prepared_once [OF H]]) auto
  next
    case False
    then show ?thesis by (auto simp: triple_def)
  qed
  moreover have "triple (onview (assured R (\<lambda>j calls. may_create p calls) {} {}))
      (journal_write (prepare_operation R stamp k p))
      (\<lambda>op s. onview (assured R (holds op) {} {}) s \<and> jo_payload op = p \<and> validate_payload R p = return ())
      (onview (once R))" for stamp k
    by (rule tripleI) (erule (1) prepare_once, metis journal_write_Inl assured_once onview_def)
  ultimately show ?thesis unfolding carry_out_def H by (rule triple_bind [rotated])
qed

end
