(* ===== verification/HarnessCalls.thy ===== *)
theory HarnessCalls
  imports HarnessRuns
begin

text \<open>
  The invariant of \<open>HarnessRuns\<close> for every entry point of the control loop.
\<close>

subsection \<open>Steps with a known result\<close>

lemma triple_known:
  assumes "triple P m (\<lambda>_. Q') E" "\<And>s x t. m s = (Inr x, t) \<Longrightarrow> F x" "\<And>x. F x \<Longrightarrow> triple Q' (f x) Q E"
  shows "triple P (bindA m f) Q E"
proof -
  have "triple P m (\<lambda>x s. Q' s \<and> F x) E"
    by (rule tripleI) (auto dest: tripleD [OF assms(1)] intro: assms(2))
  moreover have "triple (\<lambda>s. Q' s \<and> F x) (f x) Q E" for x
  proof (cases "F x")
    case True
    show ?thesis by (rule triple_pre [OF assms(3) [OF True]]) simp
  qed (simp add: triple_def)
  ultimately show ?thesis by (rule triple_bind)
qed

lemma triple_lifted:
  assumes "\<And>x. r = Inr x \<Longrightarrow> triple P (f x) Q E" "\<And>s. P s \<Longrightarrow> E s"
  shows "triple P (bindA (liftA (mapErr h r)) f) Q E"
  using assms by (cases r) (auto simp: triple_def bindA_def)

lemma triple_cases:
  "(\<And>e. x = Inl e \<Longrightarrow> triple P (f e) Q E) \<Longrightarrow> (\<And>y. x = Inr y \<Longrightarrow> triple P (g y) Q E) \<Longrightarrow>
   triple P (case x of Inl e \<Rightarrow> f e | Inr y \<Rightarrow> g y) Q E"
  by (cases x) simp_all

lemma triple_pair: "(\<And>y z. triple P (f y z) Q E) \<Longrightarrow> triple P (case x of (y, z) \<Rightarrow> f y z) Q E"
  by (cases x) simp

lemma triple_let: "(\<And>y. y = v \<Longrightarrow> triple P (f y) Q E) \<Longrightarrow> triple P (let y = v in f y) Q E"
  by simp

lemma make_record_action: "make_record H env a q d st nf s = (Inr r, t) \<Longrightarrow> er_action_id r = pa_action_id a"
  by (auto simp: make_record_def Let_def bindA_Inr contract_def validate_evidence_def)

lemma prepare_action: "prepare R cfg ck k a x y z w q d m o' e = return p \<Longrightarrow> ap_action_id p = pa_action_id a"
  by (auto simp: prepare_def Let_def new_approval_def action_snapshot_of_def split: if_splits)

abbreviation settled :: "runtime \<Rightarrow> harness_state \<Rightarrow> bool" where
  "settled R \<equiv> onview (assured R idle {} {})"

text \<open>The action can be performed, and is on record or not yet.\<close>

abbreviation clear :: "runtime \<Rightarrow> action \<Rightarrow> harness_state \<Rightarrow> bool" where
  "clear R a \<equiv> onview (assured R (unperformed (pa_action_id a)) {} {pa_action_id a})"

abbreviation noted :: "runtime \<Rightarrow> action \<Rightarrow> harness_state \<Rightarrow> bool" where
  "noted R a \<equiv> onview (assured R (unperformed (pa_action_id a)) {pa_action_id a} {pa_action_id a})"

lemma clear_settled: "clear R a s \<Longrightarrow> settled R s"
  by (erule assured_weaken) auto

lemma noted_settled: "noted R a s \<Longrightarrow> settled R s"
  by (erule assured_weaken) auto

lemma carry_out_plain:
  assumes "hc_runtime H = R" "\<And>p z e. q \<noteq> ApprovalCreate p z e"
  shows "triple (onview (assured R J A B)) (carry_out H env q) (\<lambda>_. settled R) (onview (once R))"
proof -
  have "may_create q calls" for calls using assms(2) by (cases q) (auto simp: may_create_def)
  then show ?thesis by (intro triple_pre [OF carry_out_once [OF assms(1)]]) (auto elim!: assured_weaken)
qed

subsection \<open>Expiry\<close>

lemma expire_held_once:
  assumes "hc_runtime H = R"
  shows "triple (settled R) (expire_held H env p a q d) (\<lambda>_. settled R) (onview (once R))"
  unfolding expire_held_def
  by (rule triple_steps, intro keeps_rules)+
    (rule triple_bind [OF carry_out_plain [OF assms]], simp, rule triple_ok)

lemma triple_keeps_ok: "triple (onview (assured R J A B)) (okA x) (\<lambda>_. onview (assured R J A B)) (onview (once R))"
  by (rule keeps_triple) (intro keeps_rules)

lemma expire_approval_once:
  assumes "hc_runtime H = R"
  shows "triple (settled R) (expire_approval H env p) (\<lambda>_. settled R) (onview (once R))"
  unfolding expire_approval_def
  by (intro triple_cases triple_keeps_ok triple_steps keeps_steps expire_held_once [OF assms])

lemma expire_each_once:
  assumes "hc_runtime H = R"
  shows "triple (settled R) (expire_each H env n ps) (\<lambda>_. settled R) (onview (once R))"
proof (induction ps arbitrary: n)
  case Nil
  show ?case unfolding expire_each.simps by (rule triple_keeps_ok)
next
  case (Cons p ps)
  show ?case unfolding expire_each.simps
    by (rule triple_bind [OF expire_approval_once [OF assms]], rule triple_bind [OF Cons.IH], rule triple_keeps_ok)
qed

lemma reconcile_expired_once:
  assumes "hc_runtime H = R"
  shows "triple (onview (once R)) (reconcile_expired_approvals H env) (\<lambda>_. settled R) (onview (once R))"
  unfolding reconcile_expired_approvals_def
  by (rule triple_bind [OF recover_operation_once [OF assms]])
    (intro triple_steps keeps_steps triple_bind [OF expire_each_once [OF assms]] triple_keeps_ok)

subsection \<open>Execution\<close>

lemma record_once:
  "triple (onview (assured R J A B)) (record_evidence H env a q d st nf)
     (\<lambda>_. onview (assured R J (insert (pa_action_id a) A) B)) (onview (once R))"
  unfolding record_evidence_def
proof (rule triple_known)
  show "triple (onview (assured R J A B)) (make_record H env a q d st nf) (\<lambda>_. onview (assured R J A B)) (onview (once R))"
    by (intro keeps_triple keeps_steps)
  show "make_record H env a q d st nf s = (Inr r, t) \<Longrightarrow> er_action_id r = pa_action_id a" for s r t
    by (rule make_record_action)
  show "triple (onview (assured R J A B)) (evidence_write (append_evidence (hc_runtime H) (hc_profile H) (stamp_at 4 env) r))
      (\<lambda>_. onview (assured R J (insert (pa_action_id a) A) B)) (onview (once R))"
    if "er_action_id r = pa_action_id a" for r
    using appended_records [of R J A B "hc_runtime H" "hc_profile H" "stamp_at 4 env" r] that by simp
qed

lemma keeps_record_evidence [keeps_rules]: "keeps (onview (assured R J A B)) (record_evidence H env a q d st nf)"
  unfolding record_evidence_def by (intro keeps_rules)

lemma execute_tool_called:
  "tl_called (snd (execute_tool R reg a dry t)) = tl_called t
   \<or> tl_called (snd (execute_tool R reg a dry t)) = tl_called t @ [a]"
  by (auto simp: execute_tool_def bindA_def spend_grant_def call_handler_def split: sum.splits option.splits prod.splits)

lemma once_performs:
  assumes "assured R (unperformed (pa_action_id a)) {pa_action_id a} {pa_action_id a} (d, ls, j, calls)"
  shows "assured R idle {} {} (d, ls, j, calls @ [a])"
proof -
  have o: "once R (d, ls, j, calls)" "j = None" "pa_action_id a \<notin> pa_action_id ` set calls"
    "pa_action_id a \<in> recorded ls" "pa_action_id a \<notin> startable d"
    using assms by (auto simp: assured_def)
  then show ?thesis by (simp add: assured_def once_def Int_insert_right)
qed

lemma run_tool_once:
  "triple (noted R a) (run_tool H a g) (\<lambda>_. settled R) (onview (once R))"
proof -
  have "settled R (snd (put_tools (execute_tool (hc_runtime H) (hc_registry H) a dry) s))" if "noted R a s" for dry s
  proof -
    let ?t = "snd (put_tools (execute_tool (hc_runtime H) (hc_registry H) a dry) s)"
    have "view ?t = view s \<or> view ?t = (hn_approvals s, es_lines (hn_evidence s), hn_journal s, tl_called (hn_tools s) @ [a])"
      using execute_tool_called [of "hc_runtime H" "hc_registry H" a dry "hn_tools s"]
      by (auto simp: put_tools_def view_def split: prod.splits)
    then show ?thesis
    proof
      assume "view ?t = view s"
      then show ?thesis using noted_settled [OF that] by (simp add: onview_def)
    next
      assume "view ?t = (hn_approvals s, es_lines (hn_evidence s), hn_journal s, tl_called (hn_tools s) @ [a])"
      then show ?thesis using once_performs that by (simp add: onview_def view_def)
    qed
  qed
  then have "triple (noted R a) (put_tools (execute_tool (hc_runtime H) (hc_registry H) a dry)) (\<lambda>_. settled R) (onview (once R))" for dry
    by (intro tripleI) (metis snd_conv assured_once)+
  moreover have "triple (noted R a) (writeA (\<lambda>s. s\<lparr>hn_tools := (hn_tools s)\<lparr>tl_grant := Some g\<rparr>\<rparr>)) (\<lambda>_. noted R a) (onview (once R))"
    by (simp add: triple_def onview_def view_def)
  ultimately show ?thesis unfolding run_tool_def by (rule triple_bind [rotated])
qed

lemma complete_known_once:
  assumes "hc_runtime H = R"
  shows "triple (settled R) (complete_known_result H env obj a q d r e by' k) (\<lambda>_. settled R) (onview (once R))"
proof -
  have c: "triple (settled R) (bindA (carry_out H env' (ExecutionComplete x k e z disp r')) (\<lambda>_. okA y))
    (\<lambda>_. settled R) (onview (once R))" for env' x z disp r' and y :: "evidence_record \<times> tool_result"
    by (rule triple_bind [OF carry_out_plain [OF assms]], simp, rule triple_keeps_ok)
  show ?thesis
    unfolding complete_known_result_def Let_def
    by (intro triple_steps keeps_rules c)
qed

lemma execute_action_once:
  assumes "hc_runtime H = R"
  shows "triple (clear R a) (execute_action H env a q d e by' k) (\<lambda>_. settled R) (onview (once R))"
  unfolding execute_action_def
proof (rule triple_bind [OF record_once], rule triple_steps, intro keeps_rules, rule triple_bind [OF run_tool_once])
  show "triple (settled R) (bindA (contract (evidence_to_dict (hc_runtime H) auth)) (\<lambda>(_, obj).
     bindA (complete_known_result H (inside 3 env) obj a q d r e by' k) (\<lambda>(final, r).
       okA (outcome a d (er_result_status final) (er_record_id final) k (Some r) (tr_summary r)))))
     (\<lambda>_. settled R) (onview (once R))" for auth r
    by (intro triple_steps keeps_rules triple_pair triple_bind [OF complete_known_once [OF assms]] triple_keeps_ok)
qed

subsection \<open>Resumption\<close>

lemma started_unstartable:
  assumes "store_ok R d" "one_active d" "begin_execution R cfg ck k a d = (return q, t)"
  shows "calm R d t \<and> pa_action_id a \<in> startable d \<and> pa_action_id a \<notin> startable t"
  using assms(1,3)
proof (rule begin_executionE)
  fix p
  assume p: "dict_get k d = Some p" "ap_status p = Approved" "ap_action_id p = pa_action_id a"
    and u: "update_stored R (\<lambda>p. p\<lparr>ap_status := Executing\<rparr>) p d = return (q, t)"
  have c: "touches R d k (q, t)" by (rule touchesI [OF assms(1) p(1) updates_advance(3) [OF p(2)] u])
  have q: "ap_status q = Executing" using update_result [OF u] by simp
  have "pa_action_id a \<notin> startable t"
  proof
    assume "pa_action_id a \<in> startable t"
    then obtain l x where x: "dict_get l t = Some x" "ap_action_id x = pa_action_id a" "ap_status x \<in> {Pending, Approved}"
      by (auto simp: startable_def)
    have "l \<noteq> k" using x q c by (auto simp: touches_def)
    then have "dict_get l d = Some x" using x(1) c by (simp add: touches_def)
    moreover have "is_active x" "is_active p" using x(3) p(2) by (auto simp: is_active_def)
    ultimately show False using assms(2) p(1,3) x(2) \<open>l \<noteq> k\<close> unfolding one_active_def by metis
  qed
  moreover have "ap_action_id p \<in> startable d" unfolding startable_def using p(1,2) by blast
  ultimately show ?thesis using touches_calm [OF c assms(2)] p(3) by simp
qed

lemma begin_execution_calm:
  assumes "store_ok R d" "one_active d"
  shows "calm R d (snd (begin_execution R cfg ck k a d))"
proof -
  obtain r t where b: "begin_execution R cfg ck k a d = (r, t)" by fastforce
  show ?thesis
    using begin_execution_touches [OF assms(1) b] touches_calm [OF _ assms(2)] calm_refl [OF assms] b by auto
qed

lemma begin_execution_once:
  "triple (settled R) (approval_effect (begin_execution R cfg ck k a)) (\<lambda>_. clear R a) (onview (once R))"
proof (rule tripleI)
  have k: "keeps (settled R) (approval_effect (begin_execution R cfg ck k a))"
    by (rule keeps_put_approvals, rule robust_calm(1) [OF robust_assured], assumption, rule begin_execution_calm)
      (auto dest: robust_calm(2,3) [OF robust_assured])
  fix s e t assume "settled R s" "approval_effect (begin_execution R cfg ck k a) s = (Inl e, t)"
  then show "onview (once R) t" using keepsD [OF k] by (metis assured_once snd_conv)
next
  fix s x t assume s: "settled R s" and b: "approval_effect (begin_execution R cfg ck k a) s = (Inr x, t)"
  obtain q d where q: "begin_execution R cfg ck k a (hn_approvals s) = (return q, d)"
    and v: "view t = (d, es_lines (hn_evidence s), hn_journal s, tl_called (hn_tools s))"
    using b by (auto simp: approval_effect_def bindA_def spend_write_def put_approvals_def view_def
        split: if_splits prod.splits sum.splits)
  have o: "once R (hn_approvals s, es_lines (hn_evidence s), hn_journal s, tl_called (hn_tools s))" "hn_journal s = None"
    using s by (auto simp: onview_def assured_def view_def)
  have c: "calm R (hn_approvals s) d" "pa_action_id a \<in> startable (hn_approvals s)" "pa_action_id a \<notin> startable d"
    using started_unstartable [OF _ _ q] once_valid [OF o(1)] by auto
  have "pa_action_id a \<notin> pa_action_id ` set (tl_called (hn_tools s))"
    using o(1) c(2) by (auto simp: once_def)
  then show "clear R a t"
    using once_calm [OF o(1) c(1)] o(2) c(3) by (simp add: onview_def v assured_def)
qed

lemma settle_and_get_once:
  assumes "hc_runtime H = R"
  shows "triple (onview (once R)) (settle_and_get H env k) (\<lambda>_. settled R) (onview (once R))"
  unfolding settle_and_get_def
  by (rule triple_bind [OF recover_operation_once [OF assms]],
      rule triple_bind [OF triple_conseq [OF reconcile_expired_once [OF assms]]], erule assured_once)
    (assumption | intro triple_steps keeps_triple keeps_steps)+

lemma keeps_finish_blocked [keeps_rules]:
  "hc_runtime H = R \<Longrightarrow> keeps (onview (assured R J A B)) (finish_blocked H env p a q d by')"
  unfolding finish_blocked_def by (simp, intro keeps_rules)

lemma keeps_authorize_external [keeps_rules]:
  "keeps (onview (assured R J A B)) (authorize_external H env a q d by' k)"
  unfolding authorize_external_def by (intro keeps_rules)

lemma to_once: "triple P m (\<lambda>_. settled R) (onview (once R)) \<Longrightarrow> triple P m (\<lambda>_. onview (once R)) (onview (once R))"
  by (erule triple_conseq) (auto dest: assured_once)

lemma keeps_settled:
  "keeps (onview (assured R (unperformed (pa_action_id a)) {} {pa_action_id a})) m \<Longrightarrow>
   triple (clear R a) m (\<lambda>_. settled R) (onview (once R))"
  by (drule keeps_triple, erule triple_conseq) (auto dest: clear_settled)

lemma resume_external_once:
  assumes "hc_runtime H = R"
  shows "triple (onview (once R)) (resume_external H env k) (\<lambda>_. settled R) (onview (once R))"
proof -
  have "triple (settled R)
      (bindA (checkA b e) (\<lambda>_. bindA (held_contracts H p) (\<lambda>(a, q, d0).
       bindA (current_decision H (inside 2 env) a q d0) (\<lambda>d.
       bindA (approval_effect (begin_execution (hc_runtime H) (hc_approvals H) (clock_at 3 env) k a)) (\<lambda>_.
         if gd_decision d = Block then finish_blocked H (inside 4 env) p a q d (ap_decided_by p)
         else authorize_external H (inside 5 env) a q d (ap_decided_by p) k)))))
      (\<lambda>_. settled R) (onview (once R))" for b e p
    unfolding assms
    by (intro triple_steps keeps_pure keeps_steps triple_pair triple_bind [OF begin_execution_once] keeps_settled
        keeps_if keeps_finish_blocked keeps_authorize_external assms)
  then have "triple (onview (once R)) (bindA (settle_and_get H (inside 1 env) k) (\<lambda>p.
      bindA (checkA (ap_status p = Approved) NotResumable) (\<lambda>_. bindA (held_contracts H p) (\<lambda>(a, q, d0).
       bindA (current_decision H (inside 2 env) a q d0) (\<lambda>d.
       bindA (approval_effect (begin_execution (hc_runtime H) (hc_approvals H) (clock_at 3 env) k a)) (\<lambda>_.
         if gd_decision d = Block then finish_blocked H (inside 4 env) p a q d (ap_decided_by p)
         else authorize_external H (inside 5 env) a q d (ap_decided_by p) k))))))
      (\<lambda>_. settled R) (onview (once R))"
    by (rule triple_bind [OF settle_and_get_once [OF assms]])
  then show ?thesis
    unfolding resume_external_def require_execution_enabled_def
    by (auto simp: triple_def bindA_def checkA_def)
qed

lemma resume_rejected_once:
  assumes "hc_runtime H = R"
  shows "triple (settled R) (resume_rejected H env p a q d x y w) (\<lambda>_. settled R) (onview (once R))"
proof -
  have c: "triple (settled R) (bindA (carry_out H env' (ApprovalReject k1 k2 k3 z x' y' w' r)) (\<lambda>_. okA o'))
    (\<lambda>_. settled R) (onview (once R))" for env' k1 k2 k3 z x' y' w' r and o' :: action_outcome
    by (rule triple_bind [OF carry_out_plain [OF assms]], simp, rule triple_keeps_ok)
  show ?thesis
    unfolding resume_rejected_def by (intro triple_steps keeps_steps triple_pair c)
qed

lemma resume_approved_once:
  assumes "hc_runtime H = R"
  shows "triple (settled R) (resume_approved H env p a q d by') (\<lambda>_. settled R) (onview (once R))"
  unfolding resume_approved_def assms
  by (rule triple_steps, intro keeps_steps, rule triple_bind [OF begin_execution_once], intro triple_if keeps_settled triple_steps keeps_steps keeps_finish_blocked execute_action_once assms)

lemma triple_disabled:
  "triple P m Q (onview (once R)) \<Longrightarrow> (\<And>s. P s \<Longrightarrow> onview (once R) s) \<Longrightarrow>
   triple P (bindA (if b then require_execution_enabled H else okA ()) (\<lambda>_. m)) Q (onview (once R))"
  by (auto simp: triple_def bindA_def require_execution_enabled_def checkA_def)

lemma resume_once:
  assumes "hc_runtime H = R"
  shows "triple (onview (once R)) (resume H env k b x y w) (\<lambda>_. settled R) (onview (once R))"
proof -
  have "triple (settled R) (bindA (checkA c e) (\<lambda>_. bindA (held_contracts H p) (\<lambda>(a, q, d0).
       if b
       then bindA (if ap_status p = Pending
             then approval_write (decide (hc_runtime H) (hc_approvals H) (clock_at 2 env) k True x y w)
             else okA p) (\<lambda>p. resume_approved H (inside 3 env) p a q d0 x)
       else bindA (checkA (ap_status p = Pending) NotRejectable) (\<lambda>_.
           resume_rejected H (inside 4 env) p a q d0 x y w))))
     (\<lambda>_. settled R) (onview (once R))" for c e p
    unfolding assms
    by (intro triple_steps keeps_pure keeps_steps triple_pair triple_if keeps_if keeps_queue
        resume_approved_once resume_rejected_once assms)
  then have "triple (onview (once R)) (bindA (settle_and_get H (inside 1 env) k) (\<lambda>p.
      bindA (checkA (ap_status p \<in> {Pending, Approved}) NotResumable) (\<lambda>_. bindA (held_contracts H p) (\<lambda>(a, q, d0).
       if b
       then bindA (if ap_status p = Pending
             then approval_write (decide (hc_runtime H) (hc_approvals H) (clock_at 2 env) k True x y w)
             else okA p) (\<lambda>p. resume_approved H (inside 3 env) p a q d0 x)
       else bindA (checkA (ap_status p = Pending) NotRejectable) (\<lambda>_.
           resume_rejected H (inside 4 env) p a q d0 x y w)))))
      (\<lambda>_. settled R) (onview (once R))"
    by (rule triple_bind [OF settle_and_get_once [OF assms]])
  then show ?thesis unfolding resume_def by (rule triple_disabled)
qed

subsection \<open>External completion and reconciliation\<close>

lemma complete_external_once:
  assumes "hc_runtime H = R"
  shows "triple (onview (once R)) (complete_external_call H env a q d v k) (\<lambda>_. settled R) (onview (once R))"
proof -
  have "triple (onview (once R)) (bindA (recover_operation H (inside 1 env)) (\<lambda>_.
     bindA (require_safe H) (\<lambda>_.
     bindA (contract (validate_request (hc_runtime H) q)) (\<lambda>q.
     bindA (contract (seal_fingerprints (hc_runtime H) a)) (\<lambda>a.
     bindA (hashed (authorization_hash (hc_runtime H) a)) (\<lambda>ah.
     bindA (evidence_read (by_action (pa_action_id a))) (\<lambda>objs.
       case find (is_authorization_of ah) (rev objs) of
         None \<Rightarrow> failA NoSealedAuthorization
       | Some obj \<Rightarrow>
           bindA (contract (basis_of H (Some (hd objs)))) (\<lambda>basis.
           bindA (remember_action_basis (pa_action_id a) basis) (\<lambda>_.
           bindA (checkA (field_is ''request_id'' (hr_request_id q) obj
             \<and> field_is ''decision'' (decision_value (gd_decision d)) obj
             \<and> field_is ''ruleset_hash'' (gd_ruleset_hash d) obj) ExternalMismatch) (\<lambda>_.
           bindA (checkA (\<not> list_ex has_outcome objs) AlreadyTerminal) (\<lambda>_.
           bindA (liftA (mapErr HarnessTool (new_result (hc_runtime H) (lit ''succeeded'')
              (lit ''external tool '' @ pa_tool_name a @ lit '' completed'') v zero False))) (\<lambda>r.
           bindA (external_approval H k a ah) (\<lambda>approved_by.
           bindA (budget_read (reservation_for (pa_action_id a))) (\<lambda>estimate.
           bindA (complete_known_result H (inside 2 env) obj a q d r estimate approved_by k) (\<lambda>(record, r).
             okA (outcome a d Succeeded (er_record_id record) k (Some r) (tr_summary r)))))))))))))))))
     (\<lambda>_. settled R) (onview (once R))"
    by (rule triple_bind [OF recover_operation_once [OF assms]])
      (intro triple_steps keeps_pure keeps_steps triple_option keeps_triple
        triple_bind [OF complete_known_once [OF assms]] triple_pair)
  then show ?thesis
    unfolding complete_external_call_def using triple_disabled [where b = True] by simp
qed

lemma keeps_reconciled [keeps_rules]:
  "keeps (onview (assured R J A B)) (reconciled_evidence H env p a q d oc rc)"
  unfolding reconciled_evidence_def by (intro keeps_rules)

lemma reconcile_execution_once:
  assumes "hc_runtime H = R"
  shows "triple (onview (once R)) (reconcile_execution H env k oc x y w) (\<lambda>_. settled R) (onview (once R))"
  unfolding reconcile_execution_def assms
  by (rule triple_bind [OF recover_operation_once [OF assms]], intro keeps_triple keeps_rules)

lemma reconcile_open_once:
  assumes "hc_runtime H = R"
  shows "triple (settled R) (reconcile_open H env obj sub st oc x y w) (\<lambda>_. settled R) (onview (once R))"
proof -
  have c: "triple (settled R) (bindA (carry_out H env' (AuthorizationReconcile sub z oc x y w r)) (\<lambda>_. okA o'))
    (\<lambda>_. settled R) (onview (once R))" for env' z r and o' :: authorization_outcome
    by (rule triple_bind [OF carry_out_plain [OF assms]], simp, rule triple_keeps_ok)
  show ?thesis unfolding reconcile_open_def Let_def by (intro triple_steps keeps_steps c)
qed

lemma reconcile_authorization_once:
  assumes "hc_runtime H = R"
  shows "triple (onview (once R)) (reconcile_authorization H env k oc x y w) (\<lambda>_. settled R) (onview (once R))"
  unfolding reconcile_authorization_def Let_def
  by (rule triple_bind [OF recover_operation_once [OF assms]])
    (intro triple_steps keeps_pure keeps_steps triple_option keeps_triple reconcile_open_once [OF assms])

subsection \<open>A proposed action\<close>

lemma hold_once:
  assumes "hc_runtime H = R"
  shows "triple (clear R a) (hold_for_approval H env a q d e ow key) (\<lambda>_. settled R) (onview (once R))"
proof -
  have c: "triple (clear R a) (bindA (carry_out H env' (ApprovalCreate p z r)) (\<lambda>_. okA o'))
    (\<lambda>_. settled R) (onview (once R))" if "ap_action_id p = pa_action_id a" for env' p z r and o' :: action_outcome
  proof (rule triple_bind [OF triple_pre [OF carry_out_once [OF assms]]])
    show "clear R a s \<Longrightarrow> onview (assured R (\<lambda>j calls. may_create (ApprovalCreate p z r) calls) {} {}) s" for s
      by (erule assured_weaken) (auto simp: may_create_def that)
  qed (rule triple_keeps_ok)
  show ?thesis
    unfolding hold_for_approval_def held_part_def
    by (rule triple_lifted) (auto dest!: prepare_action assured_once intro!: triple_steps keeps_steps c)
qed

lemma proceed_once:
  assumes "hc_runtime H = R"
  shows "triple (clear R a) (proceed H env a q d e ow key ext) (\<lambda>_. settled R) (onview (once R))"
  unfolding proceed_def
  by (intro triple_if hold_once [OF assms] triple_steps keeps_if keeps_steps keeps_pure
      execute_action_once [OF assms] keeps_settled keeps_authorize_external)

lemma keeps_blocked [keeps_rules]:
  "keeps (onview (assured R J A B)) (terminal_outcome H env a q d st)"
  "keeps (onview (assured R J A B)) (blocked_outcome H env a q reason p extra)"
  unfolding blocked_outcome_def terminal_outcome_def by (intro keeps_rules)+

lemma propose_once:
  assumes "hc_runtime H = R"
  shows "triple (clear R a) (propose H env a q ow key ext) (\<lambda>_. settled R) (onview (once R))"
  unfolding propose_def Let_def
  by (intro triple_if keeps_settled keeps_blocked triple_steps keeps_steps triple_option triple_pair
      proceed_once [OF assms])

lemma first_read_once:
  "triple (settled R) (evidence_read (first_by_action (pa_action_id a)))
     (\<lambda>prior s. settled R s \<and> (prior = None \<longrightarrow> clear R a s)) (onview (once R))"
proof (rule tripleI)
  fix s x t assume s: "settled R s" and r: "evidence_read (first_by_action (pa_action_id a)) s = (Inr x, t)"
  then have t: "t = s" "first_by_action (pa_action_id a) (es_lines (hn_evidence s)) = return x"
    by (auto simp: evidence_read_def)
  have "clear R a s" if "x = None"
  proof -
    have n: "pa_action_id a \<notin> recorded (es_lines (hn_evidence s))"
      using t(2) that by (auto dest: first_by_action_None)
    have o: "once R (view s)" "hn_journal s = None" using s by (auto simp: onview_def assured_def view_def)
    have "startable (hn_approvals s) \<subseteq> recorded (es_lines (hn_evidence s))"
    proof (rule subset_trans)
      show "startable (hn_approvals s) \<subseteq> queued (hn_approvals s)" by (auto simp: startable_def queued_def)
      show "queued (hn_approvals s) \<subseteq> recorded (es_lines (hn_evidence s))"
        using o by (simp add: once_def view_def)
    qed
    then have "pa_action_id a \<notin> startable (hn_approvals s)" using n by blast
    moreover have "pa_action_id a \<notin> pa_action_id ` set (tl_called (hn_tools s))"
      using o(1) n by (auto simp: once_def view_def)
    ultimately show ?thesis using o by (simp add: onview_def assured_def view_def)
  qed
  then show "settled R t \<and> (x = None \<longrightarrow> clear R a t)" using s t(1) by simp
qed (auto simp: evidence_read_def dest: assured_once)

lemma handle_once:
  assumes "hc_runtime H = R"
  shows "triple (onview (once R)) (handle H env a q ow key ext) (\<lambda>_. settled R) (onview (once R))"
proof -
  have rest: "triple (\<lambda>s. settled R s \<and> (prior = None \<longrightarrow> clear R a s))
      (bindA (contract c) (\<lambda>basis. bindA (remember_action_basis k basis) (\<lambda>_.
       if prior \<noteq> None then blocked_outcome H env1 a q reason p extra else propose H env2 a q ow key ext)))
      (\<lambda>_. settled R) (onview (once R))" for prior a q c k env1 env2 reason p extra
  proof (cases "prior = None")
    case True
    have "triple (clear R a) (bindA (contract c) (\<lambda>basis. bindA (remember_action_basis k basis) (\<lambda>_.
        propose H env2 a q ow key ext))) (\<lambda>_. settled R) (onview (once R))"
      by (intro triple_steps keeps_steps propose_once [OF assms])
    then show ?thesis using True by (auto elim: triple_pre)
  next
    case False
    have "triple (settled R) (bindA (contract c) (\<lambda>basis. bindA (remember_action_basis k basis) (\<lambda>_.
        blocked_outcome H env1 a q reason p extra))) (\<lambda>_. settled R) (onview (once R))"
      by (intro triple_steps keeps_steps keeps_triple keeps_blocked)
    then show ?thesis using False by (auto elim: triple_pre)
  qed
  have inner: "triple (onview (once R)) (bindA (recover_operation H (inside 1 env)) (\<lambda>_.
     bindA (reconcile_expired_approvals H (inside 2 env)) (\<lambda>_.
     bindA (require_safe H) (\<lambda>_.
     bindA (evidence_read (first_by_action (pa_action_id a))) (\<lambda>prior.
     bindA (contract (basis_of H prior)) (\<lambda>basis.
     bindA (remember_action_basis (pa_action_id a) basis) (\<lambda>_.
       if prior \<noteq> None
       then blocked_outcome H (inside 3 env) a q (lit ''duplicate action_id; replay refused'') ''duplicate_action'' []
       else propose H (inside 4 env) a q ow key ext))))))) (\<lambda>_. settled R) (onview (once R))" for a q
    by (rule triple_bind [OF recover_operation_once [OF assms]],
        rule triple_bind [OF triple_pre [OF reconcile_expired_once [OF assms] assured_once]], assumption,
        rule triple_steps, intro keeps_steps, rule triple_bind [OF first_read_once rest])
  have "triple (onview (once R)) (handle_action H env a q ow key ext) (\<lambda>_. settled R) (onview (once R))"
    unfolding handle_action_def contract_def
    by (intro triple_lifted inner [unfolded contract_def]) simp_all
  then show ?thesis unfolding handle_def using triple_disabled [where b = True] by simp
qed

end
