(* ===== verification/HarnessStores.thy ===== *)
theory HarnessStores
  imports HarnessCalls LedgerRuns
begin

text \<open>
  The stores as the control loop sees them: whatever holds of the queue, the evidence and the budget
  and is kept by the operations of each store, every part of the loop keeps, on every path.
\<close>

subsection \<open>Steps of the stores\<close>

text \<open>
  One call of the approval queue, one append to the evidence, and one command of the ledger. An
  append may be killed between its line and its checkpoint, which then stays where it was.
\<close>

definition call_step :: "runtime \<Rightarrow> approval_data \<Rightarrow> approval_data \<Rightarrow> bool" where
  "call_step R d t \<longleftrightarrow> (\<exists>cfg c. call_ok R c \<and> t = after_call R cfg c d)"

definition ledger_step :: "budget_state \<Rightarrow> budget_state \<Rightarrow> bool" where
  "ledger_step b t \<longleftrightarrow> (\<exists>c. run_ledger c b = return t)"

definition appended :: "runtime \<Rightarrow> evidence_state \<Rightarrow> evidence_state \<Rightarrow> bool" where
  "appended R e t \<longleftrightarrow> (\<exists>profile stamp r.
     t = snd (append_evidence R profile stamp r e) \<or> t = snd (append_idempotent R profile stamp r e))"

definition evidence_step :: "runtime \<Rightarrow> evidence_state \<Rightarrow> evidence_state \<Rightarrow> bool" where
  "evidence_step R e t \<longleftrightarrow> (\<exists>u. appended R e u \<and> (t = u \<or> t = u\<lparr>es_head := es_head e\<rparr>))"

lemma evidence_step_lines: "evidence_step R e t \<Longrightarrow> one_more (es_lines e) (es_lines t)"
  by (auto simp: evidence_step_def appended_def append_lines)

lemma evidence_steps:
  "appended R e u \<Longrightarrow> evidence_step R e u" "appended R e u \<Longrightarrow> evidence_step R e (u\<lparr>es_head := es_head e\<rparr>)"
  by (auto simp: evidence_step_def)

subsection \<open>Promises\<close>

locale store_promises =
  fixes R :: runtime
    and queue_inv :: "approval_data \<Rightarrow> bool"
    and evidence_inv :: "evidence_state \<Rightarrow> bool"
    and budget_inv :: "budget_state \<Rightarrow> bool"
    and calls_inv :: "action list \<Rightarrow> bool"
  assumes queue_call: "queue_inv d \<Longrightarrow> call_ok R c \<Longrightarrow> queue_inv (after_call R cfg c d)"
    and evidence_append: "evidence_inv e \<Longrightarrow> evidence_step R e f \<Longrightarrow> evidence_inv f"
    and budget_command: "budget_inv b \<Longrightarrow> run_ledger lc b = return t \<Longrightarrow> budget_inv t"
begin

definition stores :: "harness_state \<Rightarrow> bool" where
  "stores s \<longleftrightarrow> queue_inv (hn_approvals s) \<and> evidence_inv (hn_evidence s)
     \<and> budget_inv (hn_budget s) \<and> calls_inv (tl_called (hn_tools s))"

lemma stores_update [simp]:
  "stores (s\<lparr>hn_writes_left := n\<rparr>) = stores s" "stores (s\<lparr>hn_bases := d\<rparr>) = stores s"
  "stores (s\<lparr>hn_journal := j\<rparr>) = stores s"
  by (simp_all add: stores_def)

lemma spend_write_keeps: "keeps stores spend_write"
  by (rule keepsI) (simp add: spend_write_def)

lemma budget_write_keeps:
  assumes "\<And>b x t. f b = return (x, t) \<Longrightarrow> \<exists>c. run_ledger c b = return t"
  shows "keeps stores (budget_write f)"
proof -
  have "stores (snd (put_budget f s))" if "stores s" for s
  proof (cases "f (hn_budget s)")
    case (Inr p)
    then obtain x t where "f (hn_budget s) = return (x, t)" by (cases p) auto
    moreover from this obtain c where "run_ledger c (hn_budget s) = return t" using assms by blast
    ultimately show ?thesis using that budget_command by (auto simp: stores_def put_budget_def)
  qed (use that in \<open>simp add: put_budget_def\<close>)
  then show ?thesis unfolding budget_write_def by (intro keeps_bind spend_write_keeps keepsI)
qed

lemma budget_step_keeps:
  "(\<And>b t. f b = return t \<Longrightarrow> \<exists>c. run_ledger c b = return t) \<Longrightarrow> keeps stores (budget_step f)"
  unfolding budget_step_def by (rule budget_write_keeps) auto

lemma ledger_keeps:
  "keeps stores (budget_step (reserve v r a t1 t2))" "keeps stores (budget_step (ensure_reservation v r a t1 t2))"
  "keeps stores (budget_write (ensure_release v r a t1))" "keeps stores (budget_write (release r a t1))"
  "keeps stores (budget_write (ensure_settlement v w r a rid t1))"
  "keeps stores (budget_write (reconcile_reservation v i t1 t2))"
  subgoal by (rule budget_step_keeps, rule exI [of _ "Reserve v r a t1 t2"]) simp
  subgoal by (rule budget_step_keeps, rule exI [of _ "EnsureReservation v r a t1 t2"]) simp
  subgoal by (rule budget_write_keeps, rule exI [of _ "EnsureRelease v r a t1"]) simp
  subgoal by (rule budget_write_keeps, rule exI [of _ "Release r a t1"]) simp
  subgoal by (rule budget_write_keeps, rule exI [of _ "EnsureSettlement v w r a rid t1"]) simp
  subgoal by (rule budget_write_keeps, rule exI [of _ "Reconcile v i t1 t2"]) simp
  done

lemma approval_effect_keeps:
  assumes "\<And>d. queue_inv d \<Longrightarrow> queue_inv (snd (m d))"
  shows "keeps stores (approval_effect m)"
proof -
  have "stores (snd (put_approvals m s))" if "stores s" for s
    using that assms [of "hn_approvals s"]
    by (cases "m (hn_approvals s)") (simp add: stores_def put_approvals_def)
  then show ?thesis unfolding approval_effect_def by (intro keeps_bind spend_write_keeps keepsI)
qed

lemma approval_write_keeps:
  assumes "\<And>d q t. f d = return (q, t) \<Longrightarrow> \<exists>cfg c. call_ok R c \<and> t = after_call R cfg c d"
  shows "keeps stores (approval_write f)"
  unfolding approval_write_def
proof (rule approval_effect_keeps)
  fix d assume "queue_inv d"
  then show "queue_inv (snd (as_effect f d))"
    using assms [of d] queue_call by (cases "f d") (auto simp: as_effect_def)
qed

lemma queue_keeps:
  "keeps stores (approval_write (expire_one R ck k))"
  "keeps stores (approval_write (decide R cfg ck k b x y w))"
  "keeps stores (approval_write (ensure_rejected R cfg ck k x y w))"
  "keeps stores (approval_write (mark_consumed R ck k rid))"
  "keeps stores (approval_write (ensure_consumed R ck k rid))"
  "keeps stores (approval_write (begin_reconciliation R cfg ck k oc x y w))"
  "keeps stores (approval_write (mark_reconciled R ck k rid))"
  "keeps stores (approval_effect (begin_execution R cfg ck k a))"
  subgoal by (rule approval_write_keeps, rule exI, rule exI [of _ "ExpireOne ck k"]) (simp add: left_in_def)
  subgoal by (rule approval_write_keeps, rule exI [of _ cfg], rule exI [of _ "Decide ck k b x y w"]) (simp add: left_in_def)
  subgoal by (rule approval_write_keeps, rule exI [of _ cfg], rule exI [of _ "EnsureRejected ck k x y w"]) (simp add: left_in_def)
  subgoal by (rule approval_write_keeps, rule exI, rule exI [of _ "MarkConsumed ck k rid"]) (simp add: left_in_def)
  subgoal by (rule approval_write_keeps, rule exI, rule exI [of _ "EnsureConsumed ck k rid"]) (simp add: left_in_def)
  subgoal by (rule approval_write_keeps, rule exI [of _ cfg], rule exI [of _ "BeginReconciliation ck k oc x y w"]) (simp add: left_in_def)
  subgoal by (rule approval_write_keeps, rule exI, rule exI [of _ "MarkReconciled ck k rid"]) (simp add: left_in_def)
  subgoal using queue_call [of _ "BeginExecution ck k a" cfg] by (intro approval_effect_keeps) simp
  done

lemma create_keeps: "approval_ok R p \<Longrightarrow> keeps stores (approval_write (create_prepared R p))"
  by (rule approval_write_keeps, rule exI, rule exI [of _ "CreatePrepared p"]) (simp add: left_in_def)

lemma evidence_write_keeps:
  assumes "\<And>e. appended R e (snd (m e))"
  shows "keeps stores (evidence_write m)"
proof -
  have "stores (snd (put_evidence m s))" if "stores s" for s
    using that assms [of "hn_evidence s"] evidence_append evidence_steps
    by (cases "m (hn_evidence s)") (auto simp: stores_def put_evidence_def)
  then show ?thesis unfolding evidence_write_def by (intro keeps_bind spend_write_keeps keepsI)
qed

lemma evidence_keeps:
  "R' = R \<Longrightarrow> keeps stores (evidence_write (append_evidence R' profile stamp r))"
  "R' = R \<Longrightarrow> keeps stores (evidence_write (append_idempotent R' profile stamp r))"
  by (rule evidence_write_keeps; force simp: appended_def)+

lemma journal_keeps: "keeps stores (journal_write f)"
proof -
  have "keeps stores (put_journal f)"
    by (rule keepsI) (simp add: put_journal_def split: sum.split prod.split)
  then show ?thesis unfolding journal_write_def by (intro keeps_bind spend_write_keeps)
qed

lemma bases_keeps: "keeps stores (remember_action_basis a b)" "keeps stores (basis_for_action H a)"
proof -
  have w: "keeps stores (writeA (\<lambda>s. s\<lparr>hn_bases := f s\<rparr>))" for f by (rule keepsI) simp
  show r: "keeps stores (remember_action_basis a b)" for a b
    unfolding remember_action_basis_def contract_def by (intro keeps_bind keeps_pure w)
  show "keeps stores (basis_for_action H a)"
    unfolding basis_for_action_def evidence_read_def contract_def
    by (intro keeps_bind keeps_pure keeps_option w r)
qed

lemma read_keeps:
  "keeps stores (approval_read f)" "keeps stores (evidence_read g)" "keeps stores (budget_read h)"
  "keeps stores (contract r)" "keeps stores (hashed q)" "keeps stores (held_part v)"
  "keeps stores (require_execution_enabled H)" "keeps stores (require_safe H)"
  unfolding approval_read_def evidence_read_def budget_read_def contract_def hashed_def held_part_def
    require_execution_enabled_def require_safe_def
  by (intro keeps_pure)+

lemmas basic_keeps = keeps_bind keeps_pure keeps_if keeps_option keeps_prod keeps_let keeps_sum keeps_disposition
  read_keeps bases_keeps ledger_keeps journal_keeps evidence_keeps queue_keeps

lemma make_keeps:
  "keeps stores (make_record H env a q d st nf)" "keeps stores (journaled H r)"
  "keeps stores (control_decision H env a reason p extra)"
  unfolding make_record_def journaled_def control_decision_def Let_def by (intro basic_keeps)+

lemma record_keeps:
  assumes "hc_runtime H = R"
  shows "keeps stores (record_evidence H env a q d st nf)"
    "keeps stores (terminal_outcome H env a q d st)" "keeps stores (blocked_outcome H env a q reason p extra)"
    "keeps stores (authorize_external H env a q d by' k)"
proof -
  show e: "keeps stores (record_evidence H env a q d st nf)" for env a q d st nf
    unfolding record_evidence_def by (intro basic_keeps make_keeps assms)
  show t: "keeps stores (terminal_outcome H env a q d st)" for env a q d st
    unfolding terminal_outcome_def by (intro basic_keeps e)
  show "keeps stores (blocked_outcome H env a q reason p extra)"
    unfolding blocked_outcome_def by (intro basic_keeps make_keeps t)
  show "keeps stores (authorize_external H env a q d by' k)"
    unfolding authorize_external_def by (intro basic_keeps e)
qed

lemma lookup_keeps:
  "keeps stores (stored_authority k)" "keeps stores (authorization_terminal k h)" "keeps stores (require_same_terminal t k)"
  "keeps stores (known_approval H k)" "keeps stores (require_no_approval H k)" "keeps stores (validate_journaled_approval H k x y z)"
  "keeps stores (require_reconciliation_identity H now sub oc op rm att)" "keeps stores (release_if_reserved env z x y)"
  unfolding stored_authority_def authorization_terminal_def require_same_terminal_def known_approval_def
    require_no_approval_def validate_journaled_approval_def require_reconciliation_identity_def release_if_reserved_def
  by (intro basic_keeps)+

lemma decision_keeps:
  "keeps stores (held_contracts H p)" "keeps stores (resume_decision H env a q)" "keeps stores (current_decision H env a q d)"
  "keeps stores (over_budget H q e)" "keeps stores (release_reservation env p)" "keeps stores (external_approval H k a ah)"
  "keeps stores (status_of obj)" "keeps stores (reconciled_result H oc rc)" "keeps stores (completing_approval H env xs k rid)"
  "keeps stores (evaluate_action H env a q)"
  unfolding evaluate_action_def held_contracts_def resume_decision_def current_decision_def over_budget_def release_reservation_def
    external_approval_def status_of_def reconciled_result_def completing_approval_def
  by (intro basic_keeps make_keeps lookup_keeps)+

lemma lifted_keeps: "(\<And>x. r = Inr x \<Longrightarrow> keeps stores (f x)) \<Longrightarrow> keeps stores (bindA (liftA (mapErr h r)) f)"
  by (cases r) (auto simp: keeps_def triple_def bindA_def)

lemma recover_keeps:
  assumes "hc_runtime H = R"
  shows "keeps stores (apply_payload H env q r)"
proof -
  have c: "keeps stores (recover_create H env p z)" for p z
    unfolding recover_create_def assms
    by (rule lifted_keeps, intro basic_keeps create_keeps) (simp add: approval_ok_def)
  have o: "keeps stores (recover_reject H env k x y z by' rm att)" "keeps stores (recover_expire H env k x y z)"
    "keeps stores (recover_authorization H env sub z oc op rm att rid)"
    "keeps stores (recover_completion H env xs k z u disp r)" for k x y z by' rm att sub oc op rid xs u disp
    unfolding recover_reject_def recover_expire_def recover_authorization_def recover_completion_def assms
    by (intro basic_keeps lookup_keeps decision_keeps refl assms)+
  show ?thesis
    unfolding apply_payload_def Let_def
    by (cases q; simp only: journal_payload.case) (intro basic_keeps c o assms)+
qed

lemma operation_keeps:
  assumes "hc_runtime H = R"
  shows "keeps stores (recover_prepared H env op)" "keeps stores (recover_operation H env)"
    "keeps stores (carry_out H env q)"
proof -
  show p: "keeps stores (recover_prepared H env op)" for env op
    unfolding recover_prepared_def by (intro basic_keeps recover_keeps assms)
  show "keeps stores (recover_operation H env)" unfolding recover_operation_def by (intro basic_keeps p)
  show "keeps stores (carry_out H env q)" unfolding carry_out_def by (intro basic_keeps p)
qed

lemma completion_keeps:
  "hc_runtime H = R \<Longrightarrow> keeps stores (complete_known_result H env obj a q d r e by' k)"
  unfolding complete_known_result_def Let_def by (intro basic_keeps make_keeps operation_keeps)

lemma expiry_keeps:
  assumes "hc_runtime H = R"
  shows "keeps stores (expire_approval H env p)" "keeps stores (expire_each H env n ps)"
    "keeps stores (reconcile_expired_approvals H env)"
proof -
  show e: "keeps stores (expire_approval H env p)" for env p
    unfolding expire_approval_def expire_held_def by (intro basic_keeps make_keeps record_keeps operation_keeps assms)
  show l: "keeps stores (expire_each H env n ps)" for env n ps
    by (induction ps arbitrary: n) (simp_all only: expire_each.simps, intro basic_keeps e, intro keeps_bind e keeps_pure)
  show "keeps stores (reconcile_expired_approvals H env)"
    unfolding reconcile_expired_approvals_def by (intro basic_keeps operation_keeps assms l)
qed

text \<open>The parts of the loop that run no tool.\<close>

lemma quiet_keeps:
  assumes "hc_runtime H = R"
  shows "keeps stores (settle_and_get H env k)" "keeps stores (finish_blocked H env p a q d by')"
    "keeps stores (resume_rejected H env p a q d x y w)" "keeps stores (resume_external H env k)"
    "keeps stores (complete_external_call H env a q d v k)" "keeps stores (reconcile_execution H env k x y x' w)"
    "keeps stores (reconcile_authorization H env k x y x' w)" "keeps stores (hold_for_approval H env a q d e ow key)"
proof -
  show g: "keeps stores (settle_and_get H env k)" for env k
    unfolding settle_and_get_def by (intro basic_keeps operation_keeps expiry_keeps lookup_keeps assms)
  show f: "keeps stores (finish_blocked H env p a q d by')" for env p a q d by'
    unfolding finish_blocked_def assms by (intro basic_keeps decision_keeps record_keeps assms)
  show "keeps stores (resume_rejected H env p a q d x y w)"
    unfolding resume_rejected_def by (intro basic_keeps make_keeps record_keeps operation_keeps assms)
  show "keeps stores (resume_external H env k)"
    unfolding resume_external_def assms by (intro basic_keeps g f decision_keeps record_keeps assms refl)
  show "keeps stores (complete_external_call H env a q d v k)"
    unfolding complete_external_call_def
    by (intro basic_keeps operation_keeps decision_keeps completion_keeps assms)
  show "keeps stores (reconcile_execution H env k x y x' w)"
    unfolding reconcile_execution_def reconciled_evidence_def assms
    by (intro basic_keeps operation_keeps lookup_keeps decision_keeps make_keeps record_keeps assms)
  show "keeps stores (reconcile_authorization H env k x y x' w)"
    unfolding reconcile_authorization_def reconcile_open_def Let_def
    by (intro basic_keeps operation_keeps lookup_keeps make_keeps record_keeps assms)
  show "keeps stores (hold_for_approval H env a q d e ow key)"
    unfolding hold_for_approval_def by (intro basic_keeps make_keeps record_keeps operation_keeps assms)
qed

text \<open>With calls that may grow, the parts that run one.\<close>

lemma running_keeps:
  assumes H: "hc_runtime H = R" and c: "\<And>cs a. calls_inv cs \<Longrightarrow> calls_inv (cs @ [a])"
  shows "keeps stores (execute_action H env a q d e by' k)" "keeps stores (resume H env k b x y w)"
    "keeps stores (handle H env a q ow key ext)"
proof -
  have t: "keeps stores (run_tool H a g)" for a g
  proof -
    have "keeps stores (put_tools (execute_tool (hc_runtime H) (hc_registry H) a dry))" for dry
    proof (rule keepsI)
      fix s assume "stores s"
      then show "stores (snd (put_tools (execute_tool (hc_runtime H) (hc_registry H) a dry) s))"
        using execute_tool_called [of "hc_runtime H" "hc_registry H" a dry "hn_tools s"] c
        by (cases "execute_tool (hc_runtime H) (hc_registry H) a dry (hn_tools s)") (auto simp: put_tools_def stores_def)
    qed
    moreover have "keeps stores (writeA (\<lambda>s. s\<lparr>hn_tools := (hn_tools s)\<lparr>tl_grant := Some g\<rparr>\<rparr>))"
      by (rule keepsI) (simp add: stores_def)
    ultimately show ?thesis unfolding run_tool_def by (intro keeps_bind)
  qed
  show x: "keeps stores (execute_action H env a q d e by' k)" for env a q d e by' k
    unfolding execute_action_def by (intro basic_keeps record_keeps t completion_keeps H refl)
  show "keeps stores (resume H env k b x y w)"
    unfolding resume_def resume_approved_def H
    by (intro basic_keeps quiet_keeps decision_keeps x H)
  show "keeps stores (handle H env a q ow key ext)"
    unfolding handle_def handle_action_def propose_def proceed_def Let_def
    by (intro basic_keeps operation_keeps expiry_keeps record_keeps decision_keeps quiet_keeps x H)
qed

end

end
