(* ===== verification/HarnessAuthority.thy ===== *)
theory HarnessAuthority
  imports HarnessStores
begin

text \<open>
  What must hold when a handler runs: its action passed the tool contract and the current policy,
  its authorization is sealed in the evidence, and where the policy asks for a human the approval of
  this very action has been started.
\<close>

subsection \<open>Authority of an action\<close>

definition authorized :: "runtime \<Rightarrow> action \<Rightarrow> evidence_line list \<Rightarrow> bool" where
  "authorized R a ls \<longleftrightarrow> (\<exists>obj h. Line obj \<in> set ls \<and> field_is ''action_id'' (pa_action_id a) obj
     \<and> field_is ''result_status'' (status_value Skipped) obj
     \<and> authorization_hash R a = return h \<and> field_is ''authorization_hash'' h obj)"

text \<open>The action and the request an approval was made for.\<close>

definition holds_for :: "runtime \<Rightarrow> approval \<Rightarrow> action \<Rightarrow> harness_request \<Rightarrow> bool" where
  "holds_for R p a q \<longleftrightarrow> (\<exists>a0 q0. held_action p = return a0 \<and> seal_fingerprints R a0 = return a
     \<and> held_request p = return q0 \<and> validate_request R q0 = return q)"

text \<open>The approval under this key is of this very action and request, and has been started.\<close>

definition approved_for :: "runtime \<Rightarrow> pystr \<Rightarrow> action \<Rightarrow> harness_request \<Rightarrow> approval_data \<Rightarrow> bool" where
  "approved_for R k a q d \<longleftrightarrow> (\<exists>p. dict_get k d = Some p \<and> ap_status p \<in> {Executing, Consumed}
     \<and> ap_action_id p = pa_action_id a \<and> authorization_hash R a = return (ap_authorization_hash p)
     \<and> holds_for R p a q)"

text \<open>The current rules let the action run for this request, alone or with a human's approval.\<close>

definition permitted :: "harness \<Rightarrow> action \<Rightarrow> harness_request \<Rightarrow> bool \<Rightarrow> bool" where
  "permitted H a q approved \<longleftrightarrow> \<not> hc_execution_disabled H \<and> \<not> out_of_scope a q
     \<and> (\<exists>stamp d. evaluate (hc_runtime H) (hc_text H) (hc_policy H) stamp a (Some (context_of q)) = return d
          \<and> (gd_decision d = Allow \<or> (approved \<and> gd_decision d = ApprovalRequired)))"

definition worst_case :: "harness \<Rightarrow> action \<Rightarrow> decimal" where
  "worst_case H a = dec_max (pa_estimated_cost_usd a) (spec_cost H a)"

text \<open>The worst case of an action fits what is left and the limit of its request.\<close>

definition affordable :: "decimal \<Rightarrow> harness_request \<Rightarrow> budget_state \<Rightarrow> bool" where
  "affordable e q b \<longleftrightarrow> (\<exists>c. preflight (MDecimal e) (map_option MDecimal (hr_budget_limit_usd q)) b = return c \<and> ck_ok c)"

text \<open>
  From the first budget to the second one the worst case was found affordable and was set aside. An
  action that waited for an approval was set aside when it was held.
\<close>

definition set_aside :: "pystr option \<Rightarrow> decimal \<Rightarrow> action \<Rightarrow> harness_request \<Rightarrow> budget_state \<Rightarrow> budget_state \<Rightarrow> bool" where
  "set_aside ko e a q b x \<longleftrightarrow> ledger_step\<^sup>*\<^sup>* b x \<and> (ko = None \<and> dec_pos e \<longrightarrow>
     (\<exists>y z t1 t2. ledger_step\<^sup>*\<^sup>* b y \<and> affordable e q y
        \<and> reserve (MDecimal e) (hr_request_id q) (pa_action_id a) t1 t2 y = return z \<and> ledger_step\<^sup>*\<^sup>* z x))"

text \<open>What an action that ran was cleared by; it ran directly, or by the approval under a key.\<close>

definition cleared :: "harness \<Rightarrow> pystr option \<Rightarrow> budget_state \<Rightarrow> action \<Rightarrow> harness_request \<Rightarrow> harness_state \<Rightarrow> bool" where
  "cleared H ko b a q s \<longleftrightarrow> validate_action (hc_registry H) a = return () \<and> \<not> hc_dry_run H
     \<and> authorized (hc_runtime H) a (es_lines (hn_evidence s))
     \<and> permitted H a q (ko \<noteq> None)
     \<and> (\<forall>k. ko = Some k \<longrightarrow> approved_for (hc_runtime H) k a q (hn_approvals s))
     \<and> set_aside ko (worst_case H a) a q b (hn_budget s)"

type_synonym asking = "action \<Rightarrow> harness_request \<Rightarrow> pystr option \<Rightarrow> bool"

text \<open>No handler has run since these calls, or one that was asked for and cleared.\<close>

definition ran :: "harness \<Rightarrow> asking \<Rightarrow> budget_state \<Rightarrow> action list \<Rightarrow> harness_state \<Rightarrow> bool" where
  "ran H P b cs s \<longleftrightarrow> tl_called (hn_tools s) = cs
     \<or> (\<exists>a q ko. tl_called (hn_tools s) = cs @ [a] \<and> P a q ko \<and> cleared H ko b a q s)"

subsection \<open>What the stores keep of it\<close>

definition held_under :: "runtime \<Rightarrow> pystr \<Rightarrow> approval \<Rightarrow> approval_data \<Rightarrow> bool" where
  "held_under R k p d \<longleftrightarrow> store_ok R d \<and> (\<exists>r. dict_get k d = Some r \<and> binding_of r = binding_of p)"

definition started :: "runtime \<Rightarrow> pystr option \<Rightarrow> action \<Rightarrow> harness_request \<Rightarrow> approval_data \<Rightarrow> bool" where
  "started R ko a q d \<longleftrightarrow> store_ok R d \<and> (\<forall>k. ko = Some k \<longrightarrow> approved_for R k a q d)"

lemma binding_held:
  assumes "binding_of r = binding_of p"
  shows "held_action r = held_action p" "held_request r = held_request p"
  using arg_cong [OF assms, of ap_action_snapshot] arg_cong [OF assms, of ap_request_snapshot]
  by (simp_all add: binding_of_def held_action_def held_request_def)

lemma holds_for_binding:
  assumes "binding_of r = binding_of p"
  shows "holds_for R r a q \<longleftrightarrow> holds_for R p a q"
  unfolding holds_for_def binding_held [OF assms] ..

lemma evolves_approved: "evolves d t \<Longrightarrow> approved_for R k a q d \<Longrightarrow> approved_for R k a q t"
  unfolding approved_for_def
proof (elim exE conjE)
  fix p
  assume e: "evolves d t" and p: "dict_get k d = Some p" "ap_status p \<in> {Executing, Consumed}"
    "ap_action_id p = pa_action_id a" "authorization_hash R a = return (ap_authorization_hash p)" "holds_for R p a q"
  obtain r where r: "dict_get k t = Some r" "advances p r" using e p(1) by (auto simp: evolves_def)
  have b: "binding_of r = binding_of p" and st: "ap_status r = ap_status p \<or> lifecycle (ap_status p) (ap_status r)"
    using r(2) by (auto simp: advances_def)
  have "ap_status r \<in> {Executing, Consumed}" using st p(2) by auto
  then show "\<exists>p. dict_get k t = Some p \<and> ap_status p \<in> {Executing, Consumed}
     \<and> ap_action_id p = pa_action_id a \<and> authorization_hash R a = return (ap_authorization_hash p) \<and> holds_for R p a q"
    using r(1) p(3-5) binding_fields [OF b] holds_for_binding [OF b] by metis
qed

lemma started_call: "started R ko a q d \<Longrightarrow> call_ok R c \<Longrightarrow> started R ko a q (after_call R cfg c d)"
  using call_evolves [of R d c cfg] evolves_approved by (auto simp: started_def)

lemma held_under_evolves: "held_under R k p d \<Longrightarrow> store_ok R t \<Longrightarrow> evolves d t \<Longrightarrow> held_under R k p t"
  unfolding held_under_def evolves_def advances_def by metis

lemma held_call: "held_under R k p d \<Longrightarrow> call_ok R c \<Longrightarrow> held_under R k p (after_call R cfg c d)"
  using call_evolves [of R d c cfg] held_under_evolves unfolding held_under_def by blast

lemma authorized_more: "authorized R a (es_lines e) \<Longrightarrow> evidence_step R' e f \<Longrightarrow> authorized R a (es_lines f)"
  by (drule evidence_step_lines) (auto simp: authorized_def one_more_def)

lemma ledger_more: "ledger_step\<^sup>*\<^sup>* b x \<Longrightarrow> run_ledger c x = return t \<Longrightarrow> ledger_step\<^sup>*\<^sup>* b t"
  by (rule rtranclp.rtrancl_into_rtrancl) (auto simp: ledger_step_def)

lemma set_aside_more: "set_aside ko e a q b x \<Longrightarrow> run_ledger c x = return t \<Longrightarrow> set_aside ko e a q b t"
  unfolding set_aside_def using ledger_more by blast

interpretation waiting_stores: store_promises R "store_ok R" "\<lambda>_. True" "ledger_step\<^sup>*\<^sup>* b" "\<lambda>x. x = cs" for R b cs
  by unfold_locales (simp_all add: call_evolves ledger_more)

interpretation held_stores: store_promises R "held_under R k p" "\<lambda>_. True" "ledger_step\<^sup>*\<^sup>* b" "\<lambda>x. x = cs" for R k p b cs
  by unfold_locales (simp_all add: held_call ledger_more)

interpretation starting_stores: store_promises R "started R ko a q" "\<lambda>_. True" "set_aside ko e a q b" "\<lambda>x. x = cs"
  for R ko e a q b cs
  by unfold_locales (simp_all add: started_call set_aside_more)

interpretation granted_stores: store_promises R "started R ko a q" "\<lambda>e. authorized R a (es_lines e)" "set_aside ko e a q b" "\<lambda>x. x = cs"
  for R ko e a q b cs
  by unfold_locales (simp_all add: started_call authorized_more set_aside_more)

abbreviation waiting :: "runtime \<Rightarrow> budget_state \<Rightarrow> action list \<Rightarrow> harness_state \<Rightarrow> bool" where
  "waiting R b cs \<equiv> store_promises.stores (store_ok R) (\<lambda>_. True) (ledger_step\<^sup>*\<^sup>* b) (\<lambda>x. x = cs)"

abbreviation holding :: "runtime \<Rightarrow> pystr \<Rightarrow> approval \<Rightarrow> budget_state \<Rightarrow> action list \<Rightarrow> harness_state \<Rightarrow> bool" where
  "holding R k p b cs \<equiv> store_promises.stores (held_under R k p) (\<lambda>_. True) (ledger_step\<^sup>*\<^sup>* b) (\<lambda>x. x = cs)"

abbreviation starting ::
  "runtime \<Rightarrow> pystr option \<Rightarrow> decimal \<Rightarrow> action \<Rightarrow> harness_request \<Rightarrow> budget_state \<Rightarrow> action list \<Rightarrow> harness_state \<Rightarrow> bool" where
  "starting R ko e a q b cs \<equiv> store_promises.stores (started R ko a q) (\<lambda>_. True) (set_aside ko e a q b) (\<lambda>x. x = cs)"

abbreviation granted ::
  "runtime \<Rightarrow> pystr option \<Rightarrow> decimal \<Rightarrow> action \<Rightarrow> harness_request \<Rightarrow> budget_state \<Rightarrow> action list \<Rightarrow> harness_state \<Rightarrow> bool" where
  "granted R ko e a q b cs \<equiv>
     store_promises.stores (started R ko a q) (\<lambda>e. authorized R a (es_lines e)) (set_aside ko e a q b) (\<lambda>x. x = cs)"

subsection \<open>The authorization on record\<close>

lemma make_record_fields:
  assumes "make_record H env a q d st nf s = (Inr r, t)"
  shows "er_action_id r = pa_action_id a \<and> er_result_status r = st
     \<and> authorization_hash (hc_runtime H) a = return (er_authorization_hash r)"
  using assms by (auto simp: make_record_def Let_def bindA_Inr contract_def hashed_def validate_evidence_def)

lemma serialized_fields:
  assumes "serialized_line R r = return line"
  shows "field_is ''action_id'' (er_action_id r) line"
    "field_is ''result_status'' (status_value (er_result_status r)) line"
    "field_is ''authorization_hash'' (er_authorization_hash r) line"
proof -
  obtain q obj where d: "evidence_to_dict R r = return (q, obj)" "line = reload_object obj"
    using assms by (auto simp: serialized_line_def split: if_splits)
  obtain i f c m where o: "obj = record_entries q i f c m" using d(1) by (rule evidence_to_dictE)
  have q: "er_action_id q = er_action_id r" "er_result_status q = er_result_status r"
    "er_authorization_hash q = er_authorization_hash r"
    using d(1) by (auto simp: evidence_to_dict_def validate_evidence_def)
  show "field_is ''action_id'' (er_action_id r) line"
    "field_is ''result_status'' (status_value (er_result_status r)) line"
    "field_is ''authorization_hash'' (er_authorization_hash r) line"
    unfolding field_is_def d(2) o q [symmetric] by (rule reload_object_text, rule record_entries_get)+
qed

lemma seal_record_fields:
  "seal_record R p r = return q \<Longrightarrow> er_action_id q = er_action_id r \<and> er_result_status q = er_result_status r
     \<and> er_authorization_hash q = er_authorization_hash r"
  by (auto simp: seal_record_def evidence_to_dict_def validate_evidence_def split: if_splits)

lemma append_authorizes:
  assumes "append_evidence R profile stamp r s = (return q, t)" "er_action_id r = pa_action_id a"
    "er_result_status r = Skipped" "authorization_hash R a = return (er_authorization_hash r)"
  shows "authorized R a (es_lines t)"
proof -
  obtain n s1 where w: "seal_and_write R profile stamp n r s1 = (return q, t)"
    using assms(1) by (auto simp: append_evidence_def Let_def bindA_Inr split: if_splits)
  obtain objs line where l: "seal_record R (snd (evidence_position objs)) r = return q" "serialized_line R q = return line"
    "advance_head_unlocked R profile stamp n (snd (evidence_position objs)) (er_record_hash q)
       (s1\<lparr>es_lines := es_lines s1 @ [Line line]\<rparr>) = (return (), t)"
    using w by (rule seal_and_writeE)
  have "Line line \<in> set (es_lines t)" using advance_unlocked_lines [OF l(3)] by simp
  then show ?thesis
    using serialized_fields [OF l(2)] seal_record_fields [OF l(1)] assms(2-4) unfolding authorized_def by metis
qed

lemma put_evidence_Inr: "put_evidence m s = (Inr x, t) \<Longrightarrow> m (hn_evidence s) = (return x, hn_evidence t)"
  by (cases "m (hn_evidence s)") (auto simp: put_evidence_def split: if_splits)

lemma evidence_write_Inr: "evidence_write m s = (Inr x, t) \<Longrightarrow> \<exists>e e'. m e = (return x, e') \<and> hn_evidence t = e'"
  unfolding evidence_write_def bindA_Inr by (elim exE conjE) (drule put_evidence_Inr, blast)

lemma record_authorizes:
  assumes "record_evidence H env a q d Skipped nf s = (Inr r, t)"
  shows "authorized (hc_runtime H) a (es_lines (hn_evidence t))"
proof -
  obtain r0 s1 where m: "make_record H env a q d Skipped nf s = (Inr r0, s1)"
    and w: "evidence_write (append_evidence (hc_runtime H) (hc_profile H) (stamp_at 4 env) r0) s1 = (Inr r, t)"
    using assms by (auto simp: record_evidence_def bindA_Inr)
  obtain e e' where "append_evidence (hc_runtime H) (hc_profile H) (stamp_at 4 env) r0 e = (return r, e')"
    "hn_evidence t = e'"
    using evidence_write_Inr [OF w] by blast
  then show ?thesis using append_authorizes make_record_fields [OF m] by metis
qed

subsection \<open>Running the tool\<close>

lemma keeps_either: "keeps I m \<Longrightarrow> keeps J m \<Longrightarrow> keeps (\<lambda>s. I s \<or> (b \<and> J s)) m"
  by (rule keepsI) (auto dest: keepsD)

lemma keeps_stop: "keeps I m \<Longrightarrow> (\<And>s. I s \<Longrightarrow> E s) \<Longrightarrow> triple I m (\<lambda>_. E) E"
  unfolding keeps_def by (erule triple_conseq) auto

lemma keeps_go:
  "keeps I m \<Longrightarrow> (\<And>s. I s \<Longrightarrow> E s) \<Longrightarrow> (\<And>x. triple I (f x) Q E) \<Longrightarrow> triple I (bindA m f) Q E"
  by (rule triple_bind [of I m "\<lambda>_. I"]) (auto simp: keeps_def elim: triple_conseq)

lemma execute_tool_checked:
  assumes "tl_called (snd (execute_tool R reg a (Some dry) t)) \<noteq> tl_called t"
  shows "validate_action reg a = return () \<and> \<not> dry"
  using assms by (auto simp: execute_tool_def bindA_def spend_grant_def call_handler_def split: sum.splits option.splits prod.splits if_splits)

definition after_tool ::
  "harness \<Rightarrow> pystr option \<Rightarrow> action \<Rightarrow> harness_request \<Rightarrow> budget_state \<Rightarrow> action list \<Rightarrow> harness_state \<Rightarrow> bool" where
  "after_tool H ko a q b cs s \<longleftrightarrow> granted (hc_runtime H) ko (worst_case H a) a q b cs s
     \<or> ((validate_action (hc_registry H) a = return () \<and> \<not> hc_dry_run H)
        \<and> granted (hc_runtime H) ko (worst_case H a) a q b (cs @ [a]) s)"

lemma granted_parts:
  "granted R ko e a q b cs s \<longleftrightarrow> started R ko a q (hn_approvals s) \<and> authorized R a (es_lines (hn_evidence s))
     \<and> set_aside ko e a q b (hn_budget s) \<and> tl_called (hn_tools s) = cs"
  by (simp add: granted_stores.stores_def)

lemma waiting_parts:
  "waiting R b cs s \<longleftrightarrow> store_ok R (hn_approvals s) \<and> ledger_step\<^sup>*\<^sup>* b (hn_budget s) \<and> tl_called (hn_tools s) = cs"
  by (simp add: waiting_stores.stores_def)

lemma holding_parts:
  "holding R k p b cs s \<longleftrightarrow> held_under R k p (hn_approvals s) \<and> ledger_step\<^sup>*\<^sup>* b (hn_budget s) \<and> tl_called (hn_tools s) = cs"
  by (simp add: held_stores.stores_def)

lemma starting_parts:
  "starting R ko e a q b cs s \<longleftrightarrow> started R ko a q (hn_approvals s) \<and> set_aside ko e a q b (hn_budget s) \<and> tl_called (hn_tools s) = cs"
  by (simp add: starting_stores.stores_def)

lemma granted_ran:
  "granted R ko e a q b cs s \<Longrightarrow> ran H P b cs s" "waiting R b cs s \<Longrightarrow> ran H P b cs s" "starting R ko e a q b cs s \<Longrightarrow> ran H P b cs s"
  "holding R k p b cs s \<Longrightarrow> ran H P b cs s"
  by (simp_all add: granted_parts waiting_parts starting_parts holding_parts ran_def)

lemma after_tool_ran:
  "after_tool H ko a q b cs s \<Longrightarrow> permitted H a q (ko \<noteq> None) \<Longrightarrow> P a q ko \<Longrightarrow> ran H P b cs s"
  unfolding ran_def cleared_def after_tool_def granted_parts started_def by blast

lemma run_tool_granted:
  "triple (granted (hc_runtime H) ko (worst_case H a) a q b cs) (run_tool H a g) (\<lambda>_. after_tool H ko a q b cs) (after_tool H ko a q b cs)"
proof -
  have "after_tool H ko a q b cs (snd (put_tools (execute_tool (hc_runtime H) (hc_registry H) a (Some (hc_dry_run H))) s))"
    if "granted (hc_runtime H) ko (worst_case H a) a q b cs s" for s
    using that execute_tool_called [of "hc_runtime H" "hc_registry H" a "Some (hc_dry_run H)" "hn_tools s"]
      execute_tool_checked [of "hc_runtime H" "hc_registry H" a "hc_dry_run H" "hn_tools s"]
    by (cases "execute_tool (hc_runtime H) (hc_registry H) a (Some (hc_dry_run H)) (hn_tools s)")
      (auto simp: put_tools_def after_tool_def granted_parts)
  then have "triple (granted (hc_runtime H) ko (worst_case H a) a q b cs)
      (put_tools (execute_tool (hc_runtime H) (hc_registry H) a (Some (hc_dry_run H))))
      (\<lambda>_. after_tool H ko a q b cs) (after_tool H ko a q b cs)"
    by (intro tripleI) (metis snd_conv)+
  moreover have "triple (granted (hc_runtime H) ko (worst_case H a) a q b cs)
      (writeA (\<lambda>s. s\<lparr>hn_tools := (hn_tools s)\<lparr>tl_grant := Some g\<rparr>\<rparr>))
      (\<lambda>_. granted (hc_runtime H) ko (worst_case H a) a q b cs) (after_tool H ko a q b cs)"
    by (simp add: triple_def granted_parts)
  ultimately show ?thesis unfolding run_tool_def by (rule triple_bind [rotated])
qed

text \<open>The end of a run under an authority that has been checked.\<close>

lemma execute_action_cleared:
  assumes "permitted H a q (ko \<noteq> None)" "P a q ko"
  shows "triple (starting (hc_runtime H) ko (worst_case H a) a q b cs) (execute_action H env a q d e by' k)
     (\<lambda>_. ran H P b cs) (ran H P b cs)"
proof -
  let ?S = "starting (hc_runtime H) ko (worst_case H a) a q b cs"
  let ?G = "granted (hc_runtime H) ko (worst_case H a) a q b cs"
  let ?A = "after_tool H ko a q b cs"
  have rec: "triple ?S (record_evidence H env' a q d Skipped nf) (\<lambda>_. ?G) (ran H P b cs)" for env' nf
  proof (rule tripleI)
    fix s r t assume s: "?S s" and r: "record_evidence H env' a q d Skipped nf s = (Inr r, t)"
    have "?S t"
      using keepsD [OF starting_stores.record_keeps(1) [OF refl] s, of env' a q d Skipped nf] r by simp
    then show "?G t"
      using record_authorizes [OF r] by (simp add: granted_parts starting_parts)
  next
    fix s e' t assume s: "?S s" and r: "record_evidence H env' a q d Skipped nf s = (Inl e', t)"
    have "?S t"
      using keepsD [OF starting_stores.record_keeps(1) [OF refl] s, of env' a q d Skipped nf] r by simp
    then show "ran H P b cs t" by (rule granted_ran)
  qed
  have rest: "keeps ?A (bindA (contract (evidence_to_dict (hc_runtime H) auth)) (\<lambda>(_, obj).
     bindA (complete_known_result H (inside 3 env) obj a q d r e by' k) (\<lambda>(final, r).
       okA (outcome a d (er_result_status final) (er_record_id final) k (Some r) (tr_summary r)))))" for auth r
    unfolding after_tool_def
    by (rule keeps_either; intro granted_stores.basic_keeps granted_stores.completion_keeps refl)
  have ar: "?A s \<Longrightarrow> ran H P b cs s" for s using after_tool_ran assms by blast
  have run: "triple ?G
      (bindA (run_tool H a g) (\<lambda>r. bindA (contract (evidence_to_dict (hc_runtime H) auth)) (\<lambda>(_, obj).
        bindA (complete_known_result H (inside 3 env) obj a q d r e by' k) (\<lambda>(final, r).
          okA (outcome a d (er_result_status final) (er_record_id final) k (Some r) (tr_summary r))))))
      (\<lambda>_. ran H P b cs) (ran H P b cs)" for g auth
  proof (rule triple_bind)
    show "triple ?G (run_tool H a g) (\<lambda>_. ?A) (ran H P b cs)"
      by (rule triple_conseq [OF run_tool_granted]) (auto intro: ar)
  qed (rule keeps_stop [OF rest ar])
  show ?thesis
    unfolding execute_action_def
    by (rule triple_bind [OF rec], rule keeps_go, intro keeps_pure, erule granted_ran, rule run)
qed

end
