(* ===== verification/HarnessCleared.thy ===== *)
theory HarnessCleared
  imports HarnessAuthority
begin

text \<open>
  Every entry point of the control loop runs at most one handler, for the action and the request it
  was asked for, and that action was cleared.
\<close>

subsection \<open>Every entry point\<close>

lemma waiting_stops:
  "keeps (waiting (hc_runtime H) b cs) m \<Longrightarrow> triple (waiting (hc_runtime H) b cs) m (\<lambda>_. ran H P b cs) (ran H P b cs)"
  by (rule keeps_stop, assumption, erule granted_ran(2))

lemma waiting_goes:
  "keeps (waiting (hc_runtime H) b cs) m \<Longrightarrow> (\<And>x. triple (waiting (hc_runtime H) b cs) (f x) Q (ran H P b cs)) \<Longrightarrow>
   triple (waiting (hc_runtime H) b cs) (bindA m f) Q (ran H P b cs)"
  by (rule keeps_go, assumption, erule granted_ran(2))

lemma waiting_stays:
  "keeps (waiting (hc_runtime H) b cs) m \<Longrightarrow> triple (waiting (hc_runtime H) b cs) m (\<lambda>_. waiting (hc_runtime H) b cs) (ran H P b cs)"
  by (auto simp: keeps_def elim!: triple_conseq intro: granted_ran)

lemmas waiting_keeps = waiting_stores.basic_keeps waiting_stores.make_keeps waiting_stores.record_keeps
  waiting_stores.decision_keeps waiting_stores.operation_keeps waiting_stores.expiry_keeps waiting_stores.quiet_keeps

lemma evaluate_action_Inr:
  "evaluate_action H env a q s = (Inr d, t) \<longleftrightarrow>
     t = s \<and> evaluate (hc_runtime H) (hc_text H) (hc_policy H) (stamp_at 6 env) a (Some (context_of q)) = return d"
  by (auto simp: evaluate_action_def contract_def liftA_def)

text \<open>The budget of a direct run.\<close>

abbreviation afforded :: "runtime \<Rightarrow> decimal \<Rightarrow> harness_request \<Rightarrow> budget_state \<Rightarrow> action list \<Rightarrow> harness_state \<Rightarrow> bool" where
  "afforded R e q b cs s \<equiv> waiting R b cs s \<and> (dec_pos e \<longrightarrow> affordable e q (hn_budget s))"

lemma over_budget_affords:
  "triple (waiting (hc_runtime H) b cs) (over_budget H q e)
     (\<lambda>x s. waiting (hc_runtime H) b cs s \<and> (x = None \<longrightarrow> afforded (hc_runtime H) e q b cs s)) (ran H P b cs)"
proof (rule tripleI)
  fix s x t assume s: "waiting (hc_runtime H) b cs s" and o: "over_budget H q e s = (Inr x, t)"
  have "t = s" "x = None \<Longrightarrow> dec_pos e \<Longrightarrow> affordable e q (hn_budget s)"
    using o by (auto simp: over_budget_def budget_read_def bindA_def affordable_def split: if_splits sum.splits)
  then show "waiting (hc_runtime H) b cs t \<and> (x = None \<longrightarrow> afforded (hc_runtime H) e q b cs t)" using s by blast
next
  fix s x t assume s: "waiting (hc_runtime H) b cs s" and o: "over_budget H q e s = (Inl x, t)"
  then show "ran H P b cs t"
    using keepsD [OF waiting_stores.decision_keeps(4) s, of H q e] by (auto intro: granted_ran)
qed

lemma budget_step_Inr: "budget_step f s = (Inr x, t) \<Longrightarrow> \<exists>b. f (hn_budget s) = return b
    \<and> hn_budget t = b \<and> hn_approvals t = hn_approvals s \<and> hn_tools t = hn_tools s"
  by (auto simp: budget_step_def budget_write_def bindA_def spend_write_def put_budget_def bindR_def
      split: if_splits sum.splits prod.splits)

lemma reserve_starts:
  assumes "dec_pos e"
  shows "triple (afforded (hc_runtime H) e q b cs)
     (budget_step (reserve (MDecimal e) (hr_request_id q) (pa_action_id a) t1 t2))
     (\<lambda>_. starting (hc_runtime H) None e a q b cs) (ran H P b cs)"
proof (rule tripleI)
  fix s x t
  assume s: "afforded (hc_runtime H) e q b cs s"
    and r: "budget_step (reserve (MDecimal e) (hr_request_id q) (pa_action_id a) t1 t2) s = (Inr x, t)"
  obtain z where z: "reserve (MDecimal e) (hr_request_id q) (pa_action_id a) t1 t2 (hn_budget s) = return z"
    "hn_budget t = z" "hn_approvals t = hn_approvals s" "hn_tools t = hn_tools s"
    using budget_step_Inr [OF r] by blast
  have "run_ledger (Reserve (MDecimal e) (hr_request_id q) (pa_action_id a) t1 t2) (hn_budget s) = return z"
    using z(1) by simp
  then have "set_aside None e a q b z"
    unfolding set_aside_def using s z(1) assms ledger_more waiting_parts by blast
  then show "starting (hc_runtime H) None e a q b cs t"
    using s z by (simp add: starting_parts waiting_parts started_def)
next
  fix s x t
  assume "afforded (hc_runtime H) e q b cs s"
    and r: "budget_step (reserve (MDecimal e) (hr_request_id q) (pa_action_id a) t1 t2) s = (Inl x, t)"
  then show "ran H P b cs t"
    using keepsD [OF waiting_stores.ledger_keeps(1), of "hc_runtime H" b cs s "MDecimal e" "hr_request_id q" "pa_action_id a" t1 t2]
    by (auto intro: granted_ran)
qed

lemma afforded_starts: "\<not> dec_pos e \<Longrightarrow> waiting R b cs s \<Longrightarrow> starting R None e a q b cs s"
  by (simp add: waiting_parts starting_parts started_def set_aside_def)

lemma proceed_cleared:
  assumes "\<not> hc_execution_disabled H" "\<not> out_of_scope a q" "gd_decision d \<noteq> Block"
    "evaluate (hc_runtime H) (hc_text H) (hc_policy H) stamp a (Some (context_of q)) = return d"
    "\<not> ext \<Longrightarrow> P a q None"
  shows "triple (afforded (hc_runtime H) (worst_case H a) q b cs) (proceed H env a q d (worst_case H a) ow key ext)
     (\<lambda>_. ran H P b cs) (ran H P b cs)"
proof (cases "gd_decision d = ApprovalRequired")
  case True
  have "triple (waiting (hc_runtime H) b cs) (hold_for_approval H (inside 1 env) a q d (worst_case H a) ow key)
     (\<lambda>_. ran H P b cs) (ran H P b cs)"
    by (intro waiting_stops waiting_keeps refl)
  then show ?thesis using True unfolding proceed_def by (simp add: triple_pre)
next
  case False
  then have "gd_decision d = Allow" using assms(3) by (cases "gd_decision d") auto
  then have p: "permitted H a q (None \<noteq> None)" using assms unfolding permitted_def by blast
  let ?S = "starting (hc_runtime H) None (worst_case H a) a q b cs"
  have step: "triple (afforded (hc_runtime H) (worst_case H a) q b cs)
     (if dec_pos (worst_case H a) then budget_step (reserve (MDecimal (worst_case H a)) (hr_request_id q) (pa_action_id a)
        (stamp_at 2 env) (stamp_at 3 env)) else okA ()) (\<lambda>_. ?S) (ran H P b cs)"
  proof (rule triple_if)
    assume "\<not> dec_pos (worst_case H a)"
    then show "triple (afforded (hc_runtime H) (worst_case H a) q b cs) (okA ()) (\<lambda>_. ?S) (ran H P b cs)"
      by (intro triple_pre [OF triple_ok]) (auto intro: afforded_starts)
  qed (rule reserve_starts)
  have e: "triple ?S (authorize_external H env' a q d None []) (\<lambda>_. ran H P b cs) (ran H P b cs)" for env'
    by (rule keeps_stop, rule starting_stores.record_keeps(4) [OF refl]) (rule granted_ran)
  have x: "\<not> ext \<Longrightarrow> triple ?S (execute_action H env' a q d (worst_case H a) None []) (\<lambda>_. ran H P b cs) (ran H P b cs)" for env'
    by (rule execute_action_cleared [OF p]) (rule assms(5))
  show ?thesis
    unfolding proceed_def if_not_P [OF False]
    by (rule triple_bind [OF step], rule triple_if, rule e, erule x)
qed

text \<open>An external call runs no handler of the harness.\<close>

definition asked_directly :: "runtime \<Rightarrow> action \<Rightarrow> harness_request \<Rightarrow> bool \<Rightarrow> asking" where
  "asked_directly R a0 q0 ext a q ko \<longleftrightarrow> \<not> ext \<and> ko = None \<and> seal_fingerprints R a0 = return a \<and> validate_request R q0 = return q"

lemma handle_cleared:
  "triple (waiting (hc_runtime H) b cs) (handle H env a q ow key ext)
     (\<lambda>_. ran H (asked_directly (hc_runtime H) a q ext) b cs) (ran H (asked_directly (hc_runtime H) a q ext) b cs)"
proof (cases "hc_execution_disabled H")
  case True
  then show ?thesis
    by (simp add: triple_def handle_def require_execution_enabled_def bindA_def granted_ran)
next
  case False
  let ?P = "asked_directly (hc_runtime H) a q ext"
  have stop: "triple (waiting (hc_runtime H) b cs) (blocked_outcome H env a q r k x) (\<lambda>_. ran H ?P b cs) (ran H ?P b cs)"
    "triple (waiting (hc_runtime H) b cs) (terminal_outcome H env a q d st) (\<lambda>_. ran H ?P b cs) (ran H ?P b cs)"
    for env a q r k x d st
    by (intro waiting_stops waiting_keeps refl)+
  have p: "triple (waiting (hc_runtime H) b cs) (propose H env a' q' ow key ext) (\<lambda>_. ran H ?P b cs) (ran H ?P b cs)"
    if "seal_fingerprints (hc_runtime H) a = return a'" "validate_request (hc_runtime H) q = return q'" for env a' q'
    unfolding propose_def Let_def worst_case_def [symmetric]
  proof (intro triple_if stop)
    assume o: "\<not> out_of_scope a' q'"
    have afford: "triple (waiting (hc_runtime H) b cs)
        (bindA (over_budget H q' (worst_case H a')) (\<lambda>refused. case refused of
            Some (message, inputs) \<Rightarrow> blocked_outcome H (inside 3 env) a' q' message ''budget_limit'' inputs
          | None \<Rightarrow> proceed H (inside 4 env) a' q' d (worst_case H a') ow key ext))
        (\<lambda>_. ran H ?P b cs) (ran H ?P b cs)"
      if "evaluate (hc_runtime H) (hc_text H) (hc_policy H) (stamp_at 6 (inside 5 env)) a' (Some (context_of q')) = return d"
        "gd_decision d \<noteq> Block" for d
    proof (rule triple_bind [OF over_budget_affords], rule triple_option)
      fix x :: "(pystr \<times> (pyval \<times> pyval) list) option" and y
      have "?P a' q' None" if "\<not> ext" using that \<open>seal_fingerprints _ a = _\<close> \<open>validate_request _ q = _\<close>
        by (simp add: asked_directly_def)
      from proceed_cleared [where P = ?P and ext = ext, OF False o \<open>gd_decision d \<noteq> Block\<close> \<open>evaluate _ _ _ _ _ _ = _\<close> this]
      show "x = None \<Longrightarrow> triple (\<lambda>s. waiting (hc_runtime H) b cs s \<and> (x = None \<longrightarrow> afforded (hc_runtime H) (worst_case H a') q' b cs s))
          (proceed H (inside 4 env) a' q' d (worst_case H a') ow key ext) (\<lambda>_. ran H ?P b cs) (ran H ?P b cs)"
        by (auto elim: triple_pre)
      show "triple (\<lambda>s. waiting (hc_runtime H) b cs s \<and> (x = None \<longrightarrow> afforded (hc_runtime H) (worst_case H a') q' b cs s))
          (case y of (message, inputs) \<Rightarrow> blocked_outcome H (inside 3 env) a' q' message ''budget_limit'' inputs)
          (\<lambda>_. ran H ?P b cs) (ran H ?P b cs)"
        by (cases y) (auto intro: triple_pre [OF stop(1)])
    qed
    show "triple (waiting (hc_runtime H) b cs) (bindA (evaluate_action H (inside 5 env) a' q') (\<lambda>d.
        if gd_decision d = Block then terminal_outcome H (inside 2 env) a' q' d Blocked
        else bindA (over_budget H q' (worst_case H a')) (\<lambda>refused. case refused of
            Some (message, inputs) \<Rightarrow> blocked_outcome H (inside 3 env) a' q' message ''budget_limit'' inputs
          | None \<Rightarrow> proceed H (inside 4 env) a' q' d (worst_case H a') ow key ext)))
        (\<lambda>_. ran H ?P b cs) (ran H ?P b cs)"
      by (rule triple_known [where F = "\<lambda>d. evaluate (hc_runtime H) (hc_text H) (hc_policy H) (stamp_at 6 (inside 5 env))
            a' (Some (context_of q')) = return d", OF waiting_stays [OF waiting_stores.decision_keeps(10)]])
        (auto simp: evaluate_action_Inr intro!: triple_if stop afford)
  qed
  have w: "waiting (hc_runtime H) b cs s \<Longrightarrow> ran H ?P b cs s" for s by (rule granted_ran)
  show ?thesis
    unfolding handle_def handle_action_def require_execution_enabled_def contract_def [of "validate_request _ _"]
      contract_def [of "seal_fingerprints _ _"]
    by (rule waiting_goes, intro waiting_keeps, rule triple_lifted [OF _ w], rule triple_lifted [OF _ w])
      (intro waiting_goes waiting_keeps refl triple_if stop p; assumption)+
qed

subsection \<open>Resumption\<close>

definition asked_by_approval :: "pystr \<Rightarrow> bool \<Rightarrow> asking" where
  "asked_by_approval k approved a q ko \<longleftrightarrow> approved \<and> ko = Some k"

lemmas holding_keeps = held_stores.basic_keeps held_stores.make_keeps held_stores.record_keeps
  held_stores.decision_keeps held_stores.operation_keeps held_stores.quiet_keeps

lemma holding_stops:
  "keeps (holding (hc_runtime H) k p b cs) m \<Longrightarrow> triple (holding (hc_runtime H) k p b cs) m (\<lambda>_. ran H P b cs) (ran H P b cs)"
  by (rule keeps_stop, assumption, erule granted_ran(4))

lemma holding_goes:
  "keeps (holding (hc_runtime H) k p b cs) m \<Longrightarrow> (\<And>x. triple (holding (hc_runtime H) k p b cs) (f x) Q (ran H P b cs)) \<Longrightarrow>
   triple (holding (hc_runtime H) k p b cs) (bindA m f) Q (ran H P b cs)"
  by (rule keeps_go, assumption, erule granted_ran(4))

lemma holding_stays:
  "keeps (holding (hc_runtime H) k p b cs) m \<Longrightarrow>
   triple (holding (hc_runtime H) k p b cs) m (\<lambda>_. holding (hc_runtime H) k p b cs) (ran H P b cs)"
  by (auto simp: keeps_def elim!: triple_conseq intro: granted_ran)

lemma stored_id: "store_ok R d \<Longrightarrow> dict_get k d = Some p \<Longrightarrow> ap_approval_id p = k"
  unfolding store_ok_def using dict_get_in_set by fastforce

lemma known_approval_holds:
  "triple (waiting (hc_runtime H) b cs) (known_approval H k)
     (\<lambda>p s. holding (hc_runtime H) k p b cs s \<and> ap_approval_id p = k) (ran H P b cs)"
proof (rule tripleI)
  fix s p t assume s: "waiting (hc_runtime H) b cs s" and g: "known_approval H k s = (Inr p, t)"
  have "t = s" "dict_get k (hn_approvals s) = Some p"
    using g s by (auto simp: known_approval_def approval_read_def bindA_def get_approval_def bindR_def waiting_parts
        store_ok_read split: sum.splits option.splits)
  then show "holding (hc_runtime H) k p b cs t \<and> ap_approval_id p = k"
    using s stored_id by (auto simp: waiting_parts holding_parts held_under_def)
next
  fix s x t assume s: "waiting (hc_runtime H) b cs s" and g: "known_approval H k s = (Inl x, t)"
  then show "ran H P b cs t"
    using keepsD [OF waiting_stores.lookup_keeps(4) s, of H k] by (auto intro: granted_ran)
qed

lemma settle_holds:
  "triple (waiting (hc_runtime H) b cs) (settle_and_get H env k)
     (\<lambda>p s. holding (hc_runtime H) k p b cs s \<and> ap_approval_id p = k) (ran H P b cs)"
  unfolding settle_and_get_def by (intro waiting_goes waiting_keeps refl known_approval_holds)

lemma control_decision_blocks:
  "control_decision H env a reason p extra s = (Inr d, t) \<Longrightarrow> gd_decision d = Block"
  by (auto simp: control_decision_def bindA_Inr contract_def validate_guardrail_decision_def split: if_splits)

lemma current_decision_permits:
  assumes "current_decision H env a q d0 s = (Inr d, t)" "gd_decision d \<noteq> Block" "\<not> hc_execution_disabled H"
  shows "permitted H a q True \<and> gd_ruleset_hash d0 = pe_ruleset_hash (hc_policy H)"
proof -
  have d: "evaluate (hc_runtime H) (hc_text H) (hc_policy H) (stamp_at 6 env) a (Some (context_of q)) = return d"
    "\<not> out_of_scope a q" "gd_ruleset_hash d0 = pe_ruleset_hash (hc_policy H)"
    using assms(1,2)
    by (auto simp: current_decision_def resume_decision_def evaluate_action_Inr split: if_splits
        dest: control_decision_blocks)
  moreover have "gd_decision d = Allow \<or> gd_decision d = ApprovalRequired"
    using assms(2) by (cases "gd_decision d") auto
  ultimately show ?thesis using assms(3) unfolding permitted_def by blast
qed

lemma begin_execution_approves:
  assumes "held_under R k r d" "begin_execution R cfg ck k a d = (return x, t)" "holds_for R r a q"
  shows "approved_for R k a q t"
proof -
  have ok: "store_ok R d" using assms(1) by (simp add: held_under_def)
  obtain p where p: "dict_get k d = Some p" "ap_status p = Approved" "ap_action_id p = pa_action_id a"
    "authorization_hash R a = return (ap_authorization_hash p)"
    and u: "update_stored R (\<lambda>p. p\<lparr>ap_status := Executing\<rparr>) p d = return (x, t)"
    by (rule begin_executionE [OF ok assms(2)]) blast
  have "touches R d k (x, t)" by (rule touchesI [OF ok p(1) updates_advance(3) [OF p(2)] u])
  then have g: "dict_get k t = Some (p\<lparr>ap_status := Executing\<rparr>)" using update_result [OF u] by (simp add: touches_def)
  have "binding_of (p\<lparr>ap_status := Executing\<rparr>) = binding_of r"
    using assms(1) p(1) by (auto simp: held_under_def binding_of_def)
  then have "holds_for R (p\<lparr>ap_status := Executing\<rparr>) a q" using assms(3) holds_for_binding by blast
  then show ?thesis using g p unfolding approved_for_def by fastforce
qed

lemma begin_execution_starts:
  assumes "holds_for (hc_runtime H) r a q"
  shows "triple (holding (hc_runtime H) k r b cs) (approval_effect (begin_execution (hc_runtime H) cfg ck k a))
     (\<lambda>_. starting (hc_runtime H) (Some k) e a q b cs) (ran H P b cs)"
proof (rule tripleI)
  fix s x t assume s: "holding (hc_runtime H) k r b cs s"
    and g: "approval_effect (begin_execution (hc_runtime H) cfg ck k a) s = (Inl x, t)"
  have "holding (hc_runtime H) k r b cs t" using keepsD [OF held_stores.queue_keeps(8) s] g by (metis snd_conv)
  then show "ran H P b cs t" by (rule granted_ran)
next
  fix s x t assume s: "holding (hc_runtime H) k r b cs s"
    and g: "approval_effect (begin_execution (hc_runtime H) cfg ck k a) s = (Inr x, t)"
  have w: "holding (hc_runtime H) k r b cs t" using keepsD [OF held_stores.queue_keeps(8) s] g by (metis snd_conv)
  obtain y d where y: "begin_execution (hc_runtime H) cfg ck k a (hn_approvals s) = (return y, d)" "hn_approvals t = d"
    using g by (auto simp: approval_effect_def bindA_def spend_write_def put_approvals_def
        split: if_splits prod.splits sum.splits)
  then show "starting (hc_runtime H) (Some k) e a q b cs t"
    using w s begin_execution_approves [OF _ y(1) assms]
    by (auto simp: starting_parts holding_parts started_def set_aside_def held_under_def)
qed

lemma decide_holds:
  "triple (holding (hc_runtime H) k r b cs) (approval_write (decide (hc_runtime H) cfg ck k v x y w))
     (\<lambda>p s. holding (hc_runtime H) k r b cs s \<and> ap_approval_id p = k) (ran H P b cs)"
proof (rule tripleI)
  fix s p t assume s: "holding (hc_runtime H) k r b cs s"
    and g: "approval_write (decide (hc_runtime H) cfg ck k v x y w) s = (Inr p, t)"
  have h: "holding (hc_runtime H) k r b cs t" using keepsD [OF held_stores.queue_keeps(2) s] g by (metis snd_conv)
  have "decide (hc_runtime H) cfg ck k v x y w (hn_approvals s) = return (p, hn_approvals t)"
    using g by (auto simp: approval_write_def approval_effect_def as_effect_def bindA_def spend_write_def put_approvals_def
        split: if_splits prod.splits sum.splits)
  then have "touches (hc_runtime H) (hn_approvals s) k (p, hn_approvals t)"
    using s decide_touches by (simp add: holding_parts held_under_def)
  then show "holding (hc_runtime H) k r b cs t \<and> ap_approval_id p = k"
    using h stored_id by (auto simp: touches_def)
next
  fix s x' t assume s: "holding (hc_runtime H) k r b cs s"
    and g: "approval_write (decide (hc_runtime H) cfg ck k v x y w) s = (Inl x', t)"
  have "holding (hc_runtime H) k r b cs t" using keepsD [OF held_stores.queue_keeps(2) s] g by (metis snd_conv)
  then show "ran H P b cs t" by (rule granted_ran)
qed

lemma resume_approved_cleared:
  assumes "\<not> hc_execution_disabled H" "holds_for (hc_runtime H) r a q" "ap_approval_id p = k" "P a q (Some k)"
  shows "triple (holding (hc_runtime H) k r b cs) (resume_approved H env p a q d0 by') (\<lambda>_. ran H P b cs) (ran H P b cs)"
  unfolding resume_approved_def
proof (rule triple_known)
  let ?S = "starting (hc_runtime H) (Some k) (worst_case H a) a q b cs"
  show "triple (holding (hc_runtime H) k r b cs) (current_decision H (inside 1 env) a q d0)
      (\<lambda>_. holding (hc_runtime H) k r b cs) (ran H P b cs)"
    by (rule holding_stays [OF held_stores.decision_keeps(3)])
  show "gd_decision d \<noteq> Block \<longrightarrow> permitted H a q (Some k \<noteq> None)"
    if "current_decision H (inside 1 env) a q d0 s = (Inr d, t)" for s d t
    using current_decision_permits [OF that _ assms(1)] by simp
  show "triple (holding (hc_runtime H) k r b cs)
      (bindA (approval_effect (begin_execution (hc_runtime H) (hc_approvals H) (clock_at 2 env) (ap_approval_id p) a)) (\<lambda>_.
       if gd_decision d = Block then finish_blocked H (inside 3 env) p a q d (Some by')
       else bindA (budget_read (reservation_for (pa_action_id a))) (\<lambda>estimate.
         execute_action H (inside 4 env) a q d estimate (Some by') (ap_approval_id p))))
      (\<lambda>_. ran H P b cs) (ran H P b cs)" if "gd_decision d \<noteq> Block \<longrightarrow> permitted H a q (Some k \<noteq> None)" for d
    unfolding assms(3)
  proof (rule triple_bind [OF begin_execution_starts [OF assms(2)]], rule triple_if)
    show "triple ?S (finish_blocked H (inside 3 env) p a q d (Some by')) (\<lambda>_. ran H P b cs) (ran H P b cs)"
      by (rule keeps_stop [OF starting_stores.quiet_keeps(2) [OF refl]]) (rule granted_ran)
    assume "gd_decision d \<noteq> Block"
    then have pm: "permitted H a q (Some k \<noteq> None)" using that by blast
    show "triple ?S (bindA (budget_read (reservation_for (pa_action_id a))) (\<lambda>estimate.
         execute_action H (inside 4 env) a q d estimate (Some by') k)) (\<lambda>_. ran H P b cs) (ran H P b cs)"
      by (rule keeps_go [OF starting_stores.read_keeps(3)], rule granted_ran(3), assumption)
        (rule execute_action_cleared [OF pm], rule assms(4))
  qed
qed

lemma held_contracts_holds:
  "held_contracts H p s = (Inr (a, q, d), t) \<Longrightarrow> holds_for (hc_runtime H) p a q"
  by (auto simp: held_contracts_def held_part_def contract_def holds_for_def bindA_Inr)

lemma resume_cleared:
  "triple (waiting (hc_runtime H) b cs) (resume H env k v x y w)
     (\<lambda>_. ran H (asked_by_approval k v) b cs) (ran H (asked_by_approval k v) b cs)"
proof (cases "v \<and> hc_execution_disabled H")
  case True
  then show ?thesis
    by (simp add: triple_def resume_def require_execution_enabled_def bindA_def granted_ran)
next
  case False
  let ?P = "asked_by_approval k v"
  let ?R = "\<lambda>_. ran H ?P b cs"
  have rej: "triple (holding (hc_runtime H) k r b cs) (resume_rejected H env p a q d x y w) ?R (ran H ?P b cs)" for env r p a q d
    by (intro holding_stops holding_keeps refl)
  have app: "triple (\<lambda>s. holding (hc_runtime H) k r b cs s \<and> ap_approval_id p = k) (resume_approved H env p a q d x) ?R (ran H ?P b cs)"
    if "v" "holds_for (hc_runtime H) r a q" for env r p a q d
  proof (cases "ap_approval_id p = k")
    case True
    have "?P a q (Some k)" using that by (simp add: asked_by_approval_def)
    then show ?thesis using False that True resume_approved_cleared by (auto intro: triple_pre)
  qed (simp add: triple_def)
  have upto: "triple (holding (hc_runtime H) k p b cs)
      (bindA (if ap_status p = Pending
         then approval_write (decide (hc_runtime H) (hc_approvals H) (clock_at 2 env) k True x y w) else okA p) (\<lambda>p.
           resume_approved H (inside 3 env) p a q d0 x)) ?R (ran H ?P b cs)"
    if "v" "holds_for (hc_runtime H) p a q" "ap_approval_id p = k" for p a q d0
    by (rule triple_bind [OF _ app [OF that(1,2)]], rule triple_if, rule decide_holds)
      (rule triple_pre [OF triple_ok], simp add: that)
  have rest: "triple (\<lambda>s. holding (hc_runtime H) k p b cs s \<and> ap_approval_id p = k)
      (bindA (checkA (ap_status p \<in> {Pending, Approved}) NotResumable) (\<lambda>_.
       bindA (held_contracts H p) (\<lambda>(a, q, d0).
       if v
       then bindA (if ap_status p = Pending
             then approval_write (decide (hc_runtime H) (hc_approvals H) (clock_at 2 env) k True x y w)
             else okA p) (\<lambda>p. resume_approved H (inside 3 env) p a q d0 x)
       else bindA (checkA (ap_status p = Pending) NotRejectable) (\<lambda>_.
           resume_rejected H (inside 4 env) p a q d0 x y w)))) ?R (ran H ?P b cs)" for p
  proof (cases "ap_approval_id p = k")
    case True
    have body: "triple (holding (hc_runtime H) k p b cs)
       (if v
       then bindA (if ap_status p = Pending
             then approval_write (decide (hc_runtime H) (hc_approvals H) (clock_at 2 env) k True x y w)
             else okA p) (\<lambda>p. resume_approved H (inside 3 env) p a q d0 x)
       else bindA (checkA (ap_status p = Pending) NotRejectable) (\<lambda>_.
           resume_rejected H (inside 4 env) p a q d0 x y w)) ?R (ran H ?P b cs)"
      if "holds_for (hc_runtime H) p a q" for a q d0
      by (rule triple_if, rule upto [OF _ that True], assumption, rule holding_goes, rule keeps_pure, rule rej)
    have "triple (holding (hc_runtime H) k p b cs)
       (bindA (held_contracts H p) (\<lambda>(a, q, d0).
       if v
       then bindA (if ap_status p = Pending
             then approval_write (decide (hc_runtime H) (hc_approvals H) (clock_at 2 env) k True x y w)
             else okA p) (\<lambda>p. resume_approved H (inside 3 env) p a q d0 x)
       else bindA (checkA (ap_status p = Pending) NotRejectable) (\<lambda>_.
           resume_rejected H (inside 4 env) p a q d0 x y w))) ?R (ran H ?P b cs)"
    proof (rule triple_known [where F = "\<lambda>(a, q, d). holds_for (hc_runtime H) p a q", OF holding_stays [OF held_stores.decision_keeps(1)]])
      show "case z of (a, q, d) \<Rightarrow> holds_for (hc_runtime H) p a q" if "held_contracts H p s = (Inr z, t)" for s z t
        using that by (cases z) (auto dest: held_contracts_holds)
    qed (clarify, rule body, simp)
    then show ?thesis
      by (intro triple_pre [OF holding_goes [OF keeps_pure(3)]]) auto
  qed (simp add: triple_def)
  show ?thesis
    unfolding resume_def require_execution_enabled_def
    by (rule waiting_goes, intro waiting_keeps, rule triple_bind [OF settle_holds rest])
qed

end
