(* ===== verification/HarnessMachine.thy ===== *)
theory HarnessMachine
  imports HarnessCleared
begin

text \<open>
  Any use of a state directory: calls of the entry points, each by some process with its own
  configuration, clock and identifiers, each killed after some number of file writes or not at all.
\<close>

datatype harness_call =
    Handle action harness_request pystr pystr bool
  | Resume pystr bool pystr pystr "attestation option"
  | ResumeExternal pystr
  | CompleteExternal action harness_request guardrail_decision pyval pystr
  | ReconcileExpired
  | RecoverOperation
  | ReconcileExecution pystr pystr pystr pystr "attestation option"
  | ReconcileAuthorization pystr pystr pystr pystr "attestation option"

fun after_harness_call :: "harness \<Rightarrow> readings \<Rightarrow> harness_call \<Rightarrow> harness_state \<Rightarrow> harness_state" where
  "after_harness_call H env (Handle a q owner key external) s = snd (handle H env a q owner key external s)"
| "after_harness_call H env (Resume k b x y w) s = snd (resume H env k b x y w s)"
| "after_harness_call H env (ResumeExternal k) s = snd (resume_external H env k s)"
| "after_harness_call H env (CompleteExternal a q d v k) s = snd (complete_external_call H env a q d v k s)"
| "after_harness_call H env ReconcileExpired s = snd (reconcile_expired_approvals H env s)"
| "after_harness_call H env RecoverOperation s = snd (recover_operation H env s)"
| "after_harness_call H env (ReconcileExecution k oc x y w) s = snd (reconcile_execution H env k oc x y w s)"
| "after_harness_call H env (ReconcileAuthorization k oc x y w) s = snd (reconcile_authorization H env k oc x y w s)"

text \<open>The action and the request a call may run a handler for, and the approval it runs under.\<close>

fun asked :: "harness \<Rightarrow> harness_call \<Rightarrow> asking" where
  "asked H (Handle a q owner key external) = asked_directly (hc_runtime H) a q external"
| "asked H (Resume k b x y w) = asked_by_approval k b"
| "asked H _ = (\<lambda>_ _ _. False)"

text \<open>One call: by a new process or the same one, with so many writes before it is killed.\<close>

record use =
  us_harness :: harness
  us_readings :: readings
  us_restarted :: bool
  us_writes :: nat
  us_call :: harness_call

definition after_use :: "use \<Rightarrow> harness_state \<Rightarrow> harness_state" where
  "after_use u s = after_harness_call (us_harness u) (us_readings u) (us_call u)
     (s\<lparr>hn_writes_left := us_writes u, hn_bases := (if us_restarted u then [] else hn_bases s)\<rparr>)"

definition after_uses :: "use list \<Rightarrow> harness_state \<Rightarrow> harness_state" where
  "after_uses us s = foldl (\<lambda>s u. after_use u s) s us"

lemma after_uses_simps [simp]:
  "after_uses [] s = s" "after_uses (u # us) s = after_uses us (after_use u s)"
  by (simp_all add: after_uses_def)

definition new_state :: "budget_state \<Rightarrow> harness_state" where
  "new_state b =
     \<lparr>hn_budget = b, hn_approvals = [], hn_evidence = \<lparr>es_lines = [], es_head = None, es_allow_rebind = False\<rparr>, hn_journal = None,
      hn_tools = \<lparr>tl_called = [], tl_grant = None\<rparr>, hn_bases = [], hn_writes_left = 0\<rparr>"

definition handler_calls :: "harness_state \<Rightarrow> action list" where
  "handler_calls s = tl_called (hn_tools s)"

subsection \<open>The invariant of every use\<close>

lemma triple_end:
  assumes "triple (onview (once R)) m (\<lambda>_. settled R) (onview (once R))" "onview (once R) s"
  shows "onview (once R) (snd (m s))"
  by (cases "m s"; cases "fst (m s)") (use tripleD [OF assms] in \<open>auto dest: assured_once\<close>)

lemmas entry_points_once = handle_once resume_once resume_external_once complete_external_once reconcile_expired_once
  recover_operation_once reconcile_execution_once reconcile_authorization_once

lemma call_once:
  assumes "onview (once (hc_runtime H)) s"
  shows "onview (once (hc_runtime H)) (after_harness_call H env c s)"
  by (cases c; simp only: after_harness_call.simps)
    (rule triple_end [OF _ assms], rule entry_points_once, rule refl)+

lemma use_once: "onview (once (hc_runtime (us_harness u))) s \<Longrightarrow> onview (once (hc_runtime (us_harness u))) (after_use u s)"
  unfolding after_use_def by (rule call_once) (simp add: onview_def)

lemma uses_once:
  "onview (once R) s \<Longrightarrow> \<forall>u \<in> set us. hc_runtime (us_harness u) = R \<Longrightarrow> onview (once R) (after_uses us s)"
  by (induction us arbitrary: s) (auto dest: use_once)

lemma new_state_once: "onview (once R) (new_state b)"
  by (simp add: onview_def view_def new_state_def once_def store_ok_def one_active_def startable_def queued_def)

end
