(* ===== verification/PolicyFacts.thy ===== *)
theory PolicyFacts
  imports PolicyEngine
begin

text \<open>
  Which rules fire, without the ceilings, and what the matching under the ceilings has to do with it:
  an effect \<open>spends\<close> an amount of glob work and an amount of payload work, succeeds exactly when both
  fit what is left, and then gives a value that depends on neither.
\<close>

subsection \<open>Rules that fire\<close>

definition any_glob :: "text_library \<Rightarrow> pystr \<Rightarrow> pystr list \<Rightarrow> bool" where
  "any_glob T subject ps \<longleftrightarrow> (\<exists>p \<in> set ps. fnmatchcase (tx_normcase T subject) (tx_normcase T p))"

definition payload_text :: "text_library \<Rightarrow> pyval \<Rightarrow> pystr" where
  "payload_text T v = (case bounded_payload_text T v of Inr t \<Rightarrow> t | Inl _ \<Rightarrow> [])"

definition sensitivity_of :: "(pystr, pystr) dict \<Rightarrow> pystr" where
  "sensitivity_of context = (case dict_get (lit ''sensitivity'') context of None \<Rightarrow> [] | Some v \<Rightarrow> v)"

definition fires :: "text_library \<Rightarrow> action \<Rightarrow> (pystr, pystr) dict \<Rightarrow> rule \<Rightarrow> bool" where
  "fires T a context r \<longleftrightarrow>
     (ru_tools r = [] \<or> any_glob T (pa_tool_name a) (ru_tools r))
     \<and> (\<forall>threshold. ru_side_effect_at_least r = Some threshold \<longrightarrow> threshold \<le> pa_side_effect_level a)
     \<and> (ru_targets r = [] \<or> any_glob T (pa_target a) (ru_targets r))
     \<and> (ru_payload_contains r = []
        \<or> (\<exists>t \<in> set (ru_payload_contains r). contains (payload_text T (pa_payload a)) (tx_lower T t)))
     \<and> (\<forall>allowed. ru_max_payload_trust r = Some allowed \<longrightarrow> trust_satisfies (payload_trust a) allowed)
     \<and> (ru_sensitivities r = [] \<or> sensitivity_of context \<in> set (ru_sensitivities r))"

subsection \<open>Work\<close>

text \<open>Counters within their ceilings, and a cached text that is the payload's.\<close>

definition working :: "text_library \<Rightarrow> pyval \<Rightarrow> match_state \<Rightarrow> bool" where
  "working T v s \<longleftrightarrow> ms_glob_work s \<le> max_glob_work \<and> ms_payload_work s \<le> max_payload_work
     \<and> (\<forall>t. ms_payload_text s = Some t \<longrightarrow> bounded_payload_text T v = return t)"

definition fits :: "nat \<Rightarrow> nat \<Rightarrow> match_state \<Rightarrow> bool" where
  "fits g p s \<longleftrightarrow> ms_glob_work s + g \<le> max_glob_work \<and> ms_payload_work s + p \<le> max_payload_work"

definition spends :: "text_library \<Rightarrow> pyval \<Rightarrow> 'a matching \<Rightarrow> bool \<Rightarrow> 'a \<Rightarrow> nat \<Rightarrow> nat \<Rightarrow> bool" where
  "spends T v m ok x g p \<longleftrightarrow> (\<forall>s. working T v s \<longrightarrow>
     (if ok \<and> fits g p s
      then \<exists>t. m s = (return x, t) \<and> working T v t \<and> ms_glob_work t = ms_glob_work s + g
             \<and> ms_payload_work t = ms_payload_work s + p
      else \<exists>e t. m s = (raise e, t)))"

lemma spendsI:
  "(\<And>s. working T v s \<Longrightarrow> ok \<Longrightarrow> fits g p s \<Longrightarrow>
      \<exists>t. m s = (return x, t) \<and> working T v t \<and> ms_glob_work t = ms_glob_work s + g
        \<and> ms_payload_work t = ms_payload_work s + p) \<Longrightarrow>
   (\<And>s. working T v s \<Longrightarrow> \<not> (ok \<and> fits g p s) \<Longrightarrow> \<exists>e t. m s = (raise e, t)) \<Longrightarrow>
   spends T v m ok x g p"
  unfolding spends_def by simp

lemma spends_ok:
  assumes "spends T v m ok x g p" "working T v s" "ok" "fits g p s"
  obtains t where "m s = (return x, t)" "working T v t" "ms_glob_work t = ms_glob_work s + g"
    "ms_payload_work t = ms_payload_work s + p"
proof -
  have "\<exists>t. m s = (return x, t) \<and> working T v t \<and> ms_glob_work t = ms_glob_work s + g
             \<and> ms_payload_work t = ms_payload_work s + p"
    using assms unfolding spends_def by simp
  then show ?thesis using that by blast
qed

lemma spends_fail:
  assumes "spends T v m ok x g p" "working T v s" "\<not> (ok \<and> fits g p s)"
  obtains e t where "m s = (raise e, t)"
proof -
  have "\<exists>e t. m s = (raise e, t)"
    using assms(1) [unfolded spends_def, rule_format, OF assms(2)] assms(3) by (simp only: if_False)
  then show ?thesis using that by blast
qed

lemma spends_okA: "spends T v (okA x) True x 0 0"
  by (rule spendsI) (auto simp: fits_def working_def)

lemma spends_check: "spends T v (checkA b e) b () 0 0"
  by (rule spendsI) (auto simp: fits_def working_def checkA_def)

lemma spends_bind:
  assumes m: "spends T v m ok x g p" and f: "ok \<Longrightarrow> spends T v (f x) ok' y g' p'"
  shows "spends T v (bindA m f) (ok \<and> ok') y (g + g') (p + p')"
proof (rule spendsI)
  fix s assume s: "working T v s" and ok: "ok \<and> ok'" and r: "fits (g + g') (p + p') s"
  have "fits g p s" using r by (simp add: fits_def)
  then obtain t where t: "m s = (return x, t)" "working T v t" "ms_glob_work t = ms_glob_work s + g"
    "ms_payload_work t = ms_payload_work s + p" using spends_ok [OF m s] ok by blast
  then have "fits g' p' t" using r by (simp add: fits_def)
  then obtain u where u: "f x t = (return y, u)" "working T v u" "ms_glob_work u = ms_glob_work t + g'"
    "ms_payload_work u = ms_payload_work t + p'" using spends_ok [OF f] ok t(2) by blast
  show "\<exists>t. bindA m f s = (return y, t) \<and> working T v t \<and> ms_glob_work t = ms_glob_work s + (g + g')
    \<and> ms_payload_work t = ms_payload_work s + (p + p')"
    using t u by (simp add: bindA_def)
next
  fix s assume s: "working T v s" and no: "\<not> ((ok \<and> ok') \<and> fits (g + g') (p + p') s)"
  show "\<exists>e t. bindA m f s = (raise e, t)"
  proof (cases "ok \<and> fits g p s")
    case False
    then obtain e t where "m s = (raise e, t)" using spends_fail [OF m s] by blast
    then show ?thesis by (simp add: bindA_def)
  next
    case True
    then obtain t where t: "m s = (return x, t)" "working T v t" "ms_glob_work t = ms_glob_work s + g"
      "ms_payload_work t = ms_payload_work s + p" using spends_ok [OF m s] by blast
    then have "\<not> (ok' \<and> fits g' p' t)" using no True by (auto simp: fits_def)
    then obtain e u where "f x t = (raise e, u)" using spends_fail [OF f t(2)] True by blast
    then show ?thesis using t by (simp add: bindA_def)
  qed
qed

lemma spends_and:
  assumes "spends T v m ok b g p" and "spends T v n ok' b' g' p'"
  shows "\<exists>ok g p. spends T v (andA m n) ok (b \<and> b') g p"
proof -
  have "spends T v (if b then n else okA False) (if b then ok' else True) (b \<and> b')
    (if b then g' else 0) (if b then p' else 0)"
    using assms(2) spends_okA by auto
  then have "spends T v (andA m n) (ok \<and> (if b then ok' else True)) (b \<and> b') (g + (if b then g' else 0))
    (p + (if b then p' else 0))"
    unfolding andA_def by (rule spends_bind [OF assms(1)])
  then show ?thesis by blast
qed

lemma spends_glob_work: "spends T v (charge_glob_work n) True () n 0"
  by (rule spendsI) (auto simp: charge_glob_work_def fits_def working_def)

lemma spends_payload_work: "spends T v (charge_payload_work n) True () 0 n"
  by (rule spendsI) (auto simp: charge_payload_work_def fits_def working_def)

lemma spends_patterns:
  "\<exists>g. spends T v (match_patterns T name ps) True (\<exists>p \<in> set ps. fnmatchcase name (tx_normcase T p)) g 0"
proof (induction ps)
  case Nil
  show ?case by (rule exI [of _ 0]) (simp add: spends_okA del: okA_simp)
next
  case (Cons p ps)
  then obtain g where g: "spends T v (match_patterns T name ps) True (\<exists>p \<in> set ps. fnmatchcase name (tx_normcase T p)) g 0" ..
  let ?hit = "fnmatchcase name (tx_normcase T p)"
  have r: "spends T v (if ?hit then okA True else match_patterns T name ps) True
    (\<exists>p \<in> set (p # ps). fnmatchcase name (tx_normcase T p)) (if ?hit then 0 else g) 0"
    using g spends_okA [of T v True] by (cases ?hit) (auto simp del: okA_simp)
  have "spends T v (match_patterns T name (p # ps)) (True \<and> True)
    (\<exists>p \<in> set (p # ps). fnmatchcase name (tx_normcase T p))
    (length name + length (tx_normcase T p) + (if ?hit then 0 else g)) (0 + 0)"
    unfolding match_patterns.simps Let_def by (rule spends_bind [OF spends_glob_work r])
  then show ?case by auto
qed

lemma spends_globs: "\<exists>ok g. spends T v (matches_any_glob T subject ps label n) ok (any_glob T subject ps) g 0"
proof -
  obtain g where g: "spends T v (match_patterns T (tx_normcase T subject) ps) True (any_glob T subject ps) g 0"
    using spends_patterns [of T v "tx_normcase T subject" ps] by (auto simp: any_glob_def)
  have "spends T v (matches_any_glob T subject ps label n)
      (length subject \<le> n \<and> length (tx_normcase T subject) \<le> n \<and> True) (any_glob T subject ps) (0 + (0 + g)) (0 + (0 + 0))"
    unfolding matches_any_glob_def Let_def by (rule spends_bind [OF spends_check], rule spends_bind [OF spends_check], rule g)
  then show ?thesis by auto
qed

lemma spends_text:
  "bounded_payload_text T v = return t \<Longrightarrow> spends T v (payload_text_for T v) True t 0 0"
  by (rule spendsI) (auto simp: payload_text_for_def bindA_def readA_def writeA_def liftA_def fits_def working_def
      split: option.splits)

lemma spends_no_text:
  "bounded_payload_text T v = raise e \<Longrightarrow> spends T v (payload_text_for T v) False x 0 0"
  by (rule spendsI) (auto simp: payload_text_for_def bindA_def readA_def liftA_def working_def split: option.splits)

lemma spends_terms:
  "\<exists>p. spends T v (match_terms T txt ts) True (\<exists>t \<in> set ts. contains txt (tx_lower T t)) 0 p"
proof (induction ts)
  case Nil
  show ?case by (rule exI [of _ 0]) (simp add: spends_okA del: okA_simp)
next
  case (Cons t ts)
  then obtain p where p: "spends T v (match_terms T txt ts) True (\<exists>t \<in> set ts. contains txt (tx_lower T t)) 0 p" ..
  let ?hit = "contains txt (tx_lower T t)"
  have r: "spends T v (if ?hit then okA True else match_terms T txt ts) True
    (\<exists>t \<in> set (t # ts). contains txt (tx_lower T t)) 0 (if ?hit then 0 else p)"
    using p spends_okA [of T v True] by (cases ?hit) (auto simp del: okA_simp)
  have "spends T v (match_terms T txt (t # ts)) (True \<and> True)
    (\<exists>t \<in> set (t # ts). contains txt (tx_lower T t)) (0 + 0)
    (length txt + length (tx_lower T t) + (if ?hit then 0 else p))"
    unfolding match_terms.simps Let_def by (rule spends_bind [OF spends_payload_work r])
  then show ?case by auto
qed

lemma spends_payload:
  "\<exists>ok p. spends T v (match_payload T r v) ok
     (ru_payload_contains r = [] \<or> (\<exists>t \<in> set (ru_payload_contains r). contains (payload_text T v) (tx_lower T t))) 0 p"
proof (cases "ru_payload_contains r = []")
  case True
  then show ?thesis using spends_okA [of T v True] by (auto simp: match_payload_def simp del: okA_simp)
next
  case False
  obtain p where p: "spends T v (match_terms T (payload_text T v) (ru_payload_contains r)) True
    (\<exists>t \<in> set (ru_payload_contains r). contains (payload_text T v) (tx_lower T t)) 0 p"
    using spends_terms by blast
  show ?thesis
  proof (cases "bounded_payload_text T v")
    case (Inr t)
    then have "t = payload_text T v" by (simp add: payload_text_def)
    then have "spends T v (match_payload T r v) (True \<and> True)
      (\<exists>t \<in> set (ru_payload_contains r). contains (payload_text T v) (tx_lower T t)) (0 + 0) (0 + p)"
      unfolding match_payload_def using False by (simp only: if_False) (rule spends_bind [OF spends_text [OF Inr]], simp add: p)
    then show ?thesis using False by auto
  next
    case (Inl e)
    have "spends T v (match_payload T r v) (False \<and> True)
      (\<exists>t \<in> set (ru_payload_contains r). contains (payload_text T v) (tx_lower T t)) (0 + 0) (0 + p)"
      unfolding match_payload_def using False by (simp only: if_False) (rule spends_bind [OF spends_no_text [OF Inl]], simp)
    then show ?thesis using False by auto
  qed
qed

lemma spends_rule:
  assumes "v = pa_payload a"
  shows "\<exists>ok g p. spends T v (rule_matches T a context r) ok (fires T a context r) g p"
proof -
  have tools: "\<exists>ok g p. spends T v (if ru_tools r = [] then okA True
      else matches_any_glob T (pa_tool_name a) (ru_tools r) ''tool name'' max_match_tool_name) ok
      (ru_tools r = [] \<or> any_glob T (pa_tool_name a) (ru_tools r)) g p"
    using spends_globs spends_okA [of T v True] by (cases "ru_tools r = []") (simp del: okA_simp, blast)+
  have targets: "\<exists>ok g p. spends T v (if ru_targets r = [] then okA True
      else matches_any_glob T (pa_target a) (ru_targets r) ''target'' max_match_target) ok
      (ru_targets r = [] \<or> any_glob T (pa_target a) (ru_targets r)) g p"
    using spends_globs spends_okA [of T v True] by (cases "ru_targets r = []") (simp del: okA_simp, blast)+
  have ok: "\<exists>ok g p. spends T v (okA b) ok b g p" for b :: bool by (intro exI) (rule spends_okA)
  have and': "\<exists>ok g p. spends T v (andA m n) ok (b \<and> b') g p"
    if "\<exists>ok g p. spends T v m ok b g p" "\<exists>ok g p. spends T v n ok b' g p" for m n b b'
    using that spends_and by blast
  have "fires T a context r \<longleftrightarrow>
     (ru_tools r = [] \<or> any_glob T (pa_tool_name a) (ru_tools r))
     \<and> (case ru_side_effect_at_least r of None \<Rightarrow> True
           | Some threshold \<Rightarrow> side_effect_rank threshold \<le> side_effect_rank (pa_side_effect_level a))
     \<and> (ru_targets r = [] \<or> any_glob T (pa_target a) (ru_targets r))
     \<and> (ru_payload_contains r = []
        \<or> (\<exists>t \<in> set (ru_payload_contains r). contains (payload_text T (pa_payload a)) (tx_lower T t)))
     \<and> (case ru_max_payload_trust r of None \<Rightarrow> True | Some allowed \<Rightarrow> trust_satisfies (payload_trust a) allowed)
     \<and> (ru_sensitivities r = [] \<or> (case dict_get (lit ''sensitivity'') context of None \<Rightarrow> [] | Some v \<Rightarrow> v) \<in> set (ru_sensitivities r))"
    by (simp add: fires_def sensitivity_of_def less_eq_side_effect_def split: option.splits)
  then show ?thesis
    unfolding rule_matches_def assms [symmetric]
    by (simp only:) (intro and' tools targets ok, use spends_payload in blast)
qed

text \<open>The rules that match, and their total work: the order of the rules matters to neither.\<close>

lemma spends_matched:
  assumes "\<forall>r. spends T v (rule_matches T a context r) (ok r) (fires T a context r) (g r) (p r)"
  shows "spends T v (matched_rules T a context rs) (\<forall>r \<in> set rs. ok r) (filter (fires T a context) rs)
    (sum_list (map g rs)) (sum_list (map p rs))"
proof (induction rs)
  case Nil
  show ?case using spends_okA [of T v "[]"] by (simp del: okA_simp)
next
  case (Cons r rs)
  let ?rest = "\<lambda>rest. if fires T a context r then r # rest else rest"
  have "spends T v (bindA (matched_rules T a context rs) (\<lambda>rest. okA (?rest rest))) ((\<forall>r \<in> set rs. ok r) \<and> True)
      (?rest (filter (fires T a context) rs)) (sum_list (map g rs) + 0) (sum_list (map p rs) + 0)"
    by (rule spends_bind [OF Cons.IH]) (rule spends_okA)
  then have "spends T v (bindA (matched_rules T a context rs)
      (\<lambda>rest. okA (?rest rest))) (\<forall>r \<in> set rs. ok r)
      (filter (fires T a context) (r # rs)) (sum_list (map g rs)) (sum_list (map p rs))"
    by (simp del: okA_simp)
  then have "spends T v (matched_rules T a context (r # rs)) (ok r \<and> (\<forall>r \<in> set rs. ok r))
      (filter (fires T a context) (r # rs)) (g r + sum_list (map g rs)) (p r + sum_list (map p rs))"
    unfolding matched_rules.simps(2) by (rule spends_bind [OF assms [rule_format, of r]])
  then show ?case by simp
qed

lemma spends_rules:
  assumes "v = pa_payload a"
  obtains ok g p where "\<And>rs. spends T v (matched_rules T a context rs) (\<forall>r \<in> set rs. ok r)
    (filter (fires T a context) rs) (sum_list (map g rs)) (sum_list (map p rs))"
proof -
  have "\<forall>r. \<exists>x. spends T v (rule_matches T a context r) (fst x) (fires T a context r) (fst (snd x)) (snd (snd x))"
    using spends_rule [OF assms, of T "context"] by (metis fst_conv snd_conv)
  then obtain f where "\<forall>r. spends T v (rule_matches T a context r) (fst (f r)) (fires T a context r)
      (fst (snd (f r))) (snd (snd (f r)))" by (rule choice [THEN exE])
  from spends_matched [OF this] show ?thesis by (rule that)
qed

subsection \<open>The outcome of the matching\<close>

definition is_known :: "text_library \<Rightarrow> policy_engine \<Rightarrow> action \<Rightarrow> bool" where
  "is_known T E a \<longleftrightarrow> pe_known_tools E = [] \<or> any_glob T (pa_tool_name a) (pe_known_tools E)"

definition firing :: "text_library \<Rightarrow> policy_engine \<Rightarrow> action \<Rightarrow> (pystr, pystr) dict \<Rightarrow> rule list" where
  "firing T E a context = filter (fires T a context) (pe_rules E)"

lemma spends_known: "\<exists>ok g. spends T v (is_known_tool T E (pa_tool_name a)) ok (is_known T E a) g 0"
proof (cases "pe_known_tools E = []")
  case True
  then show ?thesis
    by (intro exI) (simp add: is_known_tool_def is_known_def del: okA_simp, rule spends_okA)
next
  case False
  then show ?thesis using spends_globs by (simp add: is_known_tool_def is_known_def)
qed

lemma working_new: "working T v new_match_state"
  by (simp add: working_def new_match_state_def)

text \<open>Two engines with the same rules in any order, and the same known tools, match alike.\<close>

lemma match_action_outcome:
  assumes "mset (pe_rules E) = mset (pe_rules F)" "pe_known_tools E = pe_known_tools F"
  shows "(\<exists>e f. fst (match_action T E a ctx new_match_state) = raise e
      \<and> fst (match_action T F a ctx new_match_state) = raise f)
    \<or> (fst (match_action T E a ctx new_match_state) = return (if is_known T E a then Some (firing T E a ctx) else None)
      \<and> fst (match_action T F a ctx new_match_state) = return (if is_known T F a then Some (firing T F a ctx) else None))"
proof -
  let ?v = "pa_payload a"
  obtain ok0 g0 where k: "spends T ?v (is_known_tool T E (pa_tool_name a)) ok0 (is_known T E a) g0 0"
    using spends_known by blast
  obtain ok g p where m: "\<And>rs. spends T ?v (matched_rules T a ctx rs) (\<forall>r \<in> set rs. ok r)
      (filter (fires T a ctx) rs) (sum_list (map g rs)) (sum_list (map p rs))"
    using spends_rules [OF refl] by metis
  have all: "spends T ?v (match_action T G a ctx) (ok0 \<and> (if is_known T E a then \<forall>r \<in> set (pe_rules G). ok r else True))
      (if is_known T G a then Some (firing T G a ctx) else None)
      (g0 + (if is_known T E a then sum_list (map g (pe_rules G)) else 0))
      (0 + (if is_known T E a then sum_list (map p (pe_rules G)) else 0))"
    if G: "pe_known_tools G = pe_known_tools E" for G
  proof -
    have e: "is_known_tool T G = is_known_tool T E" "is_known T G a = is_known T E a"
      using G by (auto simp: is_known_tool_def is_known_def fun_eq_iff)
    have "spends T ?v (bindA (matched_rules T a ctx (pe_rules G)) (\<lambda>matched. okA (Some matched)))
        ((\<forall>r \<in> set (pe_rules G). ok r) \<and> True) (Some (firing T G a ctx))
        (sum_list (map g (pe_rules G)) + 0) (sum_list (map p (pe_rules G)) + 0)"
      unfolding firing_def by (rule spends_bind [OF m]) (rule spends_okA)
    then have "spends T ?v (if \<not> is_known T E a then okA None
          else bindA (matched_rules T a ctx (pe_rules G)) (\<lambda>matched. okA (Some matched)))
        (if is_known T E a then \<forall>r \<in> set (pe_rules G). ok r else True)
        (if is_known T G a then Some (firing T G a ctx) else None)
        (if is_known T E a then sum_list (map g (pe_rules G)) else 0)
        (if is_known T E a then sum_list (map p (pe_rules G)) else 0)"
      using spends_okA [of T ?v None] e by (cases "is_known T E a") (simp_all del: okA_simp)
    then show ?thesis unfolding match_action_def e(1) by (rule spends_bind [OF k])
  qed
  let ?fit = "\<lambda>G. (ok0 \<and> (if is_known T E a then \<forall>r \<in> set (pe_rules G). ok r else True))
    \<and> fits (g0 + (if is_known T E a then sum_list (map g (pe_rules G)) else 0))
        (0 + (if is_known T E a then sum_list (map p (pe_rules G)) else 0)) new_match_state"
  have sums: "sum_list (map h (pe_rules E)) = sum_list (map h (pe_rules F))" for h :: "rule \<Rightarrow> nat"
    using assms(1) by (metis mset_map sum_mset_sum_list)
  have eq: "?fit E = ?fit F" using sums mset_eq_setD [OF assms(1)] by simp
  show ?thesis
  proof (cases "?fit E")
    case True
    obtain t where "match_action T E a ctx new_match_state = (return (if is_known T E a then Some (firing T E a ctx) else None), t)"
      using spends_ok [OF all [OF refl] working_new] True by blast
    moreover obtain u where "match_action T F a ctx new_match_state
        = (return (if is_known T F a then Some (firing T F a ctx) else None), u)"
      using spends_ok [OF all [OF assms(2) [symmetric]] working_new] True eq by blast
    ultimately show ?thesis by simp
  next
    case False
    obtain e t where "match_action T E a ctx new_match_state = (raise e, t)"
      using spends_fail [OF all [OF refl] working_new False] by blast
    moreover obtain f u where "match_action T F a ctx new_match_state = (raise f, u)"
      using spends_fail [OF all [OF assms(2) [symmetric]] working_new] False eq by blast
    ultimately show ?thesis by simp
  qed
qed

lemma match_action_Inr:
  assumes "fst (match_action T E a ctx new_match_state) = return x"
  shows "x = (if is_known T E a then Some (firing T E a ctx) else None)"
  using match_action_outcome [of E E T a ctx] assms by auto

subsection \<open>Verdicts\<close>

lemma severity_inj [simp]: "severity d = severity e \<longleftrightarrow> d = e"
  by (cases d; cases e) (simp_all add: severity_def)

lemma severity_le_Block [simp]: "severity d \<le> severity Block"
  by (cases d) (simp_all add: severity_def)

lemma strictest_in: "strictest best rs \<in> set (best # rs)"
  by (induction rs arbitrary: best) (simp_all, metis)

lemma strictest_max: "\<forall>r \<in> set (best # rs). severity (ru_effect r) \<le> severity (ru_effect (strictest best rs))"
proof (induction rs arbitrary: best)
  case (Cons x rs)
  show ?case
  proof (cases "severity (ru_effect best) < severity (ru_effect x)")
    case True
    then have "severity (ru_effect best) \<le> severity (ru_effect (strictest x rs))" using Cons [of x] by simp
    then show ?thesis using Cons [of x] True by simp
  next
    case False
    then have "severity (ru_effect x) \<le> severity (ru_effect (strictest best rs))" using Cons [of best] by simp
    then show ?thesis using Cons [of best] False by simp
  qed
qed simp

lemma verdict_strictest:
  assumes "r \<in> set ms"
  shows "severity (ru_effect r) \<le> severity (vd_decision (verdict_of a ms))"
proof (cases ms)
  case (Cons x rs)
  then show ?thesis using strictest_max [of x rs] assms by (auto simp: verdict_of_def Let_def)
qed (use assms in simp)

lemma verdict_justified:
  "ms \<noteq> [] \<Longrightarrow> \<exists>r \<in> set ms. ru_effect r = vd_decision (verdict_of a ms) \<and> ru_id r \<in> set (vd_policy_ids (verdict_of a ms))"
proof (cases ms)
  case (Cons r rs)
  then have "strictest r rs \<in> set ms" using strictest_in by simp
  then show ?thesis using Cons by (auto simp: verdict_of_def Let_def intro!: bexI [of _ "strictest r rs"])
qed simp

lemma verdict_ids:
  "ms \<noteq> [] \<Longrightarrow> vd_policy_ids (verdict_of a ms) = map ru_id (filter (\<lambda>r. ru_effect r = vd_decision (verdict_of a ms)) ms)"
  by (cases ms) (simp_all add: verdict_of_def Let_def)

lemma verdict_redactions:
  assumes "ms \<noteq> []"
  shows "vd_redactions (verdict_of a ms) =
     sorted_list_of_set (\<Union>r \<in> {r \<in> set ms. ru_effect r = vd_decision (verdict_of a ms)}. set (ru_redactions r))"
proof -
  let ?agree = "filter (\<lambda>x. ru_effect x = vd_decision (verdict_of a ms)) ms"
  have "vd_redactions (verdict_of a ms) = sort (remdups (concat (map ru_redactions ?agree)))"
    using assms by (cases ms) (simp_all add: verdict_of_def Let_def)
  also have "\<dots> = sorted_list_of_set (set (concat (map ru_redactions ?agree)))"
    by (rule sorted_list_of_set_sort_remdups [symmetric])
  finally show ?thesis by simp
qed

text \<open>The decision, the rules it is attributed to and the redactions depend on the set of rules only.\<close>

lemma verdict_same:
  assumes "set ms = set ns"
  shows "vd_decision (verdict_of a ms) = vd_decision (verdict_of a ns)"
    and "set (vd_policy_ids (verdict_of a ms)) = set (vd_policy_ids (verdict_of a ns))"
    and "vd_redactions (verdict_of a ms) = vd_redactions (verdict_of a ns)"
proof -
  have d: "vd_decision (verdict_of a ms) = vd_decision (verdict_of a ns)" if ne: "ms \<noteq> []"
  proof -
    have ne': "ns \<noteq> []" using ne assms by auto
    have "severity (vd_decision (verdict_of a ms)) \<le> severity (vd_decision (verdict_of a ns))"
      using verdict_justified [OF ne] verdict_strictest assms by metis
    moreover have "severity (vd_decision (verdict_of a ns)) \<le> severity (vd_decision (verdict_of a ms))"
      using verdict_justified [OF ne'] verdict_strictest assms by metis
    ultimately show ?thesis by (simp add: order_antisym flip: severity_inj)
  qed
  have all: "vd_decision (verdict_of a ms) = vd_decision (verdict_of a ns)
     \<and> set (vd_policy_ids (verdict_of a ms)) = set (vd_policy_ids (verdict_of a ns))
     \<and> vd_redactions (verdict_of a ms) = vd_redactions (verdict_of a ns)"
  proof (cases "ms = []")
    case True
    then show ?thesis using assms by simp
  next
    case False
    moreover have "ns \<noteq> []" using False assms by auto
    ultimately show ?thesis using d [OF False] by (simp add: verdict_ids verdict_redactions assms)
  qed
  then show "vd_decision (verdict_of a ms) = vd_decision (verdict_of a ns)"
    and "set (vd_policy_ids (verdict_of a ms)) = set (vd_policy_ids (verdict_of a ns))"
    and "vd_redactions (verdict_of a ms) = vd_redactions (verdict_of a ns)" by simp_all
qed

subsection \<open>Decisions\<close>

lemma policy_decision_fields:
  assumes "policy_decision R E stamp d reason ids scope redactions inputs = return q"
  shows "gd_decision q = d \<and> gd_policy_ids q = ids \<and> gd_redactions q = redactions
     \<and> gd_ruleset_hash q = pe_ruleset_hash E \<and> gd_policy_version q = pe_version E \<and> gd_approval_scope q = scope"
  using assms unfolding policy_decision_def validate_guardrail_decision_def
  by (clarsimp split: if_splits)

text \<open>The four ways an evaluation ends.\<close>

lemma evaluate_cases [consumes 1, case_names bad_context limit unknown matched]:
  assumes "evaluate R T E stamp a context = return d"
  obtains e where "context_snapshot context = raise e" "gd_decision d = Block"
      "gd_policy_ids d = [lit ''policy_context_contract'']" "gd_redactions d = []"
  | ctx e where "context_snapshot context = return ctx"
      "fst (match_action T E a ctx new_match_state) = raise e" "gd_decision d = Block"
      "gd_policy_ids d = [lit ''policy_match_limit'']" "gd_redactions d = []"
  | ctx where "context_snapshot context = return ctx" "\<not> is_known T E a"
      "fst (match_action T E a ctx new_match_state) = return None" "gd_decision d = Block"
      "gd_policy_ids d = [lit ''unknown_tool'']" "gd_redactions d = []"
  | ctx where "context_snapshot context = return ctx" "is_known T E a"
      "fst (match_action T E a ctx new_match_state) = return (Some (firing T E a ctx))"
      "gd_decision d = vd_decision (verdict_of a (firing T E a ctx))"
      "gd_policy_ids d = vd_policy_ids (verdict_of a (firing T E a ctx))"
      "gd_redactions d = vd_redactions (verdict_of a (firing T E a ctx))"
proof (cases "context_snapshot context")
  case (Inl e)
  then have "context_error_decision R E stamp a e = return d" using assms by (simp add: evaluate_def)
  then show ?thesis using that(1) Inl by (auto simp: context_error_decision_def dest!: policy_decision_fields)
next
  case (Inr ctx)
  show ?thesis
  proof (cases "fst (match_action T E a ctx new_match_state)")
    case (Inl e)
    then have "match_limit_decision R E stamp a e = return d" using assms Inr by (simp add: evaluate_def)
    then show ?thesis using that(2) Inr Inl by (auto simp: match_limit_decision_def dest!: policy_decision_fields)
  next
    case m: (Inr x)
    show ?thesis
    proof (cases x)
      case None
      then have "unknown_tool_decision R E stamp a = return d" using assms Inr m by (simp add: evaluate_def)
      moreover have "\<not> is_known T E a" using match_action_Inr [OF m] None by (auto split: if_splits)
      ultimately show ?thesis
        using that(3) Inr m None by (auto simp: unknown_tool_decision_def dest!: policy_decision_fields)
    next
      case (Some ms)
      then have "rules_decision R E stamp a ctx ms = return d" using assms Inr m by (simp add: evaluate_def)
      moreover have "is_known T E a" "ms = firing T E a ctx"
        using match_action_Inr [OF m] Some by (auto split: if_splits)
      ultimately show ?thesis
        using that(4) Inr m Some by (auto simp: rules_decision_def Let_def dest!: policy_decision_fields)
    qed
  qed
qed

end
