(* ===== verification/PolicyBinding.thy ===== *)
theory PolicyBinding
  imports PolicyFacts CanonicalInjective ContractProperties
begin

text \<open>
  What the hash of a ruleset binds, and what the construction of an engine establishes: unique rule
  identifiers, no empty pattern, and counts within the ceilings.
\<close>

subsection \<open>The hash of a ruleset\<close>

lemma reload_texts: "json_reload (text_tuple ss) = json_reload (text_tuple ts) \<longleftrightarrow> ss = ts"
  by (simp add: text_tuple_def o_def inj_map_eq_map inj_def)

lemma reload_optional:
  "(\<And>m n. value m = value n \<longleftrightarrow> m = n) \<Longrightarrow>
   json_reload (optional_text value v) = json_reload (optional_text value w) \<longleftrightarrow> v = w"
  by (auto simp: optional_text_def split: option.splits)

lemma rule_object_inj: "json_reload (rule_object r) = json_reload (rule_object q) \<Longrightarrow> r = q"
proof -
  assume a: "json_reload (rule_object r) = json_reload (rule_object q)"
  note f = json_reload_field [OF a [unfolded rule_object_def]]
  have "ru_id r = ru_id q" using f [of "lit ''id''" "PStr (ru_id r)" "PStr (ru_id q)"] by (simp add: lit_def)
  moreover have "ru_description r = ru_description q"
    using f [of "lit ''description''" "PStr (ru_description r)" "PStr (ru_description q)"] by (simp add: lit_def)
  moreover have "ru_tools r = ru_tools q"
    using f [of "lit ''tools''" "text_tuple (ru_tools r)" "text_tuple (ru_tools q)"] by (simp add: lit_def reload_texts)
  moreover have "ru_side_effect_at_least r = ru_side_effect_at_least q"
    using f [of "lit ''side_effect_at_least''" "optional_text side_effect_value (ru_side_effect_at_least r)"
        "optional_text side_effect_value (ru_side_effect_at_least q)"] by (simp add: lit_def reload_optional)
  moreover have "ru_targets r = ru_targets q"
    using f [of "lit ''targets''" "text_tuple (ru_targets r)" "text_tuple (ru_targets q)"] by (simp add: lit_def reload_texts)
  moreover have "ru_payload_contains r = ru_payload_contains q"
    using f [of "lit ''payload_contains''" "text_tuple (ru_payload_contains r)" "text_tuple (ru_payload_contains q)"]
    by (simp add: lit_def reload_texts)
  moreover have "ru_max_payload_trust r = ru_max_payload_trust q"
    using f [of "lit ''max_payload_trust''" "optional_text trust_value (ru_max_payload_trust r)"
        "optional_text trust_value (ru_max_payload_trust q)"] by (simp add: lit_def reload_optional)
  moreover have "ru_sensitivities r = ru_sensitivities q"
    using f [of "lit ''sensitivities''" "text_tuple (ru_sensitivities r)" "text_tuple (ru_sensitivities q)"]
    by (simp add: lit_def reload_texts)
  moreover have "ru_effect r = ru_effect q"
    using f [of "lit ''effect''" "PStr (decision_value (ru_effect r))" "PStr (decision_value (ru_effect q))"]
    by (simp add: lit_def)
  moreover have "ru_reason r = ru_reason q"
    using f [of "lit ''reason''" "PStr (ru_reason r)" "PStr (ru_reason q)"] by (simp add: lit_def)
  moreover have "ru_approval_scope r = ru_approval_scope q"
    using f [of "lit ''approval_scope''" "PStr (ru_approval_scope r)" "PStr (ru_approval_scope q)"] by (simp add: lit_def)
  moreover have "ru_redactions r = ru_redactions q"
    using f [of "lit ''redactions''" "text_tuple (ru_redactions r)" "text_tuple (ru_redactions q)"]
    by (simp add: lit_def reload_texts)
  ultimately show "r = q" by simp
qed

lemma surface_determines_rules:
  assumes a: "json_reload (ruleset_surface tools inputs rs) = json_reload (ruleset_surface tools' inputs' rs')"
  shows "mset tools = mset tools' \<and> json_reload inputs = json_reload inputs' \<and> mset rs = mset rs'"
proof -
  note f = json_reload_field [OF a [unfolded ruleset_surface_def]]
  have "map PStr (sort tools) = map PStr (sort tools')"
    using f [of "lit ''known_tools''" "PList (map PStr (sort tools))" "PList (map PStr (sort tools'))"]
    by (simp add: lit_def o_def)
  then have "sort tools = sort tools'" by (rule map_injective) (simp add: inj_def)
  then have "mset tools = mset tools'" by (metis mset_sort)
  moreover have "json_reload inputs = json_reload inputs'"
    using f [of "lit ''authority_inputs''" inputs inputs'] by (simp add: lit_def)
  moreover have "map (json_reload \<circ> rule_object) (sort_key ru_id rs) = map (json_reload \<circ> rule_object) (sort_key ru_id rs')"
    using f [of "lit ''rules''" "PList (map rule_object (sort_key ru_id rs))" "PList (map rule_object (sort_key ru_id rs'))"]
    by (simp add: lit_def)
  then have "sort_key ru_id rs = sort_key ru_id rs'"
    by (rule map_injective) (auto simp: inj_def dest: rule_object_inj)
  then have "mset rs = mset rs'" by (metis mset_sort)
  ultimately show ?thesis by simp
qed

text \<open>An engine whose ruleset is plain text and whose hash is the one its constructor took.\<close>

definition plain_engine :: "runtime \<Rightarrow> policy_engine \<Rightarrow> bool" where
  "plain_engine R E \<longleftrightarrow> pe_ruleset_hash E = ruleset_hash_of R (pe_known_tools E) (pe_authority_inputs E) (pe_rules E)
     \<and> json_data (ruleset_surface (pe_known_tools E) (pe_authority_inputs E) (pe_rules E))"

text \<open>The canonical text whose hash is the ruleset hash.\<close>

definition ruleset_text :: "policy_engine \<Rightarrow> pystr" where
  "ruleset_text E = encode (ruleset_surface (pe_known_tools E) (pe_authority_inputs E) (pe_rules E))"

lemma ruleset_hash_binds:
  assumes "plain_engine R E" "plain_engine R F" "pe_ruleset_hash E = pe_ruleset_hash F"
  shows "(mset (pe_rules E) = mset (pe_rules F) \<and> mset (pe_known_tools E) = mset (pe_known_tools F)
       \<and> json_reload (pe_authority_inputs E) = json_reload (pe_authority_inputs F))
     \<or> collision R (ruleset_text E) (ruleset_text F)"
proof -
  let ?s = "\<lambda>G. ruleset_surface (pe_known_tools G) (pe_authority_inputs G) (pe_rules G)"
  have h: "rt_sha256 R (encode (?s E)) = rt_sha256 R (encode (?s F))"
    using assms by (simp add: plain_engine_def ruleset_hash_of_def sha256_of_def)
  show ?thesis
  proof (cases "encode (?s E) = encode (?s F)")
    case True
    then have "json_reload (?s E) = json_reload (?s F)"
      using encode_data_inj assms(1,2) unfolding plain_engine_def by blast
    then show ?thesis using surface_determines_rules by blast
  next
    case False
    then show ?thesis using h by (simp add: collision_def ruleset_text_def)
  qed
qed

subsection \<open>Constructed engines\<close>

definition rule_ok :: "rule \<Rightarrow> bool" where
  "rule_ok r \<longleftrightarrow> py_strip (ru_id r) \<noteq> []
     \<and> [] \<notin> set (ru_tools r @ ru_targets r @ ru_payload_contains r @ ru_sensitivities r @ ru_redactions r)"

lemma nonempty_texts_ok: "nonempty_texts vs = Some ss \<Longrightarrow> [] \<notin> set ss \<and> length ss = length vs"
proof -
  assume a: "nonempty_texts vs = Some ss"
  have t: "text_of (Some v) \<noteq> []" if "case v of PStr s \<Rightarrow> s \<noteq> [] | _ \<Rightarrow> False" for v
    using that by (cases v) auto
  show ?thesis using a by (force simp: nonempty_texts_def list_all_iff dest: t split: if_splits)
qed

lemma texts_entry_ok: "texts_entry k raw = return ss \<Longrightarrow> [] \<notin> set ss"
  by (auto simp: texts_entry_def dest: nonempty_texts_ok split: option.splits if_splits)

lemma rule_of_ok:
  assumes "rule_of v = return r"
  shows "rule_ok r"
proof -
  obtain raw where v: "v = PDict raw" using assms by (cases v) (auto simp: rule_of_def)
  obtain rid tools targets terms sensitivities redactions where
    l: "texts_entry ''tools'' raw = return tools" "texts_entry ''targets'' raw = return targets"
      "texts_entry ''payload_contains'' raw = return terms" "texts_entry ''sensitivities'' raw = return sensitivities"
      "texts_entry ''redactions'' raw = return redactions"
    and r: "ru_id r = rid" "py_strip rid \<noteq> []" "ru_tools r = tools" "ru_targets r = targets" "ru_payload_contains r = terms"
      "ru_sensitivities r = sensitivities" "ru_redactions r = redactions"
    using assms unfolding v rule_of_def
    by (clarsimp split: if_splits option.splits)
  show ?thesis using l [THEN texts_entry_ok] r by (simp add: rule_ok_def)
qed

definition parts_ok :: "policy_parts \<Rightarrow> bool" where
  "parts_ok p \<longleftrightarrow> distinct (map ru_id (pp_rules p)) \<and> (\<forall>r \<in> set (pp_rules p). rule_ok r) \<and> [] \<notin> set (pp_known_tools p)"

lemma add_rule_ok: "add_rule v p = return q \<Longrightarrow> parts_ok p \<Longrightarrow>
    parts_ok q \<and> length (pp_rules q) = Suc (length (pp_rules p)) \<and> pp_known_tools q = pp_known_tools p"
  by (auto simp: add_rule_def parts_ok_def rule_of_ok split: if_splits)

lemma add_rules_ok: "countR add_rule vs p = return q \<Longrightarrow> parts_ok p \<Longrightarrow>
    parts_ok q \<and> length (pp_rules q) = length (pp_rules p) + length vs \<and> pp_known_tools q = pp_known_tools p"
proof (induction vs arbitrary: p)
  case (Cons v vs)
  then obtain p' where "add_rule v p = return p'" "countR add_rule vs p' = return q" by auto
  then show ?case using Cons.IH [of p'] add_rule_ok [of v p p'] Cons.prems(2) by simp
qed simp

lemma add_pack_ok:
  assumes "add_pack T (PDict pack) p = return q" "parts_ok p"
  obtains vs rs where "or_empty_list (raw_get ''known_tools'' pack) = PList vs"
    "or_empty_list (raw_get ''rules'' pack) = PList rs" "parts_ok q"
    "length (pp_rules q) = length (pp_rules p) + length rs"
    "length (pp_known_tools q) = length (pp_known_tools p) + length vs"
proof -
  obtain tools version rs where t: "pack_known_tools pack = return tools"
    and rs: "or_empty_list (raw_get ''rules'' pack) = PList rs"
    and c: "countR add_rule rs (p\<lparr>pp_versions := pp_versions p @ [version], pp_known_tools := pp_known_tools p @ tools\<rparr>) = return q"
    using assms(1) by (cases "or_empty_list (raw_get ''rules'' pack)") (auto simp: add_pack_def Let_def split: if_splits)
  obtain vs where vs: "or_empty_list (raw_get ''known_tools'' pack) = PList vs" "nonempty_texts vs = Some tools"
    using t by (cases "or_empty_list (raw_get ''known_tools'' pack)") (auto simp: pack_known_tools_def split: option.splits)
  have n: "[] \<notin> set tools" "length tools = length vs" using nonempty_texts_ok [OF vs(2)] by auto
  have "parts_ok (p\<lparr>pp_versions := pp_versions p @ [version], pp_known_tools := pp_known_tools p @ tools\<rparr>)"
    using assms(2) n(1) by (auto simp: parts_ok_def)
  from add_rules_ok [OF c this] show ?thesis using that [OF vs(1) rs] n(2) by simp
qed

text \<open>The counters count what the construction adds.\<close>

lemma countR_keeps:
  assumes "\<And>x c d. f x c = return d \<Longrightarrow> h d = h c" "countR f xs c = return d"
  shows "h d = h c"
  using assms(2)
proof (induction xs arbitrary: c)
  case (Cons x xs)
  then obtain c' where "f x c = return c'" "countR f xs c' = return d" by auto
  then show ?case using Cons.IH assms(1) by metis
qed simp

text \<open>
  Parsed packs hold no tuples; then every list of a rule was counted. A snapshot keeps lists and their
  lengths.
\<close>

fun tuple_free :: "pyval \<Rightarrow> bool" where
  "tuple_free (PTuple vs) = False"
| "tuple_free (PList vs) = list_all tuple_free vs"
| "tuple_free (PDict kvs) = list_all (\<lambda>kv. tuple_free (snd kv)) kvs"
| "tuple_free v = True"

lemma visit_tuple_free:
  "visit L v depth st = return (w, st') \<Longrightarrow> tuple_free v \<Longrightarrow> tuple_free w"
  "visit_items L fst' vs depth st = return (ws, st') \<Longrightarrow> list_all tuple_free vs \<Longrightarrow> list_all tuple_free ws"
  "visit_entries L fst' kvs depth st = return (ws, st') \<Longrightarrow> list_all (\<lambda>kv. tuple_free (snd kv)) kvs \<Longrightarrow> list_all tuple_free ws"
proof (induction L v depth st and L fst' vs depth st and L fst' kvs depth st
    arbitrary: w st' and ws st' and ws st' rule: visit_visit_items_visit_entries.induct)
  case (1 L kvs depth st)
  then obtain ks vs s where "w = PDict (zip ks vs)" "list_all tuple_free vs" by fastforce
  then show ?case by (auto simp: list_all_iff dest: set_zip_rightD)
qed (auto simp: visit_scalar_def split: pyval.splits)

lemma visit_items_length: "visit_items L fst' vs depth st = return (ws, st') \<Longrightarrow> length ws = length vs"
  by (induction vs arbitrary: fst' st ws) auto

lemma snapshot_tuple_free: "authority_snapshot v = return w \<Longrightarrow> tuple_free v \<Longrightarrow> tuple_free w"
  by (auto simp: authority_snapshot_def snapshot_of_def dest: visit_tuple_free(1))

lemma snapshot_items:
  assumes "authority_snapshot v = return w" "items_of v = Some vs"
  obtains ws where "items_of w = Some ws" "length ws = length vs"
    "list_all tuple_free vs \<Longrightarrow> list_all tuple_free ws"
proof -
  obtain st' where "visit action_limits v 0 start_state = return (w, st')"
    using assms(1) by (auto simp: authority_snapshot_def snapshot_of_def)
  then obtain b vst ws st where "visit_items action_limits b vs 1 vst = return (ws, st)" "items_of w = Some ws"
    using assms(2) by (cases v) (auto simp: items_of_def)
  then show ?thesis using that visit_items_length visit_tuple_free(2) by blast
qed

abbreviation counted :: "complexity \<Rightarrow> nat \<times> nat" where "counted c \<equiv> (cx_known_tools c, cx_rules c)"

lemma count_text_keeps: "count_policy_text v c = return d \<Longrightarrow> counted d = counted c"
  by (auto simp: count_policy_text_def split: option.splits pyval.splits if_splits)

lemma count_list_keeps:
  assumes "count_rule_list raw k c = return d"
  shows "counted d = counted c"
proof (cases "\<exists>vs. raw_get k raw = Some (PList vs)")
  case True
  then obtain vs where "countR (\<lambda>v. count_policy_text (Some v)) vs (c\<lparr>cx_items := cx_items c + length vs\<rparr>) = return d"
    using assms by (auto simp: count_rule_list_def split: if_splits)
  then show ?thesis
    using countR_keeps [of "\<lambda>v. count_policy_text (Some v)" counted, OF count_text_keeps] by fastforce
next
  case False
  then show ?thesis using assms by (auto simp: count_rule_list_def split: option.splits pyval.splits)
qed

lemma count_rule_keeps:
  assumes "count_rule v c = return d"
  shows "counted d = counted c"
proof (cases v)
  case (PDict raw)
  then obtain c' where "countR (\<lambda>k. count_policy_text (raw_get k raw)) rule_text_fields c = return c'"
    "countR (count_rule_list raw) rule_list_fields c' = return d"
    using assms by (auto simp: count_rule_def)
  then have "counted c' = counted c" "counted d = counted c'"
    using countR_keeps [where h = counted and f = "\<lambda>k. count_policy_text (raw_get k raw)", OF count_text_keeps]
      countR_keeps [where h = counted and f = "count_rule_list raw", OF count_list_keeps] by simp_all
  then show ?thesis by simp
qed (use assms in \<open>auto simp: count_rule_def\<close>)

lemma count_pack_counts:
  assumes "count_pack (PDict pack) c = return d" "or_empty_list (raw_get ''known_tools'' pack) = PList vs"
    "or_empty_list (raw_get ''rules'' pack) = PList rs"
  shows "cx_known_tools d = cx_known_tools c + length vs \<and> cx_rules d = cx_rules c + length rs
    \<and> cx_known_tools d \<le> max_known_tools \<and> cx_rules d \<le> max_rules"
proof -
  obtain c1 c2 where c1: "countR (\<lambda>k. count_policy_text (raw_get k pack)) pack_text_fields c = return c1"
    and c2: "count_known_tools pack c1 = return c2"
    and r: "\<not> max_rules < cx_rules c2 + length rs"
      "countR count_rule rs (c2\<lparr>cx_rules := cx_rules c2 + length rs\<rparr>) = return d"
    using assms(1,3) by (auto simp: count_pack_def split: if_splits)
  have 1: "counted c1 = counted c"
    by (rule countR_keeps [where h = counted, OF _ c1]) (erule count_text_keeps)
  have t: "\<not> max_known_tools < cx_known_tools c1 + length vs"
      "countR (\<lambda>v. count_policy_text (Some v)) vs (c1\<lparr>cx_known_tools := cx_known_tools c1 + length vs\<rparr>) = return c2"
    using c2 assms(2) by (auto simp: count_known_tools_def split: if_splits)
  have 2: "counted c2 = counted (c1\<lparr>cx_known_tools := cx_known_tools c1 + length vs\<rparr>)"
    by (rule countR_keeps [where h = counted, OF _ t(2)]) (erule count_text_keeps)
  have 3: "counted d = counted (c2\<lparr>cx_rules := cx_rules c2 + length rs\<rparr>)"
    by (rule countR_keeps [where h = counted, OF _ r(2)]) (erule count_rule_keeps)
  show ?thesis using 1 2 3 t(1) r(1) by simp
qed

lemma packs_counted:
  assumes "countR count_pack ps c = return d" "countR (add_pack T) ps p = return q" "parts_ok p"
    "cx_known_tools c = length (pp_known_tools p)" "cx_rules c = length (pp_rules p)"
    "cx_known_tools c \<le> max_known_tools" "cx_rules c \<le> max_rules"
  shows "parts_ok q \<and> length (pp_known_tools q) \<le> max_known_tools \<and> length (pp_rules q) \<le> max_rules"
  using assms
proof (induction ps arbitrary: c p)
  case (Cons v ps)
  obtain c1 p1 where 1: "count_pack v c = return c1" "countR count_pack ps c1 = return d"
      "add_pack T v p = return p1" "countR (add_pack T) ps p1 = return q" using Cons.prems by auto
  obtain pack where v: "v = PDict pack" using 1(1) by (cases v) (auto simp: count_pack_def)
  obtain vs rs where k: "or_empty_list (raw_get ''known_tools'' pack) = PList vs"
    "or_empty_list (raw_get ''rules'' pack) = PList rs" "parts_ok p1"
    "length (pp_rules p1) = length (pp_rules p) + length rs"
    "length (pp_known_tools p1) = length (pp_known_tools p) + length vs"
    using add_pack_ok [OF 1(3) [unfolded v] Cons.prems(3)] .
  show ?case
    using Cons.IH [OF 1(2,4) k(3)] count_pack_counts [OF 1(1) [unfolded v] k(1,2)] k(4,5) Cons.prems(4,5) by simp
qed simp

text \<open>The lists of the rules, as they are counted.\<close>

definition rule_lists :: "rule \<Rightarrow> pystr list list" where
  "rule_lists r = [ru_tools r, ru_targets r, ru_payload_contains r, ru_sensitivities r, ru_redactions r]"

definition list_items :: "rule list \<Rightarrow> nat" where
  "list_items rs = sum_list (map (\<lambda>r. sum_list (map length (rule_lists r))) rs)"

definition lists_within :: "rule list \<Rightarrow> bool" where
  "lists_within rs \<longleftrightarrow> list_all (\<lambda>r. list_all (\<lambda>ss. length ss \<le> max_rule_field_items) (rule_lists r)) rs
     \<and> list_items rs \<le> max_rule_list_items"

lemma texts_keep_items:
  assumes "countR (\<lambda>v. count_policy_text (v' v)) vs c = return d"
  shows "cx_items d = cx_items c"
  using assms by (rule countR_keeps [where h = cx_items, rotated])
    (auto simp: count_policy_text_def split: option.splits pyval.splits if_splits)

lemma count_list_items:
  assumes "count_rule_list raw k c = return d" "texts_entry k raw = return ss"
    "tuple_free (PDict raw)" "cx_items c \<le> max_rule_list_items"
  shows "length ss \<le> max_rule_field_items \<and> cx_items d = cx_items c + length ss \<and> cx_items d \<le> max_rule_list_items"
proof (cases "raw_get k raw")
  case None
  then show ?thesis using assms by (simp add: count_rule_list_def texts_entry_def)
next
  case (Some v)
  have "tuple_free v" using assms(3) dict_get_in_set [OF Some] by (auto simp: list_all_iff)
  then obtain vs where v: "v = PList vs" "items_of v = Some vs"
    using assms(2) Some by (cases v) (auto simp: texts_entry_def items_of_def)
  then obtain w where w: "authority_snapshot v = return w"
    "(case items_of w of None \<Rightarrow> raise RuleFieldInvalid | Some vs \<Rightarrow>
        (case nonempty_texts vs of None \<Rightarrow> raise RuleFieldInvalid | Some ss \<Rightarrow> return ss)) = return ss"
    using assms(2) Some by (auto simp: texts_entry_def split: if_splits)
  obtain ws where "items_of w = Some ws" "length ws = length vs" using snapshot_items [OF w(1) v(2)] by blast
  then have n: "length ss = length vs" using w(2) nonempty_texts_ok by (auto split: option.splits)
  have c: "\<not> (max_rule_field_items < length vs \<or> max_rule_list_items < cx_items c + length vs)"
    "countR (\<lambda>v. count_policy_text (Some v)) vs (c\<lparr>cx_items := cx_items c + length vs\<rparr>) = return d"
    using assms(1) Some v(1) by (auto simp: count_rule_list_def split: if_splits)
  show ?thesis using c(1) n texts_keep_items [OF c(2)] by simp
qed

lemma count_rule_items:
  assumes "count_rule v c = return d" "rule_of v = return r" "tuple_free v" "cx_items c \<le> max_rule_list_items"
  shows "list_all (\<lambda>ss. length ss \<le> max_rule_field_items) (rule_lists r)
    \<and> cx_items d = cx_items c + sum_list (map length (rule_lists r)) \<and> cx_items d \<le> max_rule_list_items"
proof -
  obtain raw where v: "v = PDict raw" using assms(2) by (cases v) (auto simp: rule_of_def)
  have t: "texts_entry ''tools'' raw = return (ru_tools r)" "texts_entry ''targets'' raw = return (ru_targets r)"
      "texts_entry ''payload_contains'' raw = return (ru_payload_contains r)"
      "texts_entry ''sensitivities'' raw = return (ru_sensitivities r)"
      "texts_entry ''redactions'' raw = return (ru_redactions r)"
    using assms(2) unfolding v rule_of_def by (clarsimp split: if_splits option.splits)+
  obtain c0 c1 c2 c3 c4 where c: "countR (\<lambda>k. count_policy_text (raw_get k raw)) rule_text_fields c = return c0"
    "count_rule_list raw ''tools'' c0 = return c1" "count_rule_list raw ''targets'' c1 = return c2"
    "count_rule_list raw ''payload_contains'' c2 = return c3" "count_rule_list raw ''sensitivities'' c3 = return c4"
    "count_rule_list raw ''redactions'' c4 = return d"
    using assms(1) by (auto simp: v count_rule_def rule_list_fields_def)
  note free = assms(3) [unfolded v]
  have 0: "cx_items c0 = cx_items c" using texts_keep_items [OF c(1)] .
  note 1 = count_list_items [OF c(2) t(1) free]
  note 2 = count_list_items [OF c(3) t(2) free]
  note 3 = count_list_items [OF c(4) t(3) free]
  note 4 = count_list_items [OF c(5) t(4) free]
  note 5 = count_list_items [OF c(6) t(5) free]
  show ?thesis using 0 1 2 3 4 5 assms(4) by (simp add: rule_lists_def)
qed

text \<open>The counter of items and the rules built so far.\<close>

definition items_counted :: "complexity \<Rightarrow> policy_parts \<Rightarrow> bool" where
  "items_counted c p \<longleftrightarrow> cx_items c = list_items (pp_rules p) \<and> lists_within (pp_rules p)"

lemma count_rules_items:
  assumes "countR count_rule vs c = return d" "countR add_rule vs p = return q" "list_all tuple_free vs" "items_counted c p"
  shows "items_counted d q"
  using assms
proof (induction vs arbitrary: c p)
  case (Cons v vs)
  obtain c' p' where s: "count_rule v c = return c'" "countR count_rule vs c' = return d"
    "add_rule v p = return p'" "countR add_rule vs p' = return q" using Cons.prems by auto
  obtain r where r: "rule_of v = return r" "p' = p\<lparr>pp_rules := pp_rules p @ [r]\<rparr>"
    using s(3) by (auto simp: add_rule_def split: if_splits)
  have "items_counted c' p'"
    using count_rule_items [OF s(1) r(1)] Cons.prems(3,4)
    by (auto simp: items_counted_def lists_within_def list_items_def r(2))
  then show ?case using Cons.IH s Cons.prems(3) by simp
qed simp

lemma count_pack_items:
  assumes "count_pack v c = return d" "add_pack T v p = return q" "tuple_free v" "items_counted c p"
  shows "items_counted d q"
proof -
  obtain pack where v: "v = PDict pack" using assms(1) by (cases v) (auto simp: count_pack_def)
  obtain tools version rs where rs: "or_empty_list (raw_get ''rules'' pack) = PList rs"
    and q: "countR add_rule rs (p\<lparr>pp_versions := pp_versions p @ [version], pp_known_tools := pp_known_tools p @ tools\<rparr>) = return q"
    using assms(2) by (cases "or_empty_list (raw_get ''rules'' pack)") (auto simp: v add_pack_def Let_def split: if_splits)
  obtain c1 c2 where c1: "countR (\<lambda>k. count_policy_text (raw_get k pack)) pack_text_fields c = return c1"
    and c2: "count_known_tools pack c1 = return c2"
    and c3: "countR count_rule rs (c2\<lparr>cx_rules := cx_rules c2 + length rs\<rparr>) = return d"
    using assms(1) rs by (auto simp: v count_pack_def split: if_splits)
  have 1: "cx_items c1 = cx_items c" by (rule texts_keep_items [OF c1])
  have 2: "cx_items c2 = cx_items c1"
  proof (cases "or_empty_list (raw_get ''known_tools'' pack)")
    case (PList vs)
    then have "countR (\<lambda>v. count_policy_text (Some v)) vs (c1\<lparr>cx_known_tools := cx_known_tools c1 + length vs\<rparr>) = return c2"
      using c2 by (simp add: count_known_tools_def split: if_splits)
    from texts_keep_items [OF this] show ?thesis by simp
  qed (use c2 in \<open>simp_all add: count_known_tools_def\<close>)
  have "list_all tuple_free rs"
  proof (cases "raw_get ''rules'' pack")
    case (Some w)
    then have "tuple_free w" using assms(3) dict_get_in_set [OF Some] by (auto simp: v list_all_iff)
    then show ?thesis using Some rs by (auto simp: or_empty_list_def split: if_splits)
  qed (use rs in \<open>simp add: or_empty_list_def\<close>)
  from count_rules_items [OF c3 q this] show ?thesis
    using assms(4) 1 2 by (simp add: items_counted_def)
qed

lemma packs_items:
  assumes "countR count_pack ps c = return d" "countR (add_pack T) ps p = return q" "list_all tuple_free ps" "items_counted c p"
  shows "items_counted d q"
  using assms
proof (induction ps arbitrary: c p)
  case (Cons v ps)
  then obtain c' p' where "count_pack v c = return c'" "countR count_pack ps c' = return d"
    "add_pack T v p = return p'" "countR (add_pack T) ps p' = return q" by auto
  moreover have "tuple_free v" "list_all tuple_free ps" using Cons.prems(3) by simp_all
  ultimately show ?case using Cons.IH Cons.prems(4) count_pack_items by blast
qed simp

lemma new_engine_ok:
  assumes "new_engine R T name packs inputs = return E"
  shows "distinct (map ru_id (pe_rules E)) \<and> (\<forall>r \<in> set (pe_rules E). rule_ok r) \<and> [] \<notin> set (pe_known_tools E)
     \<and> length (pe_known_tools E) \<le> max_known_tools \<and> length (pe_rules E) \<le> max_rules
     \<and> (\<forall>vs. items_of packs = Some vs \<longrightarrow> list_all tuple_free vs \<longrightarrow> lists_within (pe_rules E))
     \<and> pe_ruleset_hash E = ruleset_hash_of R (pe_known_tools E) (pe_authority_inputs E) (pe_rules E)"
proof -
  let ?start = "\<lparr>pp_versions = [], pp_known_tools = [], pp_rules = []\<rparr>"
  obtain observed ps inp parts where o: "authority_snapshot packs = return observed" "items_of observed = Some ps"
    and c: "validate_policy_complexity ps = return ()"
    and a: "countR (add_pack T) ps ?start = return parts"
    and E: "E = \<lparr>pe_name = name, pe_version = join_plus (pp_versions parts), pe_rules = pp_rules parts,
            pe_known_tools = pp_known_tools parts, pe_authority_inputs = inp,
            pe_ruleset_hash = ruleset_hash_of R (pp_known_tools parts) inp (pp_rules parts)\<rparr>"
    using assms unfolding new_engine_def by (clarsimp split: if_splits option.splits)
  obtain d where d: "countR count_pack ps \<lparr>cx_known_tools = 0, cx_rules = 0, cx_items = 0, cx_text = 0\<rparr> = return d"
    using c by (auto simp: validate_policy_complexity_def split: if_splits)
  have "parts_ok parts \<and> length (pp_known_tools parts) \<le> max_known_tools \<and> length (pp_rules parts) \<le> max_rules"
    by (rule packs_counted [OF d a]) (simp_all add: parts_ok_def)
  moreover have "lists_within (pp_rules parts)" if "items_of packs = Some vs" "list_all tuple_free vs" for vs
  proof -
    have "list_all tuple_free ps" using snapshot_items [OF o(1) that(1)] that(2) o(2) by (metis option.inject)
    from packs_items [OF d a this] show ?thesis
      by (simp add: items_counted_def lists_within_def list_items_def)
  qed
  ultimately show ?thesis by (simp add: E parts_ok_def)
qed

end
