(* ===== verification/PolicyProperties.thy ===== *)
theory PolicyProperties
  imports PolicyBinding "HOL-Library.Code_Target_Numeral"
begin

text \<open>
  The properties of the policy engine: the strictest firing rule decides and nothing is permitted
  without one, the order of the rules is irrelevant, the hash of the ruleset fixes the decisions, and
  every constructed engine is well formed.
\<close>

subsection \<open>Examples\<close>

text \<open>
  Rules of the default pack (\<open>policy/rules/default.yaml\<close>). Its folded scalars end in a newline, which
  the rules keep.
\<close>

definition plain_rule :: "string \<Rightarrow> decision \<Rightarrow> rule" where
  "plain_rule k d = \<lparr>ru_id = lit k, ru_description = [], ru_tools = [], ru_side_effect_at_least = None,
     ru_targets = [], ru_payload_contains = [], ru_max_payload_trust = None, ru_sensitivities = [],
     ru_effect = d, ru_reason = [], ru_approval_scope = [], ru_redactions = []\<rparr>"

definition approve_outbound_send :: rule where
  "approve_outbound_send = (plain_rule ''approve_outbound_send'' ApprovalRequired)
     \<lparr>ru_description := lit ''Anything leaving the building needs a human.'',
      ru_side_effect_at_least := Some ExternalSend,
      ru_reason := lit ''Action sends or publishes outside the workspace.'',
      ru_approval_scope := lit ''Approve this exact payload for this exact recipient or target.'',
      ru_redactions := [lit ''client_email'', lit ''account_number'']\<rparr>"

definition block_untrusted_side_effect :: rule where
  "block_untrusted_side_effect = (plain_rule ''block_untrusted_side_effect'' Block)
     \<lparr>ru_description := lit ''Untrusted content (web pages, inbound email, third-party tool output) cannot drive an action that leaves the workspace.'' @ [10],
      ru_side_effect_at_least := Some ExternalSend, ru_max_payload_trust := Some Derived,
      ru_reason := lit ''Payload derives from untrusted external content. Knowledge can inform execution; knowledge cannot authorize execution.'' @ [10]\<rparr>"

definition ascii_text :: text_library where
  "ascii_text = \<lparr>tx_lower = map (\<lambda>c. if 65 \<le> c \<and> c \<le> 90 then c + 32 else c), tx_normcase = \<lambda>s. s,
     tx_str = \<lambda>_. []\<rparr>"

definition engine_hashed :: "pystr \<Rightarrow> rule list \<Rightarrow> policy_engine" where
  "engine_hashed h rs = \<lparr>pe_name = lit ''default'', pe_version = lit ''0.1.0'', pe_rules = rs,
     pe_known_tools = [lit ''ma*''], pe_authority_inputs = PDict [], pe_ruleset_hash = h\<rparr>"

definition engine_of :: "rule list \<Rightarrow> policy_engine" where
  "engine_of rs = engine_hashed (ruleset_hash_of example_runtime [lit ''ma*''] (PDict []) rs) rs"

definition example_context :: "pyval option" where
  "example_context = Some (PDict [(PStr (lit ''sensitivity''), PStr (lit ''internal''))])"

definition ruling :: "policy_engine \<Rightarrow> action \<Rightarrow> guardrail_decision option" where
  "ruling E a = (case evaluate example_runtime ascii_text E (lit ''t0'') a example_context of
     Inl _ \<Rightarrow> None | Inr d \<Rightarrow> Some d)"

definition tainted_action :: action where
  "tainted_action = example_action\<lparr>pa_payload_sources :=
     [\<lparr>cr_ref_id = lit ''r1'', cr_origin = lit ''web'', cr_trust = Untrusted, cr_content_hash = lit ''h'', cr_label = []\<rparr>]\<rparr>"

lemma hashed_rulings:
  "map_option gd_decision (ruling (engine_hashed h [approve_outbound_send, block_untrusted_side_effect]) tainted_action) = Some Block"
  "map_option gd_decision (ruling (engine_hashed h [block_untrusted_side_effect, approve_outbound_send]) tainted_action) = Some Block"
  by code_simp+

lemma example_rulings:
  "map_option gd_decision (ruling (engine_of [approve_outbound_send, block_untrusted_side_effect]) tainted_action) = Some Block"
  "map_option gd_decision (ruling (engine_of [block_untrusted_side_effect, approve_outbound_send]) tainted_action) = Some Block"
  unfolding engine_of_def by (rule hashed_rulings)+

lemma ruling_evaluate:
  "map_option f (ruling E a) = Some x \<Longrightarrow>
   \<exists>d. evaluate example_runtime ascii_text E (lit ''t0'') a example_context = return d \<and> f d = x"
  by (auto simp: ruling_def split: sum.splits)

subsection \<open>Properties\<close>







text \<open>What two rulings must share to be one: the decision, the rules it is attributed to, the redactions.\<close>

definition same_ruling :: "guardrail_decision \<Rightarrow> guardrail_decision \<Rightarrow> bool" where
  "same_ruling d e \<longleftrightarrow> gd_decision d = gd_decision e \<and> set (gd_policy_ids d) = set (gd_policy_ids e)
     \<and> gd_redactions d = gd_redactions e"

lemma same_matched:
  assumes "set (pe_rules E) = set (pe_rules F)"
  shows "set (firing T E a ctx) = set (firing T F a ctx)"
  using assms by (simp add: firing_def)

lemma same_known: "set (pe_known_tools E) = set (pe_known_tools F) \<Longrightarrow> is_known T E a = is_known T F a"
  by (auto simp: is_known_def any_glob_def)

text \<open>Evaluations that exceed no ceiling agree when the sets of rules and of known tools do.\<close>

lemma same_sets_same_ruling:
  assumes "evaluate R T E stamp a context = return d" "evaluate R T F stamp' a context = return e"
    and "set (pe_rules E) = set (pe_rules F)" "set (pe_known_tools E) = set (pe_known_tools F)"
    and "gd_policy_ids d \<noteq> [lit ''policy_match_limit'']" "gd_policy_ids e \<noteq> [lit ''policy_match_limit'']"
  shows "same_ruling d e"
  using assms(1)
proof (cases rule: evaluate_cases)
  case (bad_context x)
  from assms(2) show ?thesis by (cases rule: evaluate_cases) (use bad_context in \<open>auto simp: same_ruling_def\<close>)
next
  case (limit ctx x)
  then show ?thesis using assms(5) by simp
next
  case (unknown ctx)
  from assms(2) show ?thesis
    by (cases rule: evaluate_cases) (use unknown assms(6) same_known [OF assms(4)] in \<open>auto simp: same_ruling_def\<close>)
next
  case (matched ctx)
  from assms(2) show ?thesis
  proof (cases rule: evaluate_cases)
    case m: (matched ctx')
    then have "ctx' = ctx" using matched(1) by simp
    then show ?thesis
      using matched m verdict_same [OF same_matched [OF assms(3)], of a T a ctx] by (simp add: same_ruling_def)
  qed (use matched assms(6) same_known [OF assms(4)] in auto)
qed

text \<open>
  C17: The order of the rules is irrelevant: two engines with the same rules in any order, and the same
  known tools, reach the same decision on every action, attributed to the same rules, with the same
  redactions; no order slips an allow past a block.
\<close>

theorem rule_order_irrelevant:
  assumes "evaluate R T E stamp a context = return d" and "evaluate R T F stamp' a context = return e"
    and "mset (pe_rules E) = mset (pe_rules F)" and "pe_known_tools E = pe_known_tools F"
  shows "same_ruling d e"
proof (cases "\<exists>ctx x. context_snapshot context = return ctx \<and> fst (match_action T E a ctx new_match_state) = raise x")
  case True
  then obtain ctx x where c: "context_snapshot context = return ctx"
    "fst (match_action T E a ctx new_match_state) = raise x" by blast
  obtain y where y: "fst (match_action T F a ctx new_match_state) = raise y"
    using match_action_outcome [OF assms(3,4), of T a ctx] c(2) by auto
  have "gd_decision d = Block \<and> gd_policy_ids d = [lit ''policy_match_limit''] \<and> gd_redactions d = []"
    using assms(1) c by (cases rule: evaluate_cases) auto
  moreover have "gd_decision e = Block \<and> gd_policy_ids e = [lit ''policy_match_limit''] \<and> gd_redactions e = []"
    using assms(2) c(1) y by (cases rule: evaluate_cases) auto
  ultimately show ?thesis by (simp add: same_ruling_def)
next
  case False
  note ok = this
  have outcome_E: "context_snapshot context = return ctx \<Longrightarrow>
      fst (match_action T F a ctx new_match_state) = return (if is_known T F a then Some (firing T F a ctx) else None)" for ctx
    using match_action_outcome [OF assms(3,4), of T a ctx] ok by auto
  have same: "set (pe_rules E) = set (pe_rules F)" using assms(3) by (rule mset_eq_setD)
  from assms(1) show ?thesis
  proof (cases rule: evaluate_cases)
    case (bad_context x)
    from assms(2) show ?thesis by (cases rule: evaluate_cases) (use bad_context in \<open>auto simp: same_ruling_def\<close>)
  next
    case (limit ctx x)
    then show ?thesis using ok by blast
  next
    case (unknown ctx)
    from assms(2) show ?thesis
      by (cases rule: evaluate_cases) (use unknown outcome_E same_known [of E F T a] assms(4) in \<open>auto simp: same_ruling_def\<close>)
  next
    case (matched ctx)
    from assms(2) show ?thesis
    proof (cases rule: evaluate_cases)
      case m: (matched ctx')
      then have "ctx' = ctx" using matched(1) by simp
      then show ?thesis
        using matched m verdict_same [OF same_matched [OF same], of a T a ctx] by (simp add: same_ruling_def)
    qed (use matched outcome_E same_known [of E F T a] assms(4) in auto)
  qed
qed

lemma rule_order_irrelevant_witness:
  "\<exists>d e. evaluate example_runtime ascii_text (engine_of [approve_outbound_send, block_untrusted_side_effect]) (lit ''t0'')
        tainted_action example_context = return d
     \<and> evaluate example_runtime ascii_text (engine_of [block_untrusted_side_effect, approve_outbound_send]) (lit ''t0'')
        tainted_action example_context = return e
     \<and> same_ruling d e \<and> gd_decision e = Block"
proof -
  obtain d e where d: "evaluate example_runtime ascii_text (engine_of [approve_outbound_send, block_untrusted_side_effect])
      (lit ''t0'') tainted_action example_context = return d"
    and e: "evaluate example_runtime ascii_text (engine_of [block_untrusted_side_effect, approve_outbound_send]) (lit ''t0'')
        tainted_action example_context = return e" "gd_decision e = Block"
    using ruling_evaluate [OF example_rulings(1)] ruling_evaluate [OF example_rulings(2)] by blast
  have "same_ruling d e" by (rule rule_order_irrelevant [OF d e(1)]) (simp_all add: engine_of_def engine_hashed_def)
  then show ?thesis using d e by blast
qed

text \<open>
  C7: The hash of the ruleset fixes the decisions: two engines that carry the hash their constructor
  takes, of rulesets that are JSON data (texts without surrogates, objects with distinct text keys),
  and that have one hash, have the same rules, known tools and authority inputs, and so rule alike on
  every action unless one of them blocks at a work ceiling; or the canonical texts of the two rulesets
  are a collision of SHA-256.
\<close>

theorem ruleset_hash_fixes_decisions:
  assumes "plain_engine R E" and "plain_engine R F" and "pe_ruleset_hash E = pe_ruleset_hash F"
  shows "(mset (pe_rules E) = mset (pe_rules F) \<and> mset (pe_known_tools E) = mset (pe_known_tools F)
      \<and> json_reload (pe_authority_inputs E) = json_reload (pe_authority_inputs F)
      \<and> (\<forall>T a context stamp stamp' d e. evaluate R T E stamp a context = return d \<longrightarrow>
          evaluate R T F stamp' a context = return e \<longrightarrow>
          same_ruling d e \<or> [lit ''policy_match_limit''] \<in> {gd_policy_ids d, gd_policy_ids e}))
    \<or> collision R (ruleset_text E) (ruleset_text F)"
  using ruleset_hash_binds [OF assms]
proof
  assume s: "mset (pe_rules E) = mset (pe_rules F) \<and> mset (pe_known_tools E) = mset (pe_known_tools F)
      \<and> json_reload (pe_authority_inputs E) = json_reload (pe_authority_inputs F)"
  then have "set (pe_rules E) = set (pe_rules F)" "set (pe_known_tools E) = set (pe_known_tools F)"
    by (auto dest: mset_eq_setD)
  then have "same_ruling d e \<or> [lit ''policy_match_limit''] \<in> {gd_policy_ids d, gd_policy_ids e}"
    if "evaluate R T E stamp a context = return d" "evaluate R T F stamp' a context = return e"
    for T a "context" stamp stamp' d e
    using same_sets_same_ruling [OF that] by (metis insertCI)
  then show ?thesis using s by blast
qed blast

lemma ruleset_hash_fixes_decisions_witness:
  "\<exists>d e. evaluate example_runtime ascii_text (engine_of [approve_outbound_send, block_untrusted_side_effect]) (lit ''t0'')
        tainted_action example_context = return d
     \<and> evaluate example_runtime ascii_text (engine_of [block_untrusted_side_effect, approve_outbound_send]) (lit ''t0'')
        tainted_action example_context = return e
     \<and> (same_ruling d e \<or> [lit ''policy_match_limit''] \<in> {gd_policy_ids d, gd_policy_ids e})"
proof -
  let ?E = "engine_of [approve_outbound_send, block_untrusted_side_effect]"
  let ?F = "engine_of [block_untrusted_side_effect, approve_outbound_send]"
  have "json_data (ruleset_surface [lit ''ma*''] (PDict []) [approve_outbound_send, block_untrusted_side_effect])"
    "json_data (ruleset_surface [lit ''ma*''] (PDict []) [block_untrusted_side_effect, approve_outbound_send])"
    by code_simp+
  then have p: "plain_engine example_runtime ?E" "plain_engine example_runtime ?F"
    by (simp_all add: plain_engine_def engine_of_def engine_hashed_def)
  have "sort_key ru_id [approve_outbound_send, block_untrusted_side_effect]
      = sort_key ru_id [block_untrusted_side_effect, approve_outbound_send]"
    by (simp add: approve_outbound_send_def block_untrusted_side_effect_def plain_rule_def lit_def)
  then have h: "pe_ruleset_hash ?E = pe_ruleset_hash ?F"
    by (simp only: engine_of_def engine_hashed_def policy_engine.simps ruleset_hash_of_def ruleset_surface_def)
  have "\<not> collision example_runtime x y" for x y by (simp add: collision_def example_runtime_def)
  moreover obtain d e where "evaluate example_runtime ascii_text ?E (lit ''t0'') tainted_action example_context = return d"
    "evaluate example_runtime ascii_text ?F (lit ''t0'') tainted_action example_context = return e"
    using ruling_evaluate [OF example_rulings(1)] ruling_evaluate [OF example_rulings(2)] by blast
  ultimately show ?thesis using ruleset_hash_fixes_decisions [OF p h] by blast
qed

text \<open>
  C38: A constructed engine is well formed: its rules have distinct, non-blank identifiers and no empty
  pattern, term or redaction, no known tool is the empty pattern, rules and known tools are within
  their ceilings, and the ruleset hash is the hash of exactly these rules, tools and inputs. Where the
  packs hold no Python tuples, as parsed packs do, every list of a rule and all of them together are
  within their ceilings too.
\<close>

theorem constructed_engine_well_formed:
  assumes "new_engine R T name packs inputs = return E"
  shows "distinct (map ru_id (pe_rules E)) \<and> (\<forall>r \<in> set (pe_rules E). rule_ok r) \<and> [] \<notin> set (pe_known_tools E)
     \<and> length (pe_known_tools E) \<le> max_known_tools \<and> length (pe_rules E) \<le> max_rules
     \<and> (\<forall>vs. items_of packs = Some vs \<longrightarrow> list_all tuple_free vs \<longrightarrow> lists_within (pe_rules E))
     \<and> pe_ruleset_hash E = ruleset_hash_of R (pe_known_tools E) (pe_authority_inputs E) (pe_rules E)"
  using assms by (rule new_engine_ok)

definition example_packs :: pyval where
  "example_packs = PList [PDict
     [(PStr (lit ''version''), PStr (lit ''0.1.0'')), (PStr (lit ''name''), PStr (lit ''default'')),
      (PStr (lit ''known_tools''), PList [PStr (lit ''ma*'')]),
      (PStr (lit ''rules''), PList [PDict
        [(PStr (lit ''id''), PStr (lit ''block_destructive'')), (PStr (lit ''effect''), PStr (lit ''block'')),
         (PStr (lit ''side_effect_at_least''), PStr (lit ''destructive'')),
         (PStr (lit ''tools''), PList [PStr (lit ''ma*''), PStr (lit ''rm*'')])]])]]"

lemma constructed_engine_well_formed_witness:
  "\<exists>E. new_engine example_runtime ascii_text (lit ''default'') example_packs None = return E
     \<and> map ru_id (pe_rules E) = [lit ''block_destructive''] \<and> lists_within (pe_rules E)"
proof -
  have "(case new_engine example_runtime ascii_text (lit ''default'') example_packs None of
      Inl _ \<Rightarrow> [] | Inr E \<Rightarrow> map ru_id (pe_rules E)) = [lit ''block_destructive'']" by code_simp
  then obtain E where E: "new_engine example_runtime ascii_text (lit ''default'') example_packs None = return E"
    "map ru_id (pe_rules E) = [lit ''block_destructive'']" by (auto split: sum.splits)
  have "\<exists>vs. items_of example_packs = Some vs \<and> list_all tuple_free vs" by (simp add: example_packs_def items_of_def)
  then obtain vs where v: "items_of example_packs = Some vs" "list_all tuple_free vs" by blast
  from constructed_engine_well_formed [OF E(1)]
  have "\<forall>vs. items_of example_packs = Some vs \<longrightarrow> list_all tuple_free vs \<longrightarrow> lists_within (pe_rules E)"
    by (elim conjE)
  from this [rule_format, OF v] have "lists_within (pe_rules E)" .
  then show ?thesis by (intro exI [of _ E] conjI E)
qed

end
