(* ===== verification/HarnessProperties.thy ===== *)
theory HarnessProperties
  imports HarnessMachine ApprovalProperties PolicyProperties "HOL-Library.Code_Target_Numeral"
begin

text \<open>
  The properties of the control loop under any use of a state directory.
\<close>

subsection \<open>Steps of the stores\<close>

interpretation reached_stores: store_promises R "(call_step R)\<^sup>*\<^sup>* d" "(evidence_step R)\<^sup>*\<^sup>* e" "ledger_step\<^sup>*\<^sup>* b" "\<lambda>_. True" for R d e b
proof unfold_locales
  show "(call_step R)\<^sup>*\<^sup>* d t \<Longrightarrow> call_ok R c \<Longrightarrow> (call_step R)\<^sup>*\<^sup>* d (after_call R cfg c t)" for t c cfg
    by (rule rtranclp.rtrancl_into_rtrancl) (auto simp: call_step_def)
qed (auto intro: ledger_more)

lemma use_refines:
  assumes "hc_runtime (us_harness u) = R"
  shows "(call_step R)\<^sup>*\<^sup>* (hn_approvals s) (hn_approvals (after_use u s))
     \<and> (evidence_step R)\<^sup>*\<^sup>* (hn_evidence s) (hn_evidence (after_use u s))
     \<and> ledger_step\<^sup>*\<^sup>* (hn_budget s) (hn_budget (after_use u s))"
proof -
  let ?I = "store_promises.stores ((call_step R)\<^sup>*\<^sup>* (hn_approvals s)) ((evidence_step R)\<^sup>*\<^sup>* (hn_evidence s))
      (ledger_step\<^sup>*\<^sup>* (hn_budget s)) (\<lambda>_. True)"
  let ?s = "s\<lparr>hn_writes_left := us_writes u, hn_bases := (if us_restarted u then [] else hn_bases s)\<rparr>"
  have s: "?I ?s" by (simp add: reached_stores.stores_def)
  have "?I (after_harness_call (us_harness u) (us_readings u) (us_call u) ?s)"
    by (cases "us_call u"; simp only: after_harness_call.simps)
      (rule keepsD [of ?I _ ?s, OF _ s], (rule reached_stores.running_keeps reached_stores.quiet_keeps
        reached_stores.operation_keeps reached_stores.expiry_keeps); simp add: assms)+
  then show ?thesis by (simp add: after_use_def reached_stores.stores_def)
qed

subsection \<open>Examples\<close>

definition place_token :: "nat list \<Rightarrow> pystr" where
  "place_token place = concat (map (\<lambda>n. nat_digits n @ [45]) place)"

definition example_readings :: "nat \<Rightarrow> readings" where
  "example_readings n = (\<lambda>place. \<lparr>mo_clock = one_minute_clock, mo_token = place_token (n # place)\<rparr>)"

definition mail_registry :: registry where
  "mail_registry =
     \<lparr>rg_tools = [(lit ''mail'',
        \<lparr>ts_name = lit ''mail'', ts_side_effect_level = ExternalSend, ts_description = [],
         ts_cost_estimate_usd = zero, ts_supports_dry_run = True, ts_target_scope = AnyTarget\<rparr>,
        \<lambda>_. Returned \<lparr>tr_status = lit ''succeeded'', tr_summary = lit ''sent'', tr_output = PNone,
          tr_cost_usd = zero, tr_dry_run = False, tr_sealed = None\<rparr>)],
      rg_dry_run = False, rg_workspace = \<lparr>ws_root = [], ws_resolve = \<lambda>p. p, ws_problem = None\<rparr>,
      rg_protected_roots = [], rg_grant_key = lit ''key''\<rparr>"

text \<open>The default pack's rule against destructive actions.\<close>

definition block_destructive :: rule where
  "block_destructive = (plain_rule ''block_destructive'' Block)
     \<lparr>ru_description := lit ''Deletion, deployment, and record mutation are off by default.'',
      ru_side_effect_at_least := Some Destructive,
      ru_reason := lit ''Destructive actions are disabled unless explicitly enabled by policy.''\<rparr>"

definition example_harness :: harness where
  "example_harness =
     \<lparr>hc_runtime = numeral_clock, hc_approvals = unsigned_config 60, hc_registry = mail_registry,
      hc_policy = engine_hashed (lit ''r'') [plain_rule ''allow_mail'' Allow, block_untrusted_side_effect, block_destructive], hc_text = ascii_text, hc_runner_name = lit ''mock'', hc_model_id = [], hc_dry_run = False,
      hc_execution_disabled = False, hc_evidence_basis = lit ''harness_control_loop'', hc_profile = None,
      hc_audit = \<lambda>_. True\<rparr>"

definition example_request :: harness_request where
  "example_request =
     \<lparr>hr_task = lit ''t'', hr_user_id = lit ''u'', hr_workspace_id = lit ''w'', hr_request_id = lit ''req_1'',
      hr_task_type = lit ''mail'', hr_sensitivity = Internal, hr_allowed_tools = [],
      hr_budget_limit_usd = None, hr_inputs = [], hr_created_at = lit ''5''\<rparr>"

definition dollars :: "int \<Rightarrow> budget_state" where
  "dollars n = (case new_budget (MInt n) of Inr b \<Rightarrow> b
     | Inl _ \<Rightarrow> \<lparr>bs_schema_version = [], bs_balance_usd = zero, bs_total_spent_usd = zero,
         bs_total_estimated_usd = zero, bs_legacy_reserved_usd = zero, bs_reservations = [],
         bs_reconciliations = [], bs_entries = []\<rparr>)"

text \<open>A proposal of the queued action, killed after the given number of writes.\<close>

definition proposal :: "nat \<Rightarrow> nat \<Rightarrow> use" where
  "proposal n writes =
     \<lparr>us_harness = example_harness, us_readings = example_readings n, us_restarted = True,
      us_writes = writes, us_call = Handle queued_action example_request [] [] False\<rparr>"

lemma proposal_runtime [simp]: "hc_runtime (us_harness (proposal n w)) = numeral_clock"
  by (simp add: proposal_def example_harness_def)

text \<open>With three writes the process dies after the handler ran and before its result is on record.\<close>

lemma killed_proposals:
  "map pa_action_id (handler_calls (after_uses [proposal 0 3, proposal 1 100] (new_state (dollars 25)))) = [lit ''act_1'']"
  by code_simp

lemma proposal_runs: "handler_calls (after_use (proposal 0 100) (new_state (dollars 25))) \<noteq> []"
  by code_simp

subsection \<open>Cleared calls\<close>

text \<open>One call of an entry point, in a state where nothing has run twice.\<close>

lemma use_cleared:
  assumes "onview (once R) s" and R: "hc_runtime (us_harness v) = R"
  shows "handler_calls (after_use v s) = handler_calls s
     \<or> (\<exists>a q ko. handler_calls (after_use v s) = handler_calls s @ [a] \<and> asked (us_harness v) (us_call v) a q ko
          \<and> cleared (us_harness v) ko (hn_budget s) a q (after_use v s))"
proof -
  let ?H = "us_harness v"
  let ?P = "asked ?H (us_call v)"
  let ?u = "s\<lparr>hn_writes_left := us_writes v, hn_bases := (if us_restarted v then [] else hn_bases s)\<rparr>"
  let ?ran = "ran ?H ?P (hn_budget s) (handler_calls s)"
  have w: "waiting (hc_runtime ?H) (hn_budget s) (handler_calls s) ?u"
    using assms by (simp add: waiting_parts onview_def view_def once_def handler_calls_def)
  have end_: "Q (snd (m ?u))"
    if "triple (waiting (hc_runtime ?H) (hn_budget s) (handler_calls s)) m (\<lambda>_. Q) Q"
    for m :: "action_outcome harness_effect" and Q
    using tripleD [OF that w] by (cases "m ?u"; cases "fst (m ?u)") auto
  have quiet: "?ran (snd (m ?u))" if "keeps (waiting (hc_runtime ?H) (hn_budget s) (handler_calls s)) m"
    for m :: "'x harness_effect" by (rule granted_ran(2) [OF keepsD [OF that w]])
  have "?ran (after_harness_call ?H (us_readings v) (us_call v) ?u)"
  proof (cases "us_call v")
    case (Handle a q ow key ext)
    show ?thesis unfolding Handle after_harness_call.simps asked.simps by (rule end_ [OF handle_cleared])
  next
    case (Resume k b x y w)
    show ?thesis unfolding Resume after_harness_call.simps asked.simps by (rule end_ [OF resume_cleared])
  next
    case ReconcileExpired
    show ?thesis unfolding ReconcileExpired after_harness_call.simps asked.simps
      by (rule granted_ran(2) [OF keepsD [OF waiting_stores.expiry_keeps(3) [OF refl] w]])
  next
    case RecoverOperation
    show ?thesis unfolding RecoverOperation after_harness_call.simps asked.simps
      by (rule granted_ran(2) [OF keepsD [OF waiting_stores.operation_keeps(2) [OF refl] w]])
  next
    case (ResumeExternal k)
    show ?thesis unfolding ResumeExternal after_harness_call.simps asked.simps
      by (rule granted_ran(2) [OF keepsD [OF waiting_stores.quiet_keeps(4) [OF refl] w]])
  next
    case (CompleteExternal a q d x k)
    show ?thesis unfolding CompleteExternal after_harness_call.simps asked.simps
      by (rule granted_ran(2) [OF keepsD [OF waiting_stores.quiet_keeps(5) [OF refl] w]])
  next
    case (ReconcileExecution k oc x y z)
    show ?thesis unfolding ReconcileExecution after_harness_call.simps asked.simps
      by (rule granted_ran(2) [OF keepsD [OF waiting_stores.quiet_keeps(6) [OF refl] w]])
  next
    case (ReconcileAuthorization k oc x y z)
    show ?thesis unfolding ReconcileAuthorization after_harness_call.simps asked.simps
      by (rule granted_ran(2) [OF keepsD [OF waiting_stores.quiet_keeps(7) [OF refl] w]])
  qed
  then show ?thesis unfolding ran_def after_use_def handler_calls_def by simp
qed

text \<open>What every handler call of a run was cleared by.\<close>

lemma calls_permitted:
  assumes "\<forall>u \<in> set us. hc_runtime (us_harness u) = R" "onview (once R) s"
    and "a \<in> set (handler_calls (after_uses us s))" "a \<notin> set (handler_calls s)"
  shows "\<exists>u \<in> set us. \<exists>q approved. permitted (us_harness u) a q approved"
  using assms
proof (induction us arbitrary: s)
  case (Cons u us)
  have o: "onview (once R) (after_use u s)"
    using uses_once [OF Cons.prems(2), of "[u]"] Cons.prems(1) by simp
  show ?case
  proof (cases "a \<in> set (handler_calls (after_use u s))")
    case True
    then obtain q ko where "cleared (us_harness u) ko (hn_budget s) a q (after_use u s)"
      using use_cleared [OF Cons.prems(2), of u] Cons.prems(1,4) by auto
    then show ?thesis by (auto simp: cleared_def)
  next
    case False
    then show ?thesis using Cons.IH [OF _ o] Cons.prems by auto
  qed
qed simp

lemma block_untrusted_side_effect_effect: "ru_effect block_untrusted_side_effect = Block"
  by (simp add: block_untrusted_side_effect_def plain_rule_def)

text \<open>A blocking rule that fires on an action whatever the context leaves no way to run it.\<close>

lemma standing_rule_blocks:
  assumes "r \<in> set (pe_rules (hc_policy H))" "ru_effect r = Block" "\<forall>T ctx. fires T a ctx r"
  shows "\<not> permitted H a q approved"
proof
  assume "permitted H a q approved"
  then obtain stamp d where e: "evaluate (hc_runtime H) (hc_text H) (hc_policy H) stamp a (Some (context_of q)) = return d"
    and d: "gd_decision d \<noteq> Block" unfolding permitted_def by fastforce
  from e show False
  proof (cases rule: evaluate_cases)
    case (matched ctx)
    have "r \<in> set (firing (hc_text H) (hc_policy H) a ctx)" using assms(1,3) by (simp add: firing_def)
    then have "severity Block \<le> severity (gd_decision d)"
      using verdict_strictest matched(4) assms(2) by metis
    then show False using d by (cases "gd_decision d") (simp_all add: severity_def)
  qed (use d in auto)
qed

lemma floor_blocks:
  assumes "block_untrusted_side_effect \<in> set (pe_rules (hc_policy H))" "permitted H a q approved"
  shows "\<not> (ExternalSend \<le> pa_side_effect_level a \<and> payload_trust a = Untrusted)"
proof
  assume "ExternalSend \<le> pa_side_effect_level a \<and> payload_trust a = Untrusted"
  then have "\<forall>T ctx. fires T a ctx block_untrusted_side_effect"
    by (auto simp: fires_def block_untrusted_side_effect_def plain_rule_def trust_satisfies_def trust_rank_def)
  from standing_rule_blocks [OF assms(1) block_untrusted_side_effect_effect this] assms(2) show False by blast
qed

subsection \<open>Properties\<close>

text \<open>
  C1: A tool handler runs at most once for an action: in any state directory that started empty,
  after any sequence of calls of the entry points, by any processes with any clocks and identifiers,
  each killed before any of its file writes, no two handler calls were made for one action id.
\<close>

theorem tool_runs_at_most_once:
  assumes "\<forall>u \<in> set us. hc_runtime (us_harness u) = R"
  shows "distinct (map pa_action_id (handler_calls (after_uses us (new_state b))))"
  using uses_once [OF new_state_once assms] by (simp add: onview_def view_def once_def handler_calls_def)

lemma tool_runs_at_most_once_witness:
  "distinct (map pa_action_id (handler_calls (after_uses [proposal 0 3, proposal 1 100] (new_state (dollars 25)))))
   \<and> map pa_action_id (handler_calls (after_uses [proposal 0 3, proposal 1 100] (new_state (dollars 25)))) = [lit ''act_1'']"
  by (rule conjI [OF tool_runs_at_most_once killed_proposals]) simp

text \<open>
  C3: A handler runs only when everything allows it: one call of an entry point runs at most one
  handler, and only a proposal (unless the tool is external) or the approving resumption of an approval
  runs one. It runs for the sealed action and the validated request of that proposal, or of that
  approval. The action passes the registry's contract, the harness neither is in dry run nor disabled,
  the tool is in the scope of that request, the current rules allow the action for it, or ask for an
  approval while the approval that is resumed has been started and is bound to exactly this action; and
  a sealed authorization with the hash of this action is in the evidence. A proposed action with a
  positive worst case was found within what is left and within the request's limit, and was reserved,
  before its handler ran.
\<close>

theorem handler_runs_only_when_cleared:
  assumes "\<forall>u \<in> set (v # us). hc_runtime (us_harness u) = R"
  shows "let s = after_uses us (new_state b); t = after_use v s in
     handler_calls t = handler_calls s
     \<or> (\<exists>a q ko. handler_calls t = handler_calls s @ [a] \<and> asked (us_harness v) (us_call v) a q ko
          \<and> cleared (us_harness v) ko (hn_budget s) a q t)"
proof -
  have "\<forall>u \<in> set us. hc_runtime (us_harness u) = R" and "hc_runtime (us_harness v) = R" using assms by auto
  then show ?thesis unfolding Let_def by (rule use_cleared [OF uses_once [OF new_state_once]])
qed

lemma handler_runs_only_when_cleared_witness:
  "\<exists>a q. cleared example_harness None (dollars 25) a q (after_use (proposal 0 100) (new_state (dollars 25)))"
proof -
  have "let s = after_uses [] (new_state (dollars 25)); t = after_use (proposal 0 100) s in
     handler_calls t = handler_calls s
     \<or> (\<exists>a q ko. handler_calls t = handler_calls s @ [a] \<and> asked (us_harness (proposal 0 100)) (us_call (proposal 0 100)) a q ko
          \<and> cleared (us_harness (proposal 0 100)) ko (hn_budget s) a q t)"
    by (rule handler_runs_only_when_cleared [where R = numeral_clock]) simp
  moreover have "handler_calls (new_state (dollars 25)) = []" by (simp add: handler_calls_def new_state_def)
  moreover have "us_harness (proposal 0 100) = example_harness" "hn_budget (new_state (dollars 25)) = dollars 25"
    by (simp_all add: proposal_def new_state_def)
  ultimately obtain a q ko where "asked (us_harness (proposal 0 100)) (us_call (proposal 0 100)) a q ko"
    "cleared example_harness ko (dollars 25) a q (after_use (proposal 0 100) (new_state (dollars 25)))"
    using proposal_runs by (auto simp: Let_def)
  moreover from this(1) have "ko = None" by (simp add: proposal_def asked_directly_def)
  ultimately show ?thesis by blast
qed

text \<open>
  C5: The control loop refines its stores: whatever it does, also when it is killed, the approval
  queue changes only by calls of the queue, the evidence (its lines and its checkpoint) only by appends
  of the evidence store, of which one that is killed leaves the checkpoint where it was, and the budget
  only by commands of the ledger; so every property that these operations keep holds along its runs.
\<close>

theorem control_loop_refines_stores:
  assumes "\<forall>u \<in> set us. hc_runtime (us_harness u) = R"
  shows "(call_step R)\<^sup>*\<^sup>* (hn_approvals s) (hn_approvals (after_uses us s))
     \<and> (evidence_step R)\<^sup>*\<^sup>* (hn_evidence s) (hn_evidence (after_uses us s))
     \<and> ledger_step\<^sup>*\<^sup>* (hn_budget s) (hn_budget (after_uses us s))"
  using assms
proof (induction us arbitrary: s)
  case (Cons u us)
  then have 1: "(call_step R)\<^sup>*\<^sup>* (hn_approvals s) (hn_approvals (after_use u s))"
    "(evidence_step R)\<^sup>*\<^sup>* (hn_evidence s) (hn_evidence (after_use u s))"
    "ledger_step\<^sup>*\<^sup>* (hn_budget s) (hn_budget (after_use u s))"
    using use_refines [of u R s] by auto
  have "\<forall>u \<in> set us. hc_runtime (us_harness u) = R" using Cons.prems by simp
  from Cons.IH [OF this, of "after_use u s"] show ?case
    using 1 by (auto intro: rtranclp_trans)
qed simp

lemma control_loop_refines_stores_witness:
  "(evidence_step numeral_clock)\<^sup>*\<^sup>* \<lparr>es_lines = [], es_head = None, es_allow_rebind = False\<rparr>
      (hn_evidence (after_uses [proposal 0 3, proposal 1 100] (new_state (dollars 25))))
   \<and> ledger_step\<^sup>*\<^sup>* (dollars 25) (hn_budget (after_uses [proposal 0 3, proposal 1 100] (new_state (dollars 25))))"
  using control_loop_refines_stores [of "[proposal 0 3, proposal 1 100]" numeral_clock "new_state (dollars 25)"]
  by (simp add: new_state_def)

text \<open>
  C2: Untrusted content never acts on the outside: when every harness that works on a state directory
  has the default pack's rule against it among its rules, no handler is ever called for an action that
  leaves the workspace and derives from an untrusted source, whatever was approved, resumed, restarted
  or killed.
\<close>

theorem untrusted_content_never_acts:
  assumes "\<forall>u \<in> set us. hc_runtime (us_harness u) = R
      \<and> block_untrusted_side_effect \<in> set (pe_rules (hc_policy (us_harness u)))"
  shows "\<forall>a \<in> set (handler_calls (after_uses us (new_state b))).
     \<not> (ExternalSend \<le> pa_side_effect_level a \<and> payload_trust a = Untrusted)"
proof
  fix a assume "a \<in> set (handler_calls (after_uses us (new_state b)))"
  moreover have "a \<notin> set (handler_calls (new_state b))" by (simp add: handler_calls_def new_state_def)
  ultimately show "\<not> (ExternalSend \<le> pa_side_effect_level a \<and> payload_trust a = Untrusted)"
    using calls_permitted [of us R "new_state b" a] new_state_once floor_blocks assms by metis
qed

lemma untrusted_content_never_acts_witness:
  "\<exists>a. a \<in> set (handler_calls (after_uses [proposal 0 100] (new_state (dollars 25))))
     \<and> \<not> (ExternalSend \<le> pa_side_effect_level a \<and> payload_trust a = Untrusted)"
proof -
  obtain a where a: "a \<in> set (handler_calls (after_uses [proposal 0 100] (new_state (dollars 25))))"
    using proposal_runs by (cases "handler_calls (after_use (proposal 0 100) (new_state (dollars 25)))") auto
  have "hc_runtime (us_harness (proposal 0 100)) = numeral_clock
      \<and> block_untrusted_side_effect \<in> set (pe_rules (hc_policy (us_harness (proposal 0 100))))"
    by (simp add: proposal_def example_harness_def engine_hashed_def)
  then show ?thesis
    using untrusted_content_never_acts [of "[proposal 0 100]" numeral_clock "dollars 25"] a by auto
qed

end
