(* ===== verification/RegistryProperties.thy ===== *)
theory RegistryProperties
  imports HarnessMachine ApprovalProperties
begin

text \<open>
  The properties of the tool registry: what a handler call needs, and where its workspace target is.
\<close>

lemma execute_toolE:
  assumes "execute_tool R reg a dry s = (r, t)" and "tl_called t \<noteq> tl_called s"
  obtains g g' where "tl_grant s = Some g" "verify_grant R reg g = return ()" "validate_action reg a = return ()"
    "spend R a g = return g'" "tl_grant t = Some g'" "tl_called t = tl_called s @ [a]"
  using assms
  by (auto simp: execute_tool_def bindA_def spend_grant_def call_handler_def
      split: sum.splits option.splits prod.splits if_splits)

lemma spent_grant_refused:
  assumes "tl_grant s = Some g" "cg_spent g"
  shows "tl_called (snd (execute_tool R reg a dry s)) = tl_called s \<and> tl_grant (snd (execute_tool R reg a dry s)) = Some g
    \<and> isl (fst (execute_tool R reg a dry s))"
proof -
  have "\<exists>e. spend R a g = raise e"
    by (cases "spend R a g") (use assms(2) in \<open>auto elim: spendE\<close>)
  then show ?thesis using assms(1)
    by (auto simp: execute_tool_def bindA_def spend_grant_def split: sum.splits)
qed

text \<open>Any further presentations of the grant that is held.\<close>

definition presented_again ::
  "runtime \<Rightarrow> (registry \<times> action \<times> bool option) list \<Rightarrow> tool_state \<Rightarrow> tool_state" where
  "presented_again R xs s = foldl (\<lambda>s (reg, a, dry). snd (execute_tool R reg a dry s)) s xs"

lemma presented_again_spent:
  "tl_grant s = Some g \<Longrightarrow> cg_spent g \<Longrightarrow> tl_called (presented_again R xs s) = tl_called s"
proof (induction xs arbitrary: s)
  case (Cons x xs)
  obtain reg a dry where x: "x = (reg, a, dry)" by (cases x) auto
  show ?case
    using Cons.IH [of "snd (execute_tool R reg a dry s)"] spent_grant_refused [OF Cons.prems, of R reg a dry] Cons.prems
    by (simp add: presented_again_def x)
qed (simp add: presented_again_def)

subsection \<open>Examples\<close>

text \<open>A registry with a tool for any target and one for files of the workspace.\<close>

definition example_tool :: "string \<Rightarrow> target_scope \<Rightarrow> tool_spec \<times> handler" where
  "example_tool name scope =
     (\<lparr>ts_name = lit name, ts_side_effect_level = ExternalSend, ts_description = [], ts_cost_estimate_usd = zero,
       ts_supports_dry_run = True, ts_target_scope = scope\<rparr>, \<lambda>_. NotAResult)"

definition example_registry :: registry where
  "example_registry =
     \<lparr>rg_tools = [(lit ''mail'', example_tool ''mail'' AnyTarget), (lit ''file'', example_tool ''file'' WorkspaceFile)],
      rg_dry_run = False,
      rg_workspace = \<lparr>ws_root = [lit ''home''], ws_resolve = \<lambda>p. p, ws_problem = None\<rparr>,
      rg_protected_roots = [[lit ''home'', lit ''state'']], rg_grant_key = lit ''key''\<rparr>"

definition unsigned_grant :: capability_grant where
  "unsigned_grant =
     \<lparr>cg_action_id = lit ''act_1'', cg_tool_name = lit ''mail'',
      cg_authorization_hash = lit ''sha256:'' @ flat_digest, cg_evidence_record_id = lit ''evd_1'',
      cg_evidence_record_hash = lit ''h'', cg_issued_at = lit ''7'', cg_grant_id = lit ''grant_1'',
      cg_signature = [], cg_spent = False\<rparr>"

definition signed_grant :: capability_grant where
  "signed_grant = unsigned_grant\<lparr>cg_signature := sign_grant numeral_clock example_registry unsigned_grant\<rparr>"

definition granted_state :: tool_state where
  "granted_state = \<lparr>tl_called = [], tl_grant = Some signed_grant\<rparr>"

lemma granted_call:
  "tl_called (snd (execute_tool numeral_clock example_registry queued_action None granted_state)) \<noteq> tl_called granted_state"
  by code_simp

definition file_action :: action where
  "file_action = queued_action\<lparr>pa_tool_name := lit ''file'', pa_target := lit ''notes/a.txt''\<rparr>"

subsection \<open>Properties\<close>

text \<open>
  C9: A handler is reached only through a grant, and a grant reaches one handler: when a handler is
  called, the grant presented was signed by this registry, was not spent, names this action and
  tool, and carries the hash of what is executed now; afterwards no presentation of the grant, with
  whatever action and registry, calls any handler.
\<close>

theorem grant_reaches_one_handler:
  assumes "execute_tool R reg a dry s = (r, t)" and "tl_called t \<noteq> tl_called s"
  shows "\<exists>g. tl_grant s = Some g \<and> cg_signature g = sign_grant R reg g \<and> \<not> cg_spent g
      \<and> cg_action_id g = pa_action_id a \<and> cg_tool_name g = pa_tool_name a
      \<and> current_authorization_hash R a = return (cg_authorization_hash g)
      \<and> tl_called t = tl_called s @ [a] \<and> tl_called (presented_again R xs t) = tl_called t"
  using assms
proof (rule execute_toolE)
  fix g g'
  assume g: "tl_grant s = Some g" "verify_grant R reg g = return ()" "spend R a g = return g'"
    "tl_grant t = Some g'" "tl_called t = tl_called s @ [a]"
  have "cg_signature g = sign_grant R reg g" using g(2) by (simp add: verify_grant_def)
  moreover have "\<not> cg_spent g \<and> cg_action_id g = pa_action_id a \<and> cg_tool_name g = pa_tool_name a
      \<and> current_authorization_hash R a = return (cg_authorization_hash g) \<and> cg_spent g'"
    using g(3) by (auto simp: spend_def validate_grant_def split: if_splits)
  ultimately show ?thesis using g presented_again_spent by blast
qed

lemma grant_reaches_one_handler_witness:
  "\<exists>t. tl_called (presented_again numeral_clock [(example_registry, queued_action, None)] t) = [queued_action]"
proof -
  obtain r t where e: "execute_tool numeral_clock example_registry queued_action None granted_state = (r, t)"
    by fastforce
  have "tl_called t \<noteq> tl_called granted_state" using granted_call e by simp
  from grant_reaches_one_handler [OF e this, of "[(example_registry, queued_action, None)]"] show ?thesis
    by (auto simp: granted_state_def)
qed

text \<open>
  C15: A workspace tool stays inside the workspace: when the registry accepts an action of a tool
  whose targets are confined, its target resolves to a path inside the resolved workspace root, not
  the root itself unless the tool works on directories, that neither lies in a protected root nor
  contains one; and an absolute target or one that goes up is never accepted.
\<close>

theorem workspace_targets_confined:
  assumes "dict_get (pa_tool_name a) (rg_tools reg) = Some (spec, fn)" and "ts_target_scope spec \<noteq> AnyTarget"
    and "validate_action reg a = return ()"
  shows "\<exists>p. resolve_workspace_target (rg_workspace reg) (ts_target_scope spec = WorkspacePath) (pa_target a) = return p
      \<and> is_relative_to p (ws_resolve (rg_workspace reg) (ws_root (rg_workspace reg)))
      \<and> (ts_target_scope spec = WorkspaceFile \<longrightarrow> p \<noteq> ws_resolve (rg_workspace reg) (ws_root (rg_workspace reg)))
      \<and> (\<forall>base \<in> set (rg_protected_roots reg). \<not> is_relative_to p base \<and> \<not> is_relative_to base p)
      \<and> \<not> has_anchor (pa_target a) \<and> dot_dot \<notin> set (target_parts (pa_target a))"
proof -
  let ?dir = "ts_target_scope spec = WorkspacePath"
  have "check_workspace_target reg ?dir (pa_target a) = return ()"
    using assms by (cases "ts_target_scope spec") (auto simp: validate_action_def split: if_splits)
  then obtain p where p: "resolve_workspace_target (rg_workspace reg) ?dir (pa_target a) = return p"
    "require_unprotected reg p = return ()"
    by (auto simp: check_workspace_target_def)
  have "is_relative_to q q" for q :: path by (simp add: is_relative_to_def)
  then show ?thesis
    using p assms(2)
    by (cases "ts_target_scope spec")
      (auto simp: resolve_workspace_target_def Let_def require_unprotected_def list_ex_iff split: if_splits)
qed

lemma workspace_targets_confined_witness:
  "\<exists>p. resolve_workspace_target (rg_workspace example_registry) False (pa_target file_action) = return p
     \<and> \<not> is_relative_to p [lit ''home'', lit ''state'']"
proof -
  have v: "validate_action example_registry file_action = return ()" by code_simp
  have g: "dict_get (pa_tool_name file_action) (rg_tools example_registry)
      = Some (example_tool ''file'' WorkspaceFile)"
    by (simp add: example_registry_def file_action_def)
  show ?thesis
    using workspace_targets_confined [of file_action example_registry
        "fst (example_tool ''file'' WorkspaceFile)" "snd (example_tool ''file'' WorkspaceFile)"] v g
    by (auto simp: example_tool_def example_registry_def)
qed

end
