(* ===== verification/DurableState.thy ===== *)
theory DurableState
  imports CanonicalFacts ApprovalRecord
begin

text \<open>
  What the small durable authority files share (\<open>operator_trust_state.py\<close>, \<open>authority_profile.py\<close>,
  \<open>authority_publication_continuity.py\<close>): the bounded snapshot of a parsed file, its timestamps, and
  the interface of a ratchet, a file whose generation only moves forward, one linked step at a time.
  A file holds one JSON value or does not exist; it is replaced as a whole.
\<close>

subsection \<open>Reading\<close>

type_synonym state_file = "pyval option"

text \<open>\<open>authority_snapshot_and_sha256_of\<close> with a ceiling, used for the snapshot alone.\<close>

definition state_snapshot :: "nat \<Rightarrow> pyval \<Rightarrow> pyval option" where
  "state_snapshot maximum v = (case authority_limits (Some maximum) of
     None \<Rightarrow> None
   | Some L \<Rightarrow> (case snapshot_of L v of Inl _ \<Rightarrow> None | Inr w \<Rightarrow> Some w))"

text \<open>A JSON object: a mapping whose keys are text.\<close>

definition is_string :: "pyval \<Rightarrow> bool" where
  "is_string v = (case v of PStr _ \<Rightarrow> True | _ \<Rightarrow> False)"

definition object_entries :: "pyval \<Rightarrow> json_object option" where
  "object_entries v = (case v of
     PDict kvs \<Rightarrow> if list_all (\<lambda>kv. is_string (fst kv)) kvs
       then Some (map (\<lambda>kv. (text_of (Some (fst kv)), snd kv)) kvs) else None
   | _ \<Rightarrow> None)"

definition state_object :: "nat \<Rightarrow> pyval \<Rightarrow> json_object option" where
  "state_object maximum v = (case state_snapshot maximum v of None \<Rightarrow> None | Some w \<Rightarrow> object_entries w)"

text \<open>\<open>_timestamp\<close>: a text of at most 128 characters that names an instant not more than five minutes ahead.\<close>

definition state_time :: "runtime \<Rightarrow> int \<Rightarrow> pyval option \<Rightarrow> int option" where
  "state_time R now v = (case v of
     Some (PStr s) \<Rightarrow>
       if s = [] \<or> 128 < length s then None
       else (case rt_instant R s of
           None \<Rightarrow> None | Some t \<Rightarrow> if now + 300000000 < t then None else Some t)
   | _ \<Rightarrow> None)"

subsection \<open>Values of exact built-in types\<close>

fun exact :: "pyval \<Rightarrow> bool" where
  "exact (PDict kvs) \<longleftrightarrow> (\<forall>kv \<in> set kvs. exact (fst kv) \<and> exact (snd kv))"
| "exact (PList vs) \<longleftrightarrow> (\<forall>v \<in> set vs. exact v)"
| "exact (PTuple vs) \<longleftrightarrow> (\<forall>v \<in> set vs. exact v)"
| "exact (PEnum s) \<longleftrightarrow> False"
| "exact (PDecimal d) \<longleftrightarrow> False"
| "exact PNonFinite \<longleftrightarrow> False"
| "exact POther \<longleftrightarrow> False"
| "exact v \<longleftrightarrow> True"

lemma visit_key_exact:
  assumes "visit_key L k depth st = return ((n, w), st')"
  shows "exact n \<and> (exact k \<longrightarrow> n = k)"
  using assms by (cases k) (auto simp: visit_key_def)

lemma visit_keys_exact:
  "visit_keys L depth rounds seen ks st = return (ns, st') \<Longrightarrow>
   (\<forall>n \<in> set ns. exact n) \<and> ((\<forall>k \<in> set ks. exact k) \<longrightarrow> ns = ks)"
proof (induction ks arbitrary: ns seen st)
  case (Cons k ks)
  from Cons.prems obtain n w s1 s2 ms where 1: "visit_key L k depth st = return ((n, w), s1)"
    "visit_keys L depth rounds (n # seen) ks s2 = return (ms, st')" "ns = n # ms" by (auto split: if_splits)
  show ?case using visit_key_exact [OF 1(1)] Cons.IH [OF 1(2)] 1(3) by auto
qed simp

lemma mapping_keys_exact:
  "mapping_keys L depth ks st = return (ns, st') \<Longrightarrow>
   (\<forall>n \<in> set ns. exact n) \<and> ((\<forall>k \<in> set ks. exact k) \<longrightarrow> ns = ks)"
  by (auto simp: mapping_keys_def split: if_splits dest: visit_keys_exact)

lemma visit_exact:
  "visit L v depth st = return (w, st') \<Longrightarrow> exact w \<and> (exact v \<longrightarrow> w = v)"
  "visit_items L first vs depth st = return (ws, st') \<Longrightarrow>
     (\<forall>w \<in> set ws. exact w) \<and> ((\<forall>v \<in> set vs. exact v) \<longrightarrow> ws = vs)"
  "visit_entries L first kvs depth st = return (ws, st') \<Longrightarrow>
     (\<forall>w \<in> set ws. exact w) \<and> ((\<forall>kv \<in> set kvs. exact (snd kv)) \<longrightarrow> ws = map snd kvs)"
proof (induction L v depth st and L first vs depth st and L first kvs depth st
    arbitrary: w st' and ws st' and ws st' rule: visit_visit_items_visit_entries.induct)
  case (1 L kvs depth st)
  from "1.prems" obtain s1 s2 ks ws where 1: "claim_node L depth st = return s1"
    "mapping_keys L depth (map fst kvs) s1 = return (ks, s2)"
    "visit_entries L True kvs (depth + 1) s2 = return (ws, st')" "w = PDict (zip ks ws)" by auto
  note e = "1.IH" [OF 1(1,2) refl 1(3)] and k = mapping_keys_exact [OF 1(2)]
  have "exact w" unfolding 1(4) exact.simps
  proof
    fix kv assume "kv \<in> set (zip ks ws)"
    then have "fst kv \<in> set ks" "snd kv \<in> set ws" by (metis prod.collapse set_zip_leftD, metis prod.collapse set_zip_rightD)
    then show "exact (fst kv) \<and> exact (snd kv)" using e k by blast
  qed
  moreover have "w = PDict kvs" if "exact (PDict kvs)"
    using e k 1(4) that by (simp add: zip_map_fst_snd)
  ultimately show ?case by blast
next
  case (2 L vs depth st)
  from "2.prems" obtain s1 s2 ws where 1: "claim_node L depth st = return s1" "consume L 2 s1 = return s2"
    "visit_items L True vs (depth + 1) s2 = return (ws, st')" "w = PList ws" by auto
  show ?case using "2.IH" [OF 1(1,2,3)] 1(4) by auto
next
  case (3 L vs depth st)
  from "3.prems" obtain s1 s2 ws where 1: "claim_node L depth st = return s1" "consume L 2 s1 = return s2"
    "visit_items L True vs (depth + 1) s2 = return (ws, st')" "w = PTuple ws" by auto
  show ?case using "3.IH" [OF 1(1,2,3)] 1(4) by auto
next
  case (6 L first v vs depth st)
  from "6.prems" obtain s1 s2 x xs where 1: "(if first then return st else consume L 1 st) = return s1"
    "visit L v depth s1 = return (x, s2)" "visit_items L False vs depth s2 = return (xs, st')" "ws = x # xs" by auto
  show ?case using "6.IH"(1) [OF 1(1,2)] "6.IH"(2) [OF 1(1,2) refl 1(3)] 1(4) by auto
next
  case (8 L first kv kvs depth st)
  from "8.prems" obtain s1 s2 s3 x xs where 1: "(if first then return st else consume L 1 st) = return s1"
    "consume L 1 s1 = return s2" "visit L (snd kv) depth s2 = return (x, s3)"
    "visit_entries L False kvs depth s3 = return (xs, st')" "ws = x # xs" by auto
  show ?case using "8.IH"(1) [OF 1(1,2,3)] "8.IH"(2) [OF 1(1,2,3) refl 1(4)] 1(5) by auto
qed (auto simp: visit_scalar_def)

lemma state_snapshot_exact:
  "state_snapshot m v = Some w \<Longrightarrow> exact w"
  "state_snapshot m v = Some w \<Longrightarrow> exact v \<Longrightarrow> w = v"
  by (auto simp: state_snapshot_def snapshot_of_def bindR_eq_Inl split: option.splits sum.splits dest!: visit_exact(1))

lemma is_string_iff: "is_string v \<longleftrightarrow> (\<exists>s. v = PStr s)"
  by (cases v) (simp_all add: is_string_def)

lemma object_entries_json [simp]: "object_entries (json_of obj) = Some obj"
  by (auto simp: object_entries_def json_of_def is_string_iff list_all_iff map_idI split_beta)

lemma object_entries_Some: "object_entries v = Some obj \<longleftrightarrow> v = json_of obj"
proof
  assume o: "object_entries v = Some obj"
  then obtain kvs where v: "v = PDict kvs" "list_all (\<lambda>kv. is_string (fst kv)) kvs"
    "obj = map (\<lambda>kv. (text_of (Some (fst kv)), snd kv)) kvs"
    by (auto simp: object_entries_def split: pyval.splits if_splits)
  have "map (\<lambda>(k, v). (PStr k, v)) obj = kvs"
    using v(2) by (auto simp: v(3) list_all_iff is_string_iff intro!: map_idI)
  then show "v = json_of obj" by (simp add: json_of_def v(1))
qed simp

lemma state_objectD:
  assumes "state_object m v = Some obj"
  shows "exact (json_of obj)" "exact v \<Longrightarrow> v = json_of obj"
  using assms by (auto simp: state_object_def object_entries_Some split: option.splits dest: state_snapshot_exact)

lemma exact_json_of: "exact (json_of obj) \<longleftrightarrow> (\<forall>kv \<in> set obj. exact (snd kv))"
  by (auto simp: json_of_def)

lemma state_time_mono: "state_time R now v = Some t \<Longrightarrow> now \<le> now' \<Longrightarrow> state_time R now' v = Some t"
  by (auto simp: state_time_def split: option.splits pyval.splits if_splits)

lemma state_time_unique: "state_time R now v = Some t \<Longrightarrow> state_time R now' v = Some t' \<Longrightarrow> t' = t"
  by (auto simp: state_time_def split: option.splits pyval.splits if_splits)

text \<open>Integers of one digit are within every ceiling; the power of ten need not be computed.\<close>

lemma integer_token_code [code]:
  "integer_token L i =
     (let allowed = int (lim_number_characters L) - (if i < 0 then 1 else 0)
      in if allowed \<le> 0 then raise LimitNumberCharacters
         else if - 10 < i \<and> i < 10 then return (length (int_text i))
         else if 10 ^ nat allowed \<le> i \<or> i \<le> - (10 ^ nat allowed) then raise LimitNumberCharacters
         else return (length (int_text i)))"
proof -
  define n where "n = int (lim_number_characters L) - (if i < 0 then 1 else 0)"
  have "(10::int) \<le> 10 ^ nat n" if "0 < n"
    using that self_le_power [of "10::int" "nat n"] by simp
  then have "\<not> (10 ^ nat n \<le> i \<or> i \<le> - (10 ^ nat n))" if "0 < n" "- 10 < i" "i < 10" using that by linarith
  then show ?thesis by (simp add: integer_token_def Let_def flip: n_def)
qed

subsection \<open>The interface of a ratchet\<close>

text \<open>
  \<open>stored\<close> relates a file to the state it holds, \<open>step\<close> is one operation on the file with an
  admissible input; an operation keeps the generation with what it fixes, or moves it by one to a
  linked successor.
\<close>

locale ratchet =
  fixes stored :: "'f \<Rightarrow> 's \<Rightarrow> bool" and step :: "'i \<Rightarrow> 'f \<Rightarrow> 'f" and fit :: "'i \<Rightarrow> bool"
    and gen :: "'s \<Rightarrow> int" and core :: "'s \<Rightarrow> 'c" and link :: "'c \<Rightarrow> 'c \<Rightarrow> bool"
  assumes advance: "stored f s \<Longrightarrow> fit i \<Longrightarrow>
    \<exists>t. stored (step i f) t \<and> (gen t = gen s \<and> core t = core s \<or> gen t = gen s + 1 \<and> link (core s) (core t))"
begin

lemma run_links:
  assumes "stored f s" and "\<forall>i \<in> set is. fit i"
  shows "\<exists>t n. stored (fold step is f) t \<and> n \<le> length is \<and> gen t = gen s + int n \<and> (link ^^ n) (core s) (core t)"
  using assms
proof (induction "is" arbitrary: f s)
  case Nil
  then show ?case by (intro exI [of _ s] exI [of _ 0]) simp
next
  case (Cons i "is")
  from advance [OF Cons.prems(1), of i] Cons.prems(2) obtain t where t: "stored (step i f) t"
    "gen t = gen s \<and> core t = core s \<or> gen t = gen s + 1 \<and> link (core s) (core t)" by auto
  obtain u n where u: "stored (fold step is (step i f)) u" "n \<le> length is" "gen u = gen t + int n"
    "(link ^^ n) (core t) (core u)"
    using Cons.IH [OF t(1)] Cons.prems(2) by auto
  from t(2) show ?case
  proof
    assume "gen t = gen s \<and> core t = core s"
    then show ?thesis using u by (intro exI [of _ u] exI [of _ n]) simp
  next
    assume "gen t = gen s + 1 \<and> link (core s) (core t)"
    then have "(link ^^ Suc n) (core s) (core u)" using u(4) by (metis relpowp_Suc_I2)
    then show ?thesis using u t \<open>gen t = gen s + 1 \<and> _\<close> by (intro exI [of _ u] exI [of _ "Suc n"]) simp
  qed
qed

lemma run_monotone:
  assumes "stored f s" and "\<forall>i \<in> set is. fit i"
  shows "\<exists>t. stored (fold step is f) t \<and> gen s \<le> gen t \<and> link\<^sup>*\<^sup>* (core s) (core t)
    \<and> (gen t = gen s \<longrightarrow> core t = core s)"
proof -
  obtain t n where "stored (fold step is f) t" "gen t = gen s + int n" "(link ^^ n) (core s) (core t)"
    using run_links [OF assms] by blast
  then show ?thesis by (intro exI [of _ t]) (auto dest: relpowp_imp_rtranclp)
qed

end

end
