(* ===== verification/OperatorKeys.thy ===== *)
theory OperatorKeys
  imports OperatorIdentity
begin

text \<open>
  The trusted keys of the operators and the signed transitions of durable authority
  (\<open>operator_identity.py\<close>): the policy read from \<open>IDENTITY=PUBLIC_KEY.pem\<close> texts, its bindings, the
  statements that rotate the trust of operators or an authority profile, and the signing of every
  kind of statement. Key files and Ed25519 belong to the system and a library: what a path holds is
  a function \<open>pem\<close>, a signing key is its public part with a signing function.
\<close>

subsection \<open>Trusted keys\<close>

definition max_trusted_public_keys :: nat where "max_trusted_public_keys = 1024"
definition max_trusted_public_key_bytes :: nat where "max_trusted_public_key_bytes = 65536"
definition max_trusted_public_key_set_bytes :: nat where "max_trusted_public_key_set_bytes = 8388608"
definition max_operator_chars :: nat where "max_operator_chars = 256"

text \<open>A key file as it is read: its size in bytes, and the raw public key in hexadecimal if it holds one.\<close>

type_synonym key_files = "pystr \<Rightarrow> (nat \<times> pystr option) option"

definition public_key_id :: "runtime \<Rightarrow> pystr \<Rightarrow> pystr" where
  "public_key_id R raw = sha256_of (rt_sha256 R)
     (PDict [(PStr (lit ''algorithm''), PStr (lit ''Ed25519'')), (PStr (lit ''public_key''), PStr raw)])"

text \<open>\<open>str.partition('=')\<close>: the text before the first equals sign, whether there is one, the rest.\<close>

definition partition_equals :: "pystr \<Rightarrow> pystr \<times> bool \<times> pystr" where
  "partition_equals s = (takeWhile (\<lambda>c. c \<noteq> 61) s, 61 \<in> set s, drop 1 (dropWhile (\<lambda>c. c \<noteq> 61) s))"

definition read_key :: "key_files \<Rightarrow> pystr \<Rightarrow> (identity_error, nat \<times> pystr option) result" where
  "read_key pem path = (case pem path of
     None \<Rightarrow> raise TrustedKeyUnreadable
   | Some (n, raw) \<Rightarrow> if max_trusted_public_key_bytes < n then raise TrustedKeyUnreadable else return (n, raw))"

text \<open>What \<open>from_specs\<close> has collected: the keys by operator, the owner of each key, the bytes read.\<close>

record key_collection =
  kc_keys :: "(pystr, (pystr, pystr) dict) dict"
  kc_owners :: "(pystr, pystr) dict"
  kc_bytes :: nat

definition add_trusted_key ::
  "pystr \<Rightarrow> pystr \<Rightarrow> pystr \<Rightarrow> (pystr, (pystr, pystr) dict) dict \<Rightarrow> (pystr, (pystr, pystr) dict) dict" where
  "add_trusted_key operator key_id key keys =
     dict_put operator (dict_put key_id key (case dict_get operator keys of None \<Rightarrow> [] | Some ks \<Rightarrow> ks)) keys"

definition add_spec ::
  "runtime \<Rightarrow> key_files \<Rightarrow> pystr \<Rightarrow> key_collection \<Rightarrow> (identity_error, key_collection) result" where
  "add_spec R pem spec c =
     (let (name, separator, rest) = partition_equals spec;
          operator = py_strip name; path = py_strip rest in
      if \<not> separator \<or> operator = [] \<or> path = [] then raise TrustSpecInvalid
      else if max_operator_chars < length operator then raise AttestationText
      else bindR (read_key pem path) (\<lambda>(n, raw).
        if max_trusted_public_key_set_bytes < kc_bytes c + n then raise TrustedKeySetTooLarge
        else (case raw of None \<Rightarrow> raise TrustedKeyUnreadable | Some key \<Rightarrow>
          let key_id = public_key_id R key in
          if dict_get key_id (kc_owners c) \<notin> {None, Some operator} then raise TrustedKeyShared
          else return \<lparr>kc_keys = add_trusted_key operator key_id key (kc_keys c),
            kc_owners = dict_put key_id operator (kc_owners c), kc_bytes = kc_bytes c + n\<rparr>)))"

fun add_specs ::
  "runtime \<Rightarrow> key_files \<Rightarrow> pystr list \<Rightarrow> key_collection \<Rightarrow> (identity_error, key_collection) result" where
  "add_specs R pem [] c = return c"
| "add_specs R pem (s # ss) c = bindR (add_spec R pem s c) (add_specs R pem ss)"

definition key_count :: "(pystr, (pystr, pystr) dict) dict \<Rightarrow> nat" where
  "key_count keys = sum_list (map (\<lambda>ok. length (snd ok)) keys)"

definition new_policy ::
  "(pystr \<Rightarrow> nat list \<Rightarrow> pystr \<Rightarrow> bool) \<Rightarrow> (pystr, (pystr, pystr) dict) dict
   \<Rightarrow> (identity_error, trust_policy) result" where
  "new_policy verify keys =
     (if keys = [] then raise NoTrustedKeys
      else if max_trusted_public_keys < key_count keys then raise TooManyTrustedKeys
      else return \<lparr>tp_keys = keys, tp_verify = verify\<rparr>)"

definition from_specs ::
  "runtime \<Rightarrow> (pystr \<Rightarrow> nat list \<Rightarrow> pystr \<Rightarrow> bool) \<Rightarrow> key_files \<Rightarrow> pystr list
   \<Rightarrow> (identity_error, trust_policy) result" where
  "from_specs R verify pem specs =
     (if max_trusted_public_keys < length specs then raise TooManyTrustedKeys
      else bindR (add_specs R pem specs \<lparr>kc_keys = [], kc_owners = [], kc_bytes = 0\<rparr>) (\<lambda>c.
        new_policy verify (kc_keys c)))"

text \<open>Trust roots inside the state directory are refused; \<open>resolve\<close> follows the links of a path.\<close>

definition check_external_spec :: "(pystr \<Rightarrow> pystr list) \<Rightarrow> pystr list \<Rightarrow> pystr \<Rightarrow> (identity_error, unit) result" where
  "check_external_spec resolve base spec =
     (let (name, separator, rest) = partition_equals spec; path = py_strip rest in
      if \<not> separator \<or> path = [] then raise TrustSpecInvalid
      else require (take (length base) (resolve path) \<noteq> base) TrustedKeyInsideState)"

definition validate_external_trust_specs ::
  "(pystr \<Rightarrow> pystr list) \<Rightarrow> pystr \<Rightarrow> pystr list \<Rightarrow> (identity_error, unit) result" where
  "validate_external_trust_specs resolve state_root specs =
     (if max_trusted_public_keys < length specs then raise TooManyTrustedKeys
      else allR (check_external_spec resolve (resolve state_root)) specs)"

subsection \<open>Bindings\<close>

type_synonym bindings = "(pystr, pystr list) dict"

definition policy_bindings :: "trust_policy \<Rightarrow> bindings" where
  "policy_bindings T = map (\<lambda>(operator, ks). (operator, sort (map fst ks))) (sort_key fst (tp_keys T))"

definition bindings_object :: "bindings \<Rightarrow> pyval" where
  "bindings_object b = PDict (map (\<lambda>(operator, ks). (PStr operator, PList (map PStr ks))) b)"

definition hash_of_bindings :: "runtime \<Rightarrow> bindings \<Rightarrow> pystr" where
  "hash_of_bindings R b = sha256_of (rt_sha256 R) (bindings_object b)"

text \<open>Every operator and key of the first is in the second, and the second has more.\<close>

definition covers :: "bindings \<Rightarrow> bindings \<Rightarrow> bool" where
  "covers b c \<longleftrightarrow> list_all (\<lambda>(operator, ks). case dict_get operator c of
     None \<Rightarrow> False | Some ls \<Rightarrow> set ks \<subseteq> set ls) b"

definition is_additive :: "bindings \<Rightarrow> bindings \<Rightarrow> bool" where
  "is_additive b c \<longleftrightarrow> b \<noteq> c \<and> covers b c"

definition is_additive_successor :: "trust_policy \<Rightarrow> trust_policy \<Rightarrow> bool" where
  "is_additive_successor T U \<longleftrightarrow> is_additive (policy_bindings T) (policy_bindings U)"

subsection \<open>Transitions\<close>

definition positive_field :: "string \<Rightarrow> attestation \<Rightarrow> (identity_error, int) result" where
  "positive_field f att = (case obj_get f att of
     Some (PInt i) \<Rightarrow> (if i < 1 then raise TransitionGeneration else return i)
   | _ \<Rightarrow> raise TransitionGeneration)"

definition transition_fields :: "string \<Rightarrow> string \<Rightarrow> pystr list" where
  "transition_fields from_hash to_hash = map lit
     [''schema_name'', ''schema_version'', ''algorithm'', ''purpose'', ''key_id'', ''signed_at'',
      ''operator'', ''note'', ''from_generation'', ''to_generation'', from_hash, to_hash, ''signature'']"

text \<open>The shape of a transition statement; \<open>change\<close> is a further check on its hashes.\<close>

definition validate_transition ::
  "runtime \<Rightarrow> int \<Rightarrow> string \<Rightarrow> string \<Rightarrow> string \<Rightarrow> string \<Rightarrow> (identity_error, unit) result \<Rightarrow> attestation
   \<Rightarrow> (identity_error, unit) result" where
  "validate_transition R now schema purpose from_hash to_hash change att =
     (if set (map fst att) \<noteq> set (transition_fields from_hash to_hash)
         \<or> \<not> has_value ''schema_name'' schema att \<or> \<not> has_value ''schema_version'' ''0.1.0'' att
         \<or> \<not> has_value ''algorithm'' ''Ed25519'' att \<or> \<not> has_value ''purpose'' purpose att
      then raise AttestationSchema
      else bindR (allR (\<lambda>f. bindR (bounded_text max_note_chars (obj_get f att)) (\<lambda>_. return ()))
          [''key_id'', ''operator'', ''note'', from_hash, to_hash, ''signature'']) (\<lambda>_.
        bindR (positive_field ''from_generation'' att) (\<lambda>earlier.
        bindR (positive_field ''to_generation'' att) (\<lambda>later.
        if later \<noteq> earlier + 1 then raise TransitionGeneration
        else bindR (require (is_sha256 (text_of (obj_get ''key_id'' att))
            \<and> is_sha256 (text_of (obj_get from_hash att)) \<and> is_sha256 (text_of (obj_get to_hash att)))
            AttestationHash) (\<lambda>_.
        bindR change (\<lambda>_.
        bindR (identity_timestamp R (obj_get ''signed_at'' att)) (\<lambda>_.
        bindR (identity_time R (text_of (obj_get ''signed_at'' att))) (\<lambda>signed_at.
        if now + five_minutes < signed_at then raise SignedTooLate
        else bindR (decode_signature (text_of (obj_get ''signature'' att))) (\<lambda>_. return ())))))))))"

definition validate_trust_transition :: "runtime \<Rightarrow> int \<Rightarrow> attestation \<Rightarrow> (identity_error, unit) result" where
  "validate_trust_transition R now att =
     validate_transition R now ''defiant.operator.trust_transition'' ''operator_trust_rotation''
       ''from_bindings_hash'' ''to_bindings_hash'' (return ()) att"

definition validate_authority_profile_transition ::
  "runtime \<Rightarrow> int \<Rightarrow> attestation \<Rightarrow> (identity_error, unit) result" where
  "validate_authority_profile_transition R now att =
     validate_transition R now ''defiant.operator.authority_profile_transition'' ''authority_profile_rotation''
       ''from_profile_hash'' ''to_profile_hash''
       (require (text_of (obj_get ''from_profile_hash'' att) \<noteq> text_of (obj_get ''to_profile_hash'' att))
         TransitionUnchanged) att"

text \<open>A transition is accepted when it says exactly what is requested and a trusted key signed it.\<close>

definition require_signed_transition ::
  "trust_policy \<Rightarrow> pystr \<Rightarrow> attestation \<Rightarrow> int \<Rightarrow> (string \<times> pystr) list \<Rightarrow> pystr \<Rightarrow> pystr
   \<Rightarrow> (identity_error, unit) result" where
  "require_signed_transition T domain att generation hashes operator remark =
     (if obj_get ''from_generation'' att \<noteq> Some (PInt generation)
         \<or> obj_get ''to_generation'' att \<noteq> Some (PInt (generation + 1)) then raise AttestationMismatch
      else bindR (allR (expect_field att)
          (hashes @ [(''operator'', py_strip operator), (''note'', py_strip remark)])) (\<lambda>_.
        case trusted_key T (py_strip operator) (text_of (obj_get ''key_id'' att)) of
          None \<Rightarrow> raise UntrustedKey
        | Some key \<Rightarrow> signature_valid T key domain att))"

definition trust_domain :: pystr where
  "trust_domain = lit ''Defiant Agent Harness operator trust transition v0.1.0'' @ [0]"

definition profile_domain :: pystr where
  "profile_domain = lit ''Defiant Agent Harness authority profile transition v0.1.0'' @ [0]"

definition require_trust_transition ::
  "runtime \<Rightarrow> trust_policy \<Rightarrow> int \<Rightarrow> attestation option \<Rightarrow> int \<Rightarrow> pystr \<Rightarrow> pystr \<Rightarrow> pystr \<Rightarrow> pystr
   \<Rightarrow> (identity_error, unit) result" where
  "require_trust_transition R T now att generation from_hash to_hash operator remark = (case att of
     None \<Rightarrow> raise AttestationRequired
   | Some att \<Rightarrow> bindR (validate_trust_transition R now att) (\<lambda>_.
       require_signed_transition T trust_domain att generation
         [(''from_bindings_hash'', from_hash), (''to_bindings_hash'', to_hash)] operator remark))"

definition require_authority_profile_transition ::
  "runtime \<Rightarrow> trust_policy \<Rightarrow> int \<Rightarrow> attestation option \<Rightarrow> int \<Rightarrow> pystr \<Rightarrow> pystr \<Rightarrow> pystr \<Rightarrow> pystr
   \<Rightarrow> (identity_error, unit) result" where
  "require_authority_profile_transition R T now att generation from_hash to_hash operator remark = (case att of
     None \<Rightarrow> raise AttestationRequired
   | Some att \<Rightarrow> bindR (validate_authority_profile_transition R now att) (\<lambda>_.
       require_signed_transition T profile_domain att generation
         [(''from_profile_hash'', from_hash), (''to_profile_hash'', to_hash)] operator remark))"

end
