(* ===== verification/OperatorTrust.thy ===== *)
theory OperatorTrust
  imports DurableState OperatorKeys Approvals Evidence
begin

text \<open>
  Durable enrollment of operator trust (\<open>operator_trust_state.py\<close>): the state of the trusted keys of a
  state directory, its validation on every read and before every write, and the operations that
  enroll it and rotate it. An operation reads the clock and the file under an exclusive lock and
  replaces the file as a whole. \<open>te_fits\<close> says that a state, printed, is within the byte ceiling of
  the file.
\<close>

subsection \<open>The state\<close>

datatype trust_error =
    TrustIdentity identity_error
  | TrustSnapshot
  | TrustSchema
  | TrustGeneration
  | TrustTimestamp
  | TrustTimes
  | TrustBindings
  | TrustHash
  | TrustTransitions
  | TrustNotAdditive
  | TrustChain
  | TrustNotConfigured
  | TrustNotPriorKey
  | TrustLegacy
  | TrustKeysRequired
  | TrustNotEnrolled
  | TrustSigner
  | TrustTooLarge

record trust_transition =
  tt_attestation :: attestation
  tt_bindings :: bindings

record trust_state =
  os_generation :: int
  os_enrolled_at :: pystr
  os_updated_at :: pystr
  os_initial_bindings :: bindings
  os_initial_hash :: pystr
  os_bindings :: bindings
  os_bindings_hash :: pystr
  os_transitions :: "trust_transition list"

definition max_trust_state_bytes :: nat where "max_trust_state_bytes = 1048576"
definition max_operators :: nat where "max_operators = 256"
definition max_transitions :: nat where "max_transitions = 1024"

subsection \<open>Validation\<close>

definition key_id_list :: "pyval \<Rightarrow> pystr list option" where
  "key_id_list v = (case v of
     PList vs \<Rightarrow>
       let ks = map (\<lambda>w. text_of (Some w)) vs in
       if vs \<noteq> [] \<and> list_all is_string vs \<and> list_all is_sha256 ks \<and> sort (remdups ks) = ks then Some ks else None
   | _ \<Rightarrow> None)"

definition operator_entry :: "pystr \<times> pyval \<Rightarrow> (pystr \<times> pystr list) option" where
  "operator_entry e =
     (if py_strip (fst e) = [] \<or> fst e \<noteq> py_strip (fst e) \<or> 256 < length (fst e) then None
      else map_option (Pair (fst e)) (key_id_list (snd e)))"

fun all_entries :: "('a \<Rightarrow> 'b option) \<Rightarrow> 'a list \<Rightarrow> 'b list option" where
  "all_entries f [] = Some []"
| "all_entries f (x # xs) = (case f x of None \<Rightarrow> None | Some y \<Rightarrow> map_option (Cons y) (all_entries f xs))"

text \<open>\<open>_bindings\<close>: sorted operators with sorted, distinct key identifiers.\<close>

definition bindings_of :: "pyval option \<Rightarrow> bindings option" where
  "bindings_of v = (case v of None \<Rightarrow> None | Some w \<Rightarrow> (case object_entries w of
     None \<Rightarrow> None
   | Some obj \<Rightarrow>
       if obj = [] \<or> max_operators < length obj then None
       else (case all_entries operator_entry obj of
           None \<Rightarrow> None
         | Some b \<Rightarrow>
             if max_trusted_public_keys < sum_list (map (\<lambda>ok. length (snd ok)) b)
               \<or> sort (map fst b) \<noteq> map fst b then None
             else Some b)))"

definition wanted :: "'e \<Rightarrow> 'a option \<Rightarrow> ('e, 'a) result" where
  "wanted e x = (case x of None \<Rightarrow> raise e | Some y \<Rightarrow> return y)"

definition hash_field :: "string \<Rightarrow> json_object \<Rightarrow> (trust_error, pystr) result" where
  "hash_field f obj = (case obj_get f obj of
     Some (PStr s) \<Rightarrow> (if is_sha256 s then return s else raise TrustHash) | _ \<Rightarrow> raise TrustHash)"

text \<open>Equality with an integer, as Python compares numbers.\<close>

definition int_field_is :: "string \<Rightarrow> int \<Rightarrow> json_object \<Rightarrow> bool" where
  "int_field_is f i obj \<longleftrightarrow> (case obj_get f obj of None \<Rightarrow> False | Some v \<Rightarrow> same_key (PInt i) v)"

definition text_field_is :: "string \<Rightarrow> pystr \<Rightarrow> json_object \<Rightarrow> bool" where
  "text_field_is f s obj \<longleftrightarrow> obj_get f obj = Some (PStr s)"

text \<open>The loop over the transitions: the bindings, hash and time reached so far.\<close>

fun check_transitions ::
  "runtime \<Rightarrow> int \<Rightarrow> int \<Rightarrow> bindings \<Rightarrow> int \<Rightarrow> pyval list
   \<Rightarrow> (trust_error, trust_transition list \<times> bindings \<times> int) result" where
  "check_transitions R now index b time [] = return ([], b, time)"
| "check_transitions R now index b time (v # vs) =
     bindR (wanted TrustTransitions (object_entries v)) (\<lambda>t.
     if set (map fst t) \<noteq> {lit ''attestation'', lit ''bindings''} then raise TrustTransitions
     else bindR (wanted TrustTransitions (Option.bind (obj_get ''attestation'' t) object_entries)) (\<lambda>att.
     bindR (wanted TrustBindings (bindings_of (obj_get ''bindings'' t))) (\<lambda>c.
     if \<not> is_additive b c then raise TrustNotAdditive
     else if \<not> int_field_is ''from_generation'' index att \<or> \<not> int_field_is ''to_generation'' (index + 1) att
       then raise TrustChain
     else if \<not> text_field_is ''from_bindings_hash'' (hash_of_bindings R b) att
         \<or> \<not> text_field_is ''to_bindings_hash'' (hash_of_bindings R c) att then raise TrustChain
     else bindR (wanted TrustTimestamp (state_time R now (obj_get ''signed_at'' att))) (\<lambda>signed_at.
     if signed_at < time then raise TrustTimes
     else bindR (check_transitions R now (index + 1) c signed_at vs) (\<lambda>(ts, final, last_time).
       return (\<lparr>tt_attestation = att, tt_bindings = c\<rparr> # ts, final, last_time))))))"

definition trust_state_fields :: "pystr list" where
  "trust_state_fields = map lit
     [''schema_name'', ''schema_version'', ''mode'', ''generation'', ''enrolled_at'', ''updated_at'',
      ''initial_bindings'', ''initial_bindings_hash'', ''bindings'', ''bindings_hash'', ''transitions'']"

definition generation_of :: "json_object \<Rightarrow> (trust_error, int) result" where
  "generation_of obj = (case obj_get ''generation'' obj of
     Some (PInt g) \<Rightarrow> (if g < 1 then raise TrustGeneration else return g) | _ \<Rightarrow> raise TrustGeneration)"

definition transition_list :: "int \<Rightarrow> json_object \<Rightarrow> (trust_error, pyval list) result" where
  "transition_list generation obj = (case obj_get ''transitions'' obj of
     Some (PList vs) \<Rightarrow>
       if max_transitions < length vs \<or> int (length vs) \<noteq> generation - 1 then raise TrustTransitions else return vs
   | _ \<Rightarrow> raise TrustTransitions)"

text \<open>\<open>from_dict\<close> once the value is snapshotted.\<close>

definition parse_trust_state :: "runtime \<Rightarrow> int \<Rightarrow> json_object \<Rightarrow> (trust_error, trust_state) result" where
  "parse_trust_state R now obj =
     (if set (map fst obj) \<noteq> set trust_state_fields
         \<or> \<not> has_value ''schema_name'' ''defiant.operator.trust_state'' obj
         \<or> \<not> has_value ''schema_version'' ''0.1.0'' obj \<or> \<not> has_value ''mode'' ''signed_required'' obj
      then raise TrustSchema
      else bindR (generation_of obj) (\<lambda>generation.
      bindR (wanted TrustTimestamp (state_time R now (obj_get ''enrolled_at'' obj))) (\<lambda>enrolled_at.
      bindR (wanted TrustTimestamp (state_time R now (obj_get ''updated_at'' obj))) (\<lambda>updated_at.
      if updated_at < enrolled_at then raise TrustTimes
      else bindR (wanted TrustBindings (bindings_of (obj_get ''initial_bindings'' obj))) (\<lambda>initial.
      bindR (wanted TrustBindings (bindings_of (obj_get ''bindings'' obj))) (\<lambda>current.
      bindR (hash_field ''initial_bindings_hash'' obj) (\<lambda>initial_hash.
      bindR (hash_field ''bindings_hash'' obj) (\<lambda>current_hash.
      if initial_hash \<noteq> hash_of_bindings R initial \<or> current_hash \<noteq> hash_of_bindings R current then raise TrustHash
      else bindR (transition_list generation obj) (\<lambda>vs.
      bindR (check_transitions R now 1 initial enrolled_at vs) (\<lambda>(ts, final, last_time).
      if final \<noteq> current \<or> updated_at \<noteq> last_time then raise TrustChain
      else return \<lparr>os_generation = generation, os_enrolled_at = text_of (obj_get ''enrolled_at'' obj),
        os_updated_at = text_of (obj_get ''updated_at'' obj), os_initial_bindings = initial,
        os_initial_hash = initial_hash, os_bindings = current, os_bindings_hash = current_hash,
        os_transitions = ts\<rparr>))))))))))"

definition trust_state_of :: "runtime \<Rightarrow> int \<Rightarrow> pyval \<Rightarrow> (trust_error, trust_state) result" where
  "trust_state_of R now v =
     bindR (wanted TrustSnapshot (state_object max_trust_state_bytes v)) (parse_trust_state R now)"

subsection \<open>The file\<close>

definition transition_object :: "trust_transition \<Rightarrow> pyval" where
  "transition_object t = json_of
     [(lit ''attestation'', json_of (tt_attestation t)), (lit ''bindings'', bindings_object (tt_bindings t))]"

definition trust_object :: "trust_state \<Rightarrow> pyval" where
  "trust_object s = json_of
     [(lit ''schema_name'', PStr (lit ''defiant.operator.trust_state'')), (lit ''schema_version'', PStr (lit ''0.1.0'')),
      (lit ''mode'', PStr (lit ''signed_required'')), (lit ''generation'', PInt (os_generation s)),
      (lit ''enrolled_at'', PStr (os_enrolled_at s)), (lit ''updated_at'', PStr (os_updated_at s)),
      (lit ''initial_bindings'', bindings_object (os_initial_bindings s)),
      (lit ''initial_bindings_hash'', PStr (os_initial_hash s)),
      (lit ''bindings'', bindings_object (os_bindings s)), (lit ''bindings_hash'', PStr (os_bindings_hash s)),
      (lit ''transitions'', PList (map transition_object (os_transitions s)))]"

record trust_env =
  te_clock :: "nat \<Rightarrow> int"
  te_stamp :: pystr
  te_fits :: "pyval \<Rightarrow> bool"

type_synonym 'a trust_effect = "(state_file, trust_error, 'a) effect"

definition get_trust :: "runtime \<Rightarrow> int \<Rightarrow> state_file \<Rightarrow> (trust_error, trust_state option) result" where
  "get_trust R now f = (case f of
     None \<Rightarrow> return None | Some v \<Rightarrow> bindR (trust_state_of R now v) (\<lambda>s. return (Some s)))"

definition write_trust :: "runtime \<Rightarrow> trust_env \<Rightarrow> int \<Rightarrow> trust_state \<Rightarrow> unit trust_effect" where
  "write_trust R env now s =
     bindA (liftA (trust_state_of R now (trust_object s))) (\<lambda>t.
     bindA (checkA (te_fits env (trust_object t)) TrustTooLarge) (\<lambda>_.
       writeA (\<lambda>_. Some (trust_object t))))"

text \<open>\<open>enrolled\<close>: the first generation, bounded as the constructor bounds it.\<close>

definition enrolled :: "runtime \<Rightarrow> pystr \<Rightarrow> trust_policy \<Rightarrow> (trust_error, trust_state) result" where
  "enrolled R stamp T =
     (let b = policy_bindings T; h = hash_of_bindings R b;
          s = \<lparr>os_generation = 1, os_enrolled_at = stamp, os_updated_at = stamp, os_initial_bindings = b,
               os_initial_hash = h, os_bindings = b, os_bindings_hash = h, os_transitions = []\<rparr>
      in bindR (require (state_snapshot max_trust_state_bytes (json_of
           [(lit ''generation'', PInt 1), (lit ''enrolled_at'', PStr stamp), (lit ''updated_at'', PStr stamp),
            (lit ''initial_bindings'', bindings_object b), (lit ''initial_bindings_hash'', PStr h),
            (lit ''bindings'', bindings_object b), (lit ''bindings_hash'', PStr h),
            (lit ''transitions'', PList [])]) \<noteq> None) TrustSnapshot) (\<lambda>_. return s))"

subsection \<open>Verification against the configured keys\<close>

definition bound_key :: "attestation \<Rightarrow> bindings \<Rightarrow> bool" where
  "bound_key att b \<longleftrightarrow> (case (obj_get ''operator'' att, obj_get ''key_id'' att) of
     (Some (PStr operator), Some (PStr k)) \<Rightarrow>
       k \<in> set (case dict_get operator b of None \<Rightarrow> [] | Some ks \<Rightarrow> ks)
   | _ \<Rightarrow> False)"

fun verify_transitions ::
  "runtime \<Rightarrow> int \<Rightarrow> trust_policy \<Rightarrow> int \<Rightarrow> bindings \<Rightarrow> pystr \<Rightarrow> trust_transition list
   \<Rightarrow> (trust_error, unit) result" where
  "verify_transitions R now T index b h [] = return ()"
| "verify_transitions R now T index b h (t # ts) =
     (let att = tt_attestation t; c = tt_bindings t; h' = hash_of_bindings R c in
      if \<not> bound_key att b then raise TrustNotPriorKey
      else bindR (mapErr TrustIdentity (require_trust_transition R T now (Some att) index h h'
          (text_of (obj_get ''operator'' att)) (text_of (obj_get ''note'' att)))) (\<lambda>_.
        verify_transitions R now T (index + 1) c h' ts))"

definition verify_trust :: "runtime \<Rightarrow> int \<Rightarrow> trust_policy \<Rightarrow> trust_state \<Rightarrow> (trust_error, unit) result" where
  "verify_trust R now T s =
     (if policy_bindings T \<noteq> os_bindings s then raise TrustNotConfigured
      else verify_transitions R now T 1 (os_initial_bindings s) (os_initial_hash s) (os_transitions s))"

subsection \<open>Operations\<close>

definition legacy_signed_authority :: "approval_data \<Rightarrow> bool" where
  "legacy_signed_authority d \<longleftrightarrow> list_ex (\<lambda>kp. ap_decision_attestation (snd kp) \<noteq> None
     \<or> ap_reconciliation_attestation (snd kp) \<noteq> None) d"

text \<open>
  \<open>resolve_for_authority\<close> for the configured keys, if any; \<open>early\<close> is the file as the first read, made
  before the lock, found it.
\<close>

definition resolve_trust ::
  "runtime \<Rightarrow> trust_env \<Rightarrow> approval_data \<Rightarrow> trust_policy option \<Rightarrow> state_file \<Rightarrow> trust_policy option trust_effect" where
  "resolve_trust R env d candidate early =
     bindA (liftA (get_trust R (te_clock env 1) early)) (\<lambda>found. case (found, candidate) of
       (None, None) \<Rightarrow> if legacy_signed_authority d then failA TrustLegacy else okA None
     | (None, Some T) \<Rightarrow>
         bindA (\<lambda>f. (get_trust R (te_clock env 2) f, f)) (\<lambda>now_found.
         bindA (case now_found of
             Some s \<Rightarrow> okA s
           | None \<Rightarrow> bindA (liftA (enrolled R (te_stamp env) T)) (\<lambda>s.
               bindA (write_trust R env (te_clock env 3) s) (\<lambda>_. okA s))) (\<lambda>s.
         bindA (liftA (verify_trust R (te_clock env 4) T s)) (\<lambda>_. okA (Some T))))
     | (Some s, None) \<Rightarrow> failA TrustKeysRequired
     | (Some s, Some T) \<Rightarrow> bindA (liftA (verify_trust R (te_clock env 4) T s)) (\<lambda>_. okA (Some T)))"

definition preview_trust ::
  "runtime \<Rightarrow> trust_env \<Rightarrow> approval_data \<Rightarrow> trust_policy option \<Rightarrow> trust_policy option trust_effect" where
  "preview_trust R env d candidate =
     bindA (\<lambda>f. (get_trust R (te_clock env 1) f, f)) (\<lambda>found. case (found, candidate) of
       (None, None) \<Rightarrow> if legacy_signed_authority d then failA TrustLegacy else okA None
     | (None, Some T) \<Rightarrow> okA (Some T)
     | (Some s, None) \<Rightarrow> failA TrustKeysRequired
     | (Some s, Some T) \<Rightarrow> bindA (liftA (verify_trust R (te_clock env 4) T s)) (\<lambda>_. okA (Some T)))"

definition already_rotated :: "trust_state \<Rightarrow> trust_policy \<Rightarrow> attestation \<Rightarrow> bool" where
  "already_rotated s T att \<longleftrightarrow> os_bindings s = policy_bindings T \<and> os_transitions s \<noteq> []
     \<and> same_object (tt_attestation (last (os_transitions s))) att"

definition rotation_signer :: "trust_state \<Rightarrow> attestation \<Rightarrow> bool" where
  "rotation_signer s att \<longleftrightarrow> is_text (obj_get ''note'' att) \<and> py_strip (text_of (obj_get ''note'' att)) \<noteq> []
     \<and> bound_key att (os_bindings s)"

definition rotated :: "runtime \<Rightarrow> trust_policy \<Rightarrow> attestation \<Rightarrow> trust_state \<Rightarrow> trust_state" where
  "rotated R T att s = s\<lparr>os_generation := os_generation s + 1,
     os_updated_at := text_of (obj_get ''signed_at'' att), os_bindings := policy_bindings T,
     os_bindings_hash := hash_of_bindings R (policy_bindings T),
     os_transitions := os_transitions s @ [\<lparr>tt_attestation = att, tt_bindings = policy_bindings T\<rparr>]\<rparr>"

definition rotate_trust ::
  "runtime \<Rightarrow> trust_env \<Rightarrow> trust_policy \<Rightarrow> trust_policy \<Rightarrow> attestation \<Rightarrow> trust_state trust_effect" where
  "rotate_trust R env T U att =
     bindA (\<lambda>f. (get_trust R (te_clock env 1) f, f)) (\<lambda>found. case found of
       None \<Rightarrow> failA TrustNotEnrolled
     | Some s \<Rightarrow>
         if already_rotated s U att then bindA (liftA (verify_trust R (te_clock env 2) U s)) (\<lambda>_. okA s)
         else bindA (liftA (verify_trust R (te_clock env 2) T s)) (\<lambda>_.
           if \<not> is_additive_successor T U then failA TrustNotAdditive
           else if \<not> rotation_signer s att then failA TrustSigner
           else bindA (liftA (mapErr TrustIdentity (require_trust_transition R T (te_clock env 3) (Some att)
               (os_generation s) (os_bindings_hash s) (hash_of_bindings R (policy_bindings U))
               (text_of (obj_get ''operator'' att)) (text_of (obj_get ''note'' att))))) (\<lambda>_.
             bindA (liftA (trust_state_of R (te_clock env 4) (trust_object (rotated R U att s)))) (\<lambda>t.
             bindA (liftA (verify_trust R (te_clock env 5) U t)) (\<lambda>_.
             bindA (write_trust R env (te_clock env 6) t) (\<lambda>_. okA t))))))"

end
