(* ===== verification/OperatorTrustFacts.thy ===== *)
theory OperatorTrustFacts
  imports OperatorTrust
begin

text \<open>
  What the durable operator trust keeps: what is written is read back, a file determines its state, and
  every operation keeps the state or moves it by one signed, additive rotation.
\<close>


lemma wanted_Inr [simp]: "wanted e x = return y \<longleftrightarrow> x = Some y"
  by (cases x) (auto simp: wanted_def)

subsection \<open>What a parsed state satisfies\<close>

lemma check_transitions_ConsE:
  assumes "check_transitions R now index b time (v # vs) = return (ts, final, last_time)"
  obtains t att c signed_at rest where "object_entries v = Some t" "obj_get ''attestation'' t = Some (json_of att)"
    "bindings_of (obj_get ''bindings'' t) = Some c" "is_additive b c"
    "int_field_is ''from_generation'' index att" "int_field_is ''to_generation'' (index + 1) att"
    "text_field_is ''from_bindings_hash'' (hash_of_bindings R b) att"
    "text_field_is ''to_bindings_hash'' (hash_of_bindings R c) att"
    "state_time R now (obj_get ''signed_at'' att) = Some signed_at" "time \<le> signed_at"
    "check_transitions R now (index + 1) c signed_at vs = return (rest, final, last_time)"
    "ts = \<lparr>tt_attestation = att, tt_bindings = c\<rparr> # rest"
  using assms by (auto simp: bind_eq_Some_conv object_entries_Some split: if_splits)

lemma parsed_fields [simp]:
  "generation_of obj = return g \<longleftrightarrow> obj_get ''generation'' obj = Some (PInt g) \<and> 1 \<le> g"
  "hash_field k obj = return h \<longleftrightarrow> obj_get k obj = Some (PStr h) \<and> is_sha256 h"
  "transition_list n obj = return vs \<longleftrightarrow> obj_get ''transitions'' obj = Some (PList vs)
     \<and> length vs \<le> max_transitions \<and> int (length vs) = n - 1"
  by (auto simp: generation_of_def hash_field_def transition_list_def split: option.splits pyval.splits if_splits)

lemma parse_trust_stateE:
  assumes "parse_trust_state R now obj = return s"
  obtains g et ut vs where "obj_get ''generation'' obj = Some (PInt (os_generation s))" "1 \<le> os_generation s"
    "state_time R now (obj_get ''enrolled_at'' obj) = Some et" "state_time R now (obj_get ''updated_at'' obj) = Some ut"
    "et \<le> ut" "bindings_of (obj_get ''initial_bindings'' obj) = Some (os_initial_bindings s)"
    "bindings_of (obj_get ''bindings'' obj) = Some (os_bindings s)"
    "obj_get ''initial_bindings_hash'' obj = Some (PStr (os_initial_hash s))"
    "obj_get ''bindings_hash'' obj = Some (PStr (os_bindings_hash s))"
    "os_initial_hash s = hash_of_bindings R (os_initial_bindings s)"
    "os_bindings_hash s = hash_of_bindings R (os_bindings s)"
    "obj_get ''transitions'' obj = Some (PList vs)" "int (length vs) = os_generation s - 1" "length vs \<le> max_transitions"
    "check_transitions R now 1 (os_initial_bindings s) et vs = return (os_transitions s, os_bindings s, ut)"
    "os_enrolled_at s = text_of (obj_get ''enrolled_at'' obj)" "os_updated_at s = text_of (obj_get ''updated_at'' obj)"
  using assms by (auto simp: parse_trust_state_def split: if_splits)

lemma check_transitions_length:
  "check_transitions R now index b time vs = return (ts, final, last_time) \<Longrightarrow> length ts = length vs"
proof (induction vs arbitrary: index b time ts)
  case (Cons v vs)
  from Cons.prems show ?case by (rule check_transitions_ConsE) (use Cons.IH in fastforce)
qed simp

subsection \<open>Reading back what is written\<close>

lemma get_mapped: "dict_get k obj = Some v \<Longrightarrow> \<forall>kv \<in> set obj. exact (snd kv) \<Longrightarrow> exact v"
  using dict_get_in_set by fastforce

lemma all_entries_map: "all_entries f (map g xs) = Some ys \<Longrightarrow> (\<And>x y. f (g x) = Some y \<Longrightarrow> y = x) \<Longrightarrow> ys = xs"
  by (induction xs arbitrary: ys) (auto split: option.splits)

definition binding_entry :: "pystr \<times> pystr list \<Rightarrow> pystr \<times> pyval" where
  "binding_entry e = (fst e, PList (map PStr (snd e)))"

lemma bindings_entries: "bindings_object b = json_of (map binding_entry b)"
  by (simp add: bindings_object_def json_of_def split_beta binding_entry_def comp_def)

lemma operator_entry_read: "operator_entry (binding_entry e) = Some y \<Longrightarrow> y = e"
  by (cases e) (auto simp: operator_entry_def binding_entry_def key_id_list_def comp_def Let_def split: if_splits)

lemma bindings_of_object: "bindings_of (Some (bindings_object b)) = Some c \<Longrightarrow> c = b"
  by (auto simp: bindings_of_def bindings_entries split: option.splits if_splits
      dest!: all_entries_map [OF _ operator_entry_read])

lemma exact_bindings [simp]: "exact (bindings_object b)"
  by (auto simp: bindings_object_def)

lemma check_transitions_exact:
  assumes "check_transitions R now index b time vs = return (ts, final, last_time)" "\<forall>v \<in> set vs. exact v"
  shows "\<forall>t \<in> set ts. exact (transition_object t)"
  using assms
proof (induction vs arbitrary: index b time ts)
  case (Cons v vs)
  from Cons.prems(1) show ?case
  proof (rule check_transitions_ConsE)
    fix t att c signed_at rest
    assume 1: "object_entries v = Some t" "obj_get ''attestation'' t = Some (json_of att)"
      "check_transitions R now (index + 1) c signed_at vs = return (rest, final, last_time)"
      "ts = \<lparr>tt_attestation = att, tt_bindings = c\<rparr> # rest"
    have "exact (json_of t)" using 1(1) Cons.prems(2) by (simp add: object_entries_Some)
    then have "exact (json_of att)" using get_mapped [OF 1(2)] by (simp add: exact_json_of)
    then have "exact (transition_object \<lparr>tt_attestation = att, tt_bindings = c\<rparr>)"
      by (simp add: transition_object_def exact_json_of)
    then show ?thesis using Cons.IH [OF 1(3)] Cons.prems(2) 1(4) by simp
  qed
qed simp

lemma check_transitions_read:
  assumes "check_transitions R now index b time (map transition_object us) = return (ts, final, last_time)"
  shows "ts = us"
  using assms
proof (induction us arbitrary: index b time ts)
  case (Cons u us)
  from Cons.prems have "check_transitions R now index b time (transition_object u # map transition_object us)
      = return (ts, final, last_time)" by simp
  then show ?case
  proof (rule check_transitions_ConsE)
    fix t att c signed_at rest
    assume 1: "object_entries (transition_object u) = Some t" "obj_get ''attestation'' t = Some (json_of att)"
      "bindings_of (obj_get ''bindings'' t) = Some c"
      "check_transitions R now (index + 1) c signed_at (map transition_object us) = return (rest, final, last_time)"
      "ts = \<lparr>tt_attestation = att, tt_bindings = c\<rparr> # rest"
    have t: "t = [(lit ''attestation'', json_of (tt_attestation u)), (lit ''bindings'', bindings_object (tt_bindings u))]"
      using 1(1) by (simp add: transition_object_def)
    have "object_entries (json_of (tt_attestation u)) = Some att" using 1(2) t by simp
    then have "att = tt_attestation u" by simp
    moreover have "c = tt_bindings u" using 1(3) t by (auto dest: bindings_of_object)
    ultimately show ?thesis using Cons.IH [OF 1(4)] 1(5) by simp
  qed
qed simp

lemma trust_object_entries:
  assumes "trust_object s = json_of obj"
  shows "obj_get ''generation'' obj = Some (PInt (os_generation s))"
    "obj_get ''enrolled_at'' obj = Some (PStr (os_enrolled_at s))"
    "obj_get ''updated_at'' obj = Some (PStr (os_updated_at s))"
    "obj_get ''initial_bindings'' obj = Some (bindings_object (os_initial_bindings s))"
    "obj_get ''initial_bindings_hash'' obj = Some (PStr (os_initial_hash s))"
    "obj_get ''bindings'' obj = Some (bindings_object (os_bindings s))"
    "obj_get ''bindings_hash'' obj = Some (PStr (os_bindings_hash s))"
    "obj_get ''transitions'' obj = Some (PList (map transition_object (os_transitions s)))"
proof -
  have "object_entries (trust_object s) = Some obj" using assms by simp
  then have "obj = [(lit ''schema_name'', PStr (lit ''defiant.operator.trust_state'')), (lit ''schema_version'', PStr (lit ''0.1.0'')),
      (lit ''mode'', PStr (lit ''signed_required'')), (lit ''generation'', PInt (os_generation s)),
      (lit ''enrolled_at'', PStr (os_enrolled_at s)), (lit ''updated_at'', PStr (os_updated_at s)),
      (lit ''initial_bindings'', bindings_object (os_initial_bindings s)),
      (lit ''initial_bindings_hash'', PStr (os_initial_hash s)),
      (lit ''bindings'', bindings_object (os_bindings s)), (lit ''bindings_hash'', PStr (os_bindings_hash s)),
      (lit ''transitions'', PList (map transition_object (os_transitions s)))]"
    by (simp add: trust_object_def)
  then show "obj_get ''generation'' obj = Some (PInt (os_generation s))"
    "obj_get ''enrolled_at'' obj = Some (PStr (os_enrolled_at s))"
    "obj_get ''updated_at'' obj = Some (PStr (os_updated_at s))"
    "obj_get ''initial_bindings'' obj = Some (bindings_object (os_initial_bindings s))"
    "obj_get ''initial_bindings_hash'' obj = Some (PStr (os_initial_hash s))"
    "obj_get ''bindings'' obj = Some (bindings_object (os_bindings s))"
    "obj_get ''bindings_hash'' obj = Some (PStr (os_bindings_hash s))"
    "obj_get ''transitions'' obj = Some (PList (map transition_object (os_transitions s)))" by simp_all
qed

lemma trust_state_ofE:
  assumes "trust_state_of R now v = return s"
  obtains obj where "exact (json_of obj)" "exact v \<Longrightarrow> v = json_of obj" "parse_trust_state R now obj = return s"
    "state_object max_trust_state_bytes v = Some obj"
  using assms by (auto simp: trust_state_of_def dest: state_objectD)

lemma trust_read_back:
  assumes "trust_state_of R now (trust_object u) = return t" "exact (trust_object u)"
  shows "t = u"
proof -
  from assms(1) obtain obj where o: "trust_object u = json_of obj" "parse_trust_state R now obj = return t"
    by (rule trust_state_ofE) (use assms(2) in auto)
  note g = trust_object_entries [OF o(1)]
  from o(2) show ?thesis
  proof (rule parse_trust_stateE)
    fix et ut vs
    assume p: "obj_get ''generation'' obj = Some (PInt (os_generation t))"
      "bindings_of (obj_get ''initial_bindings'' obj) = Some (os_initial_bindings t)"
      "bindings_of (obj_get ''bindings'' obj) = Some (os_bindings t)"
      "obj_get ''initial_bindings_hash'' obj = Some (PStr (os_initial_hash t))"
      "obj_get ''bindings_hash'' obj = Some (PStr (os_bindings_hash t))"
      "obj_get ''transitions'' obj = Some (PList vs)"
      "check_transitions R now 1 (os_initial_bindings t) et vs = return (os_transitions t, os_bindings t, ut)"
      "os_enrolled_at t = text_of (obj_get ''enrolled_at'' obj)" "os_updated_at t = text_of (obj_get ''updated_at'' obj)"
    have "os_transitions t = os_transitions u"
      using p(6,7) g(8) by (auto dest: check_transitions_read)
    moreover have "os_initial_bindings t = os_initial_bindings u" "os_bindings t = os_bindings u"
      using p(2,3) g(4,6) by (auto dest: bindings_of_object)
    ultimately show ?thesis using p(1,4,5,8,9) g by simp
  qed
qed

lemma trust_state_exact:
  assumes "trust_state_of R now v = return s"
  shows "exact (trust_object s)"
  using assms
proof (rule trust_state_ofE)
  fix obj assume o: "exact (json_of obj)" "parse_trust_state R now obj = return s"
  from o(2) show ?thesis
  proof (rule parse_trust_stateE)
    fix et ut vs
    assume vs: "obj_get ''transitions'' obj = Some (PList vs)"
      "check_transitions R now 1 (os_initial_bindings s) et vs = return (os_transitions s, os_bindings s, ut)"
    have "\<forall>v \<in> set vs. exact v" using get_mapped [OF vs(1)] o(1) by (simp add: exact_json_of)
    then have "\<forall>t \<in> set (os_transitions s). exact (transition_object t)"
      by (rule check_transitions_exact [OF vs(2)])
    then show ?thesis by (simp add: trust_object_def exact_json_of)
  qed
qed

lemma check_transitions_unique:
  "check_transitions R now index b time vs = return (ts, x, y) \<Longrightarrow>
   check_transitions R now' index b time vs = return (us, z, w) \<Longrightarrow> us = ts"
proof (induction vs arbitrary: index b time ts us)
  case (Cons v vs)
  from Cons.prems(1) show ?case
  proof (rule check_transitions_ConsE)
    fix t att c at' rest
    assume 1: "object_entries v = Some t" "obj_get ''attestation'' t = Some (json_of att)"
      "bindings_of (obj_get ''bindings'' t) = Some c" "state_time R now (obj_get ''signed_at'' att) = Some at'"
      "check_transitions R now (index + 1) c at' vs = return (rest, x, y)"
      "ts = \<lparr>tt_attestation = att, tt_bindings = c\<rparr> # rest"
    from Cons.prems(2) show ?thesis
    proof (rule check_transitions_ConsE)
      fix t2 att2 c2 at2 rest2
      assume 2: "object_entries v = Some t2" "obj_get ''attestation'' t2 = Some (json_of att2)"
        "bindings_of (obj_get ''bindings'' t2) = Some c2" "state_time R now' (obj_get ''signed_at'' att2) = Some at2"
        "check_transitions R now' (index + 1) c2 at2 vs = return (rest2, z, w)"
        "us = \<lparr>tt_attestation = att2, tt_bindings = c2\<rparr> # rest2"
      have "t2 = t" using 1(1) 2(1) by simp
      then have "object_entries (json_of att2) = object_entries (json_of att)" "c2 = c" using 1(2,3) 2(2,3) by simp_all
      then have e: "att2 = att" "c2 = c" by simp_all
      then have "at2 = at'" using 1(4) 2(4) by (auto dest: state_time_unique)
      then show ?thesis using Cons.IH [OF 1(5), of rest2] 2(5,6) 1(6) e by simp
    qed
  qed
qed simp

lemma trust_state_unique:
  assumes "trust_state_of R now v = return s" "trust_state_of R now' v = return s'"
  shows "s' = s"
proof -
  obtain obj where o: "parse_trust_state R now obj = return s" "parse_trust_state R now' obj = return s'"
    using assms by (auto simp: trust_state_of_def)
  from o(1) show ?thesis
  proof (rule parse_trust_stateE)
    fix et ut vs
    assume 1: "obj_get ''generation'' obj = Some (PInt (os_generation s))" "state_time R now (obj_get ''enrolled_at'' obj) = Some et"
      "bindings_of (obj_get ''initial_bindings'' obj) = Some (os_initial_bindings s)"
      "bindings_of (obj_get ''bindings'' obj) = Some (os_bindings s)"
      "obj_get ''initial_bindings_hash'' obj = Some (PStr (os_initial_hash s))"
      "obj_get ''bindings_hash'' obj = Some (PStr (os_bindings_hash s))" "obj_get ''transitions'' obj = Some (PList vs)"
      "check_transitions R now 1 (os_initial_bindings s) et vs = return (os_transitions s, os_bindings s, ut)"
      "os_enrolled_at s = text_of (obj_get ''enrolled_at'' obj)" "os_updated_at s = text_of (obj_get ''updated_at'' obj)"
    from o(2) show ?thesis
    proof (rule parse_trust_stateE)
      fix et2 ut2 vs2
      assume 2: "obj_get ''generation'' obj = Some (PInt (os_generation s'))"
        "state_time R now' (obj_get ''enrolled_at'' obj) = Some et2"
        "bindings_of (obj_get ''initial_bindings'' obj) = Some (os_initial_bindings s')"
        "bindings_of (obj_get ''bindings'' obj) = Some (os_bindings s')"
        "obj_get ''initial_bindings_hash'' obj = Some (PStr (os_initial_hash s'))"
        "obj_get ''bindings_hash'' obj = Some (PStr (os_bindings_hash s'))" "obj_get ''transitions'' obj = Some (PList vs2)"
        "check_transitions R now' 1 (os_initial_bindings s') et2 vs2 = return (os_transitions s', os_bindings s', ut2)"
        "os_enrolled_at s' = text_of (obj_get ''enrolled_at'' obj)" "os_updated_at s' = text_of (obj_get ''updated_at'' obj)"
      have e: "et2 = et" "vs2 = vs" "os_initial_bindings s' = os_initial_bindings s"
        using 1 2 by (auto dest: state_time_unique)
      have "os_transitions s' = os_transitions s"
        using check_transitions_unique [OF 1(8)] 2(8) e by simp
      then show ?thesis using 1 2 e by simp
    qed
  qed
qed

subsection \<open>Operations on the file\<close>

definition trust_stored :: "runtime \<Rightarrow> state_file \<Rightarrow> trust_state \<Rightarrow> bool" where
  "trust_stored R f s \<longleftrightarrow> (\<exists>v now. f = Some v \<and> trust_state_of R now v = return s)"

lemma trust_stored_unique: "trust_stored R f s \<Longrightarrow> trust_stored R f t \<Longrightarrow> t = s"
  by (auto simp: trust_stored_def dest: trust_state_unique)

lemma get_trust_Some: "get_trust R now f = return (Some s) \<Longrightarrow> trust_stored R f s"
  by (auto simp: get_trust_def trust_stored_def split: option.splits)

lemma get_trust_None [simp]: "get_trust R now f = return None \<longleftrightarrow> f = None"
  by (auto simp: get_trust_def split: option.splits)

lemma write_trust_cases:
  assumes "write_trust R env now s f = (r, g)" "exact (trust_object s)"
  obtains e where "r = raise e" "g = f"
  | "r = return ()" "g = Some (trust_object s)" "trust_state_of R now (trust_object s) = return s"
proof (cases "trust_state_of R now (trust_object s)")
  case (Inl e)
  then show ?thesis using assms(1) by (intro that(1) [of e]) (simp_all add: write_trust_def bindA_def)
next
  case (Inr t)
  moreover from this have "t = s" using assms(2) by (rule trust_read_back)
  ultimately show ?thesis
    using assms that by (cases "te_fits env (trust_object s)") (auto simp: write_trust_def bindA_def checkA_def)
qed

lemma wf_get: "wf_dict d \<Longrightarrow> (k, v) \<in> set d \<Longrightarrow> dict_get k d = Some v"
  by (simp add: dict_get_set_iff)

lemma bounded_text_PStr: "bounded_text n v = return s \<Longrightarrow> v = Some (PStr s)"
  by (auto simp: bounded_text_def split: option.splits pyval.splits if_splits)

lemma positive_field_PInt: "positive_field f att = return i \<Longrightarrow> obj_get f att = Some (PInt i)"
  by (auto simp: positive_field_def split: option.splits pyval.splits if_splits)

text \<open>A validated transition has only text and integers, so it is kept as it is.\<close>

lemma validated_transition_exact:
  assumes "validate_transition R now schema purpose f h c att = return ()" "wf_dict att"
  shows "exact (json_of att)"
proof -
  have v: "allR (\<lambda>f. bindR (bounded_text max_note_chars (obj_get f att)) (\<lambda>_. return ()))
        [''key_id'', ''operator'', ''note'', f, h, ''signature''] = return ()"
    "\<exists>i. positive_field ''from_generation'' att = return i" "\<exists>i. positive_field ''to_generation'' att = return i"
    "identity_timestamp R (obj_get ''signed_at'' att) = return ()"
    "has_value ''schema_name'' schema att" "has_value ''schema_version'' ''0.1.0'' att"
    "has_value ''algorithm'' ''Ed25519'' att" "has_value ''purpose'' purpose att"
    using assms(1) by (auto simp: validate_transition_def split: if_splits)
  define text_names where "text_names = {''schema_name'', ''schema_version'', ''algorithm'', ''purpose'', ''key_id'',
    ''signed_at'', ''operator'', ''note'', f, h, ''signature''}"
  have texts: "\<exists>s. obj_get k att = Some (PStr s)" if "k \<in> text_names" for k
    using v(1,4-8) that by (auto simp: has_value_def identity_timestamp_def text_names_def dest!: bounded_text_PStr)
  have ints: "\<exists>i. obj_get k att = Some (PInt i)" if "k \<in> {''from_generation'', ''to_generation''}" for k
    using v(2,3) that by (auto dest!: positive_field_PInt)
  have keys: "set (map fst att) = set (transition_fields f h)"
    using assms(1) by (simp add: validate_transition_def split: if_splits)
  have "exact v" if "(k, v) \<in> set att" for k v
  proof -
    have "k \<in> set (transition_fields f h)" using that keys by force
    then have "k \<in> lit ` (text_names \<union> {''from_generation'', ''to_generation''})"
      unfolding text_names_def by (simp add: transition_fields_def insert_commute)
    then obtain k' where k': "k = lit k'" "k' \<in> text_names \<union> {''from_generation'', ''to_generation''}"
      by (rule imageE)
    from k'(2) have "(\<exists>s. obj_get k' att = Some (PStr s)) \<or> (\<exists>i. obj_get k' att = Some (PInt i))"
      by (rule UnE) (use texts ints in blast)+
    then show ?thesis using wf_get [OF assms(2) that] k'(1) by auto
  qed
  then show ?thesis by (auto simp: exact_json_of)
qed

lemma rotated_exact:
  "exact (trust_object s) \<Longrightarrow> exact (json_of att) \<Longrightarrow> exact (trust_object (rotated R U att s))"
  by (auto simp: trust_object_def exact_json_of rotated_def transition_object_def)

lemma enrolled_exact: "enrolled R stamp T = return s \<Longrightarrow> exact (trust_object s)"
  by (auto simp: enrolled_def Let_def trust_object_def exact_json_of)

lemma verify_bindings: "verify_trust R now T s = return u \<Longrightarrow> policy_bindings T = os_bindings s"
  by (auto simp: verify_trust_def split: if_splits)

text \<open>The only change a rotation makes.\<close>

lemma rotate_trust_cases:
  assumes "rotate_trust R env T U att f = (r, g)" "wf_dict att"
  obtains "g = f"
  | s where "trust_stored R f s" "g = Some (trust_object (rotated R U att s))"
    "trust_stored R g (rotated R U att s)" "r = return (rotated R U att s)"
    "policy_bindings T = os_bindings s" "is_additive (os_bindings s) (policy_bindings U)" "bound_key att (os_bindings s)"
    "require_trust_transition R T (te_clock env 3) (Some att) (os_generation s) (os_bindings_hash s)
       (hash_of_bindings R (policy_bindings U)) (text_of (obj_get ''operator'' att)) (text_of (obj_get ''note'' att)) = return ()"
proof (cases "g = f")
  case False
  then obtain s t where 1: "get_trust R (te_clock env 1) f = return (Some s)"
    "verify_trust R (te_clock env 2) T s = return ()" "is_additive_successor T U" "rotation_signer s att"
    "require_trust_transition R T (te_clock env 3) (Some att) (os_generation s) (os_bindings_hash s)
       (hash_of_bindings R (policy_bindings U)) (text_of (obj_get ''operator'' att)) (text_of (obj_get ''note'' att)) = return ()"
    "trust_state_of R (te_clock env 4) (trust_object (rotated R U att s)) = return t"
    "bindA (write_trust R env (te_clock env 6) t) (\<lambda>_. okA t) f = (r, g)"
    using assms(1)
    by (auto simp: rotate_trust_def bindA_def mapErr_def split: if_splits sum.splits option.splits)
  have s: "trust_stored R f s" using 1(1) by (rule get_trust_Some)
  then have "exact (trust_object s)" by (auto simp: trust_stored_def dest: trust_state_exact)
  moreover have "exact (json_of att)"
    using 1(5) assms(2) by (auto simp: require_trust_transition_def validate_trust_transition_def
        intro: validated_transition_exact)
  ultimately have e: "exact (trust_object (rotated R U att s))" by (rule rotated_exact)
  then have t: "t = rotated R U att s" by (rule trust_read_back [OF 1(6)])
  obtain r' g' where w: "write_trust R env (te_clock env 6) t f = (r', g')" by (cases "write_trust R env (te_clock env 6) t f") auto
  from w e [folded t] show ?thesis
  proof (cases rule: write_trust_cases)
    case (1 e)
    then show ?thesis using \<open>bindA _ _ f = (r, g)\<close> w False by (simp add: bindA_def)
  next
    case 2
    then have g: "g = Some (trust_object t)" "r = return t" using \<open>bindA _ _ f = (r, g)\<close> w by (simp_all add: bindA_def)
    have "policy_bindings T = os_bindings s" using 1(2) by (rule verify_bindings)
    then show ?thesis
      using that(2) [OF s] g t 1(3,4,5) 2(3)
      by (auto simp: trust_stored_def is_additive_successor_def rotation_signer_def)
  qed
qed (use that in blast)

lemma resolve_trust_cases:
  assumes "resolve_trust R env d candidate early f = (r, g)"
  obtains "g = f" | s T where "f = None" "candidate = Some T" "enrolled R (te_stamp env) T = return s" "trust_stored R g s"
proof (cases "g = f")
  case False
  then obtain T s r' where 1: "candidate = Some T" "f = None" "enrolled R (te_stamp env) T = return s"
    "write_trust R env (te_clock env 3) s f = (r', g)"
    using assms
    by (auto simp: resolve_trust_def bindA_def get_trust_def [of R "te_clock env 2"]
        split: if_splits sum.splits option.splits prod.splits)
  from 1(4) enrolled_exact [OF 1(3)] show ?thesis
    by (cases rule: write_trust_cases) (use 1 False that(2) in \<open>auto simp: trust_stored_def\<close>)
qed (use that in blast)

subsection \<open>Operator trust is a ratchet\<close>

text \<open>The uses of a trust file; a call that fails is a use as well.\<close>

datatype trust_use =
    ResolveTrust trust_env approval_data "trust_policy option" state_file
  | RotateTrust trust_env trust_policy trust_policy attestation

definition trust_step :: "runtime \<Rightarrow> trust_use \<Rightarrow> state_file \<Rightarrow> state_file" where
  "trust_step R u f = (case u of
     ResolveTrust env d candidate early \<Rightarrow> snd (resolve_trust R env d candidate early f)
   | RotateTrust env T U att \<Rightarrow> snd (rotate_trust R env T U att f))"

text \<open>An attestation is a dictionary: its keys are distinct.\<close>

definition trust_use_ok :: "trust_use \<Rightarrow> bool" where
  "trust_use_ok u = (case u of ResolveTrust _ _ _ _ \<Rightarrow> True | RotateTrust _ _ _ att \<Rightarrow> wf_dict att)"

definition trust_core :: "trust_state \<Rightarrow> bindings \<times> trust_transition list" where
  "trust_core s = (os_bindings s, os_transitions s)"

text \<open>
  A transition is signed under a policy when its signature verifies over its statement, under a key the
  policy trusts for the operator it names; and it names the generation and both hashes.
\<close>

definition signed_under :: "trust_policy \<Rightarrow> pystr \<Rightarrow> attestation \<Rightarrow> bool" where
  "signed_under T domain att \<longleftrightarrow> (\<exists>key signature.
     trusted_key T (text_of (obj_get ''operator'' att)) (text_of (obj_get ''key_id'' att)) = Some key
     \<and> decode_signature (text_of (obj_get ''signature'' att)) = return signature
     \<and> tp_verify T key signature (statement_text domain att))"

definition names_change :: "attestation \<Rightarrow> int \<Rightarrow> string \<times> pystr \<Rightarrow> string \<times> pystr \<Rightarrow> bool" where
  "names_change att generation before after \<longleftrightarrow>
     obj_get ''from_generation'' att = Some (PInt generation) \<and> obj_get ''to_generation'' att = Some (PInt (generation + 1))
     \<and> text_of (obj_get (fst before) att) = snd before \<and> text_of (obj_get (fst after) att) = snd after"

lemma require_signed_transitionD:
  assumes "require_signed_transition T domain att generation [before, after] operator remark = return u"
  shows "signed_under T domain att" "names_change att generation before after"
    "text_of (obj_get ''operator'' att) = py_strip operator"
proof -
  from assms have e: "allR (expect_field att) ([before, after]
      @ [(''operator'', py_strip operator), (''note'', py_strip remark)]) = return ()"
    and n: "obj_get ''from_generation'' att = Some (PInt generation)"
      "obj_get ''to_generation'' att = Some (PInt (generation + 1))"
    by (auto simp: require_signed_transition_def split: if_splits)
  obtain key where k: "trusted_key T (py_strip operator) (text_of (obj_get ''key_id'' att)) = Some key"
    "signature_valid T key domain att = return ()"
    using assms by (auto simp: require_signed_transition_def split: if_splits option.splits)
  show o: "text_of (obj_get ''operator'' att) = py_strip operator"
    using e by (auto dest!: expect_fieldD)
  show "signed_under T domain att" using k o by (auto simp: signed_under_def signature_valid_def)
  show "names_change att generation before after"
    using e n by (cases before; cases after) (auto simp: names_change_def dest!: expect_fieldD)
qed

lemma require_trust_transitionD:
  assumes "require_trust_transition R T now (Some att) generation from_hash to_hash operator remark = return u"
  shows "signed_under T trust_domain att"
    "names_change att generation (''from_bindings_hash'', from_hash) (''to_bindings_hash'', to_hash)"
  using assms by (auto simp: require_trust_transition_def dest: require_signed_transitionD)

text \<open>
  One rotation, by one of the uses \<open>S\<close>: the bindings only grow, to those of its new policy, and its
  attestation, which is added, names both mappings, is signed under its current policy, whose keys are
  the mapping before it, and passes every other check of its verification.
\<close>

definition signed_rotation ::
  "runtime \<Rightarrow> trust_use set \<Rightarrow> bindings \<times> trust_transition list \<Rightarrow> bindings \<times> trust_transition list \<Rightarrow> bool" where
  "signed_rotation R S c d \<longleftrightarrow> is_additive (fst c) (fst d)
     \<and> (\<exists>env T U att. RotateTrust env T U att \<in> S \<and> policy_bindings T = fst c \<and> policy_bindings U = fst d
         \<and> snd d = snd c @ [\<lparr>tt_attestation = att, tt_bindings = fst d\<rparr>] \<and> bound_key att (fst c)
         \<and> signed_under T trust_domain att
         \<and> names_change att (int (length (snd c)) + 1) (''from_bindings_hash'', hash_of_bindings R (fst c))
             (''to_bindings_hash'', hash_of_bindings R (fst d))
         \<and> require_trust_transition R T (te_clock env 3) (Some att) (int (length (snd c)) + 1) (hash_of_bindings R (fst c))
             (hash_of_bindings R (fst d)) (text_of (obj_get ''operator'' att)) (text_of (obj_get ''note'' att)) = return ())"

lemma stored_generation:
  assumes "trust_stored R f s"
  shows "os_generation s = int (length (os_transitions s)) + 1" "os_bindings_hash s = hash_of_bindings R (os_bindings s)"
proof -
  obtain v now where "trust_state_of R now v = return s" using assms by (auto simp: trust_stored_def)
  then have "os_generation s = int (length (os_transitions s)) + 1 \<and> os_bindings_hash s = hash_of_bindings R (os_bindings s)"
    by (auto elim!: trust_state_ofE parse_trust_stateE dest!: check_transitions_length)
  then show "os_generation s = int (length (os_transitions s)) + 1"
    "os_bindings_hash s = hash_of_bindings R (os_bindings s)" by simp_all
qed

lemma trust_step_advances:
  assumes s: "trust_stored R f s" and u: "trust_use_ok u \<and> u \<in> S"
  shows "\<exists>t. trust_stored R (trust_step R u f) t
    \<and> (os_generation t = os_generation s \<and> trust_core t = trust_core s
      \<or> os_generation t = os_generation s + 1 \<and> signed_rotation R S (trust_core s) (trust_core t))"
proof (cases u)
  case (ResolveTrust env d candidate early)
  obtain r g where "resolve_trust R env d candidate early f = (r, g)" by (rule prod.exhaust)
  moreover from this have "g = f" by (rule resolve_trust_cases) (use s in \<open>auto simp: trust_stored_def\<close>)
  ultimately show ?thesis using s ResolveTrust by (auto simp: trust_step_def)
next
  case (RotateTrust env T U att)
  obtain r g where g: "rotate_trust R env T U att f = (r, g)" by (rule prod.exhaust)
  from g show ?thesis
  proof (rule rotate_trust_cases)
    show "wf_dict att" using u RotateTrust by (simp add: trust_use_ok_def)
    assume "g = f"
    then show ?thesis using s g RotateTrust by (auto simp: trust_step_def)
  next
    fix s'
    assume 1: "trust_stored R f s'" "trust_stored R g (rotated R U att s')"
      "policy_bindings T = os_bindings s'" "is_additive (os_bindings s') (policy_bindings U)" "bound_key att (os_bindings s')"
      "require_trust_transition R T (te_clock env 3) (Some att) (os_generation s') (os_bindings_hash s')
       (hash_of_bindings R (policy_bindings U)) (text_of (obj_get ''operator'' att)) (text_of (obj_get ''note'' att)) = return ()"
    have e: "s' = s" by (rule trust_stored_unique [OF s 1(1)])
    have "signed_rotation R S (trust_core s) (trust_core (rotated R U att s))"
      using 1(3-6) require_trust_transitionD [OF 1(6)] stored_generation [OF s] u unfolding e RotateTrust signed_rotation_def
      by (intro conjI exI [of _ env] exI [of _ T] exI [of _ U] exI [of _ att]) (simp_all add: trust_core_def rotated_def)
    then show ?thesis using 1(2) g RotateTrust e by (auto simp: trust_step_def rotated_def)
  qed
qed

interpretation trust_ratchet: ratchet "trust_stored R" "trust_step R" "\<lambda>u. trust_use_ok u \<and> u \<in> S" os_generation trust_core
    "signed_rotation R S" for R S
  by unfold_locales (rule trust_step_advances)

lemma covers_refl: "covers b b" if "wf_dict b"
  using that by (auto simp: covers_def list_all_iff dest: wf_get)

lemma covers_iff: "covers b c \<longleftrightarrow> (\<forall>k ks. (k, ks) \<in> set b \<longrightarrow> (\<exists>ls. dict_get k c = Some ls \<and> set ks \<subseteq> set ls))"
  by (fastforce simp: covers_def list_all_iff split: option.splits)

lemma covers_trans: "covers b c \<Longrightarrow> covers c d \<Longrightarrow> covers b d"
  unfolding covers_iff by (meson dict_get_in_set order_trans)

lemma rotations_cover:
  "(signed_rotation R S)\<^sup>*\<^sup>* c d \<Longrightarrow> wf_dict (fst c) \<Longrightarrow> covers (fst c) (fst d) \<and> (\<exists>ts. snd d = snd c @ ts)"
  by (induction rule: rtranclp_induct)
    (auto simp: covers_refl signed_rotation_def is_additive_def intro: covers_trans)

end
