(* ===== verification/OperatorSigning.thy ===== *)
theory OperatorSigning
  imports OperatorKeys
begin

text \<open>
  Signing (\<open>operator_identity.py\<close>): the statements an operator signs, for an approval, a sealed
  authorization, and the rotation of operator trust or of an authority profile. Loading and
  decrypting a private key belong to a library: a \<open>signing_key\<close> is its raw public key in hexadecimal
  and the function that signs a text.
\<close>

record signing_key =
  sk_public :: pystr
  sk_sign :: "pystr \<Rightarrow> nat list"

subsection \<open>Base64\<close>

definition b64_char :: "nat \<Rightarrow> nat" where
  "b64_char v = (if v < 26 then v + 65 else if v < 52 then v + 71 else if v < 62 then v - 4
     else if v = 62 then 43 else 47)"

fun b64_encode :: "nat list \<Rightarrow> pystr" where
  "b64_encode [] = []"
| "b64_encode [a] = [b64_char (a div 4), b64_char (a mod 4 * 16), 61, 61]"
| "b64_encode [a, b] = [b64_char (a div 4), b64_char (a mod 4 * 16 + b div 16), b64_char (b mod 16 * 4), 61]"
| "b64_encode (a # b # c # rest) =
     [b64_char (a div 4), b64_char (a mod 4 * 16 + b div 16), b64_char (b mod 16 * 4 + c div 64),
      b64_char (c mod 64)] @ b64_encode rest"

subsection \<open>Statements\<close>

definition text_fields :: "(string \<times> pystr) list \<Rightarrow> attestation" where
  "text_fields fvs = map (\<lambda>(f, v). (lit f, PStr v)) fvs"

definition with_signature :: "signing_key \<Rightarrow> pystr \<Rightarrow> attestation \<Rightarrow> attestation" where
  "with_signature k domain statement =
     statement @ [(lit ''signature'', PStr (lit ''base64:'' @ b64_encode (sk_sign k (domain @ encode (json_of statement)))))]"

definition signing_text :: "nat \<Rightarrow> pystr \<Rightarrow> (identity_error, pystr) result" where
  "signing_text maximum s = bounded_text maximum (Some (PStr (py_strip s)))"

definition sign_operator_action ::
  "runtime \<Rightarrow> signing_key \<Rightarrow> pystr \<Rightarrow> approval \<Rightarrow> pystr \<Rightarrow> pystr \<Rightarrow> pystr \<Rightarrow> pystr
   \<Rightarrow> (identity_error, attestation) result" where
  "sign_operator_action R k stamp p purpose outcome operator remark =
     (if purpose \<notin> {decision_purpose, reconciliation_purpose} then raise AttestationSchema
      else bindR (signing_text max_operator_chars operator) (\<lambda>operator.
        bindR (signing_text max_note_chars remark) (\<lambda>remark.
        bindR (signing_text 64 outcome) (\<lambda>outcome.
        bindR (identity_timestamp R (Some (PStr stamp))) (\<lambda>_.
          return (with_signature k attestation_domain (text_fields
            [(''schema_name'', lit ''defiant.operator.attestation''), (''schema_version'', lit ''0.1.0''),
             (''algorithm'', lit ''Ed25519''), (''purpose'', purpose),
             (''key_id'', public_key_id R (sk_public k)), (''signed_at'', stamp),
             (''operator'', operator), (''note'', remark), (''outcome'', outcome),
             (''approval_id'', ap_approval_id p), (''action_id'', ap_action_id p),
             (''request_id'', ap_request_id p), (''authorization_hash'', ap_authorization_hash p)])))))))"

definition sign_authorization_reconciliation ::
  "runtime \<Rightarrow> signing_key \<Rightarrow> pystr \<Rightarrow> authorization_subject \<Rightarrow> pystr \<Rightarrow> pystr \<Rightarrow> pystr
   \<Rightarrow> (identity_error, attestation) result" where
  "sign_authorization_reconciliation R k stamp s outcome operator remark =
     bindR (signing_text max_operator_chars operator) (\<lambda>operator.
     bindR (signing_text max_note_chars remark) (\<lambda>remark.
     bindR (signing_text 64 outcome) (\<lambda>outcome.
       if outcome \<notin> set reconciliation_outcomes then raise AttestationOutcome
       else bindR (identity_timestamp R (Some (PStr stamp))) (\<lambda>_.
         return (with_signature k authorization_domain (text_fields
           [(''schema_name'', lit ''defiant.operator.authorization_reconciliation''),
            (''schema_version'', lit ''0.1.0''), (''algorithm'', lit ''Ed25519''),
            (''purpose'', lit ''authorization_reconciliation''),
            (''key_id'', public_key_id R (sk_public k)), (''signed_at'', stamp),
            (''operator'', operator), (''note'', remark), (''outcome'', outcome),
            (''authority_record_id'', as_record_id s), (''authority_record_hash'', as_record_hash s),
            (''action_id'', as_action_id s), (''request_id'', as_request_id s),
            (''authorization_hash'', as_authorization_hash s)]))))))"

text \<open>The statement of a transition of either kind.\<close>

definition sign_transition ::
  "runtime \<Rightarrow> signing_key \<Rightarrow> pystr \<Rightarrow> pystr \<Rightarrow> string \<Rightarrow> string \<Rightarrow> string \<times> pystr \<Rightarrow> string \<times> pystr
   \<Rightarrow> int \<Rightarrow> pystr \<Rightarrow> pystr \<Rightarrow> (identity_error, attestation) result" where
  "sign_transition R k stamp domain schema purpose from_hash to_hash generation operator remark =
     (if generation < 1 then raise TransitionGeneration
      else if \<not> is_sha256 (snd from_hash) \<or> \<not> is_sha256 (snd to_hash) then raise AttestationHash
      else if snd from_hash = snd to_hash then raise TransitionUnchanged
      else bindR (signing_text max_operator_chars operator) (\<lambda>operator.
        bindR (signing_text max_note_chars remark) (\<lambda>remark.
        bindR (identity_timestamp R (Some (PStr stamp))) (\<lambda>_.
          return (with_signature k domain (text_fields
            [(''schema_name'', lit schema), (''schema_version'', lit ''0.1.0''), (''algorithm'', lit ''Ed25519''),
             (''purpose'', lit purpose), (''key_id'', public_key_id R (sk_public k)), (''signed_at'', stamp),
             (''operator'', operator), (''note'', remark)]
            @ [(lit ''from_generation'', PInt generation), (lit ''to_generation'', PInt (generation + 1))]
            @ text_fields [from_hash, to_hash]))))))"

definition sign_trust_transition ::
  "runtime \<Rightarrow> signing_key \<Rightarrow> pystr \<Rightarrow> int \<Rightarrow> pystr \<Rightarrow> pystr \<Rightarrow> pystr \<Rightarrow> pystr \<Rightarrow> (identity_error, attestation) result" where
  "sign_trust_transition R k stamp generation from_hash to_hash operator remark =
     sign_transition R k stamp trust_domain ''defiant.operator.trust_transition'' ''operator_trust_rotation''
       (''from_bindings_hash'', from_hash) (''to_bindings_hash'', to_hash) generation operator remark"

definition sign_authority_profile_transition ::
  "runtime \<Rightarrow> signing_key \<Rightarrow> pystr \<Rightarrow> int \<Rightarrow> pystr \<Rightarrow> pystr \<Rightarrow> pystr \<Rightarrow> pystr \<Rightarrow> (identity_error, attestation) result" where
  "sign_authority_profile_transition R k stamp generation from_hash to_hash operator remark =
     sign_transition R k stamp profile_domain ''defiant.operator.authority_profile_transition''
       ''authority_profile_rotation'' (''from_profile_hash'', from_hash) (''to_profile_hash'', to_hash)
       generation operator remark"

lemma b64_value_char [simp]: "v < 64 \<Longrightarrow> b64_value (b64_char v) = Some v"
  by (auto simp: b64_value_def b64_char_def)

lemma b64_char_not_pad [simp]: "v < 64 \<Longrightarrow> b64_char v \<noteq> 61"
  by (auto simp: b64_char_def)

end
