(* ===== verification/OperatorSigningFacts.thy ===== *)
theory OperatorSigningFacts
  imports OperatorSigning
begin

text \<open>
  What an operator signs is what the verifier accepts: the base64 text of a signature decodes to it,
  and a signed approval decision, reconciliation or transition passes every check of its verification
  when the key is trusted for the operator, the texts are ASCII and the time fits.
\<close>

subsection \<open>Base64\<close>

fun b64_codes :: "nat list \<Rightarrow> nat list" where
  "b64_codes [] = []"
| "b64_codes [a] = [a div 4, a mod 4 * 16]"
| "b64_codes [a, b] = [a div 4, a mod 4 * 16 + b div 16, b mod 16 * 4]"
| "b64_codes (a # b # c # rest) =
     [a div 4, a mod 4 * 16 + b div 16, b mod 16 * 4 + c div 64, c mod 64] @ b64_codes rest"

definition b64_pads :: "nat list \<Rightarrow> nat" where
  "b64_pads bs = (3 - length bs mod 3) mod 3"

lemma b64_encode_codes: "b64_encode bs = map b64_char (b64_codes bs) @ replicate (b64_pads bs) 61"
proof (induction bs rule: b64_codes.induct)
  case (4 a b c rest)
  have "b64_pads (a # b # c # rest) = b64_pads rest" by (simp add: b64_pads_def mod_Suc)
  then show ?case using 4 by simp
qed (simp_all add: b64_pads_def numeral_2_eq_2)

lemma b64_codes_small: "\<forall>b \<in> set bs. b < 256 \<Longrightarrow> \<forall>v \<in> set (b64_codes bs). v < 64"
  by (induction bs rule: b64_codes.induct) auto

lemma b64_groups_codes: "\<forall>b \<in> set bs. b < 256 \<Longrightarrow> b64_groups (b64_codes bs) (b64_pads bs) = Some bs"
proof (induction bs rule: b64_codes.induct)
  case (4 a b c rest)
  have "b64_pads (a # b # c # rest) = b64_pads rest" by (simp add: b64_pads_def mod_Suc)
  moreover have "a div 4 * 4 + (a mod 4 * 16 + b div 16) div 16 = a"
    "(a mod 4 * 16 + b div 16) mod 16 * 16 + (b mod 16 * 4 + c div 64) div 4 = b"
    "(b mod 16 * 4 + c div 64) mod 4 * 64 + c mod 64 = c"
    using 4(2) by auto
  ultimately show ?case using 4 by simp
next
  case (3 a b)
  have "a div 4 * 4 + (a mod 4 * 16 + b div 16) div 16 = a" 
    "(a mod 4 * 16 + b div 16) mod 16 * 16 + (b mod 16 * 4) div 4 = b" using 3 by auto
  then show ?case by (simp add: b64_pads_def)
next
  case (2 a)
  then show ?case by (auto simp: b64_pads_def)
qed simp

lemma strip_pads: "\<forall>x \<in> set xs. \<not> p x \<Longrightarrow> p c \<Longrightarrow> py_rstrip_of p (xs @ replicate n c) = xs"
proof -
  assume "\<forall>x \<in> set xs. \<not> p x" "p c"
  then have "dropWhile p (replicate n c @ rev xs) = rev xs"
    by (induction n) (auto simp: dropWhile_eq_self_iff hd_rev)
  then show ?thesis by (simp add: py_rstrip_of_def)
qed

lemma b64_roundtrip: "\<forall>b \<in> set bs. b < 256 \<Longrightarrow> b64_decode (b64_encode bs) = Some bs"
proof -
  assume bs: "\<forall>b \<in> set bs. b < 256"
  note small = b64_codes_small [OF bs]
  have body: "py_rstrip_of (\<lambda>c. c = 61) (b64_encode bs) = map b64_char (b64_codes bs)"
    unfolding b64_encode_codes by (rule strip_pads) (use small in auto)
  have "map (\<lambda>c. the (b64_value c)) (map b64_char (b64_codes bs)) = b64_codes bs"
    using small by (auto simp: map_idI)
  moreover have "list_all (\<lambda>c. b64_value c \<noteq> None) (map b64_char (b64_codes bs))"
    using small by (simp add: list_all_iff)
  moreover have "length (b64_encode bs) - length (b64_codes bs) = b64_pads bs"
    by (simp add: b64_encode_codes)
  moreover have "b64_pads bs \<le> 2" unfolding b64_pads_def by linarith
  ultimately show ?thesis
    using b64_groups_codes [OF bs] body by (simp add: b64_decode_def Let_def del: map_map)
qed

subsection \<open>Signed statements\<close>

text \<open>
  The key belongs to the operator in the trusted keys, and the library verifies what it signs.
\<close>

definition signs_for :: "runtime \<Rightarrow> trust_policy \<Rightarrow> pystr \<Rightarrow> signing_key \<Rightarrow> bool" where
  "signs_for R T operator k \<longleftrightarrow> is_sha256 (public_key_id R (sk_public k))
     \<and> trusted_key T operator (public_key_id R (sk_public k)) = Some (sk_public k)
     \<and> (\<forall>m. length (sk_sign k m) = 64 \<and> (\<forall>b \<in> set (sk_sign k m). b < 256)
         \<and> tp_verify T (sk_public k) (sk_sign k m) m)"

lemma py_strip_Cons: "\<not> py_isspace c \<Longrightarrow> py_strip (c # s) \<noteq> []"
  by (auto simp: py_strip_def py_lstrip_def py_rstrip_of_def)

lemma get_append: "k \<notin> fst ` set d \<Longrightarrow> dict_get k (d @ e) = dict_get k e"
  by (induction d) auto

lemma get_append_found: "dict_get k d = Some v \<Longrightarrow> dict_get k (d @ e) = Some v"
  by (induction d) (auto split: if_splits)

lemma b64_encode_length: "length (b64_encode bs) = 4 * ((length bs + 2) div 3)"
proof (induction bs rule: b64_encode.induct)
  case (4 a b c rest)
  have "(length (a # b # c # rest) + 2) div 3 = (length rest + 2) div 3 + 1" by simp
  then show ?case using 4 by simp
qed auto

text \<open>A signed statement carries a signature that its own key accepts.\<close>

definition signed_text :: "signing_key \<Rightarrow> pystr \<Rightarrow> attestation \<Rightarrow> pystr" where
  "signed_text k domain st = lit ''base64:'' @ b64_encode (sk_sign k (domain @ encode (json_of st)))"

lemma with_signature_eq: "with_signature k domain st = st @ [(lit ''signature'', PStr (signed_text k domain st))]"
  by (simp add: with_signature_def signed_text_def)

lemma signed_text_decodes:
  "signs_for R T operator k \<Longrightarrow> decode_signature (signed_text k domain st) = return (sk_sign k (domain @ encode (json_of st)))"
  by (simp add: decode_signature_def signed_text_def signs_for_def b64_roundtrip)

lemma signed_text_bounded:
  "signs_for R T operator k \<Longrightarrow> bounded_text max_note_chars (Some (PStr (signed_text k domain st))) = return (signed_text k domain st)"
  by (simp add: bounded_text_def signed_text_def signs_for_def b64_encode_length max_note_chars_def
      py_strip_Cons lit_def py_isspace_def)

lemma signed_statement_valid:
  assumes "signs_for R T operator k" and "lit ''signature'' \<notin> fst ` set st"
  shows "signature_valid T (sk_public k) domain (st @ [(lit ''signature'', PStr (signed_text k domain st))]) = return ()"
proof -
  have "unsigned_part (st @ [(lit ''signature'', x)]) = st" for x
    using assms(2) by (force simp: unsigned_part_def filter_id_conv)
  then show ?thesis
    using assms signed_text_decodes [OF assms(1)] by (simp add: signature_valid_def get_append statement_text_def signs_for_def)
qed

subsection \<open>What is signed is accepted\<close>

lemma bounded_text_Inr: "bounded_text n (Some (PStr s)) = return t \<longleftrightarrow> t = s \<and> py_strip s \<noteq> [] \<and> length s \<le> n"
  by (auto simp: bounded_text_def)

lemma signing_text_Inr [simp]:
  "signing_text n s = return t \<longleftrightarrow> t = py_strip s \<and> py_strip s \<noteq> [] \<and> length (py_strip s) \<le> n"
  by (auto simp: signing_text_def bounded_text_Inr)

lemma is_ascii_strip: "is_ascii s \<Longrightarrow> is_ascii (py_strip s)"
  by (auto simp: is_ascii_def list_all_iff py_strip_def py_lstrip_def py_rstrip_of_def dest!: set_dropWhileD)

lemma sha256_text:
  assumes "is_sha256 s"
  shows "py_strip s \<noteq> []" "length s = 71" "is_ascii s"
proof -
  have s: "s = lit ''sha256:'' @ drop 7 s"
    using assms append_take_drop_id [of 7 s] by (simp add: is_sha256_def startswith_def eval_nat_numeral)
  show "py_strip s \<noteq> []" by (subst s) (simp add: lit_def py_strip_Cons py_isspace_def)
  show "length s = 71" using assms by (auto simp: is_sha256_def startswith_def)
  show "is_ascii s"
    by (subst s) (use assms in \<open>auto simp: is_sha256_def is_ascii_def is_hex_lower_def list_all_iff lit_def\<close>)
qed

lemma expect_field_same: "obj_get f att = Some (PStr s) \<Longrightarrow> is_ascii s \<Longrightarrow> expect_field att (f, s) = return ()"
  by (simp add: expect_field_def compare_digest_def)

definition signable :: "approval \<Rightarrow> bool" where
  "signable p \<longleftrightarrow> (\<forall>s \<in> {ap_approval_id p, ap_action_id p, ap_request_id p}.
       py_strip s \<noteq> [] \<and> length s \<le> max_note_chars \<and> is_ascii s) \<and> is_sha256 (ap_authorization_hash p)"

text \<open>The time of a signature fits the approval and the clock.\<close>

definition timely :: "runtime \<Rightarrow> int \<Rightarrow> pystr \<Rightarrow> pystr \<Rightarrow> approval \<Rightarrow> bool" where
  "timely R now stamp purpose p \<longleftrightarrow> (case (rt_instant R stamp, rt_instant R (ap_created_at p)) of
     (Some t, Some created) \<Rightarrow> created \<le> t \<and> t \<le> now + five_minutes
       \<and> (purpose = decision_purpose \<and> ap_expires_at p \<noteq> [] \<longrightarrow>
           (case rt_instant R (ap_expires_at p) of Some e \<Rightarrow> t < e | None \<Rightarrow> False))
       \<and> (purpose = reconciliation_purpose \<and> present (ap_decided_at p) \<longrightarrow>
           (case rt_instant R (the (ap_decided_at p)) of Some e \<Rightarrow> e \<le> t | None \<Rightarrow> False))
   | _ \<Rightarrow> False)"

lemma purposes [simp]: "decision_purpose \<noteq> reconciliation_purpose" "reconciliation_purpose \<noteq> decision_purpose"
   "is_ascii decision_purpose" "is_ascii reconciliation_purpose"
  by (simp_all add: decision_purpose_def reconciliation_purpose_def is_ascii_def lit_def)

lemma signed_action_accepted:
  assumes sign: "sign_operator_action R k stamp p purpose outcome operator remark = return att"
    and k: "signs_for R T (py_strip operator) k" and p: "signable p" and time: "timely R now stamp purpose p"
    and ascii: "list_all is_ascii [outcome, operator, remark]" and outcome: "py_strip outcome = outcome"
  shows "require_attestation R T now (Some att) p purpose outcome operator remark = return ()"
proof -
  let ?st = "text_fields
            [(''schema_name'', lit ''defiant.operator.attestation''), (''schema_version'', lit ''0.1.0''),
             (''algorithm'', lit ''Ed25519''), (''purpose'', purpose),
             (''key_id'', public_key_id R (sk_public k)), (''signed_at'', stamp),
             (''operator'', py_strip operator), (''note'', py_strip remark), (''outcome'', outcome),
             (''approval_id'', ap_approval_id p), (''action_id'', ap_action_id p),
             (''request_id'', ap_request_id p), (''authorization_hash'', ap_authorization_hash p)]"
  define sig where "sig = signed_text k attestation_domain ?st"
  have att: "att = ?st @ [(lit ''signature'', PStr sig)]"
    and purpose: "purpose = decision_purpose \<or> purpose = reconciliation_purpose"
    and texts: "py_strip operator \<noteq> []" "length (py_strip operator) \<le> max_operator_chars"
      "py_strip remark \<noteq> []" "length (py_strip remark) \<le> max_note_chars" "outcome \<noteq> []" "length outcome \<le> 64"
    and stamp: "identity_timestamp R (Some (PStr stamp)) = return ()"
    using sign outcome by (auto simp: sign_operator_action_def sig_def with_signature_eq split: if_splits)
  have unsig: "lit ''signature'' \<notin> fst ` set ?st" by (simp add: text_fields_def)
  have valid: "signature_valid T (sk_public k) attestation_domain att = return ()"
    unfolding att sig_def using signed_statement_valid [OF k unsig] by simp
  have gets: "obj_get ''schema_name'' att = Some (PStr (lit ''defiant.operator.attestation''))"
    "obj_get ''schema_version'' att = Some (PStr (lit ''0.1.0''))" "obj_get ''algorithm'' att = Some (PStr (lit ''Ed25519''))"
    "obj_get ''purpose'' att = Some (PStr purpose)" "obj_get ''key_id'' att = Some (PStr (public_key_id R (sk_public k)))"
    "obj_get ''signed_at'' att = Some (PStr stamp)" "obj_get ''operator'' att = Some (PStr (py_strip operator))"
    "obj_get ''note'' att = Some (PStr (py_strip remark))" "obj_get ''outcome'' att = Some (PStr outcome)"
    "obj_get ''approval_id'' att = Some (PStr (ap_approval_id p))" "obj_get ''action_id'' att = Some (PStr (ap_action_id p))"
    "obj_get ''request_id'' att = Some (PStr (ap_request_id p))"
    "obj_get ''authorization_hash'' att = Some (PStr (ap_authorization_hash p))" "obj_get ''signature'' att = Some (PStr sig)"
    by (simp_all add: att text_fields_def)
  have fields: "map fst att = attestation_fields"
    by (simp add: att text_fields_def attestation_fields_def)
  have sig: "bounded_text max_note_chars (Some (PStr sig)) = return sig"
    unfolding sig_def by (rule signed_text_bounded [OF k])
  have key: "is_sha256 (public_key_id R (sk_public k))"
    "trusted_key T (py_strip operator) (public_key_id R (sk_public k)) = Some (sk_public k)"
    using k by (simp_all add: signs_for_def)
  have hash: "is_sha256 (ap_authorization_hash p)" using p by (simp add: signable_def)
  have 1: "validate_attestation R att = return ()"
    using purpose texts stamp sig p outcome hash key(1) sha256_text [OF key(1)] sha256_text [OF hash]
    by (auto simp: validate_attestation_def has_value_def gets fields bounded_text_Inr signable_def
        max_operator_chars_def max_note_chars_def)
  obtain t created where t: "rt_instant R stamp = Some t" "rt_instant R (ap_created_at p) = Some created"
    "created \<le> t" "t \<le> now + five_minutes"
    using time by (auto simp: timely_def split: option.splits)
  have ids: "allR (expect_field att) [(''approval_id'', ap_approval_id p), (''action_id'', ap_action_id p),
        (''request_id'', ap_request_id p), (''authorization_hash'', ap_authorization_hash p)] = return ()"
    using p sha256_text(3) [OF hash] by (simp add: gets signable_def expect_field_same)
  have 2: "validate_binding R now att p = return ()"
    using purpose
  proof
    assume "purpose = decision_purpose"
    then show ?thesis
      using time t unfolding validate_binding_def ids
      by (auto simp: gets identity_time_def timely_def split: option.splits)
  next
    assume "purpose = reconciliation_purpose"
    then show ?thesis
      using time t unfolding validate_binding_def ids
      by (auto simp: gets identity_time_def timely_def split: option.splits)
  qed
  have "verify_attestation R T now att p = return ()"
    using 1 2 valid by (simp add: verify_attestation_def gets key)
  then show ?thesis
    using purpose ascii by (auto simp: require_attestation_def expect_field_same gets is_ascii_strip)
qed

text \<open>The same for a transition, whatever the names of its two hashes.\<close>

lemma signed_transition_accepted:
  assumes sign: "sign_transition R k stamp domain schema purpose (f, fh) (t, th) generation operator remark = return att"
    and k: "signs_for R T (py_strip operator) k" and ascii: "is_ascii operator" "is_ascii remark"
    and time: "rt_instant R stamp = Some i" "i \<le> now + five_minutes"
    and names: "distinct ([''schema_name'', ''schema_version'', ''algorithm'', ''purpose'', ''key_id'', ''signed_at'',
      ''operator'', ''note'', ''from_generation'', ''to_generation'', ''signature''] @ [f, t])"
  shows "validate_transition R now schema purpose f t (return ()) att = return ()"
    "require_signed_transition T domain att generation [(f, fh), (t, th)] operator remark = return ()"
    "obj_get f att = Some (PStr fh)" "obj_get t att = Some (PStr th)" "fh \<noteq> th"
    "obj_get ''signed_at'' att = Some (PStr stamp)" "obj_get ''operator'' att = Some (PStr (py_strip operator))"
    "obj_get ''key_id'' att = Some (PStr (public_key_id R (sk_public k)))"
    "obj_get ''note'' att = Some (PStr (py_strip remark))"
proof -
  let ?st = "text_fields
            [(''schema_name'', lit schema), (''schema_version'', lit ''0.1.0''), (''algorithm'', lit ''Ed25519''),
             (''purpose'', lit purpose), (''key_id'', public_key_id R (sk_public k)), (''signed_at'', stamp),
             (''operator'', py_strip operator), (''note'', py_strip remark)]
            @ [(lit ''from_generation'', PInt generation), (lit ''to_generation'', PInt (generation + 1))]
            @ text_fields [(f, fh), (t, th)]"
  define sig where "sig = signed_text k domain ?st"
  have att: "att = ?st @ [(lit ''signature'', PStr sig)]"
    and texts: "py_strip operator \<noteq> []" "length (py_strip operator) \<le> max_operator_chars"
      "py_strip remark \<noteq> []" "length (py_strip remark) \<le> max_note_chars"
    and stamp: "identity_timestamp R (Some (PStr stamp)) = return ()"
    and g: "1 \<le> generation" and hashes: "is_sha256 fh" "is_sha256 th" "fh \<noteq> th"
    using sign by (auto simp: sign_transition_def sig_def with_signature_eq split: if_splits)
  have n: "f \<noteq> t" "t \<noteq> f"
    "\<forall>x \<in> {''schema_name'', ''schema_version'', ''algorithm'', ''purpose'', ''key_id'', ''signed_at'', ''operator'',
      ''note'', ''from_generation'', ''to_generation'', ''signature''}. x \<noteq> f \<and> f \<noteq> x \<and> x \<noteq> t \<and> t \<noteq> x"
    using names by auto
  have unsig: "lit ''signature'' \<notin> fst ` set ?st" using n by (simp add: text_fields_def)
  have valid: "signature_valid T (sk_public k) domain att = return ()"
    unfolding att sig_def using signed_statement_valid [OF k unsig] by simp
  have gets: "obj_get ''schema_name'' att = Some (PStr (lit schema))"
    "obj_get ''schema_version'' att = Some (PStr (lit ''0.1.0''))" "obj_get ''algorithm'' att = Some (PStr (lit ''Ed25519''))"
    "obj_get ''purpose'' att = Some (PStr (lit purpose))" "obj_get ''key_id'' att = Some (PStr (public_key_id R (sk_public k)))"
    "obj_get ''signed_at'' att = Some (PStr stamp)" "obj_get ''operator'' att = Some (PStr (py_strip operator))"
    "obj_get ''note'' att = Some (PStr (py_strip remark))" "obj_get ''from_generation'' att = Some (PInt generation)"
    "obj_get ''to_generation'' att = Some (PInt (generation + 1))" "obj_get f att = Some (PStr fh)"
    "obj_get t att = Some (PStr th)" "obj_get ''signature'' att = Some (PStr sig)"
    using n by (simp_all add: att text_fields_def)
  then show "obj_get f att = Some (PStr fh)" "obj_get t att = Some (PStr th)"
    "obj_get ''signed_at'' att = Some (PStr stamp)" "obj_get ''operator'' att = Some (PStr (py_strip operator))"
    "obj_get ''key_id'' att = Some (PStr (public_key_id R (sk_public k)))"
    "obj_get ''note'' att = Some (PStr (py_strip remark))" by -
  show "fh \<noteq> th" by (rule hashes(3))
  have fields: "map fst att = transition_fields f t"
    by (simp add: att text_fields_def transition_fields_def)
  have key: "is_sha256 (public_key_id R (sk_public k))"
    "trusted_key T (py_strip operator) (public_key_id R (sk_public k)) = Some (sk_public k)"
    using k by (simp_all add: signs_for_def)
  note sha = sha256_text [OF key(1)] sha256_text [OF hashes(1)] sha256_text [OF hashes(2)]
  have sig: "bounded_text max_note_chars (Some (PStr sig)) = return sig" "decode_signature sig \<noteq> raise e" for e
    unfolding sig_def using signed_text_bounded [OF k] signed_text_decodes [OF k] by simp_all
  then obtain bytes where "decode_signature sig = return bytes" by (cases "decode_signature sig") auto
  then show "validate_transition R now schema purpose f t (return ()) att = return ()"
    using texts stamp sig(1) sha g hashes key(1) time
    by (simp add: validate_transition_def has_value_def gets fields bounded_text_Inr positive_field_def
        max_operator_chars_def max_note_chars_def identity_time_def)
  show "require_signed_transition T domain att generation [(f, fh), (t, th)] operator remark = return ()"
    using valid sha ascii by (simp add: require_signed_transition_def gets key expect_field_same is_ascii_strip)
qed

lemma signed_trust_transition_accepted:
  assumes "sign_trust_transition R k stamp generation fh th operator remark = return att"
    and "signs_for R T (py_strip operator) k" "is_ascii operator" "is_ascii remark"
    and "rt_instant R stamp = Some i" "i \<le> now + five_minutes"
  shows "require_trust_transition R T now (Some att) generation fh th operator remark = return ()"
  using signed_transition_accepted [OF assms(1) [unfolded sign_trust_transition_def] assms(2-6)]
  by (simp add: require_trust_transition_def validate_trust_transition_def)

lemma signed_profile_transition_accepted:
  assumes "sign_authority_profile_transition R k stamp generation fh th operator remark = return att"
    and "signs_for R T (py_strip operator) k" "is_ascii operator" "is_ascii remark"
    and "rt_instant R stamp = Some i" "i \<le> now + five_minutes"
  shows "require_authority_profile_transition R T now (Some att) generation fh th operator remark = return ()"
  using signed_transition_accepted [OF assms(1) [unfolded sign_authority_profile_transition_def] assms(2-6)]
  by (simp add: require_authority_profile_transition_def validate_authority_profile_transition_def)
end
