(* ===== verification/OperatorTrustProgress.thy ===== *)
theory OperatorTrustProgress
  imports OperatorTrustFacts OperatorSigningFacts
begin

text \<open>
  A rotation that an operator signs goes through: the enrolled state with the rotation is read back, the
  new keys verify every transition, and the file holds it. One reading of the clock serves the call.
\<close>

subsection \<open>A stored state is read back from its object\<close>

lemma all_entries_again:
  "all_entries operator_entry obj = Some b \<Longrightarrow> all_entries operator_entry (map binding_entry b) = Some b"
proof (induction obj arbitrary: b)
  case (Cons e obj)
  from Cons.prems obtain y ys where 1: "operator_entry e = Some y" "all_entries operator_entry obj = Some ys" "b = y # ys"
    by (auto split: option.splits)
  have "operator_entry (binding_entry y) = Some y"
    using 1(1) by (auto simp: operator_entry_def binding_entry_def key_id_list_def is_string_iff Let_def comp_def list_all_iff
        split: if_splits pyval.splits)
  then show ?case using Cons.IH [OF 1(2)] 1(3) by simp
qed simp

lemma all_entries_length: "all_entries f xs = Some ys \<Longrightarrow> length ys = length xs"
  by (induction xs arbitrary: ys) (auto split: option.splits)

lemma bindings_of_again:
  assumes "bindings_of v = Some b"
  shows "bindings_of (Some (bindings_object b)) = Some b"
proof -
  obtain obj where 1: "all_entries operator_entry obj = Some b" "obj \<noteq> []" "length obj \<le> max_operators"
    "\<not> max_trusted_public_keys < sum_list (map (\<lambda>ok. length (snd ok)) b)" "sort (map fst b) = map fst b"
    using assms by (auto simp: bindings_of_def split: option.splits if_splits)
  have "b \<noteq> []" "length b \<le> max_operators" using all_entries_length [OF 1(1)] 1(2,3) by auto
  then show ?thesis
    using all_entries_again [OF 1(1)] 1(4,5) by (auto simp: bindings_of_def bindings_entries)
qed

lemma check_transitions_ConsI:
  assumes "bindings_of (Some (bindings_object c)) = Some c" "is_additive b c"
    "int_field_is ''from_generation'' index att" "int_field_is ''to_generation'' (index + 1) att"
    "text_field_is ''from_bindings_hash'' (hash_of_bindings R b) att"
    "text_field_is ''to_bindings_hash'' (hash_of_bindings R c) att"
    "state_time R now (obj_get ''signed_at'' att) = Some signed_at" "time \<le> signed_at"
    "check_transitions R now (index + 1) c signed_at vs = return (rest, final, last_time)"
  shows "check_transitions R now index b time (transition_object \<lparr>tt_attestation = att, tt_bindings = c\<rparr> # vs)
    = return (\<lparr>tt_attestation = att, tt_bindings = c\<rparr> # rest, final, last_time)"
  using assms by (simp add: transition_object_def not_less insert_commute)

lemma check_transitions_again:
  "check_transitions R now index b time vs = return (ts, final, last_time) \<Longrightarrow>
   check_transitions R now index b time (map transition_object ts) = return (ts, final, last_time)"
proof (induction vs arbitrary: index b time ts)
  case (Cons v vs)
  from Cons.prems show ?case
  proof (rule check_transitions_ConsE)
    fix t att c signed_at rest
    assume 1: "bindings_of (obj_get ''bindings'' t) = Some c" "is_additive b c"
      "int_field_is ''from_generation'' index att" "int_field_is ''to_generation'' (index + 1) att"
      "text_field_is ''from_bindings_hash'' (hash_of_bindings R b) att"
      "text_field_is ''to_bindings_hash'' (hash_of_bindings R c) att"
      "state_time R now (obj_get ''signed_at'' att) = Some signed_at" "time \<le> signed_at"
      "check_transitions R now (index + 1) c signed_at vs = return (rest, final, last_time)"
      "ts = \<lparr>tt_attestation = att, tt_bindings = c\<rparr> # rest"
    show ?thesis
      unfolding 1(10) list.map
      by (rule check_transitions_ConsI [OF bindings_of_again [OF 1(1)] 1(2-8) Cons.IH [OF 1(9)]])
  qed
qed simp

lemma check_transitions_append:
  "check_transitions R now index b time vs = return (ts, c, t) \<Longrightarrow>
   check_transitions R now (index + int (length vs)) c t ws = return (us, final, last_time) \<Longrightarrow>
   check_transitions R now index b time (vs @ ws) = return (ts @ us, final, last_time)"
proof (induction vs arbitrary: index b time ts)
  case (Cons v vs)
  from Cons.prems(1) show ?case
  proof (rule check_transitions_ConsE)
    fix t' att d signed_at rest
    assume 1: "object_entries v = Some t'" "obj_get ''attestation'' t' = Some (json_of att)"
    "bindings_of (obj_get ''bindings'' t') = Some d" "is_additive b d"
    "int_field_is ''from_generation'' index att" "int_field_is ''to_generation'' (index + 1) att"
    "text_field_is ''from_bindings_hash'' (hash_of_bindings R b) att"
    "text_field_is ''to_bindings_hash'' (hash_of_bindings R d) att"
    "state_time R now (obj_get ''signed_at'' att) = Some signed_at" "time \<le> signed_at"
    "check_transitions R now (index + 1) d signed_at vs = return (rest, c, t)"
    "ts = \<lparr>tt_attestation = att, tt_bindings = d\<rparr> # rest"
    have "set (map fst t') = {lit ''attestation'', lit ''bindings''}"
      using Cons.prems(1) 1(1) by (simp split: if_splits)
    moreover have "check_transitions R now (index + 1) d signed_at (vs @ ws) = return (rest @ us, final, last_time)"
      using Cons.IH [OF 1(11)] Cons.prems(2) by (simp add: algebra_simps)
    ultimately show ?thesis using 1 by (simp add: not_less)
  qed
qed simp

lemma state_time_text: "state_time R now v = Some t \<Longrightarrow> state_time R now (Some (PStr (text_of v))) = Some t"
  by (auto simp: state_time_def split: option.splits pyval.splits if_splits)

text \<open>Adding one good transition to a stored state gives a state that is read back.\<close>

lemma rotated_read_back:
  assumes s: "trust_state_of R now v = return s" and room: "length (os_transitions s) < max_transitions"
    and o: "state_object max_trust_state_bytes (trust_object (rotated R U att s)) \<noteq> None"
    and exact: "exact (json_of att)" and U: "bindings_of (Some (bindings_object (policy_bindings U))) = Some (policy_bindings U)"
    and add: "is_additive (os_bindings s) (policy_bindings U)" and h: "is_sha256 (hash_of_bindings R (policy_bindings U))"
    and fields: "int_field_is ''from_generation'' (os_generation s) att" "int_field_is ''to_generation'' (os_generation s + 1) att"
      "text_field_is ''from_bindings_hash'' (os_bindings_hash s) att"
      "text_field_is ''to_bindings_hash'' (hash_of_bindings R (policy_bindings U)) att"
      "obj_get ''signed_at'' att = Some (PStr stamp)"
    and time: "state_time R now (Some (PStr stamp)) = Some at_time"
      "\<exists>t. state_time R now (Some (PStr (os_updated_at s))) = Some t \<and> t \<le> at_time"
  shows "trust_state_of R now (trust_object (rotated R U att s)) = return (rotated R U att s)"
proof -
  let ?u = "rotated R U att s"
  have e: "exact (trust_object ?u)" using trust_state_exact [OF s] exact by (rule rotated_exact)
  obtain obj where obj: "state_object max_trust_state_bytes (trust_object ?u) = Some obj" using o by blast
  then have "trust_object ?u = json_of obj" using e by (rule state_objectD(2))
  note g = trust_object_entries [OF this]
  have names: "map fst obj = trust_state_fields" "has_value ''schema_name'' ''defiant.operator.trust_state'' obj"
    "has_value ''schema_version'' ''0.1.0'' obj" "has_value ''mode'' ''signed_required'' obj"
  proof -
    have "object_entries (trust_object ?u) = Some obj" using \<open>trust_object ?u = json_of obj\<close> by simp
    then show "map fst obj = trust_state_fields" "has_value ''schema_name'' ''defiant.operator.trust_state'' obj"
      "has_value ''schema_version'' ''0.1.0'' obj" "has_value ''mode'' ''signed_required'' obj"
      by (auto simp: trust_object_def trust_state_fields_def has_value_def)
  qed
  from s obtain obj0 where p: "parse_trust_state R now obj0 = return s" by (rule trust_state_ofE)
  from p show ?thesis
  proof (rule parse_trust_stateE)
    fix et ut vs
    assume 1: "1 \<le> os_generation s" "state_time R now (obj_get ''enrolled_at'' obj0) = Some et"
      "state_time R now (obj_get ''updated_at'' obj0) = Some ut" "et \<le> ut"
      "bindings_of (obj_get ''initial_bindings'' obj0) = Some (os_initial_bindings s)"
      "os_initial_hash s = hash_of_bindings R (os_initial_bindings s)"
      "os_bindings_hash s = hash_of_bindings R (os_bindings s)" "int (length vs) = os_generation s - 1"
      "check_transitions R now 1 (os_initial_bindings s) et vs = return (os_transitions s, os_bindings s, ut)"
      "os_enrolled_at s = text_of (obj_get ''enrolled_at'' obj0)" "os_updated_at s = text_of (obj_get ''updated_at'' obj0)"
    have times: "state_time R now (Some (PStr (os_enrolled_at s))) = Some et"
      "state_time R now (Some (PStr (os_updated_at s))) = Some ut"
      using 1(2,3,10,11) by (simp_all add: state_time_text)
    then have "ut \<le> at_time" "et \<le> at_time" using time(2) 1(4) by auto
    have len: "length (os_transitions s) = length vs" by (rule check_transitions_length [OF 1(9)])
    have "check_transitions R now (1 + int (length (map transition_object (os_transitions s)))) (os_bindings s) ut
        [transition_object \<lparr>tt_attestation = att, tt_bindings = policy_bindings U\<rparr>]
      = return ([\<lparr>tt_attestation = att, tt_bindings = policy_bindings U\<rparr>], policy_bindings U, at_time)"
      using fields time(1) \<open>ut \<le> at_time\<close> 1(7,8) len
      by (intro check_transitions_ConsI) (simp_all add: U add)
    from check_transitions_append [OF check_transitions_again [OF 1(9)] this]
    have chain: "check_transitions R now 1 (os_initial_bindings s) et (map transition_object (os_transitions ?u))
      = return (os_transitions ?u, policy_bindings U, at_time)"
      by (simp add: rotated_def)
    have ih: "is_sha256 (os_initial_hash s)"
      using p by (auto simp: parse_trust_state_def split: if_splits)
    have "parse_trust_state R now obj = return ?u"
      using chain times(1) time(1) bindings_of_again [OF 1(5)] 1(1,6,8) \<open>et \<le> at_time\<close> names len room h U fields(5) ih
      by (simp add: parse_trust_state_def g rotated_def not_less wanted_def)
    then show ?thesis by (simp add: trust_state_of_def obj wanted_def)
  qed
qed

subsection \<open>The new keys verify every transition\<close>

definition keys_kept :: "trust_policy \<Rightarrow> trust_policy \<Rightarrow> bool" where
  "keys_kept T U \<longleftrightarrow> tp_verify U = tp_verify T
     \<and> (\<forall>operator k key. trusted_key T operator k = Some key \<longrightarrow> trusted_key U operator k = Some key)"

lemma require_trust_transition_kept:
  "keys_kept T U \<Longrightarrow> require_trust_transition R T now att i h h' operator remark = return () \<Longrightarrow>
   require_trust_transition R U now att i h h' operator remark = return ()"
  by (auto simp: require_trust_transition_def require_signed_transition_def signature_valid_def keys_kept_def
      split: option.splits if_splits)

lemma verify_transitions_kept:
  "keys_kept T U \<Longrightarrow> verify_transitions R now T i b h ts = return () \<Longrightarrow> verify_transitions R now U i b h ts = return ()"
  by (induction ts arbitrary: i b h)
    (auto simp: Let_def split: if_splits intro: require_trust_transition_kept)

definition last_bindings :: "bindings \<Rightarrow> trust_transition list \<Rightarrow> bindings" where
  "last_bindings b ts = (if ts = [] then b else tt_bindings (last ts))"

lemma verify_transitions_append:
  "verify_transitions R now U i b (hash_of_bindings R b) ts = return () \<Longrightarrow> bound_key att (last_bindings b ts) \<Longrightarrow>
   require_trust_transition R U now (Some att) (i + int (length ts)) (hash_of_bindings R (last_bindings b ts))
     (hash_of_bindings R c) (text_of (obj_get ''operator'' att)) (text_of (obj_get ''note'' att)) = return () \<Longrightarrow>
   verify_transitions R now U i b (hash_of_bindings R b) (ts @ [\<lparr>tt_attestation = att, tt_bindings = c\<rparr>]) = return ()"
proof (induction ts arbitrary: i b)
  case (Cons t ts)
  have "last_bindings b (t # ts) = last_bindings (tt_bindings t) ts" by (simp add: last_bindings_def)
  then show ?case using Cons by (auto simp: Let_def algebra_simps split: if_splits)
qed (simp add: last_bindings_def Let_def)

lemma check_transitions_last:
  "check_transitions R now index b time vs = return (ts, final, last_time) \<Longrightarrow> final = last_bindings b ts"
proof (induction vs arbitrary: index b time ts)
  case (Cons v vs)
  from Cons.prems show ?case
    by (rule check_transitions_ConsE) (use Cons.IH in \<open>fastforce simp: last_bindings_def\<close>)
qed (simp add: last_bindings_def)

lemma require_signed_transition_stripped:
  "require_signed_transition T domain att i hs operator remark
    = require_signed_transition T domain att i hs (py_strip operator) (py_strip remark)"
  by (simp add: require_signed_transition_def)

lemma trusted_key_bound:
  assumes "trusted_key T operator k = Some key" "wf_dict (tp_keys T)"
  shows "\<exists>ks. dict_get operator (policy_bindings T) = Some ks \<and> k \<in> set ks"
proof -
  obtain ks where ks: "dict_get operator (tp_keys T) = Some ks" "dict_get k ks = Some key"
    using assms(1) by (auto simp: trusted_key_def split: option.splits)
  have "wf_dict (policy_bindings T)"
    using assms(2) by (simp add: wf_dict_def policy_bindings_def comp_def split_beta distinct_map)
  moreover have "(operator, sort (map fst ks)) \<in> set (policy_bindings T)"
    using dict_get_in_set [OF ks(1)] by (force simp: policy_bindings_def)
  ultimately have "dict_get operator (policy_bindings T) = Some (sort (map fst ks))" by (simp add: dict_get_set_iff)
  then show ?thesis using dict_get_in_set [OF ks(2)] by force
qed

subsection \<open>Rotation\<close>

text \<open>
  The situation of an operator who rotates: the keys of \<open>T\<close> are enrolled and verified, \<open>U\<close> keeps them all
  and has more, and the state with the rotation still fits its ceilings.
\<close>

definition rotation_ready ::
  "runtime \<Rightarrow> trust_env \<Rightarrow> trust_policy \<Rightarrow> trust_policy \<Rightarrow> int \<Rightarrow> pyval \<Rightarrow> trust_state \<Rightarrow> attestation \<Rightarrow> bool" where
  "rotation_ready R env T U now v s att \<longleftrightarrow> te_clock env = (\<lambda>_. now) \<and> wf_dict (tp_keys T)
     \<and> trust_state_of R now v = return s \<and> verify_trust R now T s = return ()
     \<and> is_additive_successor T U \<and> keys_kept T U
     \<and> bindings_of (Some (bindings_object (policy_bindings U))) = Some (policy_bindings U)
     \<and> length (os_transitions s) < max_transitions
     \<and> state_object max_trust_state_bytes (trust_object (rotated R U att s)) \<noteq> None
     \<and> te_fits env (trust_object (rotated R U att s))"

lemma rotation_succeeds:
  assumes ready: "rotation_ready R env T U now v s att"
    and sign: "sign_trust_transition R k stamp (os_generation s) (os_bindings_hash s)
      (hash_of_bindings R (policy_bindings U)) operator remark = return att"
    and k: "signs_for R T (py_strip operator) k" and ascii: "is_ascii operator" "is_ascii remark"
    and time: "state_time R now (Some (PStr stamp)) = Some at_time"
      "\<exists>t. state_time R now (Some (PStr (os_updated_at s))) = Some t \<and> t \<le> at_time"
  shows "rotate_trust R env T U att (Some v) = (return (rotated R U att s), Some (trust_object (rotated R U att s)))"
    "trust_state_of R now (trust_object (rotated R U att s)) = return (rotated R U att s)"
    "verify_trust R now U (rotated R U att s) = return ()"
proof -
  have r: "te_clock env = (\<lambda>_. now)" "wf_dict (tp_keys T)" "trust_state_of R now v = return s"
    "verify_trust R now T s = return ()" "is_additive_successor T U" "keys_kept T U"
    "bindings_of (Some (bindings_object (policy_bindings U))) = Some (policy_bindings U)"
    "length (os_transitions s) < max_transitions"
    "state_object max_trust_state_bytes (trust_object (rotated R U att s)) \<noteq> None"
    "te_fits env (trust_object (rotated R U att s))"
    using ready by (simp_all add: rotation_ready_def)
  have stored: "trust_stored R (Some v) s" using r(3) by (auto simp: trust_stored_def)
  have T: "policy_bindings T = os_bindings s" using r(4) by (rule verify_bindings)
  have inst: "rt_instant R stamp = Some at_time" "at_time \<le> now + five_minutes"
    using time(1) by (auto simp: state_time_def five_minutes_def split: option.splits if_splits)
  note acc = signed_transition_accepted [OF sign [unfolded sign_trust_transition_def] k ascii inst]
  have names: "distinct ([''schema_name'', ''schema_version'', ''algorithm'', ''purpose'', ''key_id'', ''signed_at'',
      ''operator'', ''note'', ''from_generation'', ''to_generation'', ''signature''] @ [''from_bindings_hash'', ''to_bindings_hash''])"
    by simp
  note acc = acc [OF names]
  have req: "require_trust_transition R T now (Some att) (os_generation s) (os_bindings_hash s)
      (hash_of_bindings R (policy_bindings U)) (text_of (obj_get ''operator'' att)) (text_of (obj_get ''note'' att)) = return ()"
    using acc(1,7,9) acc(2) [unfolded require_signed_transition_stripped [of T _ att _ _ operator]]
    by (simp add: require_trust_transition_def validate_trust_transition_def)
  have gens: "obj_get ''from_generation'' att = Some (PInt (os_generation s))"
    "obj_get ''to_generation'' att = Some (PInt (os_generation s + 1))"
    using acc(2) by (auto simp: require_signed_transition_def split: if_splits)
  have "is_sha256 (hash_of_bindings R (policy_bindings U))"
    using sign by (auto simp: sign_trust_transition_def sign_transition_def split: if_splits)
  moreover have "wf_dict att"
    using sign by (auto simp: sign_trust_transition_def sign_transition_def with_signature_eq text_fields_def wf_dict_def
        split: if_splits)
  then have exact: "exact (json_of att)" using acc(1) by (intro validated_transition_exact)
  moreover have fields: "int_field_is ''from_generation'' (os_generation s) att" "int_field_is ''to_generation'' (os_generation s + 1) att"
      "text_field_is ''from_bindings_hash'' (os_bindings_hash s) att"
      "text_field_is ''to_bindings_hash'' (hash_of_bindings R (policy_bindings U)) att"
    using gens acc(3,4) by (simp_all add: int_field_is_def text_field_is_def same_key_def key_number_def decimal_of_int_def dec_eq_dval)
  ultimately show reread: "trust_state_of R now (trust_object (rotated R U att s)) = return (rotated R U att s)"
    using rotated_read_back [OF r(3,8,9) _ r(7)] r(5) T acc(6) time by (simp add: is_additive_successor_def)
  have "trusted_key T (py_strip operator) (public_key_id R (sk_public k)) \<noteq> None" using k by (simp add: signs_for_def)
  then obtain ks where "dict_get (py_strip operator) (os_bindings s) = Some ks" "public_key_id R (sk_public k) \<in> set ks"
    using trusted_key_bound [OF _ r(2)] T by (metis not_None_eq)
  then have bound: "bound_key att (os_bindings s)" using acc(7,8) by (simp add: bound_key_def)
  have remark: "py_strip remark \<noteq> []"
    using sign by (auto simp: sign_trust_transition_def sign_transition_def split: if_splits)
  have last: "os_bindings s = last_bindings (os_initial_bindings s) (os_transitions s)"
    "os_initial_hash s = hash_of_bindings R (os_initial_bindings s)"
    using r(3) by (auto elim!: trust_state_ofE parse_trust_stateE dest!: check_transitions_last)
  have "verify_transitions R now U 1 (os_initial_bindings s) (hash_of_bindings R (os_initial_bindings s))
      (os_transitions s @ [\<lparr>tt_attestation = att, tt_bindings = policy_bindings U\<rparr>]) = return ()"
  proof (rule verify_transitions_append)
    show "verify_transitions R now U 1 (os_initial_bindings s) (hash_of_bindings R (os_initial_bindings s)) (os_transitions s) = return ()"
      using r(4,6) last(2) by (auto simp: verify_trust_def split: if_splits intro: verify_transitions_kept)
    show "bound_key att (last_bindings (os_initial_bindings s) (os_transitions s))" using bound last(1) by simp
    show "require_trust_transition R U now (Some att) (1 + int (length (os_transitions s)))
        (hash_of_bindings R (last_bindings (os_initial_bindings s) (os_transitions s))) (hash_of_bindings R (policy_bindings U))
        (text_of (obj_get ''operator'' att)) (text_of (obj_get ''note'' att)) = return ()"
      using require_trust_transition_kept [OF r(6) req] stored_generation [OF stored] last(1) by (simp add: add.commute)
  qed
  then show verified: "verify_trust R now U (rotated R U att s) = return ()"
    using last(2) by (simp add: verify_trust_def rotated_def)
  have "\<not> already_rotated s U att" using r(5) T by (auto simp: already_rotated_def is_additive_successor_def is_additive_def)
  moreover have "rotation_signer s att" using bound acc(9) remark by (simp add: rotation_signer_def)
  ultimately show "rotate_trust R env T U att (Some v) = (return (rotated R U att s), Some (trust_object (rotated R U att s)))"
    using r req reread verified
    by (simp add: rotate_trust_def bindA_def get_trust_def write_trust_def)
qed

end
