(* ===== verification/AuthorityProfile.thy ===== *)
theory AuthorityProfile
  imports OperatorTrustFacts
begin

text \<open>
  Continuity of the runtime authority profile (\<open>authority_profile.py\<close>): a state directory is pinned to
  the hash of one profile; another profile becomes active only after a rotation to exactly that
  profile was staged, and under enrolled operator trust only after a trusted signature.
\<close>

subsection \<open>The state\<close>

datatype profile_error =
    ProfileIdentity identity_error
  | ProfileTrust trust_error
  | ProfileSnapshot
  | ProfileSchema
  | ProfileGeneration
  | ProfileTimestamp
  | ProfileTimes
  | ProfileHash
  | ProfileText
  | ProfileTransitions
  | ProfileTransition
  | ProfileUnchanged
  | ProfileAttestation
  | ProfileChain
  | ProfilePending
  | ProfileKeysRequired
  | ProfileUnsigned
  | ProfileNotConfigured
  | ProfileNotEnrolled
  | ProfileOtherPending
  | ProfileTooLarge

record profile_transition =
  pt_from_generation :: int
  pt_to_generation :: int
  pt_from_hash :: pystr
  pt_to_hash :: pystr
  pt_operator :: pystr
  pt_note :: pystr
  pt_requested_at :: pystr
  pt_attestation :: "attestation option"

record profile_state =
  ps_generation :: int
  ps_enrolled_at :: pystr
  ps_updated_at :: pystr
  ps_initial_hash :: pystr
  ps_profile_hash :: pystr
  ps_transitions :: "profile_transition list"
  ps_pending :: "profile_transition option"

definition max_profile_state_bytes :: nat where "max_profile_state_bytes = 1048576"

subsection \<open>Validation\<close>

definition profile_hash_of :: "pyval option \<Rightarrow> (profile_error, pystr) result" where
  "profile_hash_of v = (case v of
     Some (PStr s) \<Rightarrow> (if is_sha256 s then return s else raise ProfileHash) | _ \<Rightarrow> raise ProfileHash)"

definition profile_text :: "nat \<Rightarrow> pyval option \<Rightarrow> (profile_error, pystr) result" where
  "profile_text maximum v = (case v of
     Some (PStr s) \<Rightarrow>
       if py_strip s = [] \<or> s \<noteq> py_strip s \<or> maximum < length s then raise ProfileText else return s
   | _ \<Rightarrow> raise ProfileText)"

definition profile_transition_fields :: "pystr list" where
  "profile_transition_fields = map lit
     [''from_generation'', ''to_generation'', ''from_profile_hash'', ''to_profile_hash'', ''operator'', ''note'',
      ''requested_at'', ''attestation'']"

definition generation_field :: "string \<Rightarrow> json_object \<Rightarrow> (profile_error, int) result" where
  "generation_field f obj = (case obj_get f obj of Some (PInt i) \<Rightarrow> return i | _ \<Rightarrow> raise ProfileTransition)"

text \<open>What a signed transition's attestation must repeat.\<close>

definition attestation_binds :: "profile_transition \<Rightarrow> attestation \<Rightarrow> bool" where
  "attestation_binds t att \<longleftrightarrow>
     int_field_is ''from_generation'' (pt_from_generation t) att \<and> int_field_is ''to_generation'' (pt_to_generation t) att
     \<and> text_field_is ''from_profile_hash'' (pt_from_hash t) att \<and> text_field_is ''to_profile_hash'' (pt_to_hash t) att
     \<and> text_field_is ''operator'' (pt_operator t) att \<and> text_field_is ''note'' (pt_note t) att
     \<and> text_field_is ''signed_at'' (pt_requested_at t) att"

definition attestation_field :: "json_object \<Rightarrow> (profile_error, attestation option) result" where
  "attestation_field obj = (case obj_get ''attestation'' obj of
     Some PNone \<Rightarrow> return None
   | Some v \<Rightarrow> bindR (wanted ProfileAttestation (object_entries v)) (\<lambda>att. return (Some att))
   | None \<Rightarrow> return None)"

text \<open>\<open>_transition\<close>.\<close>

definition profile_transition_of ::
  "runtime \<Rightarrow> int \<Rightarrow> pyval \<Rightarrow> (profile_error, profile_transition) result" where
  "profile_transition_of R now v =
     bindR (wanted ProfileTransition (object_entries v)) (\<lambda>obj.
     if set (map fst obj) \<noteq> set profile_transition_fields then raise ProfileTransition
     else bindR (generation_field ''from_generation'' obj) (\<lambda>earlier.
     if earlier < 1 then raise ProfileTransition
     else bindR (generation_field ''to_generation'' obj) (\<lambda>later.
     if later \<noteq> earlier + 1 then raise ProfileTransition
     else bindR (profile_hash_of (obj_get ''from_profile_hash'' obj)) (\<lambda>from_hash.
     bindR (profile_hash_of (obj_get ''to_profile_hash'' obj)) (\<lambda>to_hash.
     if from_hash = to_hash then raise ProfileUnchanged
     else bindR (profile_text max_operator_chars (obj_get ''operator'' obj)) (\<lambda>operator.
     bindR (profile_text max_note_chars (obj_get ''note'' obj)) (\<lambda>remark.
     bindR (wanted ProfileTimestamp (state_time R now (obj_get ''requested_at'' obj))) (\<lambda>_.
     bindR (attestation_field obj) (\<lambda>att.
     let t = \<lparr>pt_from_generation = earlier, pt_to_generation = later, pt_from_hash = from_hash, pt_to_hash = to_hash,
              pt_operator = operator, pt_note = remark, pt_requested_at = text_of (obj_get ''requested_at'' obj),
              pt_attestation = att\<rparr>
     in case att of
          None \<Rightarrow> return t
        | Some a \<Rightarrow> if attestation_binds t a then return t else raise ProfileAttestation)))))))))"

definition transition_time :: "runtime \<Rightarrow> int \<Rightarrow> profile_transition \<Rightarrow> (profile_error, int) result" where
  "transition_time R now t = wanted ProfileTimestamp (state_time R now (Some (PStr (pt_requested_at t))))"

text \<open>The loop over the transitions: the hash and time reached so far.\<close>

fun check_profile_chain ::
  "runtime \<Rightarrow> int \<Rightarrow> int \<Rightarrow> pystr \<Rightarrow> int \<Rightarrow> pyval list
   \<Rightarrow> (profile_error, profile_transition list \<times> pystr \<times> int) result" where
  "check_profile_chain R now index h time [] = return ([], h, time)"
| "check_profile_chain R now index h time (v # vs) =
     bindR (profile_transition_of R now v) (\<lambda>t.
     if pt_from_generation t \<noteq> index \<or> pt_to_generation t \<noteq> index + 1 then raise ProfileChain
     else if pt_from_hash t \<noteq> h then raise ProfileChain
     else bindR (transition_time R now t) (\<lambda>at_time.
     if at_time < time then raise ProfileTimes
     else bindR (check_profile_chain R now (index + 1) (pt_to_hash t) at_time vs) (\<lambda>(ts, final, last_time).
       return (t # ts, final, last_time))))"

definition profile_state_fields :: "pystr list" where
  "profile_state_fields = map lit
     [''schema_name'', ''schema_version'', ''generation'', ''enrolled_at'', ''updated_at'',
      ''initial_profile_hash'', ''profile_hash'', ''transitions'', ''pending_rotation'']"

text \<open>A pending rotation starts at the current generation and profile, not before its time.\<close>

definition pending_of ::
  "runtime \<Rightarrow> int \<Rightarrow> int \<Rightarrow> pystr \<Rightarrow> int \<Rightarrow> pyval option \<Rightarrow> (profile_error, profile_transition option) result" where
  "pending_of R now generation h updated_at v = (case v of
     None \<Rightarrow> return None
   | Some PNone \<Rightarrow> return None
   | Some w \<Rightarrow> bindR (profile_transition_of R now w) (\<lambda>t.
       if pt_from_generation t \<noteq> generation \<or> pt_to_generation t \<noteq> generation + 1 \<or> pt_from_hash t \<noteq> h
       then raise ProfilePending
       else bindR (transition_time R now t) (\<lambda>at_time.
         if at_time < updated_at then raise ProfilePending else return (Some t))))"

definition parse_profile_state :: "runtime \<Rightarrow> int \<Rightarrow> json_object \<Rightarrow> (profile_error, profile_state) result" where
  "parse_profile_state R now obj =
     (if set (map fst obj) \<noteq> set profile_state_fields
         \<or> \<not> has_value ''schema_name'' ''defiant.authority.profile'' obj
         \<or> \<not> has_value ''schema_version'' ''0.1.0'' obj then raise ProfileSchema
      else bindR (mapErr ProfileTrust (generation_of obj)) (\<lambda>generation.
      bindR (wanted ProfileTimestamp (state_time R now (obj_get ''enrolled_at'' obj))) (\<lambda>enrolled_at.
      bindR (wanted ProfileTimestamp (state_time R now (obj_get ''updated_at'' obj))) (\<lambda>updated_at.
      if updated_at < enrolled_at then raise ProfileTimes
      else bindR (profile_hash_of (obj_get ''initial_profile_hash'' obj)) (\<lambda>initial.
      bindR (profile_hash_of (obj_get ''profile_hash'' obj)) (\<lambda>current.
      bindR (mapErr ProfileTrust (transition_list generation obj)) (\<lambda>vs.
      bindR (check_profile_chain R now 1 initial enrolled_at vs) (\<lambda>(ts, final, last_time).
      if final \<noteq> current \<or> updated_at \<noteq> last_time then raise ProfileChain
      else bindR (pending_of R now generation current updated_at (obj_get ''pending_rotation'' obj)) (\<lambda>pending.
        return \<lparr>ps_generation = generation, ps_enrolled_at = text_of (obj_get ''enrolled_at'' obj),
          ps_updated_at = text_of (obj_get ''updated_at'' obj), ps_initial_hash = initial,
          ps_profile_hash = current, ps_transitions = ts, ps_pending = pending\<rparr>)))))))))"

definition profile_state_of :: "runtime \<Rightarrow> int \<Rightarrow> pyval \<Rightarrow> (profile_error, profile_state) result" where
  "profile_state_of R now v =
     bindR (wanted ProfileSnapshot (state_object max_profile_state_bytes v)) (parse_profile_state R now)"

subsection \<open>The file\<close>

definition optional_object :: "attestation option \<Rightarrow> pyval" where
  "optional_object att = (case att of None \<Rightarrow> PNone | Some a \<Rightarrow> json_of a)"

definition profile_transition_object :: "profile_transition \<Rightarrow> pyval" where
  "profile_transition_object t = json_of
     [(lit ''from_generation'', PInt (pt_from_generation t)), (lit ''to_generation'', PInt (pt_to_generation t)),
      (lit ''from_profile_hash'', PStr (pt_from_hash t)), (lit ''to_profile_hash'', PStr (pt_to_hash t)),
      (lit ''operator'', PStr (pt_operator t)), (lit ''note'', PStr (pt_note t)),
      (lit ''requested_at'', PStr (pt_requested_at t)), (lit ''attestation'', optional_object (pt_attestation t))]"

definition profile_object :: "profile_state \<Rightarrow> pyval" where
  "profile_object s = json_of
     [(lit ''schema_name'', PStr (lit ''defiant.authority.profile'')), (lit ''schema_version'', PStr (lit ''0.1.0'')),
      (lit ''generation'', PInt (ps_generation s)), (lit ''enrolled_at'', PStr (ps_enrolled_at s)),
      (lit ''updated_at'', PStr (ps_updated_at s)), (lit ''initial_profile_hash'', PStr (ps_initial_hash s)),
      (lit ''profile_hash'', PStr (ps_profile_hash s)),
      (lit ''transitions'', PList (map profile_transition_object (ps_transitions s))),
      (lit ''pending_rotation'', case ps_pending s of None \<Rightarrow> PNone | Some t \<Rightarrow> profile_transition_object t)]"

type_synonym 'a profile_effect = "(state_file, profile_error, 'a) effect"

definition get_profile :: "runtime \<Rightarrow> int \<Rightarrow> state_file \<Rightarrow> (profile_error, profile_state option) result" where
  "get_profile R now f = (case f of
     None \<Rightarrow> return None | Some v \<Rightarrow> bindR (profile_state_of R now v) (\<lambda>s. return (Some s)))"

definition write_profile :: "runtime \<Rightarrow> trust_env \<Rightarrow> int \<Rightarrow> profile_state \<Rightarrow> unit profile_effect" where
  "write_profile R env now s =
     bindA (liftA (profile_state_of R now (profile_object s))) (\<lambda>t.
     bindA (checkA (te_fits env (profile_object t)) ProfileTooLarge) (\<lambda>_.
       writeA (\<lambda>_. Some (profile_object t))))"

definition enrolled_profile :: "pystr \<Rightarrow> pystr \<Rightarrow> (profile_error, profile_state) result" where
  "enrolled_profile stamp h =
     bindR (profile_hash_of (Some (PStr h))) (\<lambda>h.
     bindR (require (state_snapshot max_profile_state_bytes (json_of
         [(lit ''generation'', PInt 1), (lit ''enrolled_at'', PStr stamp), (lit ''updated_at'', PStr stamp),
          (lit ''initial_profile_hash'', PStr h), (lit ''profile_hash'', PStr h), (lit ''transitions'', PList []),
          (lit ''pending_rotation'', PNone)]) \<noteq> None) ProfileSnapshot) (\<lambda>_.
       return \<lparr>ps_generation = 1, ps_enrolled_at = stamp, ps_updated_at = stamp, ps_initial_hash = h,
         ps_profile_hash = h, ps_transitions = [], ps_pending = None\<rparr>))"

subsection \<open>Verification\<close>

definition verify_profile_transition ::
  "runtime \<Rightarrow> int \<Rightarrow> trust_policy option \<Rightarrow> profile_transition \<Rightarrow> (profile_error, unit) result" where
  "verify_profile_transition R now trust t = (case pt_attestation t of
     None \<Rightarrow> return ()
   | Some att \<Rightarrow> (case trust of
       None \<Rightarrow> raise ProfileKeysRequired
     | Some T \<Rightarrow> mapErr ProfileIdentity (require_authority_profile_transition R T now (Some att)
         (pt_from_generation t) (pt_from_hash t) (pt_to_hash t) (pt_operator t) (pt_note t))))"

definition verify_profile ::
  "runtime \<Rightarrow> int \<Rightarrow> trust_policy option \<Rightarrow> profile_state \<Rightarrow> (profile_error, unit) result" where
  "verify_profile R now trust s =
     allR (verify_profile_transition R now trust)
       (ps_transitions s @ (case ps_pending s of None \<Rightarrow> [] | Some t \<Rightarrow> [t]))"

text \<open>Once operator trust is enrolled next to the profile, the same keys are required here.\<close>

definition require_enrolled_trust ::
  "runtime \<Rightarrow> int \<Rightarrow> state_file \<Rightarrow> trust_policy option \<Rightarrow> (profile_error, unit) result" where
  "require_enrolled_trust R now trust_file trust = (case trust_file of
     None \<Rightarrow> return ()
   | Some _ \<Rightarrow> (case trust of
       None \<Rightarrow> raise ProfileKeysRequired
     | Some T \<Rightarrow> bindR (mapErr ProfileTrust (get_trust R now trust_file)) (\<lambda>found. case found of
         None \<Rightarrow> raise ProfileNotEnrolled
       | Some s \<Rightarrow> mapErr ProfileTrust (verify_trust R now T s))))"

subsection \<open>Operations\<close>

definition activated :: "profile_transition \<Rightarrow> profile_state \<Rightarrow> profile_state" where
  "activated t s = s\<lparr>ps_generation := ps_generation s + 1, ps_updated_at := pt_requested_at t,
     ps_profile_hash := pt_to_hash t, ps_transitions := ps_transitions s @ [t], ps_pending := None\<rparr>"

text \<open>\<open>_candidate_for_authority\<close>: the state, and whether it is a new one that must be written.\<close>

definition candidate_profile ::
  "runtime \<Rightarrow> trust_env \<Rightarrow> pystr \<Rightarrow> trust_policy option \<Rightarrow> profile_state option
   \<Rightarrow> (profile_error, bool \<times> profile_state) result" where
  "candidate_profile R env h trust found = (case found of
     None \<Rightarrow> bindR (enrolled_profile (te_stamp env) h) (\<lambda>s. return (True, s))
   | Some s \<Rightarrow> bindR (verify_profile R (te_clock env 2) trust s) (\<lambda>_.
       if ps_profile_hash s = h then return (False, s)
       else (case ps_pending s of
           None \<Rightarrow> raise ProfileNotConfigured
         | Some t \<Rightarrow>
             if pt_to_hash t \<noteq> h then raise ProfileNotConfigured
             else if trust \<noteq> None \<and> pt_attestation t = None then raise ProfileUnsigned
             else bindR (profile_state_of R (te_clock env 3) (profile_object (activated t s))) (\<lambda>u.
               bindR (verify_profile R (te_clock env 4) trust u) (\<lambda>_. return (True, u))))))"

definition resolve_profile ::
  "runtime \<Rightarrow> trust_env \<Rightarrow> state_file \<Rightarrow> pystr \<Rightarrow> trust_policy option \<Rightarrow> profile_state profile_effect" where
  "resolve_profile R env trust_file h trust =
     bindA (liftA (profile_hash_of (Some (PStr h)))) (\<lambda>h.
     bindA (liftA (require_enrolled_trust R (te_clock env 0) trust_file trust)) (\<lambda>_.
     bindA (\<lambda>f. (get_profile R (te_clock env 1) f, f)) (\<lambda>found.
     bindA (liftA (candidate_profile R env h trust found)) (\<lambda>(changed, s).
     bindA (if changed then write_profile R env (te_clock env 5) s else okA ()) (\<lambda>_. okA s)))))"

definition preview_profile ::
  "runtime \<Rightarrow> trust_env \<Rightarrow> state_file \<Rightarrow> pystr \<Rightarrow> trust_policy option \<Rightarrow> profile_state profile_effect" where
  "preview_profile R env trust_file h trust =
     bindA (liftA (profile_hash_of (Some (PStr h)))) (\<lambda>h.
     bindA (liftA (require_enrolled_trust R (te_clock env 0) trust_file trust)) (\<lambda>_.
     bindA (\<lambda>f. (get_profile R (te_clock env 1) f, f)) (\<lambda>found.
     bindA (liftA (candidate_profile R env h trust found)) (\<lambda>(changed, s). okA s))))"

text \<open>Whether a pending rotation is the one that is requested again.\<close>

definition same_rotation :: "profile_transition \<Rightarrow> profile_transition \<Rightarrow> bool" where
  "same_rotation t u \<longleftrightarrow> pt_from_generation t = pt_from_generation u \<and> pt_to_generation t = pt_to_generation u
     \<and> pt_from_hash t = pt_from_hash u \<and> pt_to_hash t = pt_to_hash u \<and> pt_operator t = pt_operator u
     \<and> pt_note t = pt_note u"

text \<open>The signature of a requested rotation, and its time: that of the signature, or the clock.\<close>

definition rotation_time ::
  "runtime \<Rightarrow> trust_env \<Rightarrow> profile_state \<Rightarrow> pystr \<Rightarrow> pystr \<Rightarrow> pystr \<Rightarrow> trust_policy option \<Rightarrow> attestation option
   \<Rightarrow> (profile_error, pystr) result" where
  "rotation_time R env s target operator remark trust att = (case trust of
     None \<Rightarrow> if att \<noteq> None then raise ProfileKeysRequired else return (te_stamp env)
   | Some T \<Rightarrow> (case att of
       None \<Rightarrow> raise ProfileUnsigned
     | Some a \<Rightarrow> bindR (mapErr ProfileIdentity (require_authority_profile_transition R T (te_clock env 3) (Some a)
           (ps_generation s) (ps_profile_hash s) target operator remark)) (\<lambda>_.
         return (text_of (obj_get ''signed_at'' a)))))"

definition requested_transition ::
  "profile_state \<Rightarrow> pystr \<Rightarrow> pystr \<Rightarrow> pystr \<Rightarrow> pystr \<Rightarrow> attestation option \<Rightarrow> profile_transition" where
  "requested_transition s target operator remark requested_at att =
     \<lparr>pt_from_generation = ps_generation s, pt_to_generation = ps_generation s + 1, pt_from_hash = ps_profile_hash s,
      pt_to_hash = target, pt_operator = operator, pt_note = remark, pt_requested_at = requested_at,
      pt_attestation = att\<rparr>"

definition stage_rotation ::
  "runtime \<Rightarrow> trust_env \<Rightarrow> profile_state \<Rightarrow> pystr \<Rightarrow> pystr \<Rightarrow> pystr \<Rightarrow> trust_policy option \<Rightarrow> attestation option
   \<Rightarrow> profile_state profile_effect" where
  "stage_rotation R env s target operator remark trust att =
     bindA (liftA (rotation_time R env s target operator remark trust att)) (\<lambda>requested_at.
     bindA (liftA (profile_transition_of R (te_clock env 4)
         (profile_transition_object (requested_transition s target operator remark requested_at att)))) (\<lambda>t.
     case ps_pending s of
       Some p \<Rightarrow> if same_rotation p t then okA s else failA ProfileOtherPending
     | None \<Rightarrow>
         bindA (liftA (profile_state_of R (te_clock env 5) (profile_object (s\<lparr>ps_pending := Some t\<rparr>)))) (\<lambda>u.
         bindA (liftA (verify_profile R (te_clock env 6) trust u)) (\<lambda>_.
         bindA (write_profile R env (te_clock env 7) u) (\<lambda>_. okA u)))))"

definition request_rotation ::
  "runtime \<Rightarrow> trust_env \<Rightarrow> state_file \<Rightarrow> pystr \<Rightarrow> pystr \<Rightarrow> pystr \<Rightarrow> trust_policy option \<Rightarrow> attestation option
   \<Rightarrow> profile_state profile_effect" where
  "request_rotation R env trust_file target operator remark trust att =
     bindA (liftA (profile_hash_of (Some (PStr target)))) (\<lambda>target.
     bindA (liftA (require_enrolled_trust R (te_clock env 0) trust_file trust)) (\<lambda>_.
     bindA (liftA (profile_text max_operator_chars (Some (PStr operator)))) (\<lambda>operator.
     bindA (liftA (profile_text max_note_chars (Some (PStr remark)))) (\<lambda>remark.
     bindA (\<lambda>f. (get_profile R (te_clock env 1) f, f)) (\<lambda>found. case found of
       None \<Rightarrow> failA ProfileNotEnrolled
     | Some s \<Rightarrow> bindA (liftA (verify_profile R (te_clock env 2) trust s)) (\<lambda>_.
         if ps_profile_hash s = target
         then (if ps_pending s = None then okA s else failA ProfileOtherPending)
         else stage_rotation R env s target operator remark trust att))))))"

end
