(* ===== verification/AuthorityProfileFacts.thy ===== *)
theory AuthorityProfileFacts
  imports AuthorityProfile
begin

text \<open>
  What the authority profile keeps: what is written is read back, a file determines its state, and every
  operation keeps the active profile or activates the one whose rotation was pending.
\<close>

subsection \<open>What a parsed state satisfies\<close>

lemma profile_fields [simp]:
  "profile_hash_of v = return h \<longleftrightarrow> v = Some (PStr h) \<and> is_sha256 h"
  "profile_text n v = return s \<longleftrightarrow> v = Some (PStr s) \<and> py_strip s \<noteq> [] \<and> py_strip s = s \<and> length s \<le> n"
  "generation_field k obj = return i \<longleftrightarrow> obj_get k obj = Some (PInt i)"
  by (auto simp: profile_hash_of_def profile_text_def generation_field_def split: option.splits pyval.splits if_splits)

lemma attestation_field_cases:
  assumes "attestation_field obj = return a"
  obtains "a = None" | att where "a = Some att" "obj_get ''attestation'' obj = Some (json_of att)"
  using assms by (auto simp: attestation_field_def object_entries_Some json_of_def split: option.splits pyval.splits)

lemma attestation_field_object [simp]:
  "obj_get ''attestation'' obj = Some (optional_object a) \<Longrightarrow> attestation_field obj = return a"
proof (cases a)
  case (Some att)
  have "wanted ProfileAttestation (object_entries (json_of att)) = return att" by simp
  moreover assume "obj_get ''attestation'' obj = Some (optional_object a)"
  ultimately show ?thesis using Some by (simp add: attestation_field_def optional_object_def json_of_def)
qed (simp add: attestation_field_def optional_object_def)

lemma profile_transitionE:
  assumes "profile_transition_of R now v = return t"
  obtains obj at_time where "object_entries v = Some obj" "1 \<le> pt_from_generation t"
    "pt_to_generation t = pt_from_generation t + 1" "pt_from_hash t \<noteq> pt_to_hash t"
    "obj_get ''from_generation'' obj = Some (PInt (pt_from_generation t))"
    "obj_get ''to_generation'' obj = Some (PInt (pt_to_generation t))"
    "obj_get ''from_profile_hash'' obj = Some (PStr (pt_from_hash t))"
    "obj_get ''to_profile_hash'' obj = Some (PStr (pt_to_hash t))"
    "is_sha256 (pt_from_hash t)" "is_sha256 (pt_to_hash t)"
    "obj_get ''operator'' obj = Some (PStr (pt_operator t))" "obj_get ''note'' obj = Some (PStr (pt_note t))"
    "state_time R now (obj_get ''requested_at'' obj) = Some at_time" "pt_requested_at t = text_of (obj_get ''requested_at'' obj)"
    "attestation_field obj = return (pt_attestation t)"
  using assms by (auto simp: profile_transition_of_def Let_def split: if_splits option.splits)

lemma check_profile_chain_ConsE:
  assumes "check_profile_chain R now index h time (v # vs) = return (ts, final, last_time)"
  obtains t at_time rest where "profile_transition_of R now v = return t" "pt_from_generation t = index"
    "pt_from_hash t = h" "transition_time R now t = return at_time" "time \<le> at_time"
    "check_profile_chain R now (index + 1) (pt_to_hash t) at_time vs = return (rest, final, last_time)" "ts = t # rest"
  using assms by (auto split: if_splits)

lemma pending_ofE:
  assumes "pending_of R now g h ut v = return p"
  obtains "p = None" | t w where "p = Some t" "v = Some w" "profile_transition_of R now w = return t"
    "pt_from_generation t = g" "pt_from_hash t = h"
  using assms by (auto simp: pending_of_def split: option.splits pyval.splits if_splits)

lemma parse_profile_stateE:
  assumes "parse_profile_state R now obj = return s"
  obtains et ut vs where "obj_get ''generation'' obj = Some (PInt (ps_generation s))" "1 \<le> ps_generation s"
    "state_time R now (obj_get ''enrolled_at'' obj) = Some et" "state_time R now (obj_get ''updated_at'' obj) = Some ut"
    "et \<le> ut" "obj_get ''initial_profile_hash'' obj = Some (PStr (ps_initial_hash s))"
    "obj_get ''profile_hash'' obj = Some (PStr (ps_profile_hash s))" "is_sha256 (ps_profile_hash s)"
    "obj_get ''transitions'' obj = Some (PList vs)" "int (length vs) = ps_generation s - 1"
    "check_profile_chain R now 1 (ps_initial_hash s) et vs = return (ps_transitions s, ps_profile_hash s, ut)"
    "pending_of R now (ps_generation s) (ps_profile_hash s) ut (obj_get ''pending_rotation'' obj) = return (ps_pending s)"
    "ps_enrolled_at s = text_of (obj_get ''enrolled_at'' obj)" "ps_updated_at s = text_of (obj_get ''updated_at'' obj)"
  using assms by (auto simp: parse_profile_state_def split: if_splits)

lemma profile_state_ofE:
  assumes "profile_state_of R now v = return s"
  obtains obj where "exact (json_of obj)" "exact v \<Longrightarrow> v = json_of obj" "parse_profile_state R now obj = return s"
    "state_object max_profile_state_bytes v = Some obj"
  using assms by (auto simp: profile_state_of_def dest: state_objectD)

lemma check_profile_chain_length:
  "check_profile_chain R now index h time vs = return (ts, final, last_time) \<Longrightarrow> length ts = length vs"
proof (induction vs arbitrary: index h time ts)
  case (Cons v vs)
  from Cons.prems show ?case by (rule check_profile_chain_ConsE) (use Cons.IH in fastforce)
qed simp

subsection \<open>Reading back what is written\<close>

lemma profile_transition_exact:
  assumes "profile_transition_of R now v = return t" "exact v"
  shows "exact (profile_transition_object t)"
  using assms(1)
proof (rule profile_transitionE)
  fix obj
  assume o: "object_entries v = Some obj" "attestation_field obj = return (pt_attestation t)"
  have obj: "\<forall>kv \<in> set obj. exact (snd kv)" using o(1) assms(2) by (simp add: object_entries_Some exact_json_of)
  from o(2) have "exact (optional_object (pt_attestation t))"
    by (cases rule: attestation_field_cases) (use get_mapped obj in \<open>auto simp: optional_object_def\<close>)
  then show ?thesis by (simp add: profile_transition_object_def exact_json_of)
qed

lemma profile_transition_read:
  assumes "profile_transition_of R now (profile_transition_object u) = return t"
  shows "t = u"
  using assms
proof (rule profile_transitionE)
  fix obj at_time
  assume o: "object_entries (profile_transition_object u) = Some obj"
    "obj_get ''from_generation'' obj = Some (PInt (pt_from_generation t))"
    "obj_get ''to_generation'' obj = Some (PInt (pt_to_generation t))"
    "obj_get ''from_profile_hash'' obj = Some (PStr (pt_from_hash t))"
    "obj_get ''to_profile_hash'' obj = Some (PStr (pt_to_hash t))"
    "obj_get ''operator'' obj = Some (PStr (pt_operator t))" "obj_get ''note'' obj = Some (PStr (pt_note t))"
    "pt_requested_at t = text_of (obj_get ''requested_at'' obj)" "attestation_field obj = return (pt_attestation t)"
  have obj: "obj = [(lit ''from_generation'', PInt (pt_from_generation u)), (lit ''to_generation'', PInt (pt_to_generation u)),
      (lit ''from_profile_hash'', PStr (pt_from_hash u)), (lit ''to_profile_hash'', PStr (pt_to_hash u)),
      (lit ''operator'', PStr (pt_operator u)), (lit ''note'', PStr (pt_note u)),
      (lit ''requested_at'', PStr (pt_requested_at u)), (lit ''attestation'', optional_object (pt_attestation u))]"
    using o(1) by (simp add: profile_transition_object_def)
  then have "attestation_field obj = return (pt_attestation u)" by simp
  then show ?thesis using o(2-9) obj by simp
qed

lemma check_profile_chain_read:
  "check_profile_chain R now index h time (map profile_transition_object us) = return (ts, final, last_time) \<Longrightarrow> ts = us"
proof (induction us arbitrary: index h time ts)
  case (Cons u us)
  from Cons.prems have "check_profile_chain R now index h time (profile_transition_object u # map profile_transition_object us)
      = return (ts, final, last_time)" by simp
  then show ?case by (rule check_profile_chain_ConsE) (use Cons.IH profile_transition_read in fastforce)
qed simp

lemma check_profile_chain_exact:
  "check_profile_chain R now index h time vs = return (ts, final, last_time) \<Longrightarrow> \<forall>v \<in> set vs. exact v \<Longrightarrow>
   \<forall>t \<in> set ts. exact (profile_transition_object t)"
proof (induction vs arbitrary: index h time ts)
  case (Cons v vs)
  from Cons.prems(1) show ?case
  proof (rule check_profile_chain_ConsE)
    fix t at_time rest
    assume 1: "profile_transition_of R now v = return t"
      "check_profile_chain R now (index + 1) (pt_to_hash t) at_time vs = return (rest, final, last_time)" "ts = t # rest"
    show ?thesis using profile_transition_exact [OF 1(1)] Cons.IH [OF 1(2)] Cons.prems(2) 1(3) by simp
  qed
qed simp

lemma pending_read:
  assumes "pending_of R now g h ut (Some (case p of None \<Rightarrow> PNone | Some t \<Rightarrow> profile_transition_object t)) = return q"
  shows "q = p"
proof (cases p)
  case None
  then show ?thesis using assms by (simp add: pending_of_def)
next
  case (Some t)
  have o: "profile_transition_object t = PDict kvs \<Longrightarrow> pending_of R now g h ut (Some (profile_transition_object t)) = return None
      \<Longrightarrow> False" for kvs
    by (auto simp: pending_of_def split: if_splits)
  obtain kvs where k: "profile_transition_object t = PDict kvs" by (simp add: profile_transition_object_def json_of_def)
  have "q \<noteq> None" using o [OF k] assms Some by (cases q) auto
  from assms show ?thesis
    by (cases rule: pending_ofE) (use Some \<open>q \<noteq> None\<close> in \<open>auto dest: profile_transition_read simp del: not_None_eq\<close>)
qed

lemma profile_object_entries:
  assumes "profile_object s = json_of obj"
  shows "obj = [(lit ''schema_name'', PStr (lit ''defiant.authority.profile'')), (lit ''schema_version'', PStr (lit ''0.1.0'')),
      (lit ''generation'', PInt (ps_generation s)), (lit ''enrolled_at'', PStr (ps_enrolled_at s)),
      (lit ''updated_at'', PStr (ps_updated_at s)), (lit ''initial_profile_hash'', PStr (ps_initial_hash s)),
      (lit ''profile_hash'', PStr (ps_profile_hash s)),
      (lit ''transitions'', PList (map profile_transition_object (ps_transitions s))),
      (lit ''pending_rotation'', case ps_pending s of None \<Rightarrow> PNone | Some t \<Rightarrow> profile_transition_object t)]"
proof -
  have "object_entries (profile_object s) = Some obj" using assms by simp
  then show ?thesis by (simp add: profile_object_def)
qed

lemma profile_read_back:
  assumes "profile_state_of R now (profile_object u) = return t" "exact (profile_object u)"
  shows "t = u"
proof -
  from assms(1) obtain obj where o: "profile_object u = json_of obj" "parse_profile_state R now obj = return t"
    by (rule profile_state_ofE) (use assms(2) in auto)
  note g = profile_object_entries [OF o(1)]
  from o(2) show ?thesis
  proof (rule parse_profile_stateE)
    fix et ut vs
    assume p: "obj_get ''generation'' obj = Some (PInt (ps_generation t))"
      "obj_get ''initial_profile_hash'' obj = Some (PStr (ps_initial_hash t))"
      "obj_get ''profile_hash'' obj = Some (PStr (ps_profile_hash t))" "obj_get ''transitions'' obj = Some (PList vs)"
      "check_profile_chain R now 1 (ps_initial_hash t) et vs = return (ps_transitions t, ps_profile_hash t, ut)"
      "pending_of R now (ps_generation t) (ps_profile_hash t) ut (obj_get ''pending_rotation'' obj) = return (ps_pending t)"
      "ps_enrolled_at t = text_of (obj_get ''enrolled_at'' obj)" "ps_updated_at t = text_of (obj_get ''updated_at'' obj)"
    have "ps_transitions t = ps_transitions u" using p(4,5) g by (auto dest: check_profile_chain_read)
    moreover have "ps_pending t = ps_pending u" using p(6) g by (auto dest: pending_read)
    ultimately show ?thesis using p(1,2,3,7,8) g by simp
  qed
qed

lemma profile_state_exact:
  assumes "profile_state_of R now v = return s"
  shows "exact (profile_object s)"
  using assms
proof (rule profile_state_ofE)
  fix obj assume o: "exact (json_of obj)" "parse_profile_state R now obj = return s"
  from o(2) show ?thesis
  proof (rule parse_profile_stateE)
    fix et ut vs
    assume p: "obj_get ''transitions'' obj = Some (PList vs)"
      "check_profile_chain R now 1 (ps_initial_hash s) et vs = return (ps_transitions s, ps_profile_hash s, ut)"
      "pending_of R now (ps_generation s) (ps_profile_hash s) ut (obj_get ''pending_rotation'' obj) = return (ps_pending s)"
    have obj: "\<forall>kv \<in> set obj. exact (snd kv)" using o(1) by (simp add: exact_json_of)
    have "\<forall>v \<in> set vs. exact v" using get_mapped [OF p(1) obj] by simp
    then have "\<forall>t \<in> set (ps_transitions s). exact (profile_transition_object t)"
      by (rule check_profile_chain_exact [OF p(2)])
    moreover from p(3) have "exact (case ps_pending s of None \<Rightarrow> PNone | Some t \<Rightarrow> profile_transition_object t)"
      by (cases rule: pending_ofE) (use obj in \<open>auto dest: get_mapped intro: profile_transition_exact\<close>)
    ultimately show ?thesis by (simp add: profile_object_def exact_json_of)
  qed
qed

lemma profile_transition_unique:
  assumes "profile_transition_of R now v = return t" "profile_transition_of R now' v = return u"
  shows "u = t"
proof -
  have "profile_transition_of R now v = return t \<Longrightarrow> profile_transition_of R now' v = return u \<Longrightarrow>
      pt_from_generation u = pt_from_generation t \<and> pt_to_generation u = pt_to_generation t
      \<and> pt_from_hash u = pt_from_hash t \<and> pt_to_hash u = pt_to_hash t \<and> pt_operator u = pt_operator t
      \<and> pt_note u = pt_note t \<and> pt_requested_at u = pt_requested_at t \<and> pt_attestation u = pt_attestation t"
    by (elim profile_transitionE) auto
  then show ?thesis using assms by simp
qed

lemma transition_time_unique:
  "transition_time R now t = return x \<Longrightarrow> transition_time R now' t = return y \<Longrightarrow> y = x"
  by (auto simp: transition_time_def dest: state_time_unique)

lemma check_profile_chain_unique:
  "check_profile_chain R now index h time vs = return (ts, x, y) \<Longrightarrow>
   check_profile_chain R now' index h time vs = return (us, z, w) \<Longrightarrow> us = ts"
proof (induction vs arbitrary: index h time ts us)
  case (Cons v vs)
  from Cons.prems(1) show ?case
  proof (rule check_profile_chain_ConsE)
    fix t a rest
    assume 1: "profile_transition_of R now v = return t" "transition_time R now t = return a"
      "check_profile_chain R now (index + 1) (pt_to_hash t) a vs = return (rest, x, y)" "ts = t # rest"
    from Cons.prems(2) show ?thesis
    proof (rule check_profile_chain_ConsE)
      fix t2 a2 rest2
      assume 2: "profile_transition_of R now' v = return t2" "transition_time R now' t2 = return a2"
        "check_profile_chain R now' (index + 1) (pt_to_hash t2) a2 vs = return (rest2, z, w)" "us = t2 # rest2"
      have "t2 = t" by (rule profile_transition_unique [OF 1(1) 2(1)])
      moreover from this have "a2 = a" using 1(2) 2(2) by (auto dest: transition_time_unique)
      ultimately show ?thesis using Cons.IH [OF 1(3), of rest2] 2(3,4) 1(4) by simp
    qed
  qed
qed simp

lemma pending_unique:
  assumes "pending_of R now g h ut v = return p" "pending_of R now' g h ut v = return q"
  shows "q = p"
  using assms
  by (auto simp: pending_of_def split: option.splits pyval.splits if_splits dest: profile_transition_unique)

lemma profile_state_unique:
  assumes "profile_state_of R now v = return s" "profile_state_of R now' v = return s'"
  shows "s' = s"
proof -
  obtain obj where o: "parse_profile_state R now obj = return s" "parse_profile_state R now' obj = return s'"
    using assms by (auto simp: profile_state_of_def)
  from o(1) show ?thesis
  proof (rule parse_profile_stateE)
    fix et ut vs
    assume 1: "obj_get ''generation'' obj = Some (PInt (ps_generation s))" "state_time R now (obj_get ''enrolled_at'' obj) = Some et"
      "state_time R now (obj_get ''updated_at'' obj) = Some ut"
      "obj_get ''initial_profile_hash'' obj = Some (PStr (ps_initial_hash s))"
      "obj_get ''profile_hash'' obj = Some (PStr (ps_profile_hash s))" "obj_get ''transitions'' obj = Some (PList vs)"
      "check_profile_chain R now 1 (ps_initial_hash s) et vs = return (ps_transitions s, ps_profile_hash s, ut)"
      "pending_of R now (ps_generation s) (ps_profile_hash s) ut (obj_get ''pending_rotation'' obj) = return (ps_pending s)"
      "ps_enrolled_at s = text_of (obj_get ''enrolled_at'' obj)" "ps_updated_at s = text_of (obj_get ''updated_at'' obj)"
    from o(2) show ?thesis
    proof (rule parse_profile_stateE)
      fix et2 ut2 vs2
      assume 2: "obj_get ''generation'' obj = Some (PInt (ps_generation s'))"
        "state_time R now' (obj_get ''enrolled_at'' obj) = Some et2" "state_time R now' (obj_get ''updated_at'' obj) = Some ut2"
        "obj_get ''initial_profile_hash'' obj = Some (PStr (ps_initial_hash s'))"
        "obj_get ''profile_hash'' obj = Some (PStr (ps_profile_hash s'))" "obj_get ''transitions'' obj = Some (PList vs2)"
        "check_profile_chain R now' 1 (ps_initial_hash s') et2 vs2 = return (ps_transitions s', ps_profile_hash s', ut2)"
        "pending_of R now' (ps_generation s') (ps_profile_hash s') ut2 (obj_get ''pending_rotation'' obj) = return (ps_pending s')"
        "ps_enrolled_at s' = text_of (obj_get ''enrolled_at'' obj)" "ps_updated_at s' = text_of (obj_get ''updated_at'' obj)"
      have e: "et2 = et" "ut2 = ut" "vs2 = vs" "ps_initial_hash s' = ps_initial_hash s" "ps_profile_hash s' = ps_profile_hash s"
        "ps_generation s' = ps_generation s"
        using 1(1-6) 2(1-6) by (auto dest: state_time_unique)
      have "ps_transitions s' = ps_transitions s" "ps_pending s' = ps_pending s"
        using check_profile_chain_unique [OF 1(7)] pending_unique [OF 1(8)] 2(7,8) e by simp_all
      then show ?thesis using 1(9,10) 2(9,10) e by simp
    qed
  qed
qed

subsection \<open>Operations on the file\<close>

definition profile_stored :: "runtime \<Rightarrow> state_file \<Rightarrow> profile_state \<Rightarrow> bool" where
  "profile_stored R f s \<longleftrightarrow> (\<exists>v now. f = Some v \<and> profile_state_of R now v = return s)"

lemma profile_stored_unique: "profile_stored R f s \<Longrightarrow> profile_stored R f t \<Longrightarrow> t = s"
  by (auto simp: profile_stored_def dest: profile_state_unique)

lemma profile_stored_exact: "profile_stored R f s \<Longrightarrow> exact (profile_object s)"
  by (auto simp: profile_stored_def dest: profile_state_exact)

lemma get_profile_Some: "get_profile R now f = return (Some s) \<Longrightarrow> profile_stored R f s"
  by (auto simp: get_profile_def profile_stored_def split: option.splits)

lemma get_profile_None [simp]: "get_profile R now f = return None \<longleftrightarrow> f = None"
  by (auto simp: get_profile_def split: option.splits)

lemma write_profile_cases:
  assumes "write_profile R env now s f = (r, g)" "exact (profile_object s)"
  obtains e where "r = raise e" "g = f"
  | "r = return ()" "g = Some (profile_object s)" "profile_stored R g s"
proof (cases "profile_state_of R now (profile_object s)")
  case (Inl e)
  then show ?thesis using assms(1) by (intro that(1) [of e]) (simp_all add: write_profile_def bindA_def)
next
  case (Inr t)
  moreover from this have "t = s" using assms(2) by (rule profile_read_back)
  ultimately show ?thesis
    using assms that
    by (cases "te_fits env (profile_object s)") (auto simp: write_profile_def bindA_def checkA_def profile_stored_def)
qed

lemma enrolled_profile_exact: "enrolled_profile stamp h = return s \<Longrightarrow> exact (profile_object s) \<and> ps_profile_hash s = h"
  by (auto simp: enrolled_profile_def profile_object_def exact_json_of)

lemma activated_exact:
  "exact (profile_object s) \<Longrightarrow> ps_pending s = Some t \<Longrightarrow> exact (profile_object (activated t s))"
  by (auto simp: profile_object_def exact_json_of activated_def)

lemma pending_binds:
  assumes "profile_stored R f s" "ps_pending s = Some t"
  shows "pt_from_hash t = ps_profile_hash s" "pt_from_generation t = ps_generation s"
    "pt_to_hash t \<noteq> ps_profile_hash s"
proof -
  obtain v now obj where "parse_profile_state R now obj = return s"
    using assms(1) by (auto simp: profile_stored_def elim!: profile_state_ofE)
  then have "pt_from_hash t = ps_profile_hash s \<and> pt_from_generation t = ps_generation s \<and> pt_to_hash t \<noteq> ps_profile_hash s"
  proof (rule parse_profile_stateE)
    fix et ut vs
    assume "pending_of R now (ps_generation s) (ps_profile_hash s) ut (obj_get ''pending_rotation'' obj) = return (ps_pending s)"
    then show ?thesis
      by (cases rule: pending_ofE) (use assms(2) in \<open>auto elim: profile_transitionE\<close>)
  qed
  then show "pt_from_hash t = ps_profile_hash s" "pt_from_generation t = ps_generation s"
    "pt_to_hash t \<noteq> ps_profile_hash s" by simp_all
qed

text \<open>A rotation's authority: without configured keys anything that was staged, with them a valid
  signature over a statement that names exactly this change.\<close>

definition profile_authority :: "runtime \<Rightarrow> trust_policy option \<Rightarrow> profile_transition \<Rightarrow> bool" where
  "profile_authority R trust t \<longleftrightarrow> (case trust of
     None \<Rightarrow> pt_attestation t = None
   | Some T \<Rightarrow> (\<exists>att now. pt_attestation t = Some att \<and> signed_under T profile_domain att
       \<and> names_change att (pt_from_generation t) (''from_profile_hash'', pt_from_hash t) (''to_profile_hash'', pt_to_hash t)
       \<and> require_authority_profile_transition R T now (Some att) (pt_from_generation t) (pt_from_hash t) (pt_to_hash t)
           (pt_operator t) (pt_note t) = return ()))"

lemma require_authority_profile_transitionD:
  assumes "require_authority_profile_transition R T now (Some att) generation from_hash to_hash operator remark = return u"
  shows "signed_under T profile_domain att"
    "names_change att generation (''from_profile_hash'', from_hash) (''to_profile_hash'', to_hash)"
  using assms by (auto simp: require_authority_profile_transition_def dest: require_signed_transitionD)

lemma verified_authority:
  assumes "verify_profile R now trust s = return ()" "t \<in> set (ps_transitions s) \<or> ps_pending s = Some t"
    and "trust \<noteq> None \<longrightarrow> pt_attestation t \<noteq> None"
  shows "profile_authority R trust t"
proof -
  have "verify_profile_transition R now trust t = return ()"
    using assms(1,2) by (auto simp: verify_profile_def)
  then show ?thesis
    using assms(3) by (auto simp: verify_profile_transition_def profile_authority_def dest: require_authority_profile_transitionD
        split: option.splits)
qed

lemma candidate_profile_cases:
  assumes "candidate_profile R env h trust found = return (changed, u)" "\<forall>s. found = Some s \<longrightarrow> profile_stored R f s"
  obtains "found = None" "changed" "ps_profile_hash u = h" "exact (profile_object u)"
  | s where "found = Some s" "\<not> changed" "u = s" "ps_profile_hash s = h"
  | s t where "found = Some s" "changed" "ps_pending s = Some t" "pt_to_hash t = h" "u = activated t s"
      "exact (profile_object u)" "profile_authority R trust t"
proof (cases found)
  case None
  then show ?thesis using assms that(1) by (auto simp: candidate_profile_def dest: enrolled_profile_exact)
next
  case (Some s)
  have s: "profile_stored R f s" using assms(2) Some by blast
  show ?thesis
  proof (cases "ps_profile_hash s = h")
    case True
    then show ?thesis using assms(1) Some that(2) by (auto simp: candidate_profile_def)
  next
    case False
    obtain t now where t: "ps_pending s = Some t" "pt_to_hash t = h" "trust \<noteq> None \<longrightarrow> pt_attestation t \<noteq> None" "changed"
      "verify_profile R (te_clock env 2) trust s = return ()" "profile_state_of R now (profile_object (activated t s)) = return u"
      using assms(1) Some False by (auto simp: candidate_profile_def split: option.splits if_splits)
    have e: "exact (profile_object (activated t s))"
      using profile_stored_exact [OF s] t(1) by (rule activated_exact)
    have "u = activated t s" by (rule profile_read_back [OF t(6) e])
    then show ?thesis using that(3) [OF Some] t e verified_authority [OF t(5)] by auto
  qed
qed

lemma resolve_profile_cases:
  assumes "resolve_profile R env tf h trust f = (r, g)"
  obtains e where "r = raise e" "g = f"
  | s where "f = None" "r = return s" "ps_profile_hash s = h" "profile_stored R g s"
  | s where "profile_stored R f s" "r = return s" "g = f" "ps_profile_hash s = h"
  | s t where "profile_stored R f s" "ps_pending s = Some t" "pt_to_hash t = h" "r = return (activated t s)"
      "profile_stored R g (activated t s)" "profile_authority R trust t"
proof (cases "\<exists>e. r = raise e \<and> g = f")
  case True
  then show ?thesis using that(1) by blast
next
  case False
  obtain found changed s where 1: "get_profile R (te_clock env 1) f = return found"
    "candidate_profile R env h trust found = return (changed, s)"
    "bindA (if changed then write_profile R env (te_clock env 5) s else okA ()) (\<lambda>_. okA s) f = (r, g)"
    using assms False
    by (auto simp: resolve_profile_def bindA_def liftA_def split: sum.splits prod.splits simp del: okA_simp)
  have stored: "\<forall>x. found = Some x \<longrightarrow> profile_stored R f x" using get_profile_Some 1(1) by blast
  have written: "profile_stored R g s" "r = return s" if changed and "exact (profile_object s)"
  proof -
    obtain r' g' where w: "write_profile R env (te_clock env 5) s f = (r', g')" by (rule prod.exhaust)
    have "profile_stored R g s \<and> r = return s"
      using w that by (elim write_profile_cases) (use 1(3) w that False in \<open>auto simp: bindA_def\<close>)
    then show "profile_stored R g s" "r = return s" by simp_all
  qed
  from candidate_profile_cases [OF 1(2) stored] show ?thesis
  proof cases
    case 1
    then show ?thesis using that(2) written \<open>get_profile R _ f = return found\<close> by auto
  next
    case (2 x)
    then show ?thesis using that(3) [of x] stored \<open>bindA _ _ f = (r, g)\<close> by auto
  next
    case (3 x t)
    then show ?thesis using that(4) [of x t] stored written by auto
  qed
qed

text \<open>Staging changes only the pending rotation, and only when there is none.\<close>

lemma requested_exact:
  "exact (profile_object s) \<Longrightarrow> (\<And>a. att = Some a \<Longrightarrow> exact (json_of a)) \<Longrightarrow>
   exact (profile_object (s\<lparr>ps_pending := Some (requested_transition s target operator remark at_text att)\<rparr>))"
  by (cases att) (auto simp: profile_object_def exact_json_of requested_transition_def profile_transition_object_def
      optional_object_def)

lemma stage_rotation_cases:
  assumes "stage_rotation R env s target operator remark trust att f = (r, g)" "profile_stored R f s"
    and "\<forall>a. att = Some a \<longrightarrow> wf_dict a"
  obtains "g = f"
  | t where "ps_pending s = None" "pt_to_hash t = target" "profile_stored R g (s\<lparr>ps_pending := Some t\<rparr>)"
proof (cases "g = f")
  case False
  obtain at_text t u where 1: "rotation_time R env s target operator remark trust att = return at_text"
    "profile_transition_of R (te_clock env 4)
       (profile_transition_object (requested_transition s target operator remark at_text att)) = return t"
    "ps_pending s = None" "profile_state_of R (te_clock env 5) (profile_object (s\<lparr>ps_pending := Some t\<rparr>)) = return u"
    "bindA (write_profile R env (te_clock env 7) u) (\<lambda>_. okA u) f = (r, g)"
    using assms(1) False
    by (auto simp: stage_rotation_def bindA_def liftA_def okA_def split: sum.splits prod.splits option.splits if_splits)
  have t: "t = requested_transition s target operator remark at_text att" by (rule profile_transition_read [OF 1(2)])
  have "exact (json_of a)" if "att = Some a" for a
    using 1(1) that assms(3)
    by (auto simp: rotation_time_def require_authority_profile_transition_def validate_authority_profile_transition_def
        split: option.splits if_splits intro: validated_transition_exact)
  then have e: "exact (profile_object (s\<lparr>ps_pending := Some t\<rparr>))"
    unfolding t by (intro requested_exact profile_stored_exact [OF assms(2)]) simp
  then have u: "u = s\<lparr>ps_pending := Some t\<rparr>" by (intro profile_read_back [OF 1(4)])
  obtain r' g' where w: "write_profile R env (te_clock env 7) u f = (r', g')" by (rule prod.exhaust)
  have "profile_stored R g u"
    using w e [folded u] by (elim write_profile_cases) (use 1(5) w False in \<open>auto simp: bindA_def\<close>)
  moreover have "pt_to_hash t = target" by (simp add: t requested_transition_def)
  ultimately show ?thesis using that(2) [OF 1(3)] unfolding u by blast
qed (use that in blast)

lemma request_rotation_cases:
  assumes "request_rotation R env tf target operator remark trust att f = (r, g)"
    and "\<forall>a. att = Some a \<longrightarrow> wf_dict a"
  obtains "g = f"
  | s t where "profile_stored R f s" "ps_pending s = None" "pt_to_hash t = target"
      "profile_stored R g (s\<lparr>ps_pending := Some t\<rparr>)"
proof (cases "g = f")
  case False
  obtain s where 1: "get_profile R (te_clock env 1) f = return (Some s)"
    "stage_rotation R env s target operator remark trust att f = (r, g)"
    using assms(1) False
    by (auto simp: request_rotation_def bindA_def liftA_def okA_def split: sum.splits prod.splits option.splits if_splits)
  note s = get_profile_Some [OF 1(1)]
  from stage_rotation_cases [OF 1(2) s assms(2)] show ?thesis
    by cases (use False that(2) [OF s] in auto)
qed (use that in blast)

subsection \<open>The authority profile is a ratchet\<close>

datatype profile_use =
    ResolveProfile trust_env state_file pystr "trust_policy option"
  | RequestRotation trust_env state_file pystr pystr pystr "trust_policy option" "attestation option"

definition profile_step :: "runtime \<Rightarrow> profile_use \<Rightarrow> state_file \<Rightarrow> state_file" where
  "profile_step R u f = (case u of
     ResolveProfile env tf h trust \<Rightarrow> snd (resolve_profile R env tf h trust f)
   | RequestRotation env tf target operator remark trust att \<Rightarrow>
       snd (request_rotation R env tf target operator remark trust att f))"

text \<open>Attestations are dictionaries.\<close>

definition profile_use_ok :: "profile_use \<Rightarrow> bool" where
  "profile_use_ok u = (case u of
     ResolveProfile _ _ _ _ \<Rightarrow> True
   | RequestRotation _ _ _ _ _ _ att \<Rightarrow> (case att of None \<Rightarrow> True | Some a \<Rightarrow> wf_dict a))"

definition profile_core :: "profile_state \<Rightarrow> pystr \<times> profile_transition list" where
  "profile_core s = (ps_profile_hash s, ps_transitions s)"

text \<open>
  One rotation, activated by one of the uses \<open>S\<close>, a start under the new profile: it was requested for the
  pinned hash and generation; where a trust file is beside the profile, that use has keys that are the
  enrolled ones; and the rotation carries an attestation that passes every check of its verification,
  the signature included, under the keys of that use, or none when that use has no keys.
\<close>

definition profile_rotation ::
  "runtime \<Rightarrow> profile_use set \<Rightarrow> pystr \<times> profile_transition list \<Rightarrow> pystr \<times> profile_transition list \<Rightarrow> bool" where
  "profile_rotation R S c d \<longleftrightarrow> (\<exists>env tf trust t. ResolveProfile env tf (fst d) trust \<in> S
     \<and> snd d = snd c @ [t] \<and> pt_from_hash t = fst c \<and> pt_to_hash t = fst d
     \<and> fst d \<noteq> fst c \<and> pt_from_generation t = int (length (snd c)) + 1
     \<and> require_enrolled_trust R (te_clock env 0) tf trust = return () \<and> profile_authority R trust t)"

lemma profile_stored_generation:
  assumes "profile_stored R f s"
  shows "ps_generation s = int (length (ps_transitions s)) + 1"
  using assms
  by (auto simp: profile_stored_def elim!: profile_state_ofE parse_profile_stateE dest!: check_profile_chain_length)

lemma enrolled_trust_keys: "require_enrolled_trust R now (Some v) trust = return () \<Longrightarrow> trust \<noteq> None"
  by (cases trust) (auto simp: require_enrolled_trust_def)

lemma resolved_keys:
  "resolve_profile R env tf h trust f = (return s, g) \<Longrightarrow> require_enrolled_trust R (te_clock env 0) tf trust = return ()"
  by (auto simp: resolve_profile_def bindA_Inr simp del: okA_simp)

lemma profile_step_advances:
  assumes s: "profile_stored R f s" and u: "profile_use_ok u \<and> u \<in> S"
  shows "\<exists>t. profile_stored R (profile_step R u f) t
    \<and> (ps_generation t = ps_generation s \<and> profile_core t = profile_core s
      \<or> ps_generation t = ps_generation s + 1 \<and> profile_rotation R S (profile_core s) (profile_core t))"
proof (cases u)
  case (ResolveProfile env tf h trust)
  obtain r g where g: "resolve_profile R env tf h trust f = (r, g)" by (rule prod.exhaust)
  then have step: "profile_step R u f = g" using ResolveProfile by (simp add: profile_step_def)
  from g show ?thesis
  proof (cases rule: resolve_profile_cases)
    case (2 x)
    then show ?thesis using s by (simp add: profile_stored_def)
  next
    case (4 x t)
    have x: "x = s" by (rule profile_stored_unique [OF s 4(1)])
    have "require_enrolled_trust R (te_clock env 0) tf trust = return ()"
      using g 4(4) resolved_keys by blast
    then have "profile_rotation R S (profile_core s) (profile_core (activated t s))"
      using 4(2,3,6) pending_binds [OF s] profile_stored_generation [OF s] x u unfolding ResolveProfile profile_rotation_def
      by (intro exI [of _ env] exI [of _ tf] exI [of _ trust] exI [of _ t]) (auto simp: profile_core_def activated_def)
    then show ?thesis using 4(5) step x by (auto simp: activated_def)
  qed (use s step in auto)
next
  case (RequestRotation env tf target operator remark trust att)
  obtain r g where g: "request_rotation R env tf target operator remark trust att f = (r, g)" by (rule prod.exhaust)
  then have step: "profile_step R u f = g" using RequestRotation by (simp add: profile_step_def)
  have "\<forall>a. att = Some a \<longrightarrow> wf_dict a" using u RequestRotation by (simp add: profile_use_ok_def split: option.splits)
  from request_rotation_cases [OF g this] show ?thesis
  proof cases
    case (2 x t)
    have "x = s" by (rule profile_stored_unique [OF s 2(1)])
    then show ?thesis using 2(4) step by (auto simp: profile_core_def)
  qed (use s step in auto)
qed

interpretation profile_ratchet: ratchet "profile_stored R" "profile_step R" "\<lambda>u. profile_use_ok u \<and> u \<in> S" ps_generation
    profile_core "profile_rotation R S" for R S
  by unfold_locales (rule profile_step_advances)

end
