(* ===== verification/PublicationContinuity.thy ===== *)
theory PublicationContinuity
  imports OperatorTrust EvidenceHead
begin

text \<open>
  The continuity anchor of published authority checkpoints (\<open>authority_publication_continuity.py\<close>): one
  file with the sequence number and hash of the last checkpoint, which advances by one checkpoint at a
  time, each naming its predecessor. The state is a ratchet.
\<close>

subsection \<open>The anchor\<close>

datatype continuity_error =
    ContinuitySnapshot
  | ContinuitySchema
  | ContinuitySequence
  | ContinuityHash
  | ContinuityTimestamp
  | ContinuityRecordHash
  | ContinuityNotAdvanced
  | ContinuityPredecessor
  | ContinuityNotFirst
  | ContinuityTooLarge

record continuity =
  cn_sequence :: int
  cn_checkpoint :: pystr
  cn_prior :: pystr
  cn_anchored_at :: pystr
  cn_record_hash :: pystr

definition max_continuity_bytes :: nat where "max_continuity_bytes = 65536"

definition continuity_fields :: "pystr list" where
  "continuity_fields = map lit
     [''schema_name'', ''schema_version'', ''sequence'', ''checkpoint_hash'', ''prior_checkpoint_hash'',
      ''anchored_at'', ''record_hash'']"

definition check_sequence :: "int \<Rightarrow> (continuity_error, int) result" where
  "check_sequence i = (if i < 1 then raise ContinuitySequence else return i)"

definition check_checkpoint :: "pystr \<Rightarrow> (continuity_error, pystr) result" where
  "check_checkpoint s = (if is_sha256 s then return s else raise ContinuityHash)"

definition check_link :: "pystr \<Rightarrow> (continuity_error, pystr) result" where
  "check_link s = (if s = genesis then return s else check_checkpoint s)"

definition check_anchored :: "runtime \<Rightarrow> pystr \<Rightarrow> (continuity_error, pystr) result" where
  "check_anchored R s = (if rt_instant R s = None \<or> s = [] then raise ContinuityTimestamp else return s)"

definition continuity_int :: "string \<Rightarrow> json_object \<Rightarrow> (continuity_error, int) result" where
  "continuity_int f obj = (case obj_get f obj of Some (PInt i) \<Rightarrow> return i | _ \<Rightarrow> raise ContinuitySequence)"

definition continuity_text :: "continuity_error \<Rightarrow> string \<Rightarrow> json_object \<Rightarrow> (continuity_error, pystr) result" where
  "continuity_text e f obj = (case obj_get f obj of Some (PStr s) \<Rightarrow> return s | _ \<Rightarrow> raise e)"

definition continuity_hash :: "runtime \<Rightarrow> int \<Rightarrow> pystr \<Rightarrow> pystr \<Rightarrow> pystr \<Rightarrow> pystr" where
  "continuity_hash R sequence checkpoint prior anchored_at = sha256_of (rt_sha256 R) (json_of
     [(lit ''record_type'', PStr (lit ''authority_publication_continuity'')), (lit ''sequence'', PInt sequence),
      (lit ''checkpoint_hash'', PStr checkpoint), (lit ''prior_checkpoint_hash'', PStr prior),
      (lit ''anchored_at'', PStr anchored_at)])"

definition parse_continuity :: "runtime \<Rightarrow> json_object \<Rightarrow> (continuity_error, continuity) result" where
  "parse_continuity R obj =
     (if set (map fst obj) \<noteq> set continuity_fields
         \<or> \<not> has_value ''schema_name'' ''defiant.authority_publication_continuity'' obj
         \<or> \<not> has_value ''schema_version'' ''0.1.0'' obj then raise ContinuitySchema
      else bindR (bindR (continuity_int ''sequence'' obj) check_sequence) (\<lambda>sequence.
      bindR (bindR (continuity_text ContinuityHash ''checkpoint_hash'' obj) check_checkpoint) (\<lambda>checkpoint.
      bindR (bindR (continuity_text ContinuityHash ''prior_checkpoint_hash'' obj) check_link) (\<lambda>prior.
      bindR (bindR (continuity_text ContinuityTimestamp ''anchored_at'' obj) (check_anchored R)) (\<lambda>anchored_at.
      bindR (bindR (continuity_text ContinuityHash ''record_hash'' obj) check_checkpoint) (\<lambda>record_hash.
      if record_hash \<noteq> continuity_hash R sequence checkpoint prior anchored_at then raise ContinuityRecordHash
      else return \<lparr>cn_sequence = sequence, cn_checkpoint = checkpoint, cn_prior = prior,
        cn_anchored_at = anchored_at, cn_record_hash = record_hash\<rparr>))))))"

definition continuity_of :: "runtime \<Rightarrow> pyval \<Rightarrow> (continuity_error, continuity) result" where
  "continuity_of R v = bindR (wanted ContinuitySnapshot (state_object max_continuity_bytes v)) (parse_continuity R)"

definition new_continuity :: "runtime \<Rightarrow> pystr \<Rightarrow> int \<Rightarrow> pystr \<Rightarrow> pystr \<Rightarrow> (continuity_error, continuity) result" where
  "new_continuity R stamp sequence checkpoint prior =
     bindR (check_sequence sequence) (\<lambda>sequence.
     bindR (check_checkpoint checkpoint) (\<lambda>checkpoint.
     bindR (check_link prior) (\<lambda>prior.
       return \<lparr>cn_sequence = sequence, cn_checkpoint = checkpoint, cn_prior = prior, cn_anchored_at = stamp,
         cn_record_hash = continuity_hash R sequence checkpoint prior stamp\<rparr>)))"

definition continuity_object :: "continuity \<Rightarrow> pyval" where
  "continuity_object c = json_of
     [(lit ''schema_name'', PStr (lit ''defiant.authority_publication_continuity'')),
      (lit ''schema_version'', PStr (lit ''0.1.0'')), (lit ''sequence'', PInt (cn_sequence c)),
      (lit ''checkpoint_hash'', PStr (cn_checkpoint c)), (lit ''prior_checkpoint_hash'', PStr (cn_prior c)),
      (lit ''anchored_at'', PStr (cn_anchored_at c)), (lit ''record_hash'', PStr (cn_record_hash c))]"

type_synonym 'a continuity_effect = "(state_file, continuity_error, 'a) effect"

definition get_continuity :: "runtime \<Rightarrow> state_file \<Rightarrow> (continuity_error, continuity option) result" where
  "get_continuity R f = (case f of
     None \<Rightarrow> return None | Some v \<Rightarrow> bindR (continuity_of R v) (\<lambda>c. return (Some c)))"

text \<open>What stands against a candidate after the current anchor; a repeated candidate is the anchor itself.\<close>

definition same_checkpoint :: "continuity \<Rightarrow> continuity \<Rightarrow> bool" where
  "same_checkpoint c d \<longleftrightarrow> cn_sequence c = cn_sequence d \<and> cn_checkpoint c = cn_checkpoint d \<and> cn_prior c = cn_prior d"

definition check_successor :: "continuity option \<Rightarrow> continuity \<Rightarrow> (continuity_error, unit) result" where
  "check_successor current d = (case current of
     None \<Rightarrow> require (cn_sequence d = 1) ContinuityNotFirst
   | Some c \<Rightarrow>
       if cn_sequence d \<noteq> cn_sequence c + 1 then raise ContinuityNotAdvanced
       else require (cn_prior d = cn_checkpoint c) ContinuityPredecessor)"

definition anchor :: "trust_env \<Rightarrow> continuity option \<Rightarrow> continuity \<Rightarrow> continuity continuity_effect" where
  "anchor env current d =
     bindA (liftA (check_successor current d)) (\<lambda>_.
     bindA (checkA (te_fits env (continuity_object d)) ContinuityTooLarge) (\<lambda>_.
     bindA (writeA (\<lambda>_. Some (continuity_object d))) (\<lambda>_. okA d)))"

definition advance_continuity ::
  "runtime \<Rightarrow> trust_env \<Rightarrow> int \<Rightarrow> pystr \<Rightarrow> pystr \<Rightarrow> continuity continuity_effect" where
  "advance_continuity R env sequence checkpoint prior =
     bindA (liftA (new_continuity R (te_stamp env) sequence checkpoint prior)) (\<lambda>d.
     bindA (\<lambda>f. (get_continuity R f, f)) (\<lambda>current. case current of
       Some c \<Rightarrow> if same_checkpoint c d then okA c else anchor env current d
     | None \<Rightarrow> anchor env current d))"

subsection \<open>What is written is read back\<close>

definition anchored :: "runtime \<Rightarrow> state_file \<Rightarrow> continuity \<Rightarrow> bool" where
  "anchored R f c \<longleftrightarrow> get_continuity R f = return (Some c)"

lemma anchored_iff: "anchored R f c \<longleftrightarrow> (\<exists>v. f = Some v \<and> continuity_of R v = return c)"
  by (auto simp: anchored_def get_continuity_def split: option.splits)

lemma new_continuity_Inr:
  "new_continuity R stamp i h p = return d \<longleftrightarrow> 1 \<le> i \<and> is_sha256 h \<and> (p = genesis \<or> is_sha256 p)
     \<and> d = \<lparr>cn_sequence = i, cn_checkpoint = h, cn_prior = p, cn_anchored_at = stamp,
             cn_record_hash = continuity_hash R i h p stamp\<rparr>"
  by (auto simp: new_continuity_def check_sequence_def check_checkpoint_def check_link_def split: if_splits)

text \<open>
  An input can be anchored when the clock gives a readable time and the anchor is within the ceilings of
  reading and of the digest's form.
\<close>

definition anchorable :: "runtime \<Rightarrow> trust_env \<Rightarrow> int \<Rightarrow> pystr \<Rightarrow> pystr \<Rightarrow> bool" where
  "anchorable R env i h p \<longleftrightarrow> rt_instant R (te_stamp env) \<noteq> None \<and> te_stamp env \<noteq> []
     \<and> is_sha256 (continuity_hash R i h p (te_stamp env))
     \<and> (case new_continuity R (te_stamp env) i h p of
          Inl _ \<Rightarrow> True | Inr d \<Rightarrow> state_object max_continuity_bytes (continuity_object d) \<noteq> None)"

lemma continuity_read_back:
  assumes d: "new_continuity R (te_stamp env) i h p = return d" and "anchorable R env i h p"
  shows "continuity_of R (continuity_object d) = return d"
proof -
  have e: "exact (continuity_object d)" by (simp add: continuity_object_def exact_json_of)
  obtain obj where o: "state_object max_continuity_bytes (continuity_object d) = Some obj"
    using assms by (auto simp: anchorable_def)
  then have "object_entries (continuity_object d) = Some obj" using e by (simp add: state_objectD(2) [OF o e])
  then have obj: "obj = [(lit ''schema_name'', PStr (lit ''defiant.authority_publication_continuity'')),
      (lit ''schema_version'', PStr (lit ''0.1.0'')), (lit ''sequence'', PInt (cn_sequence d)),
      (lit ''checkpoint_hash'', PStr (cn_checkpoint d)), (lit ''prior_checkpoint_hash'', PStr (cn_prior d)),
      (lit ''anchored_at'', PStr (cn_anchored_at d)), (lit ''record_hash'', PStr (cn_record_hash d))]"
    by (simp add: continuity_object_def)
  have "map fst obj = continuity_fields" by (simp add: obj continuity_fields_def)
  then have "parse_continuity R obj = return d"
    using d assms(2)
    by (auto simp: parse_continuity_def has_value_def obj continuity_int_def continuity_text_def check_sequence_def
        check_checkpoint_def check_link_def check_anchored_def new_continuity_Inr anchorable_def)
  then show ?thesis by (simp add: continuity_of_def o wanted_def)
qed

lemma advance_cases:
  assumes "advance_continuity R env i h p f = (r, g)" "anchorable R env i h p"
  obtains "g = f"
  | d where "r = return d" "anchored R g d" "cn_sequence d = i" "cn_checkpoint d = h" "cn_prior d = p"
      "f = None \<and> i = 1 \<or> (\<exists>c. anchored R f c \<and> i = cn_sequence c + 1 \<and> p = cn_checkpoint c)"
proof (cases "g = f")
  case False
  obtain d current where 1: "new_continuity R (te_stamp env) i h p = return d" "get_continuity R f = return current"
    "check_successor current d = return ()" "g = Some (continuity_object d)" "r = return d"
    using assms(1) False
    by (auto simp: advance_continuity_def anchor_def bindA_def liftA_def checkA_def okA_def
        split: sum.splits if_splits option.splits)
  have "anchored R g d"
    using continuity_read_back [OF 1(1) assms(2)] 1(4) by (simp add: anchored_iff)
  moreover have "f = None \<and> i = 1 \<or> (\<exists>c. anchored R f c \<and> i = cn_sequence c + 1 \<and> p = cn_checkpoint c)"
    using 1(1,2,3) by (auto simp: check_successor_def new_continuity_Inr anchored_def get_continuity_def
        split: option.splits if_splits)
  ultimately show ?thesis using that(2) [of d] 1(1,5) by (simp add: new_continuity_Inr)
qed (use that in blast)

subsection \<open>The anchor is a ratchet\<close>

datatype continuity_use = Advance trust_env int pystr pystr

definition continuity_step :: "runtime \<Rightarrow> continuity_use \<Rightarrow> state_file \<Rightarrow> state_file" where
  "continuity_step R u f = (case u of Advance env i h p \<Rightarrow> snd (advance_continuity R env i h p f))"

definition continuity_use_ok :: "runtime \<Rightarrow> continuity_use \<Rightarrow> bool" where
  "continuity_use_ok R u = (case u of Advance env i h p \<Rightarrow> anchorable R env i h p)"

definition continuity_core :: "continuity \<Rightarrow> pystr \<times> pystr" where
  "continuity_core c = (cn_checkpoint c, cn_prior c)"

definition names_predecessor :: "pystr \<times> pystr \<Rightarrow> pystr \<times> pystr \<Rightarrow> bool" where
  "names_predecessor c d \<longleftrightarrow> snd d = fst c"

lemma continuity_step_advances:
  assumes "anchored R f c" "continuity_use_ok R u"
  shows "\<exists>d. anchored R (continuity_step R u f) d
    \<and> (cn_sequence d = cn_sequence c \<and> continuity_core d = continuity_core c
      \<or> cn_sequence d = cn_sequence c + 1 \<and> names_predecessor (continuity_core c) (continuity_core d))"
proof (cases u)
  case (Advance env i h p)
  obtain r g where g: "advance_continuity R env i h p f = (r, g)" by (rule prod.exhaust)
  have a: "anchorable R env i h p" using assms(2) Advance by (simp add: continuity_use_ok_def)
  from g a show ?thesis
  proof (cases rule: advance_cases)
    case (2 d)
    then show ?thesis using assms(1) g Advance
      by (auto simp: continuity_step_def names_predecessor_def continuity_core_def anchored_iff intro!: exI [of _ d])
  qed (use assms(1) g Advance in \<open>auto simp: continuity_step_def\<close>)
qed

interpretation continuity_ratchet: ratchet "anchored R" "continuity_step R" "continuity_use_ok R" cn_sequence
    continuity_core names_predecessor for R
  by unfold_locales (rule continuity_step_advances)

end
