(* ===== verification/AuthorityStateProperties.thy ===== *)
theory AuthorityStateProperties
  imports ApprovalProperties OperatorTrustProgress AuthorityProfileFacts PublicationContinuity "HOL-Library.Code_Target_Numeral"
begin

text \<open>
  Properties of the durable authority files: operator trust, the pinned profile and the publication anchor
  only move by authorized steps, and a rotation that an operator signs goes through. The example digest of
  \<open>length_runtime\<close> tells texts apart by their length.
\<close>

definition length_runtime :: runtime where
  "length_runtime =
     \<lparr>rt_sha256 = \<lambda>t. replicate 62 97 @ [48 + length t div 10 mod 10, 48 + length t mod 10], rt_hmac = \<lambda>k t. k @ t,
      rt_instant = \<lambda>t. if t = [] then None else Some (int (length t)), rt_utc_text = int_text\<rparr>"

definition ann_key :: signing_key where
  "ann_key = \<lparr>sk_public = lit ''aa'', sk_sign = \<lambda>m. replicate 64 7\<rparr>"

definition accepts_sevens :: "pystr \<Rightarrow> nat list \<Rightarrow> pystr \<Rightarrow> bool" where
  "accepts_sevens key signature m \<longleftrightarrow> signature = replicate 64 7"

definition hash_no :: "nat \<Rightarrow> pystr" where
  "hash_no n = lit ''sha256:'' @ replicate 62 97 @ [48 + n div 10, 48 + n mod 10]"

definition ann_policy :: trust_policy where
  "ann_policy = \<lparr>tp_keys = [(lit ''ann'', [(hash_no 41, lit ''aa'')])], tp_verify = accepts_sevens\<rparr>"

definition both_policy :: trust_policy where
  "both_policy = \<lparr>tp_keys = [(lit ''ann'', [(hash_no 41, lit ''aa'')]), (lit ''bob'', [(hash_no 42, lit ''bbb'')])],
     tp_verify = accepts_sevens\<rparr>"

definition quiet_env :: trust_env where
  "quiet_env = \<lparr>te_clock = \<lambda>_. 1000, te_stamp = lit ''t'', te_fits = \<lambda>_. True\<rparr>"

definition enrolled_state :: trust_state where
  "enrolled_state = \<lparr>os_generation = 1, os_enrolled_at = lit ''t'', os_updated_at = lit ''t'',
     os_initial_bindings = [(lit ''ann'', [hash_no 41])], os_initial_hash = hash_no 83,
     os_bindings = [(lit ''ann'', [hash_no 41])], os_bindings_hash = hash_no 83, os_transitions = []\<rparr>"

definition enrolled_file :: state_file where
  "enrolled_file = Some (trust_object enrolled_state)"

definition sevens :: pystr where
  "sevens = lit ''base64:'' @ concat (replicate 21 (lit ''BwcH'')) @ lit ''Bw==''"

definition ann_signs :: attestation where
  "ann_signs = text_fields
     [(''schema_name'', lit ''defiant.operator.trust_transition''), (''schema_version'', lit ''0.1.0''),
      (''algorithm'', lit ''Ed25519''), (''purpose'', lit ''operator_trust_rotation''), (''key_id'', hash_no 41),
      (''signed_at'', lit ''tt''), (''operator'', lit ''ann''), (''note'', lit ''bob joins'')]
     @ [(lit ''from_generation'', PInt 1), (lit ''to_generation'', PInt 2)]
     @ text_fields [(''from_bindings_hash'', hash_no 83), (''to_bindings_hash'', hash_no 65), (''signature'', sevens)]"

definition hash_a :: pystr where "hash_a = lit ''sha256:'' @ replicate 64 97"
definition hash_b :: pystr where "hash_b = lit ''sha256:'' @ replicate 64 98"

definition profile_start :: profile_state where
  "profile_start = \<lparr>ps_generation = 1, ps_enrolled_at = lit ''t'', ps_updated_at = lit ''t'', ps_initial_hash = hash_a,
     ps_profile_hash = hash_a, ps_transitions = [], ps_pending = None\<rparr>"

definition profile_file :: state_file where
  "profile_file = Some (profile_object profile_start)"

definition profile_attestation :: attestation where
  "profile_attestation = text_fields
     [(''schema_name'', lit ''defiant.operator.authority_profile_transition''), (''schema_version'', lit ''0.1.0''),
      (''algorithm'', lit ''Ed25519''), (''purpose'', lit ''authority_profile_rotation''), (''key_id'', hash_no 41),
      (''signed_at'', lit ''tt''), (''operator'', lit ''ann''), (''note'', lit ''new tool'')]
     @ [(lit ''from_generation'', PInt 1), (lit ''to_generation'', PInt 2)]
     @ text_fields [(''from_profile_hash'', hash_a), (''to_profile_hash'', hash_b), (''signature'', sevens)]"

definition profile_uses :: "profile_use list" where
  "profile_uses =
     [ResolveProfile quiet_env enrolled_file hash_b (Some ann_policy),
      RequestRotation quiet_env enrolled_file hash_b (lit ''ann'') (lit ''new tool'') (Some ann_policy) (Some profile_attestation),
      ResolveProfile quiet_env enrolled_file hash_b (Some ann_policy)]"

definition first_anchor :: continuity where
  "first_anchor = \<lparr>cn_sequence = 1, cn_checkpoint = hash_a, cn_prior = genesis, cn_anchored_at = lit ''t'',
     cn_record_hash = continuity_hash length_runtime 1 hash_a genesis (lit ''t'')\<rparr>"

definition anchor_file :: state_file where
  "anchor_file = Some (continuity_object first_anchor)"

definition alice_key :: signing_key where
  "alice_key = \<lparr>sk_public = lit ''key'', sk_sign = \<lambda>m. replicate 64 7\<rparr>"

lemma enrolled_example:
  "get_trust length_runtime 1000 enrolled_file = return (Some enrolled_state)"
  "verify_trust length_runtime 1000 ann_policy enrolled_state = return ()"
  "wf_dict ann_signs"
  by code_simp+

lemma profile_example:
  "get_profile length_runtime 1000 profile_file = return (Some profile_start)"
  "wf_dict profile_attestation" "enrolled_file \<noteq> None"
  by code_simp+

lemma anchor_example:
  "get_continuity length_runtime anchor_file = return (Some first_anchor)"
  "list_all (continuity_use_ok length_runtime) [Advance quiet_env 1 hash_b genesis, Advance quiet_env 2 hash_b hash_a]"
  by code_simp+

lemma quiet_clock [simp]: "te_clock quiet_env = (\<lambda>_. 1000)"
  by (simp add: quiet_env_def)

lemma example_verify [simp]: "tp_verify ann_policy = accepts_sevens" "tp_verify both_policy = accepts_sevens"
  by (simp_all add: ann_policy_def both_policy_def)

lemma ann_key_id: "public_key_id length_runtime (lit ''aa'') = hash_no 41" "is_sha256 (hash_no 41)"
  by code_simp+

subsection \<open>Operator trust\<close>

definition operator_keys :: "bindings \<Rightarrow> pystr \<Rightarrow> pystr set" where
  "operator_keys b operator = (case dict_get operator b of None \<Rightarrow> {} | Some ks \<Rightarrow> set ks)"

lemma covers_keys: "covers b c \<Longrightarrow> operator_keys b operator \<subseteq> operator_keys c operator"
  by (fastforce simp: covers_iff operator_keys_def dest: dict_get_in_set split: option.splits)

lemma rotations_keep:
  "(signed_rotation R S)\<^sup>*\<^sup>* c d \<Longrightarrow>
   operator_keys (fst c) operator \<subseteq> operator_keys (fst d) operator \<and> (\<exists>ts. snd d = snd c @ ts)"
proof (induction rule: rtranclp_induct)
  case (step d e)
  then have "operator_keys (fst d) operator \<subseteq> operator_keys (fst e) operator"
    by (auto simp: signed_rotation_def is_additive_def intro!: covers_keys)
  moreover have "\<exists>ts. snd e = snd d @ ts" using step(2) by (auto simp: signed_rotation_def)
  ultimately show ?case using step(3) by auto
qed simp

text \<open>C24: In every sequence of uses of the trust file, failed ones included (attestations being dictionaries),
  the file stays a valid state; its generation never falls; whatever changed, changed by additive rotations,
  each of them one of the uses, whose attestation passed every check of its verification, the signature
  included, under the policy that use was configured with, which has the keys trusted before it, for the
  exact generation and mappings; so no operator ever loses a key, the record of earlier rotations is kept,
  and a file with the same generation has the same keys and history.\<close>

theorem operator_trust_only_rotated:
  assumes "trust_stored R f s" and "\<forall>u \<in> set us. trust_use_ok u"
  shows "\<exists>t. trust_stored R (fold (trust_step R) us f) t \<and> os_generation s \<le> os_generation t
    \<and> (signed_rotation R (set us))\<^sup>*\<^sup>* (trust_core s) (trust_core t)
    \<and> operator_keys (os_bindings s) operator \<subseteq> operator_keys (os_bindings t) operator
    \<and> take (length (os_transitions s)) (os_transitions t) = os_transitions s
    \<and> (os_generation t = os_generation s \<longrightarrow> trust_core t = trust_core s)"
proof -
  have "\<forall>u \<in> set us. trust_use_ok u \<and> u \<in> set us" using assms(2) by simp
  then obtain t where t: "trust_stored R (fold (trust_step R) us f) t" "os_generation s \<le> os_generation t"
    "(signed_rotation R (set us))\<^sup>*\<^sup>* (trust_core s) (trust_core t)" "os_generation t = os_generation s \<longrightarrow> trust_core t = trust_core s"
    using trust_ratchet.run_monotone [OF assms(1)] by blast
  then show ?thesis using rotations_keep [OF t(3), of operator] by (auto simp: trust_core_def intro!: exI [of _ t])
qed

theorem operator_trust_only_rotated_witness:
  "\<exists>t. trust_stored length_runtime (fold (trust_step length_runtime)
       [ResolveTrust quiet_env [] (Some ann_policy) None, RotateTrust quiet_env ann_policy both_policy ann_signs]
       enrolled_file) t
     \<and> os_generation enrolled_state \<le> os_generation t
     \<and> operator_keys (os_bindings enrolled_state) (lit ''ann'') \<subseteq> operator_keys (os_bindings t) (lit ''ann'')"
  using operator_trust_only_rotated [OF get_trust_Some [OF enrolled_example(1)], where operator = "lit ''ann''"
      and us = "[ResolveTrust quiet_env [] (Some ann_policy) None, RotateTrust quiet_env ann_policy both_policy ann_signs]"]
    enrolled_example(3)
  by (auto simp: trust_use_ok_def)

lemma resolve_trust_success:
  assumes "resolve_trust R env d candidate early f = (return trust, g)"
  obtains "early = None" "candidate = None" "trust = None" "\<not> legacy_signed_authority d" "g = f"
  | T s where "candidate = Some T" "trust = Some T" "g = f" "early \<noteq> None" "trust_stored R early s"
      "verify_trust R (te_clock env 4) T s = return ()"
  | T s where "candidate = Some T" "trust = Some T" "g = f" "early = None" "trust_stored R f s"
      "verify_trust R (te_clock env 4) T s = return ()"
  | T s where "candidate = Some T" "trust = Some T" "early = None" "f = None" "trust_stored R g s"
      "verify_trust R (te_clock env 4) T s = return ()" "enrolled R (te_stamp env) T = return s"
proof (cases early)
  case None
  then show ?thesis
  proof (cases candidate)
    case (Some T)
    then have 1: "bindA (\<lambda>f. (get_trust R (te_clock env 2) f, f)) (\<lambda>now_found.
         bindA (case now_found of
             Some s \<Rightarrow> okA s
           | None \<Rightarrow> bindA (liftA (enrolled R (te_stamp env) T)) (\<lambda>s.
               bindA (write_trust R env (te_clock env 3) s) (\<lambda>_. okA s))) (\<lambda>s.
         bindA (liftA (verify_trust R (te_clock env 4) T s)) (\<lambda>_. okA (Some T)))) f = (return trust, g)"
      using assms None by (simp add: resolve_trust_def get_trust_def [of _ _ None] bindA_def [of "liftA (return None)"])
    show ?thesis
    proof (cases f)
      case None
      obtain s r' g' where 2: "enrolled R (te_stamp env) T = return s" "write_trust R env (te_clock env 3) s f = (r', g')"
        "r' = return ()" "g = g'" "trust = Some T" "verify_trust R (te_clock env 4) T s = return ()"
        using 1 None by (auto simp: bindA_def liftA_def get_trust_def [of _ _ None] split: sum.splits prod.splits)
      from 2(2) enrolled_exact [OF 2(1)] show ?thesis
        by (cases rule: write_trust_cases)
          (use 2 None Some \<open>early = None\<close> that(4) in \<open>auto simp: trust_stored_def\<close>)
    next
      case (Some v)
      then show ?thesis
        using 1 \<open>candidate = Some T\<close> \<open>early = None\<close> that(3) [of T]
        by (fastforce simp: bindA_def get_trust_def trust_stored_def split: sum.splits)
    qed
  qed (use assms that(1) None in \<open>auto simp: resolve_trust_def bindA_def get_trust_def split: if_splits\<close>)
next
  case (Some v)
  then show ?thesis
    using assms that(2)
    by (fastforce simp: resolve_trust_def bindA_def get_trust_def trust_stored_def split: sum.splits option.splits)
qed

text \<open>C25: Resolving operator trust never weakens it: a success hands back the configured keys; without keys it
  succeeds only if no trust was enrolled and no approval was ever signed; with keys, they are exactly the
  enrolled ones, and each rotation on file is signed with one of them; and the file only changes from
  nothing to a first generation.\<close>

theorem trust_never_downgraded:
  assumes "resolve_trust R env d candidate early f = (return trust, g)"
  shows "trust = candidate \<and> (trust = None \<longrightarrow> early = None \<and> \<not> legacy_signed_authority d)
    \<and> (\<forall>T. trust = Some T \<longrightarrow> (\<exists>s. trust_stored R (if early = None then g else early) s
        \<and> policy_bindings T = os_bindings s \<and> verify_trust R (te_clock env 4) T s = return ()))
    \<and> (g = f \<or> f = None \<and> (\<exists>s. trust_stored R g s \<and> os_generation s = 1 \<and> os_transitions s = []))"
  using assms
proof (cases rule: resolve_trust_success)
  case (4 T s)
  then have "os_generation s = 1" "os_transitions s = []" by (auto simp: enrolled_def Let_def)
  then show ?thesis using 4 by (auto dest: verify_bindings)
qed (auto dest: verify_bindings)

theorem trust_never_downgraded_witness:
  "\<exists>s. trust_stored length_runtime enrolled_file s \<and> policy_bindings ann_policy = os_bindings s
     \<and> verify_trust length_runtime 1000 ann_policy s = return ()"
proof -
  obtain v where v: "enrolled_file = Some v" using enrolled_example(1) by (cases enrolled_file) (auto simp: get_trust_def)
  have "resolve_trust length_runtime quiet_env [] (Some ann_policy) enrolled_file enrolled_file = (return (Some ann_policy), enrolled_file)"
    using enrolled_example(1,2) by (simp add: resolve_trust_def bindA_def)
  from trust_never_downgraded [OF this] show ?thesis by (simp add: v)
qed

subsection \<open>Signing and verifying\<close>

text \<open>C26: What an operator signs the verifier accepts: the attestation produced for an approval's decision or
  reconciliation passes every check of its verification, base64 and canonical text included, when the signing
  key is a key trusted for that operator whose signatures its scheme verifies, the approval has identifiers
  that can be signed, the outcome, operator and note are ASCII and the outcome is not padded, and the time of
  the signature fits the approval and the clock.\<close>

theorem operator_signature_accepted:
  assumes "sign_operator_action R k stamp p purpose outcome operator remark = return att"
    and "signs_for R T (py_strip operator) k" and "signable p" and "timely R now stamp purpose p"
    and "list_all is_ascii [outcome, operator, remark]" and "py_strip outcome = outcome"
  shows "require_attestation R T now (Some att) p purpose outcome operator remark = return ()"
  using assms by (rule signed_action_accepted)

theorem operator_signature_accepted_witness:
  "\<exists>att. sign_operator_action numeral_clock alice_key (lit ''8'') queued_approval decision_purpose (lit ''approved'')
      (lit '' alice'') (lit ''ok'') = return att
    \<and> require_attestation numeral_clock alice_trust 9 (Some att) queued_approval decision_purpose (lit ''approved'')
      (lit '' alice'') (lit ''ok'') = return ()"
proof -
  let ?sign = "sign_operator_action numeral_clock alice_key (lit ''8'') queued_approval decision_purpose (lit ''approved'')
      (lit '' alice'') (lit ''ok'')"
  have id: "public_key_id numeral_clock (lit ''key'') = lit ''sha256:'' @ flat_digest" "is_sha256 (lit ''sha256:'' @ flat_digest)"
    "py_strip (lit '' alice'') = lit ''alice''" "py_strip (lit ''approved'') = lit ''approved''" by code_simp+
  have "signs_for numeral_clock alice_trust (py_strip (lit '' alice'')) alice_key"
    using id by (simp add: signs_for_def alice_key_def alice_trust_def trusted_key_def dict_get_def)
  moreover have "signable queued_approval" "timely numeral_clock 9 (lit ''8'') decision_purpose queued_approval"
    "list_all is_ascii [lit ''approved'', lit '' alice'', lit ''ok'']" by code_simp+
  moreover have "case ?sign of Inl _ \<Rightarrow> False | Inr _ \<Rightarrow> True" by code_simp
  then have "\<exists>att. ?sign = return att" by (cases ?sign) auto
  ultimately show ?thesis using operator_signature_accepted id(4) by blast
qed

subsection \<open>Rotation\<close>

text \<open>C27: A rotation makes progress: the statement an operator signs with an enrolled key, in ASCII, for a
  successor that keeps every key and adds some is accepted, the file then holds the next generation, asking
  again changes nothing and succeeds, and the harness resolves to the new keys; provided the clock reads one
  time throughout, which fits the time of the signature and that of the last rotation, the current keys are
  the enrolled ones, and the ceilings on bindings, transitions and the size of the file leave room.\<close>

theorem rotation_goes_through:
  assumes "rotation_ready R env T U now v s att"
    and "sign_trust_transition R k stamp (os_generation s) (os_bindings_hash s)
      (hash_of_bindings R (policy_bindings U)) operator remark = return att"
    and "signs_for R T (py_strip operator) k" and "is_ascii operator" "is_ascii remark"
    and "state_time R now (Some (PStr stamp)) = Some at_time"
    and "\<exists>t. state_time R now (Some (PStr (os_updated_at s))) = Some t \<and> t \<le> at_time"
  shows "\<exists>t g. rotate_trust R env T U att (Some v) = (return t, g) \<and> os_generation t = os_generation s + 1
    \<and> os_bindings t = policy_bindings U \<and> trust_stored R g t
    \<and> rotate_trust R env T' U att g = (return t, g) \<and> resolve_trust R env d (Some U) g g = (return (Some U), g)"
proof -
  let ?t = "rotated R U att s" let ?g = "Some (trust_object (rotated R U att s))"
  note r = rotation_succeeds [OF assms]
  have now: "te_clock env = (\<lambda>_. now)" using assms(1) by (simp add: rotation_ready_def)
  have "already_rotated ?t U att" by (simp add: already_rotated_def rotated_def same_object_def)
  then have "rotate_trust R env T' U att ?g = (return ?t, ?g)"
    using r(2,3) now by (simp add: rotate_trust_def bindA_def get_trust_def)
  moreover have "resolve_trust R env d (Some U) ?g ?g = (return (Some U), ?g)"
    using r(2,3) now by (simp add: resolve_trust_def bindA_def get_trust_def)
  ultimately show ?thesis using r by (intro exI [of _ ?t] exI [of _ ?g]) (auto simp: rotated_def trust_stored_def)
qed

theorem rotation_goes_through_witness:
  "\<exists>t g. rotate_trust length_runtime quiet_env ann_policy both_policy ann_signs enrolled_file = (return t, g)
    \<and> os_generation t = 2 \<and> os_bindings t = policy_bindings both_policy
    \<and> resolve_trust length_runtime quiet_env [] (Some both_policy) g g = (return (Some both_policy), g)"
proof -
  let ?R = length_runtime and ?s = enrolled_state
  obtain v where v: "enrolled_file = Some v" using enrolled_example(1) by (cases enrolled_file) (auto simp: get_trust_def)
  have sign: "sign_trust_transition ?R ann_key (lit ''tt'') (os_generation ?s) (os_bindings_hash ?s)
      (hash_of_bindings ?R (policy_bindings both_policy)) (lit ''ann'') (lit ''bob joins'') = return ann_signs" by code_simp
  have stored: "trust_state_of ?R 1000 v = return ?s"
    using enrolled_example(1) by (simp add: get_trust_def v split: option.splits)
  have g: "os_generation ?s = 1" by code_simp
  have id: "py_strip (lit ''ann'') = lit ''ann''" by code_simp
  have trusted: "trusted_key ann_policy operator k = Some key \<Longrightarrow> trusted_key both_policy operator k = Some key" for operator k key
    by (auto simp: trusted_key_def ann_policy_def both_policy_def dict_get_def split: if_splits)
  have bound: "bindings_of (Some (bindings_object (policy_bindings both_policy))) = Some (policy_bindings both_policy)"
    "wf_dict (tp_keys ann_policy)" "is_additive_successor ann_policy both_policy"
    "state_object max_trust_state_bytes (trust_object (rotated ?R both_policy ann_signs ?s)) \<noteq> None"
    "length (os_transitions ?s) < max_transitions" by code_simp+
  have "rotation_ready ?R quiet_env ann_policy both_policy 1000 v ?s ann_signs"
    using stored enrolled_example(2) bound trusted by (simp add: rotation_ready_def keys_kept_def) (simp add: quiet_env_def)
  moreover have "signs_for ?R ann_policy (py_strip (lit ''ann'')) ann_key"
    using id ann_key_id
    by (simp add: signs_for_def ann_key_def trusted_key_def ann_policy_def dict_get_def accepts_sevens_def)
  moreover have "is_ascii (lit ''ann'')" "is_ascii (lit ''bob joins'')"
    "state_time ?R 1000 (Some (PStr (lit ''tt''))) = Some 2"
    "state_time ?R 1000 (Some (PStr (os_updated_at ?s))) = Some 1" by code_simp+
  ultimately show ?thesis
    using rotation_goes_through [OF _ sign, of quiet_env ann_policy 1000 v 2 ann_policy "[]"] g v by fastforce
qed

subsection \<open>The authority profile\<close>

text \<open>C28: In every sequence of uses of the profile file (attestations being dictionaries) the pinned profile
  changes only by rotations that a start under the new profile activates: requested for exactly the pinned
  hash and generation and, where a trust file is beside it, by a start that is configured with exactly the
  enrolled keys, carrying an attestation that passed every check of its verification, the signature included,
  under those keys; generations never fall, and one generation has one profile and one history.\<close>

theorem profile_only_rotated:
  assumes "profile_stored R f s" and "\<forall>u \<in> set us. profile_use_ok u"
  shows "\<exists>t. profile_stored R (fold (profile_step R) us f) t \<and> ps_generation s \<le> ps_generation t
    \<and> (profile_rotation R (set us))\<^sup>*\<^sup>* (profile_core s) (profile_core t)
    \<and> (ps_generation t = ps_generation s \<longrightarrow> ps_profile_hash t = ps_profile_hash s \<and> ps_transitions t = ps_transitions s)"
proof -
  have "\<forall>u \<in> set us. profile_use_ok u \<and> u \<in> set us" using assms(2) by simp
  then obtain t where "profile_stored R (fold (profile_step R) us f) t" "ps_generation s \<le> ps_generation t"
    "(profile_rotation R (set us))\<^sup>*\<^sup>* (profile_core s) (profile_core t)"
    "ps_generation t = ps_generation s \<longrightarrow> profile_core t = profile_core s"
    using profile_ratchet.run_monotone [OF assms(1)] by blast
  then show ?thesis by (auto simp: profile_core_def intro!: exI [of _ t])
qed

theorem profile_only_rotated_witness:
  "\<exists>t. profile_stored length_runtime (fold (profile_step length_runtime) profile_uses profile_file) t
    \<and> ps_generation profile_start \<le> ps_generation t
    \<and> (profile_rotation length_runtime (set profile_uses))\<^sup>*\<^sup>* (profile_core profile_start) (profile_core t)"
proof -
  have "\<forall>u \<in> set profile_uses. profile_use_ok u"
    using profile_example(2) by (simp add: profile_uses_def profile_use_ok_def)
  from profile_only_rotated [OF get_profile_Some [OF profile_example(1)] this] show ?thesis by blast
qed

text \<open>A harness starts under a profile only if it is the pinned one: a success means the stored state afterwards
  has the configured hash, and the state before had it, or was absent, or was waiting for exactly this
  profile under an authorized rotation; any other hash is refused and the file kept.\<close>

theorem profile_pinned:
  "(case resolve_profile R env trust_file h trust f of
     (Inl e, g) \<Rightarrow> g = f
   | (Inr s, g) \<Rightarrow> profile_stored R g s \<and> ps_profile_hash s = h
       \<and> (f = None \<or> (\<exists>u. profile_stored R f u \<and> (u = s \<and> g = f
           \<or> (\<exists>t. ps_pending u = Some t \<and> pt_from_hash t = ps_profile_hash u \<and> pt_to_hash t = h
                 \<and> s = activated t u \<and> profile_authority R trust t)))))"
proof -
  obtain r g where g: "resolve_profile R env trust_file h trust f = (r, g)" by (rule prod.exhaust)
  from g have "case (r, g) of
     (Inl e, g) \<Rightarrow> g = f
   | (Inr s, g) \<Rightarrow> profile_stored R g s \<and> ps_profile_hash s = h
       \<and> (f = None \<or> (\<exists>u. profile_stored R f u \<and> (u = s \<and> g = f
           \<or> (\<exists>t. ps_pending u = Some t \<and> pt_from_hash t = ps_profile_hash u \<and> pt_to_hash t = h
                 \<and> s = activated t u \<and> profile_authority R trust t))))"
  proof (cases rule: resolve_profile_cases)
    case (4 s t)
    then show ?thesis using pending_binds(1) [OF 4(1,2)] by (auto simp: activated_def intro!: exI [of _ s])
  qed auto
  then show ?thesis by (simp only: g)
qed

subsection \<open>Published checkpoints\<close>

lemma next_checkpoint_anchored:
  assumes "anchored R f c" "new_continuity R (te_stamp env) (cn_sequence c + 1) h (cn_checkpoint c) = return e"
    "te_fits env (continuity_object e)"
  shows "advance_continuity R env (cn_sequence c + 1) h (cn_checkpoint c) f = (return e, Some (continuity_object e))"
proof -
  have "cn_sequence e = cn_sequence c + 1" "cn_prior e = cn_checkpoint c"
    using assms(2) by (auto simp: new_continuity_Inr)
  then show ?thesis
    using assms
    by (simp add: advance_continuity_def bindA_def anchored_def same_checkpoint_def anchor_def check_successor_def
        liftA_def checkA_def writeA_def)
qed

text \<open>C29: The anchor of published checkpoints never goes back: after any uses it is still readable, its sequence
  number has not fallen, each step named the checkpoint before it, and one number has one checkpoint; the
  next checkpoint that names the anchored one is accepted and becomes the anchor.\<close>

theorem publication_anchor_advances:
  assumes "anchored R f c" and "\<forall>u \<in> set us. continuity_use_ok R u"
  shows "\<exists>d. anchored R (fold (continuity_step R) us f) d \<and> cn_sequence c \<le> cn_sequence d
    \<and> names_predecessor\<^sup>*\<^sup>* (continuity_core c) (continuity_core d)
    \<and> (cn_sequence d = cn_sequence c \<longrightarrow> cn_checkpoint d = cn_checkpoint c)
    \<and> (\<forall>env h e. new_continuity R (te_stamp env) (cn_sequence d + 1) h (cn_checkpoint d) = return e
        \<and> te_fits env (continuity_object e) \<longrightarrow>
        advance_continuity R env (cn_sequence d + 1) h (cn_checkpoint d) (fold (continuity_step R) us f)
          = (return e, Some (continuity_object e)))"
proof -
  obtain d where d: "anchored R (fold (continuity_step R) us f) d" "cn_sequence c \<le> cn_sequence d"
    "names_predecessor\<^sup>*\<^sup>* (continuity_core c) (continuity_core d)" "cn_sequence d = cn_sequence c \<longrightarrow> continuity_core d = continuity_core c"
    using continuity_ratchet.run_monotone [OF assms] by blast
  then show ?thesis using next_checkpoint_anchored [OF d(1)]
    by (intro exI [of _ d]) (auto simp: continuity_core_def)
qed


theorem publication_anchor_advances_witness:
  "\<exists>d. anchored length_runtime (fold (continuity_step length_runtime)
       [Advance quiet_env 1 hash_b genesis, Advance quiet_env 2 hash_b hash_a] anchor_file) d
     \<and> cn_sequence first_anchor \<le> cn_sequence d
     \<and> names_predecessor\<^sup>*\<^sup>* (continuity_core first_anchor) (continuity_core d)"
  using publication_anchor_advances [of length_runtime anchor_file first_anchor
      "[Advance quiet_env 1 hash_b genesis, Advance quiet_env 2 hash_b hash_a]"] anchor_example
  by (auto simp: anchored_def list_all_iff)
end
