(* ===== verification/Adapter.thy ===== *)
theory Adapter
  imports Harness
begin

text \<open>
  The boundary to the agent (\<open>adapters/base.py\<close>, \<open>adapters/mock.py\<close>, and the entry points of
  \<open>orchestrator/harness.py\<close> that take a tool call): a call as it arrives, its validation and sealing,
  its translation into a proposed action, and the outcome handed back. A runner's adapter is a record
  of what it may override; a translation returns the call as it left it, so that one that changed the
  call's nested values can be told.
\<close>

subsection \<open>Tool calls\<close>

record tool_call =
  tc_name :: pystr
  tc_arguments :: pyval
  tc_call_id :: pystr
  tc_server :: pystr
  tc_transport :: pyval
  tc_sealed :: "pystr option"

datatype call_error =
    CallName
  | CallNameCharacters
  | CallIdentifierCharacters
  | CallArguments
  | CallTransport
  | CallCanonical canonical_error
  | CallFields
  | CallNotSealed
  | CallChanged
  | CallProvenance contract_error
  | CallContent canonical_error
  | CallTrust
  | CallKey
  | CallCost value_error
  | CallAction contract_error

definition max_tool_call_name_characters :: nat where "max_tool_call_name_characters = 4096"
definition max_tool_call_identifier_characters :: nat where "max_tool_call_identifier_characters = 4096"

definition validate_call_fields :: "tool_call \<Rightarrow> (call_error, unit) result" where
  "validate_call_fields c =
     (if py_strip (tc_name c) = [] then raise CallName
      else if max_tool_call_name_characters < length (tc_name c) then raise CallNameCharacters
      else if max_tool_call_identifier_characters < length (tc_call_id c)
           \<or> max_tool_call_identifier_characters < length (tc_server c) then raise CallIdentifierCharacters
      else if \<not> is_mapping (tc_arguments c) then raise CallArguments
      else require (is_mapping (tc_transport c)) CallTransport)"

definition call_surface :: "tool_call \<Rightarrow> pyval" where
  "call_surface c = PDict
     [(PStr (lit ''name''), PStr (tc_name c)), (PStr (lit ''arguments''), tc_arguments c),
      (PStr (lit ''call_id''), PStr (tc_call_id c)), (PStr (lit ''server''), PStr (tc_server c)),
      (PStr (lit ''transport_params''), tc_transport c)]"

definition call_snapshot :: "runtime \<Rightarrow> tool_call \<Rightarrow> (call_error, pyval \<times> pystr) result" where
  "call_snapshot R c = mapErr CallCanonical (snapshot_and_sha256 (rt_sha256 R) action_limits (call_surface c))"

text \<open>The constructor validates; sealing validates again, keeps the snapshot and freezes it.\<close>

definition new_tool_call :: "runtime \<Rightarrow> tool_call \<Rightarrow> (call_error, tool_call) result" where
  "new_tool_call R c = bindR (validate_call_fields c) (\<lambda>_. bindR (call_snapshot R c) (\<lambda>_. return c))"

definition require_call_unchanged :: "runtime \<Rightarrow> tool_call \<Rightarrow> (call_error, unit) result" where
  "require_call_unchanged R c = (case tc_sealed c of
     None \<Rightarrow> raise CallNotSealed
   | Some h \<Rightarrow> bindR (call_snapshot R c) (\<lambda>(_, current). require (current = h) CallChanged))"

definition seal_call :: "runtime \<Rightarrow> tool_call \<Rightarrow> (call_error, tool_call) result" where
  "seal_call R c = (case tc_sealed c of
     Some _ \<Rightarrow> bindR (require_call_unchanged R c) (\<lambda>_. return c)
   | None \<Rightarrow> bindR (validate_call_fields c) (\<lambda>_. bindR (call_snapshot R c) (\<lambda>(w, h).
       case (dict_lookup ''name'' w, dict_lookup ''arguments'' w, dict_lookup ''call_id'' w,
             dict_lookup ''server'' w, dict_lookup ''transport_params'' w) of
         (Some (PStr name), Some arguments, Some (PStr call_id), Some (PStr server), Some params) \<Rightarrow>
           return \<lparr>tc_name = name, tc_arguments = arguments, tc_call_id = call_id, tc_server = server,
             tc_transport = params, tc_sealed = Some h\<rparr>
       | _ \<Rightarrow> raise CallFields)))"

definition call_hash :: "runtime \<Rightarrow> tool_call \<Rightarrow> (call_error, pystr) result" where
  "call_hash R c = (case tc_sealed c of
     Some h \<Rightarrow> return h | None \<Rightarrow> bindR (call_snapshot R c) (\<lambda>(_, h). return h))"

definition argument :: "string \<Rightarrow> tool_call \<Rightarrow> pyval option" where
  "argument k c = dict_lookup k (tc_arguments c)"

definition argument_or :: "pyval \<Rightarrow> string \<Rightarrow> tool_call \<Rightarrow> pyval" where
  "argument_or v k c = (case argument k c of None \<Rightarrow> v | Some w \<Rightarrow> w)"

subsection \<open>Translation into an action\<close>

record adapter =
  ad_runner_name :: pystr
  ad_side_effects :: "(pystr, side_effect) dict"
  ad_payload_for :: "tool_call \<Rightarrow> (call_error, pyval) result"
  ad_provenance_for :: "readings \<Rightarrow> tool_call \<Rightarrow> (call_error, content_ref list) result"
  ad_target_of :: "tool_call \<Rightarrow> pystr"
  ad_estimate_cost :: "tool_call \<Rightarrow> (call_error, decimal) result"

text \<open>An unclassified tool is the most dangerous kind.\<close>

definition classify :: "adapter \<Rightarrow> tool_call \<Rightarrow> side_effect" where
  "classify A c = (case dict_get (tc_name c) (ad_side_effects A) of Some e \<Rightarrow> e | None \<Rightarrow> Destructive)"

text \<open>\<open>ContentRef.of\<close>.\<close>

definition content_ref_of ::
  "runtime \<Rightarrow> pystr \<Rightarrow> pystr \<Rightarrow> trust \<Rightarrow> pyval \<Rightarrow> pystr \<Rightarrow> (call_error, content_ref) result" where
  "content_ref_of R ref_id origin trust content label =
     bindR (mapErr CallContent (action_sha256_of R content)) (\<lambda>h.
     let r = \<lparr>cr_ref_id = ref_id, cr_origin = origin, cr_trust = trust, cr_content_hash = h, cr_label = label\<rparr> in
     bindR (mapErr CallProvenance (check_content_ref r)) (\<lambda>_. return r))"

definition arguments_label :: "tool_call \<Rightarrow> pystr" where
  "arguments_label c = lit ''arguments for '' @ tc_name c"

definition default_provenance ::
  "runtime \<Rightarrow> pystr \<Rightarrow> readings \<Rightarrow> tool_call \<Rightarrow> (call_error, content_ref list) result" where
  "default_provenance R runner env c =
     bindR (content_ref_of R (new_id ''ref'' 0 env) (lit ''agent:'' @ runner) Derived (tc_arguments c) (arguments_label c))
       (\<lambda>r. return [r])"

definition target_keys :: "string list" where
  "target_keys = [''path'', ''to'', ''url'', ''destination'', ''target'', ''recipient'', ''payee'']"

definition target_of :: "text_library \<Rightarrow> tool_call \<Rightarrow> pystr" where
  "target_of T c = (case find (\<lambda>k. argument k c \<noteq> None) target_keys of
     None \<Rightarrow> tc_name c | Some k \<Rightarrow> str_text T (argument_or PNone k c))"

text \<open>A monetary value as it arrives.\<close>

definition money_value :: "text_library \<Rightarrow> pyval \<Rightarrow> money_like" where
  "money_value T v = (case v of
     PBool b \<Rightarrow> MBool b | PDecimal d \<Rightarrow> MDecimal d | PStr s \<Rightarrow> MStr s | PEnum s \<Rightarrow> MStr s | PInt i \<Rightarrow> MInt i
   | PFloat s \<Rightarrow> MFloat s | _ \<Rightarrow> MOther (str_text T v))"

definition estimate_cost :: "text_library \<Rightarrow> tool_call \<Rightarrow> (call_error, decimal) result" where
  "estimate_cost T c = mapErr CallCost (money (money_value T (argument_or (PStr (lit ''0'')) ''amount_usd'' c)))"

text \<open>An adapter that overrides nothing.\<close>

definition base_adapter :: "runtime \<Rightarrow> text_library \<Rightarrow> pystr \<Rightarrow> (pystr, side_effect) dict \<Rightarrow> adapter" where
  "base_adapter R T runner effects =
     \<lparr>ad_runner_name = runner, ad_side_effects = effects, ad_payload_for = \<lambda>c. return (tc_arguments c),
      ad_provenance_for = default_provenance R runner, ad_target_of = target_of T, ad_estimate_cost = estimate_cost T\<rparr>"

definition to_action ::
  "runtime \<Rightarrow> text_library \<Rightarrow> adapter \<Rightarrow> readings \<Rightarrow> tool_call \<Rightarrow> pystr \<Rightarrow> (call_error, action) result" where
  "to_action R T A env c request_id =
     bindR (ad_payload_for A c) (\<lambda>payload.
     bindR (ad_provenance_for A (inside 0 env) c) (\<lambda>sources.
     bindR (ad_estimate_cost A c) (\<lambda>cost.
       mapErr CallAction (validate_action_contract R
         \<lparr>pa_tool_name = tc_name c, pa_target = ad_target_of A c, pa_payload = payload, pa_side_effect_level = classify A c,
          pa_agent_reason = str_text T (argument_or (PStr []) ''_reason'' c), pa_action_id = new_id ''act'' 1 env,
          pa_request_id = request_id, pa_payload_sources = sources, pa_estimated_cost_usd = cost,
          pa_created_at = stamp_at 2 env, pa_sealed = None\<rparr>))))"

text \<open>What a translation does to the call it is given: the base class leaves it alone.\<close>

type_synonym translation = "readings \<Rightarrow> tool_call \<Rightarrow> pystr \<Rightarrow> (call_error, action) result \<times> tool_call"

definition translate :: "runtime \<Rightarrow> text_library \<Rightarrow> adapter \<Rightarrow> translation" where
  "translate R T A env c request_id = (to_action R T A env c request_id, c)"

subsection \<open>The scripted adapter\<close>

definition mock_side_effects :: "(pystr, side_effect) dict" where
  "mock_side_effects = map (\<lambda>(k, e). (lit k, e))
     [(''read_file'', NoEffect), (''summarize'', NoEffect), (''draft_email'', NoEffect), (''write_file'', LocalWrite),
      (''send_email'', ExternalSend), (''export_file'', ExternalSend), (''publish_post'', ExternalPublish),
      (''delete_file'', Destructive), (''spend'', Spend)]"

text \<open>Arguments without the fixture's own, whose names begin with an underscore.\<close>

definition public_arguments :: "tool_call \<Rightarrow> (call_error, pyval) result" where
  "public_arguments c = (case tc_arguments c of
     PDict kvs \<Rightarrow>
       if list_all (\<lambda>kv. case fst kv of PStr _ \<Rightarrow> True | _ \<Rightarrow> False) kvs
       then return (PDict (filter (\<lambda>kv. \<not> startswith (text_of (Some (fst kv))) (lit ''_'')) kvs))
       else raise CallKey
   | _ \<Rightarrow> raise CallArguments)"

definition declared_trust :: "trust \<Rightarrow> tool_call \<Rightarrow> (call_error, trust) result" where
  "declared_trust standard c = (case argument ''_trust'' c of
     None \<Rightarrow> return standard
   | Some v \<Rightarrow>
       if \<not> truthy v then return standard
       else (case v of
           PStr s \<Rightarrow> (case member_of trust_value [Trusted, Untrusted, Derived] s of
               Some t \<Rightarrow> return t | None \<Rightarrow> raise CallTrust)
         | _ \<Rightarrow> raise CallTrust))"

definition mock_provenance ::
  "runtime \<Rightarrow> text_library \<Rightarrow> trust \<Rightarrow> readings \<Rightarrow> tool_call \<Rightarrow> (call_error, content_ref list) result" where
  "mock_provenance R T standard env c =
     bindR (declared_trust standard c) (\<lambda>trust.
     bindR (public_arguments c) (\<lambda>content.
     bindR (content_ref_of R (new_id ''ref'' 0 env) (str_text T (argument_or (PStr (lit ''agent:mock'')) ''_origin'' c))
         trust content (arguments_label c)) (\<lambda>r. return [r])))"

definition mock_adapter :: "runtime \<Rightarrow> text_library \<Rightarrow> trust \<Rightarrow> adapter" where
  "mock_adapter R T standard =
     \<lparr>ad_runner_name = lit ''mock'', ad_side_effects = mock_side_effects, ad_payload_for = public_arguments,
      ad_provenance_for = mock_provenance R T standard, ad_target_of = target_of T, ad_estimate_cost = estimate_cost T\<rparr>"

subsection \<open>Outcomes for the agent\<close>

record tool_call_outcome =
  to_is_error :: bool
  to_content :: pyval
  to_status :: pystr
  to_record_id :: pystr
  to_approval_id :: pystr

definition tool_call_outcome_of :: "action_outcome \<Rightarrow> tool_call_outcome" where
  "tool_call_outcome_of o' = (let (is_error, content) = as_tool_outcome o' in
     \<lparr>to_is_error = is_error, to_content = content, to_status = status_value (ao_status o'),
      to_record_id = ao_record_id o', to_approval_id = ao_approval_id o'\<rparr>)"

definition as_text :: "pyval \<Rightarrow> pystr" where
  "as_text v = (case v of PStr s \<Rightarrow> s | PEnum s \<Rightarrow> s | _ \<Rightarrow> pretty 0 v)"

definition as_mcp_result :: "tool_call_outcome \<Rightarrow> pyval" where
  "as_mcp_result o' = PDict
     [(PStr (lit ''isError''), PBool (to_is_error o')),
      (PStr (lit ''content''), PList [PDict [(PStr (lit ''type''), PStr (lit ''text'')),
         (PStr (lit ''text''), PStr (as_text (to_content o')))]]),
      (PStr (lit ''_defiant''), PDict [(PStr (lit ''status''), PStr (to_status o')),
         (PStr (lit ''evidence_record_id''), PStr (to_record_id o')),
         (PStr (lit ''approval_id''), PStr (to_approval_id o'))])]"

subsection \<open>Entry points\<close>

datatype entry_error = InCall call_error | InHarness harness_error

type_synonym 'a entry_effect = "(harness_state, entry_error, 'a) effect"

definition in_harness :: "'a harness_effect \<Rightarrow> 'a entry_effect" where
  "in_harness m s = (case m s of (r, t) \<Rightarrow> (mapErr InHarness r, t))"

definition in_call :: "(call_error, 'a) result \<Rightarrow> 'a entry_effect" where
  "in_call r = liftA (mapErr InCall r)"

text \<open>
  \<open>handle_call\<close> and, with \<open>external\<close>, \<open>preflight_external_call\<close>. The request is validated here and is then
  sealed, so that the validation inside \<open>handle\<close> stands for the same one.
\<close>

definition handle_call ::
  "harness \<Rightarrow> translation \<Rightarrow> readings \<Rightarrow> tool_call \<Rightarrow> harness_request \<Rightarrow> pystr \<Rightarrow> pystr \<Rightarrow> bool
   \<Rightarrow> action_outcome entry_effect" where
  "handle_call H tr env c q owner key external =
     bindA (in_harness (require_execution_enabled H)) (\<lambda>_.
     bindA (in_harness (contract (validate_request (hc_runtime H) q))) (\<lambda>_.
     bindA (in_call (seal_call (hc_runtime H) c)) (\<lambda>c.
     let (translated, c) = tr (inside 1 env) c (hr_request_id q) in
     bindA (in_call translated) (\<lambda>a.
     bindA (in_call (require_call_unchanged (hc_runtime H) c)) (\<lambda>_.
       in_harness (handle H (inside 2 env) a q owner key external))))))"

text \<open>\<open>run\<close>: the calls of a task one after the other; an exception ends it.\<close>

fun run_calls ::
  "harness \<Rightarrow> translation \<Rightarrow> readings \<Rightarrow> nat \<Rightarrow> tool_call list \<Rightarrow> harness_request \<Rightarrow> action_outcome list entry_effect" where
  "run_calls H tr env n [] q = okA []"
| "run_calls H tr env n (c # cs) q =
     bindA (handle_call H tr (inside n env) c q [] [] False) (\<lambda>o'.
     bindA (run_calls H tr env (n + 1) cs q) (\<lambda>os. okA (o' # os)))"

definition run_task ::
  "harness \<Rightarrow> translation \<Rightarrow> (pystr \<Rightarrow> tool_call list) \<Rightarrow> readings \<Rightarrow> harness_request \<Rightarrow> action_outcome list entry_effect" where
  "run_task H tr propose_calls env q =
     bindA (in_harness (require_execution_enabled H)) (\<lambda>_.
     bindA (in_harness (contract (validate_request (hc_runtime H) q))) (\<lambda>_.
       run_calls H tr (inside 1 env) 0 (propose_calls (hr_task q)) q))"

end
