(* ===== verification/AdapterFacts.thy ===== *)
theory AdapterFacts
  imports Adapter HarnessMachine DurableState ContractFacts
begin

text \<open>
  What reaches a handler from a tool call: a call is translated once, what the loop is given is that
  translation, and the only action a handler can be called for is its sealed form.
\<close>

subsection \<open>Only the sealed action runs\<close>

lemma handle_runs_sealed:
  assumes "store_ok (hc_runtime H) (hn_approvals s)"
  shows "handler_calls (snd (handle H env a q ow key ext s)) = handler_calls s
    \<or> (\<exists>a' q' ko. handler_calls (snd (handle H env a q ow key ext s)) = handler_calls s @ [a']
        \<and> asked_directly (hc_runtime H) a q ext a' q' ko
        \<and> cleared H ko (hn_budget s) a' q' (snd (handle H env a q ow key ext s)))"
proof -
  obtain r t where h: "handle H env a q ow key ext s = (r, t)" by (rule prod.exhaust)
  have w: "waiting (hc_runtime H) (hn_budget s) (handler_calls s) s" using assms by (simp add: waiting_parts handler_calls_def)
  have "ran H (asked_directly (hc_runtime H) a q ext) (hn_budget s) (handler_calls s) t"
    using tripleD [OF handle_cleared w, of env a q ow key ext] h by (cases r) auto
  then show ?thesis unfolding h snd_conv ran_def handler_calls_def .
qed

subsection \<open>A call and its translation\<close>

lemma in_harness_state [simp]: "snd (in_harness m s) = snd (m s)"
  by (cases "m s") (simp add: in_harness_def)

lemma entry_steps:
  "bindA (in_harness (require_execution_enabled H)) f s =
     (if hc_execution_disabled H then (raise (InHarness ExecutionDisabled), s) else f () s)"
  "bindA (in_harness (contract r)) g s = (case r of Inl e \<Rightarrow> (raise (InHarness (HarnessContract e)), s) | Inr x \<Rightarrow> g x s)"
  "bindA (in_call q) h s = (case q of Inl e \<Rightarrow> (raise (InCall e), s) | Inr x \<Rightarrow> h x s)"
  by (cases r; cases q; simp add: bindA_def in_harness_def require_execution_enabled_def checkA_def contract_def liftA_def in_call_def)+

lemma handle_call_cases:
  assumes "handle_call H tr env c q ow key ext s = (r, t)"
  obtains e where "r = raise e" "t = s"
  | c1 a c2 where "seal_call (hc_runtime H) c = return c1" "tr (inside 1 env) c1 (hr_request_id q) = (return a, c2)"
      "require_call_unchanged (hc_runtime H) c2 = return ()"
      "in_harness (handle H (inside 2 env) a q ow key ext) s = (r, t)"
  using assms that by (auto simp: handle_call_def entry_steps split: if_splits sum.splits prod.splits)

text \<open>Sealing keeps the name of the tool.\<close>

lemma visit_entries_values:
  "visit_entries L first kvs depth st = return (ws, st') \<Longrightarrow>
   length ws = length kvs \<and> (\<forall>i < length kvs. \<exists>s1 s2. visit L (snd (kvs ! i)) depth s1 = return (ws ! i, s2))"
proof (induction kvs arbitrary: first st ws)
  case (Cons kv kvs)
  from Cons.prems obtain w ws' s1 s2 s3 where 1: "ws = w # ws'" "visit L (snd kv) depth s1 = return (w, s2)"
    "visit_entries L False kvs depth s2 = return (ws', st')" by auto
  show ?case using Cons.IH [OF 1(3)] 1 by (auto simp: nth_Cons split: nat.split)
qed simp

lemma call_snapshot_name:
  assumes "call_snapshot R c = return (w, h)"
  shows "dict_lookup ''name'' w = Some (PStr (tc_name c))" "h = lit ''sha256:'' @ rt_sha256 R (encode w)"
proof -
  have "snapshot_of action_limits (call_surface c) = return w" and "h = lit ''sha256:'' @ rt_sha256 R (encode w)"
    using assms snapshot_and_sha256D by (auto simp: call_snapshot_def)
  then show "h = lit ''sha256:'' @ rt_sha256 R (encode w)" by simp
  obtain st where v: "visit action_limits (call_surface c) 0 start_state = return (w, st)"
    using \<open>snapshot_of action_limits (call_surface c) = return w\<close> by (auto simp: snapshot_of_def)
  define names where "names = map (PStr \<circ> lit) [''name'', ''arguments'', ''call_id'', ''server'', ''transport_params'']"
  define parts where "parts = [PStr (tc_name c), tc_arguments c, PStr (tc_call_id c), PStr (tc_server c), tc_transport c]"
  have surface: "call_surface c = PDict (zip names parts)" "map fst (zip names parts) = names"
    by (simp_all add: call_surface_def names_def parts_def)
  obtain ks ws s1 s2 where 1: "mapping_keys action_limits 0 names s1 = return (ks, s2)"
    "visit_entries action_limits True (zip names parts) 1 s2 = return (ws, st)" "w = PDict (zip ks ws)"
    using v by (auto simp: surface)
  have "ks = names" using mapping_keys_exact [OF 1(1)] by (simp add: names_def)
  moreover have "length ws = 5" "ws ! 0 = PStr (tc_name c)"
    using visit_entries_values [OF 1(2)] by (auto simp: names_def parts_def visit_scalar_def dest!: spec [of _ 0])
  then obtain ws' where "ws = PStr (tc_name c) # ws'" by (cases ws) auto
  ultimately show "dict_lookup ''name'' w = Some (PStr (tc_name c))"
    using 1(3) by (simp add: names_def dict_lookup_def)
qed

end
