(* ===== verification/DependencyInventory.thy ===== *)
theory DependencyInventory
  imports Registry
begin

text \<open>
  The inventory of a closed dependency root (\<open>runtime_artifacts.py\<close>, \<open>_inventory_dependency_root\<close>): a loop
  over a stack of directories with a ceiling on the entries it looks at. What the system lists in a
  directory is a function that need not be finite or acyclic; the loop returns for every such function.
\<close>

subsection \<open>What the system lists\<close>

datatype artifact_error =
    ArtifactRole
  | ArtifactHash
  | ArtifactPath
  | NoDependencyFiles
  | TooManyDependencyFiles
  | DuplicateDependencyPath
  | ArtifactMode
  | Unhashable
  | ArtifactCount
  | ExecutableFlag
  | IncompleteAssurance
  | DependencyCounts
  | DependencyWithoutPins
  | NoLocalCommand
  | DuplicateRole
  | NoExecutablePin
  | ArtifactLink
  | ArtifactMissing
  | ArtifactNotRegular
  | DuplicateArtifact
  | ArtifactInsideState
  | ArtifactDigest
  | Unreadable
  | CommandMissing
  | CommandUnresolved
  | OtherExecutable
  | DependencyLink
  | DependencyMissing
  | DependencyNotDirectory
  | DuplicateDependencyRoot
  | DependencyOverlap
  | InventoryMismatch
  | DependencyEscapes
  | DependencyNotRegular
  | DependencyDigest
  | CannotInventory
  | TooManyEntries
  | EntryInaccessible
  | EntryHardLink
  | EntryNotRegular
  | BundleChanged
  | ArtifactSnapshot
  | ArtifactSchema
  | ArtifactFields
  | ArtifactVersion
  | ArtifactTimestamp
  | ArtifactConflict
  | ArtifactTooLarge

text \<open>An entry as it is seen without following links: a directory, a regular file with its link count, or other.\<close>

datatype entry_kind = DirectoryEntry | RegularEntry nat | OtherEntry

record dir_entry =
  de_name :: pystr
  de_link :: bool
  de_kind :: "entry_kind option"

type_synonym listing = "path \<Rightarrow> dir_entry list option"

definition max_dependency_files :: nat where "max_dependency_files = 100000"
definition max_dependency_entries :: nat where "max_dependency_entries = 200000"

subsection \<open>The loop\<close>

fun join_slashes :: "path \<Rightarrow> pystr" where
  "join_slashes [] = []"
| "join_slashes [part] = part"
| "join_slashes (part # parts) = part @ [47] @ join_slashes parts"

text \<open>\<open>PurePosixPath.as_posix\<close> of a relative path.\<close>

definition as_posix :: "path \<Rightarrow> pystr" where
  "as_posix parts = (if parts = [] then dot else join_slashes parts)"

text \<open>The stack, the number of entries seen and the files found, newest first.\<close>

record inventory =
  iv_stack :: "path list"
  iv_count :: nat
  iv_files :: "pystr list"

definition visit_entry :: "path \<Rightarrow> dir_entry \<Rightarrow> inventory \<Rightarrow> (artifact_error, inventory) result" where
  "visit_entry dir e st =
     (let count = iv_count st + 1; relative = dir @ [de_name e]; name = as_posix relative;
          st = st\<lparr>iv_count := count\<rparr> in
      if max_dependency_entries < count then raise TooManyEntries
      else (case de_kind e of
          None \<Rightarrow> raise EntryInaccessible
        | Some kind \<Rightarrow>
            if de_link e then raise DependencyLink
            else (case kind of
                DirectoryEntry \<Rightarrow> return (st\<lparr>iv_stack := relative # iv_stack st\<rparr>)
              | RegularEntry links \<Rightarrow>
                  if links \<noteq> 1 then raise EntryHardLink
                  else if name \<in> set (iv_files st) then raise DuplicateDependencyPath
                  else if max_dependency_files < length (iv_files st) + 1 then raise TooManyDependencyFiles
                  else return (st\<lparr>iv_files := name # iv_files st\<rparr>)
              | OtherEntry \<Rightarrow> raise EntryNotRegular)))"

fun visit_dir :: "path \<Rightarrow> dir_entry list \<Rightarrow> inventory \<Rightarrow> (artifact_error, inventory) result" where
  "visit_dir dir [] st = return st"
| "visit_dir dir (e # es) st = bindR (visit_entry dir e st) (visit_dir dir es)"

partial_function (option) inventory_loop ::
  "listing \<Rightarrow> inventory \<Rightarrow> (artifact_error, pystr list) result option" where
  "inventory_loop list st = (case iv_stack st of
     [] \<Rightarrow> Some (return (iv_files st))
   | dir # rest \<Rightarrow> (case list dir of
       None \<Rightarrow> Some (raise CannotInventory)
     | Some entries \<Rightarrow> (case visit_dir dir entries (st\<lparr>iv_stack := rest\<rparr>) of
         Inl e \<Rightarrow> Some (raise e)
       | Inr st \<Rightarrow> inventory_loop list st)))"

declare inventory_loop.simps [code]

definition inventory_dependency_root :: "listing \<Rightarrow> (artifact_error, pystr list) result option" where
  "inventory_dependency_root list = inventory_loop list \<lparr>iv_stack = [[]], iv_count = 0, iv_files = []\<rparr>"

subsection \<open>What is under a directory\<close>

text \<open>A regular file is under a directory when listings lead to it.\<close>

inductive under :: "listing \<Rightarrow> path \<Rightarrow> path \<Rightarrow> bool" for list where
  here: "list dir = Some es \<Longrightarrow> e \<in> set es \<Longrightarrow> de_kind e = Some (RegularEntry n) \<Longrightarrow> under list dir (dir @ [de_name e])"
| below: "list dir = Some es \<Longrightarrow> e \<in> set es \<Longrightarrow> de_kind e = Some DirectoryEntry \<Longrightarrow>
    under list (dir @ [de_name e]) p \<Longrightarrow> under list dir p"

inductive_simps under_step: "under list dir p"

definition found_here :: "path \<Rightarrow> dir_entry list \<Rightarrow> path set" where
  "found_here dir es = {dir @ [de_name e] |e n. e \<in> set es \<and> de_kind e = Some (RegularEntry n)}"

definition subdirs :: "path \<Rightarrow> dir_entry list \<Rightarrow> path set" where
  "subdirs dir es = {dir @ [de_name e] |e. e \<in> set es \<and> de_kind e = Some DirectoryEntry}"

definition files_under :: "listing \<Rightarrow> path set \<Rightarrow> path set" where
  "files_under list dirs = {p. \<exists>dir \<in> dirs. under list dir p}"

lemma files_under_step:
  "list dir = Some es \<Longrightarrow> files_under list {dir} = found_here dir es \<union> files_under list (subdirs dir es)"
  by (auto simp: files_under_def found_here_def subdirs_def under_step [of list dir])

lemma files_under_union [simp]: "files_under list (A \<union> B) = files_under list A \<union> files_under list B"
  "files_under list {} = {}"
  by (auto simp: files_under_def)

lemma files_under_insert: "files_under list (insert d A) = files_under list {d} \<union> files_under list A"
  by (auto simp: files_under_def)

subsection \<open>One directory\<close>

lemma visit_entry_Inr:
  assumes "visit_entry dir e st = return st'"
  shows "iv_count st' = iv_count st + 1" "iv_count st' \<le> max_dependency_entries"
    "set (iv_stack st') = set (iv_stack st) \<union> subdirs dir [e]"
    "set (iv_files st') = set (iv_files st) \<union> as_posix ` found_here dir [e]"
    "distinct (iv_files st) \<Longrightarrow> distinct (iv_files st')"
  using assms
  by (auto simp: visit_entry_def Let_def subdirs_def found_here_def split: option.splits entry_kind.splits if_splits)

lemma here_Cons: "found_here dir (e # es) = found_here dir [e] \<union> found_here dir es"
  "subdirs dir (e # es) = subdirs dir [e] \<union> subdirs dir es"
  by (auto simp: found_here_def subdirs_def)

lemma visit_dir_Inr:
  "visit_dir dir es st = return st' \<Longrightarrow>
     iv_count st' = iv_count st + length es \<and> (es = [] \<or> iv_count st' \<le> max_dependency_entries)
     \<and> set (iv_stack st') = set (iv_stack st) \<union> subdirs dir es
     \<and> set (iv_files st') = set (iv_files st) \<union> as_posix ` found_here dir es
     \<and> (distinct (iv_files st) \<longrightarrow> distinct (iv_files st'))"
proof (induction es arbitrary: st)
  case (Cons e es)
  from Cons.prems obtain st1 where 1: "visit_entry dir e st = return st1" "visit_dir dir es st1 = return st'" by auto
  show ?case
    using visit_entry_Inr [OF 1(1)] Cons.IH [OF 1(2)] here_Cons [of dir e es] by (auto simp: image_Un)
qed (simp add: subdirs_def found_here_def)

lemma visit_dir_nil: "visit_dir dir [] st = return st' \<longleftrightarrow> st' = st"
  by auto

subsection \<open>The loop returns\<close>

text \<open>
  A round with entries uses up the ceiling; a round without only shortens the stack. Whatever the listings
  are, the loop ends, and if it ends well it found exactly the files under the root.
\<close>

lemma inventory_loop_returns:
  "iv_count st \<le> max_dependency_entries \<Longrightarrow> \<exists>r. inventory_loop list st = Some r
     \<and> (\<forall>fs. r = return fs \<longrightarrow> set fs = set (iv_files st) \<union> as_posix ` files_under list (set (iv_stack st))
          \<and> (distinct (iv_files st) \<longrightarrow> distinct fs))"
proof (induction st rule: wf_induct_rule [OF wf_measures [of "[\<lambda>st. max_dependency_entries - iv_count st, \<lambda>st. length (iv_stack st)]"]])
  case (1 st)
  show ?case
  proof (cases "iv_stack st")
    case Nil
    then show ?thesis by (simp add: inventory_loop.simps)
  next
    case stack: (Cons dir rest)
    show ?thesis
    proof (cases "list dir")
      case None
      then show ?thesis using stack by (simp add: inventory_loop.simps)
    next
      case (Some es)
      show ?thesis
      proof (cases "visit_dir dir es (st\<lparr>iv_stack := rest\<rparr>)")
        case (Inl e)
        then show ?thesis using stack Some by (simp add: inventory_loop.simps)
      next
        case (Inr st')
        note v = visit_dir_Inr [OF Inr]
        have step: "inventory_loop list st = inventory_loop list st'"
          using stack Some Inr by (subst inventory_loop.simps) simp
        have smaller: "(st', st) \<in> measures [\<lambda>st. max_dependency_entries - iv_count st, \<lambda>st. length (iv_stack st)]"
          using Inr v stack "1.prems" by (cases es) auto
        have room: "iv_count st' \<le> max_dependency_entries" using Inr v "1.prems" by (cases es) auto
        have "files_under list (set (iv_stack st)) = files_under list (set rest) \<union> (found_here dir es \<union> files_under list (subdirs dir es))"
          using files_under_step [of list dir es, OF Some] files_under_insert [of list dir "set rest"] stack by auto
        then have "set (iv_files st') \<union> as_posix ` files_under list (set (iv_stack st'))
            = set (iv_files st) \<union> as_posix ` files_under list (set (iv_stack st))"
          using v by (auto simp: image_Un)
        then show ?thesis using "1.IH" [OF smaller room] step v by auto
      qed
    qed
  qed
qed

end
