(* ===== verification/RuntimeArtifacts.thy ===== *)
theory RuntimeArtifacts
  imports DependencyInventory OperatorTrust
begin

text \<open>
  Content-addressed assurance for local runtime artifacts (\<open>runtime_artifacts.py\<close>): the pins of an
  operator, the verification of a bundle of artifacts and closed dependency roots, and the file that keeps
  the result under the hash of the authority profile. The file system is a parameter that does not change
  during one verification; paths are POSIX paths.
\<close>

subsection \<open>The file system\<close>

datatype file_kind = LinkFile | DirectoryFile | RegularFile | SpecialFile

text \<open>\<open>st_mode\<close>, the reparse attribute, \<open>st_nlink\<close> and \<open>st_size\<close>.\<close>

record file_status =
  fs_kind :: file_kind
  fs_reparse :: bool
  fs_links :: nat
  fs_size :: nat

text \<open>
  On absolute paths: \<open>lstat\<close>, \<open>stat\<close>, \<open>resolve\<close> strict and not, \<open>scandir\<close> with the status of each entry, and the
  SHA-256 of a file in hexadecimal. \<open>dk_which\<close> searches the path of the process for a command.
\<close>

record disk =
  dk_cwd :: path
  dk_lstat :: "path \<Rightarrow> file_status option"
  dk_stat :: "path \<Rightarrow> file_status option"
  dk_resolve :: "path \<Rightarrow> path option"
  dk_resolve_lax :: "path \<Rightarrow> path"
  dk_scan :: "path \<Rightarrow> dir_entry list option"
  dk_digest :: "path \<Rightarrow> pystr option"
  dk_which :: "pystr \<Rightarrow> (bool \<times> path) option"
  dk_normcase :: "pystr \<Rightarrow> pystr"

text \<open>A path as the program holds it: absolute or relative to the current directory.\<close>

type_synonym file_path = "bool \<times> path"

fun split_on :: "nat \<Rightarrow> pystr \<Rightarrow> pystr \<Rightarrow> pystr list" where
  "split_on sep acc [] = [rev acc]"
| "split_on sep acc (c # cs) = (if c = sep then rev acc # split_on sep [] cs else split_on sep (c # acc) cs)"

definition posix_path :: "pystr \<Rightarrow> file_path" where
  "posix_path s = (take 1 s = [47], filter (\<lambda>part. part \<notin> {[], dot}) (split_on 47 [] s))"

definition absolute_path :: "disk \<Rightarrow> file_path \<Rightarrow> path" where
  "absolute_path D p = (if fst p then snd p else dk_cwd D @ snd p)"

definition path_text :: "path \<Rightarrow> pystr" where
  "path_text p = 47 # join_slashes p"

definition path_key :: "disk \<Rightarrow> path \<Rightarrow> pystr" where
  "path_key D p = dk_normcase D (path_text p)"

text \<open>The path and the directories above it, below the root.\<close>

definition steps_of :: "path \<Rightarrow> path list" where
  "steps_of p = map (\<lambda>n. take n p) [1..<length p + 1]"

definition is_symlink :: "disk \<Rightarrow> path \<Rightarrow> bool" where
  "is_symlink D p = (case dk_lstat D p of Some st \<Rightarrow> fs_kind st = LinkFile | None \<Rightarrow> False)"

definition path_has_symlink :: "disk \<Rightarrow> file_path \<Rightarrow> bool" where
  "path_has_symlink D p = list_ex (is_symlink D) (steps_of (absolute_path D p))"

definition path_has_link_or_reparse :: "disk \<Rightarrow> file_path \<Rightarrow> bool" where
  "path_has_link_or_reparse D p = list_ex (\<lambda>q. case dk_lstat D q of
       None \<Rightarrow> False | Some st \<Rightarrow> fs_kind st = LinkFile \<or> fs_reparse st) (steps_of (absolute_path D p))"

definition file_hash :: "disk \<Rightarrow> path \<Rightarrow> (artifact_error, pystr) result" where
  "file_hash D p = (case dk_digest D p of None \<Rightarrow> raise Unreadable | Some d \<Rightarrow> return (lit ''sha256:'' @ d))"

definition has_kind :: "file_kind \<Rightarrow> disk \<Rightarrow> path \<Rightarrow> bool" where
  "has_kind k D p = (case dk_stat D p of Some st \<Rightarrow> fs_kind st = k | None \<Rightarrow> False)"

definition resolve_command_executable ::
  "disk \<Rightarrow> pystr \<Rightarrow> file_path option \<Rightarrow> (artifact_error, path) result" where
  "resolve_command_executable D value cwd =
     (let candidate = posix_path value in
      if fst candidate \<or> 1 < length (snd candidate) then
        let located = (if fst candidate then candidate
           else (case cwd of Some (absolute, dir) \<Rightarrow> (absolute, dir @ snd candidate) | None \<Rightarrow> candidate))
        in wanted CommandMissing (dk_resolve D (absolute_path D located))
      else (case dk_which D value of
          None \<Rightarrow> raise CommandUnresolved
        | Some found \<Rightarrow> wanted CommandMissing (dk_resolve D (absolute_path D found))))"

subsection \<open>Pins\<close>

record artifact_pin =
  an_role :: pystr
  an_path :: file_path
  an_sha256 :: pystr

record dependency_file =
  df_path :: pystr
  df_sha256 :: pystr

record dependency_root =
  dr_path :: file_path
  dr_files :: "dependency_file list"

definition artifact_hash :: "pystr \<Rightarrow> (artifact_error, pystr) result" where
  "artifact_hash s = (if is_sha256 s then return s else raise ArtifactHash)"

definition role_chars :: pystr where
  "role_chars = lit ''abcdefghijklmnopqrstuvwxyz0123456789_-''"

definition new_pin :: "pystr \<Rightarrow> file_path \<Rightarrow> pystr \<Rightarrow> (artifact_error, artifact_pin) result" where
  "new_pin role path digest =
     (if role = [] \<or> role \<noteq> py_strip role \<or> \<not> list_all (\<lambda>c. c \<in> set role_chars) role then raise ArtifactRole
      else bindR (artifact_hash digest) (\<lambda>digest. return \<lparr>an_role = role, an_path = path, an_sha256 = digest\<rparr>))"

definition relative_manifest_path :: "pystr \<Rightarrow> (artifact_error, pystr) result" where
  "relative_manifest_path s =
     (if s = [] \<or> s \<noteq> py_strip s \<or> 0 \<in> set s then raise ArtifactPath
      else if 92 \<in> set s then raise ArtifactPath
      else let path = posix_path s in
        if fst path \<or> snd path = [] \<or> s \<noteq> as_posix (snd path) \<or> list_ex (\<lambda>part. part \<in> {[], dot, dot_dot}) (snd path)
        then raise ArtifactPath
        else return s)"

definition new_dependency_file :: "pystr \<Rightarrow> pystr \<Rightarrow> (artifact_error, dependency_file) result" where
  "new_dependency_file path digest =
     bindR (relative_manifest_path path) (\<lambda>path.
     bindR (artifact_hash digest) (\<lambda>digest. return \<lparr>df_path = path, df_sha256 = digest\<rparr>))"

definition new_dependency_root :: "file_path \<Rightarrow> dependency_file list \<Rightarrow> (artifact_error, dependency_root) result" where
  "new_dependency_root path files =
     (if files = [] then raise NoDependencyFiles
      else if max_dependency_files < length files then raise TooManyDependencyFiles
      else if \<not> distinct (map df_path files) then raise DuplicateDependencyPath
      else return \<lparr>dr_path = path, dr_files = files\<rparr>)"

subsection \<open>Assurance\<close>

record assurance =
  aa_mode :: pystr
  aa_bundle_hash :: "pystr option"
  aa_artifact_count :: int
  aa_executable_pinned :: bool
  aa_command :: "pystr list"
  aa_root_count :: int
  aa_file_count :: int

definition artifact_modes :: "pystr list" where
  "artifact_modes = map lit [''required'', ''closed'', ''unverified'', ''remote_not_applicable'']"

text \<open>Membership in a set of texts: a list or an object cannot be hashed.\<close>

definition text_in :: "artifact_error \<Rightarrow> pystr list \<Rightarrow> pyval \<Rightarrow> (artifact_error, pystr) result" where
  "text_in e known v = (case v of
     PStr s \<Rightarrow> (if s \<in> set known then return s else raise e)
   | PDict _ \<Rightarrow> raise Unhashable
   | PList _ \<Rightarrow> raise Unhashable
   | _ \<Rightarrow> raise e)"

definition natural :: "pyval \<Rightarrow> (artifact_error, int) result" where
  "natural v = (case v of PInt i \<Rightarrow> (if i < 0 then raise ArtifactCount else return i) | _ \<Rightarrow> raise ArtifactCount)"

definition bundle_of :: "pyval \<Rightarrow> (artifact_error, pystr option) result" where
  "bundle_of v = (case v of
     PNone \<Rightarrow> return None
   | PStr s \<Rightarrow> bindR (artifact_hash s) (\<lambda>h. return (Some h))
   | _ \<Rightarrow> raise ArtifactHash)"

definition pinned_of :: "pyval \<Rightarrow> (artifact_error, bool) result" where
  "pinned_of v = (case v of PBool b \<Rightarrow> return b | _ \<Rightarrow> raise ExecutableFlag)"

definition complete :: "assurance \<Rightarrow> (artifact_error, unit) result" where
  "complete a =
     (if aa_mode a = lit ''required''
         \<and> (aa_bundle_hash a = None \<or> aa_artifact_count a < 1 \<or> \<not> aa_executable_pinned a) then raise IncompleteAssurance
      else if aa_mode a = lit ''closed''
         \<and> (aa_bundle_hash a = None \<or> aa_artifact_count a < 1 \<or> \<not> aa_executable_pinned a
            \<or> aa_root_count a < 1 \<or> aa_file_count a < 1) then raise IncompleteAssurance
      else if aa_mode a \<noteq> lit ''closed'' \<and> (aa_root_count a \<noteq> 0 \<or> aa_file_count a \<noteq> 0) then raise DependencyCounts
      else return ())"

text \<open>\<open>RuntimeArtifactAssurance(...)\<close> with the checks of \<open>__post_init__\<close>.\<close>

definition new_assurance ::
  "pyval \<Rightarrow> pyval \<Rightarrow> pyval \<Rightarrow> pyval \<Rightarrow> pystr list \<Rightarrow> pyval \<Rightarrow> pyval \<Rightarrow> (artifact_error, assurance) result" where
  "new_assurance mode bundle artifacts pinned command roots files =
     bindR (text_in ArtifactMode artifact_modes mode) (\<lambda>mode.
     bindR (bundle_of bundle) (\<lambda>bundle.
     bindR (natural artifacts) (\<lambda>artifacts.
     bindR (pinned_of pinned) (\<lambda>pinned.
     bindR (natural roots) (\<lambda>roots.
     bindR (natural files) (\<lambda>files.
     let a = \<lparr>aa_mode = mode, aa_bundle_hash = bundle, aa_artifact_count = artifacts, aa_executable_pinned = pinned,
              aa_command = command, aa_root_count = roots, aa_file_count = files\<rparr>
     in bindR (complete a) (\<lambda>_. return a)))))))"

definition authority_object :: "pystr \<Rightarrow> pystr option \<Rightarrow> int \<Rightarrow> bool \<Rightarrow> int \<Rightarrow> int \<Rightarrow> json_object" where
  "authority_object mode bundle artifacts pinned roots files =
     [(lit ''mode'', PStr mode), (lit ''bundle_hash'', case bundle of None \<Rightarrow> PNone | Some h \<Rightarrow> PStr h),
      (lit ''artifact_count'', PInt artifacts), (lit ''executable_pinned'', PBool pinned)]
     @ (if mode = lit ''closed''
        then [(lit ''dependency_root_count'', PInt roots), (lit ''dependency_file_count'', PInt files)] else [])"

definition assurance_authority :: "assurance \<Rightarrow> json_object" where
  "assurance_authority a = authority_object (aa_mode a) (aa_bundle_hash a) (aa_artifact_count a)
     (aa_executable_pinned a) (aa_root_count a) (aa_file_count a)"

definition unverified_artifacts :: "pystr list \<Rightarrow> (artifact_error, assurance) result" where
  "unverified_artifacts command =
     new_assurance (PStr (lit ''unverified'')) PNone (PInt 0) (PBool False) command (PInt 0) (PInt 0)"

definition remote_artifacts :: "(artifact_error, assurance) result" where
  "remote_artifacts = new_assurance (PStr (lit ''remote_not_applicable'')) PNone (PInt 0) (PBool False) [] (PInt 0) (PInt 0)"

subsection \<open>Dependency roots\<close>

definition resolve_root :: "disk \<Rightarrow> path \<Rightarrow> dependency_root \<Rightarrow> (artifact_error, path \<times> dependency_root) result" where
  "resolve_root D state_root dir =
     (if path_has_link_or_reparse D (dr_path dir) then raise DependencyLink
      else bindR (wanted DependencyMissing (dk_resolve D (absolute_path D (dr_path dir)))) (\<lambda>resolved.
      if \<not> has_kind DirectoryFile D resolved then raise DependencyNotDirectory
      else if is_relative_to resolved state_root \<or> is_relative_to state_root resolved then raise DependencyOverlap
      else return (resolved, dir)))"

fun no_overlap :: "path list \<Rightarrow> bool" where
  "no_overlap [] = True"
| "no_overlap (p # ps) \<longleftrightarrow> list_all (\<lambda>q. \<not> is_relative_to p q \<and> \<not> is_relative_to q p) ps \<and> no_overlap ps"

text \<open>One file of a manifest, found by the inventory of its resolved root.\<close>

definition observe_file ::
  "runtime \<Rightarrow> disk \<Rightarrow> path \<Rightarrow> dependency_file \<Rightarrow> (artifact_error, json_object) result" where
  "observe_file R D dir f =
     (let candidate = dir @ snd (posix_path (df_path f)) in
      if path_has_link_or_reparse D (True, candidate) then raise DependencyLink
      else bindR (wanted DependencyMissing (dk_resolve D candidate)) (\<lambda>canonical.
      if \<not> is_relative_to canonical dir then raise DependencyEscapes
      else bindR (wanted DependencyMissing (dk_lstat D candidate)) (\<lambda>st.
      if fs_kind st \<noteq> RegularFile \<or> fs_reparse st \<or> fs_links st \<noteq> 1 then raise DependencyNotRegular
      else bindR (file_hash D candidate) (\<lambda>observed.
      if observed \<noteq> df_sha256 f then raise DependencyDigest
      else return
        [(lit ''kind'', PStr (lit ''dependency'')),
         (lit ''root_hash'', PStr (sha256_of (rt_sha256 R) (PStr (path_key D dir)))),
         (lit ''relative_path'', PStr (df_path f)), (lit ''content_hash'', PStr observed),
         (lit ''size_bytes'', PInt (int (fs_size st)))]))))"

definition observe_root ::
  "runtime \<Rightarrow> disk \<Rightarrow> path \<Rightarrow> dependency_root \<Rightarrow> pystr list \<Rightarrow> (artifact_error, json_object list) result" where
  "observe_root R D dir d found =
     (if set found \<noteq> set (map df_path (dr_files d)) then raise InventoryMismatch
      else mapR (observe_file R D dir) (sort_key df_path (dr_files d)))"

fun observe_roots ::
  "runtime \<Rightarrow> disk \<Rightarrow> (path \<times> dependency_root) list \<Rightarrow> (artifact_error, json_object list) result option" where
  "observe_roots R D [] = Some (return [])"
| "observe_roots R D ((dir, d) # rest) =
     (case inventory_dependency_root (\<lambda>p. dk_scan D (dir @ p)) of
        None \<Rightarrow> None
      | Some found \<Rightarrow> (case bindR found (observe_root R D dir d) of
          Inl e \<Rightarrow> Some (raise e)
        | Inr os \<Rightarrow> map_option (\<lambda>r. bindR r (\<lambda>os'. return (os @ os'))) (observe_roots R D rest)))"

definition verify_dependency_roots ::
  "runtime \<Rightarrow> disk \<Rightarrow> path \<Rightarrow> dependency_root list \<Rightarrow> (artifact_error, json_object list) result option" where
  "verify_dependency_roots R D state_root roots =
     (if roots = [] then Some (return [])
      else (case mapR (resolve_root D state_root) roots of
          Inl e \<Rightarrow> Some (raise e)
        | Inr resolved \<Rightarrow>
            if \<not> distinct (map fst resolved) then Some (raise DuplicateDependencyRoot)
            else if \<not> no_overlap (map fst resolved) then Some (raise DependencyOverlap)
            else observe_roots R D (sort_key (\<lambda>r. path_key D (fst r)) resolved)))"

subsection \<open>The bundle\<close>

text \<open>One pin, after the resolved paths seen before it.\<close>

definition observe_pin ::
  "runtime \<Rightarrow> disk \<Rightarrow> path \<Rightarrow> path list \<Rightarrow> artifact_pin \<Rightarrow> (artifact_error, path \<times> json_object) result" where
  "observe_pin R D state_root seen pin =
     (if path_has_symlink D (an_path pin) then raise ArtifactLink
      else bindR (wanted ArtifactMissing (dk_resolve D (absolute_path D (an_path pin)))) (\<lambda>resolved.
      if \<not> has_kind RegularFile D resolved then raise ArtifactNotRegular
      else if resolved \<in> set seen then raise DuplicateArtifact
      else if is_relative_to resolved state_root then raise ArtifactInsideState
      else bindR (file_hash D resolved) (\<lambda>observed.
      if observed \<noteq> an_sha256 pin then raise ArtifactDigest
      else bindR (wanted Unreadable (dk_stat D resolved)) (\<lambda>st.
        return (resolved,
          [(lit ''role'', PStr (an_role pin)),
           (lit ''path_hash'', PStr (sha256_of (rt_sha256 R) (PStr (path_key D resolved)))),
           (lit ''content_hash'', PStr observed), (lit ''size_bytes'', PInt (int (fs_size st)))])))))"

fun observe_pins ::
  "runtime \<Rightarrow> disk \<Rightarrow> path \<Rightarrow> path list \<Rightarrow> artifact_pin list
   \<Rightarrow> (artifact_error, (artifact_pin \<times> path \<times> json_object) list) result" where
  "observe_pins R D state_root seen [] = return []"
| "observe_pins R D state_root seen (pin # pins) =
     bindR (observe_pin R D state_root seen pin) (\<lambda>(resolved, observation).
     bindR (observe_pins R D state_root (resolved # seen) pins) (\<lambda>os.
       return ((pin, resolved, observation) # os)))"

text \<open>The observations of the artifacts by role; they are marked when there are dependencies beside them.\<close>

definition artifact_observations ::
  "(artifact_pin \<times> path \<times> json_object) list \<Rightarrow> json_object list \<Rightarrow> json_object list" where
  "artifact_observations observed dependencies =
     (let os = map (\<lambda>(_, _, o'). o') (sort_key (\<lambda>(pin, _, _). an_role pin) observed) in
      if dependencies = [] then os
      else map (\<lambda>o'. (lit ''kind'', PStr (lit ''artifact'')) # o') os @ dependencies)"

definition bundle_assurance ::
  "runtime \<Rightarrow> path \<Rightarrow> pystr list \<Rightarrow> dependency_root list \<Rightarrow> (artifact_pin \<times> path \<times> json_object) list
   \<Rightarrow> json_object list \<Rightarrow> (artifact_error, assurance) result" where
  "bundle_assurance R executable arguments roots observed dependencies =
     (let os = artifact_observations observed dependencies in
      new_assurance (PStr (if roots \<noteq> [] then lit ''closed'' else lit ''required''))
        (PStr (sha256_of (rt_sha256 R) (PList (map json_of os)))) (PInt (int (length os))) (PBool True)
        (path_text executable # arguments) (PInt (int (length roots))) (PInt (int (length dependencies))))"

definition executable_role :: pystr where "executable_role = lit ''executable''"

text \<open>The guards before any file is looked at, and the observations of the pins.\<close>

definition verify_pins ::
  "runtime \<Rightarrow> disk \<Rightarrow> pystr \<Rightarrow> artifact_pin list \<Rightarrow> path \<Rightarrow> file_path option
   \<Rightarrow> (artifact_error, path \<times> (artifact_pin \<times> path \<times> json_object) list) result" where
  "verify_pins R D program pins state_root cwd =
     (if \<not> distinct (map an_role pins) then raise DuplicateRole
      else if executable_role \<notin> set (map an_role pins) then raise NoExecutablePin
      else bindR (observe_pins R D state_root [] pins) (\<lambda>observed.
      bindR (wanted NoExecutablePin (dict_get executable_role (map (\<lambda>(pin, p, _). (an_role pin, p)) observed))) (\<lambda>executable.
      bindR (resolve_command_executable D program cwd) (\<lambda>configured.
      if configured \<noteq> executable then raise OtherExecutable else return (executable, observed)))))"

definition verify_runtime_artifacts ::
  "runtime \<Rightarrow> disk \<Rightarrow> pystr list \<Rightarrow> artifact_pin list \<Rightarrow> path \<Rightarrow> file_path option \<Rightarrow> dependency_root list
   \<Rightarrow> (artifact_error, assurance) result option" where
  "verify_runtime_artifacts R D command pins workdir cwd roots =
     (if pins = [] \<and> roots \<noteq> [] then Some (raise DependencyWithoutPins)
      else if pins = [] then Some (unverified_artifacts command)
      else (case command of
          [] \<Rightarrow> Some (raise NoLocalCommand)
        | program # arguments \<Rightarrow>
            let state_root = dk_resolve_lax D workdir in
            (case verify_pins R D program pins state_root cwd of
                Inl e \<Rightarrow> Some (raise e)
              | Inr (executable, observed) \<Rightarrow>
                  map_option (\<lambda>r. bindR r (bundle_assurance R executable arguments roots observed))
                    (verify_dependency_roots R D state_root roots))))"

definition require_same_artifact_bundle :: "assurance \<Rightarrow> assurance \<Rightarrow> (artifact_error, unit) result" where
  "require_same_artifact_bundle expected observed =
     require (assurance_authority expected = assurance_authority observed) BundleChanged"

subsection \<open>The file that keeps the result\<close>

record artifact_state =
  ra_profile_hash :: pystr
  ra_mode :: pystr
  ra_bundle_hash :: "pystr option"
  ra_artifact_count :: int
  ra_executable_pinned :: bool
  ra_root_count :: int
  ra_file_count :: int
  ra_verified_at :: pystr

definition max_artifact_state_bytes :: nat where "max_artifact_state_bytes = 65536"

definition artifact_fields_v1 :: "pystr list" where
  "artifact_fields_v1 = map lit
     [''schema_name'', ''schema_version'', ''profile_hash'', ''mode'', ''bundle_hash'', ''artifact_count'',
      ''executable_pinned'', ''verified_at'']"

definition artifact_fields :: "pystr list" where
  "artifact_fields = artifact_fields_v1 @ map lit [''dependency_root_count'', ''dependency_file_count'']"

definition got :: "pyval \<Rightarrow> string \<Rightarrow> json_object \<Rightarrow> pyval" where
  "got missing f obj = (case obj_get f obj of Some v \<Rightarrow> v | None \<Rightarrow> missing)"

definition artifact_time :: "runtime \<Rightarrow> pyval \<Rightarrow> (artifact_error, pystr) result" where
  "artifact_time R v = (case v of
     PStr s \<Rightarrow> (if s = [] \<or> rt_instant R s = None then raise ArtifactTimestamp else return s)
   | _ \<Rightarrow> raise ArtifactTimestamp)"

definition profile_field :: "pyval \<Rightarrow> (artifact_error, pystr) result" where
  "profile_field v = (case v of PStr s \<Rightarrow> artifact_hash s | _ \<Rightarrow> raise ArtifactHash)"

definition state_of_assurance :: "pystr \<Rightarrow> pystr \<Rightarrow> assurance \<Rightarrow> artifact_state" where
  "state_of_assurance h stamp a =
     \<lparr>ra_profile_hash = h, ra_mode = aa_mode a, ra_bundle_hash = aa_bundle_hash a,
      ra_artifact_count = aa_artifact_count a, ra_executable_pinned = aa_executable_pinned a,
      ra_root_count = aa_root_count a, ra_file_count = aa_file_count a, ra_verified_at = stamp\<rparr>"

definition parse_artifact_state :: "runtime \<Rightarrow> json_object \<Rightarrow> (artifact_error, artifact_state) result" where
  "parse_artifact_state R obj =
     (let version = got PNone ''schema_version'' obj;
          expected = (if version = PStr (lit ''0.1.0'') then artifact_fields_v1 else artifact_fields) in
      if \<not> has_value ''schema_name'' ''defiant.runtime_artifacts'' obj then raise ArtifactSchema
      else if set (map fst obj) \<noteq> set expected then raise ArtifactFields
      else bindR (text_in ArtifactVersion [lit ''0.1.0'', lit ''0.2.0''] version) (\<lambda>_.
      bindR (profile_field (got PNone ''profile_hash'' obj)) (\<lambda>h.
      bindR (new_assurance (got PNone ''mode'' obj) (got PNone ''bundle_hash'' obj) (got PNone ''artifact_count'' obj)
          (got PNone ''executable_pinned'' obj) [] (got (PInt 0) ''dependency_root_count'' obj)
          (got (PInt 0) ''dependency_file_count'' obj)) (\<lambda>a.
      bindR (artifact_time R (got PNone ''verified_at'' obj)) (\<lambda>stamp.
        return (state_of_assurance h stamp a))))))"

definition artifact_state_of :: "runtime \<Rightarrow> pyval \<Rightarrow> (artifact_error, artifact_state) result" where
  "artifact_state_of R v =
     bindR (wanted ArtifactSnapshot (state_object max_artifact_state_bytes v)) (parse_artifact_state R)"

definition artifact_object :: "artifact_state \<Rightarrow> pyval" where
  "artifact_object s = json_of
     [(lit ''schema_name'', PStr (lit ''defiant.runtime_artifacts'')), (lit ''schema_version'', PStr (lit ''0.2.0'')),
      (lit ''profile_hash'', PStr (ra_profile_hash s)), (lit ''mode'', PStr (ra_mode s)),
      (lit ''bundle_hash'', case ra_bundle_hash s of None \<Rightarrow> PNone | Some h \<Rightarrow> PStr h),
      (lit ''artifact_count'', PInt (ra_artifact_count s)), (lit ''executable_pinned'', PBool (ra_executable_pinned s)),
      (lit ''dependency_root_count'', PInt (ra_root_count s)), (lit ''dependency_file_count'', PInt (ra_file_count s)),
      (lit ''verified_at'', PStr (ra_verified_at s))]"

definition state_authority :: "artifact_state \<Rightarrow> json_object" where
  "state_authority s = authority_object (ra_mode s) (ra_bundle_hash s) (ra_artifact_count s)
     (ra_executable_pinned s) (ra_root_count s) (ra_file_count s)"

definition artifact_projection :: "pystr \<Rightarrow> artifact_state \<Rightarrow> json_object" where
  "artifact_projection verification s =
     [(lit ''state'', PStr (if ra_mode s = lit ''required'' then lit ''pinned'' else ra_mode s)),
      (lit ''verification'', PStr verification), (lit ''profile_hash'', PStr (ra_profile_hash s)),
      (lit ''bundle_hash'', case ra_bundle_hash s of None \<Rightarrow> PNone | Some h \<Rightarrow> PStr h),
      (lit ''artifact_count'', PInt (ra_artifact_count s)), (lit ''executable_pinned'', PBool (ra_executable_pinned s)),
      (lit ''dependency_root_count'', PInt (ra_root_count s)), (lit ''dependency_file_count'', PInt (ra_file_count s)),
      (lit ''last_verified_at'', PStr (ra_verified_at s))]"

definition get_artifacts :: "runtime \<Rightarrow> state_file \<Rightarrow> (artifact_error, artifact_state option) result" where
  "get_artifacts R f = (case f of
     None \<Rightarrow> return None | Some v \<Rightarrow> bindR (artifact_state_of R v) (\<lambda>s. return (Some s)))"

type_synonym 'a artifact_effect = "(state_file, artifact_error, 'a) effect"

definition write_artifacts :: "runtime \<Rightarrow> (pyval \<Rightarrow> bool) \<Rightarrow> artifact_state \<Rightarrow> unit artifact_effect" where
  "write_artifacts R fits s =
     bindA (liftA (artifact_state_of R (artifact_object s))) (\<lambda>t.
     bindA (checkA (fits (artifact_object t)) ArtifactTooLarge) (\<lambda>_.
       writeA (\<lambda>_. Some (artifact_object t))))"

definition record_artifacts ::
  "runtime \<Rightarrow> (pyval \<Rightarrow> bool) \<Rightarrow> pystr \<Rightarrow> pystr \<Rightarrow> assurance \<Rightarrow> artifact_state artifact_effect" where
  "record_artifacts R fits stamp h a =
     bindA (liftA (artifact_hash h)) (\<lambda>h.
     bindA (liftA (artifact_state_of R (artifact_object (state_of_assurance h stamp a)))) (\<lambda>candidate.
     bindA (\<lambda>f. (get_artifacts R f, f)) (\<lambda>previous.
     bindA (checkA (case previous of
         Some s \<Rightarrow> ra_profile_hash s = h \<longrightarrow> state_authority s = state_authority candidate
       | None \<Rightarrow> True) ArtifactConflict) (\<lambda>_.
     bindA (write_artifacts R fits candidate) (\<lambda>_. okA candidate)))))"

end
