(* ===== verification/RuntimeArtifactProperties.thy ===== *)
theory RuntimeArtifactProperties
  imports RuntimeArtifacts ApprovalProperties "HOL-Library.Code_Target_Numeral"
begin

text \<open>
  Properties of the runtime artifacts: verification always returns, an accepted bundle is exactly what the
  operator pinned, and the recorded result does not change under one profile.
\<close>

subsection \<open>Verification returns\<close>

lemma inventory_returns:
  "\<exists>r. inventory_dependency_root list = Some r
     \<and> (\<forall>fs. r = return fs \<longrightarrow> set fs = as_posix ` files_under list {[]} \<and> distinct fs)"
  unfolding inventory_dependency_root_def
  using inventory_loop_returns [of "\<lparr>iv_stack = [[]], iv_count = 0, iv_files = []\<rparr>" list] by simp

lemma observe_roots_returns: "\<exists>r. observe_roots R D rs = Some r"
proof (induction rs)
  case (Cons r rs)
  obtain dir d where r: "r = (dir, d)" by (rule prod.exhaust)
  obtain x where "inventory_dependency_root (\<lambda>p. dk_scan D (dir @ p)) = Some x" using inventory_returns by blast
  then show ?case using Cons.IH by (auto simp: r split: sum.splits)
qed simp

lemma verify_roots_returns: "\<exists>r. verify_dependency_roots R D state_root roots = Some r"
  using observe_roots_returns by (auto simp: verify_dependency_roots_def split: sum.splits)

subsection \<open>What an accepted bundle is\<close>

lemma observe_pinE:
  assumes "observe_pin R D state_root seen pin = return (p, o')"
  shows "dk_resolve D (absolute_path D (an_path pin)) = Some p" "\<not> is_relative_to p state_root"
    "file_hash D p = return (an_sha256 pin)" "p \<notin> set seen"
  using assms by (auto simp: observe_pin_def wanted_def split: if_splits option.splits)

lemma observe_pins_all:
  "observe_pins R D state_root seen pins = return os \<Longrightarrow> map fst os = pins
     \<and> (\<forall>(pin, p, o') \<in> set os. dk_resolve D (absolute_path D (an_path pin)) = Some p
          \<and> \<not> is_relative_to p state_root \<and> file_hash D p = return (an_sha256 pin))"
proof (induction pins arbitrary: seen os)
  case (Cons pin pins)
  from Cons.prems obtain p o' rest where 1: "observe_pin R D state_root seen pin = return (p, o')"
    "observe_pins R D state_root (p # seen) pins = return rest" "os = (pin, p, o') # rest" by auto
  show ?case using observe_pinE [OF 1(1)] Cons.IH [OF 1(2)] 1(3) by auto
qed simp

lemma verify_pinsE:
  assumes "verify_pins R D program pins state_root cwd = return (executable, os)"
  shows "map fst os = pins" "resolve_command_executable D program cwd = return executable"
    "\<And>pin. pin \<in> set pins \<Longrightarrow> \<exists>p. dk_resolve D (absolute_path D (an_path pin)) = Some p
       \<and> \<not> is_relative_to p state_root \<and> file_hash D p = return (an_sha256 pin)"
    "\<exists>pin \<in> set pins. an_role pin = executable_role
       \<and> dk_resolve D (absolute_path D (an_path pin)) = Some executable"
proof -
  from assms have os: "observe_pins R D state_root [] pins = return os"
    and e: "dict_get executable_role (map (\<lambda>(pin, p, _). (an_role pin, p)) os) = Some executable"
    and c: "resolve_command_executable D program cwd = return executable"
    by (auto simp: verify_pins_def wanted_def split: if_splits option.splits)
  note all = observe_pins_all [OF os]
  show "map fst os = pins" "resolve_command_executable D program cwd = return executable" using all c by auto
  show "\<exists>p. dk_resolve D (absolute_path D (an_path pin)) = Some p
       \<and> \<not> is_relative_to p state_root \<and> file_hash D p = return (an_sha256 pin)" if "pin \<in> set pins" for pin
    using all that by (fastforce simp: in_set_conv_decomp)
  from dict_get_in_set [OF e] obtain pin o' where "(pin, executable, o') \<in> set os" "an_role pin = executable_role" by auto
  moreover from this all have "pin \<in> set pins" by (metis fst_conv image_eqI list.set_map)
  ultimately show "\<exists>pin \<in> set pins. an_role pin = executable_role
       \<and> dk_resolve D (absolute_path D (an_path pin)) = Some executable" using all by fastforce
qed

text \<open>A manifest is exact for a directory: its files are those that are there, with the pinned content.\<close>

definition manifest_exact :: "disk \<Rightarrow> path \<Rightarrow> dependency_root \<Rightarrow> bool" where
  "manifest_exact D dir d \<longleftrightarrow>
     as_posix ` files_under (\<lambda>p. dk_scan D (dir @ p)) {[]} = set (map df_path (dr_files d))
     \<and> (\<forall>f \<in> set (dr_files d). file_hash D (dir @ snd (posix_path (df_path f))) = return (df_sha256 f))"

lemma mapR_member: "mapR f xs = return ys \<Longrightarrow> x \<in> set xs \<Longrightarrow> \<exists>y \<in> set ys. f x = return y"
  by (induction xs arbitrary: ys) auto

lemma observe_fileE:
  "observe_file R D dir f = return o' \<Longrightarrow> file_hash D (dir @ snd (posix_path (df_path f))) = return (df_sha256 f)"
  by (auto simp: observe_file_def Let_def split: if_splits)

lemma observe_root_exact:
  assumes "inventory_dependency_root (\<lambda>p. dk_scan D (dir @ p)) = Some (return found)" "observe_root R D dir d found = return os"
  shows "manifest_exact D dir d"
proof -
  from assms(2) have found: "set found = set (map df_path (dr_files d))"
    and os: "mapR (observe_file R D dir) (sort_key df_path (dr_files d)) = return os"
    by (auto simp: observe_root_def split: if_splits)
  have "set found = as_posix ` files_under (\<lambda>p. dk_scan D (dir @ p)) {[]}"
    using inventory_returns [of "\<lambda>p. dk_scan D (dir @ p)"] assms(1) by simp
  moreover have "\<exists>o'. observe_file R D dir f = return o'" if "f \<in> set (dr_files d)" for f
    using mapR_member [OF os, of f] that by auto
  ultimately show ?thesis using found by (auto simp: manifest_exact_def dest: observe_fileE)
qed

lemma observe_roots_exact:
  "observe_roots R D rs = Some (return os) \<Longrightarrow> (dir, d) \<in> set rs \<Longrightarrow> manifest_exact D dir d"
proof (induction rs arbitrary: os)
  case (Cons r rs)
  obtain dir' d' where r: "r = (dir', d')" by (rule prod.exhaust)
  obtain found os' rest where 1: "inventory_dependency_root (\<lambda>p. dk_scan D (dir' @ p)) = Some (return found)"
    "observe_root R D dir' d' found = return os'" "observe_roots R D rs = Some (return rest)"
    using Cons.prems(1) by (auto simp: r split: option.splits sum.splits)
  show ?case using Cons.prems(2) Cons.IH [OF 1(3)] observe_root_exact [OF 1(1,2)] by (auto simp: r)
qed simp

lemma verify_roots_exact:
  assumes "verify_dependency_roots R D state_root roots = Some (return os)" "d \<in> set roots"
  shows "\<exists>dir. dk_resolve D (absolute_path D (dr_path d)) = Some dir \<and> manifest_exact D dir d
    \<and> \<not> is_relative_to dir state_root \<and> \<not> is_relative_to state_root dir"
proof -
  from assms obtain resolved where m: "mapR (resolve_root D state_root) roots = return resolved"
    and o: "observe_roots R D (sort_key (\<lambda>r. path_key D (fst r)) resolved) = Some (return os)"
    by (auto simp: verify_dependency_roots_def split: if_splits sum.splits)
  from mapR_member [OF m assms(2)] obtain r where r: "r \<in> set resolved" "resolve_root D state_root d = return r" by blast
  from r(2) obtain dir where d: "r = (dir, d)" "dk_resolve D (absolute_path D (dr_path d)) = Some dir"
    "\<not> is_relative_to dir state_root" "\<not> is_relative_to state_root dir"
    by (auto simp: resolve_root_def wanted_def split: if_splits option.splits)
  show ?thesis using observe_roots_exact [OF o, of dir d] r(1) d by auto
qed

lemma verifyE:
  assumes "verify_runtime_artifacts R D command pins workdir cwd roots = Some (return a)" "pins \<noteq> []"
  obtains executable observed dependencies where "command \<noteq> []"
    "verify_pins R D (hd command) pins (dk_resolve_lax D workdir) cwd = return (executable, observed)"
    "verify_dependency_roots R D (dk_resolve_lax D workdir) roots = Some (return dependencies)"
    "bundle_assurance R executable (tl command) roots observed dependencies = return a"
  using assms by (auto simp: verify_runtime_artifacts_def Let_def split: if_splits list.splits sum.splits option.splits)

lemma bundle_assurance_fields:
  assumes "bundle_assurance R executable arguments roots observed dependencies = return a"
  shows "aa_mode a = (if roots \<noteq> [] then lit ''closed'' else lit ''required'')"
    "aa_command a = path_text executable # arguments" "aa_root_count a = int (length roots)"
  using assms
  by (auto simp: bundle_assurance_def new_assurance_def text_in_def natural_def Let_def split: if_splits pyval.splits)

subsection \<open>The file\<close>

lemma new_assurance_same:
  assumes "new_assurance (PStr m) (case b of None \<Rightarrow> PNone | Some h \<Rightarrow> PStr h) (PInt n) (PBool p) c (PInt r) (PInt f) = return a"
  shows "a = \<lparr>aa_mode = m, aa_bundle_hash = b, aa_artifact_count = n, aa_executable_pinned = p, aa_command = c,
     aa_root_count = r, aa_file_count = f\<rparr>"
  using assms
  by (auto simp: new_assurance_def text_in_def bundle_of_def natural_def pinned_of_def artifact_hash_def Let_def
      split: option.splits if_splits)

lemma artifact_object_exact: "exact (artifact_object s)"
  by (cases "ra_bundle_hash s") (simp_all add: artifact_object_def exact_json_of)

lemma artifact_read_back:
  assumes "artifact_state_of R (artifact_object s) = return t"
  shows "t = s"
proof -
  from assms obtain obj where obj: "state_object max_artifact_state_bytes (artifact_object s) = Some obj"
    and p: "parse_artifact_state R obj = return t"
    by (auto simp: artifact_state_of_def wanted_def split: option.splits)
  have "artifact_object s = json_of obj" by (rule state_objectD(2) [OF obj artifact_object_exact])
  then have "object_entries (json_of obj) = object_entries (artifact_object s)" by simp
  then have o: "obj = [(lit ''schema_name'', PStr (lit ''defiant.runtime_artifacts'')), (lit ''schema_version'', PStr (lit ''0.2.0'')),
      (lit ''profile_hash'', PStr (ra_profile_hash s)), (lit ''mode'', PStr (ra_mode s)),
      (lit ''bundle_hash'', case ra_bundle_hash s of None \<Rightarrow> PNone | Some h \<Rightarrow> PStr h),
      (lit ''artifact_count'', PInt (ra_artifact_count s)), (lit ''executable_pinned'', PBool (ra_executable_pinned s)),
      (lit ''dependency_root_count'', PInt (ra_root_count s)), (lit ''dependency_file_count'', PInt (ra_file_count s)),
      (lit ''verified_at'', PStr (ra_verified_at s))]"
    unfolding artifact_object_def object_entries_json by simp
  from p obtain a where "new_assurance (PStr (ra_mode s)) (case ra_bundle_hash s of None \<Rightarrow> PNone | Some h \<Rightarrow> PStr h)
      (PInt (ra_artifact_count s)) (PBool (ra_executable_pinned s)) [] (PInt (ra_root_count s)) (PInt (ra_file_count s)) = return a"
    "t = state_of_assurance (ra_profile_hash s) (ra_verified_at s) a"
    by (auto simp: parse_artifact_state_def o got_def lit_eq_iff profile_field_def artifact_hash_def artifact_time_def Let_def
        split: if_splits)
  then show ?thesis by (auto dest!: new_assurance_same simp: state_of_assurance_def)
qed

lemma record_artifacts_cases:
  assumes "record_artifacts R fits stamp h a f = (r, g)"
  shows "g = f \<or> (\<exists>t. artifact_state_of R (artifact_object t) = return t \<and> g = Some (artifact_object t) \<and> ra_profile_hash t = h
     \<and> (\<forall>s. get_artifacts R f = return (Some s) \<longrightarrow> ra_profile_hash s = h \<longrightarrow> state_authority t = state_authority s))"
proof (cases "g = f")
  case False
  let ?t = "state_of_assurance h stamp a"
  from False assms obtain c v previous where 1: "artifact_hash h = return h" "artifact_state_of R (artifact_object ?t) = return c"
    "artifact_state_of R (artifact_object c) = return v" "get_artifacts R f = return previous"
    "case previous of None \<Rightarrow> True | Some s \<Rightarrow> ra_profile_hash s = h \<longrightarrow> state_authority s = state_authority c"
    "g = Some (artifact_object v)"
    by (auto simp: record_artifacts_def write_artifacts_def bindA_def artifact_hash_def checkA_def
        split: if_splits sum.splits prod.splits dest: sym)
  have "c = ?t" "v = c" using artifact_read_back [OF 1(2)] artifact_read_back [OF 1(3)] by simp_all
  then show ?thesis using 1 by (intro disjI2 exI [of _ ?t]) (auto simp: state_of_assurance_def)
qed simp

text \<open>Results recorded one after the other, all under one profile.\<close>

definition after_records ::
  "runtime \<Rightarrow> (pyval \<Rightarrow> bool) \<Rightarrow> pystr \<Rightarrow> (pystr \<times> assurance) list \<Rightarrow> state_file \<Rightarrow> state_file" where
  "after_records R fits h = fold (\<lambda>(stamp, a) f. snd (record_artifacts R fits stamp h a f))"

lemma after_records_Cons: "after_records R fits h ((stamp, a) # xs) f = after_records R fits h xs (snd (record_artifacts R fits stamp h a f))"
  by (simp add: after_records_def)

subsection \<open>Properties\<close>

text \<open>
  C39: Verification of an artifact bundle always returns, an assurance or an error, whatever the file system
  lists: also where directories are listed as their own children without end, since the entries are counted.
\<close>

theorem artifact_verification_returns:
  "\<exists>r. verify_runtime_artifacts R D command pins workdir cwd roots = Some r"
  using verify_roots_returns [of R D "dk_resolve_lax D workdir" roots]
  by (auto simp: verify_runtime_artifacts_def Let_def split: list.splits sum.splits)

text \<open>
  C16: An accepted bundle is exactly what the operator pinned: every artifact resolves to a file outside the
  harness state with the pinned digest, the command runs the pinned executable under its resolved path with
  the arguments unchanged, and every closed dependency root, apart from the harness state, holds exactly the
  files of its manifest with the pinned digests, nothing more.
\<close>

theorem accepted_bundle_exact:
  assumes "verify_runtime_artifacts R D command pins workdir cwd roots = Some (return a)" "pins \<noteq> []"
  shows "(\<forall>pin \<in> set pins. \<exists>p. dk_resolve D (absolute_path D (an_path pin)) = Some p
        \<and> \<not> is_relative_to p (dk_resolve_lax D workdir) \<and> file_hash D p = return (an_sha256 pin))
    \<and> (\<exists>executable. resolve_command_executable D (hd command) cwd = return executable
        \<and> (\<exists>pin \<in> set pins. an_role pin = executable_role \<and> dk_resolve D (absolute_path D (an_path pin)) = Some executable)
        \<and> aa_command a = path_text executable # tl command)
    \<and> (\<forall>d \<in> set roots. \<exists>dir. dk_resolve D (absolute_path D (dr_path d)) = Some dir \<and> manifest_exact D dir d
        \<and> \<not> is_relative_to dir (dk_resolve_lax D workdir) \<and> \<not> is_relative_to (dk_resolve_lax D workdir) dir)
    \<and> aa_mode a = (if roots \<noteq> [] then lit ''closed'' else lit ''required'')"
proof -
  from verifyE [OF assms] obtain executable observed dependencies where 1:
    "verify_pins R D (hd command) pins (dk_resolve_lax D workdir) cwd = return (executable, observed)"
    "verify_dependency_roots R D (dk_resolve_lax D workdir) roots = Some (return dependencies)"
    "bundle_assurance R executable (tl command) roots observed dependencies = return a" by blast
  note pins = verify_pinsE [OF 1(1)]
  have "\<exists>executable. resolve_command_executable D (hd command) cwd = return executable
        \<and> (\<exists>pin \<in> set pins. an_role pin = executable_role \<and> dk_resolve D (absolute_path D (an_path pin)) = Some executable)
        \<and> aa_command a = path_text executable # tl command"
    using pins(2,4) bundle_assurance_fields(2) [OF 1(3)] by blast
  then show ?thesis
    using pins(3) verify_roots_exact [OF 1(2)] bundle_assurance_fields(1) [OF 1(3)] by blast
qed

text \<open>
  C40: What is recorded for a profile stays: from a file that holds a result for a profile, after any number
  of verifications recorded under the same profile, accepted or refused, it holds a result for that profile
  with the same mode, bundle, counts and pinning.
\<close>

theorem recorded_bundle_stays:
  assumes "get_artifacts R f = return (Some s)" "ra_profile_hash s = h"
  shows "\<exists>t. get_artifacts R (after_records R fits h xs f) = return (Some t)
    \<and> ra_profile_hash t = h \<and> state_authority t = state_authority s"
  using assms
proof (induction xs arbitrary: f s)
  case Nil
  then show ?case by (simp add: after_records_def)
next
  case (Cons x xs)
  obtain stamp a where x: "x = (stamp, a)" by (rule prod.exhaust)
  obtain r g where rec: "record_artifacts R fits stamp h a f = (r, g)" by (rule prod.exhaust)
  have "\<exists>t. get_artifacts R g = return (Some t) \<and> ra_profile_hash t = h \<and> state_authority t = state_authority s"
    using record_artifacts_cases [OF rec] Cons.prems by (auto simp: get_artifacts_def)
  then show ?case using Cons.IH [of g] rec by (fastforce simp: x after_records_Cons)
qed

subsection \<open>Examples\<close>


text \<open>A disk with an executable and a directory of one file and one subdirectory with another.\<close>

definition example_file :: dir_entry where
  "example_file = \<lparr>de_name = lit ''a'', de_link = False, de_kind = Some (RegularEntry 1)\<rparr>"

definition example_disk :: disk where
  "example_disk =
     \<lparr>dk_cwd = [],
      dk_lstat = \<lambda>p. Some \<lparr>fs_kind = RegularFile, fs_reparse = False, fs_links = 1, fs_size = 3\<rparr>,
      dk_stat = \<lambda>p. Some \<lparr>fs_kind = (if p = [lit ''lib''] then DirectoryFile else RegularFile), fs_reparse = False,
        fs_links = 1, fs_size = 3\<rparr>,
      dk_resolve = Some, dk_resolve_lax = \<lambda>p. p,
      dk_scan = \<lambda>p. if p = [lit ''lib'']
        then Some [example_file, \<lparr>de_name = lit ''sub'', de_link = False, de_kind = Some DirectoryEntry\<rparr>]
        else Some [example_file],
      dk_digest = \<lambda>_. Some flat_digest, dk_which = \<lambda>_. None, dk_normcase = \<lambda>t. t\<rparr>"

definition example_pin :: artifact_pin where
  "example_pin = \<lparr>an_role = executable_role, an_path = (True, [lit ''bin'', lit ''tool'']), an_sha256 = lit ''sha256:'' @ flat_digest\<rparr>"

definition example_root :: dependency_root where
  "example_root = \<lparr>dr_path = (True, [lit ''lib'']), dr_files =
     [\<lparr>df_path = lit ''sub/a'', df_sha256 = lit ''sha256:'' @ flat_digest\<rparr>,
      \<lparr>df_path = lit ''a'', df_sha256 = lit ''sha256:'' @ flat_digest\<rparr>]\<rparr>"

definition example_verification :: "(artifact_error, assurance) result option" where
  "example_verification = verify_runtime_artifacts numeral_clock example_disk [lit ''/bin/tool'', lit ''serve''] [example_pin]
     [lit ''state''] None [example_root]"

lemma example_verified: "case example_verification of Some (Inr a) \<Rightarrow> aa_file_count a = 2 | _ \<Rightarrow> False"
  by code_simp

theorem accepted_bundle_exact_witness:
  "\<exists>a dir. example_verification = Some (return a) \<and> aa_mode a = lit ''closed'' \<and> manifest_exact example_disk dir example_root"
proof -
  obtain a where a: "example_verification = Some (return a)"
    using example_verified by (auto split: option.splits sum.splits)
  from accepted_bundle_exact [OF a [unfolded example_verification_def]] a show ?thesis by auto
qed

definition recorded_example :: state_file where
  "recorded_example = snd (record_artifacts numeral_clock (\<lambda>_. True) (lit ''5'') (lit ''sha256:'' @ flat_digest)
     \<lparr>aa_mode = lit ''unverified'', aa_bundle_hash = None, aa_artifact_count = 0, aa_executable_pinned = False,
      aa_command = [], aa_root_count = 0, aa_file_count = 0\<rparr> None)"

definition pinned_assurance :: assurance where
  "pinned_assurance =
     \<lparr>aa_mode = lit ''required'', aa_bundle_hash = Some (lit ''sha256:'' @ flat_digest), aa_artifact_count = 1,
      aa_executable_pinned = True, aa_command = [], aa_root_count = 0, aa_file_count = 0\<rparr>"

lemma example_recorded: "case get_artifacts numeral_clock recorded_example of
     Inr (Some s) \<Rightarrow> ra_profile_hash s = lit ''sha256:'' @ flat_digest \<and> ra_mode s = lit ''unverified'' | _ \<Rightarrow> False"
  by code_simp

theorem recorded_bundle_stays_witness:
  "\<exists>t. get_artifacts numeral_clock (after_records numeral_clock (\<lambda>_. True) (lit ''sha256:'' @ flat_digest)
        [(lit ''6'', pinned_assurance)] recorded_example) = return (Some t) \<and> ra_profile_hash t = lit ''sha256:'' @ flat_digest"
proof -
  obtain s where "get_artifacts numeral_clock recorded_example = return (Some s)" "ra_profile_hash s = lit ''sha256:'' @ flat_digest"
    using example_recorded by (auto split: option.splits sum.splits)
  from recorded_bundle_stays [OF this] show ?thesis by blast
qed

end
