(* ===== verification/Spec2Isabelle.thy ===== *)
theory Spec2Isabelle
  imports LedgerProperties CanonicalProperties ContractProperties AuthorityProperties ApprovalProperties EvidenceProperties
    HarnessProperties RegistryProperties PolicyProperties AuthorityStateProperties AdapterProperties
    RuntimeArtifactProperties
begin

text \<open>
  The Defiant Agent Harness (\<open>src/defiant_agent_harness\<close>): a model of its authority path and the theorems
  that make it correct. The harness stands between an agent and its tools: an agent's tool call becomes a
  proposed action; the action is decided by a policy, may wait for an operator's approval, has its cost
  reserved in a budget, is recorded in a hash-chained evidence file, and only then reaches a handler, under
  a single-use grant. All of it survives crashes: every step is a file write, and an operation journal lets
  the next process finish or undo what was interrupted.

  \<^bold>\<open>Foundations.\<close> \<open>Prelude\<close>: results (\<open>raise\<close>, \<open>return\<close>, \<open>bindR\<close>: every exception and early return of the source
  is a branch), effects that keep their state on an exception (\<open>bindA\<close>), dictionaries as association lists in
  insertion order. \<open>PyText\<close>: \<open>str\<close> as code points with the methods the source uses. \<open>Decimals\<close>, \<open>Money\<close>:
  \<open>money.py\<close> with the 28-digit context of \<open>Decimal\<close>. \<open>PyVal\<close>: the values of JSON and what the program puts beside
  them. \<open>Effects\<close>: triples over effects with separate postconditions for a return and an exception.
  \<open>Recovery\<close>: the locale \<open>recoverable\<close>, an operation that recognises its own earlier effect.

  \<^bold>\<open>Canonical JSON\<close> (\<open>contracts.py\<close>, \<open>limits.py\<close>). \<open>Canonical\<close>: the encoder behind every hash and the bounded
  traversal with its counters (\<open>_validate_action_hash_structure\<close>). \<open>CanonicalFacts\<close>: the counted bytes are the
  bytes of the encoding, and a snapshot obeys every ceiling. \<open>CanonicalPaths\<close>: the bounded hashing path is the
  unbounded one. \<open>CanonicalTokens\<close>, \<open>CanonicalInjective\<close>: the encoding determines the value, so equal hashes mean
  equal data or that the two canonical texts, which the theorems name, are a collision of SHA-256.

  \<^bold>\<open>Contracts\<close> (\<open>contracts.py\<close>). \<open>Contracts\<close>: provenance, requests, actions with their seal and fingerprints,
  guardrail decisions, grants. \<open>ContractFacts\<close>, \<open>ContractProperties\<close>, \<open>AuthorityProperties\<close>: what a seal fixes, that a
  grant opens one sealed action once, and that an authorization hash binds every field of the action.

  \<^bold>\<open>Stores.\<close> \<open>Ledger\<close> (\<open>budgets/ledger.py\<close>): one definition per operation over the budget file; \<open>LedgerFacts\<close>,
  \<open>LedgerRuns\<close>, \<open>LedgerOnce\<close>, \<open>LedgerRecovery\<close>: the file stays valid, money is conserved over every run, nothing is
  charged twice, repeated operations change nothing. \<open>ApprovalRecord\<close>, \<open>Approvals\<close> (\<open>approvals/store.py\<close>) with
  \<open>OperatorIdentity\<close> (\<open>operator_identity.py\<close>): the queue and its signed decisions; \<open>ApprovalFacts\<close>, \<open>ApprovalRecovery\<close>: the life
  cycle as a refinement, one execution per approval. \<open>EvidenceRecord\<close>, \<open>EvidenceHead\<close> (\<open>evidence_head.py\<close>), \<open>Evidence\<close>
  (\<open>evidence/store.py\<close>): the sealed chain and its checkpoint; \<open>EvidenceFacts\<close>, \<open>EvidenceRecovery\<close>: appends extend, nothing
  is removed, the checkpoint pins the history, an interrupted append is repaired.

  \<^bold>\<open>Deciding and acting.\<close> \<open>Globs\<close>, \<open>Policy\<close>, \<open>PolicyEngine\<close> (\<open>policy/engine.py\<close>): rules, matching under work ceilings,
  construction and evaluation; \<open>PolicyFacts\<close> splits matching into which rules fire and what it spends;
  \<open>PolicyBinding\<close>: the ruleset hash and what construction establishes. \<open>Registry\<close> (\<open>tools/registry.py\<close>): tool contracts,
  workspace targets, grants and the only path to a handler; a handler is a function from the action to its
  outcome, and the calls made are part of the state. \<open>Journal\<close> (\<open>operation_journal.py\<close>): the one prepared operation.

  \<^bold>\<open>The control loop\<close> (\<open>orchestrator/harness.py\<close>). \<open>HarnessState\<close>: the files, the tools and \<open>hn_writes_left\<close>, the number of
  file writes this process still makes before it is killed; a killed process leaves what it wrote, so every
  crash point between writes is covered. \<open>HarnessRecovery\<close>: \<open>_recover_operation\<close>. \<open>Harness\<close>, \<open>HarnessResume\<close>: the entry
  points. Clock readings and fresh identifiers come from \<open>readings\<close>, a function of the place in the code, a
  list of numbers extended at every call (\<open>inside n env\<close>), so that no two readings are assumed equal.
  \<open>HarnessFrame\<close>, \<open>HarnessOnce\<close>, \<open>HarnessRuns\<close>, \<open>HarnessCalls\<close>: the invariant of an action that runs once, along
  the text of every entry point. \<open>HarnessStores\<close>: the steps of the three stores, and the locale \<open>store_promises\<close>, through
  which whatever they keep is kept by the loop. \<open>HarnessAuthority\<close>: what has been checked when a handler
  runs (contract, scope, rules, budget, approval, evidence); \<open>HarnessCleared\<close>: the entry points that get
  there, and for which action and request. \<open>HarnessMachine\<close>: a state directory used by any sequence of
  processes. \<open>HarnessProperties\<close>, \<open>RegistryProperties\<close>: the properties.

  \<^bold>\<open>The agent\<close> (\<open>adapters/base.py\<close>, \<open>adapters/mock.py\<close>). \<open>Adapter\<close>: tool calls, their sealing and translation (what an
  adapter overrides is a field of \<open>adapter\<close>), and
  \<open>handle_call\<close>, \<open>preflight_external_call\<close> (\<open>handle_call\<close> with the flag \<open>external\<close>) and \<open>run\<close>. \<open>AdapterFacts\<close>,
  \<open>AdapterProperties\<close>: whatever an agent asks for, a handler runs only for what one of its calls was translated to.

  \<^bold>\<open>Durable authority.\<close> \<open>DurableState\<close>: bounded reading of a small file, and the locale \<open>ratchet\<close>, a file whose generation
  moves by linked steps. \<open>OperatorKeys\<close>, \<open>OperatorSigning\<close>, \<open>OperatorTrust\<close> (\<open>operator_identity.py\<close>,
  \<open>operator_trust_state.py\<close>), \<open>AuthorityProfile\<close> (\<open>authority_profile.py\<close>), \<open>PublicationContinuity\<close>
  (\<open>authority_publication_continuity.py\<close>): keys, signatures, rotations, the pinned profile, the published anchor;
  \<open>OperatorTrustFacts\<close>, \<open>AuthorityProfileFacts\<close>, \<open>OperatorSigningFacts\<close>, \<open>OperatorTrustProgress\<close>: each file interprets the
  ratchet, what is written is read back, what is signed verifies. \<open>AuthorityStateProperties\<close>: the properties.

  \<^bold>\<open>Runtime artifacts\<close> (\<open>runtime_artifacts.py\<close>). \<open>DependencyInventory\<close>: the loop over directories, a partial function
  that returns for every listing because it counts entries up to 200000. \<open>RuntimeArtifacts\<close>: pins, verification and
  the recorded result. \<open>RuntimeArtifactProperties\<close>: verification returns, an accepted bundle is exactly the pinned one.

  \<^bold>\<open>Parameters.\<close> SHA-256 and HMAC (\<open>rt_sha256\<close>, \<open>rt_hmac\<close>) are arbitrary functions; a theorem that needs them to tell
  texts apart says instead which two texts are a collision. So are the instant of a timestamp text (\<open>rt_instant\<close>) and its rendering,
  Ed25519 verification and key files, \<open>str\<close> and case folding of non-ASCII text (\<open>text_library\<close>), the resolution of
  paths (\<open>ws_resolve\<close>, \<open>disk\<close>), whether a file fits its size ceiling (\<open>te_fits\<close>, \<open>fits\<close>), and the audit of the state directory
  (\<open>hc_audit\<close>). Every ceiling of \<open>limits.py\<close> that the modelled code reads is a constant with the value of the source;
  no fuel is used: recursion is on the data, or a measure, or the counted entries of the inventory.

  \<^bold>\<open>Not modelled.\<close> The state audit, remote publication and witnesses, process launch, file locks and permissions,
  the parsers of JSON and YAML text, transports, vendor hooks, the command server and the command line. A file
  lock serialises whole operations, which is the grain of the sequences of calls here; the write of one file is
  atomic, as \<open>persistence.py\<close> makes it. Values are finite trees, so cyclic containers do not arise.

  \<^bold>\<open>Simplifications.\<close> An operation of the approval queue takes one clock reading for all its checks. The grant key
  signs the claims of a grant as they stand, without validating the grant once more. Reading canonical JSON
  back keeps every text as it is, surrogates included; results that need it exclude surrogates. A process killed
  at the last write of an append leaves the checkpoint as it was before that call, a reconciliation made by
  the same call included.
\<close>

end
